(* ===== verification/Prelude.thy ===== *)
theory Prelude
  imports Main "HOL-Library.Word" "HOL-Library.Code_Target_Numeral"
begin

unbundle bit_operations_syntax

text \<open>
  What every component of the gateway shares: the machine integers of the C sources as words,
  the status codes of the ESP-IDF functions as a datatype, C strings held in fixed-size
  buffers, decimal and hexadecimal formatting as \<open>snprintf\<close> does it, and the scan
  for the first matching slot of a table, which most of the components are built on.
\<close>

section \<open>Types\<close>

type_synonym u8 = "8 word"
type_synonym u16 = "16 word"
type_synonym u32 = "32 word"
type_synonym u64 = "64 word"

text \<open>
  Milliseconds (\<open>int64_t\<close>). The counter that feeds them is microseconds since boot
  divided by 1000, so it cannot come near the 64-bit limit, and it is an \<open>int\<close> here.
\<close>

type_synonym ms = int

text \<open>The status codes the sources return or compare with; any other one is \<open>ESP_ERR_OTHER\<close>.\<close>

datatype esp_err =
    ESP_OK
  | ESP_FAIL
  | ESP_ERR_NO_MEM
  | ESP_ERR_INVALID_ARG
  | ESP_ERR_INVALID_STATE
  | ESP_ERR_INVALID_SIZE
  | ESP_ERR_NOT_FOUND
  | ESP_ERR_NOT_SUPPORTED
  | ESP_ERR_TIMEOUT
  | ESP_ERR_INVALID_RESPONSE
  | ESP_ERR_INVALID_CRC
  | ESP_ERR_NOT_ALLOWED
  | ESP_ERR_NVS_NOT_FOUND
  | ESP_ERR_OTHER nat

section \<open>Automation collections\<close>

named_theorems frame_simps \<open>fields an operation leaves unchanged\<close>
named_theorems inv_intros \<open>an operation keeps the invariant of its component\<close>
named_theorems scan_simps \<open>first-match scans over tables\<close>

section \<open>C strings\<close>

text \<open>
  A \<open>char buf[n]\<close> holding a C string is the string of the bytes before its terminating NUL,
  so it is shorter than \<open>n\<close>. \<open>strlcpy\<close> truncates to \<open>n - 1\<close> bytes, \<open>strlcat\<close> appends what
  still fits, and \<open>snprintf\<close> into a buffer is \<open>strlcpy\<close> of the formatted text.
\<close>

definition strlcpy :: "nat \<Rightarrow> string \<Rightarrow> string" where
  "strlcpy n src = take (n - 1) src"

definition strlcat :: "nat \<Rightarrow> string \<Rightarrow> string \<Rightarrow> string" where
  "strlcat n dst src = dst @ take (n - 1 - length dst) src"

lemma length_strlcpy: "0 < n \<Longrightarrow> length (strlcpy n s) < n"
  by (simp add: strlcpy_def)

lemma length_strlcpy_le: "length (strlcpy n s) \<le> n - 1"
  by (simp add: strlcpy_def)

lemma strlcpy_fits [simp]: "length s < n \<Longrightarrow> strlcpy n s = s"
  by (simp add: strlcpy_def)

lemma strlcpy_idem [simp]: "strlcpy n (strlcpy n s) = strlcpy n s"
  by (simp add: strlcpy_def)

lemma set_strlcpy: "set (strlcpy n s) \<subseteq> set s"
  by (simp add: strlcpy_def set_take_subset)

lemma length_strlcat: "length d < n \<Longrightarrow> length (strlcat n d s) < n"
  by (simp add: strlcat_def)

lemma strlcat_fits [simp]: "length d + length s < n \<Longrightarrow> strlcat n d s = d @ s"
  by (simp add: strlcat_def)

section \<open>Number formatting\<close>

definition digit_char :: "nat \<Rightarrow> char" where
  "digit_char d = char_of (48 + d)"

text \<open>\<open>%u\<close>\<close>

fun dec :: "nat \<Rightarrow> string" where
  "dec n = (if n < 10 then [digit_char n] else dec (n div 10) @ [digit_char (n mod 10)])"

declare dec.simps [simp del]

text \<open>\<open>%02u\<close>\<close>

definition dec2 :: "nat \<Rightarrow> string" where
  "dec2 n = (if n < 10 then CHR ''0'' # dec n else dec n)"

text \<open>\<open>%0kX\<close> (or \<open>%0kx\<close>) of a number that fits in \<open>k\<close> hexadecimal digits.\<close>

definition hex_char :: "bool \<Rightarrow> nat \<Rightarrow> char" where
  "hex_char up d = (if d < 10 then char_of (48 + d)
                    else char_of ((if up then 55 else 87) + d))"

fun hex :: "bool \<Rightarrow> nat \<Rightarrow> nat \<Rightarrow> string" where
  "hex up 0 n = []"
| "hex up (Suc k) n = hex up k (n div 16) @ [hex_char up (n mod 16)]"

lemma length_hex [simp]: "length (hex up k n) = k"
  by (induction k arbitrary: n) auto

text \<open>The value of a hexadecimal digit in either case, as \<open>strtoul\<close> with base 16 reads it.\<close>

definition hex_val :: "char \<Rightarrow> nat option" where
  "hex_val c =
     (let k = of_char c :: nat in
      if 48 \<le> k \<and> k \<le> 57 then Some (k - 48)
      else if 65 \<le> k \<and> k \<le> 70 then Some (k - 55)
      else if 97 \<le> k \<and> k \<le> 102 then Some (k - 87)
      else None)"

fun hex_read :: "nat \<Rightarrow> string \<Rightarrow> nat option" where
  "hex_read acc [] = Some acc"
| "hex_read acc (c # cs) =
     (case hex_val c of None \<Rightarrow> None | Some d \<Rightarrow> hex_read (16 * acc + d) cs)"

lemma hex_val_char [simp]: "d < 16 \<Longrightarrow> hex_val (hex_char up d) = Some d"
  by (auto simp: hex_val_def hex_char_def Let_def)

lemma hex_read_append:
  "hex_read acc (xs @ ys) =
     (case hex_read acc xs of None \<Rightarrow> None | Some a \<Rightarrow> hex_read a ys)"
  by (induction xs arbitrary: acc) (auto split: option.splits)

lemma hex_read_hex: "n < 16 ^ k \<Longrightarrow> hex_read acc (hex up k n) = Some (16 ^ k * acc + n)"
proof (induction k arbitrary: n)
  case 0
  then show ?case by simp
next
  case (Suc k)
  then have "n div 16 < 16 ^ k"
    by (simp add: less_mult_imp_div_less mult.commute)
  then have "hex_read acc (hex up k (n div 16)) = Some (16 ^ k * acc + n div 16)"
    by (rule Suc.IH)
  then show ?case
    by (simp add: hex_read_append algebra_simps)
qed

section \<open>First match in a table\<close>

text \<open>The index of the first slot a scan \<open>for (i = 0; i < n; ++i) if (P(t[i])) return i;\<close> stops at.\<close>

fun find_slot :: "('a \<Rightarrow> bool) \<Rightarrow> 'a list \<Rightarrow> nat option" where
  "find_slot P [] = None"
| "find_slot P (x # xs) = (if P x then Some 0 else map_option Suc (find_slot P xs))"

lemma find_slot_None [scan_simps]: "find_slot P xs = None \<longleftrightarrow> (\<forall>x \<in> set xs. \<not> P x)"
  by (induction xs) auto

lemma find_slot_Some:
  "find_slot P xs = Some i \<longleftrightarrow> i < length xs \<and> P (xs ! i) \<and> (\<forall>j < i. \<not> P (xs ! j))"
proof (induction xs arbitrary: i)
  case Nil
  then show ?case by simp
next
  case (Cons x xs)
  then show ?case
    by (cases i) (auto simp: nth_Cons less_Suc_eq_0_disj)
qed

lemma find_slot_SomeD:
  assumes "find_slot P xs = Some i"
  shows "i < length xs" "P (xs ! i)" "\<And>j. j < i \<Longrightarrow> \<not> P (xs ! j)"
  using assms by (auto simp: find_slot_Some)

lemma find_eq_find_slot [scan_simps]:
  "List.find P xs = map_option (\<lambda>i. xs ! i) (find_slot P xs)"
  by (induction xs) (auto simp: option.map_comp comp_def)

lemma find_slot_cong:
  "(\<And>x. x \<in> set xs \<Longrightarrow> P x = Q x) \<Longrightarrow> find_slot P xs = find_slot Q xs"
  by (induction xs) auto

lemma find_slot_append:
  "find_slot P (xs @ ys) =
     (case find_slot P xs of Some i \<Rightarrow> Some i
      | None \<Rightarrow> map_option (\<lambda>i. i + length xs) (find_slot P ys))"
  by (induction xs) (auto split: option.splits simp: option.map_comp comp_def option.map_ident)

text \<open>The last \<open>n\<close> elements: what a ring of capacity \<open>n\<close> still holds.\<close>

definition lastn :: "nat \<Rightarrow> 'a list \<Rightarrow> 'a list" where
  "lastn n xs = drop (length xs - n) xs"

lemma length_lastn [simp]: "length (lastn n xs) = min n (length xs)"
  by (simp add: lastn_def)

lemma lastn_all [simp]: "length xs \<le> n \<Longrightarrow> lastn n xs = xs"
  by (simp add: lastn_def)

lemma lastn_lastn_append: "lastn n (lastn n xs @ ys) = lastn n (xs @ ys)"
  by (cases "length xs \<le> n") (auto simp: lastn_def add.commute)

lemma nth_lastn: "i < min n (length xs) \<Longrightarrow> lastn n xs ! i = xs ! (length xs - min n (length xs) + i)"
  by (auto simp: lastn_def min_def)

end
