(* ===== verification/Map_Store.thy ===== *)
theory Map_Store
  imports Prelude
begin

text \<open>
  What the users of a keyed table rely on. In a \<open>keyed_store\<close> a stored value is what a lookup of
  its key gives afterwards, with every other lookup unchanged, as long as there is room; the
  pool of current states provides that. A \<open>map_store\<close> also refuses a value it has no room for
  and is then unchanged, as the mapping table is.
\<close>

locale keyed_store =
  fixes lookup :: "'s \<Rightarrow> 'k \<Rightarrow> 'v option"
    and key :: "'v \<Rightarrow> 'k"
    and kept :: "'s \<Rightarrow> 'v \<Rightarrow> 'v"
    and store :: "'v \<Rightarrow> 's \<Rightarrow> 's"
    and room :: "'v \<Rightarrow> 's \<Rightarrow> bool"
    and inv :: "'s \<Rightarrow> bool"
  assumes inv_store: "inv s \<Longrightarrow> inv (store v s)"
    and lookup_store: "inv s \<Longrightarrow> room v s \<Longrightarrow>
      lookup (store v s) k = (if k = key v then Some (kept s v) else lookup s k)"
    and room_present: "inv s \<Longrightarrow> lookup s (key v) \<noteq> None \<Longrightarrow> room v s"
begin

text \<open>A run of stores to keys that are already there.\<close>

lemma present_fold:
  "inv s \<Longrightarrow> \<forall>v \<in> set vs. lookup s (key v) \<noteq> None \<Longrightarrow>
   inv (fold store vs s) \<and> (lookup (fold store vs s) k = None \<longleftrightarrow> lookup s k = None) \<and>
   (k \<notin> key ` set vs \<longrightarrow> lookup (fold store vs s) k = lookup s k)"
proof (induction vs arbitrary: s)
  case Nil
  then show ?case by simp
next
  case (Cons v vs)
  have step: "lookup (store v s) j = (if j = key v then Some (kept s v) else lookup s j)" for j
    using Cons.prems by (intro lookup_store room_present) simp_all
  have "\<forall>w \<in> set vs. lookup (store v s) (key w) \<noteq> None" using Cons.prems(2) by (simp add: step)
  then show ?case
    using Cons.IH [of "store v s"] Cons.prems inv_store [of s v] step by auto
qed

lemma present_last:
  assumes "inv s" "\<forall>v \<in> set (us @ [v]). lookup s (key v) \<noteq> None"
  shows "\<exists>t. inv t \<and> lookup (fold store (us @ [v]) s) (key v) = Some (kept t v)"
proof -
  let ?t = "fold store us s"
  have t: "inv ?t" "lookup ?t (key v) \<noteq> None" using present_fold [of s us "key v"] assms by auto
  then show ?thesis by (intro exI [of _ ?t]) (simp add: lookup_store room_present)
qed

end

locale map_store = keyed_store +
  assumes store_full: "inv s \<Longrightarrow> \<not> room v s \<Longrightarrow> lookup (store v s) k = lookup s k"
begin

lemma inv_fold: "inv s \<Longrightarrow> inv (fold store vs s)"
  by (induction vs arbitrary: s) (simp_all add: inv_store)

lemma lookup_other: "inv s \<Longrightarrow> k \<noteq> key v \<Longrightarrow> lookup (store v s) k = lookup s k"
  by (cases "room v s") (simp_all add: lookup_store store_full)

lemma lookup_fold_other:
  "inv s \<Longrightarrow> k \<notin> key ` set vs \<Longrightarrow> lookup (fold store vs s) k = lookup s k"
  by (induction vs arbitrary: s) (simp_all add: inv_store lookup_other)

lemma stays_present: "inv s \<Longrightarrow> lookup s k \<noteq> None \<Longrightarrow> lookup (store v s) k \<noteq> None"
  by (cases "room v s"; cases "k = key v") (simp_all add: lookup_store store_full)

lemma stays_present_fold: "inv s \<Longrightarrow> lookup s k \<noteq> None \<Longrightarrow> lookup (fold store vs s) k \<noteq> None"
proof (induction vs arbitrary: s)
  case Nil
  then show ?case by simp
next
  case (Cons v vs)
  show ?case using Cons.IH [OF inv_store [OF Cons.prems(1)] stays_present [OF Cons.prems]] by simp
qed

lemma last_store_wins:
  assumes "inv s" "lookup s (key v) \<noteq> None"
  shows "\<exists>t. inv t \<and> lookup (fold store (us @ [v]) s) (key v) = Some (kept t v)"
proof -
  let ?t = "fold store us s"
  have "inv ?t" "lookup ?t (key v) \<noteq> None"
    using assms by (simp_all add: inv_fold stays_present_fold)
  then show ?thesis
    by (intro exI [of _ ?t]) (simp add: lookup_store room_present)
qed

end

end
