(* ===== verification/Soft_Float.thy ===== *)
theory Soft_Float
  imports Prelude
begin

text \<open>
  The \<open>float\<close> and \<open>double\<close> of the C sources: IEEE 754 binary32 and binary64 with round to
  nearest, ties to even. A value is its bit pattern, so that the \<open>memcpy\<close> between a float and
  an integer of the sources is the identity; an operation unpacks its arguments, computes
  exactly on integers and rounds once. Everything is executable. The results show that
  small integers convert exactly, that \<open>llround\<close> reads them back, and that a float survives
  the trip through a double. The payload of a NaN result is the default one.
\<close>

type_synonym f32 = "32 word"
type_synonym f64 = "64 word"

datatype fp = FNaN | FInf bool | FFin bool nat int
  \<comment> \<open>\<open>FFin s m e\<close> is the value \<open>(-1)^s * m * 2^e\<close>\<close>

section \<open>Packing and unpacking\<close>

text \<open>
  A format is given by the bits of its fraction \<open>fb\<close>, the bits of its exponent \<open>ew\<close>, and \<open>K\<close>:
  the smallest positive value is \<open>2^(-K)\<close>.
\<close>

definition fp_unpack :: "nat \<Rightarrow> nat \<Rightarrow> nat \<Rightarrow> nat \<Rightarrow> fp" where
  "fp_unpack fb ew K b =
     (let s = odd (b div 2 ^ (fb + ew)); E = b div 2 ^ fb mod 2 ^ ew; F = b mod 2 ^ fb in
      if E = 2 ^ ew - 1 then (if F = 0 then FInf s else FNaN)
      else if E = 0 then FFin s F (- int K)
      else FFin s (2 ^ fb + F) (int E - 1 - int K))"

fun bits_len :: "nat \<Rightarrow> nat" where
  "bits_len n = (if n = 0 then 0 else Suc (bits_len (n div 2)))"

declare bits_len.simps [simp del]

text \<open>\<open>flog2 n d\<close> is the floor of the binary logarithm of \<open>n / d\<close>.\<close>

definition flog2 :: "nat \<Rightarrow> nat \<Rightarrow> int" where
  "flog2 n d = (let t = bits_len d in int (bits_len (n * 2 ^ t div d)) - 1 - int t)"

text \<open>\<open>rne n d\<close> is \<open>n / d\<close> rounded to the nearest integer, ties to even.\<close>

definition rne :: "nat \<Rightarrow> nat \<Rightarrow> nat" where
  "rne n d =
     (let t = 2 * n div d; q = t div 2 in
      if even t then q else if d dvd 2 * n \<and> even q then q else Suc q)"

definition fp_pack :: "nat \<Rightarrow> nat \<Rightarrow> nat \<Rightarrow> bool \<Rightarrow> nat \<Rightarrow> nat \<Rightarrow> nat" where
  "fp_pack fb ew K s n d =
     (let sb = (if s then 2 ^ (fb + ew) else 0) in
      if n = 0 then sb
      else
        let q = max (flog2 n d - int fb) (- int K);
            m = (if 0 \<le> q then rne n (d * 2 ^ nat q) else rne (n * 2 ^ nat (- q)) d)
        in sb + min (nat (q + int K) * 2 ^ fb + m) ((2 ^ ew - 1) * 2 ^ fb))"

definition fp_round :: "nat \<Rightarrow> nat \<Rightarrow> nat \<Rightarrow> fp \<Rightarrow> nat" where
  "fp_round fb ew K x =
     (case x of
        FNaN \<Rightarrow> (2 ^ ew - 1) * 2 ^ fb + 2 ^ (fb - 1)
      | FInf s \<Rightarrow> (if s then 2 ^ (fb + ew) else 0) + (2 ^ ew - 1) * 2 ^ fb
      | FFin s m e \<Rightarrow> (if 0 \<le> e then fp_pack fb ew K s (m * 2 ^ nat e) 1
                     else fp_pack fb ew K s m (2 ^ nat (- e))))"

definition f64_get :: "f64 \<Rightarrow> fp" where
  "f64_get x = fp_unpack 52 11 1074 (unat x)"

definition f64_put :: "fp \<Rightarrow> f64" where
  "f64_put v = word_of_nat (fp_round 52 11 1074 v)"

definition f32_get :: "f32 \<Rightarrow> fp" where
  "f32_get x = fp_unpack 23 8 149 (unat x)"

definition f32_put :: "fp \<Rightarrow> f32" where
  "f32_put v = word_of_nat (fp_round 23 8 149 v)"

section \<open>Operations\<close>

definition fp_neg :: "fp \<Rightarrow> fp" where
  "fp_neg x = (case x of FNaN \<Rightarrow> FNaN | FInf s \<Rightarrow> FInf (\<not> s) | FFin s m e \<Rightarrow> FFin (\<not> s) m e)"

definition signed :: "bool \<Rightarrow> nat \<Rightarrow> int" where
  "signed s m = (if s then - int m else int m)"

fun fp_add :: "fp \<Rightarrow> fp \<Rightarrow> fp" where
  "fp_add FNaN _ = FNaN"
| "fp_add _ FNaN = FNaN"
| "fp_add (FInf s) (FInf t) = (if s = t then FInf s else FNaN)"
| "fp_add (FInf s) _ = FInf s"
| "fp_add _ (FInf t) = FInf t"
| "fp_add (FFin s m e) (FFin t n f) =
     (let g = min e f;
          z = signed s (m * 2 ^ nat (e - g)) + signed t (n * 2 ^ nat (f - g))
      in if z = 0 then FFin (s \<and> t) 0 0 else FFin (z < 0) (nat \<bar>z\<bar>) g)"

fun fp_mul :: "fp \<Rightarrow> fp \<Rightarrow> fp" where
  "fp_mul FNaN _ = FNaN"
| "fp_mul _ FNaN = FNaN"
| "fp_mul (FInf s) (FInf t) = FInf (s \<noteq> t)"
| "fp_mul (FInf s) (FFin t n f) = (if n = 0 then FNaN else FInf (s \<noteq> t))"
| "fp_mul (FFin s m e) (FInf t) = (if m = 0 then FNaN else FInf (s \<noteq> t))"
| "fp_mul (FFin s m e) (FFin t n f) = FFin (s \<noteq> t) (m * n) (e + f)"

text \<open>Comparison. Every comparison with a NaN is false, and the two zeros are equal.\<close>

fun fp_lt :: "fp \<Rightarrow> fp \<Rightarrow> bool" where
  "fp_lt FNaN _ = False"
| "fp_lt _ FNaN = False"
| "fp_lt (FInf s) (FInf t) = (s \<and> \<not> t)"
| "fp_lt (FInf s) (FFin t n f) = s"
| "fp_lt (FFin s m e) (FInf t) = (\<not> t)"
| "fp_lt (FFin s m e) (FFin t n f) =
     (let g = min e f in signed s (m * 2 ^ nat (e - g)) < signed t (n * 2 ^ nat (f - g)))"

fun fp_le :: "fp \<Rightarrow> fp \<Rightarrow> bool" where
  "fp_le FNaN _ = False"
| "fp_le _ FNaN = False"
| "fp_le x y = (\<not> fp_lt y x)"

definition f64_add :: "f64 \<Rightarrow> f64 \<Rightarrow> f64" where
  "f64_add x y = f64_put (fp_add (f64_get x) (f64_get y))"

definition f64_sub :: "f64 \<Rightarrow> f64 \<Rightarrow> f64" where
  "f64_sub x y = f64_put (fp_add (f64_get x) (fp_neg (f64_get y)))"

definition f64_mul :: "f64 \<Rightarrow> f64 \<Rightarrow> f64" where
  "f64_mul x y = f64_put (fp_mul (f64_get x) (f64_get y))"

definition f64_div :: "f64 \<Rightarrow> f64 \<Rightarrow> f64" where
  "f64_div x y =
     (case (f64_get x, f64_get y) of
        (FNaN, _) \<Rightarrow> f64_put FNaN
      | (_, FNaN) \<Rightarrow> f64_put FNaN
      | (FInf _, FInf _) \<Rightarrow> f64_put FNaN
      | (FInf s, FFin t _ _) \<Rightarrow> f64_put (FInf (s \<noteq> t))
      | (FFin s _ _, FInf t) \<Rightarrow> f64_put (FFin (s \<noteq> t) 0 0)
      | (FFin s m e, FFin t n f) \<Rightarrow>
          (if n = 0 then f64_put (if m = 0 then FNaN else FInf (s \<noteq> t))
           else if 0 \<le> e - f
           then word_of_nat (fp_pack 52 11 1074 (s \<noteq> t) (m * 2 ^ nat (e - f)) n)
           else word_of_nat (fp_pack 52 11 1074 (s \<noteq> t) m (n * 2 ^ nat (f - e)))))"

definition f64_lt :: "f64 \<Rightarrow> f64 \<Rightarrow> bool" where
  "f64_lt x y = fp_lt (f64_get x) (f64_get y)"

definition f64_eq :: "f64 \<Rightarrow> f64 \<Rightarrow> bool" where
  "f64_eq x y = (fp_le (f64_get x) (f64_get y) \<and> fp_le (f64_get y) (f64_get x))"

definition f64_isfinite :: "f64 \<Rightarrow> bool" where
  "f64_isfinite x = (case f64_get x of FFin _ _ _ \<Rightarrow> True | _ \<Rightarrow> False)"

definition f32_add :: "f32 \<Rightarrow> f32 \<Rightarrow> f32" where
  "f32_add x y = f32_put (fp_add (f32_get x) (f32_get y))"

definition f32_sub :: "f32 \<Rightarrow> f32 \<Rightarrow> f32" where
  "f32_sub x y = f32_put (fp_add (f32_get x) (fp_neg (f32_get y)))"

definition f32_lt :: "f32 \<Rightarrow> f32 \<Rightarrow> bool" where
  "f32_lt x y = fp_lt (f32_get x) (f32_get y)"

definition f32_le :: "f32 \<Rightarrow> f32 \<Rightarrow> bool" where
  "f32_le x y = fp_le (f32_get x) (f32_get y)"

definition f32_eq :: "f32 \<Rightarrow> f32 \<Rightarrow> bool" where
  "f32_eq x y = (f32_le x y \<and> f32_le y x)"

text \<open>\<open>fabsf\<close> clears the sign; \<open>fmaxf\<close> returns the other argument when one is a NaN.\<close>

definition f32_abs :: "f32 \<Rightarrow> f32" where
  "f32_abs x = x AND 0x7FFFFFFF"

definition f32_max :: "f32 \<Rightarrow> f32 \<Rightarrow> f32" where
  "f32_max x y =
     (if f32_get x = FNaN then y else if f32_get y = FNaN then x
      else if f32_lt x y then y else x)"

text \<open>Conversions: \<open>(double)n\<close>, \<open>(double)f\<close>, \<open>(float)d\<close>.\<close>

definition f64_of_int :: "int \<Rightarrow> f64" where
  "f64_of_int n = f64_put (FFin (n < 0) (nat \<bar>n\<bar>) 0)"

definition f64_of_f32 :: "f32 \<Rightarrow> f64" where
  "f64_of_f32 x = f64_put (f32_get x)"

definition f32_of_f64 :: "f64 \<Rightarrow> f32" where
  "f32_of_f64 x = f32_put (f64_get x)"

text \<open>
  \<open>llround\<close>: to the nearest integer, ties away from zero. The C standard leaves the result
  unspecified when it does not fit (or there is none): there it is the value of \<open>ub\<close>, an
  arbitrary function every user of \<open>llround\<close> takes as an argument.
\<close>

definition fp_nearest :: "nat \<Rightarrow> int \<Rightarrow> nat" where
  "fp_nearest m e =
     (if 0 \<le> e then m * 2 ^ nat e else (2 * m + 2 ^ nat (- e)) div 2 ^ Suc (nat (- e)))"

definition llround :: "(f64 \<Rightarrow> int) \<Rightarrow> f64 \<Rightarrow> int" where
  "llround ub x =
     (case f64_get x of
        FFin s m e \<Rightarrow>
          (let v = signed s (fp_nearest m e) in
           if - (2 ^ 63) \<le> v \<and> v < 2 ^ 63 then v else ub x)
      | _ \<Rightarrow> ub x)"

section \<open>Lengths, rounding and packing\<close>

lemma bits_len_0 [simp]: "bits_len 0 = 0"
  by (simp add: bits_len.simps)

lemma bits_len_pos: "0 < n \<Longrightarrow> bits_len n = Suc (bits_len (n div 2))"
  by (subst bits_len.simps) simp

lemma bits_len_bounds: "0 < n \<Longrightarrow> 2 ^ (bits_len n - 1) \<le> n \<and> n < 2 ^ bits_len n"
proof (induction n rule: bits_len.induct)
  case (1 n)
  show ?case
  proof (cases "n = 1")
    case True
    then show ?thesis by (simp add: bits_len.simps)
  next
    case False
    with "1.prems" have h: "0 < n div 2" by auto
    then have "2 ^ (bits_len (n div 2) - 1) \<le> n div 2 \<and> n div 2 < 2 ^ bits_len (n div 2)"
      using "1.IH" "1.prems" by auto
    moreover have "bits_len (n div 2) \<noteq> 0"
      using h by (simp add: bits_len_pos)
    ultimately show ?thesis
      using "1.prems" by (cases "bits_len (n div 2)") (auto simp: bits_len_pos)
  qed
qed

lemma bits_len_le: "n < 2 ^ k \<Longrightarrow> bits_len n \<le> k"
proof (rule ccontr)
  assume n: "n < 2 ^ k" and "\<not> bits_len n \<le> k"
  then have k: "k \<le> bits_len n - 1" and "0 < n" by (cases "n = 0"; simp)+
  then have "2 ^ (bits_len n - 1) \<le> n" using bits_len_bounds [of n] by simp
  moreover have "(2::nat) ^ k \<le> 2 ^ (bits_len n - 1)" using k by simp
  ultimately show False using n by linarith
qed

lemma bits_len_ge: "2 ^ k \<le> n \<Longrightarrow> k < bits_len n"
proof (rule ccontr)
  assume n: "2 ^ k \<le> n" and "\<not> k < bits_len n"
  then have "bits_len n \<le> k" by simp
  then have "(2::nat) ^ bits_len n \<le> 2 ^ k" by simp
  moreover have "0 < n" using n by (cases n) auto
  ultimately show False using n bits_len_bounds [of n] by linarith
qed

lemma bits_len_eq: "2 ^ k \<le> n \<Longrightarrow> n < 2 ^ Suc k \<Longrightarrow> bits_len n = Suc k"
  using bits_len_le [of n "Suc k"] bits_len_ge [of k n] by simp

lemma bits_len_shift: "0 < n \<Longrightarrow> bits_len (n * 2 ^ k) = bits_len n + k"
proof (induction k)
  case 0
  then show ?case by simp
next
  case (Suc k)
  then show ?case by (simp add: bits_len_pos [of "n * (2 * 2 ^ k)"] mult.left_commute)
qed

lemma div_ratio:
  assumes "a * d' = a' * (d :: nat)" "0 < d" "0 < d'"
  shows "a div d = a' div d'"
proof -
  have "a div d = (a * d') div (d * d')" using assms(3) by simp
  also have "\<dots> = (a' * d) div (d' * d)" using assms(1) by (simp add: mult.commute)
  also have "\<dots> = a' div d'" using assms(2) by simp
  finally show ?thesis .
qed

lemma dvd_ratio:
  assumes "a * d' = a' * (d :: nat)" "0 < d" "0 < d'"
  shows "d dvd a \<longleftrightarrow> d' dvd a'"
proof -
  have "d dvd a \<longleftrightarrow> d * d' dvd a * d'" using assms(3) by simp
  also have "\<dots> \<longleftrightarrow> d' * d dvd a' * d" using assms(1) by (simp add: mult.commute)
  also have "\<dots> \<longleftrightarrow> d' dvd a'" using assms(2) by simp
  finally show ?thesis .
qed

lemma rne_ratio:
  assumes "a * d' = a' * (d :: nat)" "0 < d" "0 < d'"
  shows "rne a d = rne a' d'"
proof -
  have e: "(2 * a) * d' = (2 * a') * d" using assms(1) by simp
  show ?thesis
    unfolding rne_def Let_def div_ratio [OF e assms(2,3)] dvd_ratio [OF e assms(2,3)] ..
qed

lemma rne_exact: "0 < d \<Longrightarrow> rne (m * d) d = m"
  by (simp add: rne_def Let_def mult.assoc [symmetric])

lemma flog2_step:
  assumes "0 < n * 2 ^ t div (d :: nat)" "t \<le> t'"
  shows "bits_len (n * 2 ^ t' div d) = bits_len (n * 2 ^ t div d) + (t' - t)"
  using assms(2)
proof (induction rule: dec_induct)
  case base
  then show ?case by simp
next
  case (step u)
  have "(2::nat) ^ t \<le> 2 ^ Suc u" using step.hyps(1) by (intro power_increasing) simp_all
  then have "n * 2 ^ t \<le> n * 2 ^ Suc u" by (rule mult_left_mono) simp
  then have pos: "0 < n * 2 ^ Suc u div d" using assms(1) div_le_mono [of "n * 2 ^ t" "n * 2 ^ Suc u" d] by linarith
  have "n * 2 ^ Suc u div d div 2 = n * 2 ^ u div d"
  proof -
    have "n * 2 ^ Suc u div d div 2 = n * 2 ^ Suc u div 2 div d" by (metis div_mult2_eq mult.commute)
    then show ?thesis by (simp add: mult.left_commute)
  qed
  then show ?case using pos step by (simp add: bits_len_pos)
qed

lemma flog2_units:
  assumes "n * 2 ^ K = N * d" "0 < N" "0 < d"
  shows "flog2 n d = int (bits_len N) - 1 - int K"
proof -
  let ?t = "bits_len d" and ?u = "max (bits_len d) K"
  have n: "0 < n" using assms by (cases n) auto
  have "d < 2 ^ ?t" using assms(3) by (simp add: bits_len_bounds)
  also have "(2::nat) ^ ?t \<le> n * 2 ^ ?t" using n by simp
  finally have p1: "0 < n * 2 ^ ?t div d" using assms(3) by (simp add: div_greater_zero_iff)
  have N: "n * 2 ^ K div d = N" using assms by simp
  have "bits_len (n * 2 ^ ?u div d) = bits_len (n * 2 ^ ?t div d) + (?u - ?t)"
    by (rule flog2_step [OF p1]) simp
  moreover have "bits_len (n * 2 ^ ?u div d) = bits_len (n * 2 ^ K div d) + (?u - K)"
    by (rule flog2_step) (use N assms(2) in simp_all)
  ultimately show ?thesis using N by (auto simp: flog2_def Let_def)
qed

text \<open>
  The rounding of a value that is \<open>N\<close> units of \<open>2^(-K)\<close>, and its exact case.
\<close>

lemma fp_pack_units:
  assumes "n * 2 ^ K = N * d" "0 < N" "0 < d" and j_def: "j = bits_len N - Suc fb"
  shows "fp_pack fb ew K s n d =
    (if s then 2 ^ (fb + ew) else 0) + min (j * 2 ^ fb + rne N (2 ^ j)) ((2 ^ ew - 1) * 2 ^ fb)"
proof -
  let ?q = "max (flog2 n d - int fb) (- int K)"
  have q: "?q = int j - int K"
    using flog2_units [OF assms(1-3)] by (auto simp: j_def)
  have n: "n \<noteq> 0" using assms(1-3) by (cases n) auto
  have m: "(if 0 \<le> ?q then rne n (d * 2 ^ nat ?q) else rne (n * 2 ^ nat (- ?q)) d) = rne N (2 ^ j)"
  proof (cases "0 \<le> ?q")
    case True
    then have "K \<le> j" and e: "nat ?q = j - K" using q by auto
    then have "(2::nat) ^ j = 2 ^ K * 2 ^ (j - K)" by (metis le_add_diff_inverse power_add)
    then have "n * 2 ^ j = n * 2 ^ K * 2 ^ (j - K)" by (simp only: mult.assoc)
    also have "\<dots> = N * (d * 2 ^ (j - K))" by (simp only: assms(1) mult.assoc)
    finally have "n * 2 ^ j = N * (d * 2 ^ (j - K))" .
    then have "rne n (d * 2 ^ (j - K)) = rne N (2 ^ j)"
      by (rule rne_ratio) (use assms(3) in simp_all)
    then show ?thesis using True e by simp
  next
    case False
    then have "j < K" and e: "nat (- ?q) = K - j" using q by auto
    then have "(2::nat) ^ K = 2 ^ (K - j) * 2 ^ j" by (metis le_add_diff_inverse2 less_imp_le power_add)
    then have "n * 2 ^ (K - j) * 2 ^ j = N * d" using assms(1) by (simp only: mult.assoc)
    then have "rne (n * 2 ^ (K - j)) d = rne N (2 ^ j)"
      by (rule rne_ratio) (use assms(3) in simp_all)
    then show ?thesis using False e by simp
  qed
  show ?thesis
    unfolding fp_pack_def Let_def m using n q by simp
qed

lemma fp_unpack_fields:
  assumes "F < 2 ^ fb" "E < 2 ^ ew - 1"
  shows "fp_unpack fb ew K ((if s then 2 ^ (fb + ew) else 0) + (E * 2 ^ fb + F)) =
    (if E = 0 then FFin s F (- int K) else FFin s (2 ^ fb + F) (int E - 1 - int K))"
proof -
  let ?b = "(if s then 2 ^ (fb + ew) else 0) + (E * 2 ^ fb + F) :: nat"
  have f: "?b div 2 ^ fb = (if s then 2 ^ ew else 0) + E"
  proof -
    have "?b = ((if s then 2 ^ ew else 0) + E) * 2 ^ fb + F"
      by (simp add: power_add algebra_simps)
    then show ?thesis using assms(1) by (simp only: div_mult_self3) simp
  qed
  have "?b div 2 ^ (fb + ew) = ?b div 2 ^ fb div 2 ^ ew"
    by (simp only: power_add div_mult2_eq)
  also have "\<dots> = ((if s then 2 ^ ew else 0) + E) div 2 ^ ew"
    by (simp only: f)
  also have "\<dots> = (if s then 1 else 0)"
    using assms(2) by (cases s) (simp_all add: div_add_self1)
  finally have sb: "odd (?b div 2 ^ (fb + ew)) = s" by simp
  have e: "?b div 2 ^ fb mod 2 ^ ew = E" using assms(2) by (simp add: f)
  have md: "?b mod 2 ^ fb = F"
    using assms(1) by (simp add: power_add mult.assoc)
  show ?thesis
    unfolding fp_unpack_def Let_def sb e md using assms(2) by simp
qed

text \<open>Unpacking what was packed exactly gives the mantissa and the exponent back.\<close>

lemma fp_unpack_pack:
  assumes eq: "n * 2 ^ K = N * d" and N: "0 < N" and d: "0 < d"
    and j: "j = bits_len N - Suc fb" and dv: "2 ^ j dvd N" and top: "Suc (Suc j) < 2 ^ ew"
  shows "fp_unpack fb ew K (fp_pack fb ew K s n d) = FFin s (N div 2 ^ j) (int j - int K)"
proof -
  let ?M = "N div 2 ^ j"
  have NM: "?M * 2 ^ j = N" using dv by simp
  have M0: "0 < ?M" using NM N by (cases ?M) auto
  have lenN: "bits_len N = bits_len ?M + j"
    using bits_len_shift [OF M0, of j] NM by simp
  have rM: "rne N (2 ^ j) = ?M" using rne_exact [of "2 ^ j" ?M] NM by simp
  have lt: "?M < 2 ^ Suc fb"
  proof -
    have "bits_len ?M \<le> Suc fb" using lenN j by simp
    then have "(2::nat) ^ bits_len ?M \<le> 2 ^ Suc fb" by (rule power_increasing) simp
    then show ?thesis using bits_len_bounds [OF M0] by linarith
  qed
  have ge: "2 ^ fb \<le> ?M" if "0 < j"
  proof -
    have "bits_len ?M = Suc fb" using lenN j that by simp
    then show ?thesis using bits_len_bounds [OF M0] by simp
  qed
  have le: "(j * 2 ^ fb + ?M) \<le> (2 ^ ew - 1) * 2 ^ fb"
  proof -
    have "j * 2 ^ fb + ?M \<le> j * 2 ^ fb + 2 * 2 ^ fb" using lt by simp
    also have "\<dots> = Suc (Suc j) * 2 ^ fb" by simp
    also have "\<dots> \<le> (2 ^ ew - 1) * 2 ^ fb" using top by (intro mult_right_mono) simp_all
    finally show ?thesis .
  qed
  have pk: "fp_pack fb ew K s n d = (if s then 2 ^ (fb + ew) else 0) + (j * 2 ^ fb + ?M)"
    using fp_pack_units [OF eq N d j, of ew s] le by (simp add: rM min_absorb1)
  show ?thesis
  proof (cases "?M < 2 ^ fb")
    case True
    then have "j = 0" using ge by (cases j) auto
    then show ?thesis
      unfolding pk using fp_unpack_fields [OF True, of j ew K s] top by simp
  next
    case False
    then have F: "?M - 2 ^ fb < 2 ^ fb" and e: "j * 2 ^ fb + ?M = Suc j * 2 ^ fb + (?M - 2 ^ fb)"
      using lt by auto
    have "Suc j < 2 ^ ew - 1" using top by linarith
    from fp_unpack_fields [OF F this, of K s] False show ?thesis
      unfolding pk e by simp
  qed
qed

lemma fp_pack_bound:
  assumes "0 < fb" "1 < ew" "0 < d"
  shows "fp_pack fb ew K s n d < 2 ^ (fb + ew + 1)"
proof -
  have "(2::nat) ^ (fb + ew) = 2 ^ ew * 2 ^ fb" by (simp add: power_add)
  moreover have "((2::nat) ^ ew - 1) * 2 ^ fb < 2 ^ ew * 2 ^ fb" by simp
  ultimately have "min x ((2 ^ ew - 1) * 2 ^ fb) < 2 ^ (fb + ew)" for x :: nat
    by (simp add: min_less_iff_disj)
  then have m: "min x ((2 ^ ew - 1) * 2 ^ fb) < 2 ^ (fb + ew)" for x :: nat .
  have "(if s then 2 ^ (fb + ew) else 0) + y < 2 ^ (fb + ew + 1)" if "y < 2 ^ (fb + ew)" for y :: nat
    using that by simp
  from this [OF m] show ?thesis
    unfolding fp_pack_def Let_def by (simp only: split: if_splits) simp
qed

lemma f64_get_pack: "0 < d \<Longrightarrow>
  f64_get (word_of_nat (fp_pack 52 11 1074 s n d)) = fp_unpack 52 11 1074 (fp_pack 52 11 1074 s n d)"
  using fp_pack_bound [of 52 11 d 1074 s n]
  by (simp add: f64_get_def unat_of_nat take_bit_eq_mod)

text \<open>An integer of at most 53 bits converts to a double exactly.\<close>

lemma f64_of_int_get:
  assumes "z \<noteq> 0" "\<bar>z\<bar> < 2 ^ 53"
  shows "\<exists>k \<le> 1074. f64_get (f64_of_int z) = FFin (z < 0) (nat \<bar>z\<bar> * 2 ^ k) (- int k)"
proof -
  let ?n = "nat \<bar>z\<bar>"
  have n0: "0 < ?n" using assms(1) by simp
  have "?n < 2 ^ 53" using assms(2) by simp
  then have len: "bits_len ?n \<le> 53" by (rule bits_len_le)
  have len0: "0 < bits_len ?n" using n0 by (simp add: bits_len_pos)
  define K :: nat where "K = 1074"
  define N where "N = ?n * 2 ^ K"
  define j where "j = bits_len N - Suc 52"
  have N0: "0 < N" using n0 by (simp add: N_def)
  have lN: "bits_len N = bits_len ?n + K" unfolding N_def by (rule bits_len_shift [OF n0])
  then have jK: "j \<le> K" and jlt: "j \<le> 1074" using len by (auto simp: j_def K_def)
  have split: "N = ?n * 2 ^ (K - j) * 2 ^ j" using jK by (simp add: N_def mult.assoc flip: power_add)
  have dv: "2 ^ j dvd N" by (simp add: split)
  have quo: "N div 2 ^ j = ?n * 2 ^ (K - j)" by (simp add: split)
  have "f64_get (f64_of_int z) = fp_unpack 52 11 K (fp_pack 52 11 K (z < 0) ?n 1)"
    unfolding f64_of_int_def f64_put_def fp_round_def K_def
    by (simp add: f64_get_pack)
  also have "\<dots> = FFin (z < 0) (N div 2 ^ j) (int j - int K)"
    by (rule fp_unpack_pack [OF _ N0 _ j_def dv]) (use jlt in \<open>simp_all add: N_def\<close>)
  finally have "f64_get (f64_of_int z) = FFin (z < 0) (?n * 2 ^ (K - j)) (- int (K - j))"
    using jK by (simp add: quo of_nat_diff)
  then show ?thesis using K_def by (intro exI [of _ "K - j"]) simp
qed

lemma f64_of_int_0 [simp]: "f64_of_int 0 = 0"
  by (simp add: f64_of_int_def f64_put_def fp_round_def fp_pack_def)

lemma f64_get_0 [simp]: "f64_get 0 = FFin False 0 (- 1074)"
  by (simp add: f64_get_def fp_unpack_def)

lemma fp_nearest_exact: "fp_nearest (n * 2 ^ k) (- int k) = n"
proof (cases "k = 0")
  case True
  then show ?thesis by (simp add: fp_nearest_def)
next
  case False
  have "(2 * (n * 2 ^ k) + 2 ^ k) div 2 ^ Suc k = n"
  proof -
    have "2 * (n * 2 ^ k) + 2 ^ k = n * 2 ^ Suc k + 2 ^ k" by simp
    also have "\<dots> div 2 ^ Suc k = n + 2 ^ k div 2 ^ Suc k" by (rule div_mult_self3) simp
    finally show ?thesis by simp
  qed
  then show ?thesis using False by (simp add: fp_nearest_def)
qed

lemma llround_of_int [simp]:
  assumes "\<bar>z\<bar> < 2 ^ 53"
  shows "llround ub (f64_of_int z) = z"
proof (cases "z = 0")
  case True
  then show ?thesis by (simp add: llround_def fp_nearest_def signed_def)
next
  case False
  then obtain k where "f64_get (f64_of_int z) = FFin (z < 0) (nat \<bar>z\<bar> * 2 ^ k) (- int k)"
    using f64_of_int_get assms by blast
  moreover have "- (2 ^ 63) \<le> z \<and> z < 2 ^ 63"
    using assms by (auto simp: abs_less_iff)
  ultimately show ?thesis by (simp add: llround_def fp_nearest_exact signed_def)
qed


text \<open>A finite pattern is the packing of the value it denotes.\<close>

lemma fp_fields:
  fixes b :: nat
  assumes "b < 2 ^ (fb + ew + 1)"
  shows "b = (if odd (b div 2 ^ (fb + ew)) then 2 ^ (fb + ew) else 0)
             + (b div 2 ^ fb mod 2 ^ ew * 2 ^ fb + b mod 2 ^ fb)"
proof -
  let ?t = "b div 2 ^ (fb + ew)"
  have "?t < 2" using assms by (intro less_mult_imp_div_less) (simp add: mult.commute)
  then have t: "?t = (if odd ?t then 1 else 0)" by (cases "?t = 0") auto
  have h: "b div 2 ^ fb div 2 ^ ew = ?t" by (simp only: power_add div_mult2_eq)
  have "b = b div 2 ^ fb * 2 ^ fb + b mod 2 ^ fb" by (rule div_mult_mod_eq [symmetric])
  also have "b div 2 ^ fb = ?t * 2 ^ ew + b div 2 ^ fb mod 2 ^ ew"
    using h by (metis div_mult_mod_eq)
  finally have "b = ?t * 2 ^ (fb + ew) + (b div 2 ^ fb mod 2 ^ ew * 2 ^ fb + b mod 2 ^ fb)"
    by (simp add: power_add algebra_simps)
  then show ?thesis using t by (auto split: if_splits)
qed

lemma fp_unpack_Fin:
  assumes "b < 2 ^ (fb + ew + 1)" "fp_unpack fb ew K b = FFin s m e" "0 < m"
  defines "N \<equiv> m * 2 ^ nat (e + int K)"
  shows "- int K \<le> e" "m < 2 ^ Suc fb" "e + int K < 2 ^ ew"
    "b = (if s then 2 ^ (fb + ew) else 0) + ((bits_len N - Suc fb) * 2 ^ fb + rne N (2 ^ (bits_len N - Suc fb)))"
    "(bits_len N - Suc fb) * 2 ^ fb + rne N (2 ^ (bits_len N - Suc fb)) \<le> (2 ^ ew - 1) * 2 ^ fb"
proof -
  let ?E = "b div 2 ^ fb mod 2 ^ ew" and ?F = "b mod 2 ^ fb"
  have F: "?F < 2 ^ fb" and E: "?E < 2 ^ ew" by simp_all
  note b = fp_fields [OF assms(1)]
  have cases: "(?E = 0 \<and> m = ?F \<and> e = - int K) \<or> (0 < ?E \<and> m = 2 ^ fb + ?F \<and> e = int ?E - 1 - int K)"
    and s: "s = odd (b div 2 ^ (fb + ew))"
    using assms(2) by (auto simp: fp_unpack_def Let_def split: if_splits)
  show "- int K \<le> e" using cases by auto
  show lt: "m < 2 ^ Suc fb" unfolding power_Suc using cases F by linarith
  have "int ?E < 2 ^ ew" using E by (metis of_nat_less_iff of_nat_numeral of_nat_power)
  then show "e + int K < 2 ^ ew" using cases by linarith
  have "?E \<noteq> 2 ^ ew - 1"
    using assms(2) by (auto simp: fp_unpack_def Let_def split: if_splits)
  with E have E': "Suc ?E \<le> 2 ^ ew - 1" by linarith
  have body: "(bits_len N - Suc fb) * 2 ^ fb + rne N (2 ^ (bits_len N - Suc fb)) = ?E * 2 ^ fb + ?F"
  proof (cases "?E = 0")
    case True
    with cases have "m = ?F" "N = m" by (auto simp: N_def)
    then have "bits_len N \<le> fb" using F by (simp add: bits_len_le)
    then show ?thesis using True \<open>m = ?F\<close> \<open>N = m\<close> rne_exact [of 1 N] by simp
  next
    case False
    with cases have m: "m = 2 ^ fb + ?F" and e: "nat (e + int K) = ?E - 1" by auto
    have "bits_len m = Suc fb" using bits_len_eq [of fb m] lt m by simp
    then have "bits_len N - Suc fb = ?E - 1"
      using assms(3) by (simp add: N_def e bits_len_shift)
    moreover have "rne N (2 ^ (?E - 1)) = m" by (simp add: N_def e rne_exact)
    moreover have "?E * 2 ^ fb + ?F = (?E - 1) * 2 ^ fb + m"
      using False by (cases ?E) (simp_all add: m)
    ultimately show ?thesis by simp
  qed
  show "b = (if s then 2 ^ (fb + ew) else 0) + ((bits_len N - Suc fb) * 2 ^ fb + rne N (2 ^ (bits_len N - Suc fb)))"
    unfolding body s by (rule b)
  have "?E * 2 ^ fb + ?F \<le> Suc ?E * 2 ^ fb" using F by simp
  also have "\<dots> \<le> (2 ^ ew - 1) * 2 ^ fb" using E' by (intro mult_right_mono) simp_all
  finally show "(bits_len N - Suc fb) * 2 ^ fb + rne N (2 ^ (bits_len N - Suc fb)) \<le> (2 ^ ew - 1) * 2 ^ fb"
    unfolding body .
qed

lemma unat_f32: "unat (x :: f32) < 2 ^ (23 + 8 + 1)" and unat_f64: "unat (y :: f64) < 2 ^ (52 + 11 + 1)"
  using unsigned_less [of x] unsigned_less [of y] by simp_all

lemma fp_unpack_cases:
  assumes "b < 2 ^ (fb + ew + 1)"
  shows "fp_unpack fb ew K b = FInf s \<Longrightarrow> b = (if s then 2 ^ (fb + ew) else 0) + (2 ^ ew - 1) * 2 ^ fb"
    and "fp_unpack fb ew K b = FFin s 0 e \<Longrightarrow> b = (if s then 2 ^ (fb + ew) else 0)"
  using fp_fields [OF assms] by (auto simp: fp_unpack_def Let_def split: if_splits)

lemma f64_of_f32_get:
  assumes "f32_get x = FFin s m e" "0 < m"
  shows "\<exists>M g. f64_get (f64_of_f32 x) = FFin s M g \<and> - 1074 \<le> g \<and> 0 < M \<and>
     M * 2 ^ nat (g + 1074) = m * 2 ^ nat (e + 149) * 2 ^ 925"
proof -
  define K :: nat where "K = 1074"
  have u: "fp_unpack 23 8 149 (unat x) = FFin s m e" using assms(1) by (simp add: f32_get_def)
  from fp_unpack_Fin [OF unat_f32 u assms(2)]
  have e: "- 149 \<le> e" "e < 107" and m: "m < 2 ^ 24" by simp_all
  define N where "N = m * 2 ^ nat (e + int K)"
  define j where "j = bits_len N - Suc 52"
  have N0: "0 < N" using assms(2) by (simp add: N_def)
  have lm: "bits_len m \<le> 24" using m by (rule bits_len_le)
  have lN: "bits_len N = bits_len m + nat (e + int K)" unfolding N_def by (rule bits_len_shift [OF assms(2)])
  have jle: "j \<le> nat (e + int K)" using lm lN by (simp add: j_def)
  then have split: "N = m * 2 ^ (nat (e + int K) - j) * 2 ^ j"
    unfolding N_def by (metis le_add_diff_inverse2 mult.assoc power_add)
  then have dv: "2 ^ j dvd N" by (metis dvd_triv_right)
  have quo: "N div 2 ^ j * 2 ^ j = N" using dv by simp
  have jb: "j \<le> 1300" using jle e by (simp add: K_def)
  have num: "(if 0 \<le> e then fp_pack 52 11 K s (m * 2 ^ nat e) 1 else fp_pack 52 11 K s m (2 ^ nat (- e)))
     = fp_pack 52 11 K s (m * 2 ^ nat e) (2 ^ nat (- e))" by simp
  have eq: "m * 2 ^ nat e * 2 ^ K = N * 2 ^ nat (- e)"
  proof -
    have "nat e + K = nat (e + int K) + nat (- e)" using e by (simp add: K_def)
    then show ?thesis by (simp add: N_def mult.assoc flip: power_add)
  qed
  have "f64_get (f64_of_f32 x) = fp_unpack 52 11 K (fp_pack 52 11 K s (m * 2 ^ nat e) (2 ^ nat (- e)))"
    unfolding f64_of_f32_def f64_put_def fp_round_def assms(1) fp.case num [unfolded K_def] K_def
    by (rule f64_get_pack) simp
  also have "\<dots> = FFin s (N div 2 ^ j) (int j - int K)"
    by (rule fp_unpack_pack [OF eq N0 _ j_def dv]) (use jb in simp_all)
  finally have g: "f64_get (f64_of_f32 x) = FFin s (N div 2 ^ j) (int j - 1074)"
    by (simp add: K_def)
  have "nat (e + int K) = nat (e + 149) + 925" using e by (simp add: K_def)
  then have NN: "N = m * 2 ^ nat (e + 149) * 2 ^ 925" by (simp only: N_def power_add mult.assoc)
  show ?thesis
  proof (intro exI conjI)
    show "f64_get (f64_of_f32 x) = FFin s (N div 2 ^ j) (int j - 1074)" by (rule g)
    show "0 < N div 2 ^ j" using quo N0 by (cases "N div 2 ^ j") auto
    show "N div 2 ^ j * 2 ^ nat (int j - 1074 + 1074) = m * 2 ^ nat (e + 149) * 2 ^ 925"
      using quo NN by simp
  qed simp
qed


theorem f32_of_f64_of_f32:
  assumes "f32_get x \<noteq> FNaN"
  shows "f32_of_f64 (f64_of_f32 x) = x"
proof (cases "f32_get x")
  case FNaN
  with assms show ?thesis by simp
next
  case (FInf s)
  then have u: "fp_unpack 23 8 149 (unat x) = FInf s" by (simp add: f32_get_def)
  have "f64_get (f64_of_f32 x) = FInf s"
    by (cases s) (simp_all add: FInf f64_of_f32_def f64_put_def fp_round_def f64_get_def fp_unpack_def)
  then have "f32_of_f64 (f64_of_f32 x) = word_of_nat ((if s then 2 ^ (23 + 8) else 0) + (2 ^ 8 - 1) * 2 ^ 23)"
    by (simp add: f32_of_f64_def f32_put_def fp_round_def)
  also have "\<dots> = word_of_nat (unat x)" using fp_unpack_cases(1) [OF unat_f32 u] by simp
  finally show ?thesis by simp
next
  case (FFin s m e)
  then have u: "fp_unpack 23 8 149 (unat x) = FFin s m e" by (simp add: f32_get_def)
  show ?thesis
  proof (cases "m = 0")
    case True
    with u have ux: "unat x = (if s then 2 ^ (23 + 8) else 0)"
      using fp_unpack_cases(2) [OF unat_f32] by blast
    have "f64_get (f64_of_f32 x) = FFin s 0 (- 1074)"
      using FFin True
      by (cases s) (simp_all add: f64_of_f32_def f64_put_def fp_round_def fp_pack_def f64_get_def fp_unpack_def)
    then have "f32_of_f64 (f64_of_f32 x) = word_of_nat (if s then 2 ^ (23 + 8) else 0)"
      by (simp add: f32_of_f64_def f32_put_def fp_round_def fp_pack_def)
    also have "\<dots> = word_of_nat (unat x)" by (simp only: ux)
    finally show ?thesis by simp
  next
    case False
    then have m0: "0 < m" by simp
    from fp_unpack_Fin(4) [OF unat_f32 u m0]
    have ux: "unat x = (if s then 2 ^ (23 + 8) else 0) +
      ((bits_len (m * 2 ^ nat (e + int 149)) - Suc 23) * 2 ^ 23
       + rne (m * 2 ^ nat (e + int 149)) (2 ^ (bits_len (m * 2 ^ nat (e + int 149)) - Suc 23)))"
      .
    define N where "N = m * 2 ^ nat (e + int 149)"
    have N0: "0 < N" using m0 by (simp add: N_def)
    from f64_of_f32_get [OF FFin m0] obtain M g where
      g: "f64_get (f64_of_f32 x) = FFin s M g" and ge: "- 1074 \<le> g" and M0: "0 < M"
      and eq: "M * 2 ^ nat (g + 1074) = N * 2 ^ 925" by (auto simp: N_def)
    let ?n = "M * 2 ^ nat g" and ?d = "2 ^ nat (- g) :: nat"
    have "nat g + 1074 = nat (g + 1074) + nat (- g)" using ge by simp
    then have p: "(2::nat) ^ nat g * 2 ^ 1074 = 2 ^ nat (g + 1074) * 2 ^ nat (- g)"
      by (metis power_add)
    have "?n * 2 ^ 149 * 2 ^ 925 = M * (2 ^ nat g * 2 ^ 1074)"
      by (simp only: mult.assoc power_add [symmetric]) simp
    also have "\<dots> = N * 2 ^ 925 * ?d" by (simp only: p mult.assoc [symmetric] eq)
    also have "\<dots> = N * ?d * 2 ^ 925" by (simp only: ac_simps)
    finally have unit: "?n * 2 ^ 149 = N * ?d" by (rule mult_right_cancel [THEN iffD1, rotated]) simp
    have "f32_of_f64 (f64_of_f32 x) = word_of_nat (fp_pack 23 8 149 s ?n ?d)"
      using ge by (simp add: f32_of_f64_def f32_put_def fp_round_def g)
    also have "fp_pack 23 8 149 s ?n ?d = (if s then 2 ^ (23 + 8) else 0)
       + min ((bits_len N - Suc 23) * 2 ^ 23 + rne N (2 ^ (bits_len N - Suc 23))) ((2 ^ 8 - 1) * 2 ^ 23)"
      by (rule fp_pack_units [OF unit N0 _ refl]) simp
    also have "\<dots> = unat x"
    proof -
      have "(bits_len N - Suc 23) * 2 ^ 23 + rne N (2 ^ (bits_len N - Suc 23)) \<le> (2 ^ 8 - 1) * 2 ^ 23"
        using fp_unpack_Fin(5) [OF unat_f32 u m0] by (simp add: N_def)
      then show ?thesis using ux by (simp add: N_def min_absorb1)
    qed
    finally show ?thesis by simp
  qed
qed

end
