(* ===== verification/Tcm_Types.thy ===== *)
theory Tcm_Types
  imports Prelude Soft_Float
begin

text \<open>
  The enumerations and the context record every component of the gateway passes around
  (\<open>tcm/tcm_context.h\<close>), and the buffer sizes of \<open>gateway_config.h\<close> that bound its strings.
\<close>

section \<open>Enumerations\<close>

datatype quality_state = QUALITY_GOOD | QUALITY_STALE | QUALITY_INVALID

datatype network_state = NET_ONLINE | NET_DELAYED | NET_OFFLINE | NET_REPLAYED

datatype operation_type = OP_READ_PUBLISH | OP_SUBSCRIBE | OP_WRITE | OP_REPLAY | OP_READ_ONLY

datatype source_protocol = SRC_MODBUS_RTU | SRC_MODBUS_TCP

datatype data_type =
    DT_INT16 | DT_UINT16 | DT_FLOAT32 | DT_INT32 | DT_UINT32 | DT_BOOL
  | DT_INT64 | DT_UINT64 | DT_FLOAT64 | DT_BCD16 | DT_BITFIELD16 | DT_ASCII

datatype byte_order = BYTE_ORDER_ABCD | BYTE_ORDER_CDAB | BYTE_ORDER_BADC | BYTE_ORDER_DCBA

text \<open>
  A \<open>modbus_object_type_t\<close> field is zero in a zeroed record, so the integer zero is a
  constructor of its own.
\<close>

datatype object_type =
    MODBUS_OBJECT_NONE | MODBUS_OBJECT_COIL | MODBUS_OBJECT_DISCRETE_INPUT
  | MODBUS_OBJECT_HOLDING_REGISTER | MODBUS_OBJECT_INPUT_REGISTER

datatype semantic_source =
    SEMANTIC_SOURCE_UNRESOLVED | SEMANTIC_SOURCE_PROFILE | SEMANTIC_SOURCE_USER
  | SEMANTIC_SOURCE_DISCOVERY | SEMANTIC_SOURCE_IMPORTED

datatype semantic_status =
    SEMANTIC_STATUS_UNRESOLVED | SEMANTIC_STATUS_INFERRED | SEMANTIC_STATUS_RESOLVED
  | SEMANTIC_STATUS_VERIFIED | SEMANTIC_STATUS_CONFLICT

section \<open>The context record\<close>

text \<open>
  The fields of a record carry a short prefix naming the record, since the C structures share
  field names: \<open>c_\<close> for a context, \<open>m_\<close> for a mapping entry, and so on.
\<close>

record control_constraint =
  writable :: bool
  valid_range_min :: f32
  valid_range_max :: f32

record tcm_context =
  c_tcm_version :: string
  c_gateway_id :: string
  c_channel_id :: u8
  c_context_id :: u32
  c_device_id :: string
  c_point_id :: string
  c_source_protocol :: source_protocol
  c_slave_id :: u8
  c_function_code :: u8
  c_register_address :: u16
  c_data_type :: data_type
  c_measurement_name :: string
  c_unit :: string
  c_value :: f64
  c_raw_value :: f64
  c_value_text :: string
  c_scale_factor :: f32
  c_offset :: f32
  c_byte_order :: byte_order
  c_timestamp_ms :: ms
  c_quality_state :: quality_state
  c_network_state :: network_state
  c_operation_type :: operation_type
  c_constraint :: control_constraint
  c_sequence_id :: u32
  c_mapping_version :: u32
  c_gateway_property_key :: string
  c_object_type :: object_type
  c_semantic_source :: semantic_source
  c_semantic_status :: semantic_status
  c_semantic_profile_id :: string
  c_semantic_profile_version :: u32
  c_semantic_confidence :: u8
  c_semantic_evidence :: string
  c_timestamp_synchronized :: bool
  c_validated :: bool

end
