(* ===== verification/Runtime_Config.thy ===== *)
theory Runtime_Config
  imports Tcm_Types
begin

text \<open>
  The persistent configuration (\<open>config/runtime_config.c\<close>): the structures of the current and
  of the three older schemas, the defaults, the validation, the migrations, and the
  transactional save that writes the inactive one of two NVS slots, reads it back and then
  moves the active flag. The memory image a checksum is computed over is chosen by the compiler
  and an argument (\<open>layout\<close>); the checksum is the code's. What the NVS calls of one save return
  is a record of arguments (\<open>nvs_env\<close>), with arbitrary failures and an arbitrary result of the
  read-back. The results: the configuration that a boot loads after a save, whatever
  fails in it, is the previous one or the new one, and a save that reports success is loaded.
\<close>

section \<open>Structures\<close>

datatype ui_locale = UI_LOCALE_ZH_CN | UI_LOCALE_EN_US

text \<open>An enumeration read from storage or a request may hold no valid value.\<close>

datatype mqtt_platform_type =
  MQTT_PLATFORM_CUSTOM | MQTT_PLATFORM_THINGSCLOUD | MQTT_PLATFORM_OTHER

datatype mqtt_report_mode = MQ_REPORT_SUBDEVICE | MQ_REPORT_GATEWAY | MQ_REPORT_OTHER

abbreviation RUNTIME_CONFIG_SCHEMA_VERSION :: u32 where "RUNTIME_CONFIG_SCHEMA_VERSION \<equiv> 3"
abbreviation RUNTIME_MAX_TCP_ENDPOINTS :: nat where "RUNTIME_MAX_TCP_ENDPOINTS \<equiv> 8"

record wifi_config =
  w_enabled :: bool
  w_ssid :: string
  w_password :: string

record mqtt_config =
  q_enabled :: bool
  q_platform_type :: mqtt_platform_type
  q_uri :: string
  q_client_id :: string
  q_username :: string
  q_password :: string
  q_data_prefix :: string
  q_command_prefix :: string
  q_keepalive_sec :: u16
  q_qos :: u8
  q_clean_session :: bool
  q_retain :: bool
  q_lwt_enabled :: bool
  q_lwt_topic :: string
  q_lwt_payload :: string
  q_lwt_qos :: u8
  q_lwt_retain :: bool
  q_report_mode :: mqtt_report_mode

record modbus_rtu_config =
  r_enabled :: bool
  r_baud_rate :: u32
  r_parity :: u8
  r_timeout_ms :: u16

record tcp_endpoint =
  ep_enabled :: bool
  ep_endpoint_id :: u8
  ep_name :: string
  ep_host :: string
  ep_port :: u16
  ep_timeout_ms :: u16

record time_config =
  t_enabled :: bool
  t_server1 :: string
  t_server2 :: string
  t_timezone :: string
  t_sync_interval_ms :: u32

record security_config =
  sec_auth_enabled :: bool
  sec_username :: string
  sec_password_sha256 :: string
  sec_ota_enabled :: bool
  sec_ota_allow_http :: bool

record tcp_server_config =
  srv_enabled :: bool
  srv_port :: u16
  srv_max_clients :: u8
  srv_response_timeout_ms :: u16

record northbound_config =
  nb_sparkplug_enabled :: bool
  nb_sparkplug_group :: string
  nb_sparkplug_node :: string
  nb_sparkplug_device :: string

record runtime_config =
  rc_schema_version :: u32
  rc_gateway_id :: string
  rc_locale :: ui_locale
  rc_prefer_ethernet :: bool
  rc_lcd_enabled :: bool
  rc_tf_enabled :: bool
  rc_mcp_write_enabled :: bool
  rc_wifi :: wifi_config
  rc_mqtt :: mqtt_config
  rc_modbus_rtu :: modbus_rtu_config
  rc_tcp_endpoints :: "tcp_endpoint list"
  rc_tcp_endpoint_count :: u8
  rc_time :: time_config
  rc_security :: security_config
  rc_modbus_tcp_server :: tcp_server_config
  rc_northbound :: northbound_config

text \<open>The structures after \<open>memset\<close> with zero.\<close>

definition zero_wifi_config :: wifi_config where
  "zero_wifi_config = \<lparr>w_enabled = False,
     w_ssid = [],
     w_password = []\<rparr>"

definition zero_mqtt_config :: mqtt_config where
  "zero_mqtt_config = \<lparr>q_enabled = False,
     q_platform_type = MQTT_PLATFORM_CUSTOM,
     q_uri = [],
     q_client_id = [],
     q_username = [],
     q_password = [],
     q_data_prefix = [],
     q_command_prefix = [],
     q_keepalive_sec = 0,
     q_qos = 0,
     q_clean_session = False,
     q_retain = False,
     q_lwt_enabled = False,
     q_lwt_topic = [],
     q_lwt_payload = [],
     q_lwt_qos = 0,
     q_lwt_retain = False,
     q_report_mode = MQ_REPORT_SUBDEVICE\<rparr>"

definition zero_modbus_rtu_config :: modbus_rtu_config where
  "zero_modbus_rtu_config = \<lparr>r_enabled = False,
     r_baud_rate = 0,
     r_parity = 0,
     r_timeout_ms = 0\<rparr>"

definition zero_tcp_endpoint :: tcp_endpoint where
  "zero_tcp_endpoint = \<lparr>ep_enabled = False,
     ep_endpoint_id = 0,
     ep_name = [],
     ep_host = [],
     ep_port = 0,
     ep_timeout_ms = 0\<rparr>"

definition zero_time_config :: time_config where
  "zero_time_config = \<lparr>t_enabled = False,
     t_server1 = [],
     t_server2 = [],
     t_timezone = [],
     t_sync_interval_ms = 0\<rparr>"

definition zero_security_config :: security_config where
  "zero_security_config = \<lparr>sec_auth_enabled = False,
     sec_username = [],
     sec_password_sha256 = [],
     sec_ota_enabled = False,
     sec_ota_allow_http = False\<rparr>"

definition zero_tcp_server_config :: tcp_server_config where
  "zero_tcp_server_config = \<lparr>srv_enabled = False,
     srv_port = 0,
     srv_max_clients = 0,
     srv_response_timeout_ms = 0\<rparr>"

definition zero_northbound_config :: northbound_config where
  "zero_northbound_config = \<lparr>nb_sparkplug_enabled = False,
     nb_sparkplug_group = [],
     nb_sparkplug_node = [],
     nb_sparkplug_device = []\<rparr>"

definition zero_runtime_config :: runtime_config where
  "zero_runtime_config = \<lparr>rc_schema_version = 0,
     rc_gateway_id = [],
     rc_locale = UI_LOCALE_ZH_CN,
     rc_prefer_ethernet = False,
     rc_lcd_enabled = False,
     rc_tf_enabled = False,
     rc_mcp_write_enabled = False,
     rc_wifi = zero_wifi_config,
     rc_mqtt = zero_mqtt_config,
     rc_modbus_rtu = zero_modbus_rtu_config,
     rc_tcp_endpoints = replicate RUNTIME_MAX_TCP_ENDPOINTS zero_tcp_endpoint,
     rc_tcp_endpoint_count = 0,
     rc_time = zero_time_config,
     rc_security = zero_security_config,
     rc_modbus_tcp_server = zero_tcp_server_config,
     rc_northbound = zero_northbound_config\<rparr>"

section \<open>Older schemas\<close>

record mqtt_config_v1 =
  q1_enabled :: bool
  q1_uri :: string
  q1_client_id :: string
  q1_username :: string
  q1_password :: string
  q1_data_prefix :: string
  q1_command_prefix :: string
  q1_keepalive_sec :: u16
  q1_qos :: u8

record runtime_config_v1 =
  rc1_schema_version :: u32
  rc1_gateway_id :: string
  rc1_locale :: ui_locale
  rc1_prefer_ethernet :: bool
  rc1_lcd_enabled :: bool
  rc1_tf_enabled :: bool
  rc1_mcp_write_enabled :: bool
  rc1_wifi :: wifi_config
  rc1_mqtt :: mqtt_config_v1
  rc1_modbus_rtu :: modbus_rtu_config
  rc1_tcp_endpoints :: "tcp_endpoint list"
  rc1_tcp_endpoint_count :: u8

record mqtt_config_v2 =
  q2_enabled :: bool
  q2_uri :: string
  q2_client_id :: string
  q2_username :: string
  q2_password :: string
  q2_data_prefix :: string
  q2_command_prefix :: string
  q2_keepalive_sec :: u16
  q2_qos :: u8
  q2_clean_session :: bool
  q2_retain :: bool
  q2_lwt_enabled :: bool
  q2_lwt_topic :: string
  q2_lwt_payload :: string
  q2_lwt_qos :: u8
  q2_lwt_retain :: bool

record runtime_config_v2 =
  rc2_schema_version :: u32
  rc2_gateway_id :: string
  rc2_locale :: ui_locale
  rc2_prefer_ethernet :: bool
  rc2_lcd_enabled :: bool
  rc2_tf_enabled :: bool
  rc2_mcp_write_enabled :: bool
  rc2_wifi :: wifi_config
  rc2_mqtt :: mqtt_config_v2
  rc2_modbus_rtu :: modbus_rtu_config
  rc2_tcp_endpoints :: "tcp_endpoint list"
  rc2_tcp_endpoint_count :: u8
  rc2_time :: time_config
  rc2_security :: security_config
  rc2_modbus_tcp_server :: tcp_server_config
  rc2_northbound :: northbound_config

record mqtt_config_v3 =
  q3_enabled :: bool
  q3_platform_type :: mqtt_platform_type
  q3_uri :: string
  q3_client_id :: string
  q3_username :: string
  q3_password :: string
  q3_data_prefix :: string
  q3_command_prefix :: string
  q3_keepalive_sec :: u16
  q3_qos :: u8
  q3_clean_session :: bool
  q3_retain :: bool
  q3_lwt_enabled :: bool
  q3_lwt_topic :: string
  q3_lwt_payload :: string
  q3_lwt_qos :: u8
  q3_lwt_retain :: bool

record runtime_config_v3 =
  rc3_schema_version :: u32
  rc3_gateway_id :: string
  rc3_locale :: ui_locale
  rc3_prefer_ethernet :: bool
  rc3_lcd_enabled :: bool
  rc3_tf_enabled :: bool
  rc3_mcp_write_enabled :: bool
  rc3_wifi :: wifi_config
  rc3_mqtt :: mqtt_config_v3
  rc3_modbus_rtu :: modbus_rtu_config
  rc3_tcp_endpoints :: "tcp_endpoint list"
  rc3_tcp_endpoint_count :: u8
  rc3_time :: time_config
  rc3_security :: security_config
  rc3_modbus_tcp_server :: tcp_server_config
  rc3_northbound :: northbound_config

definition migrate_v2_to_v3 :: "runtime_config_v2 \<Rightarrow> runtime_config" where
  "migrate_v2_to_v3 v =
     (let cfg = zero_runtime_config in
      cfg\<lparr>rc_schema_version := RUNTIME_CONFIG_SCHEMA_VERSION,
       rc_gateway_id := strlcpy 48 (rc2_gateway_id v),
       rc_locale := rc2_locale v,
       rc_prefer_ethernet := rc2_prefer_ethernet v,
       rc_lcd_enabled := rc2_lcd_enabled v,
       rc_tf_enabled := rc2_tf_enabled v,
       rc_mcp_write_enabled := rc2_mcp_write_enabled v,
       rc_wifi := rc2_wifi v,
       rc_modbus_rtu := rc2_modbus_rtu v,
       rc_tcp_endpoint_count := rc2_tcp_endpoint_count v,
       rc_tcp_endpoints := rc2_tcp_endpoints v,
       rc_time := rc2_time v,
       rc_security := rc2_security v,
       rc_modbus_tcp_server := rc2_modbus_tcp_server v,
       rc_northbound := rc2_northbound v,
       rc_mqtt := (rc_mqtt cfg)\<lparr>q_enabled := q2_enabled (rc2_mqtt v),
         q_platform_type := MQTT_PLATFORM_CUSTOM,
         q_uri := strlcpy 128 (q2_uri (rc2_mqtt v)),
         q_client_id := strlcpy 48 (q2_client_id (rc2_mqtt v)),
         q_username := strlcpy 64 (q2_username (rc2_mqtt v)),
         q_password := strlcpy 96 (q2_password (rc2_mqtt v)),
         q_data_prefix := strlcpy 64 (q2_data_prefix (rc2_mqtt v)),
         q_command_prefix := strlcpy 64 (q2_command_prefix (rc2_mqtt v)),
         q_keepalive_sec := q2_keepalive_sec (rc2_mqtt v),
         q_qos := q2_qos (rc2_mqtt v),
         q_clean_session := q2_clean_session (rc2_mqtt v),
         q_retain := q2_retain (rc2_mqtt v),
         q_lwt_enabled := q2_lwt_enabled (rc2_mqtt v),
         q_lwt_topic := strlcpy 96 (q2_lwt_topic (rc2_mqtt v)),
         q_lwt_payload := strlcpy 64 (q2_lwt_payload (rc2_mqtt v)),
         q_lwt_qos := q2_lwt_qos (rc2_mqtt v),
         q_lwt_retain := q2_lwt_retain (rc2_mqtt v)\<rparr>\<rparr>)"

section \<open>Defaults\<close>

definition load_defaults :: runtime_config where
  "load_defaults =
     (let cfg = zero_runtime_config; gateway_id = strlcpy 48 ''esp32s3_gateway_01'' in
      cfg\<lparr>rc_schema_version := RUNTIME_CONFIG_SCHEMA_VERSION,
       rc_gateway_id := gateway_id,
       rc_locale := UI_LOCALE_ZH_CN,
       rc_prefer_ethernet := True,
       rc_lcd_enabled := True,
       rc_tf_enabled := True,
       rc_mcp_write_enabled := False,
       rc_wifi := (rc_wifi cfg)\<lparr>w_enabled := True, w_ssid := strlcpy 33 ''YOUR_WIFI_SSID'',
         w_password := strlcpy 65 ''YOUR_WIFI_PASSWORD''\<rparr>,
       rc_mqtt := (rc_mqtt cfg)\<lparr>q_enabled := True, q_platform_type := MQTT_PLATFORM_CUSTOM,
         q_uri := strlcpy 128 ''mqtt://192.168.1.100:1883'',
         q_client_id := strlcpy 48 ''esp32s3_gateway_01'',
         q_username := [], q_password := [],
         q_data_prefix := strlcpy 64 ''factory/data/'', q_command_prefix := strlcpy 64 ''factory/cmd/'',
         q_keepalive_sec := 60, q_qos := 1, q_clean_session := False, q_retain := False,
         q_lwt_enabled := True, q_lwt_topic := strlcpy 96 (''gateway/'' @ gateway_id @ ''/status''),
         q_lwt_payload := strlcpy 64 ''offline'', q_lwt_qos := 1, q_lwt_retain := True,
         q_report_mode := MQ_REPORT_SUBDEVICE\<rparr>,
       rc_modbus_rtu := (rc_modbus_rtu cfg)\<lparr>r_enabled := True, r_baud_rate := 9600, r_parity := 0,
         r_timeout_ms := 1000\<rparr>,
       rc_time := (rc_time cfg)\<lparr>t_enabled := True, t_server1 := strlcpy 64 ''pool.ntp.org'',
         t_server2 := strlcpy 64 ''time.cloudflare.com'', t_timezone := strlcpy 48 ''CST-8'',
         t_sync_interval_ms := 3600000\<rparr>,
       rc_security := (rc_security cfg)\<lparr>sec_auth_enabled := False, sec_ota_enabled := True,
         sec_ota_allow_http := False\<rparr>,
       rc_modbus_tcp_server := (rc_modbus_tcp_server cfg)\<lparr>srv_enabled := True, srv_port := 502,
         srv_max_clients := 4, srv_response_timeout_ms := 1000\<rparr>,
       rc_northbound := (rc_northbound cfg)\<lparr>nb_sparkplug_group := strlcpy 32 ''ESP32_Gateways'',
         nb_sparkplug_node := strlcpy 32 gateway_id, nb_sparkplug_device := strlcpy 32 ''modbus''\<rparr>\<rparr>)"

definition migrate_v3_to_current :: "runtime_config_v3 \<Rightarrow> runtime_config" where
  "migrate_v3_to_current v =
     (let cfg = load_defaults in
      cfg\<lparr>rc_schema_version := RUNTIME_CONFIG_SCHEMA_VERSION,
       rc_gateway_id := strlcpy 48 (rc3_gateway_id v),
       rc_locale := rc3_locale v,
       rc_prefer_ethernet := rc3_prefer_ethernet v,
       rc_lcd_enabled := rc3_lcd_enabled v,
       rc_tf_enabled := rc3_tf_enabled v,
       rc_mcp_write_enabled := rc3_mcp_write_enabled v,
       rc_wifi := rc3_wifi v,
       rc_modbus_rtu := rc3_modbus_rtu v,
       rc_tcp_endpoint_count := rc3_tcp_endpoint_count v,
       rc_tcp_endpoints := rc3_tcp_endpoints v,
       rc_time := rc3_time v,
       rc_security := rc3_security v,
       rc_modbus_tcp_server := rc3_modbus_tcp_server v,
       rc_northbound := rc3_northbound v,
       rc_mqtt := (rc_mqtt cfg)\<lparr>q_enabled := q3_enabled (rc3_mqtt v),
         q_platform_type := q3_platform_type (rc3_mqtt v),
         q_uri := strlcpy 128 (q3_uri (rc3_mqtt v)),
         q_client_id := strlcpy 48 (q3_client_id (rc3_mqtt v)),
         q_username := strlcpy 64 (q3_username (rc3_mqtt v)),
         q_password := strlcpy 96 (q3_password (rc3_mqtt v)),
         q_data_prefix := strlcpy 64 (q3_data_prefix (rc3_mqtt v)),
         q_command_prefix := strlcpy 64 (q3_command_prefix (rc3_mqtt v)),
         q_keepalive_sec := q3_keepalive_sec (rc3_mqtt v),
         q_qos := q3_qos (rc3_mqtt v),
         q_clean_session := q3_clean_session (rc3_mqtt v),
         q_retain := q3_retain (rc3_mqtt v),
         q_lwt_enabled := q3_lwt_enabled (rc3_mqtt v),
         q_lwt_topic := strlcpy 96 (q3_lwt_topic (rc3_mqtt v)),
         q_lwt_payload := strlcpy 64 (q3_lwt_payload (rc3_mqtt v)),
         q_lwt_qos := q3_lwt_qos (rc3_mqtt v),
         q_lwt_retain := q3_lwt_retain (rc3_mqtt v),
         q_report_mode := MQ_REPORT_SUBDEVICE\<rparr>\<rparr>)"

text \<open>The fields the schema 1 migration of \<open>runtime_config_init\<close> copies over the defaults.\<close>

definition migrate_v1 :: "runtime_config_v1 \<Rightarrow> runtime_config \<Rightarrow> runtime_config" where
  "migrate_v1 v cfg =
      cfg\<lparr>rc_gateway_id := strlcpy 48 (rc1_gateway_id v),
       rc_locale := rc1_locale v,
       rc_prefer_ethernet := rc1_prefer_ethernet v,
       rc_lcd_enabled := rc1_lcd_enabled v,
       rc_tf_enabled := rc1_tf_enabled v,
       rc_mcp_write_enabled := rc1_mcp_write_enabled v,
       rc_wifi := rc1_wifi v,
       rc_modbus_rtu := rc1_modbus_rtu v,
       rc_tcp_endpoint_count := rc1_tcp_endpoint_count v,
       rc_tcp_endpoints := rc1_tcp_endpoints v,
       rc_mqtt := (rc_mqtt cfg)\<lparr>q_enabled := q1_enabled (rc1_mqtt v),
         q_uri := strlcpy 128 (q1_uri (rc1_mqtt v)),
         q_client_id := strlcpy 48 (q1_client_id (rc1_mqtt v)),
         q_username := strlcpy 64 (q1_username (rc1_mqtt v)),
         q_password := strlcpy 96 (q1_password (rc1_mqtt v)),
         q_data_prefix := strlcpy 64 (q1_data_prefix (rc1_mqtt v)),
         q_command_prefix := strlcpy 64 (q1_command_prefix (rc1_mqtt v)),
         q_keepalive_sec := q1_keepalive_sec (rc1_mqtt v),
         q_qos := q1_qos (rc1_mqtt v)\<rparr>\<rparr>"

section \<open>Validation\<close>

text \<open>The reason of the first check that fails, or None.\<close>

definition config_error :: "runtime_config option \<Rightarrow> string option" where
  "config_error config =
     (case config of
        None \<Rightarrow> Some ''configuration is null''
      | Some c \<Rightarrow>
          (if rc_schema_version c \<noteq> RUNTIME_CONFIG_SCHEMA_VERSION then Some ''schema version mismatch''
           else if rc_gateway_id c = [] then Some ''gateway ID is required''
           else if unat (rc_tcp_endpoint_count c) > RUNTIME_MAX_TCP_ENDPOINTS then Some ''too many TCP endpoints''
           else if q_qos (rc_mqtt c) > 2 \<or> q_lwt_qos (rc_mqtt c) > 2 then Some ''MQTT QoS must be 0..2''
           else if q_platform_type (rc_mqtt c) \<noteq> MQTT_PLATFORM_CUSTOM \<and>
                   q_platform_type (rc_mqtt c) \<noteq> MQTT_PLATFORM_THINGSCLOUD then Some ''invalid MQTT platform type''
           else if q_report_mode (rc_mqtt c) \<noteq> MQ_REPORT_SUBDEVICE \<and>
                   q_report_mode (rc_mqtt c) \<noteq> MQ_REPORT_GATEWAY then Some ''invalid MQTT report mode''
           else if r_baud_rate (rc_modbus_rtu c) < 1200 \<or>
                   r_baud_rate (rc_modbus_rtu c) > 1000000 then Some ''invalid RTU baud rate''
           else if r_timeout_ms (rc_modbus_rtu c) < 20 \<or>
                   r_timeout_ms (rc_modbus_rtu c) > 30000 then Some ''invalid RTU timeout''
           else if srv_enabled (rc_modbus_tcp_server c) \<and> srv_port (rc_modbus_tcp_server c) = 0
             then Some ''invalid Modbus TCP server port''
           else None))"

text \<open>The status and the text written to \<open>reason\<close>.\<close>

definition runtime_config_validate :: "runtime_config option \<Rightarrow> nat \<Rightarrow> esp_err \<times> string" where
  "runtime_config_validate config reason_size =
     (let error = config_error config in
      (case error of None \<Rightarrow> ESP_OK | Some _ \<Rightarrow> ESP_ERR_INVALID_ARG,
       strlcpy reason_size (case error of None \<Rightarrow> ''ok'' | Some e \<Rightarrow> e)))"

section \<open>Storage\<close>

definition crc32_bit :: "u32 \<Rightarrow> u32" where
  "crc32_bit crc = drop_bit 1 crc XOR (0xEDB88320 AND - (crc AND 1))"

definition crc32_bytes :: "u8 list \<Rightarrow> u32" where
  "crc32_bytes data = NOT (fold (\<lambda>b crc. (crc32_bit ^^ 8) (crc XOR ucast b)) data 0xFFFFFFFF)"

text \<open>A checksummed record as it is stored; schema 1 had no generation (it is 0 here).\<close>

record 'c stored =
  st_magic :: u32
  st_generation :: u32
  st_crc32 :: u32
  st_config :: 'c

text \<open>
  What a key may hold: the sizes of the four records differ, so the size check of the code
  tells them apart. Anything else is \<open>Blob_other\<close>.
\<close>

datatype config_blob =
    Blob_current "runtime_config stored"
  | Blob_v3 "runtime_config_v3 stored"
  | Blob_v2 "runtime_config_v2 stored"
  | Blob_v1 "runtime_config_v1 stored"
  | Blob_other

record config_nvs =
  nv_slot_a :: "config_blob option"
  nv_slot_b :: "config_blob option"
  nv_legacy :: "config_blob option"
  nv_active :: "u8 option"

text \<open>The memory images the checksums are computed over.\<close>

record config_layout =
  lay :: "runtime_config \<Rightarrow> u8 list"
  lay3 :: "runtime_config_v3 \<Rightarrow> u8 list"
  lay2 :: "runtime_config_v2 \<Rightarrow> u8 list"
  lay1 :: "runtime_config_v1 \<Rightarrow> u8 list"

text \<open>
  What one save finds: the allocations, the status of each NVS call, what the slot holds after
  a write that was reported done (\<open>nf_written\<close>, the blob itself unless the flash is faulty) and
  after one that was not (\<open>nf_blob_kept\<close>, None when the slot is unchanged), and whether a flag
  whose write was reported failed is nevertheless stored.
\<close>

record nvs_env =
  nf_alloc :: bool
  nf_open :: esp_err
  nf_get_active :: bool
  nf_set_blob :: esp_err
  nf_commit_blob :: esp_err
  nf_blob_kept :: "config_blob \<Rightarrow> config_blob option"
  nf_written :: "config_blob \<Rightarrow> config_blob"
  nf_read_back :: esp_err
  nf_set_u8 :: esp_err
  nf_commit_u8 :: esp_err
  nf_u8_kept :: bool

record config_state =
  g_config :: runtime_config
  g_generation :: u32
  g_nvs :: config_nvs

abbreviation CONFIG_MAGIC :: u32 where "CONFIG_MAGIC \<equiv> 0x47435731"

definition stored_config_valid :: "config_layout \<Rightarrow> config_blob option \<Rightarrow> bool" where
  "stored_config_valid L blob =
     (case blob of
        Some (Blob_current st) \<Rightarrow>
          st_magic st = CONFIG_MAGIC \<and>
          rc_schema_version (st_config st) = RUNTIME_CONFIG_SCHEMA_VERSION \<and>
          st_crc32 st = crc32_bytes (lay L (st_config st)) \<and>
          fst (runtime_config_validate (Some (st_config st)) 0) = ESP_OK
      | _ \<Rightarrow> False)"

text \<open>First error wins, as in the code's \<open>if (err == ESP_OK) err = ...\<close>.\<close>

definition and_then :: "esp_err \<Rightarrow> esp_err \<Rightarrow> esp_err" where
  "and_then e f = (if e = ESP_OK then f else e)"

definition next_generation :: "u32 \<Rightarrow> u32" where
  "next_generation g = (if g = 0xFFFFFFFF then 1 else g + 1)"

definition active_index :: "nvs_env \<Rightarrow> config_nvs \<Rightarrow> u8" where
  "active_index env n = (if nf_get_active env then (case nv_active n of Some a \<Rightarrow> a | None \<Rightarrow> 0) else 0)"

definition set_slot :: "bool \<Rightarrow> config_blob \<Rightarrow> config_nvs \<Rightarrow> config_nvs" where
  "set_slot b blob n = (if b then n\<lparr>nv_slot_b := Some blob\<rparr> else n\<lparr>nv_slot_a := Some blob\<rparr>)"

definition save_locked :: "config_layout \<Rightarrow> nvs_env \<Rightarrow> config_state \<Rightarrow> config_state \<times> esp_err" where
  "save_locked L env s =
     (if \<not> nf_alloc env then (s, ESP_ERR_NO_MEM)
      else
        let stored = \<lparr>st_magic = CONFIG_MAGIC, st_generation = next_generation (g_generation s),
              st_crc32 = crc32_bytes (lay L (g_config s)), st_config = g_config s\<rparr>
        in if nf_open env \<noteq> ESP_OK then (s, nf_open env)
        else
          let active = active_index env (g_nvs s);
              to_b = (active = 0);
              err = and_then (nf_set_blob env) (nf_commit_blob env);
              slot = (if err = ESP_OK then Some (nf_written env (Blob_current stored))
                      else nf_blob_kept env (Blob_current stored));
              nvs = (case slot of None \<Rightarrow> g_nvs s | Some blob \<Rightarrow> set_slot to_b blob (g_nvs s));
              err = and_then err (and_then (nf_read_back env)
                      (case slot of
                         Some (Blob_current verify) \<Rightarrow>
                           (if \<not> stored_config_valid L (Some (Blob_current verify)) \<or>
                               st_generation verify \<noteq> st_generation stored \<or>
                               st_config verify \<noteq> st_config stored then ESP_ERR_INVALID_CRC
                            else ESP_OK)
                       | _ \<Rightarrow> ESP_ERR_INVALID_CRC));
              flag = (if active = 0 then 1 else 0 :: u8);
              err' = and_then err (and_then (nf_set_u8 env) (nf_commit_u8 env));
              nvs = (if err = ESP_OK \<and> (err' = ESP_OK \<or> nf_u8_kept env) then nvs\<lparr>nv_active := Some flag\<rparr> else nvs);
              s = s\<lparr>g_nvs := nvs\<rparr>
          in if err' = ESP_OK then (s\<lparr>g_generation := st_generation stored\<rparr>, ESP_OK) else (s, err'))"

definition old_valid :: "'c stored \<Rightarrow> ('c \<Rightarrow> u8 list) \<Rightarrow> ('c \<Rightarrow> u32) \<Rightarrow> u32 \<Rightarrow> bool" where
  "old_valid st layout version v \<longleftrightarrow>
     st_magic st = CONFIG_MAGIC \<and> version (st_config st) = v \<and> st_crc32 st = crc32_bytes (layout (st_config st))"

definition first_of :: "'a option \<Rightarrow> 'a option \<Rightarrow> 'a option" where
  "first_of x y = (case x of Some z \<Rightarrow> Some z | None \<Rightarrow> y)"

text \<open>
  The selection at boot: the generation and configuration the code takes, and whether it
  was migrated and so is saved again. \<open>read_a\<close> and \<open>read_b\<close> say whether the slots can be read,
  \<open>calloc_v1\<close> whether the buffer for the schema 1 record could be allocated.
\<close>

definition select_config ::
  "config_layout \<Rightarrow> bool \<Rightarrow> bool \<Rightarrow> bool \<Rightarrow> config_nvs \<Rightarrow> runtime_config \<times> u32 \<times> bool" where
  "select_config L read_a read_b calloc_v1 n =
     (let a = (if read_a then nv_slot_a n else None);
          b = (if read_b then nv_slot_b n else None);
          valid_a = stored_config_valid L a;
          valid_b = stored_config_valid L b;
          v2 = (\<lambda>blob. case blob of
              Some (Blob_v2 st) \<Rightarrow> if old_valid st (lay2 L) rc2_schema_version 2 then Some st else None
            | _ \<Rightarrow> None);
          v3 = (\<lambda>blob. case blob of
              Some (Blob_v3 st) \<Rightarrow> if old_valid st (lay3 L) rc3_schema_version 3 then Some st else None
            | _ \<Rightarrow> None);
          current = (\<lambda>blob. case blob of Some (Blob_current st) \<Rightarrow> (st_config st, st_generation st, False)
            | _ \<Rightarrow> (load_defaults, 0, True))
      in if valid_a \<or> valid_b then
           (if valid_b \<and> (\<not> valid_a \<or> fst (snd (current b)) > fst (snd (current a))) then current b else current a)
         else case first_of (v2 a) (v2 b) of
           Some st \<Rightarrow> (migrate_v2_to_v3 (st_config st), st_generation st, True)
         | None \<Rightarrow> (case first_of (v3 a) (v3 b) of
             Some st \<Rightarrow> (migrate_v3_to_current (st_config st), st_generation st, True)
           | None \<Rightarrow> (case nv_legacy n of
               Some (Blob_v1 st) \<Rightarrow>
                 (if calloc_v1 \<and> old_valid st (lay1 L) rc1_schema_version 1
                  then (migrate_v1 (st_config st) load_defaults, 0, True)
                  else (load_defaults, 0, True))
             | _ \<Rightarrow> (load_defaults, 0, True))))"

record boot_env =
  b_mutex :: bool
  b_alloc :: bool
  b_open :: bool
  b_read_a :: bool
  b_read_b :: bool
  b_calloc_v1 :: bool
  b_save :: nvs_env

definition runtime_config_init ::
  "config_layout \<Rightarrow> boot_env \<Rightarrow> config_state \<Rightarrow> config_state \<times> esp_err" where
  "runtime_config_init L env s =
     (if \<not> b_mutex env then (s, ESP_ERR_NO_MEM)
      else
        let s = s\<lparr>g_generation := 0, g_config := load_defaults\<rparr>
        in if \<not> b_alloc env then (s, ESP_ERR_NO_MEM)
        else if b_open env then
          (case select_config L (b_read_a env) (b_read_b env) (b_calloc_v1 env) (g_nvs s) of
             (config, generation, resave) \<Rightarrow>
               let s = s\<lparr>g_config := config, g_generation := generation\<rparr>
               in if resave then save_locked L (b_save env) s else (s, ESP_OK))
        else save_locked L (b_save env) s)"

definition runtime_config_get :: "config_state \<Rightarrow> runtime_config" where
  "runtime_config_get s = g_config s"

definition runtime_config_get_locale :: "config_state \<Rightarrow> ui_locale" where
  "runtime_config_get_locale s = rc_locale (g_config s)"

definition runtime_config_get_generation :: "config_state \<Rightarrow> u32" where
  "runtime_config_get_generation s = g_generation s"

definition runtime_config_set ::
  "config_layout \<Rightarrow> nvs_env \<Rightarrow> runtime_config option \<Rightarrow> config_state \<Rightarrow> config_state \<times> esp_err" where
  "runtime_config_set L env config s =
     (let v = fst (runtime_config_validate config 0) in
      if v \<noteq> ESP_OK then (s, v)
      else
        let previous = g_config s;
            (s, err) = save_locked L env (s\<lparr>g_config := the config\<rparr>)
        in if err \<noteq> ESP_OK then (s\<lparr>g_config := previous\<rparr>, err) else (s, err))"

definition runtime_config_reset :: "config_layout \<Rightarrow> nvs_env \<Rightarrow> config_state \<Rightarrow> config_state \<times> esp_err" where
  "runtime_config_reset L env s = save_locked L env (s\<lparr>g_config := load_defaults\<rparr>)"

section \<open>The two slots\<close>

definition active_b :: "config_nvs \<Rightarrow> bool" where
  "active_b n = (case nv_active n of Some a \<Rightarrow> a \<noteq> 0 | None \<Rightarrow> False)"

definition config_slot :: "bool \<Rightarrow> config_nvs \<Rightarrow> config_blob option" where
  "config_slot b n = (if b then nv_slot_b n else nv_slot_a n)"

definition slot_holds :: "config_layout \<Rightarrow> config_blob option \<Rightarrow> runtime_config \<Rightarrow> u32 \<Rightarrow> bool" where
  "slot_holds L blob c g \<longleftrightarrow> stored_config_valid L blob \<and>
     (case blob of Some (Blob_current st) \<Rightarrow> st_config st = c \<and> st_generation st = g | _ \<Rightarrow> False)"

definition slot_older :: "config_layout \<Rightarrow> config_blob option \<Rightarrow> u32 \<Rightarrow> bool" where
  "slot_older L blob g \<longleftrightarrow> stored_config_valid L blob \<longrightarrow>
     (case blob of Some (Blob_current st) \<Rightarrow> st_generation st < g | _ \<Rightarrow> True)"

text \<open>
  The state between saves: the active slot holds the configuration in memory, and the other
  one nothing valid or an older generation.
\<close>

definition config_ok :: "config_layout \<Rightarrow> config_state \<Rightarrow> bool" where
  "config_ok L s \<longleftrightarrow>
     slot_holds L (config_slot (active_b (g_nvs s)) (g_nvs s)) (g_config s) (g_generation s) \<and>
     slot_older L (config_slot (\<not> active_b (g_nvs s)) (g_nvs s)) (g_generation s)"

text \<open>What a boot takes from the store when it can be read.\<close>

definition boot_config :: "config_layout \<Rightarrow> config_nvs \<Rightarrow> runtime_config" where
  "boot_config L n = fst (select_config L True True True n)"

text \<open>A write leaves the blob intact or something the checks reject.\<close>

definition corruption_detected :: "config_layout \<Rightarrow> nvs_env \<Rightarrow> bool" where
  "corruption_detected L env \<longleftrightarrow>
     (\<forall>blob. stored_config_valid L (Some (nf_written env blob)) \<longrightarrow> nf_written env blob = blob) \<and>
     (\<forall>blob b. nf_blob_kept env blob = Some b \<longrightarrow> stored_config_valid L (Some b) \<longrightarrow> b = blob)"

lemma slot_set_slot [simp]:
  "config_slot b (set_slot b' blob n) = (if b = b' then Some blob else config_slot b n)"
  "nv_active (set_slot b' blob n) = nv_active n" "active_b (set_slot b' blob n) = active_b n"
  by (auto simp: config_slot_def set_slot_def active_b_def)

lemma slot_active [simp]: "config_slot b (n\<lparr>nv_active := a\<rparr>) = config_slot b n"
  "active_b (n\<lparr>nv_active := Some f\<rparr>) \<longleftrightarrow> f \<noteq> 0"
  by (auto simp: config_slot_def active_b_def)

lemma valid_current [simp]:
  "\<not> stored_config_valid L None" "\<not> stored_config_valid L (Some (Blob_v3 x))"
  "\<not> stored_config_valid L (Some (Blob_v2 y))" "\<not> stored_config_valid L (Some (Blob_v1 z))"
  "\<not> stored_config_valid L (Some Blob_other)"
  by (simp_all add: stored_config_valid_def)

lemma boot_newest:
  assumes "slot_holds L (config_slot b n) c g" "slot_older L (config_slot (\<not> b) n) g"
  shows "select_config L True True True n = (c, g, False)"
proof (cases b)
  case True
  then show ?thesis using assms
    by (auto simp: slot_holds_def slot_older_def config_slot_def select_config_def Let_def
        split: option.splits config_blob.splits)
next
  case False
  then show ?thesis using assms
    by (auto simp: slot_holds_def slot_older_def config_slot_def select_config_def Let_def
        split: option.splits config_blob.splits)
qed

lemma boot_config_newest:
  "slot_holds L (config_slot b n) c g \<Longrightarrow> slot_older L (config_slot (\<not> b) n) g \<Longrightarrow> boot_config L n = c"
  by (simp add: boot_config_def boot_newest)

lemma and_then_OK [simp]: "and_then e f = ESP_OK \<longleftrightarrow> e = ESP_OK \<and> f = ESP_OK"
  by (simp add: and_then_def)

lemma active_index_slot: "nf_get_active env \<Longrightarrow> active_index env n = 0 \<longleftrightarrow> \<not> active_b n"
  by (simp add: active_index_def active_b_def split: option.splits)

lemma next_generation_less: "g \<noteq> 0xFFFFFFFF \<Longrightarrow> g < next_generation g"
proof -
  assume g: "g \<noteq> 0xFFFFFFFF"
  have "unat g < 2 ^ 32" using unsigned_less [of g] by simp
  moreover have "unat g \<noteq> 2 ^ 32 - 1"
  proof
    assume "unat g = 2 ^ 32 - 1"
    then have "(word_of_nat (unat g) :: u32) = word_of_nat (2 ^ 32 - 1)" by (rule arg_cong)
    with g show False by simp
  qed
  ultimately have "Suc (unat g) < 2 ^ 32" by simp
  then have "unat (g + 1) = Suc (unat g)" by (simp add: unat_word_ariths)
  then show ?thesis using g by (simp add: next_generation_def word_less_nat_alt)
qed

text \<open>
  What a save does to the store: the active slot is untouched; the other one is unchanged or
  holds a blob that is the new one or invalid; and success means the new one is there and
  active.
\<close>

lemma save_locked_effect:
  assumes "save_locked L env s = (s', err)" "nf_get_active env" "corruption_detected L env"
    "fst (runtime_config_validate (Some (g_config s)) 0) = ESP_OK"
  defines "b \<equiv> active_b (g_nvs s)"
  shows "g_config s' = g_config s"
    "config_slot b (g_nvs s') = config_slot b (g_nvs s)"
    "config_slot (\<not> b) (g_nvs s') = config_slot (\<not> b) (g_nvs s) \<or>
     \<not> stored_config_valid L (config_slot (\<not> b) (g_nvs s')) \<or>
     slot_holds L (config_slot (\<not> b) (g_nvs s')) (g_config s) (next_generation (g_generation s))"
    "err = ESP_OK \<Longrightarrow> active_b (g_nvs s') = (\<not> b) \<and> g_generation s' = next_generation (g_generation s) \<and>
       slot_holds L (config_slot (\<not> b) (g_nvs s')) (g_config s) (next_generation (g_generation s))"
proof -
  let ?st = "\<lparr>st_magic = CONFIG_MAGIC, st_generation = next_generation (g_generation s),
     st_crc32 = crc32_bytes (lay L (g_config s)), st_config = g_config s\<rparr>"
  note ai = active_index_slot [OF assms(2), of "g_nvs s"]
  have w: "stored_config_valid L (Some (nf_written env (Blob_current ?st))) \<Longrightarrow>
      nf_written env (Blob_current ?st) = Blob_current ?st"
    and k: "\<And>x. nf_blob_kept env (Blob_current ?st) = Some x \<Longrightarrow> stored_config_valid L (Some x) \<Longrightarrow> x = Blob_current ?st"
    using assms(3) by (auto simp: corruption_detected_def)
  note d = save_locked_def Let_def
  show "g_config s' = g_config s" using assms(1) by (auto simp: d split: if_splits)
  show "config_slot b (g_nvs s') = config_slot b (g_nvs s)" using assms(1) ai
    by (auto simp: d b_def split: if_splits option.splits)
  show "config_slot (\<not> b) (g_nvs s') = config_slot (\<not> b) (g_nvs s) \<or>
     \<not> stored_config_valid L (config_slot (\<not> b) (g_nvs s')) \<or>
     slot_holds L (config_slot (\<not> b) (g_nvs s')) (g_config s) (next_generation (g_generation s))"
    using assms(1) ai w k
    by (auto simp: d b_def slot_holds_def split: if_splits option.splits)
  show "err = ESP_OK \<Longrightarrow> active_b (g_nvs s') = (\<not> b) \<and> g_generation s' = next_generation (g_generation s) \<and>
       slot_holds L (config_slot (\<not> b) (g_nvs s')) (g_config s) (next_generation (g_generation s))"
    using assms(1) ai w
    by (auto simp: d b_def slot_holds_def split: if_splits option.splits config_blob.splits)
qed


lemma holds_valid: "slot_holds L blob c g \<Longrightarrow> stored_config_valid L blob"
  by (simp add: slot_holds_def)

lemma holds_older: "slot_holds L blob c g \<Longrightarrow> g < g' \<Longrightarrow> slot_older L blob g'"
  by (auto simp: slot_holds_def slot_older_def split: option.splits config_blob.splits)

lemma save_boots:
  assumes "save_locked L env (s\<lparr>g_config := new\<rparr>) = (s', err)" "nf_get_active env" "corruption_detected L env"
    "fst (runtime_config_validate (Some new) 0) = ESP_OK" "config_ok L s" "g_generation s \<noteq> 0xFFFFFFFF"
  shows "boot_config L (g_nvs s') = g_config s \<or> boot_config L (g_nvs s') = new"
    "err = ESP_OK \<Longrightarrow> config_ok L s' \<and> boot_config L (g_nvs s') = new"
proof -
  let ?b = "active_b (g_nvs s)"
  let ?g' = "next_generation (g_generation s)"
  have gt: "g_generation s < ?g'" by (rule next_generation_less [OF assms(6)])
  note e = save_locked_effect [OF assms(1-3), simplified, OF assms(4)]
  have a: "slot_holds L (config_slot ?b (g_nvs s')) (g_config s) (g_generation s)"
    "slot_older L (config_slot (\<not> ?b) (g_nvs s)) (g_generation s)"
    using assms(5) e(2) by (simp_all add: config_ok_def)
  have new: "boot_config L (g_nvs s') = new" if "slot_holds L (config_slot (\<not> ?b) (g_nvs s')) new ?g'"
    using boot_config_newest [OF that] holds_older [OF a(1) gt] by simp
  have old: "boot_config L (g_nvs s') = g_config s" if "slot_older L (config_slot (\<not> ?b) (g_nvs s')) (g_generation s)"
    using boot_config_newest [OF a(1) that] .
  show "boot_config L (g_nvs s') = g_config s \<or> boot_config L (g_nvs s') = new"
  proof -
    consider "config_slot (\<not> ?b) (g_nvs s') = config_slot (\<not> ?b) (g_nvs s)"
      | "\<not> stored_config_valid L (config_slot (\<not> ?b) (g_nvs s'))"
      | "slot_holds L (config_slot (\<not> ?b) (g_nvs s')) new ?g'"
      using e(3) by blast
    then show ?thesis
      by cases (use new old a(2) in \<open>auto simp: slot_older_def\<close>)
  qed
  show "config_ok L s' \<and> boot_config L (g_nvs s') = new" if "err = ESP_OK"
    using e(1) e(4) [OF that] new holds_older [OF a(1) gt] by (simp add: config_ok_def)
qed

text \<open>A concrete store, freshly written with the defaults.\<close>

definition layout0 :: config_layout where
  "layout0 = \<lparr>lay = (\<lambda>c. map (\<lambda>ch. of_char ch) (rc_gateway_id c)), lay3 = (\<lambda>_. []), lay2 = (\<lambda>_. []), lay1 = (\<lambda>_. [])\<rparr>"

definition good_env :: nvs_env where
  "good_env = \<lparr>nf_alloc = True, nf_open = ESP_OK, nf_get_active = True, nf_set_blob = ESP_OK,
     nf_commit_blob = ESP_OK, nf_blob_kept = (\<lambda>_. None), nf_written = (\<lambda>b. b), nf_read_back = ESP_OK,
     nf_set_u8 = ESP_OK, nf_commit_u8 = ESP_OK, nf_u8_kept = False\<rparr>"

definition first_state :: config_state where
  "first_state = fst (save_locked layout0 good_env
     \<lparr>g_config = load_defaults, g_generation = 0, g_nvs = \<lparr>nv_slot_a = None, nv_slot_b = None,
      nv_legacy = None, nv_active = None\<rparr>\<rparr>)"

lemma defaults_valid: "fst (runtime_config_validate (Some load_defaults) 0) = ESP_OK"
  by (simp add: runtime_config_validate_def config_error_def load_defaults_def Let_def
    zero_runtime_config_def zero_mqtt_config_def zero_modbus_rtu_config_def zero_tcp_server_config_def strlcpy_def)

lemma good_env_detects: "corruption_detected L good_env" "nf_get_active good_env"
  by (simp_all add: corruption_detected_def good_env_def)

lemma first_state_ok: "config_ok layout0 first_state" "g_generation first_state = 1"
  using defaults_valid
  by (simp_all add: first_state_def save_locked_def good_env_def Let_def active_index_def set_slot_def
    stored_config_valid_def config_ok_def slot_holds_def slot_older_def config_slot_def active_b_def next_generation_def
    and_then_def, simp_all add: load_defaults_def Let_def)



lemma first_state_config: "g_config first_state = load_defaults"
  using save_locked_effect(1) [of layout0 good_env
     "\<lparr>g_config = load_defaults, g_generation = 0, g_nvs = \<lparr>nv_slot_a = None, nv_slot_b = None,
      nv_legacy = None, nv_active = None\<rparr>\<rparr>"] good_env_detects defaults_valid
  by (simp add: first_state_def prod_eq_iff)

lemma good_save: "fst (runtime_config_validate (Some (g_config s)) 0) = ESP_OK \<Longrightarrow>
    snd (save_locked layout0 good_env s) = ESP_OK"
  by (simp add: save_locked_def good_env_def Let_def stored_config_valid_def and_then_def runtime_config_validate_def)
    (auto simp: config_error_def split: if_splits)

lemma good_set: "fst (runtime_config_validate (Some c) 0) = ESP_OK \<Longrightarrow>
    runtime_config_set layout0 good_env (Some c) s = (fst (runtime_config_set layout0 good_env (Some c) s), ESP_OK)"
  using good_save [of "s\<lparr>g_config := c\<rparr>"] by (auto simp: runtime_config_set_def Let_def split: prod.splits)

text \<open>
  The flag of the active slot that cannot be read counts as slot A: with slot B active, the save writes over the active
  slot, and when this write is torn the next boot loads the configuration before the current one.
\<close>

lemma unread_flag_loses_config:
  assumes "active_b (g_nvs s)" "slot_holds L (nv_slot_a (g_nvs s)) old h"
    "nf_alloc env" "nf_open env = ESP_OK" "\<not> nf_get_active env" "and_then (nf_set_blob env) (nf_commit_blob env) \<noteq> ESP_OK"
    "nf_blob_kept env = (\<lambda>_. Some torn)" "\<not> stored_config_valid L (Some torn)"
  shows "boot_config L (g_nvs (fst (save_locked L env s))) = old"
proof -
  have n: "g_nvs (fst (save_locked L env s)) = (g_nvs s)\<lparr>nv_slot_b := Some torn\<rparr>"
    using assms(3-7) by (simp add: save_locked_def Let_def active_index_def set_slot_def and_then_def)
  have "slot_holds L (config_slot False ((g_nvs s)\<lparr>nv_slot_b := Some torn\<rparr>)) old h"
    "slot_older L (config_slot (\<not> False) ((g_nvs s)\<lparr>nv_slot_b := Some torn\<rparr>)) h"
    using assms(2,8) by (simp_all add: config_slot_def slot_older_def)
  then show ?thesis unfolding n by (rule boot_config_newest)
qed

section \<open>Properties\<close>

text \<open>
  C34. Saving a configuration is atomic over a power failure or a failing write, commit or read-back at any point, as
  long as the flag of the active slot can be read, the stored slots are consistent before, the generation counter has
  not reached its last value and the checksum detects a torn write: the next boot loads the previous configuration or
  the new one, the new one if the save reported success, never a mixture, a corrupt slot or the defaults; and in memory a
  set that fails leaves the previous configuration. (A flag that cannot be read: unread_flag_loses_config.)
\<close>

theorem config_set_atomic:
  assumes "runtime_config_set L env (Some new) s = (s', err)" "config_ok L s"
    "g_generation s \<noteq> 0xFFFFFFFF" "nf_get_active env" "corruption_detected L env"
  shows "(boot_config L (g_nvs s') = g_config s \<or> boot_config L (g_nvs s') = new) \<and>
    (err = ESP_OK \<longrightarrow> boot_config L (g_nvs s') = new \<and> config_ok L s') \<and>
    g_config s' = (if err = ESP_OK then new else g_config s)"
proof (cases "fst (runtime_config_validate (Some new) 0) = ESP_OK")
  case True
  obtain t e where t: "save_locked L env (s\<lparr>g_config := new\<rparr>) = (t, e)" by fastforce
  have "boot_config L (g_nvs t) = g_config s \<or> boot_config L (g_nvs t) = new"
    using save_boots(1) [OF t assms(4,5) True assms(2,3)] .
  moreover have "e = ESP_OK \<Longrightarrow> boot_config L (g_nvs t) = new \<and> config_ok L t"
    using save_boots(2) [OF t assms(4,5) True assms(2,3)] by blast
  moreover have "g_config t = new"
    using save_locked_effect(1) [OF t assms(4,5)] True by simp
  ultimately show ?thesis using assms(1) True t
    by (auto simp: runtime_config_set_def Let_def split: if_splits)
next
  case False
  then have "s' = s" "err \<noteq> ESP_OK" using assms(1) by (auto simp: runtime_config_set_def Let_def)
  moreover have "boot_config L (g_nvs s) = g_config s"
    using assms(2) boot_config_newest by (auto simp: config_ok_def)
  ultimately show ?thesis by simp
qed

lemma config_set_atomic_witness:
  "boot_config layout0 (g_nvs (fst (runtime_config_set layout0
      (good_env\<lparr>nf_set_u8 := ESP_FAIL\<rparr>) (Some (load_defaults\<lparr>rc_gateway_id := ''gw''\<rparr>)) first_state)))
    \<in> {load_defaults, load_defaults\<lparr>rc_gateway_id := ''gw''\<rparr>}"
proof -
  let ?env = "good_env\<lparr>nf_set_u8 := ESP_FAIL\<rparr>" and ?new = "load_defaults\<lparr>rc_gateway_id := ''gw''\<rparr>"
  have "nf_get_active ?env" "corruption_detected layout0 ?env"
    by (simp_all add: good_env_def corruption_detected_def)
  then show ?thesis
    using config_set_atomic [of layout0 ?env ?new first_state
      "fst (runtime_config_set layout0 ?env (Some ?new) first_state)"
      "snd (runtime_config_set layout0 ?env (Some ?new) first_state)"]
      first_state_ok first_state_config by simp
qed

text \<open>
  A set that reports success is durable: the configuration is valid, the next boot loads
  it, and the two slots are again in the state the next save relies on.
\<close>

theorem config_set_durable:
  assumes "runtime_config_set L env (Some new) s = (s', ESP_OK)" "config_ok L s"
    "g_generation s \<noteq> 0xFFFFFFFF" "nf_get_active env" "corruption_detected L env"
  shows "fst (runtime_config_validate (Some new) 0) = ESP_OK \<and> config_ok L s' \<and>
    boot_config L (g_nvs s') = new"
proof -
  have v: "fst (runtime_config_validate (Some new) 0) = ESP_OK"
    using assms(1) by (auto simp: runtime_config_set_def Let_def split: if_splits)
  then have "save_locked L env (s\<lparr>g_config := new\<rparr>) = (s', ESP_OK)"
    using assms(1) by (auto simp: runtime_config_set_def Let_def split: if_splits prod.splits)
  then show ?thesis
    using save_boots(2) [OF _ assms(4,5) v assms(2,3)] v by simp
qed

lemma config_set_durable_witness:
  "boot_config layout0 (g_nvs (fst (runtime_config_set layout0 good_env (Some load_defaults) first_state)))
    = load_defaults"
  using config_set_durable [OF good_set [OF defaults_valid] first_state_ok(1)]
    good_env_detects first_state_ok(2) by simp

text \<open>
  A set can report failure and still take effect: when only the active flag cannot be
  written, the caller is told the save failed and memory keeps the previous configuration,
  while the next boot, which goes by the generation and not by the flag, loads the new one.
\<close>

theorem config_set_failure_loaded:
  assumes "config_ok L s" "g_generation s \<noteq> 0xFFFFFFFF"
    "fst (runtime_config_validate (Some new) 0) = ESP_OK"
    "nf_alloc env" "nf_open env = ESP_OK" "nf_get_active env" "nf_set_blob env = ESP_OK"
    "nf_commit_blob env = ESP_OK" "nf_written env = (\<lambda>b. b)" "nf_read_back env = ESP_OK"
    "nf_set_u8 env = ESP_FAIL" "\<not> nf_u8_kept env"
    "runtime_config_set L env (Some new) s = (s', err)"
  shows "err = ESP_FAIL \<and> g_config s' = g_config s \<and> boot_config L (g_nvs s') = new"
proof -
  let ?b = "active_b (g_nvs s)"
  have gt: "g_generation s < next_generation (g_generation s)" by (rule next_generation_less [OF assms(2)])
  have v: "rc_schema_version new = RUNTIME_CONFIG_SCHEMA_VERSION"
    using assms(3) by (auto simp: runtime_config_validate_def config_error_def split: if_splits)
  have ai: "active_index env (g_nvs s) = 0 \<longleftrightarrow> \<not> ?b" by (rule active_index_slot [OF assms(6)])
  have s': "err = ESP_FAIL \<and> g_config s' = g_config s \<and> config_slot ?b (g_nvs s') = config_slot ?b (g_nvs s) \<and>
      slot_holds L (config_slot (\<not> ?b) (g_nvs s')) new (next_generation (g_generation s))"
    using assms(3-) v ai
    by (auto simp: runtime_config_set_def save_locked_def Let_def and_then_def slot_holds_def stored_config_valid_def)
  moreover have "slot_older L (config_slot ?b (g_nvs s')) (next_generation (g_generation s))"
    using s' assms(1) holds_older [OF _ gt] by (auto simp: config_ok_def)
  ultimately show ?thesis
    using boot_config_newest [of L "\<not> ?b" "g_nvs s'" new "next_generation (g_generation s)"] by simp
qed

lemma config_set_failure_loaded_witness:
  "boot_config layout0 (g_nvs (fst (runtime_config_set layout0
      (good_env\<lparr>nf_set_u8 := ESP_FAIL\<rparr>) (Some load_defaults) first_state))) = load_defaults"
  using config_set_failure_loaded [of layout0 first_state load_defaults "good_env\<lparr>nf_set_u8 := ESP_FAIL\<rparr>"
     "fst (runtime_config_set layout0 (good_env\<lparr>nf_set_u8 := ESP_FAIL\<rparr>) (Some load_defaults) first_state)"
     "snd (runtime_config_set layout0 (good_env\<lparr>nf_set_u8 := ESP_FAIL\<rparr>) (Some load_defaults) first_state)"]
    first_state_ok defaults_valid
  by (simp add: good_env_def)

end
