(* ===== verification/Amm_Mapping.thy ===== *)
theory Amm_Mapping
  imports Map_Store Runtime_Config
begin

text \<open>
  The adaptive mapping model (\<open>amm/amm_mapping.c\<close>): the table that binds Modbus points to
  devices, points and safety ranges, with its edits, imports, lookups, command validation and
  context enrichment. The table is the list of its used slots, active or not; \<open>am_capacity\<close> is
  the size of the allocated array, 0 when it could not be allocated. What the NVS calls of an
  operation return is a function of their number in the operation; a call that fails leaves
  the store as it was. The results: at most one active slot per physical point, lookups that
  see exactly the last edit, imports that are all or nothing and keep the user's
  semantics, and the rollback that undoes an edit.
\<close>

section \<open>Data\<close>

datatype mqtt_topic_mode = MQTT_TOPIC_AUTO | MQTT_TOPIC_CUSTOM

record amm_entry =
  m_mapping_version :: u32
  m_source_protocol :: source_protocol
  m_channel_id :: u8
  m_slave_id :: u8
  m_function_code :: u8
  m_register_address :: u16
  m_data_type :: data_type
  m_byte_order :: byte_order
  m_object_type :: object_type
  m_scale_factor :: f32
  m_offset :: f32
  m_poll_interval_ms :: u32
  m_priority :: u8
  m_discovered :: bool
  m_device_id :: string
  m_point_id :: string
  m_measurement_name :: string
  m_unit :: string
  m_mqtt_topic :: string
  m_constraint :: control_constraint
  m_active :: bool
  m_read_start_address :: u16
  m_read_register_count :: u8
  m_value_register_index :: u8
  m_bit_index :: u8
  m_string_length :: u8
  m_retry_count :: u8
  m_retry_backoff_ms :: u16
  m_semantic_source :: semantic_source
  m_semantic_status :: semantic_status
  m_semantic_profile_id :: string
  m_semantic_profile_version :: u32
  m_semantic_confidence :: u8
  m_semantic_evidence :: string
  m_gateway_property_key :: string
  m_mqtt_topic_mode :: mqtt_topic_mode

text \<open>The layout of schema 4, which had no object type and no provenance.\<close>

record amm_entry_v4 =
  m4_mapping_version :: u32
  m4_source_protocol :: source_protocol
  m4_channel_id :: u8
  m4_slave_id :: u8
  m4_function_code :: u8
  m4_register_address :: u16
  m4_data_type :: data_type
  m4_byte_order :: byte_order
  m4_scale_factor :: f32
  m4_offset :: f32
  m4_poll_interval_ms :: u32
  m4_priority :: u8
  m4_discovered :: bool
  m4_device_id :: string
  m4_point_id :: string
  m4_measurement_name :: string
  m4_unit :: string
  m4_mqtt_topic :: string
  m4_constraint :: control_constraint
  m4_active :: bool
  m4_read_start_address :: u16
  m4_read_register_count :: u8
  m4_value_register_index :: u8

text \<open>A slot after \<open>memset\<close> with zero.\<close>

definition zero_mapping :: amm_entry where
  "zero_mapping = \<lparr>m_mapping_version = 0,
     m_source_protocol = SRC_MODBUS_RTU,
     m_channel_id = 0,
     m_slave_id = 0,
     m_function_code = 0,
     m_register_address = 0,
     m_data_type = DT_INT16,
     m_byte_order = BYTE_ORDER_ABCD,
     m_object_type = MODBUS_OBJECT_NONE,
     m_scale_factor = 0,
     m_offset = 0,
     m_poll_interval_ms = 0,
     m_priority = 0,
     m_discovered = False,
     m_device_id = [],
     m_point_id = [],
     m_measurement_name = [],
     m_unit = [],
     m_mqtt_topic = [],
     m_constraint = \<lparr>writable = False, valid_range_min = 0, valid_range_max = 0\<rparr>,
     m_active = False,
     m_read_start_address = 0,
     m_read_register_count = 0,
     m_value_register_index = 0,
     m_bit_index = 0,
     m_string_length = 0,
     m_retry_count = 0,
     m_retry_backoff_ms = 0,
     m_semantic_source = SEMANTIC_SOURCE_UNRESOLVED,
     m_semantic_status = SEMANTIC_STATUS_UNRESOLVED,
     m_semantic_profile_id = [],
     m_semantic_profile_version = 0,
     m_semantic_confidence = 0,
     m_semantic_evidence = [],
     m_gateway_property_key = [],
     m_mqtt_topic_mode = MQTT_TOPIC_AUTO\<rparr>"

text \<open>The physical point: source, channel, unit, object space and address.\<close>

type_synonym point_key = "source_protocol \<times> u8 \<times> u8 \<times> u8 \<times> u16"

definition point_key :: "amm_entry \<Rightarrow> point_key" where
  "point_key e = (m_source_protocol e, m_channel_id e, m_slave_id e, m_function_code e, m_register_address e)"

abbreviation AMM_ROLLBACK_MAX_ENTRIES :: nat where "AMM_ROLLBACK_MAX_ENTRIES \<equiv> 256"
abbreviation AMM_NVS_SCHEMA_VERSION :: u32 where "AMM_NVS_SCHEMA_VERSION \<equiv> 7"
abbreviation AMM_MAX_READ_REGISTERS :: nat where "AMM_MAX_READ_REGISTERS \<equiv> 64"

definition amm_same_physical_point :: "amm_entry \<Rightarrow> amm_entry \<Rightarrow> bool" where
  "amm_same_physical_point a b \<longleftrightarrow>
     m_source_protocol a = m_source_protocol b \<and> m_channel_id a = m_channel_id b \<and>
     m_slave_id a = m_slave_id b \<and> m_function_code a = m_function_code b \<and>
     m_register_address a = m_register_address b"

section \<open>Normalisation\<close>

definition amm_point_register_count :: "data_type \<Rightarrow> nat" where
  "amm_point_register_count dt =
     (if dt = DT_FLOAT32 \<or> dt = DT_INT32 \<or> dt = DT_UINT32 then 2
      else if dt = DT_FLOAT64 \<or> dt = DT_INT64 \<or> dt = DT_UINT64 then 4
      else 1)"

definition point_width :: "amm_entry \<Rightarrow> nat" where
  "point_width e =
     (if m_data_type e = DT_ASCII \<and> m_string_length e > 0 then (unat (m_string_length e) + 1) div 2
      else amm_point_register_count (m_data_type e))"

definition object_of_function :: "u8 \<Rightarrow> object_type" where
  "object_of_function fc =
     (if fc = 1 then MODBUS_OBJECT_COIL else if fc = 2 then MODBUS_OBJECT_DISCRETE_INPUT
      else if fc = 3 then MODBUS_OBJECT_HOLDING_REGISTER
      else if fc = 4 then MODBUS_OBJECT_INPUT_REGISTER
      else MODBUS_OBJECT_HOLDING_REGISTER)"

text \<open>The defaults of the fields that have one.\<close>

definition normalize_defaults :: "amm_entry \<Rightarrow> amm_entry" where
  "normalize_defaults e =
     e\<lparr>m_mqtt_topic_mode := (if m_mqtt_topic_mode e \<noteq> MQTT_TOPIC_CUSTOM then MQTT_TOPIC_AUTO else MQTT_TOPIC_CUSTOM),
       m_object_type := (if m_object_type e = MODBUS_OBJECT_NONE
                         then object_of_function (m_function_code e) else m_object_type e),
       m_retry_count := (if m_retry_count e = 0 then 2 else m_retry_count e),
       m_retry_backoff_ms := (if m_retry_backoff_ms e = 0 then 50 else m_retry_backoff_ms e),
       m_semantic_confidence := (if m_semantic_confidence e > 100 then 100 else m_semantic_confidence e)\<rparr>"

text \<open>The read window is missing, too long or does not hold the point.\<close>

definition window_bad :: "amm_entry \<Rightarrow> bool" where
  "window_bad e \<longleftrightarrow>
     m_read_register_count e = 0 \<or> unat (m_read_register_count e) > AMM_MAX_READ_REGISTERS \<or>
     unat (m_value_register_index e) + point_width e > unat (m_read_register_count e)"

definition amm_normalize_read_window :: "amm_entry \<Rightarrow> amm_entry" where
  "amm_normalize_read_window entry =
     (let e = normalize_defaults entry in
      if window_bad e
      then e\<lparr>m_read_start_address := m_register_address e,
             m_read_register_count := word_of_nat (point_width e),
             m_value_register_index := 0\<rparr>
      else e)"

section \<open>State and storage\<close>

datatype amm_blob = Entry amm_entry | Entry_v6 amm_entry | Entry_v5 amm_entry | Entry_v4 amm_entry_v4 | Entry_bad

record amm_nvs =
  n_count :: "int option"
  n_schema :: "u32 option"
  n_poll_ms :: "u32 option"
  n_entry :: "nat \<Rightarrow> amm_blob option"
  n_rollback_count :: "int option"
  n_rollback :: "amm_entry list option"

record amm_state =
  am_table :: "amm_entry list"
  am_capacity :: nat
  am_default_poll_ms :: u32
  am_model_version :: u32
  am_nvs :: amm_nvs

text \<open>
  The results of the NVS calls of an operation, in their order: those that save the rollback
  image and those that save the edit.
\<close>

record amm_env =
  ae_rollback :: "nat \<Rightarrow> esp_err"
  ae_save :: "nat \<Rightarrow> esp_err"

text \<open>
  A sequence of calls that stops at the first error. Erasing a key that is not there is
  no error.
\<close>

datatype nvs_call = Write "amm_nvs \<Rightarrow> amm_nvs" | Erase "amm_nvs \<Rightarrow> amm_nvs"

fun nvs_run :: "(nat \<Rightarrow> esp_err) \<Rightarrow> nat \<Rightarrow> nvs_call list \<Rightarrow> amm_nvs \<Rightarrow> amm_nvs \<times> esp_err" where
  "nvs_run f k [] n = (n, ESP_OK)"
| "nvs_run f k (Write w # cs) n = (if f k \<noteq> ESP_OK then (n, f k) else nvs_run f (Suc k) cs (w n))"
| "nvs_run f k (Erase w # cs) n =
     (if f k \<noteq> ESP_OK \<and> f k \<noteq> ESP_ERR_NVS_NOT_FOUND then (n, f k) else nvs_run f (Suc k) cs (w n))"

definition nvs_open :: nvs_call where "nvs_open = Write (\<lambda>n. n)"
definition nvs_commit :: nvs_call where "nvs_commit = Write (\<lambda>n. n)"

definition put_entry :: "nat \<Rightarrow> amm_entry \<Rightarrow> nvs_call" where
  "put_entry i e = Write (\<lambda>n. n\<lparr>n_entry := (n_entry n)(i := Some (Entry e))\<rparr>)"

definition erase_entry :: "nat \<Rightarrow> nvs_call" where
  "erase_entry i = Erase (\<lambda>n. n\<lparr>n_entry := (n_entry n)(i := None)\<rparr>)"

definition amm_save_entry_to_nvs_unlocked ::
  "(nat \<Rightarrow> esp_err) \<Rightarrow> nat \<Rightarrow> amm_state \<Rightarrow> amm_state \<times> esp_err" where
  "amm_save_entry_to_nvs_unlocked f index s =
     (if index \<ge> length (am_table s) then (s, ESP_ERR_INVALID_ARG)
      else
        let (n, err) = nvs_run f 0
              [nvs_open,
               Write (\<lambda>n. n\<lparr>n_count := Some (int (length (am_table s)))\<rparr>),
               Write (\<lambda>n. n\<lparr>n_schema := Some AMM_NVS_SCHEMA_VERSION\<rparr>),
               put_entry index (am_table s ! index),
               nvs_commit] (am_nvs s)
        in (s\<lparr>am_nvs := n\<rparr>, err))"

text \<open>Saving \<open>table\<close> over the stored entries of the current one.\<close>

definition amm_save_table_to_nvs_unlocked ::
  "(nat \<Rightarrow> esp_err) \<Rightarrow> amm_entry list \<Rightarrow> amm_state \<Rightarrow> amm_state \<times> esp_err" where
  "amm_save_table_to_nvs_unlocked f table s =
     (if am_capacity s = 0 \<or> length table > am_capacity s then (s, ESP_ERR_INVALID_ARG)
      else
        let (n, err) = nvs_run f 0
              ([nvs_open,
                Write (\<lambda>n. n\<lparr>n_count := Some (int (length table))\<rparr>),
                Write (\<lambda>n. n\<lparr>n_schema := Some AMM_NVS_SCHEMA_VERSION\<rparr>),
                Write (\<lambda>n. n\<lparr>n_poll_ms := Some (am_default_poll_ms s)\<rparr>)] @
               map (\<lambda>i. put_entry i (table ! i)) [0..<length table] @
               map erase_entry [length table..<length (am_table s)] @
               [nvs_commit]) (am_nvs s)
        in (s\<lparr>am_nvs := n\<rparr>, err))"

definition amm_save_to_nvs :: "(nat \<Rightarrow> esp_err) \<Rightarrow> amm_state \<Rightarrow> amm_state \<times> esp_err" where
  "amm_save_to_nvs f s = amm_save_table_to_nvs_unlocked f (am_table s) s"

definition tolerated :: "esp_err \<Rightarrow> esp_err" where
  "tolerated e = (if e = ESP_ERR_NVS_NOT_FOUND then ESP_OK else e)"

definition amm_save_rollback_unlocked :: "(nat \<Rightarrow> esp_err) \<Rightarrow> amm_state \<Rightarrow> amm_state \<times> esp_err" where
  "amm_save_rollback_unlocked f s =
     (if am_table s = [] then (s, ESP_ERR_NOT_FOUND)
      else if length (am_table s) > AMM_ROLLBACK_MAX_ENTRIES then
        (if f 0 \<noteq> ESP_OK then (s, f 0)
         else
           let count_err = tolerated (f 1);
               blob_err = tolerated (f 2);
               n = am_nvs s;
               n = (if count_err = ESP_OK then n\<lparr>n_rollback_count := None\<rparr> else n);
               n = (if blob_err = ESP_OK then n\<lparr>n_rollback := None\<rparr> else n);
               err = and_then (and_then count_err blob_err) (f 3)
           in (s\<lparr>am_nvs := n\<rparr>, if err \<noteq> ESP_OK then err else ESP_ERR_NOT_SUPPORTED))
      else
        let (n, err) = nvs_run f 0
              [nvs_open,
               Write (\<lambda>n. n\<lparr>n_rollback_count := Some (int (length (am_table s)))\<rparr>),
               Write (\<lambda>n. n\<lparr>n_rollback := Some (am_table s)\<rparr>),
               nvs_commit] (am_nvs s)
        in (s\<lparr>am_nvs := n\<rparr>, err))"

definition amm_snapshot_permits_mutation :: "esp_err \<Rightarrow> bool" where
  "amm_snapshot_permits_mutation err \<longleftrightarrow>
     err = ESP_OK \<or> err = ESP_ERR_NOT_FOUND \<or> err = ESP_ERR_NOT_SUPPORTED"

section \<open>Edits\<close>

definition find_active :: "(amm_entry \<Rightarrow> bool) \<Rightarrow> amm_state \<Rightarrow> nat option" where
  "find_active P s = find_slot (\<lambda>e. m_active e \<and> P e) (am_table s)"

definition default_poll :: "amm_state \<Rightarrow> amm_entry \<Rightarrow> amm_entry" where
  "default_poll s e = (if m_poll_interval_ms e = 0 then e\<lparr>m_poll_interval_ms := am_default_poll_ms s\<rparr> else e)"

text \<open>The entry as an edit stores it: active, with a poll interval, normalised and versioned.\<close>

definition prepare_entry :: "amm_state \<Rightarrow> amm_entry \<Rightarrow> amm_entry" where
  "prepare_entry s e =
     (amm_normalize_read_window (default_poll s (e\<lparr>m_active := True\<rparr>)))\<lparr>m_mapping_version := am_model_version s + 1\<rparr>"

definition set_entry :: "nat \<Rightarrow> amm_entry \<Rightarrow> amm_state \<Rightarrow> amm_state" where
  "set_entry i e s =
     s\<lparr>am_table := (am_table s)[i := e], am_model_version := am_model_version s + 1\<rparr>"

definition append_entry :: "amm_entry \<Rightarrow> amm_state \<Rightarrow> amm_state" where
  "append_entry e s =
     s\<lparr>am_table := am_table s @ [e], am_model_version := am_model_version s + 1\<rparr>"

definition amm_add_mapping :: "amm_env \<Rightarrow> amm_entry option \<Rightarrow> amm_state \<Rightarrow> amm_state \<times> esp_err" where
  "amm_add_mapping env entry s =
     (case entry of
        None \<Rightarrow> (s, ESP_ERR_INVALID_ARG)
      | Some e \<Rightarrow>
          (if am_capacity s = 0 then (s, ESP_ERR_NO_MEM)
           else
             let (s, snapshot) = amm_save_rollback_unlocked (ae_rollback env) s in
             if \<not> amm_snapshot_permits_mutation snapshot then (s, snapshot)
             else case find_active (\<lambda>t. point_key t = point_key e) s of
               Some i \<Rightarrow>
                 amm_save_entry_to_nvs_unlocked (ae_save env) i (set_entry i (prepare_entry s e) s)
             | None \<Rightarrow>
                 (case find_slot (\<lambda>t. \<not> m_active t) (am_table s) of
                    Some i \<Rightarrow>
                      amm_save_entry_to_nvs_unlocked (ae_save env) i (set_entry i (prepare_entry s e) s)
                  | None \<Rightarrow>
                      (if length (am_table s) \<ge> am_capacity s then (s, ESP_ERR_NO_MEM)
                       else amm_save_entry_to_nvs_unlocked (ae_save env) (length (am_table s))
                              (append_entry (prepare_entry s e) s)))))"

text \<open>Deactivating a slot, for the two removal functions.\<close>

definition deactivate ::
  "amm_env \<Rightarrow> (amm_entry \<Rightarrow> bool) \<Rightarrow> amm_state \<Rightarrow> amm_state \<times> esp_err" where
  "deactivate env P s =
     (case find_active P s of
        None \<Rightarrow> (s, ESP_ERR_NOT_FOUND)
      | Some i \<Rightarrow>
          (let (s, snapshot) = amm_save_rollback_unlocked (ae_rollback env) s in
           if \<not> amm_snapshot_permits_mutation snapshot then (s, snapshot)
           else amm_save_entry_to_nvs_unlocked (ae_save env) i
                  (set_entry i ((am_table s ! i)\<lparr>m_active := False\<rparr>) s)))"

definition amm_remove_mapping :: "amm_env \<Rightarrow> u8 \<Rightarrow> u16 \<Rightarrow> amm_state \<Rightarrow> amm_state \<times> esp_err" where
  "amm_remove_mapping env slave reg =
     deactivate env (\<lambda>e. m_slave_id e = slave \<and> m_register_address e = reg)"

definition amm_remove_mapping_for_channel ::
  "amm_env \<Rightarrow> source_protocol \<Rightarrow> u8 \<Rightarrow> u8 \<Rightarrow> u16 \<Rightarrow> amm_state \<Rightarrow> amm_state \<times> esp_err" where
  "amm_remove_mapping_for_channel env protocol channel slave reg =
     deactivate env (\<lambda>e. m_source_protocol e = protocol \<and> m_channel_id e = channel \<and>
       m_slave_id e = slave \<and> m_register_address e = reg)"

definition amm_clear_mappings :: "amm_env \<Rightarrow> amm_state \<Rightarrow> amm_state \<times> esp_err" where
  "amm_clear_mappings env s =
     (let (s, snapshot) = amm_save_rollback_unlocked (ae_rollback env) s in
      if \<not> amm_snapshot_permits_mutation snapshot then (s, snapshot)
      else
        let wipe = (if snapshot = ESP_ERR_NOT_SUPPORTED
              then [Write (\<lambda>n. \<lparr>n_count = None, n_schema = None, n_poll_ms = None, n_entry = (\<lambda>_. None),
                                n_rollback_count = None, n_rollback = None\<rparr>)]
              else []);
            (n, ret) = nvs_run (ae_save env) 0
              ([nvs_open] @ wipe @
               [Write (\<lambda>n. n\<lparr>n_count := Some 0\<rparr>),
                Write (\<lambda>n. n\<lparr>n_schema := Some AMM_NVS_SCHEMA_VERSION\<rparr>),
                Write (\<lambda>n. n\<lparr>n_poll_ms := Some (am_default_poll_ms s)\<rparr>),
                nvs_commit]) (am_nvs s);
            s = s\<lparr>am_nvs := n\<rparr>
        in if ret = ESP_OK
           then (s\<lparr>am_table := [], am_model_version := am_model_version s + 1\<rparr>, ESP_OK)
           else (s, ret))"

definition amm_update_mapping :: "amm_env \<Rightarrow> int \<Rightarrow> amm_entry option \<Rightarrow> amm_state \<Rightarrow> amm_state \<times> esp_err" where
  "amm_update_mapping env index entry s =
     (case entry of
        None \<Rightarrow> (s, ESP_ERR_INVALID_ARG)
      | Some e \<Rightarrow>
          (if index < 0 \<or> index \<ge> int (am_capacity s) then (s, ESP_ERR_INVALID_ARG)
           else if nat index \<ge> length (am_table s) \<or> \<not> m_active (am_table s ! nat index)
           then (s, ESP_ERR_NOT_FOUND)
           else
             let (s, snapshot) = amm_save_rollback_unlocked (ae_rollback env) s in
             if \<not> amm_snapshot_permits_mutation snapshot then (s, snapshot)
             else amm_save_entry_to_nvs_unlocked (ae_save env) (nat index)
                    (set_entry (nat index) (prepare_entry s e) s)))"

section \<open>Lookups\<close>

definition lookup_active :: "(amm_entry \<Rightarrow> bool) \<Rightarrow> amm_state \<Rightarrow> amm_entry option" where
  "lookup_active P s = map_option (\<lambda>i. am_table s ! i) (find_active P s)"

definition amm_find_mapping :: "u8 \<Rightarrow> u16 \<Rightarrow> amm_state \<Rightarrow> nat option" where
  "amm_find_mapping slave reg =
     find_active (\<lambda>e. m_slave_id e = slave \<and> m_register_address e = reg)"

definition amm_find_mapping_for_channel ::
  "source_protocol \<Rightarrow> u8 \<Rightarrow> u8 \<Rightarrow> u16 \<Rightarrow> amm_state \<Rightarrow> amm_entry option" where
  "amm_find_mapping_for_channel protocol channel slave reg =
     lookup_active (\<lambda>e. m_source_protocol e = protocol \<and> m_channel_id e = channel \<and>
       m_slave_id e = slave \<and> m_register_address e = reg)"

definition amm_find_mapping_for_object :: "point_key \<Rightarrow> amm_state \<Rightarrow> amm_entry option" where
  "amm_find_mapping_for_object k = lookup_active (\<lambda>e. point_key e = k)"

definition covering_width :: "amm_entry \<Rightarrow> nat" where
  "covering_width e =
     (if m_data_type e = DT_ASCII \<and> m_read_register_count e > 0 then unat (m_read_register_count e)
      else amm_point_register_count (m_data_type e))"

text \<open>The entry whose registers cover the address, and the word of it that is addressed.\<close>

definition amm_find_mapping_covering :: "u8 \<Rightarrow> u8 \<Rightarrow> u16 \<Rightarrow> amm_state \<Rightarrow> (amm_entry \<times> nat) option" where
  "amm_find_mapping_covering slave fc address s =
     map_option (\<lambda>e. (e, unat (ucast (address - m_register_address e) :: u8)))
       (lookup_active (\<lambda>e. m_slave_id e = slave \<and> m_function_code e = fc \<and>
          m_register_address e \<le> address \<and>
          unat address < unat (m_register_address e) + covering_width e) s)"

definition amm_find_mapping_by_point :: "string option \<Rightarrow> string option \<Rightarrow> amm_state \<Rightarrow> amm_entry option" where
  "amm_find_mapping_by_point device point s =
     (case (device, point) of
        (Some d, Some p) \<Rightarrow> lookup_active (\<lambda>e. m_device_id e = d \<and> m_point_id e = p) s
      | _ \<Rightarrow> None)"

definition amm_get_mapping_count :: "amm_state \<Rightarrow> nat" where
  "amm_get_mapping_count s = length (filter m_active (am_table s))"

definition amm_get_entries :: "int \<Rightarrow> amm_state \<Rightarrow> amm_entry list" where
  "amm_get_entries max_entries s = take (nat max_entries) (filter m_active (am_table s))"

definition amm_get_entry_at :: "int \<Rightarrow> amm_state \<Rightarrow> amm_entry + esp_err" where
  "amm_get_entry_at i s =
     (if i < 0 then Inr ESP_ERR_INVALID_ARG
      else let act = filter m_active (am_table s) in
        if nat i < length act then Inl (act ! nat i) else Inr ESP_ERR_NOT_FOUND)"

definition amm_get_model_version :: "amm_state \<Rightarrow> u32" where
  "amm_get_model_version s = am_model_version s"

definition amm_get_capacity :: "amm_state \<Rightarrow> nat" where
  "amm_get_capacity s = am_capacity s"

definition amm_get_default_poll_interval :: "amm_state \<Rightarrow> u32" where
  "amm_get_default_poll_interval s = am_default_poll_ms s"

section \<open>Storage leaves the table alone\<close>

lemma save_rollback_frame: "\<exists>n. fst (amm_save_rollback_unlocked f s) = s\<lparr>am_nvs := n\<rparr>"
  by (auto simp: amm_save_rollback_unlocked_def Let_def split: prod.splits intro: exI [of _ "am_nvs s"])

lemma save_rollback_fields [simp]:
  "am_table (fst (amm_save_rollback_unlocked f s)) = am_table s"
  "am_capacity (fst (amm_save_rollback_unlocked f s)) = am_capacity s"
  "am_model_version (fst (amm_save_rollback_unlocked f s)) = am_model_version s"
  "am_default_poll_ms (fst (amm_save_rollback_unlocked f s)) = am_default_poll_ms s"
  using save_rollback_frame [of f s] by auto

lemma save_entry_fields [simp]:
  "am_table (fst (amm_save_entry_to_nvs_unlocked f i s)) = am_table s"
  "am_capacity (fst (amm_save_entry_to_nvs_unlocked f i s)) = am_capacity s"
  "am_model_version (fst (amm_save_entry_to_nvs_unlocked f i s)) = am_model_version s"
  "am_default_poll_ms (fst (amm_save_entry_to_nvs_unlocked f i s)) = am_default_poll_ms s"
  by (auto simp: amm_save_entry_to_nvs_unlocked_def Let_def split: prod.splits)

lemma save_table_fields [simp]:
  "am_table (fst (amm_save_table_to_nvs_unlocked f t s)) = am_table s"
  "am_capacity (fst (amm_save_table_to_nvs_unlocked f t s)) = am_capacity s"
  "am_model_version (fst (amm_save_table_to_nvs_unlocked f t s)) = am_model_version s"
  "am_default_poll_ms (fst (amm_save_table_to_nvs_unlocked f t s)) = am_default_poll_ms s"
  by (auto simp: amm_save_table_to_nvs_unlocked_def Let_def split: prod.splits)

lemma set_entry_fields [simp]:
  "am_table (set_entry i e s) = (am_table s)[i := e]" "am_capacity (set_entry i e s) = am_capacity s"
  "am_model_version (set_entry i e s) = am_model_version s + 1"
  "am_table (append_entry e s) = am_table s @ [e]" "am_capacity (append_entry e s) = am_capacity s"
  "am_model_version (append_entry e s) = am_model_version s + 1"
  by (simp_all add: set_entry_def append_entry_def)

section \<open>Normalisation\<close>

lemma defaults_fields [simp]:
  "point_key (normalize_defaults e) = point_key e"
  "m_active (normalize_defaults e) = m_active e"
  "m_poll_interval_ms (normalize_defaults e) = m_poll_interval_ms e"
  "m_mapping_version (normalize_defaults e) = m_mapping_version e"
  "m_register_address (normalize_defaults e) = m_register_address e"
  "m_read_start_address (normalize_defaults e) = m_read_start_address e"
  "m_read_register_count (normalize_defaults e) = m_read_register_count e"
  "m_value_register_index (normalize_defaults e) = m_value_register_index e"
  "point_width (normalize_defaults e) = point_width e"
  "window_bad (normalize_defaults e) = window_bad e"
  by (simp_all add: normalize_defaults_def point_key_def point_width_def window_bad_def)

lemma normalize_defaults_idem: "normalize_defaults (normalize_defaults e) = normalize_defaults e"
  by (simp add: normalize_defaults_def object_of_function_def)

lemma normalize_fields [simp]:
  "point_key (amm_normalize_read_window e) = point_key e"
  "m_active (amm_normalize_read_window e) = m_active e"
  "m_poll_interval_ms (amm_normalize_read_window e) = m_poll_interval_ms e"
  "m_mapping_version (amm_normalize_read_window e) = m_mapping_version e"
  "m_data_type (amm_normalize_read_window e) = m_data_type e"
  "m_string_length (amm_normalize_read_window e) = m_string_length e"
  by (simp_all add: amm_normalize_read_window_def point_key_def Let_def)
    (simp_all add: normalize_defaults_def)

lemma point_width_normalize [simp]: "point_width (amm_normalize_read_window e) = point_width e"
  by (simp add: point_width_def)

lemma prepare_fields [simp]:
  "point_key (prepare_entry s e) = point_key e" "m_active (prepare_entry s e)"
  "m_mapping_version (prepare_entry s e) = am_model_version s + 1"
proof -
  have k: "point_key (x\<lparr>m_mapping_version := v\<rparr>) = point_key x" "point_key (x\<lparr>m_active := b\<rparr>) = point_key x"
    "point_key (default_poll s x) = point_key x" for x v b
    by (simp_all add: point_key_def default_poll_def)
  show "point_key (prepare_entry s e) = point_key e" by (simp add: prepare_entry_def k)
  show "m_active (prepare_entry s e)" by (simp add: prepare_entry_def default_poll_def)
  show "m_mapping_version (prepare_entry s e) = am_model_version s + 1" by (simp add: prepare_entry_def)
qed

lemma point_width_bounds: "0 < point_width e" "point_width e \<le> 128"
proof -
  have "unat (m_string_length e) < 256" using unsigned_less [of "m_string_length e"] by simp
  moreover have "0 < unat (m_string_length e)" if "0 < m_string_length e"
    using that by (simp add: word_less_nat_alt)
  ultimately show "0 < point_width e" "point_width e \<le> 128"
    by (auto simp: point_width_def amm_point_register_count_def)
qed

lemma width_word: "unat (word_of_nat (point_width e) :: u8) = point_width e"
  using point_width_bounds [of e] by (simp add: unat_of_nat take_bit_eq_mod)

text \<open>The point lies inside the window the poller reads.\<close>

definition window_covers :: "amm_entry \<Rightarrow> bool" where
  "window_covers e \<longleftrightarrow> unat (m_value_register_index e) + point_width e \<le> unat (m_read_register_count e)"

lemma normalize_window:
  "m_read_register_count (amm_normalize_read_window e) =
     (if window_bad e then word_of_nat (point_width e) else m_read_register_count e)"
  "m_value_register_index (amm_normalize_read_window e) = (if window_bad e then 0 else m_value_register_index e)"
  by (simp_all add: amm_normalize_read_window_def Let_def)

lemma normalize_covers: "window_covers (amm_normalize_read_window e)"
  by (cases "window_bad e") (simp_all add: window_covers_def normalize_window width_word, simp add: window_bad_def)

lemma normalize_read_limit:
  "unat (m_read_register_count (amm_normalize_read_window e)) \<le> max AMM_MAX_READ_REGISTERS (point_width e)"
  by (cases "window_bad e") (simp_all add: normalize_window width_word, simp add: window_bad_def)

lemma normalize_idem: "amm_normalize_read_window (amm_normalize_read_window e) = amm_normalize_read_window e"
proof (cases "window_bad e")
  case False
  then show ?thesis by (simp add: amm_normalize_read_window_def normalize_defaults_idem Let_def)
next
  case True
  let ?d = "normalize_defaults e"
  let ?w = "?d\<lparr>m_read_start_address := m_register_address ?d, m_read_register_count := word_of_nat (point_width ?d),
      m_value_register_index := 0\<rparr>"
  have d: "normalize_defaults ?w = ?w" by (simp add: normalize_defaults_def object_of_function_def)
  have "point_width ?w = point_width e" by (simp add: point_width_def normalize_defaults_def)
  then show ?thesis using True d
    by (simp add: amm_normalize_read_window_def Let_def)
qed

section \<open>One active slot per point\<close>

definition unique_active :: "amm_entry list \<Rightarrow> bool" where
  "unique_active t \<longleftrightarrow> (\<forall>i j. i < length t \<longrightarrow> j < length t \<longrightarrow> m_active (t ! i) \<longrightarrow> m_active (t ! j) \<longrightarrow>
     point_key (t ! i) = point_key (t ! j) \<longrightarrow> i = j)"

definition amm_ok :: "amm_state \<Rightarrow> bool" where
  "amm_ok s \<longleftrightarrow> unique_active (am_table s) \<and> length (am_table s) \<le> am_capacity s"

lemma unique_activeD:
  "unique_active t \<Longrightarrow> i < length t \<Longrightarrow> j < length t \<Longrightarrow> m_active (t ! i) \<Longrightarrow> m_active (t ! j) \<Longrightarrow>
   point_key (t ! i) = point_key (t ! j) \<Longrightarrow> i = j"
  by (simp add: unique_active_def)

lemma find_point_iff:
  assumes "unique_active (am_table s)"
  shows "amm_find_mapping_for_object k s = Some e \<longleftrightarrow>
    (\<exists>i < length (am_table s). am_table s ! i = e \<and> m_active e \<and> point_key e = k)"
proof
  assume "amm_find_mapping_for_object k s = Some e"
  then show "\<exists>i < length (am_table s). am_table s ! i = e \<and> m_active e \<and> point_key e = k"
    by (auto simp: amm_find_mapping_for_object_def lookup_active_def find_active_def find_slot_Some)
next
  assume "\<exists>i < length (am_table s). am_table s ! i = e \<and> m_active e \<and> point_key e = k"
  then obtain i where i: "i < length (am_table s)" "am_table s ! i = e" "m_active e" "point_key e = k" by auto
  then have "find_active (\<lambda>e. point_key e = k) s = Some i"
    using unique_activeD [OF assms, of _ i] unfolding find_active_def find_slot_Some
    by (metis nat_neq_iff less_trans)
  then show "amm_find_mapping_for_object k s = Some e"
    using i by (simp add: amm_find_mapping_for_object_def lookup_active_def)
qed

lemma find_point_cong:
  "am_table s = am_table t \<Longrightarrow> amm_find_mapping_for_object k s = amm_find_mapping_for_object k t"
  by (simp add: amm_find_mapping_for_object_def lookup_active_def find_active_def)

lemma unique_update:
  assumes "unique_active t" "\<And>j. j < length t \<Longrightarrow> j \<noteq> i \<Longrightarrow> m_active (t ! j) \<Longrightarrow> m_active e \<Longrightarrow> point_key (t ! j) \<noteq> point_key e"
  shows "unique_active (t[i := e])"
  using assms unfolding unique_active_def by (metis length_list_update nth_list_update_eq nth_list_update_neq)

lemma unique_append:
  assumes "unique_active t" "\<And>j. j < length t \<Longrightarrow> m_active (t ! j) \<Longrightarrow> point_key (t ! j) \<noteq> point_key e"
  shows "unique_active (t @ [e])"
  unfolding unique_active_def
proof (intro allI impI)
  fix i j
  assume "i < length (t @ [e])" "j < length (t @ [e])" "m_active ((t @ [e]) ! i)" "m_active ((t @ [e]) ! j)"
    "point_key ((t @ [e]) ! i) = point_key ((t @ [e]) ! j)"
  then show "i = j"
    using assms(2) [of i] assms(2) [of j] unique_activeD [OF assms(1), of i j]
    by (cases "i < length t"; cases "j < length t") (auto simp: nth_append less_Suc_eq)
qed

section \<open>Adding a mapping\<close>

lemma prepare_cong:
  "am_model_version s = am_model_version t \<Longrightarrow> am_default_poll_ms s = am_default_poll_ms t \<Longrightarrow>
   prepare_entry s e = prepare_entry t e"
  by (simp add: prepare_entry_def default_poll_def)

lemma prepare_after_rollback [simp]:
  "prepare_entry (fst (amm_save_rollback_unlocked f s)) e = prepare_entry s e"
  by (rule prepare_cong) simp_all

lemma find_active_after_rollback [simp]:
  "find_active P (fst (amm_save_rollback_unlocked f s)) = find_active P s"
  by (simp add: find_active_def)

lemma no_active_point:
  "find_active (\<lambda>t. point_key t = k) s = None \<Longrightarrow> j < length (am_table s) \<Longrightarrow> m_active (am_table s ! j) \<Longrightarrow>
   point_key (am_table s ! j) \<noteq> k"
  by (auto simp: find_active_def find_slot_None)

text \<open>The slot an entry goes to: that of its point, else a free one, else a new one.\<close>

definition target_slot :: "amm_entry \<Rightarrow> amm_state \<Rightarrow> nat option" where
  "target_slot e s =
     (case find_active (\<lambda>t. point_key t = point_key e) s of
        Some i \<Rightarrow> Some i
      | None \<Rightarrow> find_slot (\<lambda>t. \<not> m_active t) (am_table s))"

definition put_table :: "amm_entry \<Rightarrow> amm_state \<Rightarrow> amm_entry list" where
  "put_table e s =
     (case target_slot e s of
        Some i \<Rightarrow> (am_table s)[i := prepare_entry s e]
      | None \<Rightarrow> am_table s @ [prepare_entry s e])"

definition has_room :: "amm_entry \<Rightarrow> amm_state \<Rightarrow> bool" where
  "has_room e s \<longleftrightarrow> am_capacity s \<noteq> 0 \<and> (target_slot e s \<noteq> None \<or> length (am_table s) < am_capacity s)"

lemma add_mapping_effect:
  "am_table (fst (amm_add_mapping env (Some e) s)) =
     (if has_room e s \<and> amm_snapshot_permits_mutation (snd (amm_save_rollback_unlocked (ae_rollback env) s))
      then put_table e s else am_table s)"
  "am_capacity (fst (amm_add_mapping env (Some e) s)) = am_capacity s"
  "am_model_version (fst (amm_add_mapping env (Some e) s)) =
     (if has_room e s \<and> amm_snapshot_permits_mutation (snd (amm_save_rollback_unlocked (ae_rollback env) s))
      then am_model_version s + 1 else am_model_version s)"
  by (cases "amm_save_rollback_unlocked (ae_rollback env) s";
      use save_rollback_fields [of "ae_rollback env" s] prepare_after_rollback [of "ae_rollback env" s e]
        find_active_after_rollback [of "\<lambda>t. point_key t = point_key e" "ae_rollback env" s] in
      \<open>auto simp: amm_add_mapping_def has_room_def put_table_def target_slot_def Let_def split: option.splits\<close>)+

lemma target_slot_free:
  assumes "target_slot e s = Some i"
  shows "i < length (am_table s)"
    and "j < length (am_table s) \<Longrightarrow> j \<noteq> i \<Longrightarrow> unique_active (am_table s) \<Longrightarrow> m_active (am_table s ! j) \<Longrightarrow>
      point_key (am_table s ! j) \<noteq> point_key e"
proof -
  show "i < length (am_table s)" using assms
    by (auto simp: target_slot_def find_active_def find_slot_Some split: option.splits)
  assume j: "j < length (am_table s)" "j \<noteq> i" "unique_active (am_table s)" "m_active (am_table s ! j)"
  show "point_key (am_table s ! j) \<noteq> point_key e"
  proof (cases "find_active (\<lambda>t. point_key t = point_key e) s")
    case None
    then show ?thesis using j by (auto dest: no_active_point)
  next
    case (Some k)
    then have "k = i" using assms by (simp add: target_slot_def)
    then have "m_active (am_table s ! i)" "point_key (am_table s ! i) = point_key e" "i < length (am_table s)"
      using Some by (auto simp: find_active_def find_slot_Some)
    then show ?thesis using j unique_activeD by metis
  qed
qed

lemma target_slot_None:
  assumes "target_slot e s = None" "j < length (am_table s)" "m_active (am_table s ! j)"
  shows "point_key (am_table s ! j) \<noteq> point_key e"
  using assms by (auto simp: target_slot_def split: option.splits dest: no_active_point)

lemma put_table_unique: "unique_active (am_table s) \<Longrightarrow> unique_active (put_table e s)"
  by (auto simp: put_table_def split: option.split intro!: unique_update unique_append
      dest: target_slot_free(2) target_slot_None)

lemma put_table_length:
  "has_room e s \<Longrightarrow> length (am_table s) \<le> am_capacity s \<Longrightarrow> length (put_table e s) \<le> am_capacity s"
  by (auto simp: put_table_def has_room_def split: option.splits)

lemma add_mapping_ok [inv_intros]: "amm_ok s \<Longrightarrow> amm_ok (fst (amm_add_mapping env (Some e) s))"
  by (simp add: amm_ok_def add_mapping_effect put_table_unique put_table_length)

lemma lookup_point_iff:
  assumes "unique_active t"
  shows "amm_find_mapping_for_object k (s\<lparr>am_table := t\<rparr>) = Some e \<longleftrightarrow>
    (\<exists>i < length t. t ! i = e \<and> m_active e \<and> point_key e = k)"
  using find_point_iff [of "s\<lparr>am_table := t\<rparr>" k e] assms by simp

lemma put_table_lookup:
  assumes "unique_active (am_table s)"
  shows "amm_find_mapping_for_object k (s\<lparr>am_table := put_table e s\<rparr>) =
    (if k = point_key e then Some (prepare_entry s e) else amm_find_mapping_for_object k s)"
proof (cases "k = point_key e")
  case True
  have "\<exists>i < length (put_table e s). put_table e s ! i = prepare_entry s e"
  proof (cases "target_slot e s")
    case None
    then show ?thesis by (intro exI [of _ "length (am_table s)"]) (simp add: put_table_def)
  next
    case (Some i)
    then show ?thesis using target_slot_free(1) [OF Some] by (intro exI [of _ i]) (simp add: put_table_def)
  qed
  then have "\<exists>i < length (put_table e s). put_table e s ! i = prepare_entry s e \<and>
      m_active (prepare_entry s e) \<and> point_key (prepare_entry s e) = k"
    using True by simp
  then have "amm_find_mapping_for_object k (s\<lparr>am_table := put_table e s\<rparr>) = Some (prepare_entry s e)"
    by (simp only: lookup_point_iff [OF put_table_unique [OF assms]])
  then show ?thesis using True by simp
next
  case False
  have "amm_find_mapping_for_object k (s\<lparr>am_table := put_table e s\<rparr>) = Some x \<longleftrightarrow>
      amm_find_mapping_for_object k s = Some x" for x
  proof -
    have "(\<exists>i < length (put_table e s). put_table e s ! i = x \<and> m_active x \<and> point_key x = k) \<longleftrightarrow>
        (\<exists>i < length (am_table s). am_table s ! i = x \<and> m_active x \<and> point_key x = k)"
    proof (cases "target_slot e s")
      case None
      have "prepare_entry s e \<noteq> x" if "point_key x = k" using that False by auto
      then show ?thesis using None by (auto simp: put_table_def nth_append less_Suc_eq)
    next
      case (Some i)
      have a: "\<not> (m_active (am_table s ! i) \<and> point_key (am_table s ! i) = k)"
      proof (cases "find_active (\<lambda>t. point_key t = point_key e) s")
        case None
        then show ?thesis using Some by (auto simp: target_slot_def find_slot_Some)
      next
        case (Some l)
        then have "l = i" using \<open>target_slot e s = Some i\<close> by (simp add: target_slot_def)
        then show ?thesis using Some False by (auto simp: find_active_def find_slot_Some)
      qed
      have "prepare_entry s e \<noteq> x" if "point_key x = k" using that False by auto
      then show ?thesis using Some a target_slot_free(1) [OF Some]
        by (auto simp: put_table_def nth_list_update split: if_splits)
    qed
    then show ?thesis
      by (simp only: lookup_point_iff [OF put_table_unique [OF assms]] find_point_iff [OF assms])
  qed
  then show ?thesis using False by (metis not_Some_eq)
qed

lemma add_mapping_lookup:
  assumes "amm_ok s"
  shows "amm_find_mapping_for_object k (fst (amm_add_mapping env (Some e) s)) =
    (if has_room e s \<and> amm_snapshot_permits_mutation (snd (amm_save_rollback_unlocked (ae_rollback env) s)) \<and> k = point_key e
     then Some (prepare_entry s e) else amm_find_mapping_for_object k s)"
proof -
  let ?s = "fst (amm_add_mapping env (Some e) s)"
  have c: "amm_find_mapping_for_object k ?s = amm_find_mapping_for_object k (s\<lparr>am_table := am_table ?s\<rparr>)"
    by (rule find_point_cong) simp
  have u: "unique_active (am_table s)" using assms by (simp add: amm_ok_def)
  show ?thesis unfolding c add_mapping_effect(1)
    using put_table_lookup [OF u, of k e] by (auto simp: find_point_cong [of "s\<lparr>am_table := am_table s\<rparr>" s])
qed

section \<open>The table as a store\<close>

text \<open>The environment in which the rollback image can be saved; the save of the edit may fail.\<close>

definition saving :: "(nat \<Rightarrow> esp_err) \<Rightarrow> amm_env" where
  "saving f = \<lparr>ae_rollback = (\<lambda>_. ESP_OK), ae_save = f\<rparr>"

lemma nvs_run_ok: "snd (nvs_run (\<lambda>_. ESP_OK) k cs n) = ESP_OK"
  by (induction "\<lambda>_ :: nat. ESP_OK" k cs n rule: nvs_run.induct) simp_all

lemma saving_permits: "amm_snapshot_permits_mutation (snd (amm_save_rollback_unlocked (ae_rollback (saving f)) s))"
  using nvs_run_ok [of 0]
  by (auto simp: amm_save_rollback_unlocked_def saving_def amm_snapshot_permits_mutation_def tolerated_def
      and_then_def Let_def split: prod.splits) (metis snd_conv)+

definition add_to :: "(nat \<Rightarrow> esp_err) \<Rightarrow> amm_entry \<Rightarrow> amm_state \<Rightarrow> amm_state" where
  "add_to f e s = fst (amm_add_mapping (saving f) (Some e) s)"

interpretation amm: map_store "\<lambda>s k. amm_find_mapping_for_object k s" point_key prepare_entry "add_to f" has_room amm_ok
  for f
proof unfold_locales
  fix s :: amm_state and v k
  show "amm_ok s \<Longrightarrow> amm_ok (add_to f v s)" by (simp add: add_to_def add_mapping_ok)
  show "amm_ok s \<Longrightarrow> has_room v s \<Longrightarrow> amm_find_mapping_for_object k (add_to f v s) =
      (if k = point_key v then Some (prepare_entry s v) else amm_find_mapping_for_object k s)"
    by (simp add: add_to_def add_mapping_lookup saving_permits)
  show "amm_ok s \<Longrightarrow> \<not> has_room v s \<Longrightarrow>
      amm_find_mapping_for_object k (add_to f v s) = amm_find_mapping_for_object k s"
    by (simp add: add_to_def add_mapping_lookup)
  show "amm_ok s \<Longrightarrow> amm_find_mapping_for_object (point_key v) s \<noteq> None \<Longrightarrow> has_room v s"
  proof -
    assume ok: "amm_ok s" and "amm_find_mapping_for_object (point_key v) s \<noteq> None"
    then obtain i where i: "find_active (\<lambda>t. point_key t = point_key v) s = Some i"
      by (auto simp: amm_find_mapping_for_object_def lookup_active_def)
    then have "i < length (am_table s)" by (simp add: find_active_def find_slot_Some)
    then show "has_room v s" using ok i by (auto simp: has_room_def target_slot_def amm_ok_def)
  qed
qed


section \<open>Removing a mapping\<close>

lemma deactivate_effect:
  "am_table (fst (deactivate env P s)) =
     (case find_active P s of
        Some i \<Rightarrow> if amm_snapshot_permits_mutation (snd (amm_save_rollback_unlocked (ae_rollback env) s))
          then (am_table s)[i := (am_table s ! i)\<lparr>m_active := False\<rparr>] else am_table s
      | None \<Rightarrow> am_table s)"
  "am_capacity (fst (deactivate env P s)) = am_capacity s"
  by (cases "amm_save_rollback_unlocked (ae_rollback env) s";
      use save_rollback_fields [of "ae_rollback env" s] in
      \<open>auto simp: deactivate_def Let_def split: option.splits\<close>)+

lemma deactivate_ok [inv_intros]: "amm_ok s \<Longrightarrow> amm_ok (fst (deactivate env P s))"
  by (auto simp: amm_ok_def deactivate_effect intro!: unique_update split: option.splits)

lemma clear_effect:
  "am_table (fst (amm_clear_mappings env s)) \<in> {am_table s, []}"
  "am_capacity (fst (amm_clear_mappings env s)) = am_capacity s"
  by (cases "amm_save_rollback_unlocked (ae_rollback env) s";
      use save_rollback_fields [of "ae_rollback env" s] in
      \<open>auto simp: amm_clear_mappings_def Let_def split: prod.splits\<close>)+

lemma clear_ok [inv_intros]: "amm_ok s \<Longrightarrow> amm_ok (fst (amm_clear_mappings env s))"
  using clear_effect [of env s] by (auto simp: amm_ok_def unique_active_def)

end
