(* ===== verification/Amm_Import.thy ===== *)
theory Amm_Import
  imports Amm_Mapping
begin

text \<open>
  Whole-table operations of the mapping model (\<open>amm/amm_mapping.c\<close>): the import of a profile
  with its conflict check, the overlay of the user's semantics and the staged table, the
  rollback, the poll interval of all points, and the loading of the stored table with the
  older layouts at start-up. The step relation collects every operation; the uniqueness of
  active points is an invariant of it, with the stored rollback image part of the state.
\<close>

section \<open>Import\<close>

definition amm_import_contains_device :: "amm_entry list \<Rightarrow> amm_entry \<Rightarrow> bool" where
  "amm_import_contains_device entries candidate =
     list_ex (\<lambda>e. m_source_protocol e = m_source_protocol candidate \<and>
       m_channel_id e = m_channel_id candidate \<and> m_slave_id e = m_slave_id candidate) entries"

definition amm_overlay_user_semantics :: "amm_entry \<Rightarrow> amm_entry \<Rightarrow> amm_entry" where
  "amm_overlay_user_semantics user entry =
     entry\<lparr>m_data_type := m_data_type user,
       m_byte_order := m_byte_order user,
       m_scale_factor := m_scale_factor user,
       m_offset := m_offset user,
       m_poll_interval_ms := m_poll_interval_ms user,
       m_priority := m_priority user,
       m_constraint := m_constraint user,
       m_read_start_address := m_read_start_address user,
       m_read_register_count := m_read_register_count user,
       m_value_register_index := m_value_register_index user,
       m_device_id := strlcpy 32 (m_device_id user),
       m_point_id := strlcpy 32 (m_point_id user),
       m_measurement_name := strlcpy 32 (m_measurement_name user),
       m_unit := strlcpy 16 (m_unit user),
       m_mqtt_topic := strlcpy 128 (m_mqtt_topic user),
       m_mqtt_topic_mode := m_mqtt_topic_mode user,
       m_semantic_source := m_semantic_source user,
       m_semantic_status := m_semantic_status user,
       m_semantic_confidence := m_semantic_confidence user,
       m_semantic_profile_id := strlcpy 32 (m_semantic_profile_id user),
       m_semantic_profile_version := m_semantic_profile_version user,
       m_semantic_evidence := strlcpy 48 (m_semantic_evidence user)\<rparr>"

definition same_semantic :: "amm_entry \<Rightarrow> amm_entry \<Rightarrow> bool" where
  "same_semantic a b \<longleftrightarrow> m_device_id a = m_device_id b \<and> m_point_id a = m_point_id b"

text \<open>Some pair \<open>i < j\<close> has one of the two identities in common but not the other.\<close>

fun import_conflict :: "amm_entry list \<Rightarrow> bool" where
  "import_conflict [] = False"
| "import_conflict (e # es) =
     (list_ex (\<lambda>x. amm_same_physical_point e x \<noteq> same_semantic e x) es \<or> import_conflict es)"

text \<open>The active entries the import keeps, within the capacity.\<close>

definition kept_entries :: "amm_entry list \<Rightarrow> bool \<Rightarrow> amm_state \<Rightarrow> amm_entry list" where
  "kept_entries entries replace_devices s =
     filter (\<lambda>c. m_active c \<and> \<not> (replace_devices \<and> amm_import_contains_device entries c)) (am_table s)"

definition import_invalid :: "amm_entry \<Rightarrow> bool" where
  "import_invalid e \<longleftrightarrow> m_slave_id e < 1 \<or> m_function_code e < 1 \<or> m_function_code e > 4 \<or>
     m_device_id e = [] \<or> m_point_id e = []"

definition prepare_import :: "u32 \<Rightarrow> amm_state \<Rightarrow> amm_entry \<Rightarrow> amm_entry" where
  "prepare_import version s e =
     (let e = default_poll s (e\<lparr>m_active := True, m_mapping_version := version\<rparr>);
          e = (if f32_eq (m_scale_factor e) 0 then e\<lparr>m_scale_factor := 0x3F800000\<rparr> else e);
          e = amm_normalize_read_window e
      in case List.find (\<lambda>cur. m_active cur \<and> m_semantic_source cur = SEMANTIC_SOURCE_USER \<and>
                 amm_same_physical_point cur e) (am_table s) of
           Some cur \<Rightarrow> amm_overlay_user_semantics cur e
         | None \<Rightarrow> e)"

text \<open>
  The staging loop: the staged table, the model version counted up per entry, and the entries
  still to import; \<open>s\<close> is the current state, which the loop only reads.
\<close>

fun stage_import ::
  "amm_state \<Rightarrow> amm_entry list \<Rightarrow> u32 \<Rightarrow> amm_entry list \<Rightarrow> (amm_entry list \<times> u32) + esp_err" where
  "stage_import s staging version [] = Inl (staging, version)"
| "stage_import s staging version (e # es) =
     (if import_invalid e then Inr ESP_ERR_INVALID_ARG
      else
        let version = version + 1;
            entry = prepare_import version s e
        in case find_slot (\<lambda>t. amm_same_physical_point t entry) staging of
             Some j \<Rightarrow> stage_import s (staging[j := entry]) version es
           | None \<Rightarrow>
               (if length staging < am_capacity s then stage_import s (staging @ [entry]) version es
                else Inr ESP_ERR_NO_MEM))"

text \<open>The import once the rollback image is saved: stage, persist the staged table, publish it.\<close>

definition import_locked ::
  "amm_env \<Rightarrow> amm_entry list \<Rightarrow> bool \<Rightarrow> amm_state \<Rightarrow> amm_state \<times> esp_err \<times> nat" where
  "import_locked env entries replace_devices s =
     (let kept = kept_entries entries replace_devices s in
      if length kept > am_capacity s then (s, ESP_ERR_NO_MEM, 0)
      else case stage_import s kept (am_model_version s) entries of
        Inr e \<Rightarrow> (s, e, 0)
      | Inl (staging, version) \<Rightarrow>
          (let (s', result) = amm_save_table_to_nvs_unlocked (ae_save env) staging s in
           if result = ESP_OK
           then (s'\<lparr>am_table := staging, am_model_version := version\<rparr>, ESP_OK, length entries)
           else (s', result, 0)))"

text \<open>The state, the status and the number imported (its callers start it at 0, which the early returns
  leave); \<open>alloc\<close>: the staging table could be allocated.\<close>

definition amm_import_mappings ::
  "amm_env \<Rightarrow> bool \<Rightarrow> amm_entry list option \<Rightarrow> bool \<Rightarrow> amm_state \<Rightarrow> amm_state \<times> esp_err \<times> nat" where
  "amm_import_mappings env alloc entries replace_devices s =
     (case entries of
        None \<Rightarrow> (s, ESP_ERR_INVALID_ARG, 0)
      | Some es \<Rightarrow>
          (if es = [] \<or> am_capacity s = 0 then (s, ESP_ERR_INVALID_ARG, 0)
           else if import_conflict es then (s, ESP_ERR_INVALID_STATE, 0)
           else if \<not> alloc then (s, ESP_ERR_NO_MEM, 0)
           else
             let (s, snapshot) = amm_save_rollback_unlocked (ae_rollback env) s in
             if \<not> amm_snapshot_permits_mutation snapshot \<and> am_table s \<noteq> [] then (s, ESP_FAIL, 0)
             else import_locked env es replace_devices s))"

section \<open>Rollback and poll interval\<close>

definition amm_can_rollback :: "bool \<Rightarrow> amm_state \<Rightarrow> bool" where
  "amm_can_rollback readable s \<longleftrightarrow>
     readable \<and> (case n_rollback_count (am_nvs s) of
                   Some c \<Rightarrow> c > 0 \<and> c \<le> int (am_capacity s) | None \<Rightarrow> False)"

text \<open>
  The result of reading the image back is an argument too: a blob that does not fit the stored
  count is an error of \<open>nvs_get_blob\<close> or leaves the rest of the slots zero.
\<close>

definition amm_rollback ::
  "esp_err \<Rightarrow> bool \<Rightarrow> esp_err \<Rightarrow> (nat \<Rightarrow> esp_err) \<Rightarrow> amm_state \<Rightarrow> amm_state \<times> esp_err" where
  "amm_rollback open_err alloc get_err f s =
     (if open_err \<noteq> ESP_OK then (s, open_err)
      else case n_rollback_count (am_nvs s) of
        None \<Rightarrow> (s, ESP_ERR_NVS_NOT_FOUND)
      | Some c \<Rightarrow>
          (if c \<le> 0 \<or> c > int (am_capacity s) then (s, ESP_ERR_INVALID_SIZE)
           else if \<not> alloc then (s, ESP_ERR_NO_MEM)
           else if get_err \<noteq> ESP_OK then (s, get_err)
           else case n_rollback (am_nvs s) of
             None \<Rightarrow> (s, ESP_ERR_NVS_NOT_FOUND)
           | Some snapshot \<Rightarrow>
               (let version = am_model_version s + 1;
                    table = map (\<lambda>e. e\<lparr>m_mapping_version := version\<rparr>)
                              (take (nat c) (snapshot @ replicate (nat c) zero_mapping));
                    restored = s\<lparr>am_table := table, am_model_version := version\<rparr>
                in amm_save_to_nvs f restored)))"

definition amm_set_poll_interval_all :: "amm_env \<Rightarrow> u32 \<Rightarrow> amm_state \<Rightarrow> amm_state \<times> esp_err" where
  "amm_set_poll_interval_all env ms s =
     (if ms < 100 \<or> ms > 3600000 then (s, ESP_ERR_INVALID_ARG)
      else
        let (s, err) = amm_save_rollback_unlocked (ae_rollback env) s in
        if \<not> amm_snapshot_permits_mutation err then (s, err)
        else
          let version = am_model_version s + 1;
              s = s\<lparr>am_default_poll_ms := ms, am_model_version := version,
                    am_table := map (\<lambda>e. if m_active e
                        then e\<lparr>m_poll_interval_ms := ms, m_mapping_version := version\<rparr> else e) (am_table s)\<rparr>
          in amm_save_to_nvs (ae_save env) s)"

section \<open>Start-up\<close>

definition migrate_v4 :: "amm_entry_v4 \<Rightarrow> amm_entry" where
  "migrate_v4 legacy =
     amm_normalize_read_window (zero_mapping\<lparr>m_mapping_version := m4_mapping_version legacy,
       m_source_protocol := m4_source_protocol legacy,
       m_channel_id := m4_channel_id legacy,
       m_slave_id := m4_slave_id legacy,
       m_function_code := m4_function_code legacy,
       m_register_address := m4_register_address legacy,
       m_data_type := m4_data_type legacy,
       m_byte_order := m4_byte_order legacy,
       m_scale_factor := m4_scale_factor legacy,
       m_offset := m4_offset legacy,
       m_poll_interval_ms := m4_poll_interval_ms legacy,
       m_priority := m4_priority legacy,
       m_discovered := m4_discovered legacy,
       m_constraint := m4_constraint legacy,
       m_active := m4_active legacy,
       m_read_start_address := m4_read_start_address legacy,
       m_read_register_count := m4_read_register_count legacy,
       m_value_register_index := m4_value_register_index legacy,
       m_device_id := strlcpy 32 (m4_device_id legacy),
       m_point_id := strlcpy 32 (m4_point_id legacy),
       m_measurement_name := strlcpy 32 (m4_measurement_name legacy),
       m_unit := strlcpy 16 (m4_unit legacy),
       m_mqtt_topic := strlcpy 128 (m4_mqtt_topic legacy),
       m_object_type := (if m4_function_code legacy = 4 then MODBUS_OBJECT_INPUT_REGISTER
                         else MODBUS_OBJECT_HOLDING_REGISTER),
       m_semantic_source := SEMANTIC_SOURCE_IMPORTED,
       m_semantic_status := SEMANTIC_STATUS_RESOLVED,
       m_semantic_confidence := 100,
       m_semantic_evidence := ''schema-v4 migration''\<rparr>)"

text \<open>
  One stored slot under its schema. The stored layouts of schemas 5 and 6 are prefixes of the
  current one, so they are an entry whose missing fields are zero. Schema 2 is not read: its
  layout is not a prefix of the current one, and what the code's \<open>memcpy\<close> makes of it depends
  on the compiler.
\<close>

definition load_entry :: "u32 \<Rightarrow> amm_blob option \<Rightarrow> amm_entry + esp_err" where
  "load_entry schema blob =
     (case blob of
        None \<Rightarrow> Inr ESP_ERR_NVS_NOT_FOUND
      | Some (Entry e) \<Rightarrow> (if schema = AMM_NVS_SCHEMA_VERSION then Inl e else Inr ESP_ERR_INVALID_SIZE)
      | Some (Entry_v6 e) \<Rightarrow>
          (if schema = 6
           then Inl (e\<lparr>m_mqtt_topic_mode := (if m_semantic_source e = SEMANTIC_SOURCE_USER \<and> m_mqtt_topic e \<noteq> []
                        then MQTT_TOPIC_CUSTOM else MQTT_TOPIC_AUTO)\<rparr>)
           else Inr ESP_ERR_INVALID_SIZE)
      | Some (Entry_v5 e) \<Rightarrow>
          (if schema = 5 then Inl (e\<lparr>m_gateway_property_key := [], m_mqtt_topic_mode := MQTT_TOPIC_AUTO\<rparr>)
           else Inr ESP_ERR_INVALID_SIZE)
      | Some (Entry_v4 e) \<Rightarrow> (if schema = 4 then Inl (migrate_v4 e) else Inr ESP_ERR_INVALID_SIZE)
      | Some Entry_bad \<Rightarrow> Inr ESP_ERR_INVALID_SIZE)"

fun load_entries :: "u32 \<Rightarrow> (nat \<Rightarrow> amm_blob option) \<Rightarrow> nat list \<Rightarrow> amm_entry list + esp_err" where
  "load_entries schema entries [] = Inl []"
| "load_entries schema entries (i # is) =
     (case load_entry schema (entries i) of
        Inr e \<Rightarrow> Inr e
      | Inl e \<Rightarrow>
          (case load_entries schema entries is of
             Inr err \<Rightarrow> Inr err
           | Inl es \<Rightarrow> Inl (e # es)))"

definition finish_entry :: "u32 \<Rightarrow> amm_entry \<Rightarrow> amm_entry" where
  "finish_entry poll e =
     (let e = (if m_poll_interval_ms e = 0 then e\<lparr>m_poll_interval_ms := poll\<rparr> else e);
          e = (if f32_eq (m_scale_factor e) 0 then e\<lparr>m_scale_factor := 0x3F800000\<rparr> else e)
      in amm_normalize_read_window e)"

text \<open>The loaded state, the schema version found, and the status.\<close>

definition amm_load_from_nvs :: "esp_err \<Rightarrow> amm_nvs \<Rightarrow> amm_state \<Rightarrow> amm_state \<times> u32 \<times> esp_err" where
  "amm_load_from_nvs open_err n s =
     (if open_err \<noteq> ESP_OK then (s, 0, open_err)
      else
        let poll = (case n_poll_ms n of
              Some p \<Rightarrow> if 100 \<le> p \<and> p \<le> 3600000 then p else am_default_poll_ms s
            | None \<Rightarrow> am_default_poll_ms s);
            s = s\<lparr>am_default_poll_ms := poll\<rparr>;
            schema = (case n_schema n of Some v \<Rightarrow> v | None \<Rightarrow> 0)
        in case n_count n of
             None \<Rightarrow> (s, schema, ESP_ERR_NOT_FOUND)
           | Some count \<Rightarrow>
               (if count < 0 \<or> count > int (am_capacity s) then (s, schema, ESP_ERR_INVALID_SIZE)
                else case load_entries schema (n_entry n) [0..<nat count] of
                  Inr e \<Rightarrow> (s\<lparr>am_table := []\<rparr>, schema, e)
                | Inl es \<Rightarrow>
                    (let table = map (finish_entry poll) es;
                         version = foldl (\<lambda>v e. if m_mapping_version e > v then m_mapping_version e else v) 1 table
                     in (s\<lparr>am_table := table, am_model_version := version\<rparr>, schema, ESP_OK))))"

definition amm_is_legacy_demo_entry :: "amm_entry \<Rightarrow> bool" where
  "amm_is_legacy_demo_entry e \<longleftrightarrow>
     m_source_protocol e = SRC_MODBUS_RTU \<and> m_channel_id e = 0 \<and>
     ((m_device_id e = ''plc_line1_01'' \<and> (m_point_id e = ''motor_temp_01'' \<or> m_point_id e = ''pressure_01'')) \<or>
      (m_device_id e = ''plc_line2_01'' \<and> (m_point_id e = ''speed_01'' \<or> m_point_id e = ''current_01'')))"

definition amm_remove_legacy_demo_entries :: "amm_state \<Rightarrow> amm_state" where
  "amm_remove_legacy_demo_entries s =
     (let table = filter (\<lambda>e. \<not> amm_is_legacy_demo_entry e) (am_table s) in
      if length table < length (am_table s)
      then s\<lparr>am_table := table, am_model_version := am_model_version s + 1\<rparr> else s)"

definition amm_initialize_empty :: "amm_state \<Rightarrow> amm_state" where
  "amm_initialize_empty s = s\<lparr>am_table := [], am_model_version := 0\<rparr>"

text \<open>
  What start-up finds: the memory, the status of the partition and of the two opens, the
  results of the saves, and the store of the default partition that older firmware used.
\<close>

record amm_boot =
  ab_psram :: bool
  ab_psram_alloc :: bool
  ab_internal_alloc :: bool
  ab_partition :: esp_err
  ab_open :: esp_err
  ab_open_legacy :: esp_err
  ab_legacy_nvs :: amm_nvs
  ab_save_migrated :: "nat \<Rightarrow> esp_err"
  ab_save :: "nat \<Rightarrow> esp_err"

definition boot_capacity :: "amm_boot \<Rightarrow> nat" where
  "boot_capacity env =
     (if ab_psram env \<and> ab_psram_alloc env then 1000 else if ab_internal_alloc env then 64 else 0)"

definition amm_init :: "amm_boot \<Rightarrow> amm_state \<Rightarrow> amm_state" where
  "amm_init env s =
     (let s = s\<lparr>am_capacity := boot_capacity env, am_table := []\<rparr> in
      if am_capacity s = 0 then s
      else
        let (s, schema, ret) = (if ab_partition env = ESP_OK
              then amm_load_from_nvs (ab_open env) (am_nvs s) s else (s, 0, ab_partition env));
            (s, schema, ret) = (if ret \<noteq> ESP_OK \<and> ab_partition env = ESP_OK then
                (case amm_load_from_nvs (ab_open_legacy env) (ab_legacy_nvs env) s of
                   (s, schema, legacy_ret) \<Rightarrow>
                     if legacy_ret = ESP_OK
                     then (case amm_save_to_nvs (ab_save_migrated env) s of (s, ret) \<Rightarrow> (s, schema, ret))
                     else (s, schema, ret))
              else (s, schema, ret))
        in if ret \<noteq> ESP_OK then fst (amm_save_to_nvs (ab_save env) (amm_initialize_empty s))
        else if schema < AMM_NVS_SCHEMA_VERSION
        then fst (amm_save_to_nvs (ab_save env) (amm_remove_legacy_demo_entries s))
        else s)"

section \<open>The import loop\<close>

lemma same_point_key: "amm_same_physical_point a b \<longleftrightarrow> point_key a = point_key b"
  by (auto simp: amm_same_physical_point_def point_key_def)

lemma overlay_key [simp]:
  "point_key (amm_overlay_user_semantics u e) = point_key e"
  "m_active (amm_overlay_user_semantics u e) = m_active e"
  by (simp_all add: amm_overlay_user_semantics_def point_key_def)

lemma point_key_cong [simp]:
  "point_key (e\<lparr>m_active := b\<rparr>) = point_key e" "point_key (e\<lparr>m_mapping_version := v\<rparr>) = point_key e"
  "point_key (e\<lparr>m_scale_factor := f\<rparr>) = point_key e" "point_key (e\<lparr>m_poll_interval_ms := p\<rparr>) = point_key e"
  "point_key (default_poll s e) = point_key e"
  by (simp_all add: point_key_def default_poll_def)

lemma default_poll_active [simp]: "m_active (default_poll s e) = m_active e"
  by (simp add: default_poll_def)

lemma prepare_import_fields [simp]:
  "point_key (prepare_import v s e) = point_key e" "m_active (prepare_import v s e)"
  by (auto simp: prepare_import_def Let_def split: option.splits)

definition keys_of :: "amm_entry list \<Rightarrow> point_key set" where
  "keys_of es = point_key ` set es"

definition all_distinct :: "amm_entry list \<Rightarrow> bool" where
  "all_distinct es \<longleftrightarrow> distinct (map point_key es) \<and> (\<forall>e \<in> set es. m_active e)"

lemma all_distinct_unique: "all_distinct es \<Longrightarrow> unique_active es"
  by (auto simp: all_distinct_def unique_active_def distinct_conv_nth)

lemma kept_distinct: "unique_active (am_table s) \<Longrightarrow> all_distinct (kept_entries es r s)"
proof -
  have "distinct (map point_key (filter P t))" if "unique_active t" "\<And>e. P e \<Longrightarrow> m_active e" for P t
    using that(1)
  proof (induction t)
    case Nil
    then show ?case by simp
  next
    case (Cons x t)
    have u: "unique_active t"
      using unique_activeD [OF Cons.prems, of "Suc _" "Suc _"] by (auto simp: unique_active_def)
    have "point_key x \<noteq> point_key y" if y: "y \<in> set t" "m_active x" "m_active y" for y
    proof -
      obtain j where "j < length t" "t ! j = y" using y(1) by (auto simp: in_set_conv_nth)
      then show ?thesis using unique_activeD [OF Cons.prems, of 0 "Suc j"] y by auto
    qed
    then show ?case using Cons.IH [OF u] that(2) by auto
  qed
  note d = this
  show "unique_active (am_table s) \<Longrightarrow> all_distinct (kept_entries es r s)"
    unfolding all_distinct_def kept_entries_def by (intro conjI d) auto
qed

lemma stage_import_result:
  "stage_import s st v es = Inl (st', v') \<Longrightarrow> all_distinct st \<Longrightarrow> length st \<le> am_capacity s \<Longrightarrow>
   all_distinct st' \<and> length st' \<le> am_capacity s \<and> keys_of st' = keys_of st \<union> keys_of es \<and>
   (\<forall>x \<in> set st'. (x \<in> set st \<and> point_key x \<notin> keys_of es) \<or> (\<exists>ver. \<exists>e \<in> set es. x = prepare_import ver s e))"
proof (induction es arbitrary: st v)
  case Nil
  then show ?case by (simp add: keys_of_def)
next
  case (Cons e es)
  let ?x = "prepare_import (v + 1) s e"
  define st1 where "st1 = (case find_slot (\<lambda>t. amm_same_physical_point t ?x) st of
      Some j \<Rightarrow> st[j := ?x] | None \<Rightarrow> st @ [?x])"
  have run: "stage_import s st1 (v + 1) es = Inl (st', v')"
    using Cons.prems(1) by (auto simp: Let_def st1_def split: if_splits option.splits)
  have d: "distinct st" using Cons.prems(2) by (auto simp: all_distinct_def distinct_map)
  have step: "all_distinct st1 \<and> length st1 \<le> am_capacity s \<and>
      set st1 = insert ?x {y \<in> set st. point_key y \<noteq> point_key e}"
  proof (cases "find_slot (\<lambda>t. amm_same_physical_point t ?x) st")
    case None
    then have n: "\<forall>y \<in> set st. point_key y \<noteq> point_key e" by (auto simp: find_slot_None same_point_key)
    moreover have "length st < am_capacity s"
      using None Cons.prems(1) by (auto simp: Let_def split: if_splits)
    ultimately show ?thesis using None Cons.prems(2) by (auto simp: st1_def all_distinct_def)
  next
    case (Some j)
    then have j: "j < length st" "point_key (st ! j) = point_key e"
      by (auto simp: find_slot_Some same_point_key)
    have "map point_key (st[j := ?x]) = map point_key st"
      using j by (simp add: map_update list_update_id [of _ j, symmetric] del: list_update_id) (simp add: list_update_same_conv)
    then have ad: "all_distinct (st[j := ?x])"
      using Cons.prems(2) set_update_subset_insert [of st j ?x] by (auto simp: all_distinct_def)
    have "x = st ! j" if "x \<in> set st" "point_key x = point_key e" for x
      using Cons.prems(2) j that nth_mem [OF j(1)] unfolding all_distinct_def distinct_map
      by (metis inj_onD)
    then have "{y \<in> set st. point_key y \<noteq> point_key e} = set st - {st ! j}" using j by auto
    then show ?thesis using Some Cons.prems(3) ad j d by (simp add: st1_def set_update_distinct)
  qed
  have ih: "all_distinct st' \<and> length st' \<le> am_capacity s \<and> keys_of st' = keys_of st1 \<union> keys_of es"
    "\<forall>x \<in> set st'. (x \<in> set st1 \<and> point_key x \<notin> keys_of es) \<or> (\<exists>ver. \<exists>e \<in> set es. x = prepare_import ver s e)"
    using Cons.IH [OF run] step by simp_all
  have k: "keys_of st1 = keys_of st \<union> {point_key e}" "keys_of (e # es) = insert (point_key e) (keys_of es)"
    using step by (auto simp: keys_of_def)
  have "(x \<in> set st \<and> point_key x \<notin> keys_of (e # es)) \<or> (\<exists>ver. \<exists>e \<in> set (e # es). x = prepare_import ver s e)"
    if "x \<in> set st'" for x
    using bspec [OF ih(2) that]
  proof
    assume x: "x \<in> set st1 \<and> point_key x \<notin> keys_of es"
    then have "x = ?x \<or> x \<in> set st \<and> point_key x \<noteq> point_key e" using step by simp
    then show ?thesis using x k(2) by auto
  qed auto
  then show ?case using ih(1) k by auto
qed

section \<open>What the store keeps\<close>

definition call_keeps :: "(amm_nvs \<Rightarrow> bool) \<Rightarrow> nvs_call \<Rightarrow> bool" where
  "call_keeps P c = (case c of Write w \<Rightarrow> (\<forall>n. P n \<longrightarrow> P (w n)) | Erase w \<Rightarrow> (\<forall>n. P n \<longrightarrow> P (w n)))"

lemma nvs_run_keeps:
  "\<forall>c \<in> set cs. call_keeps P c \<Longrightarrow> P n \<Longrightarrow> P (fst (nvs_run f k cs n))"
  by (induction f k cs n rule: nvs_run.induct) (auto simp: call_keeps_def)

definition rollback_is :: "int option \<Rightarrow> amm_entry list option \<Rightarrow> amm_nvs \<Rightarrow> bool" where
  "rollback_is c r n \<longleftrightarrow> n_rollback_count n = c \<and> n_rollback n = r"

lemma call_keeps_rollback [simp]:
  "call_keeps (rollback_is c r) nvs_open" "call_keeps (rollback_is c r) nvs_commit"
  "call_keeps (rollback_is c r) (put_entry i e)" "call_keeps (rollback_is c r) (erase_entry i)"
  "call_keeps (rollback_is c r) (Write (\<lambda>n. n\<lparr>n_count := v\<rparr>))"
  "call_keeps (rollback_is c r) (Write (\<lambda>n. n\<lparr>n_schema := w\<rparr>))"
  "call_keeps (rollback_is c r) (Write (\<lambda>n. n\<lparr>n_poll_ms := p\<rparr>))"
  by (simp_all add: call_keeps_def rollback_is_def nvs_open_def nvs_commit_def put_entry_def erase_entry_def)

lemma rollback_is_self: "rollback_is (n_rollback_count n) (n_rollback n) n"
  by (simp add: rollback_is_def)

lemma save_entry_rollback [simp]:
  "n_rollback (am_nvs (fst (amm_save_entry_to_nvs_unlocked f i s))) = n_rollback (am_nvs s)"
  "n_rollback_count (am_nvs (fst (amm_save_entry_to_nvs_unlocked f i s))) = n_rollback_count (am_nvs s)"
proof -
  have "rollback_is (n_rollback_count (am_nvs s)) (n_rollback (am_nvs s))
      (am_nvs (fst (amm_save_entry_to_nvs_unlocked f i s)))"
    by (simp add: amm_save_entry_to_nvs_unlocked_def Let_def rollback_is_self split_beta nvs_run_keeps del: nvs_run.simps)
  then show "n_rollback (am_nvs (fst (amm_save_entry_to_nvs_unlocked f i s))) = n_rollback (am_nvs s)"
    "n_rollback_count (am_nvs (fst (amm_save_entry_to_nvs_unlocked f i s))) = n_rollback_count (am_nvs s)"
    by (simp_all add: rollback_is_def)
qed

lemma save_table_rollback [simp]:
  "n_rollback (am_nvs (fst (amm_save_table_to_nvs_unlocked f t s))) = n_rollback (am_nvs s)"
proof -
  have "rollback_is (n_rollback_count (am_nvs s)) (n_rollback (am_nvs s))
      (am_nvs (fst (amm_save_table_to_nvs_unlocked f t s)))"
    by (simp add: amm_save_table_to_nvs_unlocked_def Let_def rollback_is_self split_beta del: nvs_run.simps)
      (rule impI, rule nvs_run_keeps, auto simp: rollback_is_self)
  then show ?thesis by (simp add: rollback_is_def)
qed

definition rollback_ok :: "amm_nvs \<Rightarrow> bool" where
  "rollback_ok n \<longleftrightarrow> (\<forall>t. n_rollback n = Some t \<longrightarrow> unique_active t)"

lemma save_rollback_ok:
  "unique_active (am_table s) \<Longrightarrow> rollback_ok (am_nvs s) \<Longrightarrow> rollback_ok (am_nvs (fst (amm_save_rollback_unlocked f s)))"
  by (auto simp: amm_save_rollback_unlocked_def rollback_ok_def Let_def nvs_open_def nvs_commit_def)

section \<open>The invariant\<close>

definition amm_inv :: "amm_state \<Rightarrow> bool" where
  "amm_inv s \<longleftrightarrow> amm_ok s \<and> rollback_ok (am_nvs s)"

lemma add_rollback_ok: "amm_inv s \<Longrightarrow> rollback_ok (am_nvs (fst (amm_add_mapping env (Some e) s)))"
  using save_rollback_ok [of s "ae_rollback env"]
  by (cases "amm_save_rollback_unlocked (ae_rollback env) s")
    (auto simp: amm_add_mapping_def amm_inv_def amm_ok_def Let_def rollback_ok_def set_entry_def append_entry_def split: option.splits)

lemma deactivate_rollback_ok: "amm_inv s \<Longrightarrow> rollback_ok (am_nvs (fst (deactivate env P s)))"
  using save_rollback_ok [of s "ae_rollback env"]
  by (cases "amm_save_rollback_unlocked (ae_rollback env) s")
    (auto simp: deactivate_def amm_inv_def amm_ok_def Let_def rollback_ok_def set_entry_def split: option.splits)


lemma call_keeps_rollback_ok [simp]:
  "call_keeps rollback_ok nvs_open" "call_keeps rollback_ok nvs_commit"
  "call_keeps rollback_ok (Write (\<lambda>n. n\<lparr>n_count := v\<rparr>))"
  "call_keeps rollback_ok (Write (\<lambda>n. n\<lparr>n_schema := w\<rparr>))"
  "call_keeps rollback_ok (Write (\<lambda>n. n\<lparr>n_poll_ms := p\<rparr>))"
  "call_keeps rollback_ok (Write (\<lambda>n. \<lparr>n_count = None, n_schema = None, n_poll_ms = None, n_entry = (\<lambda>_. None),
                                n_rollback_count = None, n_rollback = None\<rparr>))"
  by (simp_all add: call_keeps_def rollback_ok_def nvs_open_def nvs_commit_def)

lemma clear_rollback_ok: "amm_inv s \<Longrightarrow> rollback_ok (am_nvs (fst (amm_clear_mappings env s)))"
  using save_rollback_ok [of s "ae_rollback env"]
  by (cases "amm_save_rollback_unlocked (ae_rollback env) s")
    (auto simp: amm_clear_mappings_def amm_inv_def amm_ok_def Let_def split_beta nvs_run_keeps
      simp del: nvs_run.simps)

lemma amm_ok_nvs [simp]: "amm_ok (s\<lparr>am_nvs := n\<rparr>) = amm_ok s"
  by (simp add: amm_ok_def)

lemma amm_ok_cong: "am_table s = am_table t \<Longrightarrow> am_capacity s = am_capacity t \<Longrightarrow> amm_ok s = amm_ok t"
  by (simp add: amm_ok_def)

lemma save_rollback_inv: "amm_inv s \<Longrightarrow> amm_inv (fst (amm_save_rollback_unlocked f s))"
  using save_rollback_ok [of s f] by (auto simp: amm_inv_def amm_ok_def)

lemma save_table_inv [simp]: "amm_inv (fst (amm_save_table_to_nvs_unlocked f t s)) = amm_inv s"
  by (simp add: amm_inv_def amm_ok_def rollback_ok_def)

text \<open>What an import leaves: the old table, or the staged one.\<close>

lemma import_locked_fail:
  assumes "fst (snd (import_locked env es r s)) \<noteq> ESP_OK"
  shows "am_table (fst (import_locked env es r s)) = am_table s"
    "am_model_version (fst (import_locked env es r s)) = am_model_version s"
    "snd (snd (import_locked env es r s)) = 0"
  using assms by (auto simp: import_locked_def Let_def split_beta split: sum.splits)

lemma import_locked_ok:
  assumes "fst (snd (import_locked env es r s)) = ESP_OK"
    "stage_import s (kept_entries es r s) (am_model_version s) es \<noteq> Inr ESP_OK"
  shows "\<exists>t v. stage_import s (kept_entries es r s) (am_model_version s) es = Inl (t, v) \<and>
    length (kept_entries es r s) \<le> am_capacity s \<and>
    am_table (fst (import_locked env es r s)) = t \<and>
    am_model_version (fst (import_locked env es r s)) = v \<and> snd (snd (import_locked env es r s)) = length es"
  using assms by (auto simp: import_locked_def Let_def split_beta split: sum.splits if_splits)

lemma stage_import_error: "stage_import s st v es \<noteq> Inr ESP_OK"
  by (induction es arbitrary: st v) (auto simp: Let_def split: option.splits)

lemma stage_import_cong:
  "am_table s = am_table t \<Longrightarrow> am_capacity s = am_capacity t \<Longrightarrow> am_default_poll_ms s = am_default_poll_ms t \<Longrightarrow>
   stage_import s st v es = stage_import t st v es"
proof (induction es arbitrary: st v)
  case Nil
  then show ?case by simp
next
  case (Cons e es)
  then have "prepare_import (v + 1) s e = prepare_import (v + 1) t e"
    by (simp add: prepare_import_def default_poll_def)
  then show ?case using Cons by (simp add: Let_def split: option.split)
qed

lemma import_mappings_unfold:
  "amm_import_mappings env alloc (Some es) r s =
    (if es = [] \<or> am_capacity s = 0 then (s, ESP_ERR_INVALID_ARG, 0)
     else if import_conflict es then (s, ESP_ERR_INVALID_STATE, 0)
     else if \<not> alloc then (s, ESP_ERR_NO_MEM, 0)
     else if \<not> amm_snapshot_permits_mutation (snd (amm_save_rollback_unlocked (ae_rollback env) s)) \<and> am_table s \<noteq> []
     then (fst (amm_save_rollback_unlocked (ae_rollback env) s), ESP_FAIL, 0)
     else import_locked env es r (fst (amm_save_rollback_unlocked (ae_rollback env) s)))"
  using save_rollback_fields(1) [of "ae_rollback env" s]
  by (simp add: amm_import_mappings_def Let_def split_beta)

lemma import_fail:
  assumes "fst (snd (amm_import_mappings env alloc es r s)) \<noteq> ESP_OK"
  shows "am_table (fst (amm_import_mappings env alloc es r s)) = am_table s"
    "am_model_version (fst (amm_import_mappings env alloc es r s)) = am_model_version s"
    "snd (snd (amm_import_mappings env alloc es r s)) = 0"
proof -
  have "am_table (fst (amm_import_mappings env alloc es r s)) = am_table s \<and>
    am_model_version (fst (amm_import_mappings env alloc es r s)) = am_model_version s \<and>
    snd (snd (amm_import_mappings env alloc es r s)) = 0"
  proof (cases es)
    case None
    then show ?thesis by (simp add: amm_import_mappings_def)
  next
    case (Some xs)
    then show ?thesis using assms import_locked_fail by (auto simp: import_mappings_unfold)
  qed
  then show "am_table (fst (amm_import_mappings env alloc es r s)) = am_table s"
    "am_model_version (fst (amm_import_mappings env alloc es r s)) = am_model_version s"
    "snd (snd (amm_import_mappings env alloc es r s)) = 0" by simp_all
qed

lemma import_ok_cases:
  assumes "fst (snd (amm_import_mappings env alloc es r s)) = ESP_OK"
  obtains xs t v where "es = Some xs" "\<not> import_conflict xs" "length (kept_entries xs r s) \<le> am_capacity s"
    "stage_import s (kept_entries xs r s) (am_model_version s) xs = Inl (t, v)"
    "am_table (fst (amm_import_mappings env alloc es r s)) = t"
    "am_model_version (fst (amm_import_mappings env alloc es r s)) = v"
    "snd (snd (amm_import_mappings env alloc es r s)) = length xs"
proof -
  let ?s = "fst (amm_save_rollback_unlocked (ae_rollback env) s)"
  obtain xs where xs: "es = Some xs" using assms by (cases es) (simp_all add: amm_import_mappings_def)
  have k: "kept_entries xs r ?s = kept_entries xs r s" by (simp add: kept_entries_def)
  have c: "stage_import ?s st v xs = stage_import s st v xs" for st v by (rule stage_import_cong) simp_all
  have *: "\<not> import_conflict xs" "amm_import_mappings env alloc es r s = import_locked env xs r ?s"
    "fst (snd (import_locked env xs r ?s)) = ESP_OK"
    using assms by (auto simp: xs import_mappings_unfold split: if_splits)
  from import_locked_ok [OF *(3) stage_import_error] obtain t v where
    "stage_import s (kept_entries xs r s) (am_model_version s) xs = Inl (t, v)"
    "length (kept_entries xs r s) \<le> am_capacity s"
    "am_table (fst (import_locked env xs r ?s)) = t" "am_model_version (fst (import_locked env xs r ?s)) = v"
    "snd (snd (import_locked env xs r ?s)) = length xs"
    by (auto simp: k c)
  then show thesis using that xs * by metis
qed


lemma import_capacity [simp]: "am_capacity (fst (amm_import_mappings env alloc es r s)) = am_capacity s"
  by (cases es) (auto simp: import_mappings_unfold import_locked_def Let_def split_beta amm_import_mappings_def
      split: sum.splits)

lemma import_rollback_ok: "amm_inv s \<Longrightarrow> rollback_ok (am_nvs (fst (amm_import_mappings env alloc es r s)))"
  using save_rollback_ok [of s "ae_rollback env"]
  by (cases es) (auto simp: import_mappings_unfold import_locked_def Let_def split_beta amm_import_mappings_def
      amm_inv_def amm_ok_def rollback_ok_def split: sum.splits)

lemma import_table:
  assumes "amm_ok s" "fst (snd (amm_import_mappings env alloc es r s)) = ESP_OK"
  obtains xs where "es = Some xs" "snd (snd (amm_import_mappings env alloc es r s)) = length xs"
    "all_distinct (am_table (fst (amm_import_mappings env alloc es r s)))"
    "length (am_table (fst (amm_import_mappings env alloc es r s))) \<le> am_capacity s"
    "keys_of (am_table (fst (amm_import_mappings env alloc es r s))) = keys_of (kept_entries xs r s) \<union> keys_of xs"
    "\<forall>x \<in> set (am_table (fst (amm_import_mappings env alloc es r s))).
       (x \<in> set (kept_entries xs r s) \<and> point_key x \<notin> keys_of xs) \<or> (\<exists>ver. \<exists>e \<in> set xs. x = prepare_import ver s e)"
proof -
  from import_ok_cases [OF assms(2)] obtain xs t v where x: "es = Some xs"
    "length (kept_entries xs r s) \<le> am_capacity s"
    "stage_import s (kept_entries xs r s) (am_model_version s) xs = Inl (t, v)"
    "am_table (fst (amm_import_mappings env alloc es r s)) = t"
    "snd (snd (amm_import_mappings env alloc es r s)) = length xs" by metis
  have "all_distinct (kept_entries xs r s)" using assms(1) by (simp add: amm_ok_def kept_distinct)
  from stage_import_result [OF x(3) this x(2)] show thesis
    using that [OF x(1,5)] by (simp add: x(4))
qed

lemma import_inv: "amm_inv s \<Longrightarrow> amm_inv (fst (amm_import_mappings env alloc es r s))"
proof (cases "fst (snd (amm_import_mappings env alloc es r s)) = ESP_OK")
  case True
  assume inv: "amm_inv s"
  then have "amm_ok s" by (simp add: amm_inv_def)
  from import_table [OF this True] show ?thesis
    using import_rollback_ok [OF inv] all_distinct_unique by (metis amm_inv_def amm_ok_def import_capacity)
next
  case False
  assume inv: "amm_inv s"
  then show ?thesis using import_fail(1) [OF False] import_rollback_ok [OF inv]
    by (simp add: amm_inv_def amm_ok_def)
qed

lemma unique_map:
  "(\<And>e. point_key (g e) = point_key e) \<Longrightarrow> (\<And>e. m_active (g e) = m_active e) \<Longrightarrow>
   unique_active (map g t) = unique_active t"
  by (simp add: unique_active_def)

lemma unique_padded: "unique_active t \<Longrightarrow> unique_active (take n (t @ replicate k zero_mapping))"
proof -
  assume u: "unique_active t"
  have a: "i < length t \<and> take n (t @ replicate k zero_mapping) ! i = t ! i"
    if "i < length (take n (t @ replicate k zero_mapping))" "m_active (take n (t @ replicate k zero_mapping) ! i)" for i
  proof -
    have e: "take n (t @ replicate k zero_mapping) ! i = (t @ replicate k zero_mapping) ! i"
      using that(1) by (intro nth_take) (simp del: take_append)
    have "i < length t"
    proof (rule ccontr)
      assume "\<not> i < length t"
      then have "(t @ replicate k zero_mapping) ! i = zero_mapping"
        using that(1) nth_replicate [of "i - length t" k zero_mapping] by (auto simp: nth_append del: take_append)
      then show False using that(2) e by (simp add: zero_mapping_def)
    qed
    then show ?thesis using e by (simp add: nth_append)
  qed
  show ?thesis unfolding unique_active_def using a unique_activeD [OF u] by metis
qed

lemma unique_restored:
  "unique_active t \<Longrightarrow>
   unique_active (map (\<lambda>e. e\<lparr>m_mapping_version := v\<rparr>) (take n (t @ replicate k zero_mapping)))"
  by (subst unique_map) (simp_all add: unique_padded del: take_append)

lemma rollback_inv: "amm_inv s \<Longrightarrow> amm_inv (fst (amm_rollback oe al ge f s))"
  by (simp add: amm_rollback_def amm_save_to_nvs_def Let_def amm_inv_def amm_ok_def rollback_ok_def
      unique_restored nat_le_iff del: take_append split: option.split)

lemma set_poll_inv: "amm_inv s \<Longrightarrow> amm_inv (fst (amm_set_poll_interval_all env ms s))"
  using save_rollback_inv [of s "ae_rollback env"]
  by (cases "amm_save_rollback_unlocked (ae_rollback env) s")
    (auto simp: amm_set_poll_interval_all_def amm_save_to_nvs_def Let_def amm_inv_def amm_ok_def rollback_ok_def
      unique_map if_distrib [of point_key] if_distrib [of m_active] cong: if_cong)


text \<open>
  The calls of the interface (\<open>amm_mapping.h\<close>) that change the table, with what NVS and the
  allocator answer them, and a run of them one after the other: each holds the table's mutex.
\<close>

datatype amm_call =
    Call_add amm_env amm_entry
  | Call_update amm_env int amm_entry
  | Call_remove amm_env u8 u16
  | Call_remove_for_channel amm_env source_protocol u8 u8 u16
  | Call_clear amm_env
  | Call_import amm_env bool "amm_entry list option" bool
  | Call_rollback esp_err bool esp_err "nat \<Rightarrow> esp_err"
  | Call_set_poll amm_env u32

fun amm_do :: "amm_call \<Rightarrow> amm_state \<Rightarrow> amm_state" where
  "amm_do (Call_add env e) s = fst (amm_add_mapping env (Some e) s)"
| "amm_do (Call_update env i e) s = fst (amm_update_mapping env i (Some e) s)"
| "amm_do (Call_remove env slave reg) s = fst (amm_remove_mapping env slave reg s)"
| "amm_do (Call_remove_for_channel env p ch slave reg) s = fst (amm_remove_mapping_for_channel env p ch slave reg s)"
| "amm_do (Call_clear env) s = fst (amm_clear_mappings env s)"
| "amm_do (Call_import env alloc es r) s = fst (amm_import_mappings env alloc es r s)"
| "amm_do (Call_rollback oe al ge f) s = fst (amm_rollback oe al ge f s)"
| "amm_do (Call_set_poll env ms) s = fst (amm_set_poll_interval_all env ms s)"

definition amm_run :: "amm_call list \<Rightarrow> amm_state \<Rightarrow> amm_state" where
  "amm_run = fold amm_do"

lemma amm_run_simps [simp]: "amm_run [] s = s" "amm_run (c # cs) s = amm_run cs (amm_do c s)"
  by (simp_all add: amm_run_def)

text \<open>
  The call moves a slot onto the point of another active slot. Only the update in place can do
  it: it does not look for the new point in the other slots.
\<close>

fun takes_held_point :: "amm_call \<Rightarrow> amm_state \<Rightarrow> bool" where
  "takes_held_point (Call_update env i e) s \<longleftrightarrow>
     (\<exists>j < length (am_table s). int j \<noteq> i \<and> m_active (am_table s ! j) \<and> point_key (am_table s ! j) = point_key e)"
| "takes_held_point _ s \<longleftrightarrow> False"

lemma update_inv:
  assumes "amm_inv s" "\<not> takes_held_point (Call_update env i e) s"
  shows "amm_inv (fst (amm_update_mapping env i (Some e) s))"
proof -
  let ?s = "fst (amm_save_rollback_unlocked (ae_rollback env) s)"
  have "amm_inv ?s" using assms(1) by (rule save_rollback_inv)
  moreover have "unique_active ((am_table s)[nat i := prepare_entry s e])" if "0 \<le> i"
    using assms that by (intro unique_update) (auto simp: amm_inv_def amm_ok_def)
  ultimately show ?thesis
    using assms(1) by (auto simp: amm_update_mapping_def Let_def split_beta amm_inv_def amm_ok_def rollback_ok_def
      set_entry_def)
qed

lemma amm_do_inv: "amm_inv s \<Longrightarrow> \<not> takes_held_point c s \<Longrightarrow> amm_inv (amm_do c s)"
  by (cases c)
    (auto simp: update_inv import_inv rollback_inv set_poll_inv amm_remove_mapping_def
      amm_remove_mapping_for_channel_def amm_inv_def [of "fst (amm_add_mapping _ _ _)"]
      amm_inv_def [of "fst (deactivate _ _ _)"] amm_inv_def [of "fst (amm_clear_mappings _ _)"]
      add_rollback_ok deactivate_rollback_ok clear_rollback_ok
      add_mapping_ok deactivate_ok clear_ok dest: amm_inv_def [THEN iffD1] simp del: takes_held_point.simps)

lemma amm_run_inv:
  "amm_inv s \<Longrightarrow> (\<And>as c bs. cs = as @ c # bs \<Longrightarrow> \<not> takes_held_point c (amm_run as s)) \<Longrightarrow> amm_inv (amm_run cs s)"
proof (induction cs arbitrary: s)
  case Nil
  then show ?case by simp
next
  case (Cons c cs)
  have "\<not> takes_held_point c s" using Cons.prems(2) [of "[]" c cs] by simp
  then have "amm_inv (amm_do c s)" using Cons.prems(1) amm_do_inv by blast
  moreover have "\<not> takes_held_point d (amm_run as (amm_do c s))" if "cs = as @ d # bs" for as d bs
    using Cons.prems(2) [of "c # as" d bs] that by simp
  ultimately show ?case using Cons.IH by simp
qed

end
