(* ===== verification/Amm_Safety.thy ===== *)
theory Amm_Safety
  imports Amm_Import
begin

text \<open>
  The properties of the mapping model (\<open>amm/amm_mapping.c\<close>) over its whole set of operations:
  what the store holds after a successful save and what the next start makes of it, the
  uniqueness of points over any sequence of edits, what lookups see, what an import may do and
  may not do, the rollback, and two edits that break the table.
\<close>

section \<open>Saving and loading\<close>

lemma nvs_run_ok_append:
  "snd (nvs_run f k (as @ bs) n) = ESP_OK \<Longrightarrow>
   snd (nvs_run f k as n) = ESP_OK \<and> snd (nvs_run f (k + length as) bs (fst (nvs_run f k as n))) = ESP_OK \<and>
   fst (nvs_run f k (as @ bs) n) = fst (nvs_run f (k + length as) bs (fst (nvs_run f k as n)))"
proof (induction as arbitrary: k n)
  case Nil
  then show ?case by simp
next
  case (Cons c as)
  then show ?case
  proof (cases c)
    case (Write w)
    then show ?thesis using Cons.prems Cons.IH [of "Suc k" "w n"] by (auto split: if_splits)
  next
    case (Erase w)
    then show ?thesis using Cons.prems Cons.IH [of "Suc k" "w n"] by (auto split: if_splits)
  qed
qed

definition header_is :: "int option \<Rightarrow> u32 option \<Rightarrow> u32 option \<Rightarrow> amm_nvs \<Rightarrow> bool" where
  "header_is c v p n \<longleftrightarrow> n_count n = c \<and> n_schema n = v \<and> n_poll_ms n = p"

lemma call_keeps_header [simp]:
  "call_keeps (header_is c v p) nvs_commit" "call_keeps (header_is c v p) nvs_open"
  "call_keeps (header_is c v p) (put_entry i e)" "call_keeps (header_is c v p) (erase_entry i)"
  by (simp_all add: call_keeps_def header_is_def nvs_open_def nvs_commit_def put_entry_def erase_entry_def)

definition entry_is :: "nat \<Rightarrow> amm_blob option \<Rightarrow> amm_nvs \<Rightarrow> bool" where
  "entry_is i b n \<longleftrightarrow> n_entry n i = b"

lemma call_keeps_entry [simp]:
  "call_keeps (entry_is i b) nvs_commit" "j \<noteq> i \<Longrightarrow> call_keeps (entry_is i b) (put_entry j e)"
  "j \<noteq> i \<Longrightarrow> call_keeps (entry_is i b) (erase_entry j)"
  by (simp_all add: call_keeps_def entry_is_def nvs_commit_def put_entry_def erase_entry_def)

lemma put_entries:
  assumes "snd (nvs_run f k (map (\<lambda>i. put_entry i (t ! i)) [0..<m] @ map erase_entry [m..<l] @ [nvs_commit]) n) = ESP_OK"
    "i < m"
  shows "n_entry (fst (nvs_run f k (map (\<lambda>i. put_entry i (t ! i)) [0..<m] @ map erase_entry [m..<l] @ [nvs_commit]) n)) i
    = Some (Entry (t ! i))"
proof -
  let ?as = "map (\<lambda>i. put_entry i (t ! i)) [0..<Suc i]"
  let ?bs = "map (\<lambda>i. put_entry i (t ! i)) [Suc i..<m] @ map erase_entry [m..<l] @ [nvs_commit]"
  have "[0..<m] = [0..<Suc i] @ [Suc i..<m]"
    using assms(2) upt_add_eq_append [of 0 "Suc i" "m - Suc i"] by (simp only: le_add_diff_inverse Suc_leI le0)
  then have split: "map (\<lambda>i. put_entry i (t ! i)) [0..<m] @ map erase_entry [m..<l] @ [nvs_commit] = ?as @ ?bs"
    by (simp del: upt_Suc)
  note ab = nvs_run_ok_append [OF assms(1) [unfolded split]]
  have "?as = map (\<lambda>i. put_entry i (t ! i)) [0..<i] @ [put_entry i (t ! i)]" by simp
  then have last: "snd (nvs_run f k (map (\<lambda>i. put_entry i (t ! i)) [0..<i] @ [put_entry i (t ! i)]) n) = ESP_OK"
    "?as = map (\<lambda>i. put_entry i (t ! i)) [0..<i] @ [put_entry i (t ! i)]"
    using conjunct1 [OF ab] by simp_all
  have one: "n_entry (fst (nvs_run f j [put_entry i e] m)) i = Some (Entry e)" if "snd (nvs_run f j [put_entry i e] m) = ESP_OK"
    for j m e using that by (simp add: put_entry_def split: if_splits)
  have put: "n_entry (fst (nvs_run f k ?as n)) i = Some (Entry (t ! i))"
    unfolding last(2) conjunct2 [OF conjunct2 [OF nvs_run_ok_append [OF last(1)]]]
    by (rule one [OF conjunct1 [OF conjunct2 [OF nvs_run_ok_append [OF last(1)]]]])
  have "entry_is i (Some (Entry (t ! i))) (fst (nvs_run f (k + length ?as) ?bs (fst (nvs_run f k ?as n))))"
    by (rule nvs_run_keeps [where P = "entry_is i (Some (Entry (t ! i)))"])
      (use assms(2) put in \<open>auto simp: entry_is_def simp del: upt_Suc\<close>)
  then show ?thesis unfolding split conjunct2 [OF conjunct2 [OF ab]] by (simp only: entry_is_def)
qed

lemma load_entries_written:
  "(\<And>i. i \<in> set is \<Longrightarrow> entries i = Some (Entry (g i))) \<Longrightarrow>
   load_entries AMM_NVS_SCHEMA_VERSION entries is = Inl (map g is)"
  by (induction "is") (simp_all add: load_entry_def)

lemma stored_nvs: "am_nvs (s\<lparr>am_nvs := n\<rparr>) = n"
  by simp

lemma save_table_stored:
  assumes "snd (amm_save_table_to_nvs_unlocked f t s) = ESP_OK"
  defines "n \<equiv> am_nvs (fst (amm_save_table_to_nvs_unlocked f t s))"
  shows "n_count n = Some (int (length t))" "n_schema n = Some AMM_NVS_SCHEMA_VERSION"
    "n_poll_ms n = Some (am_default_poll_ms s)" "i < length t \<Longrightarrow> n_entry n i = Some (Entry (t ! i))"
    "length t \<le> am_capacity s"
proof -
  let ?h = "[nvs_open, Write (\<lambda>n. n\<lparr>n_count := Some (int (length t))\<rparr>),
    Write (\<lambda>n. n\<lparr>n_schema := Some AMM_NVS_SCHEMA_VERSION\<rparr>),
    Write (\<lambda>n. n\<lparr>n_poll_ms := Some (am_default_poll_ms s)\<rparr>)]"
  let ?b = "map (\<lambda>i. put_entry i (t ! i)) [0..<length t] @ map erase_entry [length t..<length (am_table s)] @ [nvs_commit]"
  have room: "am_capacity s \<noteq> 0" "length t \<le> am_capacity s"
    using assms(1) by (auto simp: amm_save_table_to_nvs_unlocked_def split: if_splits)
  then have e: "amm_save_table_to_nvs_unlocked f t s =
      (s\<lparr>am_nvs := fst (nvs_run f 0 (?h @ ?b) (am_nvs s))\<rparr>, snd (nvs_run f 0 (?h @ ?b) (am_nvs s)))"
    by (simp add: amm_save_table_to_nvs_unlocked_def Let_def split_beta del: nvs_run.simps)
  then have ok: "snd (nvs_run f 0 (?h @ ?b) (am_nvs s)) = ESP_OK" using assms(1) by simp
  note ab = nvs_run_ok_append [OF ok]
  let ?m = "fst (nvs_run f 0 ?h (am_nvs s))"
  have n: "n = fst (nvs_run f (0 + length ?h) ?b ?m)"
    unfolding n_def e fst_conv stored_nvs by (rule conjunct2 [OF conjunct2 [OF ab]])
  have "header_is (Some (int (length t))) (Some AMM_NVS_SCHEMA_VERSION) (Some (am_default_poll_ms s)) ?m"
    using conjunct1 [OF ab] by (simp add: header_is_def nvs_open_def split: if_splits)
  then have "header_is (Some (int (length t))) (Some AMM_NVS_SCHEMA_VERSION) (Some (am_default_poll_ms s)) n"
    unfolding n by (rule nvs_run_keeps [rotated]) auto
  then show "n_count n = Some (int (length t))" "n_schema n = Some AMM_NVS_SCHEMA_VERSION"
    "n_poll_ms n = Some (am_default_poll_ms s)" by (simp_all add: header_is_def)
  show "i < length t \<Longrightarrow> n_entry n i = Some (Entry (t ! i))"
    unfolding n by (rule put_entries [OF conjunct1 [OF conjunct2 [OF ab]]])
  show "length t \<le> am_capacity s" by (rule room(2))
qed

section \<open>Examples the witnesses use\<close>

definition empty_nvs :: amm_nvs where
  "empty_nvs = \<lparr>n_count = None, n_schema = None, n_poll_ms = None, n_entry = (\<lambda>_. None),
     n_rollback_count = None, n_rollback = None\<rparr>"

definition demo_entry :: amm_entry where
  "demo_entry = zero_mapping\<lparr>m_slave_id := 1, m_function_code := 3, m_register_address := 40001,
     m_device_id := ''meter'', m_point_id := ''voltage'', m_poll_interval_ms := 500,
     m_scale_factor := 0x3F800000, m_active := True\<rparr>"

definition demo_state :: "amm_entry list \<Rightarrow> amm_state" where
  "demo_state t = \<lparr>am_table = t, am_capacity = 64, am_default_poll_ms = 1000, am_model_version = 3,
     am_nvs = empty_nvs\<rparr>"

text \<open>
  C21. What a successful save of the table stores is what the next load reads: every entry
  comes back in its slot, with the defaults of a missing poll interval, a zero scale and a bad
  read window filled in, and so do the poll interval and the schema version.
\<close>

theorem saved_table_loads:
  assumes "snd (amm_save_to_nvs f s) = ESP_OK" "100 \<le> am_default_poll_ms s" "am_default_poll_ms s \<le> 3600000"
    "am_capacity b = am_capacity s"
  defines "r \<equiv> amm_load_from_nvs ESP_OK (am_nvs (fst (amm_save_to_nvs f s))) b"
  shows "am_table (fst r) = map (finish_entry (am_default_poll_ms s)) (am_table s) \<and>
    am_default_poll_ms (fst r) = am_default_poll_ms s \<and> snd r = (AMM_NVS_SCHEMA_VERSION, ESP_OK)"
proof -
  let ?n = "am_nvs (fst (amm_save_to_nvs f s))"
  note st = save_table_stored [OF assms(1) [unfolded amm_save_to_nvs_def], folded amm_save_to_nvs_def]
  have "load_entries AMM_NVS_SCHEMA_VERSION (n_entry ?n) [0..<length (am_table s)] = Inl (map ((!) (am_table s)) [0..<length (am_table s)])"
    by (rule load_entries_written) (simp add: st(4))
  then show ?thesis using assms(2-4) st(1-3,5)
    by (simp add: r_def amm_load_from_nvs_def map_nth Let_def)
qed


lemma saved_table_loads_witness:
  "am_table (fst (amm_load_from_nvs ESP_OK
     (am_nvs (fst (amm_save_to_nvs (\<lambda>_. ESP_OK) (demo_state [demo_entry])))) (demo_state []))) =
   [finish_entry 1000 demo_entry]"
  using saved_table_loads [of "\<lambda>_. ESP_OK" "demo_state [demo_entry]" "demo_state []"]
  by (simp add: amm_save_to_nvs_def amm_save_table_to_nvs_unlocked_def Let_def nvs_open_def nvs_commit_def put_entry_def
      demo_state_def)

section \<open>Edits and lookups\<close>

lemma demo_inv: "amm_inv (demo_state [])" "amm_inv (demo_state [demo_entry])"
  by (simp_all add: amm_inv_def amm_ok_def unique_active_def rollback_ok_def demo_state_def empty_nvs_def)

text \<open>
  C1. Whatever calls change the table (additions, updates in place, removals, imports, rollbacks,
  changes of the poll interval), in whatever order, whatever NVS call of them fails: as long as
  no update in place moves a slot onto the point another active slot holds - the one thing the
  code does not check, in a function no other part of the firmware calls - no two active slots
  hold the same physical point and the table stays within its capacity.
\<close>

theorem amm_points_unique:
  assumes "amm_inv s" "\<And>as c bs. cs = as @ c # bs \<Longrightarrow> \<not> takes_held_point c (amm_run as s)"
  defines "t \<equiv> amm_run cs s"
  shows "length (am_table t) \<le> am_capacity t \<and>
    (\<forall>i j. i < length (am_table t) \<longrightarrow> j < length (am_table t) \<longrightarrow> m_active (am_table t ! i) \<longrightarrow>
       m_active (am_table t ! j) \<longrightarrow> point_key (am_table t ! i) = point_key (am_table t ! j) \<longrightarrow> i = j)"
proof -
  have "amm_inv t" unfolding t_def by (rule amm_run_inv) (fact assms(1), rule assms(2))
  then show ?thesis unfolding amm_inv_def amm_ok_def unique_active_def by blast
qed

lemma amm_points_unique_witness:
  "length (am_table (amm_run [Call_update (saving (\<lambda>_. ESP_OK)) 0 (demo_entry\<lparr>m_slave_id := 9\<rparr>),
     Call_add (saving (\<lambda>_. ESP_FAIL)) demo_entry] (demo_state [demo_entry]))) \<le> 64"
proof -
  let ?cs = "[Call_update (saving (\<lambda>_. ESP_OK)) 0 (demo_entry\<lparr>m_slave_id := 9\<rparr>), Call_add (saving (\<lambda>_. ESP_FAIL)) demo_entry]"
  have free: "\<not> takes_held_point c (amm_run as (demo_state [demo_entry]))" if "?cs = as @ c # bs" for as c bs
    using that by (auto simp: Cons_eq_append_conv demo_state_def)
  have c: "am_capacity (amm_run ?cs (demo_state [demo_entry])) = 64"
    by (simp add: add_mapping_effect amm_update_mapping_def Let_def split_beta demo_state_def)
  have "length (am_table (amm_run ?cs (demo_state [demo_entry]))) \<le> am_capacity (amm_run ?cs (demo_state [demo_entry]))"
    using amm_points_unique [OF demo_inv(2), of ?cs] free by blast
  then show ?thesis unfolding c .
qed

text \<open>
  After an addition that is carried out, the lookup of the point returns the entry as the
  caller gave it, active, with its poll interval and read window filled in and the next model
  version, and the lookup of every other point returns what it did before; when the rollback
  image cannot be saved or there is no room, no lookup changes.
\<close>

theorem add_then_find:
  assumes "amm_ok s"
  shows "amm_find_mapping_for_object k (fst (amm_add_mapping env (Some e) s)) =
    (if (target_slot e s \<noteq> None \<or> length (am_table s) < am_capacity s) \<and> am_capacity s \<noteq> 0 \<and>
        snd (amm_save_rollback_unlocked (ae_rollback env) s) \<in> {ESP_OK, ESP_ERR_NOT_FOUND, ESP_ERR_NOT_SUPPORTED} \<and>
        k = point_key e
     then Some ((amm_normalize_read_window (default_poll s (e\<lparr>m_active := True\<rparr>)))\<lparr>m_mapping_version := am_model_version s + 1\<rparr>)
     else amm_find_mapping_for_object k s)"
  using add_mapping_lookup [OF assms, of k env e]
  by (auto simp: has_room_def amm_snapshot_permits_mutation_def prepare_entry_def split: if_splits)

lemma add_then_find_witness:
  "amm_find_mapping_for_object (point_key demo_entry)
     (fst (amm_add_mapping (saving (\<lambda>_. ESP_OK)) (Some demo_entry) (demo_state []))) = Some (prepare_entry (demo_state []) demo_entry)"
proof -
  have "amm_ok (demo_state [])" using demo_inv by (simp add: amm_inv_def)
  from add_then_find [OF this, of "point_key demo_entry" "saving (\<lambda>_. ESP_OK)" demo_entry]
  show ?thesis by (simp add: demo_state_def amm_save_rollback_unlocked_def prepare_entry_def)
qed

text \<open>
  Over any batch of additions that ends with a point already in the table, the lookup of
  that point gives the last entry stored for it, and points the batch does not mention keep
  theirs.
\<close>

theorem batch_last_add_wins:
  assumes "amm_ok s" "amm_find_mapping_for_object (point_key e) s \<noteq> None" "k \<notin> point_key ` set (es @ [e])"
  shows "(\<exists>t. amm_find_mapping_for_object (point_key e) (fold (add_to f) (es @ [e]) s) = Some (prepare_entry t e)) \<and>
    amm_find_mapping_for_object k (fold (add_to f) (es @ [e]) s) = amm_find_mapping_for_object k s"
  using amm.last_store_wins [OF assms(1,2), where us = es] amm.lookup_fold_other [OF assms(1,3)] by blast

lemma batch_last_add_wins_witness:
  "\<exists>t. amm_find_mapping_for_object (point_key demo_entry)
     (fold (add_to (\<lambda>_. ESP_FAIL)) [demo_entry\<lparr>m_slave_id := 9\<rparr>, demo_entry] (demo_state [demo_entry])) = Some (prepare_entry t demo_entry)"
proof -
  have ok: "amm_ok (demo_state [demo_entry])" using demo_inv by (simp add: amm_inv_def)
  have "amm_find_mapping_for_object (point_key demo_entry) (demo_state [demo_entry]) \<noteq> None"
    "(SRC_MODBUS_TCP, 0, 0, 0, 0) \<notin> point_key ` set ([demo_entry\<lparr>m_slave_id := 9\<rparr>] @ [demo_entry])"
    by (simp_all add: amm_find_mapping_for_object_def lookup_active_def find_active_def demo_state_def demo_entry_def
        point_key_def zero_mapping_def)
  from batch_last_add_wins [OF ok this] show ?thesis by simp
qed

text \<open>
  The read window an entry is given always holds the registers of its point, is within the
  64 registers of one read unless the point itself is wider, and is left alone by a second
  normalisation, which changes neither the point nor its type.
\<close>

theorem read_window_holds_point:
  "unat (m_value_register_index (amm_normalize_read_window e)) + point_width (amm_normalize_read_window e)
     \<le> unat (m_read_register_count (amm_normalize_read_window e)) \<and>
   unat (m_read_register_count (amm_normalize_read_window e)) \<le> max AMM_MAX_READ_REGISTERS (point_width e) \<and>
   amm_normalize_read_window (amm_normalize_read_window e) = amm_normalize_read_window e \<and>
   point_key (amm_normalize_read_window e) = point_key e \<and>
   m_data_type (amm_normalize_read_window e) = m_data_type e"
  using normalize_covers [of e] normalize_read_limit [of e] normalize_idem [of e] by (simp add: window_covers_def)

text \<open>
  C11. An import that fails, at whatever check or NVS call, leaves the table, its version and
  so every lookup as they were, and reports that nothing was imported.
\<close>

theorem import_all_or_nothing:
  assumes "fst (snd (amm_import_mappings env alloc es r s)) \<noteq> ESP_OK"
  shows "am_table (fst (amm_import_mappings env alloc es r s)) = am_table s \<and>
    am_model_version (fst (amm_import_mappings env alloc es r s)) = am_model_version s \<and>
    amm_find_mapping_for_object k (fst (amm_import_mappings env alloc es r s)) = amm_find_mapping_for_object k s \<and>
    snd (snd (amm_import_mappings env alloc es r s)) = 0"
  using import_fail [OF assms] find_point_cong by blast

lemma import_all_or_nothing_witness:
  "am_table (fst (amm_import_mappings (saving (\<lambda>_. ESP_FAIL)) True (Some [demo_entry\<lparr>m_slave_id := 9\<rparr>]) True
     (demo_state [demo_entry]))) = [demo_entry]"
  using import_all_or_nothing [of "saving (\<lambda>_. ESP_FAIL)" True "Some [demo_entry\<lparr>m_slave_id := 9\<rparr>]" True "demo_state [demo_entry]"]
  by (simp add: import_mappings_unfold import_locked_def amm_save_table_to_nvs_unlocked_def nvs_open_def saving_def
      Let_def split_beta demo_state_def demo_entry_def amm_save_rollback_unlocked_def nvs_commit_def
      import_invalid_def kept_entries_def find_slot_None amm_same_physical_point_def
      prepare_import_def zero_mapping_def amm_snapshot_permits_mutation_def amm_import_contains_device_def)

text \<open>
  C13. A successful import leaves a table of distinct active points, exactly those imported and
  those kept: the kept ones that are not imported unchanged, each imported one prepared from
  one of its entries in the import.
\<close>

theorem import_content:
  assumes "amm_ok s" "fst (snd (amm_import_mappings env alloc (Some es) r s)) = ESP_OK"
  defines "t \<equiv> am_table (fst (amm_import_mappings env alloc (Some es) r s))"
  shows "distinct (map point_key t) \<and> list_all m_active t \<and> length t \<le> am_capacity s \<and>
    point_key ` set t = point_key ` set (kept_entries es r s) \<union> point_key ` set es \<and>
    (\<forall>x \<in> set t. (x \<in> set (kept_entries es r s) \<and> point_key x \<notin> point_key ` set es) \<or>
       (\<exists>v. \<exists>e \<in> set es. x = prepare_import v s e))"
proof -
  obtain xs where x: "Some es = Some xs" "all_distinct t" "length t \<le> am_capacity s"
    "keys_of t = keys_of (kept_entries xs r s) \<union> keys_of xs"
    "\<forall>x \<in> set t. (x \<in> set (kept_entries xs r s) \<and> point_key x \<notin> keys_of xs) \<or>
       (\<exists>ver. \<exists>e \<in> set xs. x = prepare_import ver s e)"
    unfolding t_def using import_table [OF assms(1,2)] by metis
  then show ?thesis by (simp add: keys_of_def all_distinct_def list_all_iff)
qed

lemma demo_import:
  "amm_import_mappings (saving (\<lambda>_. ESP_OK)) True (Some [demo_entry]) r (demo_state [])
   = (fst (amm_import_mappings (saving (\<lambda>_. ESP_OK)) True (Some [demo_entry]) r (demo_state [])), ESP_OK, 1)"
  "am_table (fst (amm_import_mappings (saving (\<lambda>_. ESP_OK)) True (Some [demo_entry]) r (demo_state []))) =
    [prepare_import 4 (demo_state []) demo_entry]"
  by (simp_all add: import_mappings_unfold import_locked_def amm_save_table_to_nvs_unlocked_def nvs_open_def saving_def
      Let_def split_beta demo_state_def demo_entry_def amm_save_rollback_unlocked_def nvs_commit_def
      import_invalid_def kept_entries_def put_entry_def
      prepare_import_def zero_mapping_def amm_snapshot_permits_mutation_def)

lemma import_content_witness:
  "point_key ` set (am_table (fst (amm_import_mappings (saving (\<lambda>_. ESP_OK)) True (Some [demo_entry]) True (demo_state []))))
   = {point_key demo_entry}"
proof -
  have ok: "amm_ok (demo_state [])" using demo_inv by (simp add: amm_inv_def)
  have "fst (snd (amm_import_mappings (saving (\<lambda>_. ESP_OK)) True (Some [demo_entry]) True (demo_state []))) = ESP_OK"
    by (subst demo_import) simp
  from import_content [OF ok this] show ?thesis by (simp add: kept_entries_def demo_state_def)
qed

text \<open>
  What the user set up survives the import of a profile: if an active point whose semantics
  came from the user is imported again, its slot keeps the user's type, byte order, scaling,
  poll interval, range and topic, whatever the imported entry says.
\<close>

theorem import_keeps_user_semantics:
  assumes "amm_ok s" "fst (snd (amm_import_mappings env alloc (Some es) r s)) = ESP_OK"
    "u \<in> set (am_table s)" "m_active u" "m_semantic_source u = SEMANTIC_SOURCE_USER"
    "point_key u \<in> point_key ` set es"
  shows "\<exists>x \<in> set (am_table (fst (amm_import_mappings env alloc (Some es) r s))). point_key x = point_key u \<and>
    m_active x \<and> m_semantic_source x = SEMANTIC_SOURCE_USER \<and>
    m_data_type x = m_data_type u \<and> m_byte_order x = m_byte_order u \<and> m_scale_factor x = m_scale_factor u \<and>
    m_offset x = m_offset u \<and> m_poll_interval_ms x = m_poll_interval_ms u \<and> m_constraint x = m_constraint u \<and>
    m_mqtt_topic_mode x = m_mqtt_topic_mode u \<and> m_mqtt_topic x = strlcpy 128 (m_mqtt_topic u) \<and>
    m_device_id x = strlcpy 32 (m_device_id u) \<and> m_point_id x = strlcpy 32 (m_point_id u)"
proof -
  let ?t = "am_table (fst (amm_import_mappings env alloc (Some es) r s))"
  obtain xs where x: "Some es = Some xs" "keys_of ?t = keys_of (kept_entries xs r s) \<union> keys_of xs"
    "\<forall>x \<in> set ?t. (x \<in> set (kept_entries xs r s) \<and> point_key x \<notin> keys_of xs) \<or>
       (\<exists>ver. \<exists>e \<in> set xs. x = prepare_import ver s e)"
    using import_table [OF assms(1,2)] by metis
  have "point_key u \<in> keys_of ?t" using x(1,2) assms(6) by (simp add: keys_of_def)
  then obtain y where y: "y \<in> set ?t" "point_key y = point_key u" by (auto simp: keys_of_def)
  obtain ver e where e: "y = prepare_import ver s e"
    using bspec [OF x(3) y(1)] y(2) x(1) assms(6) by (auto simp: keys_of_def)
  let ?P = "\<lambda>c. m_active c \<and> m_semantic_source c = SEMANTIC_SOURCE_USER \<and> point_key c = point_key e"
  have "?P u" using y(2) assms(4,5) by (simp add: e)
  have "List.find ?P (am_table s) = Some u"
  proof -
    obtain c where c: "List.find ?P (am_table s) = Some c"
      using \<open>?P u\<close> assms(3) by (cases "List.find ?P (am_table s)") (auto simp: find_None_iff)
    then have "c \<in> set (am_table s)" "?P c" by (auto simp: find_Some_iff)
    moreover have "c = u"
    proof -
      obtain i j where "i < length (am_table s)" "am_table s ! i = c" "j < length (am_table s)" "am_table s ! j = u"
        using \<open>c \<in> set (am_table s)\<close> assms(3) by (metis in_set_conv_nth)
      moreover have "unique_active (am_table s)" using assms(1) by (simp add: amm_ok_def)
      ultimately show ?thesis using unique_activeD [of "am_table s" i j] \<open>?P c\<close> \<open>?P u\<close> by auto
    qed
    ultimately show ?thesis using c by simp
  qed
  then have "\<exists>z. y = amm_overlay_user_semantics u z"
    by (auto simp: e prepare_import_def Let_def same_point_key)
  moreover have "m_active y" using e by simp
  ultimately show ?thesis using y assms(5) by (intro bexI [of _ y]) (auto simp: amm_overlay_user_semantics_def)
qed


definition user_entry :: amm_entry where
  "user_entry = demo_entry\<lparr>m_semantic_source := SEMANTIC_SOURCE_USER, m_data_type := DT_FLOAT32, m_unit := ''V''\<rparr>"

lemma import_keeps_user_semantics_witness:
  "\<exists>x \<in> set (am_table (fst (amm_import_mappings (saving (\<lambda>_. ESP_OK)) True (Some [demo_entry]) True (demo_state [user_entry])))).
     m_data_type x = DT_FLOAT32"
proof -
  have ok: "amm_ok (demo_state [user_entry])" by (simp add: amm_ok_def unique_active_def demo_state_def)
  have "fst (snd (amm_import_mappings (saving (\<lambda>_. ESP_OK)) True (Some [demo_entry]) True (demo_state [user_entry]))) = ESP_OK"
    by (simp add: import_mappings_unfold import_locked_def amm_save_table_to_nvs_unlocked_def nvs_open_def saving_def
      Let_def split_beta demo_state_def demo_entry_def amm_save_rollback_unlocked_def nvs_commit_def
      import_invalid_def kept_entries_def put_entry_def user_entry_def amm_import_contains_device_def
      prepare_import_def zero_mapping_def amm_snapshot_permits_mutation_def)
  from import_keeps_user_semantics [OF ok this, of user_entry] show ?thesis
    by (auto simp: demo_state_def user_entry_def demo_entry_def point_key_def)
qed

section \<open>Rollback\<close>

lemma save_rollback_image:
  assumes "am_table s \<noteq> []" "length (am_table s) \<le> AMM_ROLLBACK_MAX_ENTRIES"
  shows "rollback_is (Some (int (length (am_table s)))) (Some (am_table s))
      (am_nvs (fst (amm_save_rollback_unlocked (\<lambda>_. ESP_OK) s)))"
    "snd (amm_save_rollback_unlocked (\<lambda>_. ESP_OK) s) = ESP_OK"
  using assms by (auto simp: amm_save_rollback_unlocked_def nvs_open_def nvs_commit_def rollback_is_def)

lemma save_table_rollback_count [simp]:
  "n_rollback_count (am_nvs (fst (amm_save_table_to_nvs_unlocked f t s))) = n_rollback_count (am_nvs s)"
proof -
  have "rollback_is (n_rollback_count (am_nvs s)) (n_rollback (am_nvs s))
      (am_nvs (fst (amm_save_table_to_nvs_unlocked f t s)))"
    by (simp add: amm_save_table_to_nvs_unlocked_def Let_def rollback_is_self split_beta del: nvs_run.simps)
      (rule impI, rule nvs_run_keeps, auto simp: rollback_is_self)
  then show ?thesis by (simp add: rollback_is_def)
qed

lemma edit_fields [simp]:
  "am_nvs (set_entry i e s) = am_nvs s" "am_nvs (append_entry e s) = am_nvs s"
  by (simp_all add: set_entry_def append_entry_def)

text \<open>The edits that first save the image.\<close>

inductive edit :: "(nat \<Rightarrow> esp_err) \<Rightarrow> amm_state \<Rightarrow> amm_state \<Rightarrow> bool" for f where
  edit_add: "am_capacity s \<noteq> 0 \<Longrightarrow> edit f s (fst (amm_add_mapping (saving f) (Some e) s))"
| edit_update: "snd (amm_update_mapping (saving f) i (Some e) s) = ESP_OK \<Longrightarrow>
    edit f s (fst (amm_update_mapping (saving f) i (Some e) s))"
| edit_remove: "find_active P s \<noteq> None \<Longrightarrow> edit f s (fst (deactivate (saving f) P s))"
| edit_poll: "100 \<le> ms \<Longrightarrow> ms \<le> 3600000 \<Longrightarrow> edit f s (fst (amm_set_poll_interval_all (saving f) ms s))"
| edit_import: "fst (snd (amm_import_mappings (saving f) True (Some es) r s)) = ESP_OK \<Longrightarrow>
    edit f s (fst (amm_import_mappings (saving f) True (Some es) r s))"

lemma edit_image:
  assumes "edit f s t" "am_table s \<noteq> []" "length (am_table s) \<le> AMM_ROLLBACK_MAX_ENTRIES"
  shows "rollback_is (Some (int (length (am_table s)))) (Some (am_table s)) (am_nvs t) \<and> am_capacity t = am_capacity s"
proof -
  let ?r = "amm_save_rollback_unlocked (\<lambda>_. ESP_OK) s"
  have r: "snd ?r = ESP_OK" "n_rollback (am_nvs (fst ?r)) = Some (am_table s)"
    "n_rollback_count (am_nvs (fst ?r)) = Some (int (length (am_table s)))"
    using save_rollback_image [OF assms(2,3)] by (simp_all add: rollback_is_def)
  show ?thesis using assms(1)
  proof cases
    case (edit_add e)
    then show ?thesis using r by (auto simp: amm_add_mapping_def saving_def Let_def split_beta rollback_is_def
      amm_snapshot_permits_mutation_def split: option.split)
  next
    case (edit_update i e)
    then show ?thesis using r by (auto simp: amm_update_mapping_def saving_def Let_def split_beta rollback_is_def
      amm_snapshot_permits_mutation_def)
  next
    case (edit_remove P)
    then show ?thesis using r by (auto simp: deactivate_def saving_def Let_def split_beta rollback_is_def
      amm_snapshot_permits_mutation_def)
  next
    case (edit_poll ms)
    then show ?thesis using r by (auto simp: amm_set_poll_interval_all_def amm_save_to_nvs_def saving_def Let_def
      split_beta rollback_is_def amm_snapshot_permits_mutation_def)
  next
    case (edit_import es rr)
    then show ?thesis using r by (auto simp: import_mappings_unfold import_locked_def saving_def Let_def
      split_beta rollback_is_def amm_snapshot_permits_mutation_def split: sum.splits if_splits)
  qed
qed

text \<open>
  A rollback after an edit brings back the table as it was before it, up to the version
  stamp of its entries: every addition, update, removal, poll change and import that went
  through saves the image first, whatever happens to its own save, for tables within the
  image limit.
\<close>

theorem rollback_undoes_edit:
  assumes "edit f s t" "am_table s \<noteq> []" "length (am_table s) \<le> AMM_ROLLBACK_MAX_ENTRIES"
    "length (am_table s) \<le> am_capacity s"
  shows "amm_can_rollback True t \<and>
    am_table (fst (amm_rollback ESP_OK True ESP_OK g t)) =
      map (\<lambda>e. e\<lparr>m_mapping_version := am_model_version t + 1\<rparr>) (am_table s)"
  using edit_image [OF assms(1-3)] assms(2,4)
  by (simp add: rollback_is_def amm_can_rollback_def amm_rollback_def amm_save_to_nvs_def Let_def)

lemma rollback_undoes_edit_witness:
  "am_table (fst (amm_rollback ESP_OK True ESP_OK (\<lambda>_. ESP_OK)
     (fst (amm_add_mapping (saving (\<lambda>_. ESP_FAIL)) (Some (demo_entry\<lparr>m_unit := ''A''\<rparr>)) (demo_state [demo_entry])))))
   = [demo_entry\<lparr>m_mapping_version := 5\<rparr>]"
proof -
  have "edit (\<lambda>_. ESP_FAIL) (demo_state [demo_entry])
      (fst (amm_add_mapping (saving (\<lambda>_. ESP_FAIL)) (Some (demo_entry\<lparr>m_unit := ''A''\<rparr>)) (demo_state [demo_entry])))"
    by (rule edit_add) (simp add: demo_state_def)
  from rollback_undoes_edit [OF this, of "\<lambda>_. ESP_OK"] show ?thesis
    using saving_permits [of "\<lambda>_. ESP_FAIL" "demo_state [demo_entry]"]
    by (simp add: add_mapping_effect has_room_def) (simp add: demo_state_def target_slot_def find_active_def
      point_key_def demo_entry_def)
qed

section \<open>Two edits that break the table\<close>

text \<open>
  An update in place does not check that the point it moves its slot to is free: moved
  onto the point of another active slot, it succeeds and leaves two active slots for one
  physical point, whatever NVS does.
\<close>

theorem update_duplicates_point:
  fixes f :: "nat \<Rightarrow> esp_err"
  assumes "i < length (am_table s)" "j < length (am_table s)" "i \<noteq> j"
    "m_active (am_table s ! i)" "m_active (am_table s ! j)" "length (am_table s) \<le> am_capacity s"
    "point_key e = point_key (am_table s ! j)"
  defines "t \<equiv> fst (amm_update_mapping (saving f) (int i) (Some e) s)"
  shows "m_active (am_table t ! i) \<and> m_active (am_table t ! j) \<and>
    point_key (am_table t ! i) = point_key (am_table t ! j)"
proof -
  have "am_table t = (am_table s)[i := prepare_entry s e]"
    unfolding t_def using assms(1,4,6) saving_permits [of f s]
    by (simp add: amm_update_mapping_def Let_def split_beta saving_def)
  then show ?thesis using assms by simp
qed

lemma update_duplicates_point_witness:
  "\<not> unique_active (am_table (fst (amm_update_mapping (saving (\<lambda>_. ESP_OK)) 0 (Some (demo_entry\<lparr>m_slave_id := 9\<rparr>))
     (demo_state [demo_entry, demo_entry\<lparr>m_slave_id := 9\<rparr>]))))" (is "\<not> unique_active (am_table ?t)")
proof -
  have l: "length (am_table ?t) = 2"
    using saving_permits [of "\<lambda>_. ESP_OK" "demo_state [demo_entry, demo_entry\<lparr>m_slave_id := 9\<rparr>]"]
    by (simp add: amm_update_mapping_def Let_def split_beta demo_state_def demo_entry_def)
  have "m_active (am_table ?t ! 0) \<and> m_active (am_table ?t ! 1) \<and> point_key (am_table ?t ! 0) = point_key (am_table ?t ! 1)"
    using update_duplicates_point [of 0 "demo_state [demo_entry, demo_entry\<lparr>m_slave_id := 9\<rparr>]" 1
        "demo_entry\<lparr>m_slave_id := 9\<rparr>" "\<lambda>_. ESP_OK"]
    by (simp add: demo_state_def demo_entry_def)
  then show ?thesis using l unique_activeD [of "am_table ?t" 0 1] by auto
qed

text \<open>
  A failed write can cost the whole table: the count is stored before the entry, so when
  an addition grows the table and only the write of its entry fails, the next start finds a
  count with an entry missing, gives up the load and, with nothing in the older partition,
  keeps and stores an empty table.
\<close>

theorem failed_add_empties_table:
  assumes "target_slot e s = None" "length (am_table s) < am_capacity s"
    "n_entry (am_nvs s) (length (am_table s)) = None"
    "f 0 = ESP_OK" "f 1 = ESP_OK" "f 2 = ESP_OK" "f 3 \<noteq> ESP_OK"
    "boot_capacity env = am_capacity s" "ab_partition env = ESP_OK" "ab_open env = ESP_OK"
    "ab_open_legacy env \<noteq> ESP_OK" "ab_save env = (\<lambda>_. ESP_OK)"
  defines "t \<equiv> fst (amm_add_mapping (saving f) (Some e) s)"
  shows "snd (amm_add_mapping (saving f) (Some e) s) \<noteq> ESP_OK \<and>
    am_table (amm_init env t) = [] \<and> n_count (am_nvs (amm_init env t)) = Some 0"
proof -
  let ?r = "fst (amm_save_rollback_unlocked (\<lambda>_. ESP_OK) s)"
  have r: "n_entry (am_nvs ?r) = n_entry (am_nvs s)"
    by (auto simp: amm_save_rollback_unlocked_def nvs_open_def nvs_commit_def Let_def)
  have n: "find_active (\<lambda>t. point_key t = point_key e) s = None" "find_slot (\<lambda>t. \<not> m_active t) (am_table s) = None"
    using assms(1) by (auto simp: target_slot_def split: option.splits)
  have a: "amm_add_mapping (saving f) (Some e) s =
      amm_save_entry_to_nvs_unlocked f (length (am_table s)) (append_entry (prepare_entry s e) ?r)"
    using assms(2) n saving_permits [of f s]
    by (simp add: amm_add_mapping_def Let_def split_beta saving_def)
  have f: "f (Suc 0) = ESP_OK" "f (Suc (Suc 0)) = ESP_OK" "f (Suc (Suc (Suc 0))) \<noteq> ESP_OK"
    using assms(5-7) by (simp_all add: numeral_2_eq_2 numeral_3_eq_3)
  have w: "snd (amm_add_mapping (saving f) (Some e) s) \<noteq> ESP_OK"
    "n_count (am_nvs t) = Some (int (Suc (length (am_table s))))" "n_entry (am_nvs t) = n_entry (am_nvs s)"
    unfolding t_def a using assms(4) f r
    by (simp_all add: amm_save_entry_to_nvs_unlocked_def nvs_open_def put_entry_def Let_def)
  have bad: "\<exists>x. load_entries sch en (xs @ [i]) = Inr x \<and> x \<noteq> ESP_OK" if "en i = None" for sch en i and xs :: "nat list"
    using that by (induction xs) (auto simp: load_entry_def split: option.splits sum.splits amm_blob.splits)
  obtain x where x: "load_entries (case n_schema (am_nvs t) of None \<Rightarrow> 0 | Some v \<Rightarrow> v) (n_entry (am_nvs s))
      ([0..<length (am_table s)] @ [length (am_table s)]) = Inr x" "x \<noteq> ESP_OK"
    using bad [of "n_entry (am_nvs s)" "length (am_table s)", OF assms(3)] by metis
  have u: "nat (1 + int (length (am_table s))) = Suc (length (am_table s))" by simp
  have ld: "am_table (fst (amm_load_from_nvs ESP_OK (am_nvs t) v)) = [] \<and>
      snd (snd (amm_load_from_nvs ESP_OK (am_nvs t) v)) \<noteq> ESP_OK \<and>
      am_capacity (fst (amm_load_from_nvs ESP_OK (am_nvs t) v)) = am_capacity v \<and>
      am_nvs (fst (amm_load_from_nvs ESP_OK (am_nvs t) v)) = am_nvs v" if "am_capacity v = am_capacity s" for v
    using that w(2,3) x assms(2) by (simp add: amm_load_from_nvs_def Let_def u)
  show ?thesis using w(1) ld assms(2,8-12)
    by (simp add: amm_init_def Let_def split_beta amm_load_from_nvs_def [of "ab_open_legacy env"]
      amm_save_to_nvs_def amm_initialize_empty_def nvs_open_def nvs_commit_def amm_save_table_to_nvs_unlocked_def)
qed


definition demo_boot :: amm_boot where
  "demo_boot = \<lparr>ab_psram = False, ab_psram_alloc = False, ab_internal_alloc = True, ab_partition = ESP_OK,
     ab_open = ESP_OK, ab_open_legacy = ESP_ERR_NVS_NOT_FOUND, ab_legacy_nvs = empty_nvs,
     ab_save_migrated = (\<lambda>_. ESP_OK), ab_save = (\<lambda>_. ESP_OK)\<rparr>"

lemma failed_add_empties_table_witness:
  "am_table (amm_init demo_boot (fst (amm_add_mapping (saving (\<lambda>k. if k = 3 then ESP_FAIL else ESP_OK))
     (Some (demo_entry\<lparr>m_slave_id := 9\<rparr>)) (demo_state [demo_entry])))) = []"
proof -
  have "target_slot (demo_entry\<lparr>m_slave_id := 9\<rparr>) (demo_state [demo_entry]) = None"
    by (simp add: target_slot_def find_active_def demo_state_def demo_entry_def point_key_def)
  from failed_add_empties_table [OF this, of "\<lambda>k. if k = 3 then ESP_FAIL else ESP_OK" demo_boot]
  show ?thesis by (simp add: demo_state_def demo_boot_def empty_nvs_def boot_capacity_def)
qed

end
