(* ===== verification/Amm_Semantics.thy ===== *)
theory Amm_Semantics
  imports Amm_Mapping
begin

text \<open>
  What the mapping model says about a context or a command (\<open>amm/amm_mapping.c\<close>): the
  enrichment of a raw reading with the semantics of its point, the validation of a write
  command, and the MQTT topic of a point. \<open>%.4f\<close> is a parameter.
\<close>

section \<open>Enrichment\<close>

text \<open>The value in engineering units: \<open>raw * scale_factor + offset\<close> in double precision.\<close>

definition engineering_value :: "f64 \<Rightarrow> amm_entry \<Rightarrow> f64" where
  "engineering_value raw e = f64_add (f64_mul raw (f64_of_f32 (m_scale_factor e))) (f64_of_f32 (m_offset e))"

definition amm_enrich_context :: "tcm_context option \<Rightarrow> amm_state \<Rightarrow> tcm_context option \<times> esp_err" where
  "amm_enrich_context context s =
     (case context of
        None \<Rightarrow> (None, ESP_ERR_INVALID_ARG)
      | Some ctx \<Rightarrow>
          (case amm_find_mapping_for_object (c_source_protocol ctx, c_channel_id ctx, c_slave_id ctx,
                   c_function_code ctx, c_register_address ctx) s of
             None \<Rightarrow> (Some ctx, ESP_ERR_NOT_FOUND)
           | Some e \<Rightarrow>
               (let ctx = ctx\<lparr>c_device_id := strlcpy 32 (m_device_id e),
                      c_point_id := strlcpy 32 (m_point_id e),
                      c_measurement_name := strlcpy 32 (m_measurement_name e),
                      c_unit := strlcpy 16 (m_unit e),
                      c_constraint := m_constraint e,
                      c_source_protocol := m_source_protocol e,
                      c_channel_id := m_channel_id e,
                      c_data_type := m_data_type e,
                      c_byte_order := m_byte_order e,
                      c_scale_factor := m_scale_factor e,
                      c_offset := m_offset e,
                      c_mapping_version := m_mapping_version e,
                      c_object_type := m_object_type e,
                      c_semantic_source := m_semantic_source e,
                      c_semantic_status := m_semantic_status e,
                      c_semantic_profile_id := strlcpy 32 (m_semantic_profile_id e),
                      c_semantic_profile_version := m_semantic_profile_version e,
                      c_semantic_confidence := m_semantic_confidence e,
                      c_semantic_evidence := strlcpy 48 (m_semantic_evidence e),
                      c_gateway_property_key := strlcpy 64 (m_gateway_property_key e)\<rparr>;
                    ctx = ctx\<lparr>c_raw_value := c_value ctx\<rparr>
                in (Some (ctx\<lparr>c_value := engineering_value (c_raw_value ctx) e\<rparr>), ESP_OK))))"

section \<open>Command validation\<close>

text \<open>The verdict; the matched entry is the index of its slot.\<close>

record amm_validation =
  vr_accepted :: bool
  vr_reason :: string
  vr_matched :: "nat option"

definition data_type_code :: "data_type \<Rightarrow> nat" where
  "data_type_code dt =
     (case dt of DT_INT16 \<Rightarrow> 0 | DT_UINT16 \<Rightarrow> 1 | DT_FLOAT32 \<Rightarrow> 2 | DT_INT32 \<Rightarrow> 3 | DT_UINT32 \<Rightarrow> 4
      | DT_BOOL \<Rightarrow> 5 | DT_INT64 \<Rightarrow> 6 | DT_UINT64 \<Rightarrow> 7 | DT_FLOAT64 \<Rightarrow> 8 | DT_BCD16 \<Rightarrow> 9
      | DT_BITFIELD16 \<Rightarrow> 10 | DT_ASCII \<Rightarrow> 11)"

definition amm_validate_command :: "(f32 \<Rightarrow> string) \<Rightarrow> tcm_context \<Rightarrow> amm_state \<Rightarrow> amm_validation" where
  "amm_validate_command fmt4 cmd s =
     (let reject = (\<lambda>matched why. \<lparr>vr_accepted = False, vr_reason = strlcpy 128 why, vr_matched = matched\<rparr>) in
      case amm_find_mapping (c_slave_id cmd) (c_register_address cmd) s of
        None \<Rightarrow> reject None (''No mapping entry for slave='' @ dec (unat (c_slave_id cmd)) @
                  '' reg='' @ dec (unat (c_register_address cmd)))
      | Some i \<Rightarrow>
          (let entry = am_table s ! i;
               point = CHR 0x27 # m_device_id entry @ ''/'' @ m_point_id entry @ [CHR 0x27] in
           if c_function_code cmd \<noteq> 5 \<and> c_function_code cmd \<noteq> 6 \<and>
              c_function_code cmd \<noteq> 15 \<and> c_function_code cmd \<noteq> 16
           then reject (Some i) (''Invalid write function code '' @ dec (unat (c_function_code cmd)) @
                  '' (expected 5/6/15/16)'')
           else if \<not> writable (m_constraint entry)
           then reject (Some i) (''Point '' @ point @ '' is read-only'')
           else if c_data_type cmd \<noteq> m_data_type entry
           then reject (Some i) (''Data type mismatch: cmd='' @ dec (data_type_code (c_data_type cmd)) @
                  '' expected='' @ dec (data_type_code (m_data_type entry)) @ '' for '' @ point)
           else
             let cmd_value = f32_of_f64 (c_value cmd) in
             if f32_lt cmd_value (valid_range_min (m_constraint entry)) \<or>
                f32_lt (valid_range_max (m_constraint entry)) cmd_value
             then reject (Some i) (''Value '' @ fmt4 cmd_value @ '' out of range ['' @
                    fmt4 (valid_range_min (m_constraint entry)) @ '', '' @
                    fmt4 (valid_range_max (m_constraint entry)) @ ''] for '' @ point)
             else \<lparr>vr_accepted = True, vr_reason = [], vr_matched = Some i\<rparr>))"

section \<open>Topics\<close>

text \<open>\<open>amm_get_mqtt_topic\<close> returns the stored topic of the first active entry at the address.\<close>

definition amm_get_mqtt_topic :: "u8 \<Rightarrow> u16 \<Rightarrow> amm_state \<Rightarrow> string option" where
  "amm_get_mqtt_topic slave reg s =
     map_option (\<lambda>i. m_mqtt_topic (am_table s ! i)) (amm_find_mapping slave reg s)"

text \<open>The loop that joins the parts with slashes, dropping leading slashes and empty parts.\<close>

fun join_topic :: "nat \<Rightarrow> string \<Rightarrow> string list \<Rightarrow> string" where
  "join_topic n out [] = out"
| "join_topic n out (p # ps) =
     (if p = [] then join_topic n out ps
      else
        let out = (if out \<noteq> [] \<and> last out \<noteq> CHR ''/'' then strlcat n out ''/'' else out)
        in join_topic n (strlcat n out (dropWhile (\<lambda>c. c = CHR ''/'') p)) ps)"

text \<open>The contents of the caller's buffer of \<open>out_size\<close> bytes, and the status.\<close>

definition amm_resolve_mqtt_topic :: "runtime_config \<Rightarrow> amm_entry option \<Rightarrow> nat \<Rightarrow> string option \<times> esp_err" where
  "amm_resolve_mqtt_topic cfg entry out_size =
     (case entry of
        None \<Rightarrow> (None, ESP_ERR_INVALID_ARG)
      | Some e \<Rightarrow>
          (if out_size = 0 then (None, ESP_ERR_INVALID_ARG)
           else if m_mqtt_topic_mode e = MQTT_TOPIC_CUSTOM then
             (if m_mqtt_topic e = [] then (Some [], ESP_ERR_NOT_FOUND)
              else (Some (strlcpy out_size (m_mqtt_topic e)),
                    if length (m_mqtt_topic e) < out_size then ESP_OK else ESP_ERR_INVALID_SIZE))
           else
             let out = join_topic out_size []
                   [q_data_prefix (rc_mqtt cfg), rc_gateway_id cfg, m_device_id e, m_point_id e]
             in (Some out, if out \<noteq> [] \<and> length out < out_size - 1 then ESP_OK else ESP_ERR_INVALID_SIZE)))"

definition amm_copy_mqtt_topic ::
  "runtime_config \<Rightarrow> source_protocol \<Rightarrow> u8 \<Rightarrow> u8 \<Rightarrow> u16 \<Rightarrow> nat \<Rightarrow> amm_state \<Rightarrow> string option \<times> esp_err" where
  "amm_copy_mqtt_topic cfg protocol channel slave reg out_size s =
     (if out_size = 0 then (None, ESP_ERR_INVALID_ARG)
      else case amm_find_mapping_for_channel protocol channel slave reg s of
        None \<Rightarrow> (None, ESP_ERR_NOT_FOUND)
      | Some e \<Rightarrow> amm_resolve_mqtt_topic cfg (Some e) out_size)"

section \<open>Lemmas\<close>

text \<open>A part of a topic that takes no change in the join.\<close>

definition plain_part :: "string \<Rightarrow> bool" where
  "plain_part p \<longleftrightarrow> p \<noteq> [] \<and> CHR ''/'' \<notin> set p"

lemma plain_part_drop [simp]: "plain_part p \<Longrightarrow> dropWhile (\<lambda>c. c = CHR ''/'') p = p"
  by (cases p) (auto simp: plain_part_def)

lemma join_topic_step:
  "plain_part p \<Longrightarrow> out \<noteq> [] \<Longrightarrow> last out \<noteq> CHR ''/'' \<Longrightarrow> length out + 1 + length p < n \<Longrightarrow>
   join_topic n out (p # ps) = join_topic n (out @ ''/'' @ p) ps"
  by (simp add: plain_part_def [of p] Let_def)

lemma last_plain [simp]: "plain_part p \<Longrightarrow> last p \<noteq> CHR ''/''" "plain_part p \<Longrightarrow> p \<noteq> []"
  using last_in_set [of p] by (auto simp: plain_part_def simp del: last_in_set)

lemma join_topic_parts:
  assumes "plain_part a" "plain_part b" "plain_part c" "plain_part d"
    "length a + length b + length c + length d + 3 < n"
  shows "join_topic n [] [a, b, c, d] = a @ ''/'' @ b @ ''/'' @ c @ ''/'' @ d"
proof -
  have "join_topic n [] [a, b, c, d] = join_topic n a [b, c, d]"
    using assms by (simp del: join_topic.simps(2) add: join_topic.simps(2) [of n "[]" a])
  also have "\<dots> = join_topic n (a @ ''/'' @ b) [c, d]" using assms by (simp add: join_topic_step del: join_topic.simps)
  also have "\<dots> = join_topic n (a @ ''/'' @ b @ ''/'' @ c) [d]"
    using assms by (simp add: join_topic_step del: join_topic.simps)
  also have "\<dots> = a @ ''/'' @ b @ ''/'' @ c @ ''/'' @ d"
    using assms by (subst join_topic_step) simp_all
  finally show ?thesis .
qed

lemma slash_split:
  "CHR ''/'' \<notin> set c \<Longrightarrow> CHR ''/'' \<notin> set c' \<Longrightarrow> c @ CHR ''/'' # d = c' @ CHR ''/'' # d' \<Longrightarrow> c = c' \<and> d = d'"
  by (induction c arbitrary: c') (auto simp: Cons_eq_append_conv append_eq_Cons_conv)

section \<open>Properties\<close>

text \<open>
  A command is accepted exactly when its register has an active mapping that is
  writable, its function code is a write code, its data type is that of the point and its
  value, as a float, is not outside the range; a verdict of either kind fits its buffer.
\<close>

theorem command_accepted:
  "(vr_accepted (amm_validate_command fmt4 cmd s) \<longleftrightarrow>
     (\<exists>i. amm_find_mapping (c_slave_id cmd) (c_register_address cmd) s = Some i \<and>
        c_function_code cmd \<in> {5, 6, 15, 16} \<and> writable (m_constraint (am_table s ! i)) \<and>
        c_data_type cmd = m_data_type (am_table s ! i) \<and>
        \<not> f32_lt (f32_of_f64 (c_value cmd)) (valid_range_min (m_constraint (am_table s ! i))) \<and>
        \<not> f32_lt (valid_range_max (m_constraint (am_table s ! i))) (f32_of_f64 (c_value cmd)))) \<and>
   length (vr_reason (amm_validate_command fmt4 cmd s)) < 128 \<and>
   (vr_accepted (amm_validate_command fmt4 cmd s) = (vr_reason (amm_validate_command fmt4 cmd s) = []))"
proof -
  have l: "length (strlcpy 128 r) < 128" for r by (rule length_strlcpy) simp
  have n: "strlcpy 128 (x # r) \<noteq> []" for x :: char and r by (simp add: strlcpy_def)
  show ?thesis by (simp add: amm_validate_command_def Let_def l n split: option.split)
qed

text \<open>
  Points get topics of their own: for two entries with derived topics whose identifiers
  are non-empty and hold no slash, the topic is prefix, gateway, device and point joined by
  slashes, and equal topics mean the same device and the same point.
\<close>

theorem derived_topics_distinct:
  assumes "m_mqtt_topic_mode e = MQTT_TOPIC_AUTO" "m_mqtt_topic_mode e' = MQTT_TOPIC_AUTO"
    "plain_part (q_data_prefix (rc_mqtt cfg))" "plain_part (rc_gateway_id cfg)"
    "plain_part (m_device_id e)" "plain_part (m_point_id e)"
    "plain_part (m_device_id e')" "plain_part (m_point_id e')"
    "length (q_data_prefix (rc_mqtt cfg)) + length (rc_gateway_id cfg) + length (m_device_id e) + length (m_point_id e) + 4 < n"
    "length (q_data_prefix (rc_mqtt cfg)) + length (rc_gateway_id cfg) + length (m_device_id e') + length (m_point_id e') + 4 < n"
  shows "amm_resolve_mqtt_topic cfg (Some e) n =
      (Some (q_data_prefix (rc_mqtt cfg) @ ''/'' @ rc_gateway_id cfg @ ''/'' @ m_device_id e @ ''/'' @ m_point_id e), ESP_OK) \<and>
    (amm_resolve_mqtt_topic cfg (Some e) n = amm_resolve_mqtt_topic cfg (Some e') n \<longleftrightarrow>
       m_device_id e = m_device_id e' \<and> m_point_id e = m_point_id e')"
proof -
  have t: "amm_resolve_mqtt_topic cfg (Some x) n =
      (Some (q_data_prefix (rc_mqtt cfg) @ ''/'' @ rc_gateway_id cfg @ ''/'' @ m_device_id x @ ''/'' @ m_point_id x), ESP_OK)"
    if "x = e \<or> x = e'" for x
    using that assms by (auto simp: amm_resolve_mqtt_topic_def Let_def join_topic_parts simp del: join_topic.simps)
  show ?thesis
    using t [of e] t [of e'] slash_split [of "m_device_id e" "m_device_id e'" "m_point_id e" "m_point_id e'"] assms(5,7)
    by (auto simp: plain_part_def)
qed

lemma derived_topics_distinct_witness:
  "amm_resolve_mqtt_topic (load_defaults\<lparr>rc_gateway_id := ''gw'', rc_mqtt := (rc_mqtt load_defaults)\<lparr>q_data_prefix := ''data''\<rparr>\<rparr>)
     (Some (zero_mapping\<lparr>m_device_id := ''meter'', m_point_id := ''voltage''\<rparr>)) 128 = (Some ''data/gw/meter/voltage'', ESP_OK)"
  using derived_topics_distinct [of "zero_mapping\<lparr>m_device_id := ''meter'', m_point_id := ''voltage''\<rparr>"
     "zero_mapping\<lparr>m_device_id := ''meter'', m_point_id := ''voltage''\<rparr>"
     "load_defaults\<lparr>rc_gateway_id := ''gw'', rc_mqtt := (rc_mqtt load_defaults)\<lparr>q_data_prefix := ''data''\<rparr>\<rparr>" 128]
  by (simp add: plain_part_def zero_mapping_def)

end
