(* ===== verification/Modbus_Codec.thy ===== *)
theory Modbus_Codec
  imports Tcm_Types
begin

text \<open>
  The numeric codec of the Modbus access layer (\<open>modbus/modbus_access.c\<close>): register words to
  a \<open>double\<close> and back for every data type and byte order, ASCII registers, and the
  translation of configured addresses to protocol offsets. A \<open>const uint16_t *\<close> argument the
  code compares with NULL is an option. The results are the two round trips of the codec, the
  bounds of the ASCII decoder and the inversion of the address translation.
\<close>

section \<open>Register words\<close>

definition modbus_register_count_for_type :: "data_type \<Rightarrow> nat" where
  "modbus_register_count_for_type dt =
     (if dt = DT_FLOAT32 \<or> dt = DT_INT32 \<or> dt = DT_UINT32 then 2
      else if dt = DT_FLOAT64 \<or> dt = DT_INT64 \<or> dt = DT_UINT64 then 4
      else 1)"

definition swap_word_bytes :: "u16 \<Rightarrow> u16" where
  "swap_word_bytes v = push_bit 8 v OR drop_bit 8 v"

text \<open>The loop that exchanges word \<open>i\<close> with word \<open>count - 1 - i\<close> for \<open>i < count / 2\<close>.\<close>

definition swap_pair :: "nat \<Rightarrow> nat \<Rightarrow> u16 list \<Rightarrow> u16 list" where
  "swap_pair count i ws = ws[i := ws ! (count - 1 - i), count - 1 - i := ws ! i]"

definition swap_words :: "nat \<Rightarrow> u16 list \<Rightarrow> u16 list" where
  "swap_words count ws = fold (swap_pair count) [0..<count div 2] ws"

definition swaps_words :: "byte_order \<Rightarrow> bool" where
  "swaps_words order \<longleftrightarrow> order = BYTE_ORDER_CDAB \<or> order = BYTE_ORDER_DCBA"

definition swaps_bytes :: "byte_order \<Rightarrow> bool" where
  "swaps_bytes order \<longleftrightarrow> order = BYTE_ORDER_BADC \<or> order = BYTE_ORDER_DCBA"

text \<open>The loops that concatenate words, most significant first, and cut bits into \<open>n\<close> words.\<close>

definition join_words :: "u16 list \<Rightarrow> u64" where
  "join_words ws = fold (\<lambda>w bits. push_bit 16 bits OR ucast w) ws 0"

definition split_bits :: "nat \<Rightarrow> u64 \<Rightarrow> u16 list" where
  "split_bits n bits = map (\<lambda>i. ucast (drop_bit (16 * (n - 1 - i)) bits)) [0..<n]"

definition ordered_bits :: "u16 list \<Rightarrow> nat \<Rightarrow> byte_order \<Rightarrow> u64" where
  "ordered_bits raw count order =
     (let words = take count raw;
          words = (if swaps_words order then swap_words count words else words);
          words = (if swaps_bytes order then map swap_word_bytes words else words)
      in join_words words)"

section \<open>Registers to a number\<close>

fun modbus_convert_to_number :: "u16 list option \<Rightarrow> data_type \<Rightarrow> byte_order \<Rightarrow> u8 \<Rightarrow> f64" where
  "modbus_convert_to_number None _ _ _ = f64_of_int 0"
| "modbus_convert_to_number (Some raw) dt order bit_index =
     (let bits = ordered_bits raw (modbus_register_count_for_type dt) order in
      case dt of
        DT_BOOL \<Rightarrow> (if hd raw \<noteq> 0 then f64_of_int 1 else f64_of_int 0)
      | DT_INT16 \<Rightarrow> f64_of_int (sint (ucast bits :: u16))
      | DT_UINT16 \<Rightarrow> f64_of_int (uint (ucast bits :: u16))
      | DT_FLOAT32 \<Rightarrow> f64_of_f32 (ucast bits)
      | DT_INT32 \<Rightarrow> f64_of_int (sint (ucast bits :: u32))
      | DT_UINT32 \<Rightarrow> f64_of_int (uint (ucast bits :: u32))
      | DT_INT64 \<Rightarrow> f64_of_int (sint bits)
      | DT_UINT64 \<Rightarrow> f64_of_int (uint bits)
      | DT_FLOAT64 \<Rightarrow> bits
      | DT_BCD16 \<Rightarrow>
          f64_of_int (uint ((drop_bit 12 bits AND 0xF) * 1000 + (drop_bit 8 bits AND 0xF) * 100 +
                            (drop_bit 4 bits AND 0xF) * 10 + (bits AND 0xF)))
      | DT_BITFIELD16 \<Rightarrow>
          f64_of_int (uint (drop_bit (unat (bit_index AND 15)) (ucast bits :: u16) AND 1))
      | DT_ASCII \<Rightarrow> f64_of_int 0)"

section \<open>A number to registers\<close>

definition encode_bcd :: "u16 \<Rightarrow> u16" where
  "encode_bcd n =
     push_bit 12 (n div 1000 mod 10) OR push_bit 8 (n div 100 mod 10) OR
     push_bit 4 (n div 10 mod 10) OR (n mod 10)"

text \<open>The words of \<open>bits\<close> in the byte order, in an array of four words.\<close>

definition order_words :: "nat \<Rightarrow> byte_order \<Rightarrow> u64 \<Rightarrow> u16 list" where
  "order_words count order bits =
     (let words = split_bits count bits;
          words = (if swaps_words order then swap_words count words else words);
          words = (if swaps_bytes order then map swap_word_bytes words else words)
      in words @ replicate (4 - count) 0)"

text \<open>The count returned, and the array \<open>words[4]\<close> the function fills.\<close>

definition modbus_encode_number ::
  "(f64 \<Rightarrow> int) \<Rightarrow> f64 \<Rightarrow> data_type \<Rightarrow> byte_order \<Rightarrow> nat \<times> u16 list" where
  "modbus_encode_number ub v dt order =
     (let count = modbus_register_count_for_type dt;
          one = \<lambda>w. (1, [w, 0, 0, 0]);
          many = \<lambda>bits. (count, order_words count order bits)
      in case dt of
        DT_BOOL \<Rightarrow> one (if f64_eq v (f64_of_int 0) then 0 else 1)
      | DT_INT16 \<Rightarrow> one (word_of_int (llround ub v))
      | DT_UINT16 \<Rightarrow> one (word_of_int (llround ub v))
      | DT_BITFIELD16 \<Rightarrow> one (word_of_int (llround ub v))
      | DT_BCD16 \<Rightarrow> one (encode_bcd (word_of_int (llround ub v)))
      | DT_FLOAT32 \<Rightarrow> many (ucast (f32_of_f64 v))
      | DT_INT32 \<Rightarrow> many (ucast (word_of_int (llround ub v) :: u32))
      | DT_UINT32 \<Rightarrow> many (ucast (word_of_int (llround ub v) :: u32))
      | DT_FLOAT64 \<Rightarrow> many v
      | DT_INT64 \<Rightarrow> many (word_of_int (llround ub v))
      | DT_UINT64 \<Rightarrow> many (word_of_int (llround ub v))
      | DT_ASCII \<Rightarrow> (0, [0, 0, 0, 0]))"

section \<open>ASCII registers\<close>

definition high_byte :: "u16 \<Rightarrow> u8" where "high_byte w = ucast (drop_bit 8 w)"
definition low_byte :: "u16 \<Rightarrow> u8" where "low_byte w = ucast w"
definition char_of_byte :: "u8 \<Rightarrow> char" where "char_of_byte b = char_of (unat b)"

text \<open>The loop over the registers; \<open>out\<close> is what has been written so far.\<close>

fun decode_ascii_loop :: "byte_order \<Rightarrow> nat \<Rightarrow> string \<Rightarrow> u16 list \<Rightarrow> string" where
  "decode_ascii_loop order out_size out [] = out"
| "decode_ascii_loop order out_size out (w # ws) =
     (if length out + 1 < out_size then
        let word = (if swaps_bytes order then swap_word_bytes w else w);
            high = high_byte word; low = low_byte word
        in if high = 0 then out
           else let out = out @ [char_of_byte high] in
             if low = 0 \<or> length out + 1 \<ge> out_size then out
             else decode_ascii_loop order out_size (out @ [char_of_byte low]) ws
      else out)"

text \<open>The string written to \<open>out\<close>, or None when the function returns without writing.\<close>

definition modbus_decode_ascii ::
  "u16 list option \<Rightarrow> nat \<Rightarrow> byte_order \<Rightarrow> nat \<Rightarrow> string option" where
  "modbus_decode_ascii raw register_count order out_size =
     (case raw of
        None \<Rightarrow> None
      | Some regs \<Rightarrow>
          (if out_size = 0 then None
           else Some (decode_ascii_loop order out_size [] (take register_count regs))))"

section \<open>Address translation\<close>

definition modbus_register_offset :: "u8 \<Rightarrow> u16 \<Rightarrow> u16" where
  "modbus_register_offset fc addr =
     (if fc = 1 \<and> 1 \<le> addr \<and> addr < 10001 then addr - 1
      else if fc = 2 \<and> 10001 \<le> addr \<and> addr < 20001 then addr - 10001
      else if (fc = 3 \<or> fc = 6 \<or> fc = 16) \<and> 40001 \<le> addr then addr - 40001
      else if fc = 4 \<and> 30001 \<le> addr then addr - 30001
      else addr)"

lemma swap_word_bytes_twice [simp]: "swap_word_bytes (swap_word_bytes v) = v"
  by (rule bit_word_eqI) (auto simp: swap_word_bytes_def bit_simps)

lemma swap_words_rev:
  assumes "length ws \<in> {1, 2, 4}"
  shows "swap_words (length ws) ws = rev ws"
proof -
  have "(\<exists>a. ws = [a]) \<or> (\<exists>a b. ws = [a, b]) \<or> (\<exists>a b c d. ws = [a, b, c, d])"
    using assms by (auto simp: numeral_eq_Suc length_Suc_conv)
  moreover have "[0..<4 div 2] = [0, 1 :: nat]" "[0..<2 div 2] = [0 :: nat]" by (simp_all add: upt_rec)
  then have "swap_words 4 [a, b, c, d] = [d, c, b, a]" "swap_words 2 [a, b] = [b, a]" for a b c d
    by (simp_all add: swap_words_def swap_pair_def numeral_eq_Suc)
  moreover have "swap_words 1 [a] = [a]" for a
    by (simp add: swap_words_def)
  ultimately show ?thesis
    by (auto simp: eval_nat_numeral)
qed

lemma join_words_prefix:
  "k \<le> n \<Longrightarrow>
   fold (\<lambda>w bits. push_bit 16 bits OR ucast w)
     (map (\<lambda>i. ucast (drop_bit (16 * (n - 1 - i)) b) :: u16) [0..<k]) (0 :: u64)
   = take_bit (16 * k) (drop_bit (16 * (n - k)) b)"
proof (induction k)
  case 0
  then show ?case by simp
next
  case (Suc k)
  have e: "16 * (n - k) = 16 * (n - Suc k) + 16" using Suc.prems by linarith
  have "push_bit 16 (take_bit (16 * k) (drop_bit (16 * (n - Suc k) + 16) b))
      OR ucast (ucast (drop_bit (16 * (n - Suc k)) b) :: u16)
    = take_bit (16 * Suc k) (drop_bit (16 * (n - Suc k)) (b :: u64))"
    (is "?l = ?r")
  proof (rule bit_word_eqI)
    fix m assume m: "m < LENGTH(64)"
    let ?z = "16 * (n - Suc k)"
    show "bit ?l m \<longleftrightarrow> bit ?r m"
    proof (cases "m < 16")
      case True
      with m show ?thesis by (auto simp: bit_simps)
    next
      case False
      then obtain j where "m = 16 + j" by (metis le_add_diff_inverse not_less)
      with m show ?thesis by (auto simp: bit_simps ac_simps)
    qed
  qed
  then show ?case using Suc by (simp add: e)
qed

lemma join_split_bits: "join_words (split_bits n b) = take_bit (16 * n) b"
  using join_words_prefix [of n n b] by (simp add: join_words_def split_bits_def)

lemma length_split_bits [simp]: "length (split_bits n b) = n"
  by (simp add: split_bits_def)

lemma length_swap_words [simp]: "length (swap_words n ws) = length ws"
proof -
  have "length (fold (swap_pair n) is ws) = length ws" for "is"
    by (induction "is" arbitrary: ws) (simp_all add: swap_pair_def)
  then show ?thesis by (simp add: swap_words_def)
qed

lemma take_order_words:
  "n \<le> 4 \<Longrightarrow> length (order_words n order b) = 4"
  by (simp add: order_words_def Let_def)

text \<open>Splitting into ordered words and joining them again keeps the low bits.\<close>

lemma ordered_bits_order_words:
  assumes "n \<in> {1, 2, 4}"
  shows "ordered_bits (order_words n order b) n order = take_bit (16 * n) b"
proof -
  have r: "swap_words n us = rev us" if "length us = n" for us
    using swap_words_rev [of us] assms that by simp
  show ?thesis
    by (cases "swaps_words order"; cases "swaps_bytes order")
       (simp_all add: ordered_bits_def order_words_def Let_def r rev_map comp_def
        join_split_bits)
qed

lemma split_joined:
  fixes ws :: "u16 list"
  assumes "i < length ws" "length ws \<le> 4"
  shows "ucast (drop_bit (16 * (length ws - 1 - i))
     (fold (\<lambda>w bits. push_bit 16 bits OR ucast w) ws (0 :: u64))) = ws ! i"
  using assms
proof (induction ws arbitrary: i rule: rev_induct)
  case Nil
  then show ?case by simp
next
  case (snoc w ws)
  let ?b = "fold (\<lambda>w bits. push_bit 16 bits OR ucast w) ws (0 :: u64)"
  show ?case
  proof (cases "i = length ws")
    case True
    have "(ucast (push_bit 16 ?b OR ucast w) :: u16) = w"
      by (rule bit_word_eqI) (auto simp: bit_simps)
    with True show ?thesis by simp
  next
    case False
    then have i: "i < length ws" and e: "16 * (length (ws @ [w]) - 1 - i) = 16 + 16 * (length ws - 1 - i)"
      using snoc.prems by auto
    have "drop_bit 16 (push_bit 16 ?b OR ucast w) = take_bit 48 ?b"
      by (rule bit_word_eqI) (auto simp: bit_simps dest: bit_imp_le_length)
    then have "ucast (drop_bit (16 + 16 * (length ws - 1 - i)) (push_bit 16 ?b OR ucast w))
       = (ucast (drop_bit (16 * (length ws - 1 - i)) (take_bit 48 ?b)) :: u16)"
      by (simp only: add.commute [of 16] drop_bit_drop_bit [symmetric])
    also have "\<dots> = ucast (drop_bit (16 * (length ws - 1 - i)) ?b)"
      using i snoc.prems by (intro bit_word_eqI) (auto simp: bit_simps)
    also have "\<dots> = ws ! i" using snoc i by simp
    finally show ?thesis using i e by (simp add: nth_append)
  qed
qed

lemma order_words_ordered_bits:
  assumes "length ws = n" "n \<in> {1, 2, 4}"
  shows "order_words n order (ordered_bits ws n order) = ws @ replicate (4 - n) 0"
proof -
  have r: "swap_words n us = rev us" if "length us = n" for us
    using swap_words_rev [of us] assms that by simp
  have s: "split_bits n (join_words us) = us" if "length us = n" for us
    unfolding split_bits_def join_words_def
    using split_joined [of _ us] that assms(2) by (intro nth_equalityI) auto
  show ?thesis
    by (cases "swaps_words order"; cases "swaps_bytes order")
       (simp_all add: order_words_def ordered_bits_def Let_def assms(1) r s rev_map comp_def)
qed


section \<open>Round trips\<close>

lemma take_bit_64 [simp]: "take_bit 64 (w :: u64) = w"
  by (rule bit_word_eqI) (simp add: bit_simps)

lemma word_32_64_32 [simp]: "(ucast (take_bit 32 (ucast (w :: u32) :: u64)) :: u32) = w"
  by (rule bit_word_eqI) (auto simp: bit_simps)

lemma word_16_64_16 [simp]: "(ucast (ucast (w :: u16) :: u64) :: u16) = w"
  by (rule bit_word_eqI) (auto simp: bit_simps)

text \<open>The numbers a data type represents exactly.\<close>

definition represents :: "data_type \<Rightarrow> f64 \<Rightarrow> bool" where
  "represents dt v =
     (let ints = \<lambda>lo hi. \<exists>n. lo \<le> n \<and> n < hi \<and> v = f64_of_int n in
      case dt of
        DT_BOOL \<Rightarrow> ints 0 2
      | DT_INT16 \<Rightarrow> ints (- (2 ^ 15)) (2 ^ 15)
      | DT_UINT16 \<Rightarrow> ints 0 (2 ^ 16)
      | DT_BCD16 \<Rightarrow> ints 0 10000
      | DT_INT32 \<Rightarrow> ints (- (2 ^ 31)) (2 ^ 31)
      | DT_UINT32 \<Rightarrow> ints 0 (2 ^ 32)
      | DT_INT64 \<Rightarrow> ints (- (2 ^ 53) + 1) (2 ^ 53)
      | DT_UINT64 \<Rightarrow> ints 0 (2 ^ 53)
      | DT_FLOAT32 \<Rightarrow> (\<exists>x. f32_get x \<noteq> FNaN \<and> v = f64_of_f32 x)
      | DT_FLOAT64 \<Rightarrow> True
      | DT_BITFIELD16 \<Rightarrow> False
      | DT_ASCII \<Rightarrow> False)"

lemma ordered_bits_single [simp]:
  "ordered_bits (w # ws) (Suc 0) order = ucast (if swaps_bytes order then swap_word_bytes w else w)"
  by (simp add: ordered_bits_def Let_def join_words_def swap_words_def)

lemma sint_word_of_int:
  "- (2 ^ 15) \<le> n \<Longrightarrow> n < 2 ^ 15 \<Longrightarrow> sint (word_of_int n :: 16 word) = n"
  "- (2 ^ 31) \<le> n \<Longrightarrow> n < 2 ^ 31 \<Longrightarrow> sint (word_of_int n :: 32 word) = n"
  "- (2 ^ 63) \<le> n \<Longrightarrow> n < 2 ^ 63 \<Longrightarrow> sint (word_of_int n :: 64 word) = n"
  by (simp_all add: signed_take_bit_int_eq_self sint_sbintrunc')


text \<open>The data types and byte orders whose words the two directions order the same way.\<close>

definition same_order :: "data_type \<Rightarrow> byte_order \<Rightarrow> bool" where
  "same_order dt order \<longleftrightarrow>
     modbus_register_count_for_type dt \<noteq> 1 \<or> dt = DT_BOOL \<or> \<not> swaps_bytes order"

lemma bcd_nibbles:
  fixes a b c d :: u16
  defines "w \<equiv> ucast (push_bit 12 (take_bit 4 a) OR push_bit 8 (take_bit 4 b) OR
    push_bit 4 (take_bit 4 c) OR take_bit 4 d) :: u64"
  shows "drop_bit 12 w AND 0xF = ucast (take_bit 4 a)"
    "drop_bit 8 w AND 0xF = ucast (take_bit 4 b)"
    "drop_bit 4 w AND 0xF = ucast (take_bit 4 c)"
    "w AND 0xF = ucast (take_bit 4 d)"
proof -
  have f: "x AND 0xF = take_bit 4 x" for x :: u64
    by (simp add: take_bit_eq_mask mask_eq_exp_minus_1)
  show "drop_bit 12 w AND 0xF = ucast (take_bit 4 a)"
    "drop_bit 8 w AND 0xF = ucast (take_bit 4 b)"
    "drop_bit 4 w AND 0xF = ucast (take_bit 4 c)"
    "w AND 0xF = ucast (take_bit 4 d)"
    unfolding f w_def by (rule bit_word_eqI, auto simp: bit_simps)+
qed

lemma take_bit_4_digit: "unat (w :: u16) < 10 \<Longrightarrow> take_bit 4 w = w"
  by (simp add: word_unat_eq_iff unsigned_take_bit_eq take_bit_nat_eq_self)

lemma bcd_digits:
  assumes "0 \<le> n" "n < 10000"
  defines "bits \<equiv> ucast (encode_bcd (word_of_int n)) :: u64"
  shows "uint ((drop_bit 12 bits AND 0xF) * 1000 + (drop_bit 8 bits AND 0xF) * 100 +
     (drop_bit 4 bits AND 0xF) * 10 + (bits AND 0xF)) = n"
proof -
  obtain k where k: "n = int k" "k < 10000" using assms by (metis nonneg_int_cases of_nat_less_numeral_iff)
  define w :: u16 where "w = word_of_int n"
  have u: "unat w = k" using k by (simp add: w_def unat_of_nat take_bit_eq_mod)
  have d: "unat (w div 1000 mod 10) = k div 1000 mod 10" "unat (w div 100 mod 10) = k div 100 mod 10"
    "unat (w div 10 mod 10) = k div 10 mod 10" "unat (w mod 10) = k mod 10"
    by (simp_all add: unat_div unat_mod u)
  have t: "take_bit 4 (w div 1000 mod 10) = w div 1000 mod 10" "take_bit 4 (w div 100 mod 10) = w div 100 mod 10"
    "take_bit 4 (w div 10 mod 10) = w div 10 mod 10" "take_bit 4 (w mod 10) = w mod 10"
    by (rule take_bit_4_digit, simp add: d)+
  have b: "bits = ucast (push_bit 12 (take_bit 4 (w div 1000 mod 10)) OR
      push_bit 8 (take_bit 4 (w div 100 mod 10)) OR
      push_bit 4 (take_bit 4 (w div 10 mod 10)) OR take_bit 4 (w mod 10))"
    unfolding t by (simp only: bits_def encode_bcd_def w_def)
  have n: "ucast x = (word_of_nat (unat x) :: u64)" for x :: u16 by simp
  have "((drop_bit 12 bits AND 0xF) * 1000 + (drop_bit 8 bits AND 0xF) * 100 +
     (drop_bit 4 bits AND 0xF) * 10 + (bits AND 0xF)) =
     word_of_nat (k div 1000 mod 10 * 1000 + k div 100 mod 10 * 100 + k div 10 mod 10 * 10 + k mod 10)"
    unfolding b bcd_nibbles unfolding t n d by simp
  also have "k div 1000 mod 10 * 1000 + k div 100 mod 10 * 100 + k div 10 mod 10 * 10 + k mod 10 = k"
  proof -
    have gen: "10 * x + r = k \<Longrightarrow> 10 * y + r' = x \<Longrightarrow> 10 * z + r'' = y \<Longrightarrow>
      z * 1000 + r'' * 100 + r' * 10 + r = k" for x y z r r' r'' :: nat by linarith
    have "k div 100 = k div 10 div 10" "k div 1000 = k div 10 div 10 div 10"
      by (simp_all add: div_mult2_eq [symmetric])
    moreover have "k div 1000 mod 10 = k div 1000" using k by simp
    ultimately show ?thesis
      using gen [of "k div 10" "k mod 10" "k div 10 div 10" "k div 10 mod 10"
        "k div 10 div 10 div 10" "k div 10 div 10 mod 10"] by simp
  qed
  finally have e: "(drop_bit 12 bits AND 0xF) * 1000 + (drop_bit 8 bits AND 0xF) * 100 +
     (drop_bit 4 bits AND 0xF) * 10 + (bits AND 0xF) = word_of_nat k" .
  have "uint (word_of_nat k :: u64) = int k"
    using k by (simp add: unsigned_of_nat take_bit_nat_eq_self)
  then show ?thesis unfolding e k(1) .
qed

lemma f64_eq_0: "f64_eq 0 0"
  by (simp add: f64_eq_def)

lemma f64_eq_of_int: "\<bar>z\<bar> < 2 ^ 53 \<Longrightarrow> f64_eq (f64_of_int z) 0 \<longleftrightarrow> z = 0"
proof (cases "z = 0")
  case True
  then show ?thesis by (simp add: f64_eq_0)
next
  case False
  assume "\<bar>z\<bar> < 2 ^ 53"
  then obtain k where "f64_get (f64_of_int z) = FFin (z < 0) (nat \<bar>z\<bar> * 2 ^ k) (- int k)"
    using f64_of_int_get False by blast
  with False show ?thesis by (auto simp: f64_eq_def Let_def signed_def not_less mult_le_0_iff zero_le_mult_iff)
qed

lemma f64_eq_1: "\<not> f64_eq (f64_of_int 1) 0"
  by (simp add: f64_eq_of_int)

lemma encode_decode:
  assumes "represents dt v" "same_order dt order"
  shows "modbus_convert_to_number (Some (snd (modbus_encode_number ub v dt order))) dt order b = v"
proof (cases dt)
  case DT_INT16
  then show ?thesis using assms
    by (auto simp: represents_def same_order_def modbus_encode_number_def Let_def
        modbus_register_count_for_type_def sint_word_of_int)
next
  case DT_UINT16
  then show ?thesis using assms
    by (auto simp: represents_def same_order_def modbus_encode_number_def Let_def
        modbus_register_count_for_type_def uint_word_of_int_eq take_bit_int_eq_self)
next
  case DT_FLOAT32
  then show ?thesis using assms
    by (auto simp: represents_def modbus_encode_number_def Let_def
        modbus_register_count_for_type_def ordered_bits_order_words f32_of_f64_of_f32)
next
  case DT_INT32
  then show ?thesis using assms
    by (auto simp: represents_def modbus_encode_number_def Let_def
        modbus_register_count_for_type_def ordered_bits_order_words sint_word_of_int)
next
  case DT_UINT32
  then show ?thesis using assms
    by (auto simp: represents_def modbus_encode_number_def Let_def
        modbus_register_count_for_type_def ordered_bits_order_words uint_word_of_int_eq take_bit_int_eq_self)
next
  case DT_BOOL
  with assms obtain n where "0 \<le> n" "n < 2" "v = f64_of_int n"
    by (auto simp: represents_def Let_def)
  then have "n = 0 \<or> n = 1" "v = f64_of_int n" by auto
  with DT_BOOL show ?thesis
    by (auto simp: modbus_encode_number_def Let_def f64_eq_0 f64_eq_1)
next
  case DT_INT64
  then show ?thesis using assms
    by (auto simp: represents_def modbus_encode_number_def Let_def
        modbus_register_count_for_type_def ordered_bits_order_words sint_word_of_int)
next
  case DT_UINT64
  then show ?thesis using assms
    by (auto simp: represents_def modbus_encode_number_def Let_def
        modbus_register_count_for_type_def ordered_bits_order_words uint_word_of_int_eq take_bit_int_eq_self)
next
  case DT_FLOAT64
  then show ?thesis using assms
    by (auto simp: represents_def modbus_encode_number_def Let_def
        modbus_register_count_for_type_def ordered_bits_order_words)
next
  case DT_BCD16
  then show ?thesis using assms
    by (auto simp: represents_def same_order_def modbus_encode_number_def Let_def
        modbus_register_count_for_type_def bcd_digits)
next
  case DT_BITFIELD16
  then show ?thesis using assms(1) by (simp add: represents_def)
next
  case DT_ASCII
  then show ?thesis using assms(1) by (simp add: represents_def)
qed


lemma llround_of_word [simp]:
  "llround ub (f64_of_int (sint (w :: u16))) = sint w" "llround ub (f64_of_int (uint (w :: u16))) = uint w"
  "llround ub (f64_of_int (sint (x :: u32))) = sint x" "llround ub (f64_of_int (uint (x :: u32))) = uint x"
  using sint_lt [of w] sint_ge [of w] sint_lt [of x] sint_ge [of x] uint_lt2p [of w] uint_lt2p [of x]
  by simp_all

text \<open>The register contents a data type stores without loss.\<close>

definition stores :: "data_type \<Rightarrow> byte_order \<Rightarrow> u16 list \<Rightarrow> bool" where
  "stores dt order ws \<longleftrightarrow>
     length ws = modbus_register_count_for_type dt \<and>
     (case dt of
        DT_INT16 \<Rightarrow> True | DT_UINT16 \<Rightarrow> True | DT_INT32 \<Rightarrow> True | DT_UINT32 \<Rightarrow> True
      | DT_FLOAT64 \<Rightarrow> True
      | DT_FLOAT32 \<Rightarrow> f32_get (ucast (ordered_bits ws 2 order)) \<noteq> FNaN
      | DT_BOOL \<Rightarrow> hd ws = 0 \<or> hd ws = 1
      | _ \<Rightarrow> False)"

lemma decode_encode:
  assumes "stores dt order ws" "same_order dt order"
  shows "modbus_encode_number ub (modbus_convert_to_number (Some ws) dt order b) dt order
    = (length ws, ws @ replicate (4 - length ws) 0)"
proof -
  have len: "length ws = modbus_register_count_for_type dt" using assms(1) by (simp add: stores_def)
  have low: "take_bit 32 (ordered_bits ws 2 order) = ordered_bits ws 2 order" if "length ws = 2"
    using ordered_bits_order_words [of 2 order "ordered_bits ws 2 order"]
      order_words_ordered_bits [OF that, of order] that
    by (simp add: ordered_bits_def)
  have u: "(ucast (ucast (ordered_bits ws 2 order) :: u32) :: u64) = ordered_bits ws 2 order" if "length ws = 2"
  proof -
    have "(ucast (ucast z :: u32) :: u64) = take_bit 32 z" for z :: u64
      by (rule bit_word_eqI) (auto simp: bit_simps)
    then show ?thesis using low [OF that] by simp
  qed
  have single: "\<exists>w. ws = [w]" if "length ws = 1" using that by (simp add: length_Suc_conv)
  note d = modbus_encode_number_def Let_def modbus_register_count_for_type_def same_order_def
    order_words_ordered_bits u stores_def f32_of_f64_of_f32 numeral_3_eq_3
  show ?thesis
  proof (cases dt)
    case DT_INT16
    then show ?thesis using single len assms by (auto simp: d)
  next
    case DT_UINT16
    then show ?thesis using single len assms by (auto simp: d)
  next
    case DT_BOOL
    then show ?thesis using single len assms f64_eq_0 f64_eq_1 by (auto simp: d)
  qed (use len assms in \<open>auto simp: d\<close>)
qed

text \<open>A 16-bit type in a byte-swapped order is written unswapped and read back swapped.\<close>

lemma single_swapped:
  assumes "swaps_bytes order" "0 \<le> n" "n < 2 ^ 16"
  shows "modbus_convert_to_number (Some (snd (modbus_encode_number ub (f64_of_int n) DT_UINT16 order)))
    DT_UINT16 order b = f64_of_int (uint (swap_word_bytes (word_of_int n)))"
  using assms
  by (simp add: modbus_encode_number_def Let_def modbus_register_count_for_type_def)

section \<open>ASCII\<close>

definition register_bytes :: "byte_order \<Rightarrow> u16 \<Rightarrow> u8 list" where
  "register_bytes order w =
     (let word = (if swaps_bytes order then swap_word_bytes w else w) in [high_byte word, low_byte word])"

lemma decode_ascii_loop_spec:
  "length out < out_size \<Longrightarrow>
   decode_ascii_loop order out_size out ws =
     out @ take (out_size - 1 - length out)
       (map char_of_byte (takeWhile (\<lambda>b. b \<noteq> 0) (concat (map (register_bytes order) ws))))"
proof (induction ws arbitrary: out)
  case Nil
  then show ?case by simp
next
  case (Cons w ws)
  then show ?case
    by (auto simp: Let_def register_bytes_def take_Cons' Cons.IH)
qed

lemma char_of_byte_nonzero: "b \<noteq> 0 \<Longrightarrow> char_of_byte b \<noteq> CHR 0x00"
proof -
  assume "b \<noteq> 0"
  then have "unat b \<noteq> 0" "unat b < 256" using unsigned_less [of b] by (auto simp: unat_eq_0)
  then have "of_char (char_of_byte b) \<noteq> (0 :: nat)" by (simp add: char_of_byte_def)
  then show ?thesis by auto
qed

section \<open>Addresses\<close>

lemma register_offset_read:
  "k < 10000 \<Longrightarrow> modbus_register_offset 1 (word_of_nat k + 1) = word_of_nat k"
  "k < 10000 \<Longrightarrow> modbus_register_offset 2 (word_of_nat k + 10001) = word_of_nat k"
  "k < 25535 \<Longrightarrow> fc = 3 \<or> fc = 6 \<or> fc = 16 \<Longrightarrow> modbus_register_offset fc (word_of_nat k + 40001) = word_of_nat k"
  "k < 35535 \<Longrightarrow> modbus_register_offset 4 (word_of_nat k + 30001) = word_of_nat k"
  by (auto simp: modbus_register_offset_def word_le_nat_alt word_less_nat_alt unat_word_ariths unat_of_nat take_bit_eq_mod)

section \<open>Properties\<close>



text \<open>
  Registers survive the trip the other way: the words that a read converts to a number are
  the words the gateway serves for that number, in the same byte order.
\<close>

lemma register_roundtrip:
  assumes "stores dt order ws" "same_order dt order"
  shows "modbus_encode_number ub (modbus_convert_to_number (Some ws) dt order b) dt order
    = (length ws, ws @ replicate (4 - length ws) 0)"
  using assms by (rule decode_encode)

lemma register_roundtrip_witness:
  "modbus_encode_number (\<lambda>_. 0) (modbus_convert_to_number (Some [0x1234, 0xFFFE]) DT_INT32 BYTE_ORDER_CDAB 0)
     DT_INT32 BYTE_ORDER_CDAB = (2, [0x1234, 0xFFFE, 0, 0])"
  using register_roundtrip [of DT_INT32 BYTE_ORDER_CDAB "[0x1234, 0xFFFE]" "\<lambda>_. 0" 0]
  by (simp add: stores_def same_order_def modbus_register_count_for_type_def numeral_2_eq_2)

text \<open>
  A 16-bit type in a byte-swapped order does not survive: the encoder returns before it
  orders the word, the decoder swaps it, and so a written number reads back with its bytes
  exchanged.
\<close>

lemma byte_swapped_16_bit:
  assumes "swaps_bytes order" "0 \<le> n" "n < 2 ^ 16"
  shows "modbus_convert_to_number (Some (snd (modbus_encode_number ub (f64_of_int n) DT_UINT16 order)))
    DT_UINT16 order b = f64_of_int (uint (swap_word_bytes (word_of_int n)))"
  using assms by (rule single_swapped)

lemma byte_swapped_16_bit_witness:
  "modbus_convert_to_number (Some (snd (modbus_encode_number (\<lambda>_. 0) (f64_of_int 1) DT_UINT16 BYTE_ORDER_BADC)))
    DT_UINT16 BYTE_ORDER_BADC 0 = f64_of_int 256"
  using byte_swapped_16_bit [of BYTE_ORDER_BADC 1 "\<lambda>_. 0" 0]
  by (simp add: swaps_bytes_def swap_word_bytes_def)

text \<open>
  The ASCII decoder writes the bytes of the registers in their order up to the first NUL,
  cut to the buffer, and nothing else: it never writes past \<open>out_size\<close>.
\<close>

lemma ascii_decoded:
  assumes "0 < out_size"
  shows "modbus_decode_ascii (Some regs) n order out_size =
    Some (take (out_size - 1) (map char_of_byte
      (takeWhile (\<lambda>b. b \<noteq> 0) (concat (map (register_bytes order) (take n regs))))))"
  using assms by (simp add: modbus_decode_ascii_def decode_ascii_loop_spec)

lemma ascii_decoded_witness:
  "modbus_decode_ascii (Some [0x4142, 0x4300, 0x4445]) 3 BYTE_ORDER_ABCD 32 = Some ''ABC''"
  using ascii_decoded [of 32 "[0x4142, 0x4300, 0x4445]" 3 BYTE_ORDER_ABCD]
  by (simp add: register_bytes_def swaps_bytes_def high_byte_def low_byte_def char_of_byte_def Let_def char_of_def bit_0)

text \<open>
  A configured address with its conventional base (1, 10001, 40001 or 30001) is translated
  to the protocol offset, for the read and the register-write function codes.
\<close>

lemma offset_of_configured:
  assumes "(fc, base, n) \<in> {(1, 1, 10000), (2, 10001, 10000), (3, 40001, 25535),
      (6, 40001, 25535), (16, 40001, 25535), (4, 30001, 35535)}"
    and "k < n"
  shows "modbus_register_offset fc (word_of_nat k + base) = word_of_nat k"
  using assms by (auto simp: register_offset_read)

lemma offset_of_configured_witness: "modbus_register_offset 16 40101 = 100"
  using offset_of_configured [of 16 40001 25535 100] by simp

end
