(* ===== verification/Ring_Log.thy ===== *)
theory Ring_Log
  imports Prelude
begin

text \<open>
  The fixed-size rings of the gateway: an array, the slot the next entry goes to and the number
  of entries held. The locale \<open>ring_log\<close> is what their users rely on (what a log holds after
  a push); the lemmas on \<open>ring_list\<close> discharge it for the array implementation.
\<close>

section \<open>The interface\<close>

locale ring_log =
  fixes push :: "'e \<Rightarrow> 's \<Rightarrow> 's"
    and entries :: "'s \<Rightarrow> 'e list"
    and cap :: nat
    and inv :: "'s \<Rightarrow> bool"
  assumes inv_push: "inv s \<Longrightarrow> inv (push e s)"
    and entries_push: "inv s \<Longrightarrow> entries (push e s) = lastn cap (entries s @ [e])"
    and entries_bound: "inv s \<Longrightarrow> length (entries s) \<le> cap"
begin

lemma inv_pushes: "inv s \<Longrightarrow> inv (fold push es s)"
  by (induction es arbitrary: s) (auto simp: inv_push)

lemma entries_pushes: "inv s \<Longrightarrow> entries (fold push es s) = lastn cap (entries s @ es)"
proof (induction es arbitrary: s)
  case Nil
  then show ?case by (simp add: entries_bound)
next
  case (Cons e es)
  then show ?case by (simp add: inv_push entries_push lastn_lastn_append)
qed

lemma newest_kept: "inv s \<Longrightarrow> 0 < cap \<Longrightarrow> last (entries (push e s)) = e"
  by (simp add: entries_push lastn_def last_drop)

end

section \<open>The array implementation\<close>

text \<open>The entries from the oldest to the newest, as every reader of a ring walks it.\<close>

definition ring_oldest :: "nat \<Rightarrow> nat \<Rightarrow> nat \<Rightarrow> nat" where
  "ring_oldest cap next_slot held = (next_slot + cap - held) mod cap"

definition ring_list :: "'e list \<Rightarrow> nat \<Rightarrow> nat \<Rightarrow> 'e list" where
  "ring_list es next_slot held =
     map (\<lambda>i. es ! ((ring_oldest (length es) next_slot held + i) mod length es)) [0..<held]"

definition ring_ok :: "'e list \<Rightarrow> nat \<Rightarrow> nat \<Rightarrow> bool" where
  "ring_ok es next_slot held \<longleftrightarrow> next_slot < length es \<and> held \<le> length es"

lemma length_ring_list [simp]: "length (ring_list es n k) = k"
  by (simp add: ring_list_def)

lemma mod_once: "(c :: nat) \<le> a \<Longrightarrow> a < 2 * c \<Longrightarrow> a mod c = a - c"
  by (simp add: le_mod_geq)

lemma ring_slot:
  assumes "n < c" "k \<le> c" "i < k"
  shows "(ring_oldest c n k + i) mod c = (if n + i < k then n + c + i - k else n + i - k)"
proof (cases "n < k")
  case True
  then have "ring_oldest c n k = n + c - k" using assms by (simp add: ring_oldest_def)
  moreover have "(n + c - k + i) mod c = (if n + i < k then n + c + i - k else n + i - k)"
  proof (cases "n + i < k")
    case True
    then have "n + c - k + i < c" using assms by linarith
    then show ?thesis using True assms by simp
  next
    case False
    then have "(n + c - k + i) mod c = n + c - k + i - c"
      using assms \<open>n < k\<close> by (intro mod_once) linarith+
    then show ?thesis using False assms by simp
  qed
  ultimately show ?thesis by simp
next
  case False
  then have "ring_oldest c n k = (n - k + c) mod c" by (simp add: ring_oldest_def)
  then have "ring_oldest c n k = n - k" using assms by simp
  moreover have "n - k + i < c" using False assms by linarith
  ultimately show ?thesis using assms False by simp
qed

lemma Suc_mod_cases: "n < c \<Longrightarrow> Suc n mod c = (if Suc n = c then 0 else Suc n)"
  by auto

lemma ring_push_ok: "ring_ok es n k \<Longrightarrow>
  ring_ok (es[n := e]) (Suc n mod length es) (if k < length es then Suc k else k)"
  by (auto simp: ring_ok_def Suc_mod_cases)

lemma nth_ring_list:
  "ring_ok es n k \<Longrightarrow> i < k \<Longrightarrow>
   ring_list es n k ! i = es ! (if n + i < k then n + length es + i - k else n + i - k)"
  by (simp add: ring_list_def ring_ok_def ring_slot)

lemma ring_index:
  assumes "n < c" "k \<le> c" "i < (if k < c then Suc k else k :: nat)"
  defines "k' \<equiv> (if k < c then Suc k else k)" and "n' \<equiv> (if Suc n = c then 0 else Suc n)"
    and "j \<equiv> (if k < c then i else Suc i)"
  shows "(if n' + i < k' then n' + c + i - k' else n' + i - k') =
    (if Suc i = k' then n else if n + j < k then n + c + j - k else n + j - k)"
    and "Suc i \<noteq> k' \<Longrightarrow> j < k \<and> (if n + j < k then n + c + j - k else n + j - k) \<noteq> n"
  using assms(1-3) unfolding k'_def n'_def j_def
  by (cases "Suc n = c"; cases "k < c"; simp split: if_split; linarith)+

lemma nth_ring_push:
  assumes "ring_ok es n k" "k' = (if k < length es then Suc k else k)" "i < k'"
  shows "ring_list (es[n := e]) (Suc n mod length es) k' ! i =
    (ring_list es n k @ [e]) ! (if k < length es then i else Suc i)"
proof -
  have ok: "n < length es" "k \<le> length es" using assms by (auto simp: ring_ok_def)
  have i: "i < (if k < length es then Suc k else k)" using assms by simp
  note idx = ring_index [OF ok i]
  have "ring_list (es[n := e]) (Suc n mod length es) k' ! i = es[n := e] ! (if Suc i = k' then n
      else let j = (if k < length es then i else Suc i) in
        if n + j < k then n + length es + j - k else n + j - k)"
    using nth_ring_list [of "es[n := e]" "Suc n mod length es" k' i] ring_push_ok [OF assms(1), of e]
      assms(2,3) idx(1) by (simp only: Suc_mod_cases [OF ok(1)] Let_def length_list_update)
  also have "\<dots> = (ring_list es n k @ [e]) ! (if k < length es then i else Suc i)"
  proof (cases "Suc i = k'")
    case True
    then have "(if k < length es then i else Suc i) = k" using ok assms(2) by (simp split: if_splits)
    then show ?thesis using True ok by (simp add: nth_append)
  next
    case False
    then show ?thesis
      using idx(2) assms(1,2) by (simp add: Let_def nth_append nth_ring_list nth_list_update)
  qed
  finally show ?thesis .
qed

lemma ring_list_push:
  assumes "ring_ok es n k"
  shows "ring_list (es[n := e]) (Suc n mod length es) (if k < length es then Suc k else k)
    = lastn (length es) (ring_list es n k @ [e])"
proof (rule nth_equalityI)
  have k: "k \<le> length es" using assms by (simp add: ring_ok_def)
  have d: "(drop (Suc 0) xs @ [e]) ! i = (xs @ [e]) ! Suc i" if "i < length xs" for xs and i
    using that by (cases xs) (simp_all add: nth_append)
  show "length (ring_list (es[n := e]) (Suc n mod length es) (if k < length es then Suc k else k))
      = length (lastn (length es) (ring_list es n k @ [e]))" using k by simp
  fix i assume "i < length (ring_list (es[n := e]) (Suc n mod length es) (if k < length es then Suc k else k))"
  then have "i < (if k < length es then Suc k else k)" by simp
  then show "ring_list (es[n := e]) (Suc n mod length es) (if k < length es then Suc k else k) ! i
      = lastn (length es) (ring_list es n k @ [e]) ! i"
    using k by (subst nth_ring_push [OF assms refl]) (auto simp: lastn_def d)
qed

text \<open>A loop that updates distinct slots in place maps the update over those slots.\<close>

lemma length_fold_update [simp]:
  "length (fold (\<lambda>i es. es[f i := g (es ! f i)]) is es) = length es"
  by (induction "is" arbitrary: es) simp_all

lemma nth_fold_update:
  assumes "inj_on f (set is)" "distinct is" "j < length es"
  shows "fold (\<lambda>i es. es[f i := g (es ! f i)]) is es ! j
    = (if j \<in> f ` set is then g (es ! j) else es ! j)"
  using assms
proof (induction "is" arbitrary: es)
  case Nil
  then show ?case by simp
next
  case (Cons i "is")
  then have n: "f i \<notin> f ` set is" by (auto dest: inj_onD)
  let ?es = "es[f i := g (es ! f i)]"
  have "fold (\<lambda>i es. es[f i := g (es ! f i)]) is ?es ! j = (if j \<in> f ` set is then g (?es ! j) else ?es ! j)"
    using Cons by (intro Cons.IH) auto
  moreover have "?es ! j = (if j = f i then g (es ! j) else es ! j)" using Cons.prems(3) by simp
  ultimately show ?case using n by auto
qed

end
