(* ===== verification/Comm_Log.thy ===== *)
theory Comm_Log
  imports Ring_Log
begin

text \<open>
  The Modbus communication log (\<open>modbus/modbus_comm_log.c\<close>): a ring of the last 64 frames,
  each with a sequence number, the snapshot and export readers, and the back-dating of entries
  once the wall clock is known. The environment of a call is a record: whether the mutex could
  be created and was taken, and the clocks. \<open>localtime_r\<close> with \<open>strftime\<close>, and the name of a
  status code, are arguments of the formatter. The results: after any number of frames the ring
  holds the last 64 of them in order, with consecutive sequence numbers.
\<close>

section \<open>State\<close>

datatype comm_direction = MODBUS_COMM_TX | MODBUS_COMM_RX

record comm_entry =
  e_sequence :: u32
  e_timestamp_ms :: ms
  e_uptime_ms :: ms
  e_direction :: comm_direction
  e_slave_id :: u8
  e_function_code :: u8
  e_register_address :: u16
  e_register_count :: u16
  e_status :: esp_err
  e_frame_length :: nat
  e_truncated :: bool
  e_frame :: "u8 list"

abbreviation MODBUS_COMM_LOG_CAPACITY :: nat where "MODBUS_COMM_LOG_CAPACITY \<equiv> 64"
abbreviation MODBUS_COMM_FRAME_MAX :: nat where "MODBUS_COMM_FRAME_MAX \<equiv> 48"

definition zero_entry :: comm_entry where
  "zero_entry = \<lparr>e_sequence = 0, e_timestamp_ms = 0, e_uptime_ms = 0, e_direction = MODBUS_COMM_TX,
     e_slave_id = 0, e_function_code = 0, e_register_address = 0, e_register_count = 0,
     e_status = ESP_OK, e_frame_length = 0, e_truncated = False,
     e_frame = replicate MODBUS_COMM_FRAME_MAX 0\<rparr>"

record comm_log =
  cl_entries :: "comm_entry list"
  cl_mutex :: bool
  cl_next :: nat
  cl_count :: nat
  cl_sequence :: u32

definition comm_log_boot :: comm_log where
  "comm_log_boot = \<lparr>cl_entries = replicate MODBUS_COMM_LOG_CAPACITY zero_entry, cl_mutex = False,
     cl_next = 0, cl_count = 0, cl_sequence = 0\<rparr>"

text \<open>What a call finds: allocation of the mutex, the lock, the clocks.\<close>

record comm_env =
  env_alloc :: bool
  env_take :: bool
  env_uptime_ms :: ms
  env_wall_ms :: "ms option"  \<comment> \<open>None before the time is synchronised\<close>

text \<open>The arguments of one call of \<open>modbus_comm_log_add\<close>.\<close>

record comm_event =
  v_direction :: comm_direction
  v_slave_id :: u8
  v_function_code :: u8
  v_register_address :: u16
  v_register_count :: u16
  v_status :: esp_err
  v_frame :: "u8 list option"
  v_frame_length :: nat

section \<open>Operations\<close>

definition modbus_comm_log_init :: "bool \<Rightarrow> comm_log \<Rightarrow> comm_log" where
  "modbus_comm_log_init alloc s = (if cl_mutex s then s else s\<lparr>cl_mutex := alloc\<rparr>)"

definition build_entry :: "comm_env \<Rightarrow> comm_event \<Rightarrow> u32 \<Rightarrow> comm_entry" where
  "build_entry env v sequence =
     (let truncated = v_frame_length v > MODBUS_COMM_FRAME_MAX;
          len = (if truncated then MODBUS_COMM_FRAME_MAX else v_frame_length v);
          zeros = replicate MODBUS_COMM_FRAME_MAX 0
      in zero_entry\<lparr>
           e_sequence := sequence,
           e_timestamp_ms := (case env_wall_ms env of None \<Rightarrow> 0 | Some t \<Rightarrow> t),
           e_uptime_ms := env_uptime_ms env,
           e_direction := v_direction v,
           e_slave_id := v_slave_id v,
           e_function_code := v_function_code v,
           e_register_address := v_register_address v,
           e_register_count := v_register_count v,
           e_status := v_status v,
           e_truncated := truncated,
           e_frame_length := len,
           e_frame := (case v_frame v of
               Some frame \<Rightarrow> (if len > 0 then take len frame @ drop len zeros else zeros)
             | None \<Rightarrow> zeros)\<rparr>)"

definition log_insert :: "comm_entry \<Rightarrow> comm_log \<Rightarrow> comm_log" where
  "log_insert e s =
     s\<lparr>cl_entries := (cl_entries s)[cl_next s := e],
       cl_next := (cl_next s + 1) mod MODBUS_COMM_LOG_CAPACITY,
       cl_count := (if cl_count s < MODBUS_COMM_LOG_CAPACITY then cl_count s + 1 else cl_count s)\<rparr>"

definition modbus_comm_log_add :: "comm_env \<Rightarrow> comm_event \<Rightarrow> comm_log \<Rightarrow> comm_log" where
  "modbus_comm_log_add env v s =
     (let s = modbus_comm_log_init (env_alloc env) s in
      if \<not> cl_mutex s \<or> \<not> env_take env then s
      else
        let sequence = cl_sequence s + 1 in
        log_insert (build_entry env v sequence) (s\<lparr>cl_sequence := sequence\<rparr>))"

text \<open>\<open>%lld\<close>\<close>

definition dec_int :: "int \<Rightarrow> string" where
  "dec_int n = (if n < 0 then CHR ''-'' # dec (nat (- n)) else dec (nat n))"

text \<open>\<open>%03d\<close> of the milliseconds of a second\<close>

definition dec3 :: "nat \<Rightarrow> string" where
  "dec3 n = replicate (3 - length (dec n)) (CHR ''0'') @ dec n"

text \<open>
  \<open>localtime\<close> gives the formatted second, or None when the conversion fails; \<open>names\<close> is
  \<open>esp_err_to_name\<close>. The buffer has \<open>len\<close> bytes.
\<close>

definition modbus_comm_log_format_line ::
  "(int \<Rightarrow> string option) \<Rightarrow> (esp_err \<Rightarrow> string) \<Rightarrow> comm_entry \<Rightarrow> nat \<Rightarrow> string" where
  "modbus_comm_log_format_line localtime names e len =
     (let uptime = strlcpy 40 (CHR ''U'' # dec_int (e_uptime_ms e));
          ts = (if e_timestamp_ms e > 0 then
                  (case localtime (e_timestamp_ms e div 1000) of
                     Some text \<Rightarrow> strlcpy 40 (text @ ''.'' @ dec3 (nat (e_timestamp_ms e mod 1000)))
                   | None \<Rightarrow> uptime)
                else uptime);
          dir = (if e_direction e = MODBUS_COMM_TX then ''TX'' else ''RX'');
          st = (if e_status e = ESP_OK then ''OK'' else names (e_status e));
          bytes = concat (map (\<lambda>b. hex True 2 (unat b)) (take (e_frame_length e) (e_frame e)))
      in strlcpy len (ts @ '' ['' @ dir @ ''] slave='' @ dec (unat (e_slave_id e)) @
           '' fn=0x'' @ hex True 2 (unat (e_function_code e)) @
           '' addr='' @ dec (unat (e_register_address e)) @
           '' cnt='' @ dec (unat (e_register_count e)) @
           '' len='' @ dec (e_frame_length e) @ '' status='' @ st @ '' frame='' @ bytes @
           (if e_truncated e then ''(trunc)'' else []) @ [CHR 0x0A]))"

definition log_oldest :: "comm_log \<Rightarrow> nat" where
  "log_oldest s = (cl_next s + MODBUS_COMM_LOG_CAPACITY - cl_count s) mod MODBUS_COMM_LOG_CAPACITY"

definition log_slot :: "comm_log \<Rightarrow> nat \<Rightarrow> nat" where
  "log_slot s i = (log_oldest s + i) mod MODBUS_COMM_LOG_CAPACITY"

text \<open>
  The lines handed to the callback, in order; \<open>calloc\<close> says whether the copy could be
  allocated.
\<close>

definition modbus_comm_log_iterate_tail ::
  "(int \<Rightarrow> string option) \<Rightarrow> (esp_err \<Rightarrow> string) \<Rightarrow> comm_env \<Rightarrow> bool \<Rightarrow> ms \<Rightarrow> comm_log
    \<Rightarrow> comm_log \<times> string list" where
  "modbus_comm_log_iterate_tail localtime names env calloc min_uptime s =
     (let s = modbus_comm_log_init (env_alloc env) s in
      if \<not> cl_mutex s \<or> \<not> env_take env then (s, [])
      else
        let tail = filter (\<lambda>e. e_uptime_ms e > min_uptime)
                     (map (\<lambda>i. cl_entries s ! log_slot s i) [0..<cl_count s]);
            copy = (if 0 < length tail \<and> calloc then tail else [])
        in (s, map (\<lambda>e. modbus_comm_log_format_line localtime names e 256) copy))"

definition modbus_comm_log_snapshot :: "bool \<Rightarrow> int \<Rightarrow> comm_log \<Rightarrow> comm_entry list" where
  "modbus_comm_log_snapshot lock max_entries s =
     (if max_entries \<le> 0 \<or> \<not> cl_mutex s \<or> \<not> lock then []
      else
        let limit = unat (word_of_int max_entries :: u16);
            copy_count = (if cl_count s < limit then cl_count s else limit);
            skip = cl_count s - copy_count;
            start = (log_oldest s + skip) mod MODBUS_COMM_LOG_CAPACITY
        in map (\<lambda>i. cl_entries s ! ((start + i) mod MODBUS_COMM_LOG_CAPACITY)) [0..<copy_count])"

definition modbus_comm_log_count :: "bool \<Rightarrow> comm_log \<Rightarrow> nat" where
  "modbus_comm_log_count lock s = (if \<not> cl_mutex s \<or> \<not> lock then 0 else cl_count s)"

definition modbus_comm_log_get :: "bool \<Rightarrow> int \<Rightarrow> comm_log \<Rightarrow> comm_entry option" where
  "modbus_comm_log_get lock index s =
     (if index < 0 \<or> \<not> cl_mutex s \<or> \<not> lock then None
      else if index < int (cl_count s)
      then Some (cl_entries s ! ((log_oldest s + nat index) mod MODBUS_COMM_LOG_CAPACITY))
      else None)"

definition anchor_entry :: "ms \<Rightarrow> ms \<Rightarrow> comm_entry \<Rightarrow> comm_entry" where
  "anchor_entry wall_now uptime_now e =
     (if e_timestamp_ms e = 0 \<and> e_uptime_ms e \<le> uptime_now
      then e\<lparr>e_timestamp_ms := wall_now - uptime_now + e_uptime_ms e\<rparr> else e)"

definition modbus_comm_log_anchor_wall_time :: "bool \<Rightarrow> ms \<Rightarrow> ms \<Rightarrow> comm_log \<Rightarrow> comm_log" where
  "modbus_comm_log_anchor_wall_time lock wall_now uptime_now s =
     (if wall_now \<le> 0 \<or> uptime_now < 0 \<or> \<not> cl_mutex s \<or> \<not> lock then s
      else s\<lparr>cl_entries := fold (\<lambda>i es. es[log_slot s i := anchor_entry wall_now uptime_now (es ! log_slot s i)])
               [0..<cl_count s] (cl_entries s)\<rparr>)"

definition modbus_comm_log_clear :: "bool \<Rightarrow> bool \<Rightarrow> comm_log \<Rightarrow> comm_log" where
  "modbus_comm_log_clear alloc lock s =
     (let s = modbus_comm_log_init alloc s in
      if \<not> cl_mutex s \<or> \<not> lock then s
      else s\<lparr>cl_entries := replicate MODBUS_COMM_LOG_CAPACITY zero_entry, cl_next := 0, cl_count := 0\<rparr>)"

section \<open>The ring\<close>

definition log_ok :: "comm_log \<Rightarrow> bool" where
  "log_ok s \<longleftrightarrow> length (cl_entries s) = MODBUS_COMM_LOG_CAPACITY \<and>
     ring_ok (cl_entries s) (cl_next s) (cl_count s)"

definition log_list :: "comm_log \<Rightarrow> comm_entry list" where
  "log_list s = ring_list (cl_entries s) (cl_next s) (cl_count s)"

lemma log_ok_boot [inv_intros]: "log_ok comm_log_boot"
  by (simp add: log_ok_def comm_log_boot_def ring_ok_def)

lemma log_list_boot: "log_list comm_log_boot = []"
  by (simp add: log_list_def comm_log_boot_def ring_list_def)

lemma log_insert_ok: "log_ok s \<Longrightarrow> log_ok (log_insert e s)"
  using ring_push_ok [of "cl_entries s" "cl_next s" "cl_count s" e]
  by (auto simp: log_ok_def log_insert_def)

lemma log_insert_list: "log_ok s \<Longrightarrow>
    log_list (log_insert e s) = lastn MODBUS_COMM_LOG_CAPACITY (log_list s @ [e])"
  using ring_list_push [of "cl_entries s" "cl_next s" "cl_count s" e]
  by (auto simp: log_ok_def log_list_def log_insert_def)

interpretation comm: ring_log log_insert log_list MODBUS_COMM_LOG_CAPACITY log_ok
proof unfold_locales
  show "log_ok s \<Longrightarrow> log_ok (log_insert e s)" for s e by (rule log_insert_ok)
  show "log_ok s \<Longrightarrow> log_list (log_insert e s) = lastn MODBUS_COMM_LOG_CAPACITY (log_list s @ [e])" for s e
    by (rule log_insert_list)
  show "log_ok s \<Longrightarrow> length (log_list s) \<le> MODBUS_COMM_LOG_CAPACITY" for s
    by (simp add: log_ok_def log_list_def ring_ok_def)
qed

lemma log_ok_frame [simp]:
  "log_ok (s\<lparr>cl_sequence := q\<rparr>) = log_ok s" "log_ok (s\<lparr>cl_mutex := b\<rparr>) = log_ok s"
  "log_list (s\<lparr>cl_sequence := q\<rparr>) = log_list s" "log_list (s\<lparr>cl_mutex := b\<rparr>) = log_list s"
  by (simp_all add: log_ok_def log_list_def)

lemma log_init_simps [simp]:
  "log_ok (modbus_comm_log_init a s) = log_ok s"
  "log_list (modbus_comm_log_init a s) = log_list s"
  "cl_sequence (modbus_comm_log_init a s) = cl_sequence s"
  by (simp_all add: modbus_comm_log_init_def)

lemma log_insert_simps [simp]:
  "cl_sequence (log_insert e s) = cl_sequence s" "cl_mutex (log_insert e s) = cl_mutex s"
  by (simp_all add: log_insert_def)

lemma log_add_ok [inv_intros]: "log_ok s \<Longrightarrow> log_ok (modbus_comm_log_add env v s)"
  by (simp add: modbus_comm_log_add_def Let_def log_insert_ok)

lemma log_slot_list:
  "log_ok s \<Longrightarrow> i < cl_count s \<Longrightarrow> cl_entries s ! log_slot s i = log_list s ! i"
  by (simp add: log_ok_def log_list_def ring_list_def log_slot_def log_oldest_def ring_oldest_def)

lemma log_slots: "log_ok s \<Longrightarrow> map (\<lambda>i. cl_entries s ! log_slot s i) [0..<cl_count s] = log_list s"
  by (rule nth_equalityI) (simp_all add: log_slot_list, simp add: log_list_def)

lemma length_log_list [simp]: "length (log_list s) = cl_count s"
  by (simp add: log_list_def)

lemma snapshot_list:
  assumes "log_ok s" "cl_mutex s" "0 < n" "n < 65536"
  shows "modbus_comm_log_snapshot True n s = lastn (nat n) (log_list s)"
proof -
  have u: "unat (word_of_int n :: u16) = nat n"
    using assms(3,4) by (simp add: unat_eq_nat_uint uint_word_of_int_eq take_bit_int_eq_self)
  define c where "c = (if cl_count s < nat n then cl_count s else nat n)"
  have c: "c \<le> cl_count s" by (simp add: c_def)
  have slot: "cl_entries s ! (((log_oldest s + cl_count s - c) mod MODBUS_COMM_LOG_CAPACITY + i)
      mod MODBUS_COMM_LOG_CAPACITY) = log_list s ! (cl_count s - c + i)" if "i < c" for i
    using log_slot_list [OF assms(1), of "cl_count s - c + i"] that c
    by (simp add: log_slot_def mod_add_left_eq add.assoc)
  have "modbus_comm_log_snapshot True n s = map (\<lambda>i. log_list s ! (cl_count s - c + i)) [0..<c]"
    using assms(2,3) slot by (simp add: modbus_comm_log_snapshot_def Let_def u c_def [symmetric])
  also have "\<dots> = lastn (nat n) (log_list s)"
    by (rule nth_equalityI) (simp_all add: c_def lastn_def)
  finally show ?thesis .
qed

lemma log_slot_inj: "log_ok s \<Longrightarrow> inj_on (log_slot s) {0..<cl_count s}"
proof (rule inj_onI)
  fix i j
  assume ok: "log_ok s" and ij: "i \<in> {0..<cl_count s}" "j \<in> {0..<cl_count s}" and e: "log_slot s i = log_slot s j"
  have b: "cl_next s < 64" "cl_count s \<le> 64" using ok by (auto simp: log_ok_def ring_ok_def)
  have "log_slot s k = (if cl_next s + k < cl_count s then cl_next s + 64 + k - cl_count s
      else cl_next s + k - cl_count s)" if "k < cl_count s" for k
    using ring_slot [OF b that] by (simp add: log_slot_def log_oldest_def ring_oldest_def)
  then show "i = j" using e ij b by (simp split: if_splits)
qed

lemma anchor_list:
  assumes "log_ok s" "cl_mutex s" "0 < wall" "0 \<le> up"
  shows "log_list (modbus_comm_log_anchor_wall_time True wall up s) = map (anchor_entry wall up) (log_list s)"
proof -
  let ?s = "modbus_comm_log_anchor_wall_time True wall up s"
  have slot: "log_slot s i < length (cl_entries s)" for i
    using assms(1) by (simp add: log_ok_def log_slot_def)
  have es: "cl_entries ?s = fold (\<lambda>i es. es[log_slot s i := anchor_entry wall up (es ! log_slot s i)])
      [0..<cl_count s] (cl_entries s)"
    using assms by (simp add: modbus_comm_log_anchor_wall_time_def)
  have inj: "inj_on (log_slot s) (set [0..<cl_count s])" using log_slot_inj [OF assms(1)] by simp
  have l: "length (cl_entries ?s) = length (cl_entries s)" unfolding es by (rule length_fold_update)
  have same: "cl_next ?s = cl_next s" "cl_count ?s = cl_count s"
    by (simp_all add: modbus_comm_log_anchor_wall_time_def)
  have ok: "log_ok ?s" using assms(1) by (simp add: log_ok_def ring_ok_def l same)
  show ?thesis
  proof (rule nth_equalityI)
    fix i assume "i < length (log_list ?s)"
    then have i: "i < cl_count s" by (simp add: same)
    have "log_slot ?s i = log_slot s i" by (simp add: log_slot_def log_oldest_def same)
    then have "log_list ?s ! i = cl_entries ?s ! log_slot s i"
      using log_slot_list [OF ok, of i] i by (simp add: same)
    also have "\<dots> = anchor_entry wall up (cl_entries s ! log_slot s i)"
      unfolding es using i by (subst nth_fold_update [OF inj _ slot]) (auto simp: slot)
    finally show "log_list ?s ! i = map (anchor_entry wall up) (log_list s) ! i"
      using i log_slot_list [OF assms(1) i] by simp
  qed (simp add: same)
qed

text \<open>The entries a sequence of calls builds, numbered from \<open>q + 1\<close>.\<close>

fun comm_history :: "u32 \<Rightarrow> (comm_env \<times> comm_event) list \<Rightarrow> comm_entry list" where
  "comm_history q [] = []"
| "comm_history q ((env, v) # vs) = build_entry env v (q + 1) # comm_history (q + 1) vs"

definition comm_adds :: "(comm_env \<times> comm_event) list \<Rightarrow> comm_log \<Rightarrow> comm_log" where
  "comm_adds vs s = fold (\<lambda>(env, v). modbus_comm_log_add env v) vs s"

lemma comm_adds_list:
  "log_ok s \<Longrightarrow> cl_mutex s \<Longrightarrow> \<forall>(env, v) \<in> set vs. env_take env \<Longrightarrow>
   log_list (comm_adds vs s) = lastn MODBUS_COMM_LOG_CAPACITY (log_list s @ comm_history (cl_sequence s) vs)"
proof (induction vs arbitrary: s)
  case Nil
  then show ?case using comm.entries_bound by (simp add: comm_adds_def)
next
  case (Cons p vs)
  obtain env v where p: "p = (env, v)" by fastforce
  let ?e = "build_entry env v (cl_sequence s + 1)"
  let ?s = "modbus_comm_log_add env v s"
  have s: "?s = log_insert ?e (s\<lparr>cl_sequence := cl_sequence s + 1\<rparr>)"
    using Cons.prems by (simp add: modbus_comm_log_add_def modbus_comm_log_init_def p Let_def)
  have "log_list (comm_adds vs ?s) = lastn MODBUS_COMM_LOG_CAPACITY (log_list ?s @ comm_history (cl_sequence ?s) vs)"
    using Cons.prems by (intro Cons.IH) (auto simp: s log_insert_ok)
  then show ?case
    using Cons.prems by (simp add: comm_adds_def p s log_insert_list lastn_lastn_append)
qed

section \<open>Properties\<close>

text \<open>
  After any sequence of frames the log holds exactly the last 64 of them, oldest first,
  with consecutive sequence numbers, however often the ring has wrapped; the snapshot of up to
  \<open>n\<close> entries is the end of that list.
\<close>

lemma comm_log_last_frames:
  assumes "\<forall>(env, v) \<in> set vs. env_take env" "0 < n" "n < 65536"
  shows "modbus_comm_log_snapshot True n (comm_adds vs (modbus_comm_log_init True comm_log_boot))
    = lastn (nat n) (lastn MODBUS_COMM_LOG_CAPACITY (comm_history 0 vs))"
proof -
  let ?s = "modbus_comm_log_init True comm_log_boot"
  have s: "log_ok ?s" "cl_mutex ?s" "log_list ?s = []" "cl_sequence ?s = 0"
    using log_ok_boot log_list_boot by simp_all (simp_all add: modbus_comm_log_init_def comm_log_boot_def)
  have "log_ok (comm_adds vs s) \<and> cl_mutex (comm_adds vs s)" if "log_ok s" "cl_mutex s" for s
    using that unfolding comm_adds_def
    by (induction vs arbitrary: s)
       (auto simp: log_add_ok modbus_comm_log_add_def modbus_comm_log_init_def Let_def log_insert_ok)
  then have "log_ok (comm_adds vs ?s)" "cl_mutex (comm_adds vs ?s)" using s by blast+
  then show ?thesis using comm_adds_list [OF s(1,2) assms(1)] assms(2,3) s(3,4)
    by (simp add: snapshot_list)
qed

lemma comm_log_last_frames_witness:
  "map e_sequence (modbus_comm_log_snapshot True 2 (comm_adds
     (map (\<lambda>i. (\<lparr>env_alloc = True, env_take = True, env_uptime_ms = int i, env_wall_ms = None\<rparr>,
        \<lparr>v_direction = MODBUS_COMM_TX, v_slave_id = 1, v_function_code = 3, v_register_address = 0,
         v_register_count = 2, v_status = ESP_OK, v_frame = Some [1, 3, 0, 0, 0, 2], v_frame_length = 6\<rparr>))
      [0..<3]) (modbus_comm_log_init True comm_log_boot))) = [2, 3]"
  by (subst comm_log_last_frames)
    (simp_all add: upt_rec lastn_def build_entry_def Let_def)

text \<open>
  Once the clock is known, anchoring gives every entry recorded before it the wall time of
  its own uptime and leaves the others, their order and their number alone.
\<close>

lemma anchored_entries:
  assumes "log_ok s" "cl_mutex s" "0 < wall" "0 \<le> up"
  shows "log_list (modbus_comm_log_anchor_wall_time True wall up s) = map (anchor_entry wall up) (log_list s)"
  using assms by (rule anchor_list)

lemma anchored_entries_witness:
  "map e_timestamp_ms (log_list (modbus_comm_log_anchor_wall_time True 1000 100
     (log_insert (zero_entry\<lparr>e_uptime_ms := 40\<rparr>) (modbus_comm_log_init True comm_log_boot)))) = [940]"
  by (subst anchored_entries)
    (simp_all add: log_insert_ok log_insert_list log_ok_boot log_list_boot anchor_entry_def zero_entry_def
      modbus_comm_log_init_def [of True comm_log_boot] comm_log_boot_def [THEN arg_cong [of _ _ cl_mutex]])

end
