(* ===== verification/Modbus_Access.thy ===== *)
theory Modbus_Access
  imports Modbus_Codec Comm_Log Runtime_Config
begin

text \<open>
  The Modbus master (\<open>modbus/modbus_access.c\<close>): RTU frames with their CRC, the requests handed
  to the bus controller with the frames logged for them, the Modbus TCP transaction over a
  stream socket, and the entry points that choose between the two. The controller
  (\<open>mbc_master_send_request\<close>) and the network are arguments: what the controller answers to a
  request, and what the sockets return to each call. The results: a frame with its CRC has
  residue zero and a changed byte changes the CRC, a TCP reply is the same whatever its
  segmentation, and every frame and PDU fits its buffer.
\<close>

section \<open>RTU frames\<close>

definition crc16_bit :: "u16 \<Rightarrow> u16" where
  "crc16_bit crc = (if crc AND 1 \<noteq> 0 then drop_bit 1 crc XOR 0xA001 else drop_bit 1 crc)"

definition crc16_byte :: "u8 \<Rightarrow> u16 \<Rightarrow> u16" where
  "crc16_byte b crc = (crc16_bit ^^ 8) (crc XOR ucast b)"

definition modbus_rtu_crc16 :: "u8 list \<Rightarrow> u16" where
  "modbus_rtu_crc16 data = fold crc16_byte data 0xFFFF"

definition append_rtu_crc :: "u8 list \<Rightarrow> u8 list" where
  "append_rtu_crc payload =
     (let crc = modbus_rtu_crc16 payload in payload @ [low_byte crc, high_byte crc])"

definition word_bytes :: "u16 \<Rightarrow> u8 list" where
  "word_bytes w = [high_byte w, low_byte w]"

definition build_rtu_read_request :: "u8 \<Rightarrow> u8 \<Rightarrow> u16 \<Rightarrow> u16 \<Rightarrow> u8 list" where
  "build_rtu_read_request slave fc addr count =
     append_rtu_crc ([slave, fc] @ word_bytes addr @ word_bytes count)"

definition build_rtu_read_response :: "u8 \<Rightarrow> u8 \<Rightarrow> u16 list \<Rightarrow> u16 \<Rightarrow> u8 list" where
  "build_rtu_read_response slave fc regs count =
     append_rtu_crc ([slave, fc, ucast (count * 2)] @ concat (map word_bytes (take (unat count) regs)))"

definition build_rtu_write_request :: "u8 \<Rightarrow> u8 \<Rightarrow> u16 \<Rightarrow> u16 \<Rightarrow> u16 list \<Rightarrow> u8 list" where
  "build_rtu_write_request slave fc addr count regs =
     (if fc = 6 then append_rtu_crc ([slave, fc] @ word_bytes addr @ word_bytes (hd regs))
      else append_rtu_crc ([slave, fc] @ word_bytes addr @ word_bytes count @ [ucast (count * 2)] @
             concat (map word_bytes (take (unat count) regs))))"

section \<open>Sockets\<close>

text \<open>What successive \<open>recv\<close> calls find: data, an orderly close (0) or an error.\<close>

datatype recv_event = Data "u8 list" | Closed | Failed

text \<open>The counts successive \<open>send\<close> calls return.\<close>

fun socket_send_all :: "int \<Rightarrow> int list \<Rightarrow> esp_err" where
  "socket_send_all todo [] = (if todo \<le> 0 then ESP_OK else ESP_FAIL)"
| "socket_send_all todo (r # rs) =
     (if todo \<le> 0 then ESP_OK else if r \<le> 0 then ESP_FAIL else socket_send_all (todo - r) rs)"

text \<open>
  A \<open>recv\<close> returns at most what was asked for and leaves the rest of a segment in the stream;
  an empty segment is a count of zero.
\<close>

fun socket_receive_all :: "nat \<Rightarrow> recv_event list \<Rightarrow> u8 list \<Rightarrow> (u8 list, esp_err) sum \<times> recv_event list" where
  "socket_receive_all n [] got = (if n = 0 then (Inl got, []) else (Inr ESP_FAIL, []))"
| "socket_receive_all n (e # es) got =
     (if n = 0 then (Inl got, e # es)
      else case e of
        Data [] \<Rightarrow> (Inr ESP_ERR_INVALID_RESPONSE, es)
      | Closed \<Rightarrow> (Inr ESP_ERR_INVALID_RESPONSE, es)
      | Failed \<Rightarrow> (Inr ESP_FAIL, es)
      | Data xs \<Rightarrow>
          (if length xs \<le> n then socket_receive_all (n - length xs) es (got @ xs)
           else (Inl (got @ take n xs), Data (drop n xs) # es)))"

section \<open>Modbus TCP\<close>

definition tcp_endpoint_for :: "runtime_config \<Rightarrow> u8 \<Rightarrow> tcp_endpoint option" where
  "tcp_endpoint_for config channel =
     List.find (\<lambda>ep. ep_enabled ep \<and> ep_endpoint_id ep = channel)
       (take (unat (rc_tcp_endpoint_count config)) (rc_tcp_endpoints config))"

text \<open>The network a transaction meets; the peer's stream may depend on the request.\<close>

record tcp_net =
  net_resolves :: bool
  net_socket :: bool
  net_connects :: bool
  net_sends :: "int list"
  net_recvs :: "u8 list \<Rightarrow> recv_event list"

definition tcp_request :: "u16 \<Rightarrow> u8 \<Rightarrow> u8 list \<Rightarrow> u8 list" where
  "tcp_request transaction unit_id pdu =
     word_bytes transaction @ [0, 0] @ word_bytes (word_of_nat (length pdu + 1)) @ [unit_id] @ pdu"

text \<open>The received header and body of a transaction: \<open>capacity\<close> is the size of the response buffer.\<close>

definition tcp_receive :: "u8 list \<Rightarrow> nat \<Rightarrow> recv_event list \<Rightarrow> (u8 list, esp_err) sum" where
  "tcp_receive request capacity stream =
     (case socket_receive_all 7 stream [] of
        (Inr e, _) \<Rightarrow> Inr e
      | (Inl header, rest) \<Rightarrow>
          (let body_size = unat (header ! 4) * 256 + unat (header ! 5) in
           if body_size < 2 \<or> body_size - 1 > capacity \<or>
              header ! 0 \<noteq> request ! 0 \<or> header ! 1 \<noteq> request ! 1
           then Inr ESP_ERR_INVALID_RESPONSE
           else case fst (socket_receive_all (body_size - 1) rest []) of
               Inr e \<Rightarrow> Inr e
             | Inl body \<Rightarrow> (if hd body AND 0x80 \<noteq> 0 then Inr ESP_ERR_INVALID_RESPONSE else Inl body)))"

text \<open>The new transaction counter and the response PDU.\<close>

definition tcp_exchange ::
  "runtime_config \<Rightarrow> tcp_net \<Rightarrow> u16 \<Rightarrow> u8 \<Rightarrow> u8 \<Rightarrow> u8 list \<Rightarrow> nat \<Rightarrow> u16 \<times> (u8 list, esp_err) sum" where
  "tcp_exchange config net tid channel unit_id pdu capacity =
     (case tcp_endpoint_for config channel of
        None \<Rightarrow> (tid, Inr ESP_ERR_NOT_FOUND)
      | Some _ \<Rightarrow>
          (if \<not> net_resolves net then (tid, Inr ESP_ERR_NOT_FOUND)
           else if \<not> net_socket net then (tid, Inr ESP_FAIL)
           else if \<not> net_connects net then (tid, Inr ESP_ERR_TIMEOUT)
           else
             let transaction = tid + 1;
                 request = tcp_request transaction unit_id pdu
             in (transaction,
                 if socket_send_all (int (7 + length pdu)) (net_sends net) \<noteq> ESP_OK then Inr ESP_FAIL
                 else tcp_receive request capacity (net_recvs net request))))"

definition packed_bit :: "u8 list \<Rightarrow> nat \<Rightarrow> u16" where
  "packed_bit packed i = ucast (drop_bit (i mod 8) (packed ! (i div 8)) AND 1)"

definition parse_tcp_read :: "u8 \<Rightarrow> u16 \<Rightarrow> u8 list \<Rightarrow> (u16 list, esp_err) sum" where
  "parse_tcp_read fc reg_count response =
     (let n = unat reg_count in
      if hd response \<noteq> fc then Inr ESP_ERR_INVALID_RESPONSE
      else if fc = 1 \<or> fc = 2 then
        (let byte_count = (n + 7) div 8 in
         if length response \<noteq> 2 + byte_count \<or> unat (response ! 1) \<noteq> byte_count
         then Inr ESP_ERR_INVALID_RESPONSE
         else Inl (map (packed_bit (drop 2 response)) [0..<n]))
      else if length response \<noteq> 2 + n * 2 \<or> unat (response ! 1) \<noteq> n * 2 then Inr ESP_ERR_INVALID_RESPONSE
      else Inl (map (\<lambda>i. push_bit 8 (ucast (response ! (2 + i * 2))) OR ucast (response ! (3 + i * 2))) [0..<n]))"

definition modbus_tcp_read ::
  "runtime_config \<Rightarrow> tcp_net \<Rightarrow> u16 \<Rightarrow> u8 \<Rightarrow> u8 \<Rightarrow> u8 \<Rightarrow> u16 \<Rightarrow> u16 \<Rightarrow> u16 \<times> (u16 list, esp_err) sum" where
  "modbus_tcp_read config net tid channel slave fc addr reg_count =
     (case tcp_exchange config net tid channel slave
             ([fc] @ word_bytes addr @ word_bytes reg_count) 260 of
        (tid, Inr e) \<Rightarrow> (tid, Inr e)
      | (tid, Inl response) \<Rightarrow> (tid, parse_tcp_read fc reg_count response))"

text \<open>The loop that sets bit \<open>i mod 8\<close> of byte \<open>i div 8\<close> for every nonzero value.\<close>

definition pack_bits :: "u8 list \<Rightarrow> u16 list \<Rightarrow> nat \<Rightarrow> u8 list" where
  "pack_bits buffer regs n =
     fold (\<lambda>i packed. if regs ! i \<noteq> 0
             then packed[i div 8 := packed ! (i div 8) OR push_bit (i mod 8) 1] else packed)
       [0..<n] buffer"

definition tcp_write_pdu :: "u8 \<Rightarrow> u16 \<Rightarrow> u16 \<Rightarrow> u16 list \<Rightarrow> u8 list option" where
  "tcp_write_pdu fc addr reg_count regs =
     (let n = unat reg_count in
      if fc = 5 \<and> n = 1 then
        Some ([5] @ word_bytes addr @ word_bytes (if hd regs \<noteq> 0 then 0xFF00 else 0))
      else if fc = 15 \<and> n \<le> 1968 then
        (let byte_count = (n + 7) div 8 in
         Some ([15] @ word_bytes addr @ word_bytes reg_count @ [word_of_nat byte_count] @
               pack_bits (replicate byte_count 0) regs n))
      else if fc = 6 \<and> n = 1 then Some ([6] @ word_bytes addr @ word_bytes (hd regs))
      else if fc = 16 \<and> n \<le> 123 then
        Some ([16] @ word_bytes addr @ word_bytes reg_count @ [word_of_nat (n * 2)] @
              concat (map word_bytes (take n regs)))
      else None)"

definition modbus_tcp_write ::
  "runtime_config \<Rightarrow> tcp_net \<Rightarrow> u16 \<Rightarrow> u8 \<Rightarrow> u8 \<Rightarrow> u8 \<Rightarrow> u16 \<Rightarrow> u16 \<Rightarrow> u16 list \<Rightarrow> u16 \<times> esp_err" where
  "modbus_tcp_write config net tid channel slave fc addr reg_count regs =
     (case tcp_write_pdu fc addr reg_count regs of
        None \<Rightarrow> (tid, ESP_ERR_INVALID_ARG)
      | Some pdu \<Rightarrow>
          (case tcp_exchange config net tid channel slave pdu 16 of
             (tid, Inr e) \<Rightarrow> (tid, e)
           | (tid, Inl response) \<Rightarrow>
               (tid, if length response = 5 \<and> hd response = fc then ESP_OK else ESP_ERR_INVALID_RESPONSE)))"

section \<open>The controller\<close>

text \<open>
  A request and what the controller answers: a status and the registers, or the packed bits,
  it wrote to the caller's buffer.
\<close>

record mb_request =
  mb_slave_addr :: u8
  mb_reg_start :: u16
  mb_reg_size :: u16
  mb_command :: u8

datatype mb_payload = Registers "u16 list" | Packed "u8 list"

type_synonym mb_master = "mb_request \<Rightarrow> mb_payload \<Rightarrow> esp_err \<times> mb_payload"

record access_state =
  a_mutex :: bool
  a_probe_mode :: bool
  a_handle :: bool
  a_initialised :: bool
  a_transaction_id :: u16
  a_log :: comm_log

text \<open>What a call finds: the bus, the network, the locks, the configuration.\<close>

record access_env =
  x_master :: mb_master
  x_net :: tcp_net
  x_config :: runtime_config
  x_alloc :: bool
  x_lock :: bool
  x_log_env :: comm_env

abbreviation MODBUS_MAX_REG_COUNT :: nat where "MODBUS_MAX_REG_COUNT \<equiv> 64"

definition modbus_lock :: "access_env \<Rightarrow> access_state \<Rightarrow> esp_err" where
  "modbus_lock env s =
     (if \<not> a_mutex s then ESP_ERR_INVALID_STATE else if \<not> x_lock env then ESP_ERR_TIMEOUT else ESP_OK)"

definition log_frame ::
  "access_env \<Rightarrow> comm_direction \<Rightarrow> mb_request \<Rightarrow> esp_err \<Rightarrow> u8 list option \<Rightarrow> access_state \<Rightarrow> access_state" where
  "log_frame env dir req status frame s =
     s\<lparr>a_log := modbus_comm_log_add (x_log_env env)
        \<lparr>v_direction = dir, v_slave_id = mb_slave_addr req, v_function_code = mb_command req,
         v_register_address = mb_reg_start req, v_register_count = mb_reg_size req,
         v_status = status, v_frame = frame,
         v_frame_length = (case frame of None \<Rightarrow> 0 | Some f \<Rightarrow> length f)\<rparr> (a_log s)\<rparr>"

definition registers_of :: "mb_payload \<Rightarrow> u16 list" where
  "registers_of p = (case p of Registers ws \<Rightarrow> ws | Packed _ \<Rightarrow> [])"

definition packed_of :: "mb_payload \<Rightarrow> u8 list" where
  "packed_of p = (case p of Packed bs \<Rightarrow> bs | Registers _ \<Rightarrow> [])"

text \<open>
  FC 3 (\<open>holding\<close>) or FC 4. The result is the status and the caller's buffer, None when
  it is not touched.
\<close>

definition modbus_read_registers_internal ::
  "access_env \<Rightarrow> u8 \<Rightarrow> bool \<Rightarrow> u16 \<Rightarrow> u16 \<Rightarrow> access_state \<Rightarrow> access_state \<times> esp_err \<times> u16 list option" where
  "modbus_read_registers_internal env slave holding addr reg_count s =
     (if reg_count = 0 \<or> unat reg_count > MODBUS_MAX_REG_COUNT then (s, ESP_ERR_INVALID_ARG, None)
      else if \<not> a_initialised s then (s, ESP_ERR_INVALID_STATE, None)
      else
        let zeros = replicate (unat reg_count) 0;
            fc = (if holding then 3 else 4);
            req = \<lparr>mb_slave_addr = slave, mb_reg_start = addr, mb_reg_size = reg_count, mb_command = fc\<rparr>;
            tx_frame = build_rtu_read_request slave fc addr reg_count;
            err = modbus_lock env s
        in if err \<noteq> ESP_OK then (s, err, Some zeros)
        else
          let s = log_frame env MODBUS_COMM_TX req ESP_OK (Some tx_frame) s;
              (mb_err, answer) = x_master env req (Registers zeros);
              raw_regs = registers_of answer
          in (if mb_err = ESP_OK
              then log_frame env MODBUS_COMM_RX req ESP_OK
                     (Some (build_rtu_read_response slave fc raw_regs reg_count)) s
              else log_frame env MODBUS_COMM_RX req mb_err None s,
              mb_err, Some raw_regs))"

text \<open>FC 1 or FC 2.\<close>

definition modbus_read_bits_internal ::
  "access_env \<Rightarrow> u8 \<Rightarrow> u8 \<Rightarrow> u16 \<Rightarrow> u16 \<Rightarrow> access_state \<Rightarrow> access_state \<times> esp_err \<times> u16 list option" where
  "modbus_read_bits_internal env slave fc addr count s =
     (if count = 0 \<or> unat count > MODBUS_MAX_REG_COUNT \<or> (fc \<noteq> 1 \<and> fc \<noteq> 2) \<or> \<not> a_initialised s
      then (s, ESP_ERR_INVALID_ARG, None)
      else
        let req = \<lparr>mb_slave_addr = slave, mb_reg_start = addr, mb_reg_size = count, mb_command = fc\<rparr>;
            tx_frame = build_rtu_read_request slave fc addr count;
            err = modbus_lock env s
        in if err \<noteq> ESP_OK then (s, err, None)
        else
          let s = log_frame env MODBUS_COMM_TX req ESP_OK (Some tx_frame) s;
              (err, answer) = x_master env req (Packed (replicate 8 0));
              packed = packed_of answer;
              n = (unat count + 7) div 8
          in if err = ESP_OK
             then (log_frame env MODBUS_COMM_RX req ESP_OK
                     (Some (append_rtu_crc ([slave, fc, word_of_nat n] @ take n packed))) s,
                   err, Some (map (packed_bit packed) [0..<unat count]))
             else (log_frame env MODBUS_COMM_RX req err None s, err, None))"

definition modbus_access_set_probe_mode :: "bool \<Rightarrow> access_state \<Rightarrow> access_state" where
  "modbus_access_set_probe_mode enabled s = s\<lparr>a_probe_mode := enabled\<rparr>"

text \<open>FC 6 or FC 16.\<close>

definition modbus_write_registers_internal ::
  "access_env \<Rightarrow> u8 \<Rightarrow> u16 \<Rightarrow> u16 \<Rightarrow> u16 list \<Rightarrow> u8 \<Rightarrow> access_state \<Rightarrow> access_state \<times> esp_err" where
  "modbus_write_registers_internal env slave addr reg_count regs cmd s =
     (if reg_count = 0 \<or> unat reg_count > MODBUS_MAX_REG_COUNT then (s, ESP_ERR_INVALID_ARG)
      else if \<not> a_initialised s then (s, ESP_ERR_INVALID_STATE)
      else
        let fc = (if cmd = 6 then 6 else 16);
            req = \<lparr>mb_slave_addr = slave, mb_reg_start = addr, mb_reg_size = reg_count, mb_command = cmd\<rparr>;
            logged = req\<lparr>mb_command := fc\<rparr>;
            tx_frame = build_rtu_write_request slave fc addr reg_count regs;
            err = modbus_lock env s
        in if err \<noteq> ESP_OK then (s, err)
        else
          let s = log_frame env MODBUS_COMM_TX logged ESP_OK (Some tx_frame) s;
              mb_err = fst (x_master env req (Registers regs));
              rx_frame = (if fc = 6 then take 8 tx_frame
                          else append_rtu_crc ([slave, fc] @ word_bytes addr @ word_bytes reg_count))
          in (if mb_err = ESP_OK then log_frame env MODBUS_COMM_RX logged ESP_OK (Some rx_frame) s
              else log_frame env MODBUS_COMM_RX logged mb_err None s,
              mb_err))"

text \<open>FC 5 or FC 15; these are not logged.\<close>

definition modbus_write_coils_internal ::
  "access_env \<Rightarrow> u8 \<Rightarrow> u16 \<Rightarrow> u16 \<Rightarrow> u16 list \<Rightarrow> u8 \<Rightarrow> access_state \<Rightarrow> access_state \<times> esp_err" where
  "modbus_write_coils_internal env slave addr count regs fc s =
     (if count = 0 \<or> unat count > MODBUS_MAX_REG_COUNT \<or> (fc \<noteq> 5 \<and> fc \<noteq> 15) \<or> \<not> a_initialised s
      then (s, ESP_ERR_INVALID_ARG)
      else
        let single = (if hd regs \<noteq> 0 then 0xFF00 else 0);
            packed = pack_bits (replicate 8 0) regs (unat count);
            req = \<lparr>mb_slave_addr = slave, mb_reg_start = addr, mb_reg_size = count, mb_command = fc\<rparr>;
            payload = (if fc = 5 then Registers [single] else Packed packed);
            err = modbus_lock env s
        in if err \<noteq> ESP_OK then (s, err) else (s, fst (x_master env req payload)))"

section \<open>Entry points\<close>

definition modbus_destroy :: "access_state \<Rightarrow> access_state" where
  "modbus_destroy s =
     (if \<not> a_initialised s then s
      else s\<lparr>a_handle := False, a_initialised := False, a_mutex := False\<rparr>)"

text \<open>The statuses of the controller calls of \<open>modbus_rtu_init\<close>, in their order.\<close>

record rtu_start =
  i_log_mutex :: bool
  i_mutex :: bool
  i_create :: esp_err
  i_set_pin :: esp_err
  i_descriptor :: esp_err
  i_set_mode :: esp_err
  i_start :: esp_err

definition modbus_rtu_init :: "rtu_start \<Rightarrow> access_state \<Rightarrow> access_state \<times> esp_err" where
  "modbus_rtu_init env s =
     (let s = s\<lparr>a_log := modbus_comm_log_init (i_log_mutex env) (a_log s)\<rparr>;
          s = (if a_mutex s then s else s\<lparr>a_mutex := i_mutex env\<rparr>)
      in if \<not> a_mutex s then (s, ESP_ERR_NO_MEM)
      else
        let s = (if a_initialised s then modbus_destroy s else s);
            fail = (\<lambda>e. (s\<lparr>a_handle := False\<rparr>, e))
        in if i_create env \<noteq> ESP_OK then fail (i_create env)
        else if i_set_pin env \<noteq> ESP_OK then fail (i_set_pin env)
        else if i_descriptor env \<noteq> ESP_OK then fail (i_descriptor env)
        else if i_set_mode env \<noteq> ESP_OK then fail (i_set_mode env)
        else if i_start env \<noteq> ESP_OK then fail (i_start env)
        else (s\<lparr>a_handle := True, a_initialised := True\<rparr>, ESP_OK))"

text \<open>The lock of a Modbus TCP call, which creates the mutex when there is none.\<close>

definition tcp_lock :: "access_env \<Rightarrow> access_state \<Rightarrow> access_state \<times> esp_err" where
  "tcp_lock env s =
     (let s = (if a_mutex s then s else s\<lparr>a_mutex := x_alloc env\<rparr>) in (s, modbus_lock env s))"

definition modbus_read_channel ::
  "access_env \<Rightarrow> source_protocol \<Rightarrow> u8 \<Rightarrow> u8 \<Rightarrow> u8 \<Rightarrow> u16 \<Rightarrow> u16 \<Rightarrow> access_state
    \<Rightarrow> access_state \<times> esp_err \<times> u16 list option" where
  "modbus_read_channel env protocol channel slave fc addr reg_count s =
     (if protocol = SRC_MODBUS_RTU then
        (if fc = 1 then modbus_read_bits_internal env slave 1 addr reg_count s
         else if fc = 2 then modbus_read_bits_internal env slave 2 addr reg_count s
         else if fc = 4 then modbus_read_registers_internal env slave False addr reg_count s
         else if fc = 3 then modbus_read_registers_internal env slave True addr reg_count s
         else (s, ESP_ERR_NOT_SUPPORTED, None))
      else
        (let (s, err) = tcp_lock env s
         in if err \<noteq> ESP_OK then (s, err, None)
         else
           let (tid, r) = modbus_tcp_read (x_config env) (x_net env) (a_transaction_id s)
                            channel slave fc addr reg_count;
               s = s\<lparr>a_transaction_id := tid\<rparr>
           in case r of Inl regs \<Rightarrow> (s, ESP_OK, Some regs) | Inr e \<Rightarrow> (s, e, None)))"

definition modbus_write_channel ::
  "access_env \<Rightarrow> source_protocol \<Rightarrow> u8 \<Rightarrow> u8 \<Rightarrow> u8 \<Rightarrow> u16 \<Rightarrow> u16 \<Rightarrow> u16 list \<Rightarrow> access_state
    \<Rightarrow> access_state \<times> esp_err" where
  "modbus_write_channel env protocol channel slave fc addr reg_count regs s =
     (if protocol = SRC_MODBUS_RTU then
        (if fc = 5 \<and> reg_count = 1 then
           modbus_write_coils_internal env slave addr 1 [if hd regs \<noteq> 0 then 1 else 0] 5 s
         else if fc = 15 then modbus_write_coils_internal env slave addr reg_count regs 15 s
         else if fc = 6 \<and> reg_count = 1 then modbus_write_registers_internal env slave addr 1 [hd regs] 6 s
         else if fc = 16 then modbus_write_registers_internal env slave addr reg_count regs 16 s
         else (s, ESP_ERR_NOT_SUPPORTED))
      else
        (let (s, err) = tcp_lock env s
         in if err \<noteq> ESP_OK then (s, err)
         else
           let (tid, e) = modbus_tcp_write (x_config env) (x_net env) (a_transaction_id s)
                            channel slave fc addr reg_count regs
           in (s\<lparr>a_transaction_id := tid\<rparr>, e)))"

section \<open>Device identity\<close>

record device_identity =
  id_vendor_name :: string
  id_product_code :: string
  id_revision :: string

definition identity_text :: "u8 list \<Rightarrow> nat \<Rightarrow> string" where
  "identity_text bytes capacity = map char_of_byte (takeWhile (\<lambda>b. b \<noteq> 0) (take (capacity - 1) bytes))"

text \<open>The loop over the objects of the reply, \<open>count\<close> of them, from \<open>cursor\<close>.\<close>

fun identity_loop :: "nat \<Rightarrow> nat \<Rightarrow> u8 list \<Rightarrow> device_identity \<Rightarrow> device_identity \<times> esp_err" where
  "identity_loop 0 cursor response identity = (identity, ESP_OK)"
| "identity_loop (Suc count) cursor response identity =
     (if cursor + 2 > length response then (identity, ESP_OK)
      else
        let object_id = response ! cursor;
            len = unat (response ! (cursor + 1));
            cursor = cursor + 2
        in if cursor + len > length response then (identity, ESP_ERR_INVALID_RESPONSE)
        else
          let bytes = take len (drop cursor response);
              identity = (if object_id = 0 then identity\<lparr>id_vendor_name := identity_text bytes 48\<rparr>
                          else if object_id = 1 then identity\<lparr>id_product_code := identity_text bytes 48\<rparr>
                          else if object_id = 2 then identity\<lparr>id_revision := identity_text bytes 32\<rparr>
                          else identity)
          in identity_loop count (cursor + len) response identity)"

definition modbus_read_device_identity_channel ::
  "access_env \<Rightarrow> source_protocol \<Rightarrow> u8 \<Rightarrow> u8 \<Rightarrow> access_state \<Rightarrow> access_state \<times> device_identity \<times> esp_err" where
  "modbus_read_device_identity_channel env protocol channel slave s =
     (let blank = \<lparr>id_vendor_name = [], id_product_code = [], id_revision = []\<rparr> in
      if protocol \<noteq> SRC_MODBUS_TCP then (s, blank, ESP_ERR_NOT_SUPPORTED)
      else
        let (s, err) = tcp_lock env s
        in if err \<noteq> ESP_OK then (s, blank, err)
        else
          let (tid, r) = tcp_exchange (x_config env) (x_net env) (a_transaction_id s) channel slave [43, 14, 1, 0] 253;
              s = s\<lparr>a_transaction_id := tid\<rparr>
          in case r of
               Inr e \<Rightarrow> (s, blank, e)
             | Inl response \<Rightarrow>
                 (if length response < 8 \<or> response ! 0 \<noteq> 43 \<or> response ! 1 \<noteq> 14
                  then (s, blank, ESP_ERR_INVALID_RESPONSE)
                  else
                    let (identity, e) = identity_loop (unat (response ! 7)) 8 response blank
                    in (s, identity, e)))"

section \<open>The CRC\<close>

lemma and_1_bit: "x AND 1 \<noteq> 0 \<longleftrightarrow> bit x 0" for x :: "'a :: len word"
  by (simp add: and_one_eq bit_0 mod_2_eq_odd)

lemma crc16_bit_even: "\<not> bit x 0 \<Longrightarrow> crc16_bit x = drop_bit 1 x"
  by (simp add: crc16_bit_def and_1_bit)

lemma crc16_steps: "take_bit k x = 0 \<Longrightarrow> (crc16_bit ^^ k) x = drop_bit k x"
proof (induction k arbitrary: x)
  case 0
  then show ?case by simp
next
  case (Suc k)
  have "bit (take_bit (Suc k) x) i = (i < Suc k \<and> bit x i)" for i by (simp add: bit_simps)
  then have b: "\<not> bit x i" if "i < Suc k" for i using Suc.prems that by simp
  then have "crc16_bit x = drop_bit 1 x" by (intro crc16_bit_even) simp
  moreover have "take_bit k (drop_bit 1 x) = 0"
    using b by (intro bit_word_eqI) (auto simp: bit_simps)
  ultimately have "(crc16_bit ^^ Suc k) x = drop_bit k (drop_bit 1 x)"
    using Suc.IH [of "drop_bit 1 x"] by (simp add: funpow_Suc_right del: funpow.simps)
  then show ?case by (simp add: drop_bit_drop_bit)
qed

lemma crc16_append: "modbus_rtu_crc16 (xs @ ys) = fold crc16_byte ys (modbus_rtu_crc16 xs)"
  by (simp add: modbus_rtu_crc16_def)

lemma crc16_own_bytes: "fold crc16_byte [low_byte c, high_byte c] c = 0"
proof -
  have "take_bit 8 (c XOR ucast (low_byte c)) = 0"
    by (rule bit_word_eqI) (auto simp: low_byte_def bit_simps)
  moreover have "drop_bit 8 (c XOR ucast (low_byte c)) = drop_bit 8 c"
    by (rule bit_word_eqI) (auto simp: low_byte_def bit_simps)
  ultimately have 1: "crc16_byte (low_byte c) c = drop_bit 8 c"
    by (simp add: crc16_byte_def crc16_steps)
  have "drop_bit 8 c XOR ucast (high_byte c) = 0"
    by (rule bit_word_eqI) (auto simp: high_byte_def bit_simps dest: bit_imp_le_length)
  then have "crc16_byte (high_byte c) (drop_bit 8 c) = 0"
    using crc16_steps [of 8 0] by (simp add: crc16_byte_def)
  then show ?thesis using 1 by simp
qed

lemma crc16_residue: "modbus_rtu_crc16 (append_rtu_crc xs) = 0"
  using crc16_own_bytes by (simp add: append_rtu_crc_def Let_def crc16_append)

lemma crc16_bit_top: "bit (crc16_bit x) 15 \<longleftrightarrow> bit x 0"
  by (auto simp: crc16_bit_def and_1_bit bit_simps dest: bit_imp_le_length)

lemma xor_cancel: "x XOR a = y XOR a \<Longrightarrow> x = y" for x y a :: "'a :: len word"
  by (metis xor.right_neutral xor_self_eq xor.assoc)

lemma crc16_bit_inj: "crc16_bit x = crc16_bit y \<Longrightarrow> x = y"
proof -
  assume e: "crc16_bit x = crc16_bit y"
  then have 0: "bit x 0 \<longleftrightarrow> bit y 0" using crc16_bit_top [of x] crc16_bit_top [of y] by simp
  then have "drop_bit 1 x = drop_bit 1 y" using e
    by (cases "bit x 0") (auto simp: crc16_bit_def and_1_bit dest: xor_cancel)
  then have "bit x (Suc i) = bit y (Suc i)" for i
    by (metis bit_drop_bit_eq plus_1_eq_Suc comp_apply)
  with 0 have "bit x i = bit y i" for i by (cases i) auto
  then show "x = y" by (rule bit_eqI)
qed

lemma crc16_steps_inj: "(crc16_bit ^^ k) x = (crc16_bit ^^ k) y \<Longrightarrow> x = y"
  by (induction k) (auto dest: crc16_bit_inj)

lemma crc16_byte_inj:
  "crc16_byte b c = crc16_byte b c' \<Longrightarrow> c = c'"
  "crc16_byte b c = crc16_byte b' c \<Longrightarrow> b = b'"
proof -
  assume "crc16_byte b c = crc16_byte b c'"
  then have "c XOR ucast b = c' XOR ucast b" unfolding crc16_byte_def by (rule crc16_steps_inj)
  then show "c = c'" by (rule xor_cancel)
next
  assume "crc16_byte b c = crc16_byte b' c"
  then have "c XOR ucast b = c XOR (ucast b' :: u16)" unfolding crc16_byte_def by (rule crc16_steps_inj)
  then have "(ucast b :: u16) = ucast b'" by (metis xor.commute xor_cancel)
  moreover have "ucast (ucast d :: u16) = d" for d :: u8
    by (rule bit_word_eqI) (simp add: bit_simps)
  ultimately show "b = b'" by metis
qed

lemma crc16_tail_inj: "fold crc16_byte xs c = fold crc16_byte xs c' \<Longrightarrow> c = c'"
  by (induction xs arbitrary: c c') (auto dest: crc16_byte_inj)

lemma crc16_detects: "b \<noteq> b' \<Longrightarrow> modbus_rtu_crc16 (xs @ b # ys) \<noteq> modbus_rtu_crc16 (xs @ b' # ys)"
  by (auto simp: crc16_append dest!: crc16_tail_inj crc16_byte_inj(2))

section \<open>Frame lengths\<close>

lemma length_append_crc [simp]: "length (append_rtu_crc xs) = length xs + 2"
  by (simp add: append_rtu_crc_def Let_def)

lemma length_word_bytes [simp]: "length (word_bytes w) = 2"
  by (simp add: word_bytes_def)

lemma length_words_bytes [simp]: "length (concat (map word_bytes ws)) = 2 * length ws"
  by (induction ws) simp_all

lemma read_request_length: "length (build_rtu_read_request slave fc addr n) = 8"
  by (simp add: build_rtu_read_request_def)

lemma read_response_length:
  "unat n \<le> MODBUS_MAX_REG_COUNT \<Longrightarrow> length (build_rtu_read_response slave fc regs n) \<le> 3 + MODBUS_MAX_REG_COUNT * 2 + 2"
  by (simp add: build_rtu_read_response_def min_le_iff_disj)

lemma write_request_length:
  "unat n \<le> MODBUS_MAX_REG_COUNT \<Longrightarrow> length (build_rtu_write_request slave fc addr n regs) \<le> 9 + MODBUS_MAX_REG_COUNT * 2"
  by (simp add: build_rtu_write_request_def min_le_iff_disj)

lemma length_pack_bits [simp]: "length (pack_bits b regs n) = length b"
proof -
  have "length (fold (\<lambda>i packed. if regs ! i \<noteq> 0
             then packed[i div 8 := packed ! (i div 8) OR push_bit (i mod 8) 1] else packed) is b) = length b" for "is"
    by (induction "is" arbitrary: b) simp_all
  then show ?thesis by (simp add: pack_bits_def)
qed

lemma tcp_write_pdu_length: "tcp_write_pdu fc addr n regs = Some pdu \<Longrightarrow> length pdu \<le> 252"
  by (auto simp: tcp_write_pdu_def Let_def split: if_splits)

section \<open>Packed bits\<close>

lemma bit_pack_bits:
  assumes "length b = (n + 7) div 8" "j < n" "m \<le> n"
  shows "bit (pack_bits b regs m ! (j div 8)) (j mod 8) \<longleftrightarrow>
    bit (b ! (j div 8)) (j mod 8) \<or> (j < m \<and> regs ! j \<noteq> 0)"
  using assms(3)
proof (induction m)
  case 0
  then show ?case by (simp add: pack_bits_def)
next
  case (Suc m)
  have r: "k div 8 < (n + 7) div 8" if "k < n" for k using that by linarith
  have p: "pack_bits b regs (Suc m) = (if regs ! m \<noteq> 0
      then (pack_bits b regs m)[m div 8 := pack_bits b regs m ! (m div 8) OR push_bit (m mod 8) 1]
      else pack_bits b regs m)"
    by (simp add: pack_bits_def)
  have d: "j div 8 = m div 8 \<and> j mod 8 = m mod 8 \<longleftrightarrow> j = m"
    by (metis mult_div_mod_eq)
  have s: "bit (push_bit (m mod 8) (1 :: u8)) (j mod 8) \<longleftrightarrow> j mod 8 = m mod 8"
    by (auto simp: bit_simps)
  show ?case
    using Suc d s r [of j] r [of m] assms(1,2)
    by (auto simp: p nth_list_update bit_or_iff less_Suc_eq)
qed

lemma packed_bit_pack_bits:
  assumes "j < n"
  shows "packed_bit (pack_bits (replicate ((n + 7) div 8) 0) regs n) j = (if regs ! j \<noteq> 0 then 1 else 0)"
proof -
  have z: "j div 8 < (n + 7) div 8" using assms by linarith
  have "(drop_bit i x AND 1) = (if bit x i then 1 else 0)" for x :: u8 and i
    by (rule bit_word_eqI) (auto simp: bit_simps intro: gr0I)
  then show ?thesis
    using bit_pack_bits [of "replicate ((n + 7) div 8) 0" n j n regs] assms z
    by (simp add: packed_bit_def)
qed


section \<open>Streams\<close>

lemma receive_all_enough:
  "[] \<notin> set xss \<Longrightarrow> n \<le> length (concat xss) \<Longrightarrow>
   \<exists>yss. socket_receive_all n (map Data xss) got = (Inl (got @ take n (concat xss)), map Data yss) \<and>
     concat yss = drop n (concat xss) \<and> [] \<notin> set yss"
proof (induction xss arbitrary: n got)
  case Nil
  then show ?case by simp
next
  case (Cons xs xss)
  then obtain z zs where xs: "xs = z # zs" by (cases xs) auto
  show ?case
  proof (cases "n = 0")
    case True
    then show ?thesis using Cons.prems by (intro exI [of _ "xs # xss"]) simp
  next
    case n: False
    show ?thesis
    proof (cases "length xs \<le> n")
      case True
      then have "socket_receive_all n (map Data (xs # xss)) got
          = socket_receive_all (n - length xs) (map Data xss) (got @ xs)"
        using n by (simp add: xs)
      moreover have "n - length xs \<le> length (concat xss)" using Cons.prems(2) by simp
      ultimately show ?thesis
        using Cons.IH [of "n - length xs" "got @ xs"] Cons.prems(1) True by auto
    next
      case False
      then have "socket_receive_all n (map Data (xs # xss)) got
          = (Inl (got @ take n xs), Data (drop n xs) # map Data xss)"
        using n by (simp add: xs)
      then show ?thesis using False Cons.prems(1)
        by (intro exI [of _ "drop n xs # xss"]) auto
    qed
  qed
qed

lemma receive_all_short:
  "[] \<notin> set xss \<Longrightarrow> length (concat xss) < n \<Longrightarrow>
   socket_receive_all n (map Data xss) got = (Inr ESP_FAIL, [])"
proof (induction xss arbitrary: n got)
  case Nil
  then show ?case by simp
next
  case (Cons xs xss)
  then obtain z zs where xs: "xs = z # zs" by (cases xs) auto
  then have "socket_receive_all n (map Data (xs # xss)) got
      = socket_receive_all (n - length xs) (map Data xss) (got @ xs)"
    using Cons.prems by simp
  also have "\<dots> = (Inr ESP_FAIL, [])" using Cons.prems by (intro Cons.IH) auto
  finally show ?case .
qed

text \<open>The reply read from the bytes of the stream, as one piece.\<close>

definition reply_of :: "u8 list \<Rightarrow> nat \<Rightarrow> u8 list \<Rightarrow> (u8 list, esp_err) sum" where
  "reply_of request capacity bytes =
     (if length bytes < 7 then Inr ESP_FAIL
      else let body_size = unat (bytes ! 4) * 256 + unat (bytes ! 5) in
        if body_size < 2 \<or> body_size - 1 > capacity \<or> bytes ! 0 \<noteq> request ! 0 \<or> bytes ! 1 \<noteq> request ! 1
        then Inr ESP_ERR_INVALID_RESPONSE
        else if length bytes < 7 + (body_size - 1) then Inr ESP_FAIL
        else if hd (drop 7 bytes) AND 0x80 \<noteq> 0 then Inr ESP_ERR_INVALID_RESPONSE
        else Inl (take (body_size - 1) (drop 7 bytes)))"

lemma tcp_receive_reply:
  assumes "[] \<notin> set xss"
  shows "tcp_receive request capacity (map Data xss) = reply_of request capacity (concat xss)"
proof (cases "length (concat xss) < 7")
  case True
  then show ?thesis using receive_all_short [OF assms True, of "[]"]
    by (simp add: tcp_receive_def reply_of_def)
next
  case False
  then obtain yss where y: "socket_receive_all 7 (map Data xss) [] = (Inl (take 7 (concat xss)), map Data yss)"
      "concat yss = drop 7 (concat xss)" "[] \<notin> set yss"
    using receive_all_enough [OF assms, of 7 "[]"] by auto
  let ?b = "unat (concat xss ! 4) * 256 + unat (concat xss ! 5)"
  have bound: "length (concat yss) < ?b - 1 \<longleftrightarrow> length (concat xss) < 7 + (?b - 1)"
    using False by (auto simp: y(2))
  show ?thesis
  proof (cases "length (concat yss) < ?b - 1")
    case True
    then show ?thesis using False receive_all_short [OF y(3) True, of "[]"] bound
      by (simp add: tcp_receive_def reply_of_def y(1) Let_def)
  next
    case enough: False
    then obtain zss where z: "fst (socket_receive_all (?b - 1) (map Data yss) []) = Inl (take (?b - 1) (drop 7 (concat xss)))"
      using receive_all_enough [OF y(3), of "?b - 1" "[]"] y(2) by auto
    obtain b where b: "?b = b" by simp
    have "hd (take (b - Suc 0) (drop 7 (concat xss))) = hd (drop 7 (concat xss))" if "2 \<le> b"
      using that by (intro hd_take) simp
    then show ?thesis using False enough bound z unfolding b
      by (auto simp: tcp_receive_def reply_of_def y(1) Let_def b not_less)
  qed
qed

lemma unat_word_bytes: "unat (high_byte w) * 256 + unat (low_byte w) = unat w"
proof -
  have "unat w < 2 ^ 16" using unsigned_less [of w] by simp
  then have "unat w < 65536" by simp
  then have "unat w div 256 < 256" by linarith
  then have "unat (high_byte w) = unat w div 256"
    by (simp add: high_byte_def unsigned_ucast_eq take_bit_eq_mod drop_bit_eq_div unat_div)
  moreover have "unat (low_byte w) = unat w mod 256"
    by (simp add: low_byte_def unsigned_ucast_eq take_bit_eq_mod)
  ultimately show ?thesis by simp
qed

lemma reply_of_request:
  assumes "0 < length pdu" "length pdu \<le> capacity" "length pdu < 65535" "hd pdu AND 0x80 = 0"
  shows "reply_of (tcp_request tid u q) capacity (tcp_request tid u' pdu @ rest) = Inl pdu"
proof -
  let ?w = "word_of_nat (length pdu + 1) :: u16"
  have w: "unat ?w = length pdu + 1" using assms(3) by (simp add: unat_of_nat take_bit_eq_mod del: of_nat_add of_nat_Suc)
  have "unat (high_byte ?w) * 256 + unat (low_byte ?w) = length pdu + 1"
    by (simp only: unat_word_bytes w)
  moreover define hi lo where "hi = high_byte ?w" and "lo = low_byte ?w"
  ultimately have v: "unat hi * 256 + unat lo = length pdu + 1" by simp
  have "tcp_request tid u' pdu @ rest = [high_byte tid, low_byte tid, 0, 0, hi, lo, u'] @ pdu @ rest"
    by (simp add: tcp_request_def word_bytes_def hi_def lo_def)
  moreover have "tcp_request tid u q ! 0 = high_byte tid" "tcp_request tid u q ! 1 = low_byte tid"
    by (simp_all add: tcp_request_def word_bytes_def)
  moreover have "hd (pdu @ rest) = hd pdu" using assms(1) by simp
  ultimately show ?thesis using assms v
    by (simp add: reply_of_def Let_def)
qed


section \<open>Properties\<close>

text \<open>
  A frame with its CRC appended has residue zero, and replacing any one of its bytes changes
  the CRC.
\<close>

theorem crc_protects_frame:
  "modbus_rtu_crc16 (append_rtu_crc payload) = 0 \<and>
   (b \<noteq> b' \<longrightarrow> modbus_rtu_crc16 (xs @ b # ys) \<noteq> modbus_rtu_crc16 (xs @ b' # ys))"
  using crc16_residue crc16_detects by blast

lemma crc16_byte_steps: "crc16_byte b crc = crc16_bit (crc16_bit (crc16_bit (crc16_bit (crc16_bit
    (crc16_bit (crc16_bit (crc16_bit (crc XOR ucast b))))))))"
  by (simp add: crc16_byte_def numeral_eq_Suc)

lemma crc_known_frame: "modbus_rtu_crc16 [1, 3, 0, 0, 0, 2] = 0x0BC4"
  by (simp add: modbus_rtu_crc16_def crc16_byte_steps crc16_bit_def)

lemma crc_protects_frame_witness:
  "modbus_rtu_crc16 (append_rtu_crc [1, 3, 0, 0, 0, 2]) = 0 \<and>
   modbus_rtu_crc16 ([1] @ 3 # [0, 0]) \<noteq> modbus_rtu_crc16 ([1] @ 4 # [0, 0])"
  using crc_protects_frame [of "[1, 3, 0, 0, 0, 2]" 3 4 "[1]" "[0, 0]"] by simp

text \<open>
  C38. A Modbus TCP reply that carries the transaction number of its request is delivered to
  the caller exactly, however the network cuts the stream into segments and whatever follows it.
\<close>

theorem tcp_reply_delivered:
  assumes "[] \<notin> set segments" "concat segments = tcp_request tid u' reply @ rest"
    "0 < length reply" "length reply \<le> capacity" "capacity < 65535" "hd reply AND 0x80 = 0"
  shows "tcp_receive (tcp_request tid u pdu) capacity (map Data segments) = Inl reply"
  using assms reply_of_request [of reply capacity tid u pdu u' rest]
  by (simp add: tcp_receive_reply)

lemma tcp_reply_delivered_witness:
  "tcp_receive (tcp_request 258 1 [3, 0, 0, 0, 1]) 260
     (map Data [[1], [2, 0, 0, 0, 5, 1], [3, 2], [0xAB, 0xCD, 9]]) = Inl [3, 2, 0xAB, 0xCD]"
  by (rule tcp_reply_delivered [of _ _ 1 _ "[9]"])
    (simp_all add: tcp_request_def word_bytes_def high_byte_def low_byte_def)

text \<open>
  Every frame and PDU fits the buffer the code builds it in: the RTU frames of up to 64
  registers, and the TCP write request.
\<close>

theorem frames_fit:
  assumes "unat n \<le> MODBUS_MAX_REG_COUNT"
  shows "length (build_rtu_read_request slave fc addr n) \<le> 8 \<and>
    length (build_rtu_read_response slave fc regs n) \<le> 3 + MODBUS_MAX_REG_COUNT * 2 + 2 \<and>
    length (build_rtu_write_request slave fc addr n regs) \<le> 9 + MODBUS_MAX_REG_COUNT * 2 \<and>
    (case tcp_write_pdu fc addr n regs of None \<Rightarrow> True | Some pdu \<Rightarrow> 7 + length pdu \<le> 260)"
  using read_request_length read_response_length [OF assms] write_request_length [OF assms]
    tcp_write_pdu_length [of fc addr n regs]
  by (auto split: option.split)

lemma frames_fit_witness: "length (build_rtu_read_response 1 3 (replicate 64 0) 64) \<le> 133"
  using frames_fit [of 64 1 3 0 "replicate 64 0"] by simp

text \<open>
  Starting the RTU master again while it is running reports success but leaves the bus
  without its mutex, so every RTU read fails until a Modbus TCP call creates one.
\<close>

theorem rtu_restart_loses_mutex:
  assumes "a_mutex s" "a_initialised s" "i_create st = ESP_OK" "i_set_pin st = ESP_OK"
    "i_descriptor st = ESP_OK" "i_set_mode st = ESP_OK" "i_start st = ESP_OK"
    "0 < unat n" "unat n \<le> MODBUS_MAX_REG_COUNT"
  shows "snd (modbus_rtu_init st s) = ESP_OK \<and>
    fst (snd (modbus_read_channel env SRC_MODBUS_RTU ch slave 3 addr n (fst (modbus_rtu_init st s)))) = ESP_ERR_INVALID_STATE"
  using assms
  by (auto simp: modbus_rtu_init_def modbus_destroy_def Let_def modbus_read_channel_def
      modbus_read_registers_internal_def modbus_lock_def)

definition idle_access :: access_state where
  "idle_access = \<lparr>a_mutex = True, a_probe_mode = False, a_handle = True, a_initialised = True,
     a_transaction_id = 0, a_log = comm_log_boot\<rparr>"

lemma rtu_restart_loses_mutex_witness:
  "\<forall>env. fst (snd (modbus_read_channel env SRC_MODBUS_RTU 0 1 3 0 1 (fst (modbus_rtu_init
     \<lparr>i_log_mutex = True, i_mutex = True, i_create = ESP_OK, i_set_pin = ESP_OK, i_descriptor = ESP_OK,
      i_set_mode = ESP_OK, i_start = ESP_OK\<rparr> idle_access)))) = ESP_ERR_INVALID_STATE"
proof
  fix env
  show "fst (snd (modbus_read_channel env SRC_MODBUS_RTU 0 1 3 0 1 (fst (modbus_rtu_init
     \<lparr>i_log_mutex = True, i_mutex = True, i_create = ESP_OK, i_set_pin = ESP_OK, i_descriptor = ESP_OK,
      i_set_mode = ESP_OK, i_start = ESP_OK\<rparr> idle_access)))) = ESP_ERR_INVALID_STATE"
    using rtu_restart_loses_mutex [of idle_access
       "\<lparr>i_log_mutex = True, i_mutex = True, i_create = ESP_OK, i_set_pin = ESP_OK, i_descriptor = ESP_OK,
        i_set_mode = ESP_OK, i_start = ESP_OK\<rparr>" 1 env 0 1 0]
    by (simp add: idle_access_def)
qed

end
