(* ===== verification/Eval_Log.thy ===== *)
theory Eval_Log
  imports Prelude
begin

text \<open>
  The evaluation counters (\<open>eval/eval_logger.c\<close>): sixteen 32-bit metrics behind a mutex,
  incremented by name or through events, read as a snapshot and printed with a success rate.
  The result of taking the mutex is an argument. Events add to the counters their names stand
  for, increments touch one counter only, and the printed rate is wrong once its product
  passes 32 bits.
\<close>

record eval_metrics =
  total_polls :: u32
  successful_polls :: u32
  failed_polls :: u32
  contexts_created :: u32
  contexts_validated :: u32
  contexts_rejected :: u32
  mqtt_published :: u32
  mqtt_failed :: u32
  cached_records :: u32
  replayed_records :: u32
  data_loss_count :: u32
  commands_received :: u32
  commands_accepted :: u32
  commands_rejected :: u32
  free_heap_min :: u32
  cpu_load_percent :: u32

record eval_state =
  ev_mutex :: bool
  ev_metrics :: eval_metrics
  ev_sequence :: u32

definition zero_metrics :: eval_metrics where
  "zero_metrics = \<lparr>total_polls = 0, successful_polls = 0, failed_polls = 0, contexts_created = 0,
     contexts_validated = 0, contexts_rejected = 0, mqtt_published = 0, mqtt_failed = 0,
     cached_records = 0, replayed_records = 0, data_loss_count = 0, commands_received = 0,
     commands_accepted = 0, commands_rejected = 0, free_heap_min = 0, cpu_load_percent = 0\<rparr>"

definition auto_increment_for_event :: "string \<Rightarrow> eval_metrics \<Rightarrow> eval_metrics" where
  "auto_increment_for_event ty m =
     (if ty = ''poll_ok'' then m\<lparr>successful_polls := successful_polls m + 1\<rparr>
      else if ty = ''poll_fail'' then m\<lparr>failed_polls := failed_polls m + 1\<rparr>
      else if ty = ''poll_total'' then m\<lparr>total_polls := total_polls m + 1\<rparr>
      else if ty = ''ctx_created'' then m\<lparr>contexts_created := contexts_created m + 1\<rparr>
      else if ty = ''ctx_validated'' then m\<lparr>contexts_validated := contexts_validated m + 1\<rparr>
      else if ty = ''ctx_rejected'' then m\<lparr>contexts_rejected := contexts_rejected m + 1\<rparr>
      else if ty = ''mqtt_pub'' then m\<lparr>mqtt_published := mqtt_published m + 1\<rparr>
      else if ty = ''mqtt_fail'' then m\<lparr>mqtt_failed := mqtt_failed m + 1\<rparr>
      else if ty = ''cache_write'' then m\<lparr>cached_records := cached_records m + 1\<rparr>
      else if ty = ''replay'' then m\<lparr>replayed_records := replayed_records m + 1\<rparr>
      else if ty = ''data_loss'' then m\<lparr>data_loss_count := data_loss_count m + 1\<rparr>
      else if ty = ''cmd_recv'' then m\<lparr>commands_received := commands_received m + 1\<rparr>
      else if ty = ''cmd_accept'' then m\<lparr>commands_accepted := commands_accepted m + 1\<rparr>
      else if ty = ''cmd_reject'' then m\<lparr>commands_rejected := commands_rejected m + 1\<rparr>
      else m)"

definition eval_init :: "bool \<Rightarrow> eval_state \<Rightarrow> eval_state" where
  "eval_init alloc s =
     (if \<not> ev_mutex s \<and> \<not> alloc then s
      else \<lparr>ev_mutex = True, ev_metrics = zero_metrics, ev_sequence = 0\<rparr>)"

text \<open>
  An event of the type \<open>ty\<close>; \<open>locked\<close>: the mutex could be taken. The mutex exists: before
  \<open>eval_init\<close> the code would pass a null handle to the kernel.
\<close>

definition eval_log_event :: "bool \<Rightarrow> string option \<Rightarrow> eval_state \<Rightarrow> eval_state" where
  "eval_log_event locked event s =
     (case event of
        None \<Rightarrow> s
      | Some ty \<Rightarrow> (if locked then s\<lparr>ev_metrics := auto_increment_for_event ty (ev_metrics s)\<rparr> else s))"

text \<open>The metric of a name and what adding \<open>delta\<close> to it does; an unknown name is only logged.\<close>

definition add_metric :: "string \<Rightarrow> u32 \<Rightarrow> eval_metrics \<Rightarrow> eval_metrics" where
  "add_metric name delta m =
     (if name = ''total_polls'' then m\<lparr>total_polls := total_polls m + delta\<rparr>
      else if name = ''successful_polls'' then m\<lparr>successful_polls := successful_polls m + delta\<rparr>
      else if name = ''failed_polls'' then m\<lparr>failed_polls := failed_polls m + delta\<rparr>
      else if name = ''contexts_created'' then m\<lparr>contexts_created := contexts_created m + delta\<rparr>
      else if name = ''contexts_validated'' then m\<lparr>contexts_validated := contexts_validated m + delta\<rparr>
      else if name = ''contexts_rejected'' then m\<lparr>contexts_rejected := contexts_rejected m + delta\<rparr>
      else if name = ''mqtt_published'' then m\<lparr>mqtt_published := mqtt_published m + delta\<rparr>
      else if name = ''mqtt_failed'' then m\<lparr>mqtt_failed := mqtt_failed m + delta\<rparr>
      else if name = ''cached_records'' then m\<lparr>cached_records := cached_records m + delta\<rparr>
      else if name = ''replayed_records'' then m\<lparr>replayed_records := replayed_records m + delta\<rparr>
      else if name = ''data_loss_count'' then m\<lparr>data_loss_count := data_loss_count m + delta\<rparr>
      else if name = ''commands_received'' then m\<lparr>commands_received := commands_received m + delta\<rparr>
      else if name = ''commands_accepted'' then m\<lparr>commands_accepted := commands_accepted m + delta\<rparr>
      else if name = ''commands_rejected'' then m\<lparr>commands_rejected := commands_rejected m + delta\<rparr>
      else if name = ''free_heap_min'' then m\<lparr>free_heap_min := delta\<rparr>
      else if name = ''cpu_load_percent'' then m\<lparr>cpu_load_percent := delta\<rparr>
      else m)"

definition eval_increment_metric :: "bool \<Rightarrow> string option \<Rightarrow> u32 \<Rightarrow> eval_state \<Rightarrow> eval_state" where
  "eval_increment_metric locked name delta s =
     (case name of
        None \<Rightarrow> s
      | Some n \<Rightarrow> (if ev_mutex s \<and> locked then s\<lparr>ev_metrics := add_metric n delta (ev_metrics s)\<rparr> else s))"

definition eval_get_metrics :: "bool \<Rightarrow> eval_state \<Rightarrow> eval_metrics" where
  "eval_get_metrics locked s = (if ev_mutex s \<and> locked then ev_metrics s else zero_metrics)"

definition eval_reset_metrics :: "bool \<Rightarrow> eval_state \<Rightarrow> eval_state" where
  "eval_reset_metrics locked s =
     (if ev_mutex s \<and> locked then s\<lparr>ev_metrics := zero_metrics, ev_sequence := 0\<rparr> else s)"

text \<open>The rate the summary prints, in 32-bit arithmetic.\<close>

definition poll_rate :: "eval_metrics \<Rightarrow> u32" where
  "poll_rate m = (if total_polls m > 0 then (successful_polls m * 100) div total_polls m else 0)"

section \<open>Properties\<close>

text \<open>The events and the metric each stands for.\<close>

definition event_metric :: "string \<Rightarrow> string option" where
  "event_metric ty =
     (if ty = ''poll_ok'' then Some ''successful_polls''
      else if ty = ''poll_fail'' then Some ''failed_polls''
      else if ty = ''poll_total'' then Some ''total_polls''
      else if ty = ''ctx_created'' then Some ''contexts_created''
      else if ty = ''ctx_validated'' then Some ''contexts_validated''
      else if ty = ''ctx_rejected'' then Some ''contexts_rejected''
      else if ty = ''mqtt_pub'' then Some ''mqtt_published''
      else if ty = ''mqtt_fail'' then Some ''mqtt_failed''
      else if ty = ''cache_write'' then Some ''cached_records''
      else if ty = ''replay'' then Some ''replayed_records''
      else if ty = ''data_loss'' then Some ''data_loss_count''
      else if ty = ''cmd_recv'' then Some ''commands_received''
      else if ty = ''cmd_accept'' then Some ''commands_accepted''
      else if ty = ''cmd_reject'' then Some ''commands_rejected''
      else None)"

lemma add_metric_simps:
  "add_metric ''successful_polls'' d m = m\<lparr>successful_polls := successful_polls m + d\<rparr>"
  "add_metric ''failed_polls'' d m = m\<lparr>failed_polls := failed_polls m + d\<rparr>"
  "add_metric ''total_polls'' d m = m\<lparr>total_polls := total_polls m + d\<rparr>"
  "add_metric ''contexts_created'' d m = m\<lparr>contexts_created := contexts_created m + d\<rparr>"
  "add_metric ''contexts_validated'' d m = m\<lparr>contexts_validated := contexts_validated m + d\<rparr>"
  "add_metric ''contexts_rejected'' d m = m\<lparr>contexts_rejected := contexts_rejected m + d\<rparr>"
  "add_metric ''mqtt_published'' d m = m\<lparr>mqtt_published := mqtt_published m + d\<rparr>"
  "add_metric ''mqtt_failed'' d m = m\<lparr>mqtt_failed := mqtt_failed m + d\<rparr>"
  "add_metric ''cached_records'' d m = m\<lparr>cached_records := cached_records m + d\<rparr>"
  "add_metric ''replayed_records'' d m = m\<lparr>replayed_records := replayed_records m + d\<rparr>"
  "add_metric ''data_loss_count'' d m = m\<lparr>data_loss_count := data_loss_count m + d\<rparr>"
  "add_metric ''commands_received'' d m = m\<lparr>commands_received := commands_received m + d\<rparr>"
  "add_metric ''commands_accepted'' d m = m\<lparr>commands_accepted := commands_accepted m + d\<rparr>"
  "add_metric ''commands_rejected'' d m = m\<lparr>commands_rejected := commands_rejected m + d\<rparr>"
  by (simp_all add: add_metric_def)

text \<open>
  An event adds one to the metric it stands for, as the increment by name does, and an
  event of any other type changes nothing.
\<close>

theorem event_is_increment:
  assumes "ev_mutex s"
  shows "eval_log_event locked (Some ty) s =
    (case event_metric ty of None \<Rightarrow> s | Some n \<Rightarrow> eval_increment_metric locked (Some n) 1 s)"
  using assms by (simp add: eval_log_event_def eval_increment_metric_def auto_increment_for_event_def
    event_metric_def add_metric_simps)

lemma event_is_increment_witness:
  "commands_rejected (ev_metrics (eval_log_event True (Some ''cmd_reject'')
     \<lparr>ev_mutex = True, ev_metrics = zero_metrics, ev_sequence = 0\<rparr>)) = 1"
  using event_is_increment [of "\<lparr>ev_mutex = True, ev_metrics = zero_metrics, ev_sequence = 0\<rparr>" True "''cmd_reject''"]
  by (simp add: event_metric_def eval_increment_metric_def add_metric_def zero_metrics_def)

text \<open>
  The success rate of the summary is exact while the number of successful polls times
  one hundred fits 32 bits, and from 42949673 successful polls on it wraps: with every poll
  successful it prints 0 percent.
\<close>

theorem poll_rate_bound:
  assumes "0 < total_polls m"
  shows "(unat (successful_polls m) * 100 < 2 ^ 32 \<longrightarrow>
       unat (poll_rate m) = unat (successful_polls m) * 100 div unat (total_polls m)) \<and>
    (successful_polls m = 42949673 \<and> total_polls m = 42949673 \<longrightarrow> poll_rate m = 0)"
  using assms by (auto simp: poll_rate_def unat_div unat_word_ariths)

lemma poll_rate_bound_witness:
  "poll_rate (zero_metrics\<lparr>total_polls := 42949673, successful_polls := 42949673\<rparr>) = 0 \<and>
   unat (poll_rate (zero_metrics\<lparr>total_polls := 200, successful_polls := 150\<rparr>)) = 75"
  using poll_rate_bound [of "zero_metrics\<lparr>total_polls := 42949673, successful_polls := 42949673\<rparr>"]
    poll_rate_bound [of "zero_metrics\<lparr>total_polls := 200, successful_polls := 150\<rparr>"]
  by simp

end
