(* ===== verification/Float_Units.thy ===== *)
theory Float_Units
  imports Soft_Float
begin

text \<open>
  The neutral elements of double arithmetic: adding or subtracting 0 and multiplying or
  dividing by 1 give every finite double back, which is what an unscaled point relies on.
\<close>

section \<open>A value determines its bits\<close>

lemma f64_pack_value:
  assumes "f64_get x = FFin s m e" "0 < m" "n * 2 ^ 1074 = m * 2 ^ nat (e + 1074) * d" "0 < d"
  shows "word_of_nat (fp_pack 52 11 1074 s n d) = x"
proof -
  have u: "fp_unpack 52 11 1074 (unat x) = FFin s m e" using assms(1) by (simp add: f64_get_def)
  define N where "N = m * 2 ^ nat (e + int 1074)"
  have N0: "0 < N" using assms(2) by (simp add: N_def)
  have eq: "n * 2 ^ 1074 = N * d" using assms(3) by (simp add: N_def)
  note F = fp_unpack_Fin [OF unat_f64 u assms(2), folded N_def]
  have "fp_pack 52 11 1074 s n d = unat x"
    using fp_pack_units [OF eq N0 assms(4) refl, where fb = 52 and ew = 11 and s = s] F(4,5)
    by (simp add: min_absorb1)
  then show ?thesis by simp
qed

lemma f64_put_value:
  assumes "f64_get x = FFin s m e" "0 < m" "n * 2 ^ (nat g + 1074) = m * 2 ^ (nat (e + 1074) + nat (- g))"
  shows "f64_put (FFin s n g) = x"
proof (cases "0 \<le> g")
  case True
  then have "n * 2 ^ nat g * 2 ^ 1074 = m * 2 ^ nat (e + 1074) * 1"
    using assms(3) by (simp add: power_add mult.assoc)
  from f64_pack_value [OF assms(1,2) this] show ?thesis using True by (simp add: f64_put_def fp_round_def)
next
  case False
  then have "n * 2 ^ 1074 = m * 2 ^ nat (e + 1074) * 2 ^ nat (- g)"
    using assms(3) by (simp add: power_add mult.assoc)
  from f64_pack_value [OF assms(1,2) this] show ?thesis using False by (simp add: f64_put_def fp_round_def)
qed

lemma f64_zero_bits:
  assumes "f64_get x = FFin s 0 e"
  shows "x = word_of_nat (if s then 2 ^ 63 else 0)"
proof -
  have "fp_unpack 52 11 1074 (unat x) = FFin s 0 e" using assms by (simp add: f64_get_def)
  from fp_unpack_cases(2) [OF unat_f64 this] have "unat x = (if s then 2 ^ (52 + 11) else 0)" .
  then have "word_of_nat (unat x) = (word_of_nat (if s then 2 ^ 63 else 0) :: f64)" by simp
  then show ?thesis by simp
qed

lemma f64_put_zero: "f64_put (FFin s 0 e) = word_of_nat (if s then 2 ^ 63 else 0)"
  by (simp add: f64_put_def fp_round_def fp_pack_def)

lemma f64_exponent: "f64_get x = FFin s m e \<Longrightarrow> 0 < m \<Longrightarrow> - 1074 \<le> e"
  using fp_unpack_Fin(1) [OF unat_f64, of 1074 x s m e] by (simp add: f64_get_def)

section \<open>Adding and subtracting zero\<close>

lemma f64_put_add_0:
  assumes "f64_get x = FFin s m e" "m \<noteq> 0 \<or> (s \<and> t) = s"
  shows "f64_put (fp_add (f64_get x) (FFin t 0 (- 1074))) = x"
proof (cases "m = 0")
  case True
  then have "(s \<and> t) = s" using assms(2) by simp
  then show ?thesis using True assms(1) f64_zero_bits [of x s e]
    by (auto simp: Let_def signed_def f64_put_zero)
next
  case False
  then have e: "- 1074 \<le> e" using f64_exponent assms(1) by simp
  then have g: "min e (- 1074) = - 1074" by simp
  have "fp_add (f64_get x) (FFin t 0 (- 1074)) = FFin s (m * 2 ^ nat (e + 1074)) (- 1074)"
    using False unfolding assms(1) fp_add.simps Let_def g by (cases s) (simp_all add: signed_def nat_mult_distrib nat_power_eq not_less)
  moreover have "f64_put (FFin s (m * 2 ^ nat (e + 1074)) (- 1074)) = x"
    by (rule f64_put_value [OF assms(1)]) (use False in \<open>simp_all add: power_add\<close>)
  ultimately show ?thesis by simp
qed

lemma f64_finite: "f64_isfinite x \<longleftrightarrow> (\<exists>s m e. f64_get x = FFin s m e)"
  by (cases "f64_get x") (simp_all add: f64_isfinite_def)

lemma f64_sub_0: "f64_isfinite x \<Longrightarrow> f64_sub x 0 = x"
proof -
  assume "f64_isfinite x"
  then obtain s m e where x: "f64_get x = FFin s m e" by (auto simp: f64_finite)
  show ?thesis using f64_put_add_0 [OF x, of True] f64_zero_bits [of x s e] x
    by (cases "m = 0"; cases s) (auto simp: f64_sub_def fp_neg_def Let_def signed_def f64_put_zero)
qed

text \<open>Adding +0 to -0 gives +0, so a negative zero is left out.\<close>

lemma f64_add_0: "f64_isfinite x \<Longrightarrow> x \<noteq> 0x8000000000000000 \<Longrightarrow> f64_add x 0 = x"
proof -
  assume "f64_isfinite x" and n: "x \<noteq> 0x8000000000000000"
  then obtain s m e where x: "f64_get x = FFin s m e" by (auto simp: f64_finite)
  show ?thesis using f64_put_add_0 [OF x, of False] f64_zero_bits [of x s e] x n
    by (cases "m = 0"; cases s) (auto simp: f64_add_def Let_def signed_def f64_put_zero)
qed

section \<open>Multiplying and dividing by one\<close>

definition is_one :: "f64 \<Rightarrow> bool" where
  "is_one y \<longleftrightarrow> (\<exists>k. f64_get y = FFin False (2 ^ k) (- int k))"

lemma is_one_int: "is_one (f64_of_int 1)"
  using f64_of_int_get [of 1] by (auto simp: is_one_def)

lemma is_one_f32: "is_one (f64_of_f32 0x3F800000)"
proof -
  have "f32_get 0x3F800000 = FFin False (2 ^ 23) (- 23)" by (simp add: f32_get_def fp_unpack_def)
  from f64_of_f32_get [OF this] obtain M g where g: "f64_get (f64_of_f32 0x3F800000) = FFin False M g"
    "- 1074 \<le> g" "0 < M" and eq: "M * 2 ^ nat (g + 1074) = 2 ^ 23 * 2 ^ nat (- 23 + 149) * 2 ^ 925"
    by auto
  have "nat (- 23 + 149) = 126" by simp
  then have M: "M * 2 ^ nat (g + 1074) = 2 ^ 1074" unfolding eq by (simp flip: power_add)
  have "(2 :: nat) ^ nat (g + 1074) \<le> 2 ^ 1074" using M g(3) by (metis One_nat_def Suc_leI mult_le_mono1 nat_mult_1)
  then have le: "nat (g + 1074) \<le> 1074" by (rule power_le_imp_le_exp [rotated]) simp
  then have "M * 2 ^ nat (g + 1074) = 2 ^ (1074 - nat (g + 1074)) * 2 ^ nat (g + 1074)"
    unfolding M by (simp flip: power_add)
  then have "M = 2 ^ (1074 - nat (g + 1074))" by simp
  moreover have "g = - int (1074 - nat (g + 1074))" using le g(2) by linarith
  ultimately show ?thesis unfolding is_one_def using g(1) by metis
qed

lemma pow2_shift: "a + b = c + d \<Longrightarrow> (m :: nat) * 2 ^ a * 2 ^ b = m * 2 ^ c * 2 ^ d"
  by (metis mult.assoc power_add)

lemma f64_mul_one: "f64_isfinite x \<Longrightarrow> is_one y \<Longrightarrow> f64_mul x y = x"
proof -
  assume "f64_isfinite x" "is_one y"
  then obtain s m e k where x: "f64_get x = FFin s m e" and y: "f64_get y = FFin False (2 ^ k) (- int k)"
    by (auto simp: f64_finite is_one_def)
  show ?thesis
  proof (cases "m = 0")
    case True
    then show ?thesis using f64_zero_bits [of x s e] x y by (simp add: f64_mul_def f64_put_zero)
  next
    case False
    have e: "- 1074 \<le> e" using f64_exponent x False by simp
    have "f64_put (FFin s (m * 2 ^ k) (e - int k)) = x"
    proof (rule f64_put_value [OF x])
      have "k + (nat (e - int k) + 1074) = nat (e + 1074) + nat (- (e - int k))" using e by linarith
      then show "m * 2 ^ k * 2 ^ (nat (e - int k) + 1074) = m * 2 ^ (nat (e + 1074) + nat (- (e - int k)))"
        by (metis mult.assoc power_add)
    qed (use False in simp)
    then show ?thesis by (simp add: f64_mul_def x y)
  qed
qed

lemma f64_div_one: "f64_isfinite x \<Longrightarrow> is_one y \<Longrightarrow> f64_div x y = x"
proof -
  assume "f64_isfinite x" "is_one y"
  then obtain s m e k where x: "f64_get x = FFin s m e" and y: "f64_get y = FFin False (2 ^ k) (- int k)"
    by (auto simp: f64_finite is_one_def)
  show ?thesis
  proof (cases "m = 0")
    case True
    then show ?thesis using f64_zero_bits [of x s e] x y by (simp add: f64_div_def fp_pack_def)
  next
    case False
    then have m: "0 < m" by simp
    have e: "- 1074 \<le> e" using f64_exponent x False by simp
    show ?thesis
    proof (cases "0 \<le> e + int k")
      case True
      then have "nat (e + int k) + 1074 = nat (e + 1074) + k" using e by linarith
      from f64_pack_value [OF x m pow2_shift [OF this]] True show ?thesis by (simp add: f64_div_def x y)
    next
      case neg: False
      then have "1074 = nat (e + 1074) + (k + nat (- int k - e))" using e by linarith
      then have "m * 2 ^ 1074 = m * 2 ^ nat (e + 1074) * (2 ^ k * 2 ^ nat (- int k - e))"
        by (metis mult.assoc power_add)
      from f64_pack_value [OF x m this] neg show ?thesis by (simp add: f64_div_def x y)
    qed
  qed
qed

end
