(* ===== verification/Control_Service.thy ===== *)
theory Control_Service
  imports Amm_Semantics Modbus_Access Eval_Log Float_Units
begin

text \<open>
  The single entry point of every Modbus write (\<open>services/control_service.c\<close>): the policy per
  origin, the point lookup, the range check, the conversion of the engineering value to
  registers, the choice of function code and address, and the write. The model, the
  configuration and the bus are those of \<open>Amm_Mapping\<close>, \<open>Runtime_Config\<close> and \<open>Modbus_Access\<close>.
\<close>

datatype control_source =
    CONTROL_SOURCE_MQTT | CONTROL_SOURCE_REST_API | CONTROL_SOURCE_MCP
  | CONTROL_SOURCE_AUTOMATION | CONTROL_SOURCE_LOCAL_UI

record control_result =
  cr_status :: esp_err
  cr_reason :: string
  cr_source :: control_source

definition control_source_name :: "control_source \<Rightarrow> string" where
  "control_source_name source =
     (case source of
        CONTROL_SOURCE_MQTT \<Rightarrow> ''MQTT''
      | CONTROL_SOURCE_REST_API \<Rightarrow> ''REST_API''
      | CONTROL_SOURCE_MCP \<Rightarrow> ''MCP''
      | CONTROL_SOURCE_AUTOMATION \<Rightarrow> ''AUTOMATION''
      | CONTROL_SOURCE_LOCAL_UI \<Rightarrow> ''LOCAL_UI'')"

text \<open>
  What a write finds: the configuration (read through a heap buffer, \<open>w_alloc\<close>), the mapping
  table, the bus, whether each of the metric increments gets its mutex, the names of the status
  codes, and \<open>llround\<close> outside its range.
\<close>

record write_env =
  w_alloc :: bool
  w_amm :: amm_state
  w_access :: access_env
  w_metric :: bool
  w_err_name :: "esp_err \<Rightarrow> string"
  w_llround :: "f64 \<Rightarrow> int"

record control_state =
  k_access :: access_state
  k_eval :: eval_state

definition control_source_may_write :: "write_env \<Rightarrow> control_source \<Rightarrow> bool" where
  "control_source_may_write env source =
     (if source \<noteq> CONTROL_SOURCE_MCP then True
      else w_alloc env \<and> rc_mcp_write_enabled (x_config (w_access env)))"

definition raw_of_engineering :: "f64 \<Rightarrow> amm_entry \<Rightarrow> f64" where
  "raw_of_engineering v m =
     (let scale = (if f32_eq (m_scale_factor m) 0 then f64_of_int 1 else f64_of_f32 (m_scale_factor m))
      in f64_div (f64_sub v (f64_of_f32 (m_offset m))) scale)"

text \<open>The count and the array \<open>words[4]\<close>, which the caller has zeroed.\<close>

definition encode_value :: "(f64 \<Rightarrow> int) \<Rightarrow> f64 \<Rightarrow> amm_entry \<Rightarrow> nat \<times> u16 list" where
  "encode_value ub v m =
     (let raw = raw_of_engineering v m;
          one = \<lambda>w. (1, [w, 0, 0, 0]);
          many = \<lambda>count bits.
            (let words = split_bits count bits;
                 words = (if m_byte_order m = BYTE_ORDER_CDAB \<or> m_byte_order m = BYTE_ORDER_DCBA
                          then swap_words count words else words);
                 words = (if m_byte_order m = BYTE_ORDER_BADC \<or> m_byte_order m = BYTE_ORDER_DCBA
                          then map swap_word_bytes words else words)
             in (count, words @ replicate (4 - count) 0))
      in case m_data_type m of
        DT_INT16 \<Rightarrow> one (word_of_int (llround ub raw))
      | DT_UINT16 \<Rightarrow> one (word_of_int (llround ub raw))
      | DT_BOOL \<Rightarrow> one (if f64_eq raw 0 then 0 else 1)
      | DT_BCD16 \<Rightarrow>
          (let n = word_of_int (llround ub raw) :: u16 in
           one (push_bit 12 (n div 1000 mod 10) OR push_bit 8 (n div 100 mod 10) OR
                push_bit 4 (n div 10 mod 10) OR (n mod 10)))
      | DT_FLOAT32 \<Rightarrow> many 2 (ucast (f32_of_f64 raw))
      | DT_INT32 \<Rightarrow> many 2 (ucast (word_of_int (llround ub raw) :: u32))
      | DT_UINT32 \<Rightarrow> many 2 (ucast (word_of_int (llround ub raw) :: u32))
      | DT_FLOAT64 \<Rightarrow> many 4 raw
      | DT_INT64 \<Rightarrow> many 4 (word_of_int (llround ub raw))
      | DT_UINT64 \<Rightarrow> many 4 (word_of_int (llround ub raw))
      | _ \<Rightarrow> (0, [0, 0, 0, 0]))"

definition count_metric :: "write_env \<Rightarrow> string \<Rightarrow> control_state \<Rightarrow> control_state" where
  "count_metric env name s = s\<lparr>k_eval := eval_increment_metric (w_metric env) (Some name) 1 (k_eval s)\<rparr>"

definition reject ::
  "write_env \<Rightarrow> control_source \<Rightarrow> esp_err \<Rightarrow> string \<Rightarrow> control_state \<Rightarrow> control_state \<times> esp_err \<times> control_result" where
  "reject env source status reason s =
     (count_metric env ''commands_rejected'' s, status,
      \<lparr>cr_status = status, cr_reason = strlcpy 128 reason, cr_source = source\<rparr>)"

text \<open>The function code and the address of a write.\<close>

definition write_function :: "amm_entry \<Rightarrow> nat \<Rightarrow> u8" where
  "write_function m count =
     (if m_object_type m = MODBUS_OBJECT_COIL then (if count = 1 then 5 else 15) else (if count = 1 then 6 else 16))"

definition write_address :: "amm_entry \<Rightarrow> nat \<Rightarrow> u16" where
  "write_address m count = modbus_register_offset (write_function m count) (m_register_address m)"

text \<open>
  The state, the status and the contents of \<open>result\<close> (a caller that passes no result ignores
  them).
\<close>

definition control_service_write_point ::
  "write_env \<Rightarrow> string option \<Rightarrow> string option \<Rightarrow> f64 \<Rightarrow> control_source \<Rightarrow> control_state
    \<Rightarrow> control_state \<times> esp_err \<times> control_result" where
  "control_service_write_point env device point v source s =
     (if device = None \<or> point = None \<or> \<not> f64_isfinite v
      then reject env source ESP_ERR_INVALID_ARG ''invalid target or value'' s
      else
        let s = count_metric env ''commands_received'' s in
        if \<not> control_source_may_write env source
        then reject env source ESP_ERR_NOT_ALLOWED ''writes from this source are not permitted'' s
        else case amm_find_mapping_by_point device point (w_amm env) of
          None \<Rightarrow> reject env source ESP_ERR_NOT_FOUND ''semantic point not found'' s
        | Some m \<Rightarrow>
            (if \<not> writable (m_constraint m) then reject env source ESP_ERR_NOT_ALLOWED ''point is read-only'' s
             else if f64_lt v (f64_of_f32 (valid_range_min (m_constraint m))) \<or>
                     f64_lt (f64_of_f32 (valid_range_max (m_constraint m))) v
             then reject env source ESP_ERR_INVALID_ARG ''value outside AMM safety range'' s
             else
               let (count, words) = encode_value (w_llround env) v m in
               if count = 0 then reject env source ESP_ERR_NOT_SUPPORTED ''unsupported data type'' s
               else
                 let (acc, err) = modbus_write_channel (w_access env) (m_source_protocol m) (m_channel_id m)
                       (m_slave_id m) (write_function m count) (write_address m count)
                       (word_of_nat count) words (k_access s);
                     s = s\<lparr>k_access := acc\<rparr>
                 in if err \<noteq> ESP_OK
                    then reject env source err (strlcpy 96 (''Modbus write failed: '' @ w_err_name env err)) s
                    else (count_metric env ''commands_accepted'' s, ESP_OK,
                          \<lparr>cr_status = ESP_OK, cr_reason = ''write accepted'', cr_source = source\<rparr>)))"

section \<open>Lemmas\<close>

lemma count_metric_access [simp]: "k_access (count_metric env n s) = k_access s"
  by (simp add: count_metric_def)

lemma reject_fields [simp]:
  "k_access (fst (reject env src st r s)) = k_access s" "fst (snd (reject env src st r s)) = st"
  "cr_status (snd (snd (reject env src st r s))) = st" "cr_source (snd (snd (reject env src st r s))) = src"
  by (simp_all add: reject_def)

lemma encode_value_codec:
  "m_data_type m \<noteq> DT_BITFIELD16 \<Longrightarrow>
   encode_value ub v m = modbus_encode_number ub (raw_of_engineering v m) (m_data_type m) (m_byte_order m)"
  by (cases "m_data_type m")
    (simp_all add: encode_value_def modbus_encode_number_def modbus_register_count_for_type_def order_words_def
      encode_bcd_def swaps_words_def swaps_bytes_def Let_def)

lemma encode_value_count: "fst (encode_value ub v m) \<in> {0, 1, 2, 4}" "length (snd (encode_value ub v m)) = 4"
  by (cases "m_data_type m"; simp add: encode_value_def Let_def)+

text \<open>What has to hold for a write to reach the bus.\<close>

definition write_permitted :: "write_env \<Rightarrow> string option \<Rightarrow> string option \<Rightarrow> f64 \<Rightarrow> control_source \<Rightarrow> bool" where
  "write_permitted env device point v source \<longleftrightarrow>
     f64_isfinite v \<and> control_source_may_write env source \<and>
     (\<exists>m. amm_find_mapping_by_point device point (w_amm env) = Some m \<and> writable (m_constraint m) \<and>
        m_data_type m \<notin> {DT_ASCII, DT_BITFIELD16} \<and>
        \<not> f64_lt v (f64_of_f32 (valid_range_min (m_constraint m))) \<and>
        \<not> f64_lt (f64_of_f32 (valid_range_max (m_constraint m))) v)"

lemma encode_zero: "fst (encode_value ub v m) = 0 \<longleftrightarrow> m_data_type m \<in> {DT_ASCII, DT_BITFIELD16}"
  by (cases "m_data_type m") (simp_all add: encode_value_def Let_def)

lemma permitted_target: "write_permitted env d p v src \<Longrightarrow> \<exists>x y. d = Some x \<and> p = Some y"
  by (cases d; cases p) (auto simp: write_permitted_def amm_find_mapping_by_point_def)

lemma write_refused:
  assumes "\<not> write_permitted env d p v src"
  shows "k_access (fst (control_service_write_point env d p v src s)) = k_access s"
    "fst (snd (control_service_write_point env d p v src s)) \<noteq> ESP_OK"
  using assms encode_zero [of "w_llround env" v]
  by (auto simp: control_service_write_point_def write_permitted_def Let_def split_beta split: option.split)

lemma write_run:
  assumes "write_permitted env d p v src" "amm_find_mapping_by_point d p (w_amm env) = Some m"
  defines "c \<equiv> fst (encode_value (w_llround env) v m)"
  shows "control_service_write_point env d p v src s =
    (let (acc, err) = modbus_write_channel (w_access env) (m_source_protocol m) (m_channel_id m) (m_slave_id m)
           (write_function m c) (write_address m c) (word_of_nat c) (snd (encode_value (w_llround env) v m)) (k_access s);
         t = (count_metric env ''commands_received'' s)\<lparr>k_access := acc\<rparr>
     in if err \<noteq> ESP_OK then reject env src err (strlcpy 96 (''Modbus write failed: '' @ w_err_name env err)) t
        else (count_metric env ''commands_accepted'' t, ESP_OK,
              \<lparr>cr_status = ESP_OK, cr_reason = ''write accepted'', cr_source = src\<rparr>))"
  using assms(1,2) permitted_target [OF assms(1)] encode_zero [of "w_llround env" v m]
  by (auto simp: control_service_write_point_def write_permitted_def Let_def split_beta c_def)

section \<open>Unscaled points\<close>

lemma f64_of_f32_0: "f64_of_f32 0 = 0"
  by (simp add: f64_of_f32_def f64_put_def f32_get_def fp_unpack_def fp_round_def fp_pack_def)

lemma unscaled_raw:
  assumes "m_scale_factor m = 0x3F800000 \<or> m_scale_factor m = 0" "m_offset m = 0" "f64_isfinite v"
  shows "raw_of_engineering v m = v"
proof -
  have z: "f32_eq 0 0" "\<not> f32_eq 0x3F800000 0"
    by (simp_all add: f32_eq_def f32_le_def f32_get_def fp_unpack_def signed_def)
  show ?thesis using assms
    by (auto simp: raw_of_engineering_def f64_of_f32_0 f64_sub_0 f64_div_one is_one_int is_one_f32 z)
qed

lemma unscaled_value:
  "m_scale_factor m = 0x3F800000 \<Longrightarrow> m_offset m = 0 \<Longrightarrow> f64_isfinite v \<Longrightarrow> v \<noteq> 0x8000000000000000 \<Longrightarrow>
   engineering_value v m = v"
  by (simp add: engineering_value_def f64_of_f32_0 f64_mul_one f64_add_0 is_one_f32)

section \<open>Properties\<close>

definition metered :: "control_state \<Rightarrow> bool" where
  "metered s \<longleftrightarrow> ev_mutex (k_eval s)"

lemma count_metric_eval:
  "w_metric env \<Longrightarrow> metered s \<Longrightarrow> ev_metrics (k_eval (count_metric env n s)) = add_metric n 1 (ev_metrics (k_eval s))"
  "metered (count_metric env n s) = metered s"
  by (simp_all add: count_metric_def metered_def eval_increment_metric_def)

lemma metered_access [simp]: "metered (s\<lparr>k_access := a\<rparr>) = metered s"
  by (simp add: metered_def)

text \<open>
  C23. No write reaches the bus unless it may: a command whose target, value, origin, data
  type or range is not in order leaves the Modbus master as it was and is refused, so a write
  that reports success has passed every check.
\<close>

theorem write_needs_permission:
  assumes "\<not> write_permitted env device point v source"
  shows "k_access (fst (control_service_write_point env device point v source s)) = k_access s \<and>
    fst (snd (control_service_write_point env device point v source s)) \<noteq> ESP_OK \<and>
    cr_status (snd (snd (control_service_write_point env device point v source s))) =
      fst (snd (control_service_write_point env device point v source s))"
proof -
  have "cr_status (snd (snd (control_service_write_point env device point v source s))) =
      fst (snd (control_service_write_point env device point v source s))"
    by (auto simp: control_service_write_point_def Let_def split_beta split: option.split)
  then show ?thesis using write_refused [OF assms] by blast
qed

text \<open>
  Every command is accounted for: it adds exactly one to the accepted or the rejected
  commands, according to its status, and one to the received commands unless it had no target
  or no finite value.
\<close>

theorem commands_counted:
  assumes "ev_mutex (k_eval s)" "w_metric env"
  shows "let r = control_service_write_point env device point v source s;
             m = ev_metrics (k_eval s); m' = ev_metrics (k_eval (fst r)) in
    commands_accepted m' = commands_accepted m + (if fst (snd r) = ESP_OK then 1 else 0) \<and>
    commands_rejected m' = commands_rejected m + (if fst (snd r) = ESP_OK then 0 else 1) \<and>
    commands_received m' =
      commands_received m + (if device = None \<or> point = None \<or> \<not> f64_isfinite v then 0 else 1)"
proof -
  have m: "metered s" using assms(1) by (simp add: metered_def)
  note c = count_metric_eval(1) [OF assms(2)]
  show ?thesis using m
    by (auto simp: control_service_write_point_def reject_def Let_def split_beta c count_metric_eval(2)
      add_metric_simps split: option.split)
qed

text \<open>
  The registers a write sends mean the value that was asked for: for a point whose type
  represents the scaled value exactly, decoding them as a read of the point does gives
  back (value - offset) / scale.
\<close>

theorem written_registers_decode:
  assumes "represents (m_data_type m) (raw_of_engineering v m)" "same_order (m_data_type m) (m_byte_order m)"
  shows "fst (encode_value ub v m) = modbus_register_count_for_type (m_data_type m) \<and>
    modbus_convert_to_number (Some (snd (encode_value ub v m))) (m_data_type m) (m_byte_order m) b =
      raw_of_engineering v m"
proof -
  have "m_data_type m \<noteq> DT_BITFIELD16" using assms(1) by (auto simp: represents_def)
  then have e: "encode_value ub v m = modbus_encode_number ub (raw_of_engineering v m) (m_data_type m) (m_byte_order m)"
    by (rule encode_value_codec)
  have "fst (encode_value ub v m) = modbus_register_count_for_type (m_data_type m)"
    using assms(1) unfolding e by (cases "m_data_type m") (simp_all add: modbus_encode_number_def Let_def
      modbus_register_count_for_type_def represents_def)
  then show ?thesis unfolding e using encode_decode [OF assms] by simp
qed

text \<open>
  A coil is written one address above where it is read: for a coil point configured at the
  address \<open>a\<close> of the table 1 to 10000, a read addresses the coil \<open>a - 1\<close> while the write request
  that leaves the gateway carries the address \<open>a\<close> itself.
\<close>

theorem coil_written_off_by_one:
  assumes "write_permitted env device point v source"
    "amm_find_mapping_by_point device point (w_amm env) = Some m"
    "m_object_type m = MODBUS_OBJECT_COIL" "m_data_type m = DT_BOOL" "m_source_protocol m = SRC_MODBUS_RTU"
    "1 \<le> m_register_address m" "m_register_address m < 10001"
    "a_initialised (k_access s)" "a_mutex (k_access s)" "x_lock (w_access env)"
    "\<not> f64_eq (raw_of_engineering v m) 0"
  shows "fst (snd (control_service_write_point env device point v source s)) =
      fst (x_master (w_access env) \<lparr>mb_slave_addr = m_slave_id m, mb_reg_start = m_register_address m,
        mb_reg_size = 1, mb_command = 5\<rparr> (Registers [0xFF00])) \<and>
    modbus_register_offset 1 (m_register_address m) = m_register_address m - 1"
proof -
  have e: "encode_value (w_llround env) v m = (1, [1, 0, 0, 0])"
    using assms(4,11) by (simp add: encode_value_def Let_def)
  have "write_address m 1 = m_register_address m" "write_function m 1 = 5"
    using assms(3) by (simp_all add: write_address_def write_function_def modbus_register_offset_def)
  then show ?thesis using assms(5-10)
    by (auto simp: write_run [OF assms(1,2)] e modbus_write_channel_def modbus_write_coils_internal_def
      modbus_lock_def Let_def split_beta modbus_register_offset_def)
qed

text \<open>
  What a control command writes is what the next poll reports: for a point with scale 1 and
  offset 0 and a value its type represents, decoding the written registers as the poll does
  and enriching them gives exactly the commanded value.
\<close>

theorem unscaled_write_reads_back:
  assumes "m_scale_factor m = 0x3F800000" "m_offset m = 0" "f64_isfinite v" "v \<noteq> 0x8000000000000000"
    "represents (m_data_type m) v" "same_order (m_data_type m) (m_byte_order m)"
  shows "engineering_value (modbus_convert_to_number (Some (snd (encode_value ub v m)))
      (m_data_type m) (m_byte_order m) b) m = v"
proof -
  have "m_data_type m \<noteq> DT_BITFIELD16" using assms(5) by (auto simp: represents_def)
  then have "encode_value ub v m = modbus_encode_number ub v (m_data_type m) (m_byte_order m)"
    by (simp add: encode_value_codec unscaled_raw assms(1-3))
  then show ?thesis using encode_decode [OF assms(5,6)] unscaled_value [OF assms(1-4)] by simp
qed

section \<open>Witnesses\<close>

definition coil_entry :: amm_entry where
  "coil_entry = zero_mapping\<lparr>m_slave_id := 1, m_function_code := 1, m_register_address := 5, m_data_type := DT_BOOL,
     m_object_type := MODBUS_OBJECT_COIL, m_active := True, m_device_id := ''pump'', m_point_id := ''run'',
     m_constraint := \<lparr>writable = True, valid_range_min = 0, valid_range_max = 0x7F800000\<rparr>\<rparr>"

definition coil_env :: write_env where
  "coil_env = \<lparr>w_alloc = True,
     w_amm = \<lparr>am_table = [coil_entry], am_capacity = 64, am_default_poll_ms = 1000, am_model_version = 1,
       am_nvs = \<lparr>n_count = None, n_schema = None, n_poll_ms = None, n_entry = (\<lambda>_. None),
         n_rollback_count = None, n_rollback = None\<rparr>\<rparr>,
     w_access = \<lparr>x_master = (\<lambda>req p. (if mb_reg_start req = 5 then ESP_OK else ESP_FAIL, p)),
       x_net = \<lparr>net_resolves = True, net_socket = True, net_connects = True, net_sends = [], net_recvs = (\<lambda>_. [])\<rparr>,
       x_config = load_defaults, x_alloc = True, x_lock = True,
       x_log_env = \<lparr>env_alloc = True, env_take = True, env_uptime_ms = 0, env_wall_ms = None\<rparr>\<rparr>,
     w_metric = True, w_err_name = (\<lambda>_. ''error''), w_llround = (\<lambda>_. 0)\<rparr>"

definition coil_state :: control_state where
  "coil_state = \<lparr>k_access = idle_access, k_eval = \<lparr>ev_mutex = True, ev_metrics = zero_metrics, ev_sequence = 0\<rparr>\<rparr>"

lemma coil_found: "amm_find_mapping_by_point (Some ''pump'') (Some ''run'') (w_amm coil_env) = Some coil_entry"
  by (simp add: amm_find_mapping_by_point_def lookup_active_def find_active_def coil_env_def coil_entry_def)


text \<open>1.0, and infinity as the upper bound.\<close>

lemma f64_get_one: "f64_get 0x3FF0000000000000 = FFin False (2 ^ 52) (- 52)"
  by (simp add: f64_get_def fp_unpack_def)

lemma f64_of_f32_inf: "f64_get (f64_of_f32 0x7F800000) = FInf False"
  by (simp add: f64_of_f32_def f64_put_def f32_get_def fp_unpack_def fp_round_def f64_get_def)

lemma one_checks:
  "f64_isfinite 0x3FF0000000000000" "\<not> f64_lt 0x3FF0000000000000 (f64_of_f32 0)"
  "\<not> f64_lt (f64_of_f32 0x7F800000) 0x3FF0000000000000"
  by (simp_all add: f64_isfinite_def f64_lt_def f64_get_one f64_of_f32_0 f64_of_f32_inf signed_def)


lemma one_f64: "f64_of_int 1 = 0x3FF0000000000000"
  by (simp add: f64_of_int_def f64_put_def fp_round_def fp_pack_def flog2_def bits_len.simps rne_def Let_def)

lemma coil_permitted:
  "write_permitted coil_env (Some ''pump'') (Some ''run'') 0x3FF0000000000000 CONTROL_SOURCE_MQTT"
  using coil_found one_checks
  by (simp add: write_permitted_def control_source_may_write_def)
    (simp add: coil_entry_def)

lemma write_needs_permission_witness:
  "k_access (fst (control_service_write_point coil_env (Some ''pump'') (Some ''stop'') 0 CONTROL_SOURCE_MQTT coil_state))
    = idle_access"
proof -
  have "\<not> write_permitted coil_env (Some ''pump'') (Some ''stop'') 0 CONTROL_SOURCE_MQTT"
    by (simp add: write_permitted_def amm_find_mapping_by_point_def lookup_active_def find_active_def
        coil_env_def coil_entry_def)
  from write_needs_permission [OF this, of coil_state] show ?thesis by (simp add: coil_state_def)
qed

lemma commands_counted_witness:
  "commands_rejected (ev_metrics (k_eval (fst (control_service_write_point coil_env None (Some ''run'') 0
     CONTROL_SOURCE_MQTT coil_state)))) = 1"
  using commands_counted [of coil_state coil_env None "Some ''run''" 0 CONTROL_SOURCE_MQTT]
  by (simp add: coil_state_def coil_env_def control_service_write_point_def reject_def Let_def zero_metrics_def)

definition level_entry :: amm_entry where
  "level_entry = zero_mapping\<lparr>m_data_type := DT_INT32, m_byte_order := BYTE_ORDER_CDAB,
     m_scale_factor := 0x3F800000\<rparr>"

lemma f64_int_finite: "z \<noteq> 0 \<Longrightarrow> \<bar>z\<bar> < 2 ^ 53 \<Longrightarrow> f64_isfinite (f64_of_int z) \<and> f64_of_int z \<noteq> 0x8000000000000000"
  using f64_of_int_get [of z] by (auto simp: f64_isfinite_def f64_get_def fp_unpack_def)

lemma level_represents: "represents DT_INT32 (f64_of_int 70000)"
  by (auto simp: represents_def intro!: exI [of _ 70000])

lemma written_registers_decode_witness:
  "modbus_convert_to_number (Some (snd (encode_value (\<lambda>_. 0) (f64_of_int 70000) level_entry))) DT_INT32 BYTE_ORDER_CDAB 0
    = f64_of_int 70000"
proof -
  have r: "raw_of_engineering (f64_of_int 70000) level_entry = f64_of_int 70000"
    using f64_int_finite [of 70000] by (intro unscaled_raw) (simp_all add: level_entry_def zero_mapping_def)
  have "represents (m_data_type level_entry) (raw_of_engineering (f64_of_int 70000) level_entry)"
    "same_order (m_data_type level_entry) (m_byte_order level_entry)"
    unfolding r by (simp_all add: level_entry_def level_represents same_order_def modbus_register_count_for_type_def)
  from written_registers_decode [OF this] show ?thesis unfolding r by (simp add: level_entry_def)
qed

lemma coil_written_off_by_one_witness:
  "fst (snd (control_service_write_point coil_env (Some ''pump'') (Some ''run'') 0x3FF0000000000000 CONTROL_SOURCE_MQTT
      coil_state)) = ESP_OK"
proof -
  have raw: "raw_of_engineering 0x3FF0000000000000 coil_entry = f64_of_int 1"
    using unscaled_raw [of coil_entry "0x3FF0000000000000"] one_checks(1) one_f64
    by (simp add: coil_entry_def zero_mapping_def)
  show ?thesis
    using coil_written_off_by_one [OF coil_permitted coil_found, of coil_state] f64_eq_1
    by (simp add: raw) (simp add: coil_entry_def zero_mapping_def coil_state_def idle_access_def coil_env_def)
qed

lemma unscaled_write_reads_back_witness:
  "engineering_value (modbus_convert_to_number (Some (snd (encode_value (\<lambda>_. 0) (f64_of_int 70000) level_entry)))
     DT_INT32 BYTE_ORDER_CDAB 0) level_entry = f64_of_int 70000"
  using unscaled_write_reads_back [of level_entry "f64_of_int 70000" "\<lambda>_. 0" 0] f64_int_finite [of 70000]
  by (simp add: level_entry_def level_represents same_order_def modbus_register_count_for_type_def zero_mapping_def)

end
