(* ===== verification/Tcm_State_Pool.thy ===== *)
theory Tcm_State_Pool
  imports Tcm_Types Map_Store
begin

text \<open>
  The pool of current states (\<open>tcm/tcm_state_pool.c\<close>): the last context of every point, keyed by
  device and point. A context replaces the one of its point, takes a free slot, or evicts the
  oldest one. \<open>sp_states\<close> are the used slots; \<open>sp_capacity\<close> is 0 before the array exists, and the
  firmware stops at start-up when it cannot be allocated, so updates find it positive.
\<close>

record state_pool =
  sp_mutex :: bool
  sp_capacity :: nat
  sp_states :: "tcm_context list"

definition pool_boot :: state_pool where
  "pool_boot = \<lparr>sp_mutex = False, sp_capacity = 0, sp_states = []\<rparr>"

text \<open>What the start finds: the mutex, the PSRAM and the two allocations.\<close>

record pool_env =
  pe_mutex :: bool
  pe_psram :: bool
  pe_psram_alloc :: bool
  pe_internal_alloc :: bool

definition tcm_state_pool_init :: "pool_env \<Rightarrow> state_pool \<Rightarrow> state_pool \<times> esp_err" where
  "tcm_state_pool_init env s =
     (let s = (if sp_mutex s then s else s\<lparr>sp_mutex := pe_mutex env\<rparr>) in
      if \<not> sp_mutex s then (s, ESP_ERR_NO_MEM)
      else
        let s = (if sp_capacity s = 0 \<and> pe_psram env \<and> pe_psram_alloc env then s\<lparr>sp_capacity := 1000\<rparr> else s);
            s = (if sp_capacity s = 0 \<and> pe_internal_alloc env then s\<lparr>sp_capacity := 64\<rparr> else s)
        in (s, if sp_capacity s = 0 then ESP_ERR_NO_MEM else ESP_OK))"

definition tcm_state_pool_get_capacity :: "state_pool \<Rightarrow> nat" where
  "tcm_state_pool_get_capacity s = sp_capacity s"

definition state_key :: "tcm_context \<Rightarrow> string \<times> string" where
  "state_key c = (c_device_id c, c_point_id c)"

text \<open>The scan for the oldest slot: the first of the smallest timestamps.\<close>

definition oldest_state :: "tcm_context list \<Rightarrow> nat" where
  "oldest_state xs =
     fold (\<lambda>i old. if c_timestamp_ms (xs ! i) < c_timestamp_ms (xs ! old) then i else old) [0..<length xs] 0"

definition tcm_state_pool_update :: "tcm_context option \<Rightarrow> state_pool \<Rightarrow> state_pool" where
  "tcm_state_pool_update context s =
     (case context of
        None \<Rightarrow> s
      | Some c \<Rightarrow>
          (if \<not> sp_mutex s then s
           else case find_slot (\<lambda>x. state_key x = state_key c) (sp_states s) of
             Some i \<Rightarrow> s\<lparr>sp_states := (sp_states s)[i := c]\<rparr>
           | None \<Rightarrow>
               (if length (sp_states s) < sp_capacity s then s\<lparr>sp_states := sp_states s @ [c]\<rparr>
                else s\<lparr>sp_states := (sp_states s)[oldest_state (sp_states s) := c]\<rparr>)))"

definition tcm_state_pool_clear :: "state_pool \<Rightarrow> state_pool" where
  "tcm_state_pool_clear s = (if sp_capacity s = 0 \<or> \<not> sp_mutex s then s else s\<lparr>sp_states := []\<rparr>)"

definition tcm_state_pool_get :: "string option \<Rightarrow> string option \<Rightarrow> state_pool \<Rightarrow> tcm_context + esp_err" where
  "tcm_state_pool_get device point s =
     (case (device, point) of
        (Some d, Some p) \<Rightarrow>
          (if \<not> sp_mutex s then Inr ESP_ERR_INVALID_ARG
           else case List.find (\<lambda>x. c_device_id x = d \<and> c_point_id x = p) (sp_states s) of
             Some x \<Rightarrow> Inl x
           | None \<Rightarrow> Inr ESP_ERR_NOT_FOUND)
      | _ \<Rightarrow> Inr ESP_ERR_INVALID_ARG)"

definition tcm_state_pool_snapshot :: "int \<Rightarrow> state_pool \<Rightarrow> tcm_context list" where
  "tcm_state_pool_snapshot max_items s =
     (if max_items \<le> 0 \<or> \<not> sp_mutex s then [] else take (nat max_items) (sp_states s))"

section \<open>The pool as a finite map\<close>

definition pool_map :: "state_pool \<Rightarrow> (string \<times> string) \<rightharpoonup> tcm_context" where
  "pool_map s k = List.find (\<lambda>x. state_key x = k) (sp_states s)"

definition pool_ok :: "state_pool \<Rightarrow> bool" where
  "pool_ok s \<longleftrightarrow> sp_mutex s \<and> 0 < sp_capacity s \<and> length (sp_states s) \<le> sp_capacity s \<and>
     distinct (map state_key (sp_states s))"

definition pool_room :: "tcm_context \<Rightarrow> state_pool \<Rightarrow> bool" where
  "pool_room c s \<longleftrightarrow> pool_map s (state_key c) \<noteq> None \<or> length (sp_states s) < sp_capacity s"

lemma find_distinct:
  "distinct (map f xs) \<Longrightarrow> List.find (\<lambda>x. f x = k) xs = Some x \<longleftrightarrow> x \<in> set xs \<and> f x = k"
  by (induction xs) auto

lemma find_none: "List.find (\<lambda>x. f x = k) xs = None \<longleftrightarrow> k \<notin> f ` set xs"
  by (auto simp: find_None_iff)

lemma key_unique:
  "distinct (map f xs) \<Longrightarrow> i < length xs \<Longrightarrow> x \<in> set xs \<Longrightarrow> f x = f (xs ! i) \<Longrightarrow> x = xs ! i"
  by (metis distinct_map inj_onD nth_mem)

lemma find_update:
  assumes "distinct (map f xs)" "i < length xs" "f c \<notin> f ` (set xs - {xs ! i})"
  shows "List.find (\<lambda>x. f x = k) (xs[i := c]) =
    (if k = f c then Some c else if k = f (xs ! i) then None else List.find (\<lambda>x. f x = k) xs)"
    "distinct (map f (xs[i := c]))"
proof -
  have d: "distinct xs" using assms(1) by (simp add: distinct_map)
  have s: "set (xs[i := c]) = insert c (set xs - {xs ! i})" by (rule set_update_distinct [OF d assms(2)])
  have u: "x = xs ! i" if "x \<in> set xs" "f x = f (xs ! i)" for x
    using that assms(1,2) by (rule key_unique [rotated 2])
  show dd: "distinct (map f (xs[i := c]))"
    unfolding map_update using assms(1,3) assms(2)
  proof (intro distinct_list_update)
    show "distinct (map f xs)" by (rule assms(1))
    show "f c \<notin> set (map f xs) - {map f xs ! i}" using assms(2,3) by auto
  qed
  show "List.find (\<lambda>x. f x = k) (xs[i := c]) =
    (if k = f c then Some c else if k = f (xs ! i) then None else List.find (\<lambda>x. f x = k) xs)"
  proof (cases "k = f c")
    case True
    then show ?thesis using find_distinct [OF dd, of k c] s by simp
  next
    case nc: False
    show ?thesis
    proof (cases "k = f (xs ! i)")
      case True
      then show ?thesis using nc u s by (auto simp: find_none)
    next
      case False
      have "List.find (\<lambda>x. f x = k) (xs[i := c]) = Some y \<longleftrightarrow> List.find (\<lambda>x. f x = k) xs = Some y" for y
        using find_distinct [OF dd, of k y] find_distinct [OF assms(1), of k y] s nc False by auto
      then have "List.find (\<lambda>x. f x = k) (xs[i := c]) = List.find (\<lambda>x. f x = k) xs"
        by (cases "List.find (\<lambda>x. f x = k) xs") (metis not_None_eq)+
      then show ?thesis using nc False by simp
    qed
  qed
qed

lemma oldest_scan:
  "n \<le> length xs \<Longrightarrow> xs \<noteq> [] \<Longrightarrow>
   fold (\<lambda>i old. if c_timestamp_ms (xs ! i) < c_timestamp_ms (xs ! old) then i else old) [0..<n] 0 < length xs \<and>
   (\<forall>j < n. c_timestamp_ms (xs ! fold (\<lambda>i old. if c_timestamp_ms (xs ! i) < c_timestamp_ms (xs ! old) then i else old)
      [0..<n] 0) \<le> c_timestamp_ms (xs ! j))"
  by (induction n) (auto simp: less_Suc_eq)

lemma oldest_state:
  assumes "xs \<noteq> []"
  shows "oldest_state xs < length xs" "j < length xs \<Longrightarrow> c_timestamp_ms (xs ! oldest_state xs) \<le> c_timestamp_ms (xs ! j)"
  using oldest_scan [of "length xs" xs] assms by (auto simp: oldest_state_def)

lemma pool_map_none: "pool_map s k = None \<longleftrightarrow> k \<notin> state_key ` set (sp_states s)"
  by (simp add: pool_map_def find_none)

lemma update_present:
  assumes "pool_ok s" "find_slot (\<lambda>x. state_key x = state_key c) (sp_states s) = Some i"
  shows "pool_map (tcm_state_pool_update (Some c) s) = (pool_map s)(state_key c \<mapsto> c)"
    "pool_ok (tcm_state_pool_update (Some c) s)"
proof -
  have i: "i < length (sp_states s)" "state_key (sp_states s ! i) = state_key c"
    using assms(2) by (simp_all add: find_slot_Some)
  have d: "distinct (map state_key (sp_states s))" using assms(1) by (simp add: pool_ok_def)
  have n: "state_key c \<notin> state_key ` (set (sp_states s) - {sp_states s ! i})"
    using key_unique [OF d i(1)] i(2) by force
  show "pool_map (tcm_state_pool_update (Some c) s) = (pool_map s)(state_key c \<mapsto> c)"
    "pool_ok (tcm_state_pool_update (Some c) s)"
    using assms find_update [OF d i(1) n] i(2)
    by (auto simp: tcm_state_pool_update_def pool_ok_def pool_map_def fun_eq_iff)
qed

lemma update_new:
  assumes "pool_ok s" "find_slot (\<lambda>x. state_key x = state_key c) (sp_states s) = None"
    "length (sp_states s) < sp_capacity s"
  shows "pool_map (tcm_state_pool_update (Some c) s) = (pool_map s)(state_key c \<mapsto> c)"
    "pool_ok (tcm_state_pool_update (Some c) s)"
proof -
  have n: "state_key c \<notin> state_key ` set (sp_states s)" using assms(2) by (auto simp: find_slot_None)
  have a: "List.find P (xs @ [c]) = (case List.find P xs of Some y \<Rightarrow> Some y | None \<Rightarrow> if P c then Some c else None)"
    for P and xs :: "tcm_context list" by (induction xs) auto
  have "List.find (\<lambda>x. state_key x = k) (sp_states s @ [c]) =
      (if k = state_key c then Some c else List.find (\<lambda>x. state_key x = k) (sp_states s))" for k
    using n find_none [of state_key k "sp_states s"] by (auto simp: a split: option.split)
  then show "pool_map (tcm_state_pool_update (Some c) s) = (pool_map s)(state_key c \<mapsto> c)"
    using assms by (auto simp: tcm_state_pool_update_def pool_ok_def pool_map_def fun_eq_iff)
  show "pool_ok (tcm_state_pool_update (Some c) s)"
    using assms n by (auto simp: tcm_state_pool_update_def pool_ok_def)
qed

lemma update_full:
  assumes "pool_ok s" "find_slot (\<lambda>x. state_key x = state_key c) (sp_states s) = None"
    "\<not> length (sp_states s) < sp_capacity s"
  defines "old \<equiv> sp_states s ! oldest_state (sp_states s)"
  shows "pool_map (tcm_state_pool_update (Some c) s) = (pool_map s)(state_key old := None, state_key c \<mapsto> c)"
    "pool_ok (tcm_state_pool_update (Some c) s)" "old \<in> set (sp_states s)"
    "x \<in> set (sp_states s) \<Longrightarrow> c_timestamp_ms old \<le> c_timestamp_ms x"
proof -
  have ne: "sp_states s \<noteq> []" using assms(1,3) by (auto simp: pool_ok_def)
  note o = oldest_state [OF ne]
  have d: "distinct (map state_key (sp_states s))" using assms(1) by (simp add: pool_ok_def)
  have n: "state_key c \<notin> state_key ` (set (sp_states s) - {sp_states s ! oldest_state (sp_states s)})"
    using assms(2) by (auto simp: find_slot_None)
  show "pool_map (tcm_state_pool_update (Some c) s) = (pool_map s)(state_key old := None, state_key c \<mapsto> c)"
    "pool_ok (tcm_state_pool_update (Some c) s)"
    using assms(1-3) find_update [OF d o(1) n]
    by (auto simp: tcm_state_pool_update_def pool_ok_def pool_map_def old_def fun_eq_iff)
  show "old \<in> set (sp_states s)" using o(1) by (simp add: old_def)
  show "x \<in> set (sp_states s) \<Longrightarrow> c_timestamp_ms old \<le> c_timestamp_ms x"
    using o(2) by (auto simp: old_def in_set_conv_nth)
qed

lemma update_ok [inv_intros]: "pool_ok s \<Longrightarrow> pool_ok (tcm_state_pool_update (Some c) s)"
  using update_present(2) update_new(2) update_full(2)
  by (cases "find_slot (\<lambda>x. state_key x = state_key c) (sp_states s)"; cases "length (sp_states s) < sp_capacity s") auto

lemma present_iff: "pool_map s (state_key c) \<noteq> None \<longleftrightarrow> find_slot (\<lambda>x. state_key x = state_key c) (sp_states s) \<noteq> None"
proof -
  have "pool_map s (state_key c) = None \<longleftrightarrow> find_slot (\<lambda>x. state_key x = state_key c) (sp_states s) = None"
    unfolding pool_map_none find_slot_None by (auto simp: image_iff eq_commute)
  then show ?thesis by simp
qed

interpretation pool: keyed_store pool_map state_key "\<lambda>s c. c" "\<lambda>c. tcm_state_pool_update (Some c)" pool_room pool_ok
proof unfold_locales
  fix s v k
  show "pool_ok s \<Longrightarrow> pool_ok (tcm_state_pool_update (Some v) s)" by (rule update_ok)
  show "pool_ok s \<Longrightarrow> pool_room v s \<Longrightarrow>
      pool_map (tcm_state_pool_update (Some v) s) k = (if k = state_key v then Some v else pool_map s k)"
    using update_present(1) [of s v] update_new(1) [of s v] present_iff [of s v]
    by (cases "find_slot (\<lambda>x. state_key x = state_key v) (sp_states s)") (auto simp: pool_room_def)
  show "pool_ok s \<Longrightarrow> pool_map s (state_key v) \<noteq> None \<Longrightarrow> pool_room v s" by (simp add: pool_room_def)
qed

lemma get_pool_map:
  "sp_mutex s \<Longrightarrow> tcm_state_pool_get (Some d) (Some p) s =
     (case pool_map s (d, p) of Some c \<Rightarrow> Inl c | None \<Rightarrow> Inr ESP_ERR_NOT_FOUND)"
  by (simp add: tcm_state_pool_get_def pool_map_def state_key_def)


section \<open>Properties\<close>

text \<open>
  C20. The pool implements a finite map from points to their last contexts: an update is a map
  update while the point is known or a slot is free, and on a full pool it first drops one
  point, whose context is no newer than any other; looking a point up reads the map, and no
  point is ever in two slots.
\<close>

theorem pool_refines_map:
  assumes "pool_ok s"
  shows "pool_ok (tcm_state_pool_update (Some c) s) \<and>
    (if pool_map s (state_key c) \<noteq> None \<or> length (sp_states s) < sp_capacity s
     then pool_map (tcm_state_pool_update (Some c) s) = (pool_map s)(state_key c \<mapsto> c)
     else \<exists>old \<in> set (sp_states s).
       pool_map (tcm_state_pool_update (Some c) s) = (pool_map s)(state_key old := None, state_key c \<mapsto> c) \<and>
       list_all (\<lambda>x. c_timestamp_ms old \<le> c_timestamp_ms x) (sp_states s)) \<and>
    tcm_state_pool_get (Some d) (Some p) s =
      (case pool_map s (d, p) of Some x \<Rightarrow> Inl x | None \<Rightarrow> Inr ESP_ERR_NOT_FOUND)"
proof -
  have "sp_mutex s" using assms by (simp add: pool_ok_def)
  note g = get_pool_map [OF this, of d p]
  show ?thesis
  proof (cases "pool_map s (state_key c) \<noteq> None \<or> length (sp_states s) < sp_capacity s")
    case True
    then have "pool_map (tcm_state_pool_update (Some c) s) = (pool_map s)(state_key c \<mapsto> c)"
      using pool.lookup_store [OF assms, of c] by (auto simp: pool_room_def fun_eq_iff)
    then show ?thesis using True g update_ok [OF assms] by simp
  next
    case False
    then have "find_slot (\<lambda>x. state_key x = state_key c) (sp_states s) = None" using present_iff [of s c] by auto
    then show ?thesis using False g update_ok [OF assms] update_full [OF assms]
      by (auto simp: list_all_iff)
  qed
qed

definition demo_context :: "string \<Rightarrow> ms \<Rightarrow> tcm_context" where
  "demo_context point at = \<lparr>c_tcm_version = ''1.1'', c_gateway_id = ''gw'', c_channel_id = 0, c_context_id = 1,
     c_device_id = ''meter'', c_point_id = point, c_source_protocol = SRC_MODBUS_RTU, c_slave_id = 1,
     c_function_code = 3, c_register_address = 40001, c_data_type = DT_UINT16, c_measurement_name = point,
     c_unit = ''V'', c_value = 0, c_raw_value = 0, c_value_text = [], c_scale_factor = 0x3F800000, c_offset = 0,
     c_byte_order = BYTE_ORDER_ABCD, c_timestamp_ms = at, c_quality_state = QUALITY_GOOD,
     c_network_state = NET_ONLINE, c_operation_type = OP_READ_PUBLISH,
     c_constraint = \<lparr>writable = False, valid_range_min = 0, valid_range_max = 0\<rparr>, c_sequence_id = 1,
     c_mapping_version = 1, c_gateway_property_key = [], c_object_type = MODBUS_OBJECT_HOLDING_REGISTER,
     c_semantic_source = SEMANTIC_SOURCE_USER, c_semantic_status = SEMANTIC_STATUS_RESOLVED,
     c_semantic_profile_id = [], c_semantic_profile_version = 0, c_semantic_confidence = 100,
     c_semantic_evidence = [], c_timestamp_synchronized = False, c_validated = True\<rparr>"

definition full_pool :: state_pool where
  "full_pool = \<lparr>sp_mutex = True, sp_capacity = 2, sp_states = [demo_context ''a'' 20, demo_context ''b'' 10]\<rparr>"

lemma full_pool_ok: "pool_ok full_pool"
  by (simp add: pool_ok_def full_pool_def state_key_def demo_context_def)

lemma pool_refines_map_witness:
  "\<exists>old \<in> set (sp_states full_pool). pool_map (tcm_state_pool_update (Some (demo_context ''c'' 30)) full_pool) =
     (pool_map full_pool)(state_key old := None, (''meter'', ''c'') \<mapsto> demo_context ''c'' 30)"
proof -
  have "pool_map full_pool (state_key (demo_context ''c'' 30)) = None"
    by (simp add: pool_map_def full_pool_def state_key_def demo_context_def)
  moreover have "\<not> length (sp_states full_pool) < sp_capacity full_pool" by (simp add: full_pool_def)
  moreover have "state_key (demo_context ''c'' 30) = (''meter'', ''c'')" by (simp add: state_key_def demo_context_def)
  ultimately show ?thesis using pool_refines_map [OF full_pool_ok, of "demo_context ''c'' 30"] by auto
qed

text \<open>
  Polling known points in any order, any number of times, never loses a point or touches
  one that is not polled, and a lookup then gives the context of the last poll.
\<close>

theorem last_poll_visible:
  assumes "pool_ok s" "\<forall>x \<in> set (cs @ [c]). pool_map s (state_key x) \<noteq> None"
  shows "tcm_state_pool_get (Some (c_device_id c)) (Some (c_point_id c))
      (fold (\<lambda>x. tcm_state_pool_update (Some x)) (cs @ [c]) s) = Inl c \<and>
    dom (pool_map (fold (\<lambda>x. tcm_state_pool_update (Some x)) (cs @ [c]) s)) = dom (pool_map s)"
proof -
  let ?t = "fold (\<lambda>x. tcm_state_pool_update (Some x)) (cs @ [c]) s"
  have ok: "pool_ok ?t" and d: "\<And>k. pool_map ?t k = None \<longleftrightarrow> pool_map s k = None"
    using pool.present_fold [OF assms] by auto
  have "pool_map ?t (state_key c) = Some c" using pool.present_last [OF assms] by auto
  moreover have "sp_mutex ?t" using ok by (simp add: pool_ok_def)
  moreover have "dom (pool_map ?t) = dom (pool_map s)" using d by (simp only: dom_def)
  ultimately show ?thesis by (simp add: get_pool_map state_key_def)
qed

lemma last_poll_visible_witness:
  "tcm_state_pool_get (Some ''meter'') (Some ''a'')
     (fold (\<lambda>x. tcm_state_pool_update (Some x)) [demo_context ''b'' 40, demo_context ''a'' 50] full_pool)
   = Inl (demo_context ''a'' 50)"
proof -
  have "\<forall>x \<in> set ([demo_context ''b'' 40] @ [demo_context ''a'' 50]). pool_map full_pool (state_key x) \<noteq> None"
    by (simp add: pool_map_def full_pool_def state_key_def demo_context_def)
  from last_poll_visible [OF full_pool_ok this] show ?thesis by (simp add: demo_context_def)
qed

end
