(* ===== verification/Modbus_Tcp_Server.thy ===== *)
theory Modbus_Tcp_Server
  imports Control_Service Tcm_State_Pool
begin

text \<open>
  The northbound Modbus TCP server (\<open>modbus/modbus_tcp_server.c\<close>): registers and coils are
  served from the last contexts of the state pool, writes go through the control service. The
  sockets are what successive calls return, as in \<open>Modbus_Access\<close>. The result that spans
  components: the gateway's own master, reading from this server over TCP, gets exactly the
  words the server read from its pool.
\<close>

section \<open>Sockets\<close>

text \<open>The bytes, \<open>None\<close> when fewer arrive before the stream ends, and what is left of the stream.\<close>

fun receive_all :: "nat \<Rightarrow> recv_event list \<Rightarrow> u8 list \<Rightarrow> u8 list option \<times> recv_event list" where
  "receive_all n [] got = (if n = 0 then Some got else None, [])"
| "receive_all n (e # es) got =
     (if n = 0 then (Some got, e # es)
      else case e of
        Data [] \<Rightarrow> (None, es)
      | Closed \<Rightarrow> (None, es)
      | Failed \<Rightarrow> (None, es)
      | Data xs \<Rightarrow>
          (if length xs \<le> n then receive_all (n - length xs) es (got @ xs)
           else (Some (got @ take n xs), Data (drop n xs) # es)))"

text \<open>Whether everything was sent, and the results left for later calls.\<close>

fun send_all :: "int \<Rightarrow> int list \<Rightarrow> bool \<times> int list" where
  "send_all todo [] = (todo \<le> 0, [])"
| "send_all todo (r # rs) =
     (if todo \<le> 0 then (True, r # rs) else if r \<le> 0 then (False, rs) else send_all (todo - r) rs)"

section \<open>Reading\<close>

text \<open>What a request finds: the mappings and the bus of the control service, and the state pool.\<close>

record server_env =
  sv_write :: write_env
  sv_pool :: state_pool

definition find_mapping :: "u8 \<Rightarrow> u8 \<Rightarrow> u16 \<Rightarrow> amm_state \<Rightarrow> (amm_entry \<times> nat) option" where
  "find_mapping unit fc offset s =
     (case amm_find_mapping_covering unit fc offset s of
        Some r \<Rightarrow> Some r
      | None \<Rightarrow>
          (let logical = (if fc = 1 then offset + 1 else if fc = 2 then offset + 10001
                          else if fc = 3 then offset + 40001 else if fc = 4 then offset + 30001 else offset)
           in amm_find_mapping_covering unit fc logical s))"

definition read_word :: "server_env \<Rightarrow> u8 \<Rightarrow> u8 \<Rightarrow> u16 \<Rightarrow> u16 option" where
  "read_word env unit fc offset =
     (case find_mapping unit fc offset (w_amm (sv_write env)) of
        None \<Rightarrow> None
      | Some (mapping, word_index) \<Rightarrow>
          (case tcm_state_pool_get (Some (m_device_id mapping)) (Some (m_point_id mapping)) (sv_pool env) of
             Inr _ \<Rightarrow> None
           | Inl state \<Rightarrow>
               (if c_quality_state state = QUALITY_INVALID then None
                else if fc \<le> 2 then Some (if f64_eq (c_value state) 0 then 0 else 1)
                else
                  let (count, words) = modbus_encode_number (w_llround (sv_write env)) (c_raw_value state)
                        (m_data_type mapping) (m_byte_order mapping)
                  in if word_index \<ge> count then None else Some (words ! word_index))))"

text \<open>The loop over the addresses of a read, which stops at the first word that is not there.\<close>

fun read_words :: "server_env \<Rightarrow> u8 \<Rightarrow> u8 \<Rightarrow> u16 \<Rightarrow> nat \<Rightarrow> nat \<Rightarrow> u16 list option" where
  "read_words env unit fc address i 0 = Some []"
| "read_words env unit fc address i (Suc n) =
     (case read_word env unit fc (address + word_of_nat i) of
        None \<Rightarrow> None
      | Some w \<Rightarrow> map_option (Cons w) (read_words env unit fc address (Suc i) n))"

section \<open>Writing\<close>

definition write_single :: "write_env \<Rightarrow> u8 \<Rightarrow> u8 \<Rightarrow> u16 \<Rightarrow> u16 \<Rightarrow> control_state \<Rightarrow> u8 \<times> control_state" where
  "write_single env unit fc offset raw s =
     (case find_mapping unit (if fc = 5 then 1 else 3) offset (w_amm env) of
        None \<Rightarrow> (2, s)
      | Some (mapping, word_index) \<Rightarrow>
          (if word_index \<noteq> 0 \<or> \<not> writable (m_constraint mapping) then (2, s)
           else
             let raw_numeric = (if fc = 5 then (if raw = 0xFF00 then f64_of_int 1 else 0) else f64_of_int (uint raw));
                 engineering = engineering_value raw_numeric mapping;
                 (t, err, _) = control_service_write_point env (Some (m_device_id mapping)) (Some (m_point_id mapping))
                   engineering CONTROL_SOURCE_REST_API s
             in (if err = ESP_OK then 0 else 4, t)))"

text \<open>\<open>n\<close> coils are left, the next one is number \<open>index\<close>.\<close>

fun write_coils_from :: "write_env \<Rightarrow> u8 \<Rightarrow> u16 \<Rightarrow> u8 list \<Rightarrow> nat \<Rightarrow> nat \<Rightarrow> control_state \<Rightarrow> u8 \<times> control_state" where
  "write_coils_from env unit address packed index 0 s = (0, s)"
| "write_coils_from env unit address packed index (Suc n) s =
     (let raw = (if packed ! (index div 8) AND push_bit (index mod 8) 1 \<noteq> 0 then 0xFF00 else 0);
          (exc, t) = write_single env unit 5 (address + word_of_nat index) raw s
      in if exc \<noteq> 0 then (exc, t) else write_coils_from env unit address packed (Suc index) n t)"

definition write_multiple_coils :: "write_env \<Rightarrow> u8 \<Rightarrow> u16 \<Rightarrow> nat \<Rightarrow> u8 list \<Rightarrow> control_state \<Rightarrow> u8 \<times> control_state" where
  "write_multiple_coils env unit address quantity packed s = write_coils_from env unit address packed 0 quantity s"

definition be16 :: "u8 \<Rightarrow> u8 \<Rightarrow> u16" where
  "be16 hi lo = push_bit 8 (ucast hi) OR ucast lo"

text \<open>
  The words of a point and its number of registers at \<open>values[index]\<close>; the result of one turn
  of the loop is the exception and the registers consumed.
\<close>

definition write_registers_step ::
  "write_env \<Rightarrow> u8 \<Rightarrow> u16 \<Rightarrow> u16 list \<Rightarrow> nat \<Rightarrow> control_state \<Rightarrow> (u8 + nat) \<times> control_state" where
  "write_registers_step env unit address values index s =
     (case find_mapping unit 3 (address + word_of_nat index) (w_amm env) of
        None \<Rightarrow> (Inl 2, s)
      | Some (mapping, word_index) \<Rightarrow>
          (if word_index \<noteq> 0 \<or> \<not> writable (m_constraint mapping) then (Inl 2, s)
           else
             let count = (if m_data_type mapping = DT_ASCII then unat (m_read_register_count mapping)
                          else modbus_register_count_for_type (m_data_type mapping))
             in if count = 0 \<or> count > 4 \<or> index + count > length values \<or> m_data_type mapping = DT_ASCII
                then (Inl 3, s)
                else
                  let raw = modbus_convert_to_number (Some (drop index values)) (m_data_type mapping)
                        (m_byte_order mapping) (m_bit_index mapping);
                      (t, err, _) = control_service_write_point env (Some (m_device_id mapping))
                        (Some (m_point_id mapping)) (engineering_value raw mapping) CONTROL_SOURCE_REST_API s
                  in (if err \<noteq> ESP_OK then Inl 4 else Inr count, t)))"

lemma write_registers_step_count:
  "write_registers_step env unit address values index s = (Inr count, t) \<Longrightarrow>
   0 < count \<and> count \<le> 4 \<and> index + count \<le> length values"
  by (auto simp: write_registers_step_def Let_def split: option.splits if_splits prod.splits)

function write_registers_from ::
  "write_env \<Rightarrow> u8 \<Rightarrow> u16 \<Rightarrow> u16 list \<Rightarrow> nat \<Rightarrow> control_state \<Rightarrow> u8 \<times> control_state" where
  "write_registers_from env unit address values index s =
     (if index < length values then
        (case write_registers_step env unit address values index s of
           (Inl exc, t) \<Rightarrow> (exc, t)
         | (Inr count, t) \<Rightarrow> write_registers_from env unit address values (index + count) t)
      else (0, s))"
  by pat_completeness auto
termination
  by (relation "measure (\<lambda>(env, unit, address, values, index, s). length values - index)")
    (auto dest!: write_registers_step_count [OF sym])

definition write_multiple_registers :: "write_env \<Rightarrow> u8 \<Rightarrow> u16 \<Rightarrow> nat \<Rightarrow> u8 list \<Rightarrow> control_state \<Rightarrow> u8 \<times> control_state" where
  "write_multiple_registers env unit address quantity bytes s =
     (let values = map (\<lambda>i. be16 (bytes ! (2 * i)) (bytes ! (2 * i + 1))) [0..<quantity]
      in write_registers_from env unit address values 0 s)"

declare write_registers_from.simps [simp del]

section \<open>A request\<close>

definition exception_response :: "u8 \<Rightarrow> u8 \<Rightarrow> u8 list" where
  "exception_response fc exc = [fc OR 0x80, exc]"

definition process_pdu :: "server_env \<Rightarrow> u8 \<Rightarrow> u8 list \<Rightarrow> control_state \<Rightarrow> u8 list \<times> control_state" where
  "process_pdu env unit request s =
     (if length request < 5 then (exception_response 0 3, s)
      else
        let fc = request ! 0; address = be16 (request ! 1) (request ! 2);
            quantity = be16 (request ! 3) (request ! 4); n = unat quantity
        in if 1 \<le> fc \<and> fc \<le> 4 then
             (if n = 0 \<or> n > (if fc \<le> 2 then 2000 else 125) then (exception_response fc 3, s)
              else case read_words env unit fc address 0 n of
                None \<Rightarrow> (exception_response fc 2, s)
              | Some ws \<Rightarrow>
                  (if fc \<le> 2
                   then ([fc, word_of_nat ((n + 7) div 8)] @ pack_bits (replicate ((n + 7) div 8) 0) ws n, s)
                   else ([fc, word_of_nat (n * 2)] @ concat (map word_bytes ws), s)))
           else if (fc = 5 \<or> fc = 6) \<and> length request = 5 then
             (let (exc, t) = write_single (sv_write env) unit fc address quantity s
              in (if exc \<noteq> 0 then exception_response fc exc else take 5 request, t))
           else if fc = 15 \<or> fc = 16 then
             (if length request < 6 \<or> n = 0 \<or> n > (if fc = 15 then 1968 else 123) then (exception_response fc 3, s)
              else
                let byte_count = unat (request ! 5);
                    expected = (if fc = 15 then (n + 7) div 8 else n * 2)
                in if byte_count \<noteq> expected \<or> length request \<noteq> byte_count + 6 then (exception_response fc 3, s)
                   else
                     let (exc, t) = (if fc = 15 then write_multiple_coils (sv_write env) unit address n (drop 6 request) s
                                     else write_multiple_registers (sv_write env) unit address n (drop 6 request) s)
                     in (if exc \<noteq> 0 then exception_response fc exc else take 5 request, t))
           else (exception_response fc 1, s))"

section \<open>Clients\<close>

record server_status =
  ss_running :: bool
  ss_port :: u16
  ss_active_clients :: u8
  ss_requests :: u32
  ss_exceptions :: u32
  ss_writes :: u32

definition count_request :: "u8 \<Rightarrow> server_status \<Rightarrow> server_status" where
  "count_request answer st =
     (let st = st\<lparr>ss_requests := ss_requests st + 1\<rparr>
      in if answer AND 0x80 \<noteq> 0 then st\<lparr>ss_exceptions := ss_exceptions st + 1\<rparr>
         else if answer \<in> {5, 6, 15, 16} then st\<lparr>ss_writes := ss_writes st + 1\<rparr> else st)"

text \<open>The loop body up to the answer: the frame of the answer, or \<open>None\<close> when the loop ends.\<close>

definition receive_request :: "recv_event list \<Rightarrow> (u8 list \<times> u8 list) option \<times> recv_event list" where
  "receive_request stream =
     (case receive_all 7 stream [] of
        (None, rest) \<Rightarrow> (None, rest)
      | (Some header, rest) \<Rightarrow>
          (let len = unat (be16 (header ! 4) (header ! 5)) in
           if len < 2 \<or> len > 254 then (None, rest)
           else case receive_all (len - 1) rest [] of
               (None, rest) \<Rightarrow> (None, rest)
             | (Some pdu, rest) \<Rightarrow> (Some (header, pdu), rest)))"

definition response_frame :: "u8 list \<Rightarrow> u8 list \<Rightarrow> u8 list" where
  "response_frame header answer =
     take 4 header @ word_bytes (word_of_nat (length answer + 1)) @ [header ! 6] @ answer"

fun stream_size :: "recv_event list \<Rightarrow> nat" where
  "stream_size [] = 0"
| "stream_size (Data xs # es) = length xs + stream_size es"
| "stream_size (_ # es) = stream_size es"

lemma receive_all_size: "receive_all n es got = (Some r, rest) \<Longrightarrow> stream_size es = stream_size rest + n"
proof (induction n es got rule: receive_all.induct)
  case (1 n got)
  then show ?case by (simp split: if_splits)
next
  case (2 n e es got)
  show ?case
  proof (cases e)
    case (Data xs)
    then show ?thesis using 2 by (cases xs) (auto split: if_splits)
  qed (use 2 in \<open>auto split: if_splits\<close>)
qed

lemma receive_request_size: "receive_request es = (Some r, rest) \<Longrightarrow> stream_size rest + 8 \<le> stream_size es"
  by (auto simp: receive_request_def Let_def split: prod.splits option.splits if_splits dest!: receive_all_size)

text \<open>
  The loop of one client: the frames sent, and the state. \<open>env k\<close> is what the request
  number \<open>k\<close> finds.
\<close>

function client_loop ::
  "(nat \<Rightarrow> server_env) \<Rightarrow> nat \<Rightarrow> recv_event list \<Rightarrow> int list \<Rightarrow> control_state \<Rightarrow> server_status
    \<Rightarrow> u8 list list \<times> control_state \<times> server_status" where
  "client_loop env k stream sends s st =
     (case receive_request stream of
        (None, _) \<Rightarrow> ([], s, st)
      | (Some (header, pdu), rest) \<Rightarrow>
          (let (answer, t) = process_pdu (env k) (header ! 6) pdu s;
               frame = response_frame header answer;
               (sent, sends') = send_all (int (length frame)) sends
           in if \<not> sent then ([], t, st)
              else let (frames, r) = client_loop env (Suc k) rest sends' t (count_request (hd answer) st)
                in (frame # frames, r)))"
  by pat_completeness auto
termination
  by (relation "measure (\<lambda>(env, k, stream, sends, s, st). stream_size stream)")
    (auto dest!: receive_request_size [OF sym])

declare client_loop.simps [simp del]

definition client_closed :: "server_status \<Rightarrow> server_status" where
  "client_closed st = (if ss_active_clients st > 0 then st\<lparr>ss_active_clients := ss_active_clients st - 1\<rparr> else st)"

definition client_task ::
  "(nat \<Rightarrow> server_env) \<Rightarrow> recv_event list \<Rightarrow> int list \<Rightarrow> control_state \<Rightarrow> server_status
    \<Rightarrow> u8 list list \<times> control_state \<times> server_status" where
  "client_task env stream sends s st =
     (let (frames, t, st') = client_loop env 0 stream sends s st in (frames, t, client_closed st'))"

section \<open>The server\<close>

text \<open>
  The module's variables; \<open>sv_tasks\<close> counts the client tasks that run, which the code does not
  store. The server task is listening when \<open>sv_listen\<close>, and exists when \<open>sv_task\<close>.
\<close>

record server_state =
  sv_mutex :: bool
  sv_task :: bool
  sv_listen :: bool
  sv_status :: server_status
  sv_max_clients :: u8
  sv_tasks :: nat

definition zero_status :: server_status where
  "zero_status = \<lparr>ss_running = False, ss_port = 0, ss_active_clients = 0, ss_requests = 0, ss_exceptions = 0, ss_writes = 0\<rparr>"

definition server_boot :: server_state where
  "server_boot = \<lparr>sv_mutex = False, sv_task = False, sv_listen = False, sv_status = zero_status,
     sv_max_clients = 4, sv_tasks = 0\<rparr>"

definition modbus_tcp_server_start :: "runtime_config \<Rightarrow> bool \<Rightarrow> bool \<Rightarrow> server_state \<Rightarrow> server_state \<times> esp_err" where
  "modbus_tcp_server_start config mutex task s =
     (let cfg = rc_modbus_tcp_server config in
      if \<not> srv_enabled cfg then (s, ESP_OK)
      else
        let s = s\<lparr>sv_mutex := sv_mutex s \<or> mutex\<rparr> in
        if \<not> sv_mutex s then (s, ESP_ERR_NO_MEM)
        else if sv_task s then (s, ESP_OK)
        else
          (s\<lparr>sv_status := zero_status\<lparr>ss_port := srv_port cfg\<rparr>,
             sv_max_clients := (if srv_max_clients cfg > 0 then srv_max_clients cfg else 4),
             sv_task := task\<rparr>,
           if task then ESP_OK else ESP_ERR_NO_MEM))"

text \<open>The server task up to its loop; \<open>ok\<close>: the socket could be created, bound and listened on.\<close>

definition server_listen :: "bool \<Rightarrow> server_state \<Rightarrow> server_state" where
  "server_listen ok s =
     (if ok then s\<lparr>sv_listen := True, sv_status := (sv_status s)\<lparr>ss_running := True\<rparr>\<rparr>
      else s\<lparr>sv_listen := False, sv_task := False\<rparr>)"

text \<open>One connection accepted; \<open>task\<close>: the client task could be created.\<close>

definition accept_client :: "bool \<Rightarrow> server_state \<Rightarrow> server_state" where
  "accept_client task s =
     (let full = ss_active_clients (sv_status s) \<ge> sv_max_clients s;
          taken = s\<lparr>sv_status := (sv_status s)\<lparr>ss_active_clients := ss_active_clients (sv_status s) + 1\<rparr>\<rparr>
      in if full then s
         else if task then taken\<lparr>sv_tasks := sv_tasks s + 1\<rparr>
         else taken\<lparr>sv_status := (sv_status taken)\<lparr>ss_active_clients := ss_active_clients (sv_status taken) - 1\<rparr>\<rparr>)"

definition server_loop_ends :: "server_state \<Rightarrow> server_state" where
  "server_loop_ends s = s\<lparr>sv_task := False\<rparr>"

definition modbus_tcp_server_stop :: "server_state \<Rightarrow> server_state" where
  "modbus_tcp_server_stop s =
     (let s = (if sv_listen s then s\<lparr>sv_listen := False\<rparr> else s)
      in if sv_mutex s then s\<lparr>sv_status := (sv_status s)\<lparr>ss_running := False\<rparr>\<rparr> else s)"

definition modbus_tcp_server_get_status :: "server_state \<Rightarrow> server_status option" where
  "modbus_tcp_server_get_status s = (if sv_mutex s then Some (sv_status s) else None)"

text \<open>The steps the tasks and the callers take; the relation allows more orders than the tasks do.\<close>

inductive server_step :: "server_state \<Rightarrow> server_state \<Rightarrow> bool" where
  Start: "server_step s (fst (modbus_tcp_server_start config mutex task s))"
| Listen: "sv_task s \<Longrightarrow> server_step s (server_listen ok s)"
| Accept: "sv_task s \<Longrightarrow> sv_listen s \<Longrightarrow> server_step s (accept_client task s)"
| Close: "sv_tasks s > 0 \<Longrightarrow> server_step s (s\<lparr>sv_status := client_closed (sv_status s), sv_tasks := sv_tasks s - 1\<rparr>)"
| Count: "server_step s (s\<lparr>sv_status := count_request answer (sv_status s)\<rparr>)"
| Stop: "server_step s (modbus_tcp_server_stop s)"
| LoopEnds: "sv_task s \<Longrightarrow> server_step s (server_loop_ends s)"

inductive server_reachable :: "server_state \<Rightarrow> bool" where
  Boot: "server_reachable server_boot"
| Step: "server_reachable s \<Longrightarrow> server_step s t \<Longrightarrow> server_reachable t"

section \<open>Lemmas: streams\<close>

lemma receive_all_socket:
  "receive_all n es got = (case socket_receive_all n es got of
     (Inl r, rest) \<Rightarrow> (Some r, rest) | (Inr _, rest) \<Rightarrow> (None, rest))"
  by (induction n es got rule: receive_all.induct) (auto split: recv_event.split list.split)

lemma receive_enough:
  assumes "[] \<notin> set xss" "n \<le> length (concat xss)"
  obtains yss where "receive_all n (map Data xss) [] = (Some (take n (concat xss)), map Data yss)"
    "concat yss = drop n (concat xss)" "[] \<notin> set yss"
  using receive_all_enough [OF assms, of "[]"] by (auto simp: receive_all_socket)

lemma receive_short:
  "[] \<notin> set xss \<Longrightarrow> length (concat xss) < n \<Longrightarrow> receive_all n (map Data xss) [] = (None, [])"
  by (simp add: receive_all_socket receive_all_short)

text \<open>A request is a function of the bytes, not of the segments they come in.\<close>

definition request_of :: "u8 list \<Rightarrow> ((u8 list \<times> u8 list) \<times> u8 list) option" where
  "request_of bytes =
     (let len = unat (be16 (bytes ! 4) (bytes ! 5)) in
      if length bytes < 7 \<or> len < 2 \<or> len > 254 \<or> length bytes < 6 + len then None
      else Some ((take 7 bytes, take (len - 1) (drop 7 bytes)), drop (6 + len) bytes))"

lemma receive_request_bytes:
  assumes "[] \<notin> set xss"
  shows "case request_of (concat xss) of
      None \<Rightarrow> fst (receive_request (map Data xss)) = None
    | Some (r, left) \<Rightarrow> \<exists>yss. receive_request (map Data xss) = (Some r, map Data yss) \<and>
        concat yss = left \<and> [] \<notin> set yss"
proof (cases "length (concat xss) < 7")
  case True
  then show ?thesis using receive_short [OF assms True] by (simp add: receive_request_def request_of_def Let_def)
next
  case False
  then obtain yss where y: "receive_all 7 (map Data xss) [] = (Some (take 7 (concat xss)), map Data yss)"
      "concat yss = drop 7 (concat xss)" "[] \<notin> set yss"
    using receive_enough [OF assms, of 7] by (metis not_less)
  define len where "len = unat (be16 (concat xss ! 4) (concat xss ! 5))"
  have l: "length (concat yss) < len - 1 \<longleftrightarrow> length (concat xss) < 6 + len" if "2 \<le> len"
    using that False by (auto simp: y(2))
  show ?thesis
  proof (cases "len < 2 \<or> len > 254")
    case True
    then show ?thesis using y(1) by (auto simp: receive_request_def request_of_def len_def)
  next
    case ok: False
    show ?thesis
    proof (cases "length (concat yss) < len - 1")
      case True
      then show ?thesis using y(1) l ok False receive_short [OF y(3) True]
        by (simp add: receive_request_def request_of_def flip: len_def)
    next
      case enough: False
      then obtain zss where "receive_all (len - 1) (map Data yss) [] = (Some (take (len - 1) (concat yss)), map Data zss)"
          "concat zss = drop (len - 1) (concat yss)" "[] \<notin> set zss"
        using receive_enough [OF y(3), of "len - 1"] by (metis not_less)
      moreover have "len - 1 + 7 = 6 + len" using ok by linarith
      ultimately show ?thesis using y(1,2) l ok False enough
        by (auto simp: receive_request_def request_of_def add.commute simp flip: len_def)
    qed
  qed
qed

lemma client_loop_bytes:
  "[] \<notin> set xss \<Longrightarrow> [] \<notin> set yss \<Longrightarrow> concat xss = concat yss \<Longrightarrow>
   client_loop env k (map Data xss) sends s st = client_loop env k (map Data yss) sends s st"
proof (induction "length (concat xss)" arbitrary: xss yss k sends s st rule: less_induct)
  case less
  note x = receive_request_bytes [OF less.prems(1)] and y = receive_request_bytes [OF less.prems(2)]
  show ?case
  proof (cases "request_of (concat xss)")
    case None
    then show ?thesis using x y less.prems(3)
      by (auto simp: client_loop.simps [of env k] split: prod.splits)
  next
    case (Some r)
    then obtain header pdu left where r: "request_of (concat xss) = Some ((header, pdu), left)"
      by (metis prod.exhaust)
    obtain xss' yss' where x': "receive_request (map Data xss) = (Some (header, pdu), map Data xss')"
        "concat xss' = left" "[] \<notin> set xss'"
      and y': "receive_request (map Data yss) = (Some (header, pdu), map Data yss')"
        "concat yss' = left" "[] \<notin> set yss'"
      using x y r less.prems(3) by auto
    have "length left < length (concat xss)"
      using r by (auto simp: request_of_def Let_def split: if_splits)
    then have "client_loop env k' (map Data xss') se t st' = client_loop env k' (map Data yss') se t st'" for k' se t st'
      using less.hyps [of xss' yss'] x'(2,3) y'(2,3) by simp
    then show ?thesis
      by (simp add: client_loop.simps [of env k] x'(1) y'(1) split_beta Let_def)
  qed
qed

section \<open>Lemmas: answers\<close>

lemma be16_bytes [simp]: "be16 (high_byte w) (low_byte w) = w"
  unfolding be16_def high_byte_def low_byte_def by (rule bit_word_eqI) (auto simp: bit_simps)

lemma frame_bytes:
  "length pdu < 65535 \<Longrightarrow> unat (be16 (high_byte (word_of_nat (length pdu + 1))) (low_byte (word_of_nat (length pdu + 1)))) = length pdu + 1"
  by (simp add: unat_of_nat take_bit_eq_mod del: of_nat_add of_nat_Suc)

lemma request_of_frame:
  assumes "0 < length pdu" "length pdu \<le> 253"
  shows "request_of (tcp_request tid unit pdu @ left) =
    Some (([high_byte tid, low_byte tid, 0, 0, high_byte (word_of_nat (length pdu + 1)),
      low_byte (word_of_nat (length pdu + 1)), unit], pdu), left)"
proof -
  define h l where "h = high_byte (word_of_nat (length pdu + 1))" and "l = low_byte (word_of_nat (length pdu + 1))"
  have len: "unat (be16 h l) = length pdu + 1"
    unfolding h_def l_def using assms by (intro frame_bytes) simp
  define H where "H = [high_byte tid, low_byte tid, 0, 0, h, l, unit]"
  have f: "tcp_request tid unit pdu = H @ pdu"
    by (simp add: tcp_request_def word_bytes_def h_def l_def H_def)
  have H: "length H = 7" "H ! 4 = h" "H ! 5 = l" by (simp_all add: H_def)
  show ?thesis using assms len H unfolding f h_def [symmetric] l_def [symmetric] H_def [symmetric]
    by (simp add: request_of_def Let_def nth_append)
qed

lemma response_frame_request:
  "response_frame [a, b, 0, 0, h, l, unit] answer = [a, b, 0, 0] @ word_bytes (word_of_nat (length answer + 1)) @ [unit] @ answer"
  by (simp add: response_frame_def)

lemma read_words_length: "read_words env unit fc address i n = Some ws \<Longrightarrow> length ws = n"
  by (induction n arbitrary: i ws) (auto split: option.splits)

lemma read_words_bits:
  "fc \<le> 2 \<Longrightarrow> read_words env unit fc address i n = Some ws \<Longrightarrow> set ws \<subseteq> {0, 1}"
proof (induction n arbitrary: i ws)
  case (Suc n)
  from Suc.prems obtain w vs where "read_word env unit fc (address + word_of_nat i) = Some w"
      "read_words env unit fc address (Suc i) n = Some vs" "ws = w # vs"
    by (auto split: option.splits)
  moreover from this(1) Suc.prems(1) have "w \<in> {0, 1}"
    by (auto simp: read_word_def Let_def split: option.splits prod.splits sum.splits if_splits)
  ultimately show ?case using Suc by auto
qed simp

lemma read_words_nth:
  "read_words env unit fc address i n = Some ws \<Longrightarrow> j < n \<Longrightarrow>
   read_word env unit fc (address + word_of_nat (i + j)) = Some (ws ! j)"
proof (induction n arbitrary: i j ws)
  case (Suc n)
  from Suc.prems(1) obtain w vs where w: "read_word env unit fc (address + word_of_nat i) = Some w"
      "read_words env unit fc address (Suc i) n = Some vs" "ws = w # vs"
    by (auto split: option.splits)
  then show ?case using Suc.IH [OF w(2), of "j - 1"] Suc.prems(2) by (cases j) auto
qed simp

lemma nth_words_bytes:
  "i < length ws \<Longrightarrow> concat (map word_bytes ws) ! (2 * i) = high_byte (ws ! i) \<and>
     concat (map word_bytes ws) ! (2 * i + 1) = low_byte (ws ! i)"
proof (induction ws arbitrary: i)
  case (Cons w ws)
  then show ?case by (cases i) (auto simp: word_bytes_def)
qed simp

definition read_limit :: "u8 \<Rightarrow> nat" where
  "read_limit fc = (if fc \<le> 2 then 2000 else 125)"

lemma process_read:
  assumes "1 \<le> fc" "fc \<le> 4" "0 < unat q" "unat q \<le> read_limit fc"
  shows "process_pdu env unit ([fc] @ word_bytes address @ word_bytes q) s =
    (case read_words env unit fc address 0 (unat q) of
       None \<Rightarrow> (exception_response fc 2, s)
     | Some ws \<Rightarrow>
         (if fc \<le> 2 then ([fc, word_of_nat ((unat q + 7) div 8)] @ pack_bits (replicate ((unat q + 7) div 8) 0) ws (unat q), s)
          else ([fc, word_of_nat (unat q * 2)] @ concat (map word_bytes ws), s)))"
  using assms by (simp add: process_pdu_def word_bytes_def read_limit_def Let_def)

lemma word_byte_small: "n < 256 \<Longrightarrow> unat (word_of_nat n :: u8) = n"
  by (simp add: unat_of_nat take_bit_eq_mod)

lemma read_answer:
  assumes "1 \<le> fc" "fc \<le> 4" "0 < unat q" "unat q \<le> read_limit fc"
    and "read_words env unit fc address 0 (unat q) = Some ws"
  shows "\<exists>answer. process_pdu env unit ([fc] @ word_bytes address @ word_bytes q) s = (answer, s) \<and>
    parse_tcp_read fc q answer = Inl ws \<and> 2 \<le> length answer \<and> length answer \<le> 252 \<and> hd answer = fc"
proof -
  define n where "n = unat q"
  have len: "length ws = n" using read_words_length [OF assms(5)] by (simp add: n_def)
  show ?thesis
  proof (cases "fc \<le> 2")
    case True
    then have n: "n \<le> 2000" using assms(4) by (simp add: read_limit_def n_def)
    then have c: "(n + 7) div 8 \<le> 250" by linarith
    have fc: "fc = 1 \<or> fc = 2"
    proof -
      have "unat fc \<le> 2" "1 \<le> unat fc" using True assms(1) by (simp_all add: word_le_nat_alt)
      then have "unat fc = 1 \<or> unat fc = 2" by linarith
      then show ?thesis by (simp add: word_unat_eq_iff)
    qed
    have "map (packed_bit (pack_bits (replicate ((n + 7) div 8) 0) ws n)) [0..<n] = ws"
      using read_words_bits [OF True assms(5)] len
      by (auto intro!: nth_equalityI simp: packed_bit_pack_bits) (metis insertE nth_mem singletonD subsetD)
    moreover have "process_pdu env unit ([fc] @ word_bytes address @ word_bytes q) s =
        ([fc, word_of_nat ((n + 7) div 8)] @ pack_bits (replicate ((n + 7) div 8) 0) ws n, s)"
      using process_read [OF assms(1-4)] assms(5) True by (simp add: n_def)
    ultimately show ?thesis using c fc
      by - (rule exI, rule conjI, assumption, auto simp: parse_tcp_read_def word_byte_small Let_def simp flip: n_def)
  next
    case False
    then have n: "n \<le> 125" using assms(4) by (simp add: read_limit_def n_def)
    then have b: "unat (word_of_nat (n * 2) :: u8) = n * 2" by (intro word_byte_small) simp
    have fc: "fc \<noteq> 1" "fc \<noteq> 2" using False by auto
    have "push_bit 8 (ucast (concat (map word_bytes ws) ! (2 * i))) OR ucast (concat (map word_bytes ws) ! (2 * i + 1)) = ws ! i"
      if "i < n" for i
      using nth_words_bytes [of i ws] be16_bytes [of "ws ! i"] that len by (simp add: be16_def)
    then have "map (\<lambda>i. push_bit 8 (ucast (concat (map word_bytes ws) ! (2 * i))) OR
        ucast (concat (map word_bytes ws) ! (2 * i + 1))) [0..<n] = ws"
      using len by (auto intro: nth_equalityI)
    moreover have "process_pdu env unit ([fc] @ word_bytes address @ word_bytes q) s =
        ([fc, word_of_nat (n * 2)] @ concat (map word_bytes ws), s)"
      using process_read [OF assms(1-4)] assms(5) False by (simp add: n_def)
    moreover have "3 + i * 2 = Suc (Suc (Suc (i * 2)))" for i :: nat by simp
    ultimately show ?thesis using n b fc len
      by - (rule exI, rule conjI, assumption, simp add: parse_tcp_read_def Let_def mult.commute flip: n_def)
  qed
qed

lemma send_all_less: "fst (send_all n rs) \<Longrightarrow> m \<le> n \<Longrightarrow> fst (send_all m rs)"
  by (induction n rs arbitrary: m rule: send_all.induct) (auto split: if_splits)

text \<open>One request on a connection that then ends.\<close>

lemma client_one_request:
  assumes "[] \<notin> set segments" "concat segments = tcp_request tid unit pdu" "0 < length pdu" "length pdu \<le> 253"
    and "process_pdu (env 0) unit pdu s = (answer, t)" "length answer \<le> 253" "fst (send_all 260 sends)"
  shows "fst (client_task env (map Data segments) sends s st) = [tcp_request tid unit answer]"
proof -
  have r: "request_of (tcp_request tid unit pdu) = Some (([high_byte tid, low_byte tid, 0, 0,
      high_byte (word_of_nat (length pdu + 1)), low_byte (word_of_nat (length pdu + 1)), unit], pdu), [])"
    using request_of_frame [OF assms(3,4), of tid unit "[]"] by simp
  define header where "header = [high_byte tid, low_byte tid, 0, 0,
      high_byte (word_of_nat (length pdu + 1)), low_byte (word_of_nat (length pdu + 1)), unit]"
  have r: "request_of (tcp_request tid unit pdu) = Some ((header, pdu), [])"
    unfolding header_def by (rule r)
  obtain yss where y: "receive_request (map Data segments) = (Some (header, pdu), map Data yss)"
      "concat yss = []" "[] \<notin> set yss"
    using receive_request_bytes [OF assms(1)] r assms(2) by auto
  have "yss = []" using y(2,3) by (cases yss) auto
  then have n: "client_loop env 1 (map Data yss) se t' st' = ([], t', st')" for se t' st'
    by (subst client_loop.simps) (simp add: receive_request_def)
  have f: "response_frame header answer = tcp_request tid unit answer"
    by (simp add: header_def response_frame_def tcp_request_def word_bytes_def)
  have h6: "header ! 6 = unit" by (simp add: header_def)
  have "fst (send_all (int (length (response_frame header answer))) sends)"
    using assms(6,7) by (auto simp: f tcp_request_def intro: send_all_less)
  then show ?thesis using n assms(5) h6 y(1)
    by (simp add: client_task_def client_loop.simps [of env 0] split_beta f Let_def)
qed

section \<open>Properties\<close>

text \<open>
  C8. The gateway's master, reading from the gateway's own server, gets exactly the words the
  server finds in its state pool, whatever the segmentation of the two streams: framing, range
  limits, transaction numbers, packing and parsing of the two components agree for every read
  function and every count the server admits.
\<close>

theorem master_reads_server:
  assumes "\<And>xs. concat (segment_out xs) = xs \<and> [] \<notin> set (segment_out xs)" "\<And>xs. concat (segment_in xs) = xs \<and> [] \<notin> set (segment_in xs)"
    and "net_recvs net = (\<lambda>request. map Data (segment_out (concat (fst (client_task env (map Data (segment_in request)) sends s st)))))"
    and "tcp_endpoint_for config channel = Some ep" "net_resolves net" "net_socket net" "net_connects net"
    and "socket_send_all 12 (net_sends net) = ESP_OK" "fst (send_all 260 sends)"
    and "1 \<le> fc" "fc \<le> 4" "0 < unat count" "unat count \<le> read_limit fc"
    and "read_words (env 0) unit fc address 0 (unat count) = Some ws"
  shows "modbus_tcp_read config net tid channel unit fc address count = (tid + 1, Inl ws)"
proof -
  let ?pdu = "[fc] @ word_bytes address @ word_bytes count"
  let ?request = "tcp_request (tid + 1) unit ?pdu"
  obtain answer where a: "process_pdu (env 0) unit ?pdu s = (answer, s)" "parse_tcp_read fc count answer = Inl ws"
      "2 \<le> length answer" "length answer \<le> 252" "hd answer = fc"
    using read_answer [OF assms(10-14)] by blast
  have "fst (client_task env (map Data (segment_in ?request)) sends s st) = [tcp_request (tid + 1) unit answer]"
    using assms(2) a(4) by (intro client_one_request [where env = env and pdu = ?pdu and t = s, OF _ _ _ _ a(1) _ assms(9)])
      (simp_all add: word_bytes_def)
  then have n: "net_recvs net ?request = map Data (segment_out (tcp_request (tid + 1) unit answer))"
    using assms(3) by simp
  have "fc = 1 \<or> fc = 2 \<or> fc = 3 \<or> fc = 4"
  proof -
    have "unat fc \<le> 4" "1 \<le> unat fc" using assms(10,11) by (simp_all add: word_le_nat_alt)
    then have "unat fc = 1 \<or> unat fc = 2 \<or> unat fc = 3 \<or> unat fc = 4" by linarith
    then show ?thesis by (simp add: word_unat_eq_iff)
  qed
  then have "fc AND 0x80 = 0" by auto
  then have "reply_of ?request 260 (tcp_request (tid + 1) unit answer @ []) = Inl answer"
    using a(3-5) by (intro reply_of_request) auto
  then have "tcp_receive ?request 260 (net_recvs net ?request) = Inl answer"
    using assms(1) tcp_receive_reply [of "segment_out (tcp_request (tid + 1) unit answer)" ?request 260] n by simp
  then show ?thesis using a(2) assms(4-8)
    by (simp add: modbus_tcp_read_def tcp_exchange_def word_bytes_def Let_def)
qed

text \<open>
  What a client is answered, and every effect of its requests, depends on the bytes it
  sends only, not on the segments they arrive in.
\<close>

theorem answers_ignore_segments:
  assumes "[] \<notin> set xss" "[] \<notin> set yss" "concat xss = concat yss"
  shows "client_task env (map Data xss) sends s st = client_task env (map Data yss) sends s st"
  using client_loop_bytes [OF assms] by (simp add: client_task_def)

lemma answers_ignore_segments_witness:
  "\<forall>env s. client_task env (map Data [[0], [1, 0, 0, 0, 2], [1, 7]]) [100] s zero_status =
     client_task env (map Data [[0, 1, 0, 0, 0, 2, 1, 7]]) [100] s zero_status"
  by (intro allI answers_ignore_segments) simp_all

lemma exception_shape:
  "length (exception_response fc e) = 2" "hd (exception_response fc e) = fc OR 0x80"
  by (simp_all add: exception_response_def)

lemma bit_function_bytes: "n \<le> 2000 \<Longrightarrow> (n + 7) div 8 \<le> (250 :: nat)"
  by linarith

lemma echo_shape: "5 \<le> length request \<Longrightarrow> hd (take 5 request) = request ! 0 \<and> length (take 5 request) = 5"
  by (cases request) simp_all

lemma read_shape:
  assumes "\<not> (unat q = 0 \<or> unat q > (if fc \<le> 2 then 2000 else 125))" "read_words env unit fc a 0 (unat q) = Some ws"
  shows "2 \<le> length ((if fc \<le> 2
         then ([fc, word_of_nat ((unat q + 7) div 8)] @ pack_bits (replicate ((unat q + 7) div 8) 0) ws (unat q))
         else ([fc, word_of_nat (unat q * 2)] @ concat (map word_bytes ws)))) \<and>
      length ((if fc \<le> 2
         then ([fc, word_of_nat ((unat q + 7) div 8)] @ pack_bits (replicate ((unat q + 7) div 8) 0) ws (unat q))
         else ([fc, word_of_nat (unat q * 2)] @ concat (map word_bytes ws)))) \<le> 252"
  using assms(1) bit_function_bytes [of "unat q"] read_words_length [OF assms(2)] by (auto split: if_splits)

text \<open>
  Every request gets an answer of 2 to 252 bytes, which fits the 253 bytes left after the
  header of the response buffer; a request of at least five bytes is answered under its own function code or
  by a two-byte exception that carries it.
\<close>

theorem answers_fit:
  assumes "5 \<le> length request" "process_pdu env unit request s = (answer, t)"
  shows "2 \<le> length answer \<and> length answer \<le> 252 \<and>
    (hd answer = request ! 0 \<or> hd answer = request ! 0 OR 0x80 \<and> length answer = 2)"
proof -
  define fc q a where "fc = request ! 0" "q = be16 (request ! 3) (request ! 4)" "a = be16 (request ! 1) (request ! 2)"
  note e = echo_shape [OF assms(1)]
  note d = assms(2) [unfolded process_pdu_def Let_def, folded fc_q_a_def]
  consider (r) "1 \<le> fc \<and> fc \<le> 4" | (w) "\<not> (1 \<le> fc \<and> fc \<le> 4)" by blast
  then show ?thesis
  proof cases
    case r
    show ?thesis
    proof (cases "unat q = 0 \<or> unat q > (if fc \<le> 2 then 2000 else 125)")
      case True
      then show ?thesis using d r assms(1) by (auto simp: exception_shape fc_q_a_def)
    next
      case n: False
      show ?thesis
      proof (cases "read_words env unit fc a 0 (unat q)")
        case None
        then show ?thesis using d r n assms(1) by (auto simp: exception_shape fc_q_a_def split: if_splits)
      next
        case (Some ws)
        then show ?thesis using d r n assms(1) read_shape [OF n Some]
          by (auto simp: fc_q_a_def(1) split: if_splits)
      qed
    qed
  next
    case w
    then show ?thesis using d assms(1) e
      by (auto simp: exception_shape fc_q_a_def(1) split_beta split: if_splits)
  qed
qed

lemma answers_fit_witness:
  "\<exists>answer. process_pdu \<lparr>sv_write = coil_env, sv_pool = pool_boot\<rparr> 1 [9, 0, 0, 0, 1] coil_state = (answer, coil_state) \<and>
     2 \<le> length answer \<and> length answer \<le> 252"
proof -
  have "process_pdu \<lparr>sv_write = coil_env, sv_pool = pool_boot\<rparr> 1 [9, 0, 0, 0, 1] coil_state = ([0x89, 1], coil_state)"
    by (simp add: process_pdu_def exception_response_def)
  then show ?thesis using answers_fit [of "[9, 0, 0, 0, 1]" "\<lparr>sv_write = coil_env, sv_pool = pool_boot\<rparr>" 1 coil_state
      "[0x89, 1]" coil_state] by simp
qed

definition read_only :: "amm_state \<Rightarrow> bool" where
  "read_only s \<longleftrightarrow> list_all (\<lambda>m. m_active m \<longrightarrow> \<not> writable (m_constraint m)) (am_table s)"

lemma found_read_only:
  assumes "read_only s" "find_mapping unit fc a s = Some (m, i)"
  shows "\<not> writable (m_constraint m)"
  using assms by (auto simp: find_mapping_def amm_find_mapping_covering_def lookup_active_def find_active_def
      read_only_def list_all_length find_slot_Some Let_def split: option.splits)

lemma write_single_read_only:
  "read_only (w_amm env) \<Longrightarrow> write_single env unit fc a raw s = (2, s)"
  by (auto simp: write_single_def dest: found_read_only split: option.splits)

lemma process_read_only:
  assumes "read_only (w_amm (sv_write env))"
  shows "snd (process_pdu env unit request s) = s"
proof -
  have "snd (write_multiple_coils (sv_write env) unit a n packed s) = s" for a n packed
    using assms by (cases n) (simp_all add: write_multiple_coils_def write_single_read_only)
  moreover have step: "write_registers_step (sv_write env) unit a vs i s \<in> {(Inl 2, s), (Inl 3, s)}" for a vs i
    using assms by (auto simp: write_registers_step_def dest: found_read_only split: option.splits)
  have "snd (write_registers_from (sv_write env) unit a vs i s) = s" for a vs i
    using step [of a vs i] by (subst write_registers_from.simps) auto
  then have "snd (write_multiple_registers (sv_write env) unit a n bytes s) = s" for a n bytes
    by (simp add: write_multiple_registers_def Let_def)
  ultimately show ?thesis
    by (simp add: process_pdu_def Let_def write_single_read_only [OF assms] split_beta if_distrib [of snd]
        option.case_distrib [of snd] cong: if_cong split: option.split)
qed

text \<open>
  While the mapping table has no writable point, no client can write: whatever it sends, the
  Modbus master and the counters of the control service stay as they are.
\<close>

theorem read_only_table_protects_bus:
  assumes "\<And>k. read_only (w_amm (sv_write (env k)))"
  shows "fst (snd (client_task env stream sends s st)) = s"
proof -
  have "fst (snd (client_loop env k stream sends s st)) = s" for k
  proof (induction "stream_size stream" arbitrary: k stream sends st rule: less_induct)
    case less
    obtain r rest where r: "receive_request stream = (r, rest)" by fastforce
    show ?case
    proof (cases r)
      case None
      then show ?thesis using r by (subst client_loop.simps) simp
    next
      case (Some x)
      obtain header pdu where x: "x = (header, pdu)" by fastforce
      obtain answer where a: "process_pdu (env k) (header ! 6) pdu s = (answer, s)"
        using process_read_only [OF assms, of k "header ! 6" pdu s] by (metis prod.collapse)
      have "stream_size rest < stream_size stream"
        using receive_request_size [of stream x rest] r Some by simp
      then have "fst (snd (client_loop env (Suc k) rest sends' s st')) = s" for sends' st'
        using less by blast
      then show ?thesis using r Some x a by (subst client_loop.simps) (simp add: split_beta Let_def)
    qed
  qed
  then show ?thesis by (simp add: client_task_def split_beta)
qed

definition fixed_env :: write_env where
  "fixed_env = coil_env\<lparr>w_amm := (w_amm coil_env)\<lparr>am_table := [coil_entry\<lparr>m_constraint :=
     \<lparr>writable = False, valid_range_min = 0, valid_range_max = 0x7F800000\<rparr>\<rparr>]\<rparr>\<rparr>"

lemma read_only_table_protects_bus_witness:
  "fst (snd (client_task (\<lambda>_. \<lparr>sv_write = fixed_env, sv_pool = pool_boot\<rparr>)
     [Data [0, 1, 0, 0, 0, 6, 1, 5, 0, 5, 0xFF, 0]] [100] coil_state zero_status)) = coil_state"
  by (rule read_only_table_protects_bus) (simp add: read_only_def fixed_env_def)

text \<open>
  Whatever the tasks do, the server never counts more clients than it may have, nor more than
  run, so a full server refuses every further connection.
\<close>

theorem clients_bounded:
  assumes "server_reachable s"
  shows "ss_active_clients (sv_status s) \<le> sv_max_clients s \<and>
    unat (ss_active_clients (sv_status s)) \<le> sv_tasks s"
  using assms
proof induction
  case Boot
  then show ?case by (simp add: server_boot_def zero_status_def)
next
  case (Step s t)
  have less: "a + 1 \<le> b \<and> unat (a + 1) = unat a + 1" if "a < b" for a b :: u8
    using that unsigned_less [of b, where 'a = nat] by (simp add: word_less_nat_alt word_le_nat_alt unat_word_ariths)
  have minus: "unat (a - 1) = unat a - 1 \<and> (a \<le> b \<longrightarrow> a - 1 \<le> b)" if "a \<noteq> 0" for a b :: u8
    using that unat_minus_one [of a] by (auto simp: word_le_nat_alt)
  show ?case using Step(2,3)
    by (induction rule: server_step.cases)
      (auto simp: modbus_tcp_server_start_def server_listen_def accept_client_def client_closed_def count_request_def
        modbus_tcp_server_stop_def server_loop_ends_def zero_status_def Let_def not_le less minus word_gt_0 split: if_splits)
qed

text \<open>The server of a gateway that admits one client.\<close>

definition one_client_config :: runtime_config where
  "one_client_config = load_defaults\<lparr>rc_modbus_tcp_server :=
     \<lparr>srv_enabled = True, srv_port = 502, srv_max_clients = 1, srv_response_timeout_ms = 1000\<rparr>\<rparr>"

definition serve_one :: "server_state \<Rightarrow> server_state" where
  "serve_one s = accept_client True (server_listen True (fst (modbus_tcp_server_start one_client_config True True s)))"

lemma started_task: "\<not> sv_task s \<Longrightarrow> sv_task (fst (modbus_tcp_server_start one_client_config True True s))"
  by (simp add: modbus_tcp_server_start_def one_client_config_def Let_def)

lemma serve_one_reachable:
  assumes "server_reachable s" "\<not> sv_task s"
  shows "server_reachable (serve_one s)"
proof -
  have "server_reachable (server_listen True (fst (modbus_tcp_server_start one_client_config True True s)))"
    using assms by (intro Step [OF Step [OF _ Start] Listen]) (simp_all add: started_task)
  then show ?thesis unfolding serve_one_def
    by (rule Step [OF _ Accept]) (simp_all add: server_listen_def started_task assms(2))
qed

definition restarted :: server_state where
  "restarted = serve_one (server_loop_ends (modbus_tcp_server_stop (serve_one server_boot)))"

lemma clients_bounded_witness:
  "ss_active_clients (sv_status (serve_one server_boot)) \<le> sv_max_clients (serve_one server_boot)"
  using clients_bounded [OF serve_one_reachable [OF Boot]] by (simp add: server_boot_def)

text \<open>
  The limit holds for one run of the server only: a server with room for one client that is
  stopped and started while its client is connected forgets that client, and serves two.
\<close>

theorem restart_forgets_clients:
  "server_reachable restarted \<and> sv_max_clients restarted = 1 \<and> sv_tasks restarted = 2 \<and>
   ss_active_clients (sv_status restarted) = 1"
proof -
  have r: "server_reachable (serve_one server_boot)"
    by (rule serve_one_reachable [OF Boot]) (simp add: server_boot_def)
  have t: "sv_task (modbus_tcp_server_stop (serve_one server_boot))"
    by (simp add: serve_one_def modbus_tcp_server_stop_def server_boot_def modbus_tcp_server_start_def
        one_client_config_def server_listen_def accept_client_def Let_def zero_status_def)
  have "server_reachable restarted" unfolding restarted_def
    by (rule serve_one_reachable [OF Step [OF Step [OF r Stop] LoopEnds [OF t]]]) (simp add: server_loop_ends_def)
  then show ?thesis
    by (simp add: restarted_def serve_one_def modbus_tcp_server_stop_def server_boot_def modbus_tcp_server_start_def
        one_client_config_def server_listen_def accept_client_def server_loop_ends_def Let_def zero_status_def)
qed

text \<open>
  The two write functions disagree on signed points: writing the register 0xFFFF of an
  unscaled signed point that allows no 65535 is refused by function 6, which takes the register
  for 65535, while function 16 commands -1.
\<close>

theorem signed_single_write_refused:
  assumes "find_mapping unit 3 address (w_amm env) = Some (m, 0)" "writable (m_constraint m)" "m_data_type m = DT_INT16"
    and "m_scale_factor m = 0x3F800000" "m_offset m = 0" "m_byte_order m = BYTE_ORDER_ABCD"
    and "f64_lt (f64_of_f32 (valid_range_max (m_constraint m))) (f64_of_int 65535)"
    and "amm_find_mapping_by_point (Some (m_device_id m)) (Some (m_point_id m)) (w_amm env) = Some m"
  shows "fst (write_single env unit 6 address 0xFFFF s) = 4 \<and>
    k_access (snd (write_single env unit 6 address 0xFFFF s)) = k_access s \<and>
    write_registers_step env unit address [0xFFFF] 0 s =
      (let (t, err, _) = control_service_write_point env (Some (m_device_id m)) (Some (m_point_id m)) (f64_of_int (- 1))
             CONTROL_SOURCE_REST_API s
       in (if err \<noteq> ESP_OK then Inl 4 else Inr 1, t))"
proof -
  have v: "engineering_value (f64_of_int 65535) m = f64_of_int 65535" "engineering_value (f64_of_int (- 1)) m = f64_of_int (- 1)"
    using f64_int_finite [of 65535] f64_int_finite [of "- 1"] by (auto intro!: unscaled_value assms(4,5))
  have "\<not> write_permitted env (Some (m_device_id m)) (Some (m_point_id m)) (f64_of_int 65535) CONTROL_SOURCE_REST_API"
    using assms(7,8) by (simp add: write_permitted_def)
  note w = write_refused [OF this, of s]
  have c: "modbus_convert_to_number (Some [0xFFFF]) DT_INT16 BYTE_ORDER_ABCD b = f64_of_int (- 1)" for b
    by (simp add: swaps_bytes_def modbus_register_count_for_type_def)
  show ?thesis using assms(1-3,6) v w c
    by (auto simp: write_single_def write_registers_step_def split_beta Let_def modbus_register_count_for_type_def)
qed

section \<open>A gateway with one signed point\<close>

definition signed_entry :: amm_entry where
  "signed_entry = zero_mapping\<lparr>m_slave_id := 1, m_function_code := 3, m_register_address := 0, m_data_type := DT_INT16,
     m_object_type := MODBUS_OBJECT_HOLDING_REGISTER, m_active := True, m_device_id := ''meter'', m_point_id := ''t'',
     m_scale_factor := 0x3F800000, m_constraint := \<lparr>writable = True, valid_range_min = 0, valid_range_max = 0\<rparr>\<rparr>"

definition signed_env :: server_env where
  "signed_env = \<lparr>sv_write = coil_env\<lparr>w_amm := (w_amm coil_env)\<lparr>am_table := [signed_entry]\<rparr>\<rparr>,
     sv_pool = \<lparr>sp_mutex = True, sp_capacity = 2, sp_states = [(demo_context ''t'' 20)\<lparr>c_raw_value := f64_of_int (- 7)\<rparr>]\<rparr>\<rparr>"

lemma signed_found: "find_mapping 1 3 0 (w_amm (sv_write signed_env)) = Some (signed_entry, 0)"
  by (simp add: find_mapping_def amm_find_mapping_covering_def lookup_active_def find_active_def signed_env_def
      signed_entry_def zero_mapping_def coil_env_def covering_width_def amm_point_register_count_def)

lemma signed_words: "read_words signed_env 1 3 0 0 1 = Some [0xFFF9]"
  using signed_found
  by (simp add: read_word_def tcm_state_pool_get_def signed_env_def)
    (simp add: signed_entry_def zero_mapping_def demo_context_def modbus_encode_number_def)

definition looped_net :: tcp_net where
  "looped_net = \<lparr>net_resolves = True, net_socket = True, net_connects = True, net_sends = [12],
     net_recvs = (\<lambda>request. map Data (map (\<lambda>b. [b]) (concat (fst (client_task (\<lambda>_. signed_env)
       (map Data (map (\<lambda>b. [b]) request)) [260] coil_state zero_status)))))\<rparr>"

definition looped_config :: runtime_config where
  "looped_config = load_defaults\<lparr>rc_tcp_endpoint_count := 1, rc_tcp_endpoints := [zero_tcp_endpoint\<lparr>ep_enabled := True,
     ep_endpoint_id := 1\<rparr>]\<rparr>"

lemma master_reads_server_witness:
  "modbus_tcp_read looped_config looped_net 0 1 1 3 0 1 = (1, Inl [0xFFF9])"
proof -
  have "\<And>xs :: u8 list. concat (map (\<lambda>b. [b]) xs) = xs \<and> [] \<notin> set (map (\<lambda>b. [b]) xs)" by auto
  note m = master_reads_server [OF this this, of looped_net "\<lambda>_. signed_env" "[260]" coil_state zero_status looped_config 1
      _ 3 1 1 0 "[0xFFF9]" 0]
  show ?thesis using m signed_words
    by (simp add: looped_net_def looped_config_def tcp_endpoint_for_def read_limit_def)
qed

lemma zero_less_int: "0 < z \<Longrightarrow> z < 2 ^ 53 \<Longrightarrow> f64_lt 0 (f64_of_int z)"
  using f64_of_int_get [of z] by (auto simp: f64_lt_def signed_def)

lemma signed_single_write_refused_witness:
  "fst (write_single (sv_write signed_env) 1 6 0 0xFFFF coil_state) = 4"
proof -
  have "f64_lt (f64_of_f32 (valid_range_max (m_constraint signed_entry))) (f64_of_int 65535)"
    using zero_less_int [of 65535] by (simp add: signed_entry_def f64_of_f32_0)
  moreover have "amm_find_mapping_by_point (Some (m_device_id signed_entry)) (Some (m_point_id signed_entry))
      (w_amm (sv_write signed_env)) = Some signed_entry"
    by (simp add: amm_find_mapping_by_point_def lookup_active_def find_active_def signed_env_def signed_entry_def coil_env_def)
  ultimately show ?thesis
    using signed_single_write_refused [OF signed_found, of coil_state] by (simp add: signed_entry_def zero_mapping_def)
qed

end
