(* ===== verification/Record_Queue.thy ===== *)
theory Record_Queue
  imports Prelude
begin

text \<open>
  What a replayer relies on: a store of numbered records that hands out the one with the least
  number and forgets a record when told its number. The lemma of the locale is that handing
  out and forgetting in turn delivers every record, once, in the order of the numbers.
\<close>

text \<open>\<open>n\<close> turns: hand out the next record and forget it.\<close>

fun drain :: "('s \<Rightarrow> 's \<times> ('r + esp_err)) \<Rightarrow> (u32 \<Rightarrow> 's \<Rightarrow> 's) \<Rightarrow> ('r \<Rightarrow> u32) \<Rightarrow> nat \<Rightarrow> 's \<Rightarrow> 'r list \<times> 's" where
  "drain peek forget number 0 s = ([], s)"
| "drain peek forget number (Suc n) s =
     (case peek s of
        (t, Inr e) \<Rightarrow> ([], t)
      | (t, Inl r) \<Rightarrow> (let (rs, u) = drain peek forget number n (forget (number r) t) in (r # rs, u)))"

locale record_queue =
  fixes held :: "'s \<Rightarrow> u32 \<Rightarrow> 'r option"
    and peek :: "'s \<Rightarrow> 's \<times> ('r + esp_err)"
    and forget :: "u32 \<Rightarrow> 's \<Rightarrow> 's"
    and number :: "'r \<Rightarrow> u32"
    and inv :: "'s \<Rightarrow> bool"
  assumes inv_forget: "inv s \<Longrightarrow> inv (forget k s)"
    and held_forget: "inv s \<Longrightarrow> held (forget k s) = (held s)(k := None)"
    and peek_empty: "inv s \<Longrightarrow> dom (held s) = {} \<Longrightarrow> peek s = (s, Inr ESP_ERR_NOT_FOUND)"
    and peek_least: "inv s \<Longrightarrow> dom (held s) \<noteq> {} \<Longrightarrow>
      \<exists>r. peek s = (s, Inl r) \<and> held s (number r) = Some r \<and> (\<forall>k \<in> dom (held s). number r \<le> k)"
begin

lemma peek_min:
  assumes "inv s" "dom (held s) \<noteq> {}"
  shows "\<exists>r. peek s = (s, Inl r) \<and> held s (number r) = Some r \<and> number r = Min (dom (held s))"
proof -
  obtain r where r: "peek s = (s, Inl r)" "held s (number r) = Some r" "\<forall>k \<in> dom (held s). number r \<le> k"
    using peek_least [OF assms] by blast
  then have "Min (dom (held s)) = number r" by (intro Min_eqI) auto
  then show ?thesis using r by auto
qed

lemma drain_all:
  "inv s \<Longrightarrow> card (dom (held s)) = n \<Longrightarrow>
   map number (fst (drain peek forget number n s)) = sorted_list_of_set (dom (held s)) \<and>
   (\<forall>r \<in> set (fst (drain peek forget number n s)). held s (number r) = Some r) \<and>
   dom (held (snd (drain peek forget number n s))) = {} \<and> inv (snd (drain peek forget number n s))"
proof (induction n arbitrary: s)
  case 0
  then show ?case by simp
next
  case (Suc n)
  have ne: "dom (held s) \<noteq> {}" using Suc.prems(2) by auto
  obtain r where r: "peek s = (s, Inl r)" "held s (number r) = Some r" "number r = Min (dom (held s))"
    using peek_min [OF Suc.prems(1) ne] by blast
  let ?t = "forget (number r) s"
  have t: "inv ?t" "held ?t = (held s)(number r := None)"
    using Suc.prems(1) by (simp_all add: inv_forget held_forget)
  have d: "dom (held ?t) = dom (held s) - {number r}" using t(2) by auto
  have "number r \<in> dom (held s)" using r(2) by auto
  then have c: "card (dom (held ?t)) = n" using Suc.prems(2) d by simp
  note ih = Suc.IH [OF t(1) c]
  have "sorted_list_of_set (dom (held s)) = number r # sorted_list_of_set (dom (held s) - {number r})"
    using ne r(3) by (simp add: sorted_list_of_set_nonempty)
  moreover obtain rs u where run: "drain peek forget number n ?t = (rs, u)" by fastforce
  moreover have "map number rs = sorted_list_of_set (dom (held s) - {number r})" "dom (held u) = {}" "inv u"
    using ih run d by simp_all
  moreover have "\<forall>x \<in> set rs. held s (number x) = Some x" using ih run t(2) by (auto split: if_splits)
  ultimately show ?case using r(1,2) by simp
qed

end

end
