(* ===== verification/Offline_Store.thy ===== *)
theory Offline_Store
  imports Tcm_Types Record_Queue "HOL-Library.AList"
begin

text \<open>
  The durable record queue (\<open>storage/offline_store.c\<close>): one file per record in a directory of the
  SPI flash, and of the TF card when the flash is full. A directory is the list of its files, in
  the order \<open>readdir\<close> gives them; every call of the file system that can fail is an argument.
  The module keeps a count and the oldest sequence number of each directory beside it.
\<close>

section \<open>Names and contents of the files\<close>

definition record_name :: "u32 \<Rightarrow> string" where
  "record_name seq = hex True 8 (unat seq) @ ''.TCM''"

definition is_space :: "char \<Rightarrow> bool" where
  "is_space c \<longleftrightarrow> of_char c = (32 :: nat) \<or> (9 \<le> (of_char c :: nat) \<and> (of_char c :: nat) \<le> 13)"

text \<open>\<open>strtoul(stem, &end, 16)\<close> when \<open>end\<close> is the end of the string, \<open>None\<close> otherwise.\<close>

definition strtoul16 :: "string \<Rightarrow> u32 option" where
  "strtoul16 s =
     (let s = dropWhile is_space s;
          neg = (s \<noteq> [] \<and> hd s = CHR ''-'');
          s = (if s \<noteq> [] \<and> hd s \<in> {CHR ''-'', CHR ''+''} then tl s else s);
          s = (if length s > 2 \<and> hd s = CHR ''0'' \<and> s ! 1 \<in> {CHR ''x'', CHR ''X''} \<and> hex_val (s ! 2) \<noteq> None
               then drop 2 s else s)
      in if s = [] then None
         else map_option (\<lambda>n. if neg then - word_of_nat n else word_of_nat n) (hex_read 0 s))"

definition parse_sequence :: "string \<Rightarrow> u32 option" where
  "parse_sequence name =
     (if length name \<noteq> 12 \<or> name ! 8 \<noteq> CHR ''.'' \<or> name ! 9 \<notin> {CHR ''t'', CHR ''T''} \<or>
         name ! 10 \<notin> {CHR ''c'', CHR ''C''} \<or> name ! 11 \<notin> {CHR ''m'', CHR ''M''}
      then None else strtoul16 (take 8 name))"

abbreviation newline :: char where "newline \<equiv> CHR 0x0A"
abbreviation TCM_MAX_JSON_LEN :: nat where "TCM_MAX_JSON_LEN \<equiv> 1024"

definition record_text :: "u32 \<Rightarrow> string \<Rightarrow> string \<Rightarrow> string" where
  "record_text seq topic payload = dec (unat seq) @ newline # topic @ newline # payload"

text \<open>\<open>fgets(buf, n, file)\<close>: the line read and what is left of the file.\<close>

definition fgets :: "nat \<Rightarrow> string \<Rightarrow> (string \<times> string) option" where
  "fgets n s =
     (if s = [] then None
      else let line = take (n - 1) (takeWhile (\<lambda>c. c \<noteq> newline) s @ (if newline \<in> set s then [newline] else []))
           in Some (line, drop (length line) s))"

datatype offline_medium = OFFLINE_MEDIUM_FLASH | OFFLINE_MEDIUM_TF

record offline_record =
  or_sequence_id :: u32
  or_topic :: string
  or_payload :: string
  or_medium :: offline_medium

section \<open>One directory\<close>

type_synonym directory = "(string \<times> string) list"

record medium =
  md_dir :: directory
  md_count :: int
  md_oldest :: u32
  md_valid :: bool

text \<open>The loops over the directory; \<open>listable\<close>: it could be opened.\<close>

definition count_in :: "bool \<Rightarrow> directory \<Rightarrow> int" where
  "count_in listable d = (if listable then int (length (filter (\<lambda>f. parse_sequence (fst f) \<noteq> None) d)) else 0)"

definition older :: "u32 option \<Rightarrow> u32 option \<Rightarrow> u32 option" where
  "older found current =
     (case current of
        None \<Rightarrow> found
      | Some c \<Rightarrow> (case found of None \<Rightarrow> Some c | Some s \<Rightarrow> if c < s then Some c else Some s))"

definition find_oldest_in :: "bool \<Rightarrow> directory \<Rightarrow> u32 option" where
  "find_oldest_in listable d =
     (if listable then fold (\<lambda>f found. older found (parse_sequence (fst f))) d None else None)"

definition set_oldest :: "u32 option \<Rightarrow> medium \<Rightarrow> medium" where
  "set_oldest found m = m\<lparr>md_oldest := (case found of Some s \<Rightarrow> s | None \<Rightarrow> 0), md_valid := found \<noteq> None\<rparr>"

definition load_store_state :: "bool \<Rightarrow> medium \<Rightarrow> medium" where
  "load_store_state listable m =
     set_oldest (find_oldest_in listable (md_dir m)) (m\<lparr>md_count := count_in listable (md_dir m)\<rparr>)"

definition has_file :: "u32 \<Rightarrow> directory \<Rightarrow> bool" where
  "has_file seq d \<longleftrightarrow> map_of d (record_name seq) \<noteq> None"

definition advance_oldest :: "bool \<Rightarrow> u32 \<Rightarrow> medium \<Rightarrow> medium" where
  "advance_oldest listable removed m =
     (if md_count m \<le> 0 then set_oldest None m
      else if has_file (removed + 1) (md_dir m) then set_oldest (Some (removed + 1)) m
      else set_oldest (find_oldest_in listable (md_dir m)) m)"

text \<open>\<open>unlinks\<close>: whether the file system can delete the file of a sequence number.\<close>

definition unlink_record :: "u32 \<Rightarrow> directory \<Rightarrow> directory" where
  "unlink_record seq d = AList.delete (record_name seq) d"

definition remove_oldest :: "(u32 \<Rightarrow> bool) \<Rightarrow> bool \<Rightarrow> medium \<Rightarrow> medium \<times> bool" where
  "remove_oldest unlinks listable m =
     (if md_count m \<le> 0 \<or> \<not> md_valid m then (m, False)
      else let removed = md_oldest m in
        if \<not> (has_file removed (md_dir m) \<and> unlinks removed) then (load_store_state listable m, False)
        else (advance_oldest listable removed
                (m\<lparr>md_dir := unlink_record removed (md_dir m), md_count := md_count m - 1\<rparr>), True))"

text \<open>
  How a write ends: the file cannot be opened, it holds a part of the text and the failure is
  seen, or it is complete.
\<close>

datatype write_outcome = NotOpened | Partial string | Written

definition write_record :: "write_outcome \<Rightarrow> u32 \<Rightarrow> string \<Rightarrow> string \<Rightarrow> medium \<Rightarrow> medium \<times> esp_err" where
  "write_record out seq topic payload m =
     (case out of
        NotOpened \<Rightarrow> (m, ESP_FAIL)
      | Partial part \<Rightarrow> (m\<lparr>md_dir := AList.update (record_name seq) part (md_dir m)\<rparr>, ESP_FAIL)
      | Written \<Rightarrow> (m\<lparr>md_dir := AList.update (record_name seq) (record_text seq topic payload) (md_dir m)\<rparr>, ESP_OK))"

definition read_record :: "bool \<Rightarrow> u32 \<Rightarrow> offline_medium \<Rightarrow> directory \<Rightarrow> offline_record + esp_err" where
  "read_record opens seq which d =
     (case (if opens then map_of d (record_name seq) else None) of
        None \<Rightarrow> Inr ESP_ERR_NOT_FOUND
      | Some text \<Rightarrow>
          (case fgets 16 text of
             None \<Rightarrow> Inr ESP_FAIL
           | Some (_, rest) \<Rightarrow>
               (case fgets 128 rest of
                  None \<Rightarrow> Inr ESP_FAIL
                | Some (line, rest) \<Rightarrow>
                    Inl \<lparr>or_sequence_id = seq, or_topic = takeWhile (\<lambda>c. c \<noteq> CHR 0x0D \<and> c \<noteq> newline) line,
                      or_payload = take (TCM_MAX_JSON_LEN - 1) rest, or_medium = which\<rparr>)))"

section \<open>The store\<close>

record offline_store =
  os_mutex :: bool
  os_ready :: bool
  os_flash :: medium
  os_tf :: medium
  os_loss :: int

abbreviation UIF_CACHE_MAX_RECORDS :: int where "UIF_CACHE_MAX_RECORDS \<equiv> 512"
abbreviation FLASH_RESERVE_BYTES :: nat where "FLASH_RESERVE_BYTES \<equiv> 64 * 1024"

text \<open>The pruning loop of a start: each turn removes a record and counts it as lost.\<close>

lemma remove_oldest_count:
  "snd (remove_oldest unlinks listable m) \<Longrightarrow>
   0 < md_count m \<and> md_count (fst (remove_oldest unlinks listable m)) = md_count m - 1"
  by (auto simp: remove_oldest_def advance_oldest_def set_oldest_def Let_def split: if_splits)

function prune :: "(u32 \<Rightarrow> bool) \<Rightarrow> bool \<Rightarrow> medium \<Rightarrow> int \<Rightarrow> medium \<times> int" where
  "prune unlinks listable m loss =
     (if md_count m > UIF_CACHE_MAX_RECORDS \<and> snd (remove_oldest unlinks listable m)
      then prune unlinks listable (fst (remove_oldest unlinks listable m)) (loss + 1)
      else if md_count m > UIF_CACHE_MAX_RECORDS then (fst (remove_oldest unlinks listable m), loss)
      else (m, loss))"
  by pat_completeness auto
termination
  by (relation "measure (\<lambda>(unlinks, listable, m, loss). nat (md_count m))")
    (use remove_oldest_count in \<open>auto\<close>)

declare prune.simps [simp del]

text \<open>
  What a start finds: the results of the calls, the files of the mounted flash, the free bytes
  when they can be asked for, the results of each step of rebuilding the partition, and whether
  the card is mounted.
\<close>

record start_env =
  st_mutex :: bool
  st_mount :: esp_err
  st_mkdir :: bool
  st_files :: directory
  st_info :: "nat option"
  st_unmount :: esp_err
  st_format :: esp_err
  st_remount :: esp_err
  st_remkdir :: bool
  st_listable :: bool
  st_unlinks :: "u32 \<Rightarrow> bool"
  st_tf_mounted :: bool
  st_tf_files :: directory

definition recreate_flash_cache :: "start_env \<Rightarrow> medium \<Rightarrow> medium \<times> esp_err" where
  "recreate_flash_cache env m =
     (if st_unmount env \<noteq> ESP_OK then (m, st_unmount env)
      else if st_format env \<noteq> ESP_OK then (m, st_format env)
      else
        let m = m\<lparr>md_dir := []\<rparr> in
        if st_remount env \<noteq> ESP_OK then (m, st_remount env)
        else if \<not> st_remkdir env then (m, ESP_FAIL) else (m, ESP_OK))"

definition offline_store_init :: "start_env \<Rightarrow> offline_store \<Rightarrow> offline_store \<times> esp_err" where
  "offline_store_init env s =
     (let s = s\<lparr>os_mutex := os_mutex s \<or> st_mutex env\<rparr> in
      if \<not> os_mutex s then (s, ESP_ERR_NO_MEM)
      else if st_mount env \<noteq> ESP_OK then (s, st_mount env)
      else
        let s = s\<lparr>os_flash := (os_flash s)\<lparr>md_dir := st_files env\<rparr>\<rparr> in
        if \<not> st_mkdir env then (s, ESP_FAIL)
        else
          let s = s\<lparr>os_ready := True, os_flash := load_store_state (st_listable env) (os_flash s)\<rparr>;
              full = (case st_info env of None \<Rightarrow> False | Some free \<Rightarrow> free \<le> FLASH_RESERVE_BYTES);
              (flash, err) = (if md_count (os_flash s) = 0 \<and> full
                              then (let (m, err) = recreate_flash_cache env (os_flash s)
                                    in (if err = ESP_OK then load_store_state (st_listable env) m else m, err))
                              else (os_flash s, ESP_OK));
              s = s\<lparr>os_flash := flash\<rparr>
          in if err \<noteq> ESP_OK then (s, err)
             else
               let (flash, loss) = prune (st_unlinks env) (st_listable env) (os_flash s) (os_loss s);
                   s = s\<lparr>os_flash := flash, os_loss := loss\<rparr>;
                   tf = (os_tf s)\<lparr>md_dir := st_tf_files env\<rparr>
               in (if st_tf_mounted env then s\<lparr>os_tf := load_store_state (st_listable env) tf\<rparr> else s, ESP_OK))"

text \<open>
  What a call of the other operations finds: the free bytes, whether the card is mounted, how
  each of the writes ends that it may come to, which files can be deleted, and whether the
  directories can be listed and the files opened, at the first and the second try.
\<close>

record io_env =
  io_free :: "nat option"
  io_mounted :: bool
  io_flash_write :: write_outcome
  io_tf_write :: write_outcome
  io_retry_write :: write_outcome
  io_unlinks :: "u32 \<Rightarrow> bool"
  io_listable :: bool
  io_opens :: bool
  io_reopens :: bool

definition lower_oldest :: "u32 \<Rightarrow> medium \<Rightarrow> medium" where
  "lower_oldest seq m = (if \<not> md_valid m \<or> seq < md_oldest m then m\<lparr>md_oldest := seq, md_valid := True\<rparr> else m)"

definition count_up :: "medium \<Rightarrow> medium" where
  "count_up m = m\<lparr>md_count := md_count m + 1\<rparr>"

definition put_flash :: "io_env \<Rightarrow> u32 \<Rightarrow> string \<Rightarrow> string \<Rightarrow> medium \<Rightarrow> medium \<times> esp_err" where
  "put_flash env seq topic payload m =
     (case io_free env of
        None \<Rightarrow> (m, ESP_FAIL)
      | Some free \<Rightarrow>
          (if md_count m < UIF_CACHE_MAX_RECORDS \<and>
              free > FLASH_RESERVE_BYTES + length payload + length topic + 64
           then (let (m, err) = write_record (io_flash_write env) seq topic payload m
                 in (if err = ESP_OK then lower_oldest seq (count_up m) else m, err))
           else (m, ESP_FAIL)))"

definition put_tf :: "io_env \<Rightarrow> u32 \<Rightarrow> string \<Rightarrow> string \<Rightarrow> medium \<Rightarrow> int \<Rightarrow> medium \<times> int \<times> esp_err" where
  "put_tf env seq topic payload m loss =
     (let evict = (\<lambda>m loss. let (m, removed) = remove_oldest (io_unlinks env) (io_listable env) m
                           in (m, if removed then loss + 1 else loss, removed));
          (m, loss, _) = (if md_count m \<ge> UIF_CACHE_MAX_RECORDS then evict m loss else (m, loss, False));
          (m, err) = write_record (io_tf_write env) seq topic payload m;
          (m, loss, err) = (if err \<noteq> ESP_OK
                            then (let (m, loss, removed) = evict m loss
                                  in if removed then (let (m, err) = write_record (io_retry_write env) seq topic payload m
                                                      in (m, loss, err))
                                     else (m, loss, err))
                            else (m, loss, err))
      in (if err = ESP_OK then lower_oldest seq (count_up m) else m, loss, err))"

definition put_replacing :: "io_env \<Rightarrow> u32 \<Rightarrow> string \<Rightarrow> string \<Rightarrow> medium \<Rightarrow> int \<Rightarrow> medium \<times> int \<times> esp_err" where
  "put_replacing env seq topic payload m loss =
     (let (m, removed) = remove_oldest (io_unlinks env) (io_listable env) m in
      if \<not> removed then (m, loss, ESP_FAIL)
      else
        let (m, err) = write_record (io_retry_write env) seq topic payload m;
            m = (if err = ESP_OK
                 then (let m = count_up m in if \<not> md_valid m then m\<lparr>md_oldest := seq, md_valid := True\<rparr> else m)
                 else m)
        in (m, loss + 1, err))"

definition offline_store_put ::
  "io_env \<Rightarrow> u32 \<Rightarrow> string option \<Rightarrow> string option \<Rightarrow> offline_store \<Rightarrow> offline_store \<times> esp_err" where
  "offline_store_put env seq topic payload s =
     (case (topic, payload) of
        (Some topic, Some payload) \<Rightarrow>
          (if \<not> os_ready s then (s, ESP_ERR_INVALID_STATE)
           else
             let (flash, err) = put_flash env seq topic payload (os_flash s);
                 s = s\<lparr>os_flash := flash\<rparr>;
                 (s, err) = (if err = ESP_OK then (s, err)
                             else if io_mounted env
                             then (let (tf, loss, err) = put_tf env seq topic payload (os_tf s) (os_loss s)
                                   in (s\<lparr>os_tf := tf, os_loss := loss\<rparr>, err))
                             else (let (flash, loss, err) = put_replacing env seq topic payload (os_flash s) (os_loss s)
                                   in (s\<lparr>os_flash := flash, os_loss := loss\<rparr>, err)))
             in (if err \<noteq> ESP_OK then s\<lparr>os_loss := os_loss s + 1\<rparr> else s, err))
      | _ \<Rightarrow> (s, ESP_ERR_INVALID_STATE))"

text \<open>The record that is next: flash before the card on equal numbers.\<close>

definition read_next :: "io_env \<Rightarrow> bool \<Rightarrow> offline_store \<Rightarrow> (offline_record + esp_err)" where
  "read_next env opens s =
     (let flash = md_valid (os_flash s); tf = io_mounted env \<and> md_valid (os_tf s) in
      if flash \<and> (\<not> tf \<or> md_oldest (os_flash s) \<le> md_oldest (os_tf s))
      then read_record opens (md_oldest (os_flash s)) OFFLINE_MEDIUM_FLASH (md_dir (os_flash s))
      else if tf then read_record opens (md_oldest (os_tf s)) OFFLINE_MEDIUM_TF (md_dir (os_tf s))
      else Inr ESP_ERR_NOT_FOUND)"

definition offline_store_peek_oldest :: "io_env \<Rightarrow> offline_store \<Rightarrow> offline_store \<times> (offline_record + esp_err)" where
  "offline_store_peek_oldest env s =
     (let r = read_next env (io_opens env) s in
      case r of
        Inl _ \<Rightarrow> (s, r)
      | Inr _ \<Rightarrow>
          (if md_valid (os_flash s) \<or> (io_mounted env \<and> md_valid (os_tf s))
           then
             let s = s\<lparr>os_flash := load_store_state (io_listable env) (os_flash s)\<rparr>;
                 s = (if io_mounted env then s\<lparr>os_tf := load_store_state (io_listable env) (os_tf s)\<rparr> else s);
                 none = \<not> md_valid (os_flash s) \<and> \<not> (io_mounted env \<and> md_valid (os_tf s))
             in (s, if none then r else read_next env (io_reopens env) s)
           else (s, r)))"

definition remove_from :: "io_env \<Rightarrow> u32 \<Rightarrow> medium \<Rightarrow> medium \<times> bool" where
  "remove_from env seq m =
     (if has_file seq (md_dir m) \<and> io_unlinks env seq then
        let m = m\<lparr>md_dir := unlink_record seq (md_dir m)\<rparr>;
            m = (if md_count m > 0
                 then (let m = m\<lparr>md_count := md_count m - 1\<rparr>
                       in if md_valid m \<and> md_oldest m = seq then advance_oldest (io_listable env) seq m else m)
                 else m)
        in (m, True)
      else (m, False))"

text \<open>A card that is not mounted has no files to unlink.\<close>

definition offline_store_remove :: "io_env \<Rightarrow> u32 \<Rightarrow> offline_store \<Rightarrow> offline_store \<times> esp_err" where
  "offline_store_remove env seq s =
     (let (flash, flash_removed) = remove_from env seq (os_flash s);
          (tf, tf_removed) = (if io_mounted env then remove_from env seq (os_tf s) else (os_tf s, False))
      in (s\<lparr>os_flash := flash, os_tf := tf\<rparr>,
          if flash_removed \<or> tf_removed then ESP_OK else ESP_ERR_NOT_FOUND))"

definition offline_store_count :: "bool \<Rightarrow> offline_store \<Rightarrow> int" where
  "offline_store_count mounted s = md_count (os_flash s) + (if mounted then md_count (os_tf s) else 0)"

text \<open>\<open>info\<close>: the total and the free bytes.\<close>

definition offline_store_usage_percent :: "(nat \<times> nat) option \<Rightarrow> offline_store \<Rightarrow> nat" where
  "offline_store_usage_percent info s =
     (if \<not> os_ready s then 0
      else case info of None \<Rightarrow> 0 | Some (bytes, free) \<Rightarrow> if bytes = 0 then 0 else (bytes - free) * 100 div bytes)"

definition offline_store_data_loss_count :: "offline_store \<Rightarrow> int" where
  "offline_store_data_loss_count s = os_loss s"

definition offline_store_flash_ready :: "offline_store \<Rightarrow> bool" where
  "offline_store_flash_ready s = os_ready s"

record offline_stats =
  ot_flash_records :: int
  ot_tf_records :: int
  ot_flash_oldest :: u32
  ot_tf_oldest :: u32
  ot_flash_valid :: bool
  ot_tf_valid :: bool
  ot_flash_ready :: bool
  ot_tf_mounted :: bool

definition offline_store_get_stats :: "bool \<Rightarrow> offline_store \<Rightarrow> offline_stats" where
  "offline_store_get_stats mounted s =
     (if os_mutex s then
        \<lparr>ot_flash_records = md_count (os_flash s), ot_tf_records = (if mounted then md_count (os_tf s) else 0),
         ot_flash_oldest = md_oldest (os_flash s), ot_tf_oldest = md_oldest (os_tf s),
         ot_flash_valid = md_valid (os_flash s), ot_tf_valid = mounted \<and> md_valid (os_tf s),
         ot_flash_ready = os_ready s, ot_tf_mounted = mounted\<rparr>
      else
        \<lparr>ot_flash_records = 0, ot_tf_records = 0, ot_flash_oldest = 0, ot_tf_oldest = 0, ot_flash_valid = False,
         ot_tf_valid = False, ot_flash_ready = False, ot_tf_mounted = False\<rparr>)"

section \<open>Lemmas: files\<close>

lemma length_record_name [simp]: "length (record_name seq) = 12"
  by (simp add: record_name_def)

lemma hex_chars: "c \<in> set (hex True k n) \<Longrightarrow> hex_val c \<noteq> None"
  by (induction k arbitrary: n) auto

lemma hex_val_plain: "hex_val c \<noteq> None \<Longrightarrow> \<not> is_space c \<and> c \<noteq> CHR ''-'' \<and> c \<noteq> CHR ''+'' \<and> c \<noteq> CHR ''x'' \<and> c \<noteq> CHR ''X''"
  by (auto simp: hex_val_def is_space_def Let_def split: if_splits)

lemma strtoul16_hex: "strtoul16 (hex True 8 (unat seq)) = Some seq"
proof -
  let ?h = "hex True 8 (unat seq)"
  have v: "hex_val c \<noteq> None" if "c \<in> set ?h" for c using hex_chars that by blast
  have ne: "?h \<noteq> []" by (metis length_hex list.size(3) zero_neq_numeral)
  have h: "hd ?h \<in> set ?h" "?h ! 1 \<in> set ?h" using ne by (simp_all add: nth_mem)
  have "dropWhile is_space ?h = ?h" using h(1) v hex_val_plain ne by (metis dropWhile_eq_self_iff)
  moreover have "hd ?h \<noteq> CHR ''-''" "hd ?h \<noteq> CHR ''+''" "?h ! 1 \<noteq> CHR ''x''" "?h ! 1 \<noteq> CHR ''X''"
    using h v hex_val_plain by metis+
  moreover have "hex_read 0 ?h = Some (unat seq)"
    using unsigned_less [of seq, where 'a = nat] hex_read_hex [of "unat seq" 8 0 True] by simp
  ultimately show ?thesis using ne by (simp add: strtoul16_def Let_def)
qed

lemma parse_record_name [simp]: "parse_sequence (record_name seq) = Some seq"
proof -
  have "record_name seq = hex True 8 (unat seq) @ ''.TCM''" by (simp add: record_name_def)
  moreover have "take 8 (record_name seq) = hex True 8 (unat seq)" by (simp add: record_name_def)
  ultimately show ?thesis using strtoul16_hex [of seq]
    by (simp add: parse_sequence_def nth_append)
qed

lemma record_name_inj [simp]: "record_name a = record_name b \<longleftrightarrow> a = b"
  by (metis option.inject parse_record_name)

section \<open>Lemmas: one directory\<close>

text \<open>A found number is the least of a set, and none is found in the empty set.\<close>

definition oldest_of :: "u32 option \<Rightarrow> u32 set \<Rightarrow> bool" where
  "oldest_of found S \<longleftrightarrow> (case found of None \<Rightarrow> S = {} | Some s \<Rightarrow> s \<in> S \<and> (\<forall>t \<in> S. s \<le> t))"

definition seqs :: "directory \<Rightarrow> u32 set" where
  "seqs d = {seq. has_file seq d}"

text \<open>Every file is a record that can be read back.\<close>

definition readable :: "string \<Rightarrow> bool" where
  "readable text \<longleftrightarrow> (\<exists>l rest. fgets 16 text = Some (l, rest) \<and> fgets 128 rest \<noteq> None)"

definition dir_ok :: "directory \<Rightarrow> bool" where
  "dir_ok d \<longleftrightarrow> distinct (map fst d) \<and> (\<forall>f \<in> set d. \<exists>seq. fst f = record_name seq) \<and> (\<forall>f \<in> set d. readable (snd f))"

definition medium_ok :: "medium \<Rightarrow> bool" where
  "medium_ok m \<longleftrightarrow> dir_ok (md_dir m) \<and> md_count m = int (length (md_dir m)) \<and>
     oldest_of (if md_valid m then Some (md_oldest m) else None) (seqs (md_dir m))"

lemma has_file_iff: "has_file seq d \<longleftrightarrow> record_name seq \<in> fst ` set d"
  by (simp add: has_file_def map_of_eq_None_iff)

lemma seqs_empty: "dir_ok d \<Longrightarrow> seqs d = {} \<longleftrightarrow> d = []"
  by (cases d) (auto simp: seqs_def has_file_iff dir_ok_def)

lemma older_oldest: "oldest_of a S \<Longrightarrow> oldest_of (older a p) (S \<union> set_option p)"
  by (auto simp: oldest_of_def older_def split: option.splits)

lemma find_oldest:
  assumes "dir_ok d"
  shows "oldest_of (find_oldest_in True d) (seqs d)"
proof -
  have "oldest_of (fold (\<lambda>f found. older found (parse_sequence (fst f))) es a)
      (S \<union> (\<Union>f \<in> set es. set_option (parse_sequence (fst f))))" if "oldest_of a S" for a S es
    using that
  proof (induction es arbitrary: a S)
    case (Cons e es)
    from Cons.IH [OF older_oldest [OF Cons.prems, of "parse_sequence (fst e)"]]
    show ?case by (simp add: Un_assoc)
  qed simp
  moreover have "oldest_of None {}" by (simp add: oldest_of_def)
  moreover have "(\<Union>f \<in> set d. set_option (parse_sequence (fst f))) = seqs d"
  proof -
    have "parse_sequence (fst f) = Some seq \<longleftrightarrow> fst f = record_name seq" if "f \<in> set d" for f seq
      using assms that by (auto simp: dir_ok_def)
    then have "seq \<in> (\<Union>f \<in> set d. set_option (parse_sequence (fst f))) \<longleftrightarrow> seq \<in> seqs d" for seq
      by (simp add: seqs_def has_file_iff image_iff elem_set) metis
    then show ?thesis by blast
  qed
  ultimately show ?thesis unfolding find_oldest_in_def by (metis Un_empty_left)
qed

lemma all_counted:
  "dir_ok d \<Longrightarrow> count_in True d = int (length d)"
  by (auto simp: count_in_def dir_ok_def intro!: arg_cong [where f = length] filter_True)

lemma set_oldest_ok:
  "dir_ok (md_dir m) \<Longrightarrow> md_count m = int (length (md_dir m)) \<Longrightarrow> oldest_of found (seqs (md_dir m)) \<Longrightarrow>
   medium_ok (set_oldest found m)"
  by (cases found) (simp_all add: medium_ok_def set_oldest_def)

lemma load_ok: "dir_ok (md_dir m) \<Longrightarrow> medium_ok (load_store_state True m)"
  unfolding load_store_state_def by (intro set_oldest_ok) (simp_all add: all_counted find_oldest)

lemma load_dir [simp]: "md_dir (load_store_state l m) = md_dir m"
  by (simp add: load_store_state_def set_oldest_def)

lemma unlink_ok:
  assumes "dir_ok d"
  shows "dir_ok (unlink_record seq d)" "seqs (unlink_record seq d) = seqs d - {seq}"
    "map_of (unlink_record seq d) (record_name k) = (if k = seq then None else map_of d (record_name k))"
proof -
  show "map_of (unlink_record seq d) (record_name k) = (if k = seq then None else map_of d (record_name k))" for k
    by (simp add: unlink_record_def delete_conv')
  then show "seqs (unlink_record seq d) = seqs d - {seq}" by (auto simp: seqs_def has_file_def)
  have "set (unlink_record seq d) \<subseteq> set d" by (auto simp: unlink_record_def AList.delete_eq)
  then show "dir_ok (unlink_record seq d)" using assms AList.distinct_delete [of d]
    by (auto simp: dir_ok_def unlink_record_def)
qed

lemma unlink_length:
  assumes "dir_ok d" "has_file seq d"
  shows "length (unlink_record seq d) + 1 = length d"
proof -
  have "map fst (unlink_record seq d) = remove1 (record_name seq) (map fst d)"
    using assms(1) by (simp add: unlink_record_def AList.delete_keys dir_ok_def distinct_remove1_removeAll)
  then have "length (unlink_record seq d) = length d - 1"
    using assms(2) by (metis has_file_iff length_map length_remove1 list.set_map)
  moreover have "d \<noteq> []" using assms(2) by (auto simp: has_file_def)
  ultimately show ?thesis by (cases d) simp_all
qed

lemma advance_ok:
  assumes "dir_ok (md_dir m)" "md_count m = int (length (md_dir m))" "\<forall>t \<in> seqs (md_dir m). removed < t"
  shows "medium_ok (advance_oldest True removed m)"
proof -
  have succ: "removed + 1 \<le> t" if "removed < t" for t :: u32
    using that by (simp add: inc_le)
  have "oldest_of None (seqs (md_dir m))" if "md_count m \<le> 0"
    using that assms(1,2) seqs_empty by (simp add: oldest_of_def)
  moreover have "oldest_of (Some (removed + 1)) (seqs (md_dir m))" if "has_file (removed + 1) (md_dir m)"
    using that assms(3) succ by (auto simp: oldest_of_def seqs_def)
  ultimately show ?thesis using assms(1,2) find_oldest [OF assms(1)]
    by (auto simp: advance_oldest_def intro!: set_oldest_ok)
qed

lemma advance_dir [simp]: "md_dir (advance_oldest l r m) = md_dir m"
  by (simp add: advance_oldest_def set_oldest_def)

text \<open>Removing the oldest record, when files can be deleted.\<close>

lemma remove_oldest_ok:
  assumes "medium_ok m"
  shows "if md_dir m = [] then remove_oldest (\<lambda>_. True) True m = (m, False)
    else \<exists>m'. remove_oldest (\<lambda>_. True) True m = (m', True) \<and> medium_ok m' \<and>
      has_file (md_oldest m) (md_dir m) \<and> md_dir m' = unlink_record (md_oldest m) (md_dir m)"
proof (cases "md_dir m = []")
  case True
  then show ?thesis using assms by (simp add: remove_oldest_def medium_ok_def)
next
  case False
  define o' where "o' = md_oldest m"
  have d: "dir_ok (md_dir m)" "md_count m = int (length (md_dir m))" using assms by (simp_all add: medium_ok_def)
  have v: "md_valid m" "o' \<in> seqs (md_dir m)" "\<forall>t \<in> seqs (md_dir m). o' \<le> t"
    using assms False seqs_empty [OF d(1)] by (auto simp: medium_ok_def oldest_of_def o'_def split: if_splits)
  have f: "has_file o' (md_dir m)" using v(2) by (simp add: seqs_def)
  let ?m = "m\<lparr>md_dir := unlink_record o' (md_dir m), md_count := md_count m - 1\<rparr>"
  have "\<forall>t \<in> seqs (unlink_record o' (md_dir m)). o' < t"
    using v(3) unlink_ok(2) [OF d(1), of o'] by (auto simp: order_less_le)
  then have "medium_ok (advance_oldest True o' ?m)"
    using unlink_ok(1) [OF d(1)] unlink_length [OF d(1) f] d(2) by (intro advance_ok) simp_all
  then show ?thesis using False v(1) f d(2) by (simp add: remove_oldest_def Let_def flip: o'_def)
qed

section \<open>Lemmas: what a file holds\<close>

lemma dec_digits: "set (dec n) \<subseteq> {c. 48 \<le> (of_char c :: nat) \<and> (of_char c :: nat) \<le> 57}"
proof (induction n rule: dec.induct)
  case (1 n)
  have "of_char (digit_char d) = 48 + d" if "d < 10" for d
    using that by (simp add: digit_char_def)
  then show ?case using 1 by (subst dec.simps) auto
qed

lemma dec_no_newline [simp]: "newline \<notin> set (dec n)"
  using dec_digits [of n] by auto

lemma length_dec: "n < 10 ^ k \<Longrightarrow> 0 < k \<Longrightarrow> length (dec n) \<le> k"
proof (induction n arbitrary: k rule: dec.induct)
  case (1 n)
  show ?case
  proof (cases "n < 10")
    case True
    then show ?thesis using 1(3) by (subst dec.simps) simp
  next
    case False
    then have "1 < k" using 1(2,3) by (cases "k = 1") auto
    moreover have "n div 10 < 10 ^ (k - 1)"
      using 1(2,3) power_minus_mult [of k "10 :: nat"] by (intro less_mult_imp_div_less) simp
    ultimately show ?thesis using 1(1) [OF False, of "k - 1"] False by (subst dec.simps) simp
  qed
qed

lemma fgets_line:
  "newline \<notin> set line \<Longrightarrow> length line + 1 < n \<Longrightarrow> fgets n (line @ newline # rest) = Some (line @ [newline], rest)"
proof -
  assume l: "newline \<notin> set line" "length line + 1 < n"
  have "takeWhile (\<lambda>c. c \<noteq> newline) (line @ newline # rest) = line"
    using l(1) by (induction line) auto
  then show ?thesis using l(2) by (simp add: fgets_def)
qed

lemma fgets_record:
  "fgets 16 (record_text seq topic payload) = Some (dec (unat seq) @ [newline], topic @ newline # payload)"
proof -
  have "unat seq < 10 ^ 10" using unsigned_less [of seq, where 'a = nat] by simp
  then have "length (dec (unat seq)) \<le> 10" by (rule length_dec) simp
  then show ?thesis unfolding record_text_def by (intro fgets_line) simp_all
qed

lemma readable_record: "readable (record_text seq topic payload)"
  unfolding readable_def by (intro exI conjI, rule fgets_record) (simp add: fgets_def)

text \<open>A record whose topic and payload fit the buffers.\<close>

definition record_fits :: "string \<Rightarrow> string \<Rightarrow> bool" where
  "record_fits topic payload \<longleftrightarrow> length topic < 127 \<and> length payload < TCM_MAX_JSON_LEN \<and>
     CHR 0x0D \<notin> set topic \<and> newline \<notin> set topic"

lemma read_written:
  assumes "map_of d (record_name seq) = Some (record_text seq topic payload)" "record_fits topic payload"
  shows "read_record True seq which d =
    Inl \<lparr>or_sequence_id = seq, or_topic = topic, or_payload = payload, or_medium = which\<rparr>"
proof -
  have t: "\<forall>c \<in> set topic. c \<noteq> CHR 0x0D \<and> c \<noteq> newline" using assms(2) by (auto simp: record_fits_def)
  have "fgets 128 (topic @ newline # payload) = Some (topic @ [newline], payload)"
    using assms(2) by (intro fgets_line) (simp_all add: record_fits_def)
  moreover have "takeWhile (\<lambda>c. c \<noteq> CHR 0x0D \<and> c \<noteq> newline) (topic @ [newline]) = topic"
    using t by (simp add: takeWhile_append)
  ultimately show ?thesis using assms by (simp add: read_record_def fgets_record record_fits_def)
qed

lemma read_present:
  assumes "dir_ok d"
  shows "(\<exists>r. read_record True seq which d = Inl r \<and> or_sequence_id r = seq \<and> or_medium r = which) \<longleftrightarrow> has_file seq d"
    "\<not> has_file seq d \<Longrightarrow> read_record True seq which d = Inr ESP_ERR_NOT_FOUND"
proof -
  have "\<exists>r. read_record True seq which d = Inl r \<and> or_sequence_id r = seq \<and> or_medium r = which" if f: "has_file seq d"
  proof -
    obtain body where t: "map_of d (record_name seq) = Some body" using f unfolding has_file_def by blast
    then have "readable body" using assms map_of_SomeD [OF t] by (auto simp: dir_ok_def)
    then show ?thesis using t by (auto simp: read_record_def readable_def)
  qed
  moreover show "\<not> has_file seq d \<Longrightarrow> read_record True seq which d = Inr ESP_ERR_NOT_FOUND"
    by (simp add: read_record_def has_file_def)
  ultimately show "(\<exists>r. read_record True seq which d = Inl r \<and> or_sequence_id r = seq \<and> or_medium r = which) \<longleftrightarrow> has_file seq d"
    by (cases "has_file seq d") auto
qed

section \<open>Lemmas: puts and removals\<close>

text \<open>\<open>e\<close> is \<open>m\<close> less \<open>n\<close> records; \<open>e\<close> is \<open>m\<close> with a new record.\<close>

definition shrunk :: "medium \<Rightarrow> medium \<Rightarrow> int \<Rightarrow> bool" where
  "shrunk m e n \<longleftrightarrow> medium_ok e \<and> int (length (md_dir e)) + n = int (length (md_dir m)) \<and>
     map_of (md_dir e) \<subseteq>\<^sub>m map_of (md_dir m)"

definition grown :: "u32 \<Rightarrow> string \<Rightarrow> medium \<Rightarrow> medium \<Rightarrow> bool" where
  "grown seq body m e \<longleftrightarrow> medium_ok e \<and> length (md_dir e) = length (md_dir m) + 1 \<and>
     map_of (md_dir e) = (map_of (md_dir m))(record_name seq \<mapsto> body)"

definition newer :: "u32 \<Rightarrow> medium \<Rightarrow> bool" where
  "newer seq m \<longleftrightarrow> (\<forall>t \<in> seqs (md_dir m). t < seq)"

lemma shrunk_refl: "medium_ok m \<Longrightarrow> shrunk m m 0"
  by (simp add: shrunk_def)

lemma shrunk_trans: "shrunk m e a \<Longrightarrow> shrunk e f b \<Longrightarrow> shrunk m f (a + b)"
  by (auto simp: shrunk_def intro: map_le_trans)

lemma shrunk_newer: "shrunk m e n \<Longrightarrow> newer seq m \<Longrightarrow> newer seq e"
  by (auto simp: shrunk_def newer_def seqs_def has_file_def map_le_def dom_def)

lemma evict_shrunk:
  assumes "medium_ok m"
  shows "\<exists>e removed. remove_oldest (\<lambda>_. True) True m = (e, removed) \<and> shrunk m e (if removed then 1 else 0)"
proof (cases "md_dir m = []")
  case True
  then show ?thesis using remove_oldest_ok [OF assms] assms
    by (intro exI [of _ m] exI [of _ False]) (simp add: shrunk_refl)
next
  case False
  then obtain e where e: "remove_oldest (\<lambda>_. True) True m = (e, True)" "medium_ok e"
      "has_file (md_oldest m) (md_dir m)" "md_dir e = unlink_record (md_oldest m) (md_dir m)"
    using remove_oldest_ok [OF assms] by auto
  have d: "dir_ok (md_dir m)" using assms by (simp add: medium_ok_def)
  have "map_of (md_dir e) \<subseteq>\<^sub>m map_of (md_dir m)"
    by (auto simp: e(4) map_le_def unlink_record_def AList.delete_conv' split: if_splits)
  then have "shrunk m e 1" using e unlink_length [OF d e(3)] by (simp add: shrunk_def)
  then show ?thesis using e(1) by (intro exI [of _ e] exI [of _ True]) simp
qed

lemma write_grows:
  fixes topic payload :: string
  assumes "medium_ok m" "newer seq m"
  defines "w \<equiv> m\<lparr>md_dir := AList.update (record_name seq) (record_text seq topic payload) (md_dir m)\<rparr>"
  shows "grown seq (record_text seq topic payload) m (lower_oldest seq (count_up w))"
    "grown seq (record_text seq topic payload) m
       (let e = count_up w in if \<not> md_valid e then e\<lparr>md_oldest := seq, md_valid := True\<rparr> else e)"
proof -
  have d: "dir_ok (md_dir m)" "md_count m = int (length (md_dir m))"
    "oldest_of (if md_valid m then Some (md_oldest m) else None) (seqs (md_dir m))"
    using assms(1) by (simp_all add: medium_ok_def)
  have fresh: "record_name seq \<notin> fst ` set (md_dir m)"
    using assms(2) by (auto simp: newer_def seqs_def has_file_iff)
  have map: "map_of (md_dir w) = (map_of (md_dir m))(record_name seq \<mapsto> record_text seq topic payload)"
    by (simp add: w_def AList.update_conv')
  have "map fst (md_dir w) = map fst (md_dir m) @ [record_name seq]"
    using fresh by (simp add: w_def AList.update_keys)
  then have len: "length (md_dir w) = length (md_dir m) + 1" and dist: "distinct (map fst (md_dir w))"
    using fresh d(1) by (metis length_append_singleton length_map Suc_eq_plus1, simp add: dir_ok_def)
  have "set (md_dir w) \<subseteq> insert (record_name seq, record_text seq topic payload) (set (md_dir m))"
    using map dist by (auto dest!: map_of_is_SomeI simp: map_of_SomeD split: if_splits)
  then have ok: "dir_ok (md_dir w)" using d(1) dist readable_record by (auto simp: dir_ok_def)
  have s: "seqs (md_dir w) = insert seq (seqs (md_dir m))" using map by (auto simp: seqs_def has_file_def)
  have c: "md_count w = md_count m" "md_valid w = md_valid m" "md_oldest w = md_oldest m" by (simp_all add: w_def)
  have old: "md_valid m \<Longrightarrow> md_oldest m < seq" using assms(2) d(3) by (auto simp: newer_def oldest_of_def)
  show "grown seq (record_text seq topic payload) m (lower_oldest seq (count_up w))"
    "grown seq (record_text seq topic payload) m
       (let e = count_up w in if \<not> md_valid e then e\<lparr>md_oldest := seq, md_valid := True\<rparr> else e)"
    using ok s c len map d old assms(2)
    by (auto simp: grown_def medium_ok_def lower_oldest_def count_up_def oldest_of_def newer_def Let_def)
qed

text \<open>Calls that find the file system in order; a write that fails leaves no part of a file.\<close>

definition io_good :: "io_env \<Rightarrow> bool" where
  "io_good env \<longleftrightarrow> io_unlinks env = (\<lambda>_. True) \<and> io_listable env \<and> io_opens env \<and> io_reopens env \<and>
     {io_flash_write env, io_tf_write env, io_retry_write env} \<subseteq> {NotOpened, Written}"

text \<open>What a put does to a medium that it writes to: it drops \<open>n\<close> records, counted, then adds one or fails.\<close>

definition put_effect :: "u32 \<Rightarrow> string \<Rightarrow> medium \<Rightarrow> int \<Rightarrow> medium \<Rightarrow> int \<Rightarrow> esp_err \<Rightarrow> bool" where
  "put_effect seq body m loss m' loss' err \<longleftrightarrow>
     (\<exists>e n. shrunk m e n \<and> loss' = loss + n \<and> (if err = ESP_OK then grown seq body e m' else m' = e))"

lemma put_flash_effect:
  assumes "medium_ok m" "newer seq m" "io_good env" "put_flash env seq topic payload m = (m', err)"
  shows "put_effect seq (record_text seq topic payload) m loss m' loss err"
proof -
  have "io_flash_write env = NotOpened \<or> io_flash_write env = Written" using assms(3) by (auto simp: io_good_def)
  then show ?thesis using assms(4) write_grows(1) [OF assms(1,2), of topic payload] shrunk_refl [OF assms(1)]
    by (auto simp: put_flash_def put_effect_def write_record_def Let_def split: option.splits if_splits
        intro!: exI [of _ m] exI [of _ 0])
qed

lemma put_tf_effect:
  assumes "medium_ok m" "newer seq m" "io_good env" "put_tf env seq topic payload m loss = (m', loss', err)"
  shows "put_effect seq (record_text seq topic payload) m loss m' loss' err"
proof -
  have w: "io_tf_write env = NotOpened \<or> io_tf_write env = Written"
    "io_retry_write env = NotOpened \<or> io_retry_write env = Written" and g: "io_unlinks env = (\<lambda>_. True)" "io_listable env"
    using assms(3) by (auto simp: io_good_def)
  obtain e1 r1 where 1: "remove_oldest (\<lambda>_. True) True m = (e1, r1)" "shrunk m e1 (if r1 then 1 else 0)"
    using evict_shrunk [OF assms(1)] by blast
  define c where "c = (UIF_CACHE_MAX_RECORDS \<le> md_count m)"
  define m1 where "m1 = (if c then e1 else m)"
  define n1 :: int where "n1 = (if c \<and> r1 then 1 else 0)"
  have m1: "shrunk m m1 n1" using 1(2) shrunk_refl [OF assms(1)] by (auto simp: m1_def n1_def)
  then have ok1: "medium_ok m1" "newer seq m1" using shrunk_newer [OF m1 assms(2)] by (simp_all add: shrunk_def)
  obtain e2 r2 where 2: "remove_oldest (\<lambda>_. True) True m1 = (e2, r2)" "shrunk m1 e2 (if r2 then 1 else 0)"
    using evict_shrunk [OF ok1(1)] by blast
  then have ok2: "medium_ok e2" "newer seq e2" using shrunk_newer [OF 2(2) ok1(2)] by (simp_all add: shrunk_def)
  have m2: "shrunk m e2 (n1 + (if r2 then 1 else 0))" using shrunk_trans [OF m1 2(2)] .
  note grow1 = write_grows(1) [OF ok1, of topic payload] and grow2 = write_grows(1) [OF ok2, of topic payload]
  have run: "put_tf env seq topic payload m loss =
      (if io_tf_write env = Written
       then (lower_oldest seq (count_up (m1\<lparr>md_dir := AList.update (record_name seq) (record_text seq topic payload) (md_dir m1)\<rparr>)),
             loss + n1, ESP_OK)
       else if \<not> r2 then (e2, loss + n1, ESP_FAIL)
       else if io_retry_write env = Written
       then (lower_oldest seq (count_up (e2\<lparr>md_dir := AList.update (record_name seq) (record_text seq topic payload) (md_dir e2)\<rparr>)),
             loss + n1 + 1, ESP_OK)
       else (e2, loss + n1 + 1, ESP_FAIL))"
    using w 1(1) 2(1) by (auto simp: put_tf_def g write_record_def Let_def m1_def n1_def c_def)
  show ?thesis
  proof (cases "io_tf_write env = Written")
    case True
    then show ?thesis using run assms(4) m1 grow1
      by (auto simp: put_effect_def intro!: exI [of _ m1] exI [of _ n1])
  next
    case False
    then show ?thesis using run assms(4) m2 grow2
      by (auto simp: put_effect_def add.assoc split: if_splits intro!: exI [of _ e2])
  qed
qed

lemma put_replacing_effect:
  assumes "medium_ok m" "newer seq m" "io_good env" "put_replacing env seq topic payload m loss = (m', loss', err)"
  shows "put_effect seq (record_text seq topic payload) m loss m' loss' err"
proof -
  have w: "io_retry_write env = NotOpened \<or> io_retry_write env = Written" and g: "io_unlinks env = (\<lambda>_. True)" "io_listable env"
    using assms(3) by (auto simp: io_good_def)
  obtain e r where 1: "remove_oldest (\<lambda>_. True) True m = (e, r)" "shrunk m e (if r then 1 else 0)"
    using evict_shrunk [OF assms(1)] by blast
  show ?thesis
  proof (cases "md_dir m = []")
    case True
    then have "e = m" "\<not> r" using remove_oldest_ok [OF assms(1)] 1(1) by auto
    then show ?thesis using assms(4) 1 by (auto simp: put_replacing_def g put_effect_def)
  next
    case False
    then have r: "r" using remove_oldest_ok [OF assms(1)] 1(1) by auto
    then have "medium_ok e" "newer seq e" using 1(2) shrunk_newer [OF 1(2) assms(2)] by (simp_all add: shrunk_def)
    note grow = write_grows(2) [OF this, of topic payload]
    show ?thesis using w
    proof
      assume "io_retry_write env = NotOpened"
      then show ?thesis using assms(4) 1 r
        by (auto simp: put_replacing_def g put_effect_def write_record_def intro!: exI [of _ e])
    next
      assume "io_retry_write env = Written"
      then show ?thesis using assms(4) 1 r grow
        by (auto simp: put_replacing_def g put_effect_def write_record_def Let_def intro!: exI [of _ e])
    qed
  qed
qed

section \<open>The store as a queue\<close>

definition store_ok :: "offline_store \<Rightarrow> bool" where
  "store_ok s \<longleftrightarrow> medium_ok (os_flash s) \<and> medium_ok (os_tf s)"

definition stored :: "offline_medium \<Rightarrow> u32 \<Rightarrow> medium \<Rightarrow> offline_record option" where
  "stored which seq m = (case read_record True seq which (md_dir m) of Inl r \<Rightarrow> Some r | Inr _ \<Rightarrow> None)"

text \<open>The record that is held under a number, with the card mounted or not.\<close>

definition held :: "bool \<Rightarrow> offline_store \<Rightarrow> u32 \<Rightarrow> offline_record option" where
  "held mounted s seq =
     (case stored OFFLINE_MEDIUM_FLASH seq (os_flash s) of
        Some r \<Rightarrow> Some r
      | None \<Rightarrow> if mounted then stored OFFLINE_MEDIUM_TF seq (os_tf s) else None)"

lemma held_unmounted: "held False s k = stored OFFLINE_MEDIUM_FLASH k (os_flash s)"
  by (simp add: held_def split: option.split)

lemma stored_cong: "map_of (md_dir e) (record_name seq) = map_of (md_dir m) (record_name seq) \<Longrightarrow> stored w seq e = stored w seq m"
  by (simp add: stored_def read_record_def)

lemma stored_present:
  "medium_ok m \<Longrightarrow> stored w seq m \<noteq> None \<longleftrightarrow> seq \<in> seqs (md_dir m)"
  "medium_ok m \<Longrightarrow> stored w seq m = Some r \<Longrightarrow> or_sequence_id r = seq \<and> read_record True seq w (md_dir m) = Inl r"
  using read_present [of "md_dir m" seq w]
  by (auto simp: stored_def medium_ok_def seqs_def split: sum.splits)

lemma remove_from_effect:
  assumes "medium_ok m" "io_good env" "remove_from env seq m = (m', removed)"
  shows "medium_ok m' \<and> removed = (seq \<in> seqs (md_dir m)) \<and>
    stored w k m' = (if k = seq then None else stored w k m)"
proof (cases "has_file seq (md_dir m)")
  case False
  then show ?thesis using assms stored_present(1) [OF assms(1), of w seq]
    by (auto simp: remove_from_def seqs_def)
next
  case True
  have d: "dir_ok (md_dir m)" "md_count m = int (length (md_dir m))"
    "oldest_of (if md_valid m then Some (md_oldest m) else None) (seqs (md_dir m))"
    using assms(1) by (simp_all add: medium_ok_def)
  have n: "md_count m > 0" using True d(2) by (auto simp: has_file_def)
  note u = unlink_ok [OF d(1)] and len = unlink_length [OF d(1) True]
  define e where "e = m\<lparr>md_dir := unlink_record seq (md_dir m), md_count := md_count m - 1\<rparr>"
  have e: "dir_ok (md_dir e)" "md_count e = int (length (md_dir e))" "seqs (md_dir e) = seqs (md_dir m) - {seq}"
    "md_valid e = md_valid m" "md_oldest e = md_oldest m" using u(1,2) len d(2) by (simp_all add: e_def)
  have run: "remove_from env seq m = (if md_valid m \<and> md_oldest m = seq then advance_oldest True seq e else e, True)"
    using True assms(2) n by (simp add: remove_from_def io_good_def e_def Let_def)
  have "medium_ok (if md_valid m \<and> md_oldest m = seq then advance_oldest True seq e else e)"
  proof (cases "md_valid m \<and> md_oldest m = seq")
    case old: True
    then have "\<forall>t \<in> seqs (md_dir e). seq < t" using d(3) e(3) by (auto simp: oldest_of_def order_less_le)
    then show ?thesis using e old by (auto intro: advance_ok)
  next
    case False
    then show ?thesis using e d(3) True by (auto simp: medium_ok_def oldest_of_def seqs_def split: if_splits)
  qed
  moreover have "md_dir m' = unlink_record seq (md_dir m)" using run assms(3) by (auto simp: e_def split: if_splits)
  then have "stored w k m' = (if k = seq then None else stored w k m)"
    using u(3) [of seq k] by (auto simp: stored_def read_record_def)
  ultimately show ?thesis using run assms(3) True by (auto simp: seqs_def)
qed

lemma remove_effect:
  assumes "store_ok s" "io_good env"
  shows "store_ok (fst (offline_store_remove env seq s))"
    "held (io_mounted env) (fst (offline_store_remove env seq s)) = (held (io_mounted env) s)(seq := None)"
    "snd (offline_store_remove env seq s) = (if held (io_mounted env) s seq = None then ESP_ERR_NOT_FOUND else ESP_OK)"
proof -
  obtain fl fr where f: "remove_from env seq (os_flash s) = (fl, fr)" by fastforce
  obtain tf tr where t: "remove_from env seq (os_tf s) = (tf, tr)" by fastforce
  have ok: "medium_ok (os_flash s)" "medium_ok (os_tf s)" using assms(1) by (simp_all add: store_ok_def)
  note ef = remove_from_effect [OF ok(1) assms(2) f] and et = remove_from_effect [OF ok(2) assms(2) t]
  note pf = stored_present(1) [OF ok(1), of OFFLINE_MEDIUM_FLASH seq] and pt = stored_present(1) [OF ok(2), of OFFLINE_MEDIUM_TF seq]
  have run: "offline_store_remove env seq s =
      (if io_mounted env then (s\<lparr>os_flash := fl, os_tf := tf\<rparr>, if fr \<or> tr then ESP_OK else ESP_ERR_NOT_FOUND)
       else (s\<lparr>os_flash := fl\<rparr>, if fr then ESP_OK else ESP_ERR_NOT_FOUND))"
    by (simp add: offline_store_remove_def f t)
  show "store_ok (fst (offline_store_remove env seq s))"
    using ef et ok by (auto simp: run store_ok_def)
  show "held (io_mounted env) (fst (offline_store_remove env seq s)) = (held (io_mounted env) s)(seq := None)"
    using ef et by (auto simp: run held_def fun_eq_iff split: option.split)
  show "snd (offline_store_remove env seq s) = (if held (io_mounted env) s seq = None then ESP_ERR_NOT_FOUND else ESP_OK)"
    using ef et pf pt by (auto simp: run held_def split: option.splits)
qed

lemma peek_effect:
  assumes "store_ok s" "io_good env"
  shows "if dom (held (io_mounted env) s) = {} then offline_store_peek_oldest env s = (s, Inr ESP_ERR_NOT_FOUND)
    else \<exists>r. offline_store_peek_oldest env s = (s, Inl r) \<and> held (io_mounted env) s (or_sequence_id r) = Some r \<and>
      (\<forall>k \<in> dom (held (io_mounted env) s). or_sequence_id r \<le> k)"
proof -
  let ?f = "os_flash s" and ?t = "os_tf s" and ?m = "io_mounted env"
  have ok: "medium_ok ?f" "medium_ok ?t" using assms(1) by (simp_all add: store_ok_def)
  have fl: "if md_valid ?f then md_oldest ?f \<in> seqs (md_dir ?f) \<and> (\<forall>k \<in> seqs (md_dir ?f). md_oldest ?f \<le> k)
      else seqs (md_dir ?f) = {}"
    and tf: "if md_valid ?t then md_oldest ?t \<in> seqs (md_dir ?t) \<and> (\<forall>k \<in> seqs (md_dir ?t). md_oldest ?t \<le> k)
      else seqs (md_dir ?t) = {}"
    using ok by (auto simp: medium_ok_def oldest_of_def)
  have o: "io_opens env" using assms(2) by (simp add: io_good_def)
  have d: "dom (held ?m s) = seqs (md_dir ?f) \<union> (if ?m then seqs (md_dir ?t) else {})"
  proof (rule set_eqI)
    fix k
    show "k \<in> dom (held ?m s) \<longleftrightarrow> k \<in> seqs (md_dir ?f) \<union> (if ?m then seqs (md_dir ?t) else {})"
      using stored_present(1) [OF ok(1), of OFFLINE_MEDIUM_FLASH k] stored_present(1) [OF ok(2), of OFFLINE_MEDIUM_TF k]
      by (cases "stored OFFLINE_MEDIUM_FLASH k ?f") (simp_all add: held_def domIff)
  qed
  have flash_held: "\<exists>r. read_record True q OFFLINE_MEDIUM_FLASH (md_dir ?f) = Inl r \<and> held ?m s q = Some r \<and> or_sequence_id r = q"
    if "q \<in> seqs (md_dir ?f)" for q
    using stored_present [OF ok(1), of OFFLINE_MEDIUM_FLASH q] that by (auto simp: held_def)
  have card_held: "\<exists>r. read_record True q OFFLINE_MEDIUM_TF (md_dir ?t) = Inl r \<and> held ?m s q = Some r \<and> or_sequence_id r = q"
    if "?m" "q \<in> seqs (md_dir ?t)" "q \<notin> seqs (md_dir ?f)" for q
    using stored_present [OF ok(2), of OFFLINE_MEDIUM_TF q] stored_present(1) [OF ok(1), of OFFLINE_MEDIUM_FLASH q] that
    by (auto simp: held_def)
  consider (none) "\<not> md_valid ?f" "\<not> (?m \<and> md_valid ?t)"
    | (flash) "md_valid ?f" "\<not> (?m \<and> md_valid ?t) \<or> md_oldest ?f \<le> md_oldest ?t"
    | (card) "?m" "md_valid ?t" "md_valid ?f \<longrightarrow> md_oldest ?t < md_oldest ?f"
    by (cases "md_valid ?f"; cases "?m \<and> md_valid ?t"; cases "md_oldest ?f \<le> md_oldest ?t") auto
  then show ?thesis
  proof cases
    case none
    then have "dom (held ?m s) = {}" using d fl tf by auto
    then show ?thesis using none by (auto simp: offline_store_peek_oldest_def read_next_def)
  next
    case flash
    obtain r where r: "read_record True (md_oldest ?f) OFFLINE_MEDIUM_FLASH (md_dir ?f) = Inl r"
        "held ?m s (md_oldest ?f) = Some r" "or_sequence_id r = md_oldest ?f"
      using flash_held [of "md_oldest ?f"] fl flash(1) by auto
    have "md_oldest ?f \<le> k" if "k \<in> dom (held ?m s)" for k
      using that d fl tf flash by (auto split: if_splits intro: order_trans)
    moreover have "offline_store_peek_oldest env s = (s, Inl r)"
      using r(1) flash o by (auto simp: offline_store_peek_oldest_def read_next_def Let_def)
    ultimately show ?thesis using r(2,3) by auto
  next
    case card
    have "md_oldest ?t \<notin> seqs (md_dir ?f)" using card fl by (auto split: if_splits)
    then obtain r where r: "read_record True (md_oldest ?t) OFFLINE_MEDIUM_TF (md_dir ?t) = Inl r"
        "held ?m s (md_oldest ?t) = Some r" "or_sequence_id r = md_oldest ?t"
      using card_held [of "md_oldest ?t"] tf card by auto
    have "md_oldest ?t \<le> k" if "k \<in> dom (held ?m s)" for k
      using that d fl tf card by (auto split: if_splits intro: order_trans order_less_imp_le)
    moreover have "offline_store_peek_oldest env s = (s, Inl r)"
      using r(1) card o by (auto simp: offline_store_peek_oldest_def read_next_def Let_def)
    ultimately show ?thesis using r(2,3) by auto
  qed
qed

text \<open>With the file system in order the store is a queue of records.\<close>

definition forget :: "io_env \<Rightarrow> u32 \<Rightarrow> offline_store \<Rightarrow> offline_store" where
  "forget env seq s = fst (offline_store_remove env seq s)"

interpretation offline: record_queue "held (io_mounted env)" "offline_store_peek_oldest env" "forget env"
  or_sequence_id "\<lambda>s. store_ok s \<and> io_good env" for env
proof unfold_locales
  fix s k
  assume s: "store_ok s \<and> io_good env"
  show "store_ok (forget env k s) \<and> io_good env" "held (io_mounted env) (forget env k s) = (held (io_mounted env) s)(k := None)"
    using s remove_effect [of s env k] by (simp_all add: forget_def)
  show "dom (held (io_mounted env) s) = {} \<Longrightarrow> offline_store_peek_oldest env s = (s, Inr ESP_ERR_NOT_FOUND)"
    using s peek_effect [of s env] by simp
  show "dom (held (io_mounted env) s) \<noteq> {} \<Longrightarrow> \<exists>r. offline_store_peek_oldest env s = (s, Inl r) \<and>
      held (io_mounted env) s (or_sequence_id r) = Some r \<and> (\<forall>k \<in> dom (held (io_mounted env) s). or_sequence_id r \<le> k)"
    using s peek_effect [of s env] by simp
qed

lemma stored_grown:
  assumes "grown seq (record_text seq topic payload) m e"
  shows "record_fits topic payload \<Longrightarrow> stored w seq e =
      Some \<lparr>or_sequence_id = seq, or_topic = topic, or_payload = payload, or_medium = w\<rparr>"
    "k \<noteq> seq \<Longrightarrow> stored w k e = stored w k m"
proof -
  have m: "map_of (md_dir e) = (map_of (md_dir m))(record_name seq \<mapsto> record_text seq topic payload)"
    using assms by (simp add: grown_def)
  show "record_fits topic payload \<Longrightarrow> stored w seq e =
      Some \<lparr>or_sequence_id = seq, or_topic = topic, or_payload = payload, or_medium = w\<rparr>"
    using m read_written [of "md_dir e" seq topic payload w] by (simp add: stored_def)
  show "k \<noteq> seq \<Longrightarrow> stored w k e = stored w k m" using m by (intro stored_cong) simp
qed

lemma stored_shrunk: "shrunk m e n \<Longrightarrow> stored w k e = stored w k m \<or> stored w k e = None"
  by (cases "map_of (md_dir e) (record_name k)")
    (auto simp: shrunk_def map_le_def dom_def stored_def read_record_def)

lemma put_effect_stored:
  assumes "put_effect seq (record_text seq topic payload) m loss m' loss' err"
  shows "medium_ok m'" "int (length (md_dir m')) + loss' = int (length (md_dir m)) + loss + (if err = ESP_OK then 1 else 0)"
    "k \<noteq> seq \<Longrightarrow> stored w k m' = stored w k m \<or> stored w k m' = None"
    "err = ESP_OK \<Longrightarrow> record_fits topic payload \<Longrightarrow> stored w seq m' =
      Some \<lparr>or_sequence_id = seq, or_topic = topic, or_payload = payload, or_medium = w\<rparr>"
proof -
  obtain e n where e: "shrunk m e n" "loss' = loss + n"
      "if err = ESP_OK then grown seq (record_text seq topic payload) e m' else m' = e"
    using assms by (auto simp: put_effect_def)
  show "medium_ok m'" using e by (auto simp: shrunk_def grown_def split: if_splits)
  show "int (length (md_dir m')) + loss' = int (length (md_dir m)) + loss + (if err = ESP_OK then 1 else 0)"
    using e by (auto simp: shrunk_def grown_def split: if_splits)
  show "k \<noteq> seq \<Longrightarrow> stored w k m' = stored w k m \<or> stored w k m' = None"
    using e stored_shrunk [OF e(1), of w k] stored_grown(2) [of seq topic payload e m' k w] by (auto split: if_splits)
  show "err = ESP_OK \<Longrightarrow> record_fits topic payload \<Longrightarrow> stored w seq m' =
      Some \<lparr>or_sequence_id = seq, or_topic = topic, or_payload = payload, or_medium = w\<rparr>"
    using e stored_grown(1) [of seq topic payload e m' w] by simp
qed

definition record_count :: "offline_store \<Rightarrow> int" where
  "record_count s = int (length (md_dir (os_flash s))) + int (length (md_dir (os_tf s)))"

lemma put_result:
  assumes "store_ok s" "os_ready s" "io_good env" "newer seq (os_flash s)" "newer seq (os_tf s)"
    and "offline_store_put env seq (Some topic) (Some payload) s = (t, err)"
  shows "store_ok t \<and> record_count t + os_loss t = record_count s + os_loss s + 1 \<and>
    (k \<noteq> seq \<longrightarrow> held (io_mounted env) t k = held (io_mounted env) s k \<or> held (io_mounted env) t k = None) \<and>
    (err = ESP_OK \<and> record_fits topic payload \<longrightarrow> (\<exists>w. held (io_mounted env) t seq =
      Some \<lparr>or_sequence_id = seq, or_topic = topic, or_payload = payload, or_medium = w\<rparr>))"
proof -
  let ?m = "io_mounted env"
  have ok: "medium_ok (os_flash s)" "medium_ok (os_tf s)" using assms(1) by (simp_all add: store_ok_def)
  obtain fl e1 where f: "put_flash env seq topic payload (os_flash s) = (fl, e1)" by fastforce
  note ef = put_effect_stored [OF put_flash_effect [OF ok(1) assms(4,3) f, of 0]]
  have same: "fl = os_flash s" if "e1 \<noteq> ESP_OK"
    using that f assms(3) by (auto simp: put_flash_def write_record_def io_good_def split: option.splits if_splits)
  have no: "stored w seq (os_flash s) = None" for w
    using stored_present(1) [OF ok(1), of w seq] assms(4) by (auto simp: newer_def)
  consider (fl) "e1 = ESP_OK" | (tf) "e1 \<noteq> ESP_OK" "?m" | (rp) "e1 \<noteq> ESP_OK" "\<not> ?m" by blast
  then show ?thesis
  proof cases
    case fl
    then have t: "t = s\<lparr>os_flash := fl\<rparr>" "err = ESP_OK"
      using assms(2,6) f by (auto simp: offline_store_put_def)
    have "grown seq (record_text seq topic payload) (os_flash s) fl"
      using f fl assms(3) write_grows(1) [OF ok(1) assms(4), of topic payload]
      by (auto simp: put_flash_def write_record_def io_good_def split: option.splits if_splits)
    then have "k \<noteq> seq \<Longrightarrow> stored w k fl = stored w k (os_flash s)" for w by (rule stored_grown(2))
    then show ?thesis using ef(1,2,4) t ok(2) fl
      by (auto simp: store_ok_def record_count_def held_def split: option.split)
  next
    case tf
    obtain m' loss' where p: "put_tf env seq topic payload (os_tf s) (os_loss s) = (m', loss', err)"
      and t: "t = s\<lparr>os_tf := m', os_loss := (if err = ESP_OK then loss' else loss' + 1)\<rparr>"
      using assms(2,6) f tf same by (auto simp: offline_store_put_def split: prod.splits if_splits)
    note e = put_effect_stored [OF put_tf_effect [OF ok(2) assms(5,3) p]]
    show ?thesis using e(1,2) e(3) [of k OFFLINE_MEDIUM_TF] e(4) [of OFFLINE_MEDIUM_TF] ok(1) no tf(2)
      by (auto simp: t store_ok_def record_count_def held_def split: option.splits)
  next
    case rp
    obtain m' loss' where p: "put_replacing env seq topic payload (os_flash s) (os_loss s) = (m', loss', err)"
      and t: "t = s\<lparr>os_flash := m', os_loss := (if err = ESP_OK then loss' else loss' + 1)\<rparr>"
      using assms(2,6) f rp same by (auto simp: offline_store_put_def split: prod.splits if_splits)
    note e = put_effect_stored [OF put_replacing_effect [OF ok(1) assms(4,3) p]]
    have "k \<noteq> seq \<longrightarrow> stored OFFLINE_MEDIUM_FLASH k m' = stored OFFLINE_MEDIUM_FLASH k (os_flash s) \<or>
        stored OFFLINE_MEDIUM_FLASH k m' = None"
      using e(3) [of k OFFLINE_MEDIUM_FLASH] by (cases "k = seq") simp_all
    moreover have "err = ESP_OK \<and> record_fits topic payload \<longrightarrow> (\<exists>w. stored OFFLINE_MEDIUM_FLASH seq m' =
        Some \<lparr>or_sequence_id = seq, or_topic = topic, or_payload = payload, or_medium = w\<rparr>)"
      using e(4) [of OFFLINE_MEDIUM_FLASH] by blast
    moreover have "?m = False" using rp(2) by simp
    ultimately show ?thesis using e(1,2) ok(2) unfolding t
      by (simp add: store_ok_def record_count_def held_unmounted)
  qed
qed

section \<open>The files themselves\<close>

text \<open>
  What the file of a number holds on a medium, and what the operations do to it whatever calls of
  the file system fail.
\<close>

definition medium_of :: "offline_medium \<Rightarrow> offline_store \<Rightarrow> medium" where
  "medium_of w s = (case w of OFFLINE_MEDIUM_FLASH \<Rightarrow> os_flash s | OFFLINE_MEDIUM_TF \<Rightarrow> os_tf s)"

definition file_of :: "offline_medium \<Rightarrow> u32 \<Rightarrow> offline_store \<Rightarrow> string option" where
  "file_of w k s = map_of (md_dir (medium_of w s)) (record_name k)"

lemma lower_dir [simp]: "md_dir (lower_oldest seq m) = md_dir m" "md_dir (count_up m) = md_dir m"
  by (simp_all add: lower_oldest_def count_up_def)

lemma remove_oldest_dir: "\<not> snd (remove_oldest u l m) \<Longrightarrow> md_dir (fst (remove_oldest u l m)) = md_dir m"
  by (auto simp: remove_oldest_def Let_def)

lemma write_record_other:
  "k \<noteq> seq \<Longrightarrow> map_of (md_dir (fst (write_record out seq topic payload m))) (record_name k) = map_of (md_dir m) (record_name k)"
  by (auto simp: write_record_def AList.update_conv' split: write_outcome.split)

lemma put_flash_other:
  "k \<noteq> seq \<Longrightarrow> map_of (md_dir (fst (put_flash env seq topic payload m))) (record_name k) = map_of (md_dir m) (record_name k)"
  using write_record_other [of k seq "io_flash_write env" topic payload m]
  by (auto simp: put_flash_def Let_def split: option.split prod.splits)

text \<open>A put that changes the file of another record has counted a loss.\<close>

lemma put_tf_other:
  assumes "k \<noteq> seq" "put_tf env seq topic payload m loss = (m', loss', err)"
  shows "loss \<le> loss' \<and> (loss' = loss \<longrightarrow> map_of (md_dir m') (record_name k) = map_of (md_dir m) (record_name k))"
proof -
  note w = write_record_other [OF assms(1)]
  have e: "md_dir (fst (remove_oldest (io_unlinks env) (io_listable env) n)) = md_dir n"
    if "\<not> snd (remove_oldest (io_unlinks env) (io_listable env) n)" for n using that by (rule remove_oldest_dir)
  show ?thesis using assms(2) w e
    by (auto simp: put_tf_def Let_def split_beta split: if_splits)
qed

lemma put_replacing_other:
  assumes "k \<noteq> seq" "put_replacing env seq topic payload m loss = (m', loss', err)"
  shows "loss \<le> loss' \<and> (loss' = loss \<longrightarrow> map_of (md_dir m') (record_name k) = map_of (md_dir m) (record_name k))"
  using assms(2) remove_oldest_dir [of "io_unlinks env" "io_listable env" m]
  by (auto simp: put_replacing_def Let_def split_beta split: if_splits)

lemma put_keeps_files:
  assumes "k \<noteq> seq" "offline_store_put env seq topic payload s = (t, err)"
  shows "os_loss s \<le> os_loss t" "os_loss t = os_loss s \<Longrightarrow> file_of w k t = file_of w k s"
proof -
  have "os_loss s \<le> os_loss t \<and> (os_loss t = os_loss s \<longrightarrow> file_of w k t = file_of w k s)"
  proof (cases "topic = None \<or> payload = None \<or> \<not> os_ready s")
    case True
    then have "t = s" using assms(2) by (auto simp: offline_store_put_def split: option.splits)
    then show ?thesis by simp
  next
    case False
    then obtain x y where xy: "topic = Some x" "payload = Some y" "os_ready s" by auto
    obtain fl e1 where f: "put_flash env seq x y (os_flash s) = (fl, e1)" by fastforce
    then have fl: "map_of (md_dir fl) (record_name k) = map_of (md_dir (os_flash s)) (record_name k)"
      using put_flash_other [OF assms(1), of env x y "os_flash s"] by simp
    obtain m1 l1 r1 where tf: "put_tf env seq x y (os_tf s) (os_loss s) = (m1, l1, r1)" by (metis prod_cases3)
    obtain m2 l2 r2 where rp: "put_replacing env seq x y fl (os_loss s) = (m2, l2, r2)" by (metis prod_cases3)
    note o = put_tf_other [OF assms(1) tf] put_replacing_other [OF assms(1) rp]
    consider (fl) "e1 = ESP_OK" | (tf) "e1 \<noteq> ESP_OK" "io_mounted env" | (rp) "e1 \<noteq> ESP_OK" "\<not> io_mounted env" by blast
    then show ?thesis
    proof cases
      case fl
      then have "t = s\<lparr>os_flash := fl\<rparr>" using assms(2) xy f by (simp add: offline_store_put_def)
      then show ?thesis using \<open>map_of (md_dir fl) (record_name k) = _\<close>
        by (cases w) (simp_all add: file_of_def medium_of_def)
    next
      case tf
      then have "t = s\<lparr>os_flash := fl, os_tf := m1, os_loss := (if r1 = ESP_OK then l1 else l1 + 1)\<rparr>"
        using assms(2) xy f \<open>put_tf _ _ _ _ _ _ = _\<close> by (simp add: offline_store_put_def Let_def split: if_splits)
      then show ?thesis using \<open>map_of (md_dir fl) (record_name k) = _\<close> o(1)
        by (cases w) (simp_all add: file_of_def medium_of_def)
    next
      case rp
      then have "t = s\<lparr>os_flash := m2, os_loss := (if r2 = ESP_OK then l2 else l2 + 1)\<rparr>"
        using assms(2) xy f \<open>put_replacing _ _ _ _ _ _ = _\<close> by (simp add: offline_store_put_def Let_def split: if_splits)
      then show ?thesis using \<open>map_of (md_dir fl) (record_name k) = _\<close> o(2)
        by (cases w) (simp_all add: file_of_def medium_of_def)
    qed
  qed
  then show "os_loss s \<le> os_loss t" "os_loss t = os_loss s \<Longrightarrow> file_of w k t = file_of w k s" by simp_all
qed

lemma remove_keeps_files:
  "k \<noteq> seq \<Longrightarrow> file_of w k (fst (offline_store_remove env seq s)) = file_of w k s"
  by (cases w) (auto simp: offline_store_remove_def file_of_def medium_of_def remove_from_def unlink_record_def delete_conv'
      Let_def split_beta advance_dir)

lemma peek_keeps_files: "file_of w k (fst (offline_store_peek_oldest env s)) = file_of w k s"
  by (cases w) (simp_all add: offline_store_peek_oldest_def file_of_def medium_of_def Let_def split: sum.split)

section \<open>Properties\<close>

text \<open>
  C18. While the file system is in order (files can be deleted, listed and opened, and a write that
  fails leaves no part of a file) and the number of the record is higher than those of all
  stored ones, no record is lost silently: the put leaves the store well formed and adds exactly
  one to the records stored plus the losses counted, whichever writes fail and however many
  old records make room; when it reports success the record is there, as it was given, and
  every other record is untouched or gone.
\<close>

theorem put_accounted:
  assumes "store_ok s" "os_ready s" "io_good env" "newer seq (os_flash s)" "newer seq (os_tf s)"
    and "offline_store_put env seq (Some topic) (Some payload) s = (t, err)"
  shows "store_ok t \<and> record_count t + os_loss t = record_count s + os_loss s + 1 \<and>
    (k \<noteq> seq \<longrightarrow> held (io_mounted env) t k = held (io_mounted env) s k \<or> held (io_mounted env) t k = None) \<and>
    (err = ESP_OK \<and> record_fits topic payload \<longrightarrow> (\<exists>w. held (io_mounted env) t seq =
      Some \<lparr>or_sequence_id = seq, or_topic = topic, or_payload = payload, or_medium = w\<rparr>))"
  using assms by (rule put_result)

text \<open>
  The store delivers what it holds: handing out the oldest record and removing it, as often
  as there are records, gives every record once, in the order of the sequence numbers and over
  both media, and leaves the store empty.
\<close>

theorem store_drains_in_order:
  assumes "store_ok s" "io_good env" and "card (dom (held (io_mounted env) s)) = n"
    and "drain (offline_store_peek_oldest env) (forget env) or_sequence_id n s = (rs, t)"
  shows "map or_sequence_id rs = sorted_list_of_set (dom (held (io_mounted env) s)) \<and>
    (\<forall>r \<in> set rs. held (io_mounted env) s (or_sequence_id r) = Some r) \<and> dom (held (io_mounted env) t) = {}"
  using offline.drain_all [of s env n] assms by simp

text \<open>
  A restart loses nothing: whatever the counters in RAM were, starting on the files of a
  well-formed store gives a well-formed store that holds the same records, when the flash is within
  its capacity.
\<close>

theorem records_survive_restart:
  assumes "store_ok s" "length (md_dir (os_flash s)) \<le> 512"
    and "st_mount env = ESP_OK" "st_mkdir env" "st_listable env" "st_mutex env"
    and "st_files env = md_dir (os_flash s)" "st_tf_files env = md_dir (os_tf s)" "st_tf_mounted env"
    and "md_dir (os_flash s) = [] \<longrightarrow> st_unmount env = ESP_OK \<and> st_format env = ESP_OK \<and> st_remount env = ESP_OK \<and> st_remkdir env"
    and "offline_store_init env old = (t, err)"
  shows "err = ESP_OK \<and> store_ok t \<and> held True t = held True s"
proof -
  have d: "dir_ok (md_dir (os_flash s))" "dir_ok (md_dir (os_tf s))"
    using assms(1) by (simp_all add: store_ok_def medium_ok_def)
  define f where "f = load_store_state True ((os_flash old)\<lparr>md_dir := md_dir (os_flash s)\<rparr>)"
  have f: "medium_ok f" "md_dir f = md_dir (os_flash s)" using d(1) by (simp_all add: f_def load_ok)
  define g where "g = load_store_state True (f\<lparr>md_dir := []\<rparr>)"
  have g: "medium_ok g" "md_dir g = []" by (simp_all add: g_def load_ok dir_ok_def)
  have n: "md_count f = int (length (md_dir (os_flash s)))" using f by (simp add: medium_ok_def)
  have p: "prune u l f loss = (f, loss)" "prune u l g loss = (g, loss)" for u l loss
    using n assms(2) g by (simp_all add: prune.simps [of _ _ f] prune.simps [of _ _ g] medium_ok_def)
  define full where "full = (case st_info env of None \<Rightarrow> False | Some free \<Rightarrow> free \<le> FLASH_RESERVE_BYTES)"
  have r: "recreate_flash_cache env f = (f\<lparr>md_dir := []\<rparr>, ESP_OK)" if "md_count f = 0"
    using that n assms(10) by (simp add: recreate_flash_cache_def)
  define h where "h = (if md_count f = 0 \<and> full then g else f)"
  have h: "medium_ok h" "md_dir h = md_dir (os_flash s)" "prune u l h loss = (h, loss)" for u l loss
    using f g n p by (simp_all add: h_def)
  have run: "offline_store_init env old = ((old\<lparr>os_mutex := True, os_ready := True, os_flash := h, os_loss := os_loss old,
      os_tf := load_store_state True ((os_tf old)\<lparr>md_dir := md_dir (os_tf s)\<rparr>)\<rparr>), ESP_OK)"
    using assms(3-9) r p
    by (simp add: offline_store_init_def f_def [symmetric] full_def [symmetric] g_def [symmetric] h_def Let_def)
  show ?thesis using run assms(11) h d(2)
    by (auto simp: store_ok_def load_ok held_def stored_def fun_eq_iff split: option.split)
qed

lemma oldest_is_least:
  assumes "medium_ok m" "md_dir m \<noteq> []"
  shows "md_valid m" "md_oldest m \<in> seqs (md_dir m)" "t \<in> seqs (md_dir m) \<Longrightarrow> md_oldest m \<le> t" "0 < md_count m"
proof -
  have "dir_ok (md_dir m)" using assms(1) by (simp add: medium_ok_def)
  then show "md_valid m" "md_oldest m \<in> seqs (md_dir m)" "t \<in> seqs (md_dir m) \<Longrightarrow> md_oldest m \<le> t" "0 < md_count m"
    using assms seqs_empty by (auto simp: medium_ok_def oldest_of_def split: if_splits)
qed

text \<open>Removing the oldest record when its file may refuse to be deleted.\<close>

lemma remove_oldest_any:
  assumes "medium_ok m" "md_dir m \<noteq> []"
  shows "if u (md_oldest m)
    then remove_oldest u True m = remove_oldest (\<lambda>_. True) True m
    else remove_oldest u True m = (load_store_state True m, False) \<and> medium_ok (load_store_state True m) \<and>
      md_oldest (load_store_state True m) = md_oldest m"
proof -
  let ?l = "load_store_state True m"
  have "dir_ok (md_dir m)" using assms(1) by (simp add: medium_ok_def)
  then have l: "medium_ok ?l" "md_dir ?l \<noteq> []" using assms(2) load_ok by simp_all
  note a = oldest_is_least [OF assms] and b = oldest_is_least [OF l]
  have "md_oldest ?l = md_oldest m" using a(2,3) b(2,3) by (simp add: order_antisym)
  moreover have "md_count m > 0" "md_valid m" "has_file (md_oldest m) (md_dir m)" using a by (simp_all add: seqs_def)
  ultimately show ?thesis using l(1) by (simp add: remove_oldest_def Let_def)
qed

text \<open>
  C40. On a directory that can be listed, the pruning of a start ends, whichever files refuse to be
  deleted: it deletes the oldest records, counts each as lost, and stops when the directory is
  within the capacity or at the first record, then the oldest, that cannot be deleted; it
  leaves a well-formed directory whose records are among those before.
\<close>

theorem prune_ends_within_capacity:
  assumes "medium_ok m" and "prune unlinks True m loss = (e, loss')"
  shows "medium_ok e \<and> loss' + int (length (md_dir e)) = loss + int (length (md_dir m)) \<and>
    map_of (md_dir e) \<subseteq>\<^sub>m map_of (md_dir m) \<and> (\<forall>a \<in> seqs (md_dir m) - seqs (md_dir e). \<forall>b \<in> seqs (md_dir e). a < b) \<and>
    (length (md_dir e) = min 512 (length (md_dir m)) \<or> 512 < length (md_dir e) \<and> \<not> unlinks (md_oldest e))"
  using assms
proof (induction "length (md_dir m)" arbitrary: m loss)
  case 0
  then show ?case by (subst (asm) prune.simps) (auto simp: medium_ok_def)
next
  case (Suc n)
  have c: "md_count m = int (Suc n)" using Suc.hyps(2) Suc.prems(1) by (simp add: medium_ok_def)
  have ne: "md_dir m \<noteq> []" using Suc.hyps(2) by auto
  note any = remove_oldest_any [OF Suc.prems(1) ne, of unlinks]
  consider (fits) "Suc n \<le> 512" | (stuck) "\<not> Suc n \<le> 512" "\<not> unlinks (md_oldest m)"
    | (drop) "\<not> Suc n \<le> 512" "unlinks (md_oldest m)" by blast
  then show ?case
  proof cases
    case fits
    then show ?thesis using Suc.prems Suc.hyps(2) c by (subst (asm) prune.simps) auto
  next
    case stuck
    then have "e = load_store_state True m" "loss' = loss"
      using Suc.prems(2) c any by (auto simp: prune.simps [of unlinks True m])
    then show ?thesis using any stuck Suc.hyps(2) by (simp del: One_nat_def)
  next
    case drop
    obtain m1 where m1: "remove_oldest unlinks True m = (m1, True)" "medium_ok m1"
        "has_file (md_oldest m) (md_dir m)" "md_dir m1 = unlink_record (md_oldest m) (md_dir m)"
      using remove_oldest_ok [OF Suc.prems(1)] any drop(2) ne by auto
    have d: "dir_ok (md_dir m)" using Suc.prems(1) by (simp add: medium_ok_def)
    have n: "length (md_dir m1) = n" using unlink_length [OF d m1(3)] m1(4) Suc.hyps(2) by simp
    have le: "map_of (md_dir m1) \<subseteq>\<^sub>m map_of (md_dir m)"
      by (auto simp: m1(4) map_le_def unlink_record_def AList.delete_conv' split: if_splits)
    have sq: "seqs (md_dir m1) = seqs (md_dir m) - {md_oldest m}" using unlink_ok(2) [OF d] m1(4) by simp
    have "prune unlinks True m1 (loss + 1) = (e, loss')"
      using Suc.prems(2) c drop m1(1) by (subst (asm) prune.simps) simp
    note ih = Suc.hyps(1) [OF n [symmetric] m1(2) this]
    have sub: "seqs (md_dir e) \<subseteq> seqs (md_dir m1)"
      using ih by (fastforce simp: seqs_def has_file_def map_le_def dom_def)
    have "md_oldest m < b" if "b \<in> seqs (md_dir e)" for b
      using that sub sq oldest_is_least(3) [OF Suc.prems(1) ne, of b] by (auto simp: order_less_le)
    then have "\<forall>a \<in> seqs (md_dir m) - seqs (md_dir e). \<forall>b \<in> seqs (md_dir e). a < b"
      using ih sq by blast
    moreover have "map_of (md_dir e) \<subseteq>\<^sub>m map_of (md_dir m)" using ih le by (blast intro: map_le_trans)
    moreover have "min 512 (length (md_dir m1)) = min 512 (length (md_dir m))" using drop(1) n Suc.hyps(2) by simp
    moreover have "loss' + int (length (md_dir e)) = loss + int (length (md_dir m))"
      using ih n Suc.hyps(2) by simp
    ultimately show ?thesis using ih by simp
  qed
qed

section \<open>Witnesses\<close>

definition one_record :: "u32 \<Rightarrow> medium" where
  "one_record q = \<lparr>md_dir = [(record_name q, record_text q ''t'' ''p'')], md_count = 1, md_oldest = q, md_valid = True\<rparr>"

lemma one_record_ok: "medium_ok (one_record q)" "seqs (md_dir (one_record q)) = {q}"
proof -
  show s: "seqs (md_dir (one_record q)) = {q}" by (auto simp: one_record_def seqs_def has_file_iff)
  show "medium_ok (one_record q)" unfolding medium_ok_def s
    by (simp add: one_record_def dir_ok_def readable_record oldest_of_def)
qed

definition two_media :: offline_store where
  "two_media = \<lparr>os_mutex = True, os_ready = True, os_flash = one_record 5, os_tf = one_record 3, os_loss = 0\<rparr>"

definition calm_env :: io_env where
  "calm_env = \<lparr>io_free = Some 1000000, io_mounted = True, io_flash_write = Written, io_tf_write = Written,
     io_retry_write = Written, io_unlinks = (\<lambda>_. True), io_listable = True, io_opens = True, io_reopens = True\<rparr>"

lemma two_media_ok: "store_ok two_media" "io_good calm_env" "io_mounted calm_env"
  by (simp_all add: store_ok_def two_media_def one_record_ok io_good_def calm_env_def)

lemma stored_one: "stored w k (one_record q) = (if k = q then
    Some \<lparr>or_sequence_id = q, or_topic = ''t'', or_payload = ''p'', or_medium = w\<rparr> else None)"
proof (cases "k = q")
  case True
  have "record_fits ''t'' ''p''" by (simp add: record_fits_def)
  then show ?thesis using True read_written [of "md_dir (one_record q)" q "''t''" "''p''" w]
    by (simp add: stored_def one_record_def)
next
  case False
  then show ?thesis by (simp add: stored_def one_record_def read_record_def)
qed

lemma held_two: "dom (held True two_media) = {3, 5}"
  by (auto simp: held_def two_media_def stored_one dom_def)

lemma put_accounted_witness:
  "record_count (fst (offline_store_put calm_env 9 (Some ''x'') (Some ''y'') two_media)) = 3"
proof -
  obtain t err where r: "offline_store_put calm_env 9 (Some ''x'') (Some ''y'') two_media = (t, err)" by fastforce
  have "os_loss t = 0" using r
    by (auto simp: offline_store_put_def put_flash_def calm_env_def two_media_def write_record_def one_record_def)
  moreover have "record_count two_media = 2" by (simp add: record_count_def two_media_def one_record_def)
  moreover have "newer 9 (os_flash two_media)" "newer 9 (os_tf two_media)"
    by (simp_all add: newer_def two_media_def one_record_ok)
  ultimately show ?thesis using put_accounted [OF two_media_ok(1) _ two_media_ok(2) _ _ r] r
    by (simp add: two_media_def)
qed

lemma store_drains_in_order_witness:
  "map or_sequence_id (fst (drain (offline_store_peek_oldest calm_env) (forget calm_env) or_sequence_id 2 two_media)) = [3, 5]"
proof -
  obtain rs t where r: "drain (offline_store_peek_oldest calm_env) (forget calm_env) or_sequence_id 2 two_media = (rs, t)"
    by fastforce
  have "card (dom (held (io_mounted calm_env) two_media)) = 2" by (simp add: two_media_ok held_two)
  from store_drains_in_order [OF two_media_ok(1,2) this r] r show ?thesis by (simp add: two_media_ok held_two)
qed

definition calm_start :: start_env where
  "calm_start = \<lparr>st_mutex = True, st_mount = ESP_OK, st_mkdir = True, st_files = md_dir (os_flash two_media), st_info = None,
     st_unmount = ESP_OK, st_format = ESP_OK, st_remount = ESP_OK, st_remkdir = True, st_listable = True,
     st_unlinks = (\<lambda>_. True), st_tf_mounted = True, st_tf_files = md_dir (os_tf two_media)\<rparr>"

lemma records_survive_restart_witness:
  "\<forall>old. held True (fst (offline_store_init calm_start old)) = held True two_media"
proof
  fix old
  obtain t err where r: "offline_store_init calm_start old = (t, err)" by fastforce
  show "held True (fst (offline_store_init calm_start old)) = held True two_media"
    using records_survive_restart [OF two_media_ok(1) _ _ _ _ _ _ _ _ _ r] r
    by (simp add: calm_start_def two_media_def one_record_def)
qed

text \<open>A directory of the records \<open>0\<close> to \<open>n - 1\<close>.\<close>

definition many_records :: "nat \<Rightarrow> medium" where
  "many_records n = \<lparr>md_dir = map (\<lambda>i. (record_name (word_of_nat i), record_text (word_of_nat i) ''t'' ''p'')) [0..<n],
     md_count = int n, md_oldest = 0, md_valid = True\<rparr>"

lemma unat_word_of_nat: "i < 2 ^ LENGTH(32) \<Longrightarrow> unat (word_of_nat i :: u32) = i"
  by (rule of_nat_inverse [OF refl])

lemma word_of_nat_inj:
  "word_of_nat i = (word_of_nat j :: u32) \<Longrightarrow> i < 2 ^ LENGTH(32) \<Longrightarrow> j < 2 ^ LENGTH(32) \<Longrightarrow> i = j"
  by (metis unat_word_of_nat)

lemma many_records_ok:
  assumes "0 < n" "n < 2 ^ LENGTH(32)"
  shows "medium_ok (many_records n)"
proof -
  have names: "map fst (md_dir (many_records n)) = map (\<lambda>i. record_name (word_of_nat i)) [0..<n]"
    by (simp add: many_records_def)
  have "inj_on (\<lambda>i. record_name (word_of_nat i)) {0..<n}"
  proof (rule inj_onI)
    fix i j
    assume ij: "i \<in> {0..<n}" "j \<in> {0..<n}" and e: "record_name (word_of_nat i) = record_name (word_of_nat j)"
    have "i < 2 ^ LENGTH(32)" "j < 2 ^ LENGTH(32)" using ij assms(2) by (meson atLeastLessThan_iff order_less_trans)+
    then show "i = j" using e unfolding record_name_inj by (intro word_of_nat_inj)
  qed
  then have "distinct (map fst (md_dir (many_records n)))" unfolding names distinct_map by simp
  then have "dir_ok (md_dir (many_records n))"
    unfolding dir_ok_def by (auto simp: many_records_def readable_record)
  moreover have "record_name (word_of_nat 0) \<in> set (map fst (md_dir (many_records n)))"
    unfolding names set_map using assms(1) by (intro imageI) simp
  then have "0 \<in> seqs (md_dir (many_records n))" by (simp add: seqs_def has_file_iff)
  moreover have "md_count (many_records n) = int (length (md_dir (many_records n)))" "md_valid (many_records n)"
    "md_oldest (many_records n) = 0" by (simp_all add: many_records_def)
  ultimately show ?thesis by (simp add: medium_ok_def oldest_of_def)
qed

lemma prune_ends_within_capacity_witness:
  "length (md_dir (fst (prune (\<lambda>_. True) True (many_records 520) 0))) = 512 \<and> snd (prune (\<lambda>_. True) True (many_records 520) 0) = 8"
proof -
  obtain e loss where r: "prune (\<lambda>_. True) True (many_records 520) 0 = (e, loss)" by fastforce
  show ?thesis using prune_ends_within_capacity [OF many_records_ok r] r by (simp add: many_records_def)
qed

end
