(* ===== verification/Tcm_Context.thy ===== *)
theory Tcm_Context
  imports Tcm_Types Runtime_Config
begin

text \<open>
  The context records of the gateway (\<open>tcm/tcm_context.c\<close>): building one from a raw reading,
  the sequence numbers with their reservation in NVS, the schema check, and the JSON form. A
  JSON text is the tree of cJSON's objects here; printing and parsing of the text are the
  library's and are parameters. Sequence numbers are 32-bit words.
\<close>

section \<open>Names of the enumerations\<close>

definition protocol_string :: "source_protocol \<Rightarrow> string" where
  "protocol_string v = (if v = SRC_MODBUS_TCP then ''MODBUS_TCP'' else ''MODBUS_RTU'')"

definition data_type_string :: "data_type \<Rightarrow> string" where
  "data_type_string v =
     (case v of DT_INT16 \<Rightarrow> ''int16'' | DT_UINT16 \<Rightarrow> ''uint16'' | DT_FLOAT32 \<Rightarrow> ''float32'' | DT_INT32 \<Rightarrow> ''int32''
      | DT_UINT32 \<Rightarrow> ''uint32'' | DT_BOOL \<Rightarrow> ''bool'' | DT_INT64 \<Rightarrow> ''int64'' | DT_UINT64 \<Rightarrow> ''uint64''
      | DT_FLOAT64 \<Rightarrow> ''float64'' | DT_BCD16 \<Rightarrow> ''bcd16'' | DT_BITFIELD16 \<Rightarrow> ''bitfield16'' | DT_ASCII \<Rightarrow> ''ascii'')"

definition byte_order_string :: "byte_order \<Rightarrow> string" where
  "byte_order_string v =
     (case v of BYTE_ORDER_ABCD \<Rightarrow> ''ABCD'' | BYTE_ORDER_CDAB \<Rightarrow> ''CDAB'' | BYTE_ORDER_BADC \<Rightarrow> ''BADC''
      | BYTE_ORDER_DCBA \<Rightarrow> ''DCBA'')"

definition quality_string :: "quality_state \<Rightarrow> string" where
  "quality_string v = (case v of QUALITY_GOOD \<Rightarrow> ''good'' | QUALITY_STALE \<Rightarrow> ''stale'' | QUALITY_INVALID \<Rightarrow> ''invalid'')"

definition network_string :: "network_state \<Rightarrow> string" where
  "network_string v =
     (case v of NET_ONLINE \<Rightarrow> ''online'' | NET_DELAYED \<Rightarrow> ''delayed'' | NET_OFFLINE \<Rightarrow> ''offline''
      | NET_REPLAYED \<Rightarrow> ''replayed'')"

definition operation_string :: "operation_type \<Rightarrow> string" where
  "operation_string v =
     (case v of OP_READ_PUBLISH \<Rightarrow> ''read_publish'' | OP_SUBSCRIBE \<Rightarrow> ''subscribe'' | OP_WRITE \<Rightarrow> ''write''
      | OP_REPLAY \<Rightarrow> ''replay'' | OP_READ_ONLY \<Rightarrow> ''read_only'')"

definition semantic_source_string :: "semantic_source \<Rightarrow> string" where
  "semantic_source_string v =
     (case v of SEMANTIC_SOURCE_UNRESOLVED \<Rightarrow> ''unresolved'' | SEMANTIC_SOURCE_PROFILE \<Rightarrow> ''profile''
      | SEMANTIC_SOURCE_USER \<Rightarrow> ''user'' | SEMANTIC_SOURCE_DISCOVERY \<Rightarrow> ''discovery''
      | SEMANTIC_SOURCE_IMPORTED \<Rightarrow> ''imported'')"

definition semantic_status_string :: "semantic_status \<Rightarrow> string" where
  "semantic_status_string v =
     (case v of SEMANTIC_STATUS_UNRESOLVED \<Rightarrow> ''unresolved'' | SEMANTIC_STATUS_INFERRED \<Rightarrow> ''inferred''
      | SEMANTIC_STATUS_RESOLVED \<Rightarrow> ''resolved'' | SEMANTIC_STATUS_VERIFIED \<Rightarrow> ''verified''
      | SEMANTIC_STATUS_CONFLICT \<Rightarrow> ''conflict'')"

definition parse_data_type :: "string option \<Rightarrow> data_type" where
  "parse_data_type v =
     (case v of None \<Rightarrow> DT_UINT16
      | Some s \<Rightarrow>
          (if s = ''int16'' then DT_INT16 else if s = ''float32'' then DT_FLOAT32
           else if s = ''int32'' then DT_INT32 else if s = ''uint32'' then DT_UINT32
           else if s = ''bool'' then DT_BOOL else if s = ''int64'' then DT_INT64
           else if s = ''uint64'' then DT_UINT64 else if s = ''float64'' then DT_FLOAT64
           else if s = ''bcd16'' then DT_BCD16 else if s = ''bitfield16'' then DT_BITFIELD16
           else if s = ''ascii'' then DT_ASCII else DT_UINT16))"

definition parse_semantic_source :: "string option \<Rightarrow> semantic_source" where
  "parse_semantic_source v =
     (if v = Some ''profile'' then SEMANTIC_SOURCE_PROFILE else if v = Some ''user'' then SEMANTIC_SOURCE_USER
      else if v = Some ''discovery'' then SEMANTIC_SOURCE_DISCOVERY
      else if v = Some ''imported'' then SEMANTIC_SOURCE_IMPORTED else SEMANTIC_SOURCE_UNRESOLVED)"

definition parse_semantic_status :: "string option \<Rightarrow> semantic_status" where
  "parse_semantic_status v =
     (if v = Some ''inferred'' then SEMANTIC_STATUS_INFERRED else if v = Some ''resolved'' then SEMANTIC_STATUS_RESOLVED
      else if v = Some ''verified'' then SEMANTIC_STATUS_VERIFIED
      else if v = Some ''conflict'' then SEMANTIC_STATUS_CONFLICT else SEMANTIC_STATUS_UNRESOLVED)"

definition parse_byte_order :: "string option \<Rightarrow> byte_order" where
  "parse_byte_order v =
     (if v = Some ''CDAB'' then BYTE_ORDER_CDAB else if v = Some ''BADC'' then BYTE_ORDER_BADC
      else if v = Some ''DCBA'' then BYTE_ORDER_DCBA else BYTE_ORDER_ABCD)"

section \<open>Sequence numbers\<close>

text \<open>\<open>tq_stored\<close> is the value of \<open>seq_reserved\<close> in NVS.\<close>

record tcm_state =
  tq_counter :: u32
  tq_reserved_to :: u32
  tq_context_counter :: u32
  tq_stored :: "u32 option"

abbreviation TCM_SEQUENCE_RESERVATION :: u32 where "TCM_SEQUENCE_RESERVATION \<equiv> 32"

text \<open>\<open>ok\<close>: the namespace could be opened and the value set; the failure is ignored.\<close>

definition persist_sequence :: "bool \<Rightarrow> u32 \<Rightarrow> tcm_state \<Rightarrow> tcm_state" where
  "persist_sequence ok reserved_to s = (if ok then s\<lparr>tq_stored := Some reserved_to\<rparr> else s)"

definition next_sequence :: "bool \<Rightarrow> tcm_state \<Rightarrow> u32 \<times> tcm_state" where
  "next_sequence ok s =
     (let s = (if tq_counter s \<ge> tq_reserved_to s
               then let s = s\<lparr>tq_reserved_to := tq_reserved_to s + TCM_SEQUENCE_RESERVATION\<rparr>
                    in persist_sequence ok (tq_reserved_to s) s
               else s);
          value = tq_counter s + 1
      in (value, s\<lparr>tq_counter := value\<rparr>))"

text \<open>\<open>readable\<close>: the namespace could be opened for reading.\<close>

definition tcm_init :: "bool \<Rightarrow> bool \<Rightarrow> tcm_state \<Rightarrow> tcm_state" where
  "tcm_init readable ok s =
     (let reserved = (if readable then (case tq_stored s of Some v \<Rightarrow> v | None \<Rightarrow> 0) else 0);
          s = s\<lparr>tq_counter := reserved, tq_reserved_to := reserved + TCM_SEQUENCE_RESERVATION\<rparr>;
          s = persist_sequence ok (tq_reserved_to s) s
      in s\<lparr>tq_context_counter := 0\<rparr>)"

definition tcm_get_sequence_counter :: "tcm_state \<Rightarrow> u32" where
  "tcm_get_sequence_counter s = tq_counter s"

section \<open>Building and checking\<close>

text \<open>\<open>gettimeofday\<close> (seconds and microseconds) and the microseconds since boot.\<close>

record tcm_clock =
  ck_sec :: int
  ck_usec :: int
  ck_uptime_us :: int

definition current_time_ms :: "tcm_clock \<Rightarrow> ms" where
  "current_time_ms ck =
     (if ck_sec ck > 1609459200 then ck_sec ck * 1000 + ck_usec ck div 1000 else ck_uptime_us ck div 1000)"

definition object_of_code :: "u8 \<Rightarrow> object_type" where
  "object_of_code fc =
     (if fc = 1 then MODBUS_OBJECT_COIL else if fc = 2 then MODBUS_OBJECT_DISCRETE_INPUT
      else if fc = 3 then MODBUS_OBJECT_HOLDING_REGISTER else if fc = 4 then MODBUS_OBJECT_INPUT_REGISTER
      else MODBUS_OBJECT_NONE)"

definition zero_context :: tcm_context where
  "zero_context = \<lparr>c_tcm_version = [], c_gateway_id = [], c_channel_id = 0, c_context_id = 0, c_device_id = [],
     c_point_id = [], c_source_protocol = SRC_MODBUS_RTU, c_slave_id = 0, c_function_code = 0, c_register_address = 0,
     c_data_type = DT_INT16, c_measurement_name = [], c_unit = [], c_value = 0, c_raw_value = 0, c_value_text = [],
     c_scale_factor = 0, c_offset = 0, c_byte_order = BYTE_ORDER_ABCD, c_timestamp_ms = 0,
     c_quality_state = QUALITY_GOOD, c_network_state = NET_ONLINE, c_operation_type = OP_READ_PUBLISH,
     c_constraint = \<lparr>writable = False, valid_range_min = 0, valid_range_max = 0\<rparr>, c_sequence_id = 0,
     c_mapping_version = 0, c_gateway_property_key = [], c_object_type = MODBUS_OBJECT_NONE,
     c_semantic_source = SEMANTIC_SOURCE_UNRESOLVED, c_semantic_status = SEMANTIC_STATUS_UNRESOLVED,
     c_semantic_profile_id = [], c_semantic_profile_version = 0, c_semantic_confidence = 0, c_semantic_evidence = [],
     c_timestamp_synchronized = False, c_validated = False\<rparr>"

text \<open>\<open>None\<close> is the result -1.\<close>

definition tcm_build_context ::
  "runtime_config \<Rightarrow> tcm_clock \<Rightarrow> bool \<Rightarrow> u8 \<Rightarrow> u8 \<Rightarrow> u16 \<Rightarrow> f64 \<Rightarrow> quality_state \<Rightarrow> network_state \<Rightarrow> tcm_state
    \<Rightarrow> tcm_context option \<times> tcm_state" where
  "tcm_build_context config clock ok slave fc addr raw quality net s =
     (if slave = 0 \<or> fc < 1 \<or> fc > 4 then (None, s)
      else
        let s = s\<lparr>tq_context_counter := tq_context_counter s + 1\<rparr>;
            point = strlcpy 32 (''reg_'' @ dec (unat addr));
            now = current_time_ms clock;
            (sequence, t) = next_sequence ok s
        in (Some (zero_context\<lparr>c_tcm_version := strlcpy 8 ''1.1'',
               c_gateway_id := strlcpy 48 (rc_gateway_id config),
               c_context_id := tq_context_counter s,
               c_device_id := strlcpy 32 (''modbus_'' @ dec (unat slave)),
               c_point_id := point,
               c_measurement_name := strlcpy 32 point,
               c_slave_id := slave,
               c_function_code := fc,
               c_object_type := object_of_code fc,
               c_register_address := addr,
               c_data_type := DT_UINT16,
               c_raw_value := raw,
               c_scale_factor := 0x3F800000,
               c_value := raw,
               c_timestamp_ms := now,
               c_timestamp_synchronized := now > 1609459200000,
               c_quality_state := quality,
               c_network_state := net,
               c_sequence_id := sequence\<rparr>), t))"

record tcm_validation =
  tv_passed :: bool
  tv_mask :: u32
  tv_reason :: string

text \<open>
  The checks of the data type and the operation compare with the last constructor, which no
  value of the enumerations exceeds.
\<close>

definition failed_fields :: "tcm_context \<Rightarrow> u32" where
  "failed_fields c =
     (if c_device_id c = [] then 2 else 0) OR (if c_point_id c = [] then 4 else 0) OR
     (if c_slave_id c = 0 \<or> c_slave_id c > 247 then 16 else 0) OR
     (if c_function_code c \<notin> {1, 2, 3, 4, 5, 6, 15, 16} then 32 else 0)"

definition tcm_validate :: "tcm_context option \<Rightarrow> bool \<times> tcm_validation" where
  "tcm_validate ctx =
     (case ctx of
        None \<Rightarrow> (False, \<lparr>tv_passed = False, tv_mask = 0, tv_reason = ''null context''\<rparr>)
      | Some c \<Rightarrow>
          (let mask = failed_fields c; passed = (mask = 0)
           in (passed, \<lparr>tv_passed = passed, tv_mask = mask,
                 tv_reason = (if passed then []
                   else ''TCM schema validation failed (mask=0x'' @ hex False 8 (unat mask) @ '')'')\<rparr>)))"

definition tcm_update_network_state :: "tcm_context option \<Rightarrow> network_state \<Rightarrow> tcm_context option" where
  "tcm_update_network_state ctx net = map_option (\<lambda>c. c\<lparr>c_network_state := net\<rparr>) ctx"

section \<open>JSON\<close>

datatype json = JStr string | JNum f64 | JBool bool | JNull | JArr "json list" | JObj "(string \<times> json) list"

definition json_item :: "string \<Rightarrow> json \<Rightarrow> json option" where
  "json_item name j = (case j of JObj fs \<Rightarrow> map_of fs name | _ \<Rightarrow> None)"

text \<open>\<open>cJSON\<close> also finds, and deletes, the first item whose name is the same up to the case of its letters.\<close>

definition lower_char :: "char \<Rightarrow> char" where
  "lower_char c = (let k = of_char c :: nat in if 65 \<le> k \<and> k \<le> 90 then char_of (k + 32) else c)"

definition same_name :: "string \<Rightarrow> string \<Rightarrow> bool" where
  "same_name a b \<longleftrightarrow> map lower_char a = map lower_char b"

definition find_item :: "string \<Rightarrow> (string \<times> json) list \<Rightarrow> nat option" where
  "find_item name fs = find_slot (\<lambda>(k, _). same_name k name) fs"

definition delete_item :: "string \<Rightarrow> (string \<times> json) list \<Rightarrow> (string \<times> json) list" where
  "delete_item name fs = (case find_item name fs of None \<Rightarrow> fs | Some i \<Rightarrow> take i fs @ drop (Suc i) fs)"

definition cjson_item :: "string \<Rightarrow> json \<Rightarrow> json option" where
  "cjson_item name j =
     (case j of JObj fs \<Rightarrow> (case find_item name fs of Some i \<Rightarrow> Some (snd (fs ! i)) | None \<Rightarrow> None) | _ \<Rightarrow> None)"

text \<open>The \<open>valueint\<close> of a number is its integer part, kept within the range of \<open>int\<close>.\<close>

definition value_int :: "f64 \<Rightarrow> int" where
  "value_int x =
     (case f64_get x of
        FFin sg m e \<Rightarrow>
          (let v = signed sg (if 0 \<le> e then m * 2 ^ nat e else m div 2 ^ nat (- e))
           in max (- (2 ^ 31)) (min (2 ^ 31 - 1) v))
      | FInf sg \<Rightarrow> (if sg then - (2 ^ 31) else 2 ^ 31 - 1)
      | FNaN \<Rightarrow> 0)"

text \<open>The number of a 32-bit or narrower unsigned field, and of a float field.\<close>

definition jnat :: "nat \<Rightarrow> json" where "jnat n = JNum (f64_of_int (int n))"
definition jfloat :: "f32 \<Rightarrow> json" where "jfloat x = JNum (f64_of_f32 x)"

definition object_code :: "object_type \<Rightarrow> nat" where
  "object_code t =
     (case t of MODBUS_OBJECT_NONE \<Rightarrow> 0 | MODBUS_OBJECT_COIL \<Rightarrow> 1 | MODBUS_OBJECT_DISCRETE_INPUT \<Rightarrow> 2
      | MODBUS_OBJECT_HOLDING_REGISTER \<Rightarrow> 3 | MODBUS_OBJECT_INPUT_REGISTER \<Rightarrow> 4)"

definition context_json :: "tcm_context \<Rightarrow> json" where
  "context_json c = JObj
     ([(''tcm_version'', JStr (c_tcm_version c)),
       (''gateway_id'', JStr (c_gateway_id c)),
       (''context_id'', jnat (unat (c_context_id c))),
       (''sequence_id'', jnat (unat (c_sequence_id c))),
       (''mapping_version'', jnat (unat (c_mapping_version c))),
       (''device_id'', JStr (c_device_id c)),
       (''point_id'', JStr (c_point_id c)),
       (''source_protocol'', JStr (protocol_string (c_source_protocol c))),
       (''channel_id'', jnat (unat (c_channel_id c))),
       (''slave_id'', jnat (unat (c_slave_id c))),
       (''function_code'', jnat (unat (c_function_code c))),
       (''register_address'', jnat (unat (c_register_address c))),
       (''data_type'', JStr (data_type_string (c_data_type c))),
       (''object_type'', jnat (object_code (c_object_type c))),
       (''byte_order'', JStr (byte_order_string (c_byte_order c))),
       (''measurement_name'', JStr (c_measurement_name c)),
       (''unit'', JStr (c_unit c)),
       (''raw_value'', JNum (c_raw_value c)),
       (''scale_factor'', jfloat (c_scale_factor c)),
       (''offset'', jfloat (c_offset c)),
       (''value'', JNum (c_value c))] @
      (if c_value_text c \<noteq> [] then [(''value_text'', JStr (c_value_text c))] else []) @
      [(''timestamp_ms'', JNum (f64_of_int (c_timestamp_ms c))),
       (''quality_state'', JStr (quality_string (c_quality_state c))),
       (''network_state'', JStr (network_string (c_network_state c))),
       (''operation_type'', JStr (operation_string (c_operation_type c))),
       (''semantic_source'', JStr (semantic_source_string (c_semantic_source c))),
       (''semantic_status'', JStr (semantic_status_string (c_semantic_status c))),
       (''semantic_profile_id'', JStr (c_semantic_profile_id c)),
       (''semantic_profile_version'', jnat (unat (c_semantic_profile_version c))),
       (''semantic_confidence'', jnat (unat (c_semantic_confidence c))),
       (''semantic_evidence'', JStr (c_semantic_evidence c)),
       (''timestamp_synchronized'', JBool (c_timestamp_synchronized c)),
       (''control_constraint'', JObj
         [(''writable'', JBool (writable (c_constraint c))),
          (''min'', jfloat (valid_range_min (c_constraint c))),
          (''max'', jfloat (valid_range_max (c_constraint c)))])])"

text \<open>
  \<open>print\<close> is cJSON's printing into a buffer of the given size, \<open>None\<close> when it fails; the
  result is the text and its length, or -1.
\<close>

definition tcm_serialize_json :: "(json \<Rightarrow> nat \<Rightarrow> string option) \<Rightarrow> bool \<Rightarrow> tcm_context \<Rightarrow> nat \<Rightarrow> string option \<times> int" where
  "tcm_serialize_json print alloc c buf_size =
     (if buf_size = 0 \<or> \<not> alloc then (None, -1)
      else case print (context_json c) buf_size of
        Some text \<Rightarrow> (Some text, int (length text))
      | None \<Rightarrow> (None, -1))"

section \<open>Reading it back\<close>

text \<open>The C conversion of a double to an integer type: truncation; out of range it is \<open>ub\<close>.\<close>

definition f64_trunc :: "f64 \<Rightarrow> int option" where
  "f64_trunc x =
     (case f64_get x of
        FFin s m e \<Rightarrow> Some (signed s (if 0 \<le> e then m * 2 ^ nat e else m div 2 ^ nat (- e)))
      | _ \<Rightarrow> None)"

definition conv :: "(f64 \<Rightarrow> int) \<Rightarrow> int \<Rightarrow> int \<Rightarrow> f64 \<Rightarrow> int" where
  "conv ub lo hi x = (case f64_trunc x of Some z \<Rightarrow> if lo \<le> z \<and> z < hi then z else ub x | None \<Rightarrow> ub x)"

definition get_str :: "json \<Rightarrow> string \<Rightarrow> nat \<Rightarrow> string \<Rightarrow> string" where
  "get_str root name n old = (case json_item name root of Some (JStr s) \<Rightarrow> strlcpy n s | _ \<Rightarrow> old)"

definition get_num :: "json \<Rightarrow> string \<Rightarrow> (f64 \<Rightarrow> 'a) \<Rightarrow> 'a \<Rightarrow> 'a" where
  "get_num root name f old = (case json_item name root of Some (JNum x) \<Rightarrow> f x | _ \<Rightarrow> old)"

definition get_text :: "json \<Rightarrow> string \<Rightarrow> string option" where
  "get_text root name = (case json_item name root of Some (JStr s) \<Rightarrow> Some s | _ \<Rightarrow> None)"

text \<open>A number that is no object type leaves the field at an invalid value, here \<open>MODBUS_OBJECT_NONE\<close>.\<close>

definition object_of_number :: "int \<Rightarrow> object_type" where
  "object_of_number n = (if 1 \<le> n \<and> n \<le> 4 then object_of_code (word_of_int n) else MODBUS_OBJECT_NONE)"

definition context_of_json :: "(f64 \<Rightarrow> int) \<Rightarrow> json \<Rightarrow> tcm_context" where
  "context_of_json ub root =
     (let u8 = (\<lambda>x. word_of_int (conv ub 0 256 x)); u16 = (\<lambda>x. word_of_int (conv ub 0 65536 x));
          u32 = (\<lambda>x. word_of_int (conv ub 0 (2 ^ 32) x));
          limits = (case json_item ''control_constraint'' root of
              Some (JObj fs) \<Rightarrow>
                \<lparr>writable = (json_item ''writable'' (JObj fs) = Some (JBool True)),
                 valid_range_min = get_num (JObj fs) ''min'' f32_of_f64 0,
                 valid_range_max = get_num (JObj fs) ''max'' f32_of_f64 0\<rparr>
            | _ \<Rightarrow> \<lparr>writable = False, valid_range_min = 0, valid_range_max = 0\<rparr>)
      in zero_context\<lparr>c_tcm_version := get_str root ''tcm_version'' 8 ''1.1'',
           c_gateway_id := get_str root ''gateway_id'' 48 [],
           c_device_id := get_str root ''device_id'' 32 [],
           c_point_id := get_str root ''point_id'' 32 [],
           c_measurement_name := get_str root ''measurement_name'' 32 [],
           c_unit := get_str root ''unit'' 16 [],
           c_value_text := get_str root ''value_text'' 32 [],
           c_semantic_profile_id := get_str root ''semantic_profile_id'' 32 [],
           c_semantic_evidence := get_str root ''semantic_evidence'' 48 [],
           c_context_id := get_num root ''context_id'' u32 0,
           c_sequence_id := get_num root ''sequence_id'' u32 0,
           c_mapping_version := get_num root ''mapping_version'' u32 0,
           c_channel_id := get_num root ''channel_id'' u8 0,
           c_slave_id := get_num root ''slave_id'' u8 0,
           c_function_code := get_num root ''function_code'' u8 0,
           c_register_address := get_num root ''register_address'' u16 0,
           c_timestamp_ms := get_num root ''timestamp_ms'' (conv ub (- (2 ^ 63)) (2 ^ 63)) 0,
           c_object_type := get_num root ''object_type'' (\<lambda>x. object_of_number (conv ub 0 (2 ^ 32) x)) MODBUS_OBJECT_NONE,
           c_semantic_profile_version := get_num root ''semantic_profile_version'' u32 0,
           c_semantic_confidence := get_num root ''semantic_confidence'' u8 0,
           c_value := get_num root ''value'' (\<lambda>x. x) 0,
           c_raw_value := get_num root ''raw_value'' (\<lambda>x. x) 0,
           c_scale_factor := get_num root ''scale_factor'' f32_of_f64 0x3F800000,
           c_offset := get_num root ''offset'' f32_of_f64 0,
           c_source_protocol := (if get_text root ''source_protocol'' = Some ''MODBUS_TCP'' then SRC_MODBUS_TCP else SRC_MODBUS_RTU),
           c_data_type := parse_data_type (get_text root ''data_type''),
           c_byte_order := parse_byte_order (get_text root ''byte_order''),
           c_semantic_source := parse_semantic_source (get_text root ''semantic_source''),
           c_semantic_status := parse_semantic_status (get_text root ''semantic_status''),
           c_timestamp_synchronized := (json_item ''timestamp_synchronized'' root = Some (JBool True)),
           c_operation_type := (if get_text root ''operation_type'' = Some ''write'' then OP_WRITE else OP_READ_PUBLISH),
           c_constraint := limits\<rparr>)"

text \<open>\<open>parse\<close> is cJSON's parser, \<open>None\<close> when it fails; the result \<open>None\<close> is -1.\<close>

definition tcm_deserialize_json :: "(f64 \<Rightarrow> int) \<Rightarrow> (string \<Rightarrow> json option) \<Rightarrow> string option \<Rightarrow> tcm_context option" where
  "tcm_deserialize_json ub parse text =
     (case text of None \<Rightarrow> None | Some t \<Rightarrow> map_option (context_of_json ub) (parse t))"


section \<open>Lemmas\<close>

lemma f64_trunc_int [simp]: "\<bar>z\<bar> < 2 ^ 53 \<Longrightarrow> f64_trunc (f64_of_int z) = Some z"
proof (cases "z = 0")
  case True
  then show ?thesis by (simp add: f64_trunc_def signed_def)
next
  case False
  assume "\<bar>z\<bar> < 2 ^ 53"
  then obtain k where "f64_get (f64_of_int z) = FFin (z < 0) (nat \<bar>z\<bar> * 2 ^ k) (- int k)"
    using f64_of_int_get False by blast
  then show ?thesis by (cases "k = 0") (auto simp: f64_trunc_def signed_def)
qed

lemma conv_int [simp]: "lo \<le> z \<Longrightarrow> z < hi \<Longrightarrow> \<bar>z\<bar> < 2 ^ 53 \<Longrightarrow> conv ub lo hi (f64_of_int z) = z"
  by (simp add: conv_def)

lemma conv_word:
  "word_of_int (conv ub 0 256 (f64_of_int (uint (a :: u8)))) = a"
  "word_of_int (conv ub 0 65536 (f64_of_int (uint (b :: u16)))) = b"
  "word_of_int (conv ub 0 4294967296 (f64_of_int (uint (d :: u32)))) = d"
  using unsigned_less [of a, where 'a = int] unsigned_less [of b, where 'a = int]
    unsigned_less [of d, where 'a = int] by simp_all

lemma conv_zero [simp]: "lo \<le> 0 \<Longrightarrow> 0 < hi \<Longrightarrow> conv ub lo hi 0 = 0"
  using conv_int [of lo 0 hi ub] by simp

lemma conv_time: "\<bar>z\<bar> < 9007199254740992 \<Longrightarrow> conv ub (- 9223372036854775808) 9223372036854775808 (f64_of_int z) = z"
  by (rule conv_int) simp_all

lemma not_tcp: "(if p = SRC_MODBUS_TCP then SRC_MODBUS_TCP else SRC_MODBUS_RTU) = p"
  by (cases p) simp_all

lemma object_roundtrip: "object_of_number (conv ub 0 4294967296 (f64_of_int (int (object_code t)))) = t"
  by (cases t) (simp_all add: object_code_def object_of_number_def object_of_code_def)

lemma data_type_roundtrip [simp]: "parse_data_type (Some (data_type_string dt)) = dt"
  by (cases dt) (simp_all add: parse_data_type_def data_type_string_def)

lemma byte_order_roundtrip [simp]: "parse_byte_order (Some (byte_order_string b)) = b"
  by (cases b) (simp_all add: parse_byte_order_def byte_order_string_def)

lemma source_roundtrip [simp]: "parse_semantic_source (Some (semantic_source_string src)) = src"
  by (cases src) (simp_all add: parse_semantic_source_def semantic_source_string_def)

lemma status_roundtrip [simp]: "parse_semantic_status (Some (semantic_status_string st)) = st"
  by (cases st) (simp_all add: parse_semantic_status_def semantic_status_string_def)

lemma protocol_roundtrip [simp]: "protocol_string p = ''MODBUS_TCP'' \<longleftrightarrow> p = SRC_MODBUS_TCP"
  by (cases p) (simp_all add: protocol_string_def)

lemma operation_roundtrip [simp]: "operation_string op = ''write'' \<longleftrightarrow> op = OP_WRITE"
  by (cases op) (simp_all add: operation_string_def)

text \<open>The fields of the printed object, in two groups around the optional text.\<close>

lemma context_items:
  "json_item ''tcm_version'' (context_json c) = Some (JStr (c_tcm_version c))"
  "json_item ''gateway_id'' (context_json c) = Some (JStr (c_gateway_id c))"
  "json_item ''context_id'' (context_json c) = Some (jnat (unat (c_context_id c)))"
  "json_item ''sequence_id'' (context_json c) = Some (jnat (unat (c_sequence_id c)))"
  "json_item ''mapping_version'' (context_json c) = Some (jnat (unat (c_mapping_version c)))"
  "json_item ''device_id'' (context_json c) = Some (JStr (c_device_id c))"
  "json_item ''point_id'' (context_json c) = Some (JStr (c_point_id c))"
  "json_item ''source_protocol'' (context_json c) = Some (JStr (protocol_string (c_source_protocol c)))"
  "json_item ''channel_id'' (context_json c) = Some (jnat (unat (c_channel_id c)))"
  "json_item ''slave_id'' (context_json c) = Some (jnat (unat (c_slave_id c)))"
  "json_item ''function_code'' (context_json c) = Some (jnat (unat (c_function_code c)))"
  "json_item ''register_address'' (context_json c) = Some (jnat (unat (c_register_address c)))"
  "json_item ''data_type'' (context_json c) = Some (JStr (data_type_string (c_data_type c)))"
  "json_item ''object_type'' (context_json c) = Some (jnat (object_code (c_object_type c)))"
  "json_item ''byte_order'' (context_json c) = Some (JStr (byte_order_string (c_byte_order c)))"
  "json_item ''measurement_name'' (context_json c) = Some (JStr (c_measurement_name c))"
  "json_item ''unit'' (context_json c) = Some (JStr (c_unit c))"
  "json_item ''raw_value'' (context_json c) = Some (JNum (c_raw_value c))"
  "json_item ''scale_factor'' (context_json c) = Some (jfloat (c_scale_factor c))"
  "json_item ''offset'' (context_json c) = Some (jfloat (c_offset c))"
  "json_item ''value'' (context_json c) = Some (JNum (c_value c))"
  "json_item ''value_text'' (context_json c) = (if c_value_text c \<noteq> [] then Some (JStr (c_value_text c)) else None)"
  by (simp_all add: json_item_def context_json_def map_add_def)

lemma context_items_tail:
  "json_item ''timestamp_ms'' (context_json c) = Some (JNum (f64_of_int (c_timestamp_ms c)))"
  "json_item ''operation_type'' (context_json c) = Some (JStr (operation_string (c_operation_type c)))"
  "json_item ''semantic_source'' (context_json c) = Some (JStr (semantic_source_string (c_semantic_source c)))"
  "json_item ''semantic_status'' (context_json c) = Some (JStr (semantic_status_string (c_semantic_status c)))"
  "json_item ''semantic_profile_id'' (context_json c) = Some (JStr (c_semantic_profile_id c))"
  "json_item ''semantic_profile_version'' (context_json c) = Some (jnat (unat (c_semantic_profile_version c)))"
  "json_item ''semantic_confidence'' (context_json c) = Some (jnat (unat (c_semantic_confidence c)))"
  "json_item ''semantic_evidence'' (context_json c) = Some (JStr (c_semantic_evidence c))"
  "json_item ''timestamp_synchronized'' (context_json c) = Some (JBool (c_timestamp_synchronized c))"
  "json_item ''control_constraint'' (context_json c) = Some (JObj
         [(''writable'', JBool (writable (c_constraint c))),
          (''min'', jfloat (valid_range_min (c_constraint c))),
          (''max'', jfloat (valid_range_max (c_constraint c)))])"
  by (simp_all add: json_item_def context_json_def map_add_def)

text \<open>A context as the C structure holds it: its strings fit, its time is exact in a double.\<close>

definition context_fits :: "tcm_context \<Rightarrow> bool" where
  "context_fits c \<longleftrightarrow> length (c_tcm_version c) < 8 \<and> length (c_gateway_id c) < 48 \<and> length (c_device_id c) < 32 \<and>
     length (c_point_id c) < 32 \<and> length (c_measurement_name c) < 32 \<and> length (c_unit c) < 16 \<and>
     length (c_value_text c) < 32 \<and> length (c_semantic_profile_id c) < 32 \<and> length (c_semantic_evidence c) < 48 \<and>
     \<bar>c_timestamp_ms c\<bar> < 2 ^ 53 \<and> f32_get (c_scale_factor c) \<noteq> FNaN \<and> f32_get (c_offset c) \<noteq> FNaN \<and>
     f32_get (valid_range_min (c_constraint c)) \<noteq> FNaN \<and> f32_get (valid_range_max (c_constraint c)) \<noteq> FNaN"

lemmas json_get = get_str_def get_num_def get_text_def jnat_def jfloat_def

lemma constraint_roundtrip:
  assumes "f32_get (valid_range_min k) \<noteq> FNaN" "f32_get (valid_range_max k) \<noteq> FNaN"
  shows "\<lparr>writable = (json_item ''writable'' (JObj [(''writable'', JBool (writable k)), (''min'', jfloat (valid_range_min k)), (''max'', jfloat (valid_range_max k))]) = Some (JBool True)),
     valid_range_min = get_num (JObj [(''writable'', JBool (writable k)), (''min'', jfloat (valid_range_min k)), (''max'', jfloat (valid_range_max k))]) ''min'' f32_of_f64 0,
     valid_range_max = get_num (JObj [(''writable'', JBool (writable k)), (''min'', jfloat (valid_range_min k)), (''max'', jfloat (valid_range_max k))]) ''max'' f32_of_f64 0\<rparr> = k"
  using assms by (cases k) (simp add: json_item_def json_get f32_of_f64_of_f32)

lemma context_of_context_json:
  assumes "context_fits c"
  shows "context_of_json ub (context_json c) =
    c\<lparr>c_quality_state := QUALITY_GOOD, c_network_state := NET_ONLINE,
      c_operation_type := (if c_operation_type c = OP_WRITE then OP_WRITE else OP_READ_PUBLISH),
      c_gateway_property_key := [], c_validated := False\<rparr>"
  using assms constraint_roundtrip [of "c_constraint c"]
  by (cases c) (simp add: context_of_json_def context_items context_items_tail json_get context_fits_def
      conv_word conv_time not_tcp object_roundtrip f32_of_f64_of_f32 zero_context_def)

section \<open>Sequence numbers over restarts\<close>

datatype seq_event = NextSequence bool | Restart bool bool

text \<open>One event gives the numbers it issues and the next state.\<close>

definition seq_step :: "seq_event \<Rightarrow> tcm_state \<Rightarrow> u32 list \<times> tcm_state" where
  "seq_step e s =
     (case e of NextSequence ok \<Rightarrow> (let (v, t) = next_sequence ok s in ([v], t))
      | Restart readable ok \<Rightarrow> ([], tcm_init readable ok s))"

fun seq_run :: "seq_event list \<Rightarrow> tcm_state \<Rightarrow> u32 list \<times> tcm_state" where
  "seq_run [] s = ([], s)"
| "seq_run (e # es) s = (let (vs, t) = seq_step e s; (ws, u) = seq_run es t in (vs @ ws, u))"

definition seq_ok :: "seq_event \<Rightarrow> bool" where
  "seq_ok e = (case e of NextSequence ok \<Rightarrow> ok | Restart readable ok \<Rightarrow> readable \<and> ok)"

definition seq_inv :: "tcm_state \<Rightarrow> bool" where
  "seq_inv s \<longleftrightarrow> tq_stored s = Some (tq_reserved_to s) \<and> tq_counter s \<le> tq_reserved_to s"

lemma seq_step_keeps:
  assumes "seq_inv s" "seq_ok e" "unat (tq_reserved_to s) + 32 < 2 ^ 32"
  shows "seq_inv (snd (seq_step e s)) \<and> tq_counter s \<le> tq_counter (snd (seq_step e s)) \<and>
    unat (tq_reserved_to (snd (seq_step e s))) \<le> unat (tq_reserved_to s) + 32 \<and>
    (\<forall>v \<in> set (fst (seq_step e s)). tq_counter s < v \<and> v \<le> tq_counter (snd (seq_step e s))) \<and>
    sorted_wrt (<) (fst (seq_step e s))"
proof -
  have r: "unat (tq_reserved_to s + 32) = unat (tq_reserved_to s) + 32"
    using assms(3) by (simp add: unat_word_ariths)
  have c: "unat (tq_counter s + 1) = unat (tq_counter s) + 1"
    using assms(1,3) unfolding seq_inv_def by (simp add: unat_word_ariths word_le_nat_alt)
  show ?thesis
  proof (cases e)
    case (NextSequence ok)
    then show ?thesis using assms r c
      by (simp add: seq_step_def seq_ok_def next_sequence_def persist_sequence_def seq_inv_def Let_def
          word_le_nat_alt word_less_nat_alt split_beta)
  next
    case (Restart readable ok)
    then show ?thesis using assms r
      by (simp add: seq_step_def seq_ok_def tcm_init_def persist_sequence_def seq_inv_def Let_def
          word_le_nat_alt word_less_nat_alt)
  qed
qed

lemma seq_run_increases:
  "seq_inv s \<Longrightarrow> list_all seq_ok es \<Longrightarrow> unat (tq_reserved_to s) + 32 * length es < 2 ^ 32 \<Longrightarrow>
   sorted_wrt (<) (fst (seq_run es s)) \<and> (\<forall>v \<in> set (fst (seq_run es s)). tq_counter s < v)"
proof (induction es arbitrary: s)
  case (Cons e es)
  obtain vs t where e: "seq_step e s = (vs, t)" by fastforce
  obtain ws u where r: "seq_run es t = (ws, u)" by fastforce
  have step: "seq_inv t" "tq_counter s \<le> tq_counter t" "unat (tq_reserved_to t) \<le> unat (tq_reserved_to s) + 32"
    "\<forall>v \<in> set vs. tq_counter s < v \<and> v \<le> tq_counter t" "sorted_wrt (<) vs"
    using seq_step_keeps [of s e] Cons.prems e by simp_all
  have "sorted_wrt (<) ws \<and> (\<forall>v \<in> set ws. tq_counter t < v)"
    using Cons.IH [of t] Cons.prems step(1,3) r by simp
  then show ?case using e r step by (fastforce simp: sorted_wrt_append)
qed simp

text \<open>
  C26. The sequence numbers the gateway issues increase strictly, over any mix of contexts built
  and restarts (which lose the counter in RAM), as long as NVS can be read and written and the
  32-bit numbers do not run out.
\<close>

theorem sequence_increases:
  assumes "seq_inv s" and "list_all seq_ok es" and "unat (tq_reserved_to s) + 32 * length es < 2 ^ 32"
  shows "sorted_wrt (<) (fst (seq_run es s))"
  using seq_run_increases [OF assms] by simp

theorem sequence_increases_witness:
  "sorted_wrt (<) (fst (seq_run [NextSequence True, Restart True True, NextSequence True]
     \<lparr>tq_counter = 5, tq_reserved_to = 32, tq_context_counter = 5, tq_stored = Some 32\<rparr>))"
  by (rule sequence_increases) (simp_all add: seq_inv_def seq_ok_def)

text \<open>
  When NVS cannot be written the failure goes unnoticed and the number issued after a
  restart is the one issued before it.
\<close>

theorem sequence_repeats:
  "fst (next_sequence False (tcm_init True False (snd (next_sequence False (tcm_init True False s)))))
     = fst (next_sequence False (tcm_init True False s))"
  by (simp add: next_sequence_def tcm_init_def persist_sequence_def Let_def)

section \<open>Properties of the records\<close>

lemma failed_fields_zero:
  "failed_fields c = 0 \<longleftrightarrow> c_device_id c \<noteq> [] \<and> c_point_id c \<noteq> [] \<and> c_slave_id c \<noteq> 0 \<and> c_slave_id c \<le> 247 \<and>
     c_function_code c \<in> {1, 2, 3, 4, 5, 6, 15, 16}"
  unfolding failed_fields_def by (auto simp: or_eq_0_iff not_less)

text \<open>
  C39. A context that can be built passes the schema check exactly when its slave address is a
  legal one, and it carries the reading, the next sequence number and the configured identity.
\<close>

theorem built_context_validates:
  assumes "tcm_build_context config clock ok slave fc addr raw quality net s = (Some c, t)"
  shows "fst (tcm_validate (Some c)) = (slave \<le> 247) \<and> c_raw_value c = raw \<and> c_value c = raw \<and>
    c_object_type c \<noteq> MODBUS_OBJECT_NONE \<and> (c_sequence_id c, t) = next_sequence ok
      (s\<lparr>tq_context_counter := tq_context_counter s + 1\<rparr>) \<and> c_gateway_id c = strlcpy 48 (rc_gateway_id config)"
proof -
  have g: "slave \<noteq> 0" "fc \<noteq> 0" "fc \<le> 4"
    using assms by (auto simp: tcm_build_context_def not_less split: if_splits)
  have fc: "fc = 1 \<or> fc = 2 \<or> fc = 3 \<or> fc = 4"
  proof -
    have "unat fc \<le> 4" "unat fc \<noteq> 0" using g(2,3) by (simp_all add: word_le_nat_alt unat_eq_zero)
    then have "unat fc = 1 \<or> unat fc = 2 \<or> unat fc = 3 \<or> unat fc = 4" by linarith
    then show ?thesis by (simp add: word_unat_eq_iff)
  qed
  obtain v u where n: "next_sequence ok (s\<lparr>tq_context_counter := tq_context_counter s + 1\<rparr>) = (v, u)"
    by fastforce
  show ?thesis using assms g fc n
    by (auto simp: tcm_build_context_def tcm_validate_def Let_def failed_fields_zero object_of_code_def
        zero_context_def strlcpy_def)
qed

text \<open>
  Reading a text that parses to the JSON document of a context gives the context back: every value, limit, address
  and name, except that the quality, the network state and the property key of the gateway are the defaults, every
  operation but a write is a read, and the context counts as not validated. The strings of the context fit its buffers,
  its time is exact in a double and its limits are numbers. (How cJSON prints the document is not part of the claim; a
  value that is not finite is printed as null and has no such text.)
\<close>

theorem json_roundtrip:
  assumes "context_fits c" "parse t = Some (context_json c)"
  shows "tcm_deserialize_json ub parse (Some t) = Some (c\<lparr>c_quality_state := QUALITY_GOOD,
    c_network_state := NET_ONLINE, c_operation_type := (if c_operation_type c = OP_WRITE then OP_WRITE else OP_READ_PUBLISH),
    c_gateway_property_key := [], c_validated := False\<rparr>)"
  using assms context_of_context_json by (simp add: tcm_deserialize_json_def)

definition stale_context :: tcm_context where
  "stale_context = zero_context\<lparr>c_tcm_version := ''1.1'', c_device_id := ''modbus_1'', c_point_id := ''reg_0'',
     c_slave_id := 1, c_function_code := 3, c_quality_state := QUALITY_STALE, c_network_state := NET_OFFLINE,
     c_gateway_property_key := ''temp''\<rparr>"

lemma stale_fits: "context_fits stale_context"
  by (simp add: context_fits_def stale_context_def zero_context_def f32_get_def fp_unpack_def)

theorem json_roundtrip_witness:
  "tcm_deserialize_json (\<lambda>_. 0) (\<lambda>t. if t = ''doc'' then Some (context_json stale_context) else None) (Some ''doc'') =
     Some (stale_context\<lparr>c_quality_state := QUALITY_GOOD, c_network_state := NET_ONLINE,
       c_operation_type := (if c_operation_type stale_context = OP_WRITE then OP_WRITE else OP_READ_PUBLISH),
       c_gateway_property_key := [], c_validated := False\<rparr>)"
  by (rule json_roundtrip) (simp_all add: stale_fits)

theorem built_context_validates_witness:
  "let (c, t) = tcm_build_context load_defaults \<lparr>ck_sec = 1700000000, ck_usec = 0, ck_uptime_us = 0\<rparr> True 250 3 100 0
       QUALITY_GOOD NET_ONLINE \<lparr>tq_counter = 5, tq_reserved_to = 32, tq_context_counter = 5, tq_stored = Some 32\<rparr>
   in \<exists>d. c = Some d \<and> fst (tcm_validate (Some d)) = ((250 :: u8) \<le> 247)"
  using built_context_validates [of load_defaults "\<lparr>ck_sec = 1700000000, ck_usec = 0, ck_uptime_us = 0\<rparr>" True 250 3 100 0
       QUALITY_GOOD NET_ONLINE "\<lparr>tq_counter = 5, tq_reserved_to = 32, tq_context_counter = 5, tq_stored = Some 32\<rparr>"]
  by (auto simp: tcm_build_context_def Let_def split: prod.splits)

end
