(* ===== verification/Uif_Replay.thy ===== *)
theory Uif_Replay
  imports Offline_Store Tcm_Context Amm_Semantics Eval_Log
begin

text \<open>
  The durable layer over the record store (\<open>uif/uif_persistence.c\<close>): caching a context while the
  network is down, replaying the oldest record, and what a response, an acknowledgement, a
  timeout and a lost connection do to the one replay that may be in flight. The publication
  itself (ThingsCloud and MQTT) is an argument of a replay; the topics it uses and the handlers
  their responses reach are modelled, since the flag they carry decides whether a
  response counts.
\<close>

record uif_state =
  uf_initialized :: bool
  uf_outstanding :: bool
  uf_sequence :: u32
  uf_gateway_topic :: bool
  uf_sent_ms :: ms
  uf_retry_after_ms :: ms
  uf_store :: offline_store
  uf_eval :: eval_state

abbreviation UIF_CLOUD_RESPONSE_TIMEOUT_MS :: ms where "UIF_CLOUD_RESPONSE_TIMEOUT_MS \<equiv> 20000"
abbreviation UIF_CLOUD_REJECT_RETRY_MS :: ms where "UIF_CLOUD_REJECT_RETRY_MS \<equiv> 60000"
abbreviation UIF_CLOUD_PACING_RETRY_MS :: ms where "UIF_CLOUD_PACING_RETRY_MS \<equiv> 30000"

section \<open>Operations\<close>

definition remove_record :: "io_env \<Rightarrow> u32 \<Rightarrow> uif_state \<Rightarrow> uif_state \<times> esp_err" where
  "remove_record env seq u =
     (let (store, err) = offline_store_remove env seq (uf_store u) in (u\<lparr>uf_store := store\<rparr>, err))"

text \<open>The call back of an MQTT acknowledgement.\<close>

definition replay_acknowledged :: "io_env \<Rightarrow> u32 \<Rightarrow> uif_state \<Rightarrow> uif_state" where
  "replay_acknowledged env seq u =
     (let u = fst (remove_record env seq u)
      in if uf_sequence u = seq then u\<lparr>uf_outstanding := False, uf_sequence := 0, uf_sent_ms := 0\<rparr> else u)"

definition uif_init :: "start_env \<Rightarrow> uif_state \<Rightarrow> uif_state \<times> esp_err" where
  "uif_init env u =
     (if uf_initialized u then (u, ESP_OK)
      else
        let (store, err) = offline_store_init env (uf_store u); u = u\<lparr>uf_store := store\<rparr>
        in if err \<noteq> ESP_OK then (u, err) else (u\<lparr>uf_initialized := True\<rparr>, ESP_OK))"

text \<open>\<open>print\<close> and \<open>alloc\<close> are those of the serialisation; the configuration is read when no topic is mapped.\<close>

definition cache_topic :: "runtime_config \<Rightarrow> amm_state \<Rightarrow> tcm_context \<Rightarrow> string" where
  "cache_topic config amm c =
     (case amm_copy_mqtt_topic config (c_source_protocol c) (c_channel_id c) (c_slave_id c) (c_register_address c) 128 amm of
        (Some topic, ESP_OK) \<Rightarrow> topic
      | _ \<Rightarrow> strlcat 128 (strlcat 128 (strlcat 128 (strlcpy 128 (q_data_prefix (rc_mqtt config))) (c_device_id c)) ''/'')
               (c_point_id c))"

definition uif_cache_record ::
  "(json \<Rightarrow> nat \<Rightarrow> string option) \<Rightarrow> bool \<Rightarrow> runtime_config \<Rightarrow> amm_state \<Rightarrow> io_env \<Rightarrow> tcm_context option \<Rightarrow> uif_state
    \<Rightarrow> uif_state \<times> esp_err" where
  "uif_cache_record print alloc config amm env ctx u =
     (case ctx of
        None \<Rightarrow> (u, ESP_ERR_INVALID_STATE)
      | Some c \<Rightarrow>
          (if \<not> uf_initialized u then (u, ESP_ERR_INVALID_STATE)
           else case tcm_serialize_json print alloc c TCM_MAX_JSON_LEN of
               (Some payload, _) \<Rightarrow>
                 (let (store, err) = offline_store_put env (c_sequence_id c) (Some (cache_topic config amm c)) (Some payload)
                        (uf_store u)
                  in (u\<lparr>uf_store := store\<rparr>, err))
             | (None, _) \<Rightarrow> (u, ESP_FAIL)))"

definition uif_get_cached_count :: "bool \<Rightarrow> uif_state \<Rightarrow> int" where
  "uif_get_cached_count mounted u = offline_store_count mounted (uf_store u)"

text \<open>The sequence number and the payload of the entry; it is always pending.\<close>

definition uif_get_cached_record :: "io_env \<Rightarrow> int \<Rightarrow> uif_state \<Rightarrow> uif_state \<times> ((u32 \<times> string) + esp_err)" where
  "uif_get_cached_record env index u =
     (if index \<noteq> 0 then (u, Inr ESP_ERR_INVALID_ARG)
      else case offline_store_peek_oldest env (uf_store u) of
          (store, Inr e) \<Rightarrow> (u\<lparr>uf_store := store\<rparr>, Inr e)
        | (store, Inl r) \<Rightarrow> (u\<lparr>uf_store := store\<rparr>, Inl (or_sequence_id r, strlcpy TCM_MAX_JSON_LEN (or_payload r))))"

definition uif_mark_replayed :: "io_env \<Rightarrow> int \<Rightarrow> uif_state \<Rightarrow> uif_state \<times> esp_err" where
  "uif_mark_replayed env index u =
     (if index \<noteq> 0 then (u, ESP_ERR_INVALID_ARG)
      else case offline_store_peek_oldest env (uf_store u) of
          (store, Inr e) \<Rightarrow> (u\<lparr>uf_store := store\<rparr>, e)
        | (store, Inl r) \<Rightarrow> remove_record env (or_sequence_id r) (u\<lparr>uf_store := store\<rparr>))"

text \<open>
  What a replay finds: the connection and the time, the configuration, the file system, the JSON
  parser and the conversion of numbers, and how publishing the context or the message ends.
  What it sends is part of the result.
\<close>

datatype replay_send = SentContext tcm_context | SentMessage string string u32

record replay_env =
  re_connected :: bool
  re_now :: ms
  re_config :: runtime_config
  re_io :: io_env
  re_parse :: "string \<Rightarrow> json option"
  re_ub :: "f64 \<Rightarrow> int"
  re_send :: "tcm_context \<Rightarrow> esp_err"
  re_publish :: "string \<Rightarrow> string \<Rightarrow> u32 \<Rightarrow> esp_err"

text \<open>The tail of a replay, when nothing is in flight and the pause is over.\<close>

definition replay_next :: "replay_env \<Rightarrow> uif_state \<Rightarrow> uif_state \<times> esp_err \<times> replay_send option" where
  "replay_next env u =
     (case offline_store_peek_oldest (re_io env) (uf_store u) of
        (store, Inr e) \<Rightarrow> (u\<lparr>uf_store := store\<rparr>, if e = ESP_ERR_NOT_FOUND then ESP_OK else e, None)
      | (store, Inl r) \<Rightarrow>
          (let u = u\<lparr>uf_store := store\<rparr>; cfg = rc_mqtt (re_config env) in
           if q_platform_type cfg = MQTT_PLATFORM_THINGSCLOUD then
             (case tcm_deserialize_json (re_ub env) (re_parse env) (Some (or_payload r)) of
                None \<Rightarrow> (u, ESP_ERR_INVALID_RESPONSE, None)
              | Some ctx \<Rightarrow>
                  (let u = u\<lparr>uf_sequence := or_sequence_id r, uf_gateway_topic := (q_report_mode cfg = MQ_REPORT_GATEWAY),
                            uf_sent_ms := re_now env, uf_outstanding := True\<rparr>;
                       err = re_send env ctx
                   in if err \<noteq> ESP_OK
                      then (u\<lparr>uf_outstanding := False, uf_retry_after_ms := re_now env + UIF_CLOUD_PACING_RETRY_MS\<rparr>, err, None)
                      else (u, ESP_OK, Some (SentContext ctx))))
           else
             (let u = u\<lparr>uf_sequence := or_sequence_id r, uf_outstanding := True\<rparr>;
                  err = re_publish env (or_topic r) (or_payload r) (or_sequence_id r)
              in if err \<noteq> ESP_OK then (u\<lparr>uf_outstanding := False\<rparr>, err, None)
                 else (u, ESP_OK, Some (SentMessage (or_topic r) (or_payload r) (or_sequence_id r))))))"

definition uif_replay_all :: "replay_env \<Rightarrow> uif_state \<Rightarrow> uif_state \<times> esp_err \<times> replay_send option" where
  "uif_replay_all env u =
     (if \<not> uf_initialized u \<or> \<not> re_connected env then (u, ESP_ERR_INVALID_STATE, None)
      else if uf_outstanding u \<and> re_now env - uf_sent_ms u < UIF_CLOUD_RESPONSE_TIMEOUT_MS then (u, ESP_OK, None)
      else
        let u = (if uf_outstanding u
                 then u\<lparr>uf_outstanding := False, uf_retry_after_ms := re_now env + UIF_CLOUD_REJECT_RETRY_MS\<rparr> else u)
        in if re_now env < uf_retry_after_ms u then (u, ESP_ERR_TIMEOUT, None) else replay_next env u)"

definition uif_replay_connection_lost :: "uif_state \<Rightarrow> uif_state" where
  "uif_replay_connection_lost u = u\<lparr>uf_outstanding := False, uf_sequence := 0, uf_sent_ms := 0\<rparr>"

definition uif_replay_is_waiting_response :: "uif_state \<Rightarrow> bool" where
  "uif_replay_is_waiting_response u = uf_outstanding u"

definition non_retryable :: "int \<Rightarrow> bool" where
  "non_retryable code \<longleftrightarrow> code = 402 \<or> code = 406 \<or> code = 413"

definition uif_replay_cloud_response :: "io_env \<Rightarrow> bool \<Rightarrow> ms \<Rightarrow> bool \<Rightarrow> bool \<Rightarrow> int \<Rightarrow> uif_state \<Rightarrow> uif_state" where
  "uif_replay_cloud_response env metric now gateway_topic accepted code u =
     (if \<not> uf_outstanding u \<or> gateway_topic \<noteq> uf_gateway_topic u then u
      else
        let seq = uf_sequence u in
        if accepted then (replay_acknowledged env seq u)\<lparr>uf_retry_after_ms := 0\<rparr>
        else
          let u = u\<lparr>uf_outstanding := False, uf_sequence := 0, uf_sent_ms := 0\<rparr>;
              u = (if non_retryable code
                   then (let (u, err) = remove_record env seq u
                         in if err = ESP_OK
                            then u\<lparr>uf_eval := eval_increment_metric metric (Some ''data_loss_count'') 1 (uf_eval u)\<rparr> else u)
                   else u)
          in u\<lparr>uf_retry_after_ms := now + (if non_retryable code then 1000 else UIF_CLOUD_REJECT_RETRY_MS)\<rparr>)"

definition uif_destroy :: "uif_state \<Rightarrow> uif_state" where
  "uif_destroy u = u\<lparr>uf_initialized := False, uf_outstanding := False, uf_sequence := 0, uf_sent_ms := 0,
     uf_retry_after_ms := 0\<rparr>"

section \<open>The topics of a replay and its response\<close>

datatype cloud_topic = TC_TOPIC_ATTR | TC_TOPIC_GATEWAY_ATTR

text \<open>Where \<open>thingscloud_replay_context\<close> publishes, and the flag the handler of the topic's responses passes on.\<close>

definition replay_topic :: "mqtt_report_mode \<Rightarrow> cloud_topic" where
  "replay_topic mode = (if mode = MQ_REPORT_GATEWAY then TC_TOPIC_ATTR else TC_TOPIC_GATEWAY_ATTR)"

definition response_flag :: "cloud_topic \<Rightarrow> bool" where
  "response_flag topic = (case topic of TC_TOPIC_ATTR \<Rightarrow> False | TC_TOPIC_GATEWAY_ATTR \<Rightarrow> True)"

section \<open>Events\<close>

text \<open>
  What happens to the layer between two starts: a replay is tried, a response or an
  acknowledgement arrives, the connection goes down, a context is cached, the oldest record is
  read or marked as replayed, or the layer is shut down.
\<close>

datatype uif_event =
    Tick replay_env
  | Response io_env bool ms bool bool int
  | PubAck io_env u32
  | ConnectionLost
  | Cached "json \<Rightarrow> nat \<Rightarrow> string option" bool runtime_config amm_state io_env tcm_context
  | CacheRead io_env int
  | MarkReplayed io_env int
  | Destroyed

definition uif_step :: "uif_event \<Rightarrow> uif_state \<Rightarrow> uif_state" where
  "uif_step e u =
     (case e of
        Tick env \<Rightarrow> fst (uif_replay_all env u)
      | Response env metric now gateway accepted code \<Rightarrow> uif_replay_cloud_response env metric now gateway accepted code u
      | PubAck env seq \<Rightarrow> replay_acknowledged env seq u
      | ConnectionLost \<Rightarrow> uif_replay_connection_lost u
      | Cached print alloc config amm env c \<Rightarrow> fst (uif_cache_record print alloc config amm env (Some c) u)
      | CacheRead env index \<Rightarrow> fst (uif_get_cached_record env index u)
      | MarkReplayed env index \<Rightarrow> fst (uif_mark_replayed env index u)
      | Destroyed \<Rightarrow> uif_destroy u)"

definition uif_run :: "uif_event list \<Rightarrow> uif_state \<Rightarrow> uif_state" where
  "uif_run = fold uif_step"

section \<open>Lemmas\<close>

text \<open>
  An event that tells the layer the record \<open>k\<close> is done with; a call that caches a new record under
  the number \<open>k\<close>.
\<close>

definition settles :: "u32 \<Rightarrow> uif_state \<Rightarrow> uif_event \<Rightarrow> bool" where
  "settles k u e =
     (case e of
        Response _ _ _ gateway accepted code \<Rightarrow>
          uf_outstanding u \<and> gateway = uf_gateway_topic u \<and> uf_sequence u = k \<and> (accepted \<or> non_retryable code)
      | PubAck _ seq \<Rightarrow> seq = k
      | MarkReplayed env index \<Rightarrow>
          index = 0 \<and> (case snd (offline_store_peek_oldest env (uf_store u)) of Inl r \<Rightarrow> or_sequence_id r = k | Inr _ \<Rightarrow> False)
      | _ \<Rightarrow> False)"

definition caches :: "u32 \<Rightarrow> uif_event \<Rightarrow> bool" where
  "caches k e = (case e of Cached _ _ _ _ _ c \<Rightarrow> c_sequence_id c = k | _ \<Rightarrow> False)"

abbreviation cache_file :: "offline_medium \<Rightarrow> u32 \<Rightarrow> uif_state \<Rightarrow> string option" where
  "cache_file w k u \<equiv> file_of w k (uf_store u)"

lemma peek_store:
  "store_ok s \<Longrightarrow> io_good env \<Longrightarrow> fst (offline_store_peek_oldest env s) = s"
  using peek_effect [of s env] by (auto split: if_splits)

lemma tick_store:
  assumes "store_ok (uf_store u)" "io_good (re_io env)"
  shows "uf_store (fst (uif_replay_all env u)) = uf_store u"
proof -
  have "uf_store (fst (replay_next env v)) = uf_store u" if same: "uf_store v = uf_store u" for v
  proof -
    obtain r where "offline_store_peek_oldest (re_io env) (uf_store v) = (uf_store u, r)"
      using peek_store [OF assms] same by (metis prod.collapse)
    then show ?thesis
      by (cases r) (auto simp: replay_next_def Let_def split: option.splits)
  qed
  then show ?thesis by (simp add: uif_replay_all_def Let_def)
qed

lemma remove_record_files: "k \<noteq> seq \<Longrightarrow> cache_file w k (fst (remove_record env seq u)) = cache_file w k u"
  by (simp add: remove_record_def split_beta remove_keeps_files)

lemma acknowledged_files: "k \<noteq> seq \<Longrightarrow> cache_file w k (replay_acknowledged env seq u) = cache_file w k u"
  using remove_record_files [of k seq w env u] by (simp add: replay_acknowledged_def Let_def)

lemma peek_fst_files:
  "offline_store_peek_oldest env s = (t, r) \<Longrightarrow> file_of w k t = file_of w k s"
  using peek_keeps_files [of w k env s] by simp

lemma tick_files: "cache_file w k (fst (uif_replay_all env u)) = cache_file w k u"
  by (auto simp: uif_replay_all_def replay_next_def Let_def dest: peek_fst_files
      split: prod.split sum.split option.split)

lemma response_files:
  "\<not> settles k u (Response env metric now g acc code) \<Longrightarrow>
   cache_file w k (uif_replay_cloud_response env metric now g acc code u) = cache_file w k u"
  using acknowledged_files [of k "uf_sequence u" w env u]
    remove_record_files [of k "uf_sequence u" w env "u\<lparr>uf_outstanding := False, uf_sequence := 0, uf_sent_ms := 0\<rparr>"]
  by (auto simp: settles_def uif_replay_cloud_response_def Let_def split_beta)

text \<open>Caching a context: a file of another record only changes when a loss is counted.\<close>

lemma cached_files:
  assumes "c_sequence_id c \<noteq> k" "v = fst (uif_cache_record print alloc config amm env (Some c) u)"
    "\<not> os_loss (uf_store u) < os_loss (uf_store v)"
  shows "cache_file w k v = cache_file w k u"
proof (cases "uf_initialized u \<and> fst (tcm_serialize_json print alloc c TCM_MAX_JSON_LEN) \<noteq> None")
  case True
  then obtain payload where "uf_initialized u" "fst (tcm_serialize_json print alloc c TCM_MAX_JSON_LEN) = Some payload" by auto
  then have "uf_store v = fst (offline_store_put env (c_sequence_id c) (Some (cache_topic config amm c)) (Some payload) (uf_store u))"
    using assms(2) by (auto simp: uif_cache_record_def split: prod.split)
  then show ?thesis
    using put_keeps_files [of k "c_sequence_id c", OF not_sym [OF assms(1)]] assms(3) by (metis order_neq_le_trans prod.collapse)
next
  case False
  then have "v = u" using assms(2) by (auto simp: uif_cache_record_def split: prod.splits option.splits)
  then show ?thesis by simp
qed

lemma step_files:
  assumes "\<not> settles k u e" "\<not> caches k e" "\<not> os_loss (uf_store u) < os_loss (uf_store (uif_step e u))"
  shows "cache_file w k (uif_step e u) = cache_file w k u"
proof (cases e)
  case (Cached print alloc config amm env c)
  then show ?thesis using assms(2,3) cached_files by (simp add: uif_step_def caches_def)
next
  case (MarkReplayed env index)
  obtain t r where p: "offline_store_peek_oldest env (uf_store u) = (t, r)" by fastforce
  have "cache_file w k (fst (remove_record env (or_sequence_id x) (u\<lparr>uf_store := t\<rparr>))) = cache_file w k u"
    if "or_sequence_id x \<noteq> k" for x
    using that remove_record_files peek_fst_files [OF p] by simp
  then show ?thesis using MarkReplayed assms(1) p peek_fst_files [OF p]
    by (auto simp: uif_step_def uif_mark_replayed_def settles_def split: sum.split)
next
  case (CacheRead env index)
  then show ?thesis
    by (auto simp: uif_step_def uif_get_cached_record_def dest: peek_fst_files split: prod.split sum.split)
qed (use assms(1) in \<open>auto simp: uif_step_def uif_replay_connection_lost_def uif_destroy_def tick_files response_files
    acknowledged_files settles_def [of k u "PubAck _ _"]\<close>)

section \<open>Properties\<close>


section \<open>Draining the store\<close>

text \<open>
  Outside ThingsCloud: a replay, and the MQTT acknowledgement of the message it hands over, which
  carries the number of its record, before the next one.
\<close>

definition replay_round :: "replay_env \<Rightarrow> uif_state \<Rightarrow> replay_send option \<times> uif_state" where
  "replay_round env u =
     (let (v, _, sent) = uif_replay_all env u
      in (sent, case sent of Some (SentMessage _ _ seq) \<Rightarrow> replay_acknowledged (re_io env) seq v | _ \<Rightarrow> v))"

fun replay_rounds :: "replay_env \<Rightarrow> nat \<Rightarrow> uif_state \<Rightarrow> replay_send list \<times> uif_state" where
  "replay_rounds env 0 u = ([], u)"
| "replay_rounds env (Suc n) u =
     (case replay_round env u of
        (None, v) \<Rightarrow> ([], v)
      | (Some x, v) \<Rightarrow> (let (xs, w) = replay_rounds env n v in (x # xs, w)))"

definition ready :: "replay_env \<Rightarrow> uif_state \<Rightarrow> bool" where
  "ready env u \<longleftrightarrow> uf_initialized u \<and> re_connected env \<and> \<not> uf_outstanding u \<and> uf_retry_after_ms u \<le> re_now env"

definition cloud_env :: "replay_env \<Rightarrow> bool" where
  "cloud_env env \<longleftrightarrow> io_good (re_io env) \<and> q_platform_type (rc_mqtt (re_config env)) = MQTT_PLATFORM_THINGSCLOUD \<and> 0 \<le> re_now env"

text \<open>The context a record is replayed as.\<close>

definition replay_of :: "replay_env \<Rightarrow> offline_record \<Rightarrow> tcm_context option" where
  "replay_of env r = tcm_deserialize_json (re_ub env) (re_parse env) (Some (or_payload r))"

lemma ready_replay:
  "ready env u \<Longrightarrow> uif_replay_all env u = replay_next env u"
  by (simp add: ready_def uif_replay_all_def Let_def)

lemma replay_sends:
  assumes "ready env u" "cloud_env env" "offline_store_peek_oldest (re_io env) (uf_store u) = (uf_store u, Inl r)"
    "replay_of env r = Some c" "re_send env c = ESP_OK"
  shows "uif_replay_all env u = (u\<lparr>uf_sequence := or_sequence_id r, uf_sent_ms := re_now env, uf_outstanding := True,
      uf_gateway_topic := (q_report_mode (rc_mqtt (re_config env)) = MQ_REPORT_GATEWAY)\<rparr>, ESP_OK, Some (SentContext c))"
  using assms by (simp add: ready_replay replay_next_def cloud_env_def replay_of_def)

text \<open>The message a record is replayed as outside ThingsCloud.\<close>

definition message_of :: "offline_record \<Rightarrow> replay_send" where
  "message_of r = SentMessage (or_topic r) (or_payload r) (or_sequence_id r)"

definition mqtt_env :: "replay_env \<Rightarrow> bool" where
  "mqtt_env env \<longleftrightarrow> io_good (re_io env) \<and> q_platform_type (rc_mqtt (re_config env)) \<noteq> MQTT_PLATFORM_THINGSCLOUD"

lemma replay_round_next:
  assumes "ready env u" "mqtt_env env" "offline_store_peek_oldest (re_io env) (uf_store u) = (uf_store u, Inl r)"
    "re_publish env (or_topic r) (or_payload r) (or_sequence_id r) = ESP_OK"
  shows "\<exists>v. replay_round env u = (Some (message_of r), v) \<and> ready env v \<and>
    uf_store v = forget (re_io env) (or_sequence_id r) (uf_store u)"
proof -
  let ?v = "u\<lparr>uf_sequence := or_sequence_id r, uf_outstanding := True\<rparr>"
  let ?w = "replay_acknowledged (re_io env) (or_sequence_id r) ?v"
  have "uif_replay_all env u = (?v, ESP_OK, Some (message_of r))"
    using assms by (simp add: ready_replay replay_next_def mqtt_env_def message_of_def)
  then have "replay_round env u = (Some (message_of r), ?w)"
    by (simp add: replay_round_def message_of_def)
  moreover have "ready env ?w" using assms(1)
    by (simp add: ready_def replay_acknowledged_def remove_record_def split_beta Let_def)
  moreover have "uf_store ?w = forget (re_io env) (or_sequence_id r) (uf_store u)"
    by (simp add: replay_acknowledged_def remove_record_def forget_def split_beta Let_def)
  ultimately show ?thesis by blast
qed

lemma replay_rounds_drain:
  "ready env u \<Longrightarrow> mqtt_env env \<Longrightarrow> store_ok (uf_store u) \<Longrightarrow>
   (\<And>r. r \<in> ran (held (io_mounted (re_io env)) (uf_store u)) \<Longrightarrow>
     re_publish env (or_topic r) (or_payload r) (or_sequence_id r) = ESP_OK) \<Longrightarrow>
   fst (replay_rounds env n u) = map message_of
     (fst (drain (offline_store_peek_oldest (re_io env)) (forget (re_io env)) or_sequence_id n (uf_store u))) \<and>
   uf_store (snd (replay_rounds env n u)) =
     snd (drain (offline_store_peek_oldest (re_io env)) (forget (re_io env)) or_sequence_id n (uf_store u))"
proof (induction n arbitrary: u)
  case 0
  then show ?case by simp
next
  case (Suc n)
  let ?io = "re_io env"
  have io: "io_good ?io" using Suc.prems(2) by (simp add: mqtt_env_def)
  show ?case
  proof (cases "dom (held (io_mounted ?io) (uf_store u)) = {}")
    case True
    then have p: "offline_store_peek_oldest ?io (uf_store u) = (uf_store u, Inr ESP_ERR_NOT_FOUND)"
      using peek_effect [OF Suc.prems(3) io] by simp
    then have "uif_replay_all env u = (u, ESP_OK, None)"
      using Suc.prems(1) by (simp add: ready_replay replay_next_def)
    then show ?thesis using p by (simp add: replay_round_def)
  next
    case False
    then obtain r where r: "offline_store_peek_oldest ?io (uf_store u) = (uf_store u, Inl r)"
        "held (io_mounted ?io) (uf_store u) (or_sequence_id r) = Some r"
      using peek_effect [OF Suc.prems(3) io] by auto
    have "r \<in> ran (held (io_mounted ?io) (uf_store u))" using r(2) by (rule ranI)
    then have "re_publish env (or_topic r) (or_payload r) (or_sequence_id r) = ESP_OK" by (rule Suc.prems(4))
    then obtain v where v: "replay_round env u = (Some (message_of r), v)" "ready env v"
        "uf_store v = forget ?io (or_sequence_id r) (uf_store u)"
      using replay_round_next [OF Suc.prems(1,2) r(1)] by blast
    have s: "store_ok (uf_store v)"
      "held (io_mounted ?io) (uf_store v) = (held (io_mounted ?io) (uf_store u))(or_sequence_id r := None)"
      using remove_effect(1,2) [OF Suc.prems(3) io, of "or_sequence_id r"] v(3) by (simp_all add: forget_def)
    have "x \<in> ran (held (io_mounted ?io) (uf_store u))" if "x \<in> ran (held (io_mounted ?io) (uf_store v))" for x
      using that s(2) by (auto simp: ran_def split: if_splits)
    note ih = Suc.IH [OF v(2) Suc.prems(2) s(1) Suc.prems(4) [OF this]]
    show ?thesis using ih v(1,3) r(1) by (simp add: split_beta)
  qed
qed

text \<open>
  C5. Outside ThingsCloud the cache drains: while the connection is up, the file system in order, the
  MQTT client takes every message, and each is acknowledged before the next replay, one
  replay per record hands over every cached record once, on its topic and in the order of the
  sequence numbers over both media, and leaves the store empty.
\<close>

theorem replay_drains_cache:
  assumes "ready env u" "mqtt_env env" "store_ok (uf_store u)"
    and "\<And>r. r \<in> ran (held (io_mounted (re_io env)) (uf_store u)) \<Longrightarrow>
      re_publish env (or_topic r) (or_payload r) (or_sequence_id r) = ESP_OK"
    and "card (dom (held (io_mounted (re_io env)) (uf_store u))) = n" "replay_rounds env n u = (sent, v)"
  shows "\<exists>rs. sent = map (\<lambda>r. SentMessage (or_topic r) (or_payload r) (or_sequence_id r)) rs \<and>
      map or_sequence_id rs = sorted_list_of_set (dom (held (io_mounted (re_io env)) (uf_store u))) \<and>
      (\<forall>r \<in> set rs. held (io_mounted (re_io env)) (uf_store u) (or_sequence_id r) = Some r) \<and>
    dom (held (io_mounted (re_io env)) (uf_store v)) = {}"
proof -
  have io: "io_good (re_io env)" using assms(2) by (simp add: mqtt_env_def)
  note d = replay_rounds_drain [OF assms(1-4), of n] and o = offline.drain_all [of "uf_store u" "re_io env" n]
  show ?thesis using d o assms(3,5,6) io by (auto simp: message_of_def [abs_def])
qed

section \<open>Timeouts and retries\<close>

definition event_time :: "uif_event \<Rightarrow> ms" where
  "event_time e = (case e of Tick env \<Rightarrow> re_now env | Response _ _ now _ _ _ \<Rightarrow> now | _ \<Rightarrow> 0)"

text \<open>No pause runs longer than the longest one, seen from \<open>t\<close>.\<close>

definition retry_inv :: "ms \<Rightarrow> uif_state \<Rightarrow> bool" where
  "retry_inv t u \<longleftrightarrow> uf_retry_after_ms u \<le> t + UIF_CLOUD_REJECT_RETRY_MS \<and> (uf_outstanding u \<longrightarrow> uf_sent_ms u \<le> t)"

lemma remove_record_fields:
  "uf_retry_after_ms (fst (remove_record env k u)) = uf_retry_after_ms u"
  "uf_outstanding (fst (remove_record env k u)) = uf_outstanding u"
  "uf_sent_ms (fst (remove_record env k u)) = uf_sent_ms u"
  "uf_initialized (fst (remove_record env k u)) = uf_initialized u"
  "uf_sequence (fst (remove_record env k u)) = uf_sequence u"
  by (simp_all add: remove_record_def split_beta)

lemma next_retry:
  "retry_inv t v \<Longrightarrow> \<not> uf_outstanding v \<Longrightarrow> re_now env \<le> t \<Longrightarrow> uf_sent_ms v \<le> t \<Longrightarrow> retry_inv t (fst (replay_next env v))"
  by (auto simp: replay_next_def retry_inv_def Let_def split: prod.splits sum.splits option.splits)

lemma step_retry:
  assumes "retry_inv t u" "event_time e \<le> t" "0 \<le> t" "uf_sent_ms u \<le> t"
  shows "retry_inv t (uif_step e u) \<and> uf_sent_ms (uif_step e u) \<le> t"
proof (cases e)
  case (Tick env)
  have s: "uf_sent_ms (fst (replay_next env v)) \<le> t" if "uf_sent_ms v \<le> t" for v
    using that assms(2) Tick
    by (auto simp: replay_next_def event_time_def Let_def split: prod.splits sum.splits option.splits)
  show ?thesis using assms Tick s next_retry [of t _ env]
    by (auto simp: uif_step_def uif_replay_all_def event_time_def retry_inv_def Let_def)
next
  case (Response env m now g acc code)
  then show ?thesis using assms
    by (auto simp: uif_step_def uif_replay_cloud_response_def replay_acknowledged_def event_time_def retry_inv_def
        Let_def split_beta remove_record_fields)
next
  case (PubAck env seq)
  then show ?thesis using assms
    by (auto simp: uif_step_def replay_acknowledged_def retry_inv_def Let_def remove_record_fields)
next
  case (Cached print alloc config amm env c)
  then show ?thesis using assms
    by (auto simp: uif_step_def uif_cache_record_def retry_inv_def split: option.split prod.split)
next
  case (CacheRead env index)
  then show ?thesis using assms
    by (auto simp: uif_step_def uif_get_cached_record_def retry_inv_def split: sum.split prod.split)
next
  case (MarkReplayed env index)
  then show ?thesis using assms
    by (auto simp: uif_step_def uif_mark_replayed_def retry_inv_def remove_record_fields split: sum.split prod.split)
qed (use assms in \<open>auto simp: uif_step_def uif_replay_connection_lost_def uif_destroy_def retry_inv_def\<close>)

lemma run_retry:
  "retry_inv t u \<Longrightarrow> uf_sent_ms u \<le> t \<Longrightarrow> 0 \<le> t \<Longrightarrow> list_all (\<lambda>e. event_time e \<le> t) es \<Longrightarrow> retry_inv t (uif_run es u)"
proof (induction es arbitrary: u)
  case (Cons e es)
  then show ?case using step_retry [of t u e] by (simp add: uif_run_def)
qed (simp add: uif_run_def)

text \<open>
  No outage of the platform stops the replay for good: whatever happened until the time \<open>t\<close>, of
  a replay tried 20 s later and one 60 s after that, one sends the oldest record, provided the connection is
  up and the record can be sent.
\<close>

theorem replay_resumes:
  assumes "retry_inv 0 u" "uf_sent_ms u \<le> 0" "list_all (\<lambda>e. event_time e \<le> t) es" "0 \<le> t"
    and "v = uif_run es u" "uf_initialized v" "store_ok (uf_store v)"
    and "re_connected env" "re_connected env'" "cloud_env env" "cloud_env env'" "io_mounted (re_io env') = io_mounted (re_io env)"
    and "t + UIF_CLOUD_RESPONSE_TIMEOUT_MS \<le> re_now env" "re_now env + UIF_CLOUD_REJECT_RETRY_MS \<le> re_now env'"
    and "held (io_mounted (re_io env)) (uf_store v) k = Some r" "k = Min (dom (held (io_mounted (re_io env)) (uf_store v)))"
    and "replay_of env r = Some c" "re_send env c = ESP_OK" "replay_of env' r = Some c" "re_send env' c = ESP_OK"
  shows "snd (snd (uif_replay_all env v)) = Some (SentContext c) \<or>
    snd (snd (uif_replay_all env' (fst (uif_replay_all env v)))) = Some (SentContext c)"
proof -
  let ?io = "re_io env"
  have ri: "retry_inv t v"
    unfolding assms(5) using assms(1-4) by (intro run_retry) (auto simp: retry_inv_def)
  have io: "io_good ?io" "io_good (re_io env')" using assms(10,11) by (simp_all add: cloud_env_def)
  have peek: "offline_store_peek_oldest x (uf_store v) = (uf_store v, Inl r)"
    if x: "io_good x" "io_mounted x = io_mounted ?io" for x
  proof -
    have "dom (held (io_mounted x) (uf_store v)) \<noteq> {}" using assms(15) x(2) by auto
    from offline.peek_min [of "uf_store v" x, OF _ this] obtain r' where
      "offline_store_peek_oldest x (uf_store v) = (uf_store v, Inl r')"
      "held (io_mounted ?io) (uf_store v) (or_sequence_id r') = Some r'" "or_sequence_id r' = k"
      using x assms(7,16) by auto
    then show ?thesis using assms(15) by simp
  qed
  show ?thesis
  proof (cases "uf_outstanding v \<or> re_now env < uf_retry_after_ms v")
    case False
    then have "ready env v" using assms(6,8) by (simp add: ready_def)
    then show ?thesis
      using replay_sends [OF _ assms(10) peek [OF io(1)] assms(17,18)] by simp
  next
    case True
    let ?v = "fst (uif_replay_all env v)"
    have p: "uf_store ?v = uf_store v" using tick_store [OF assms(7) io(1)] .
    have r: "\<not> uf_outstanding ?v" "uf_retry_after_ms ?v \<le> re_now env + UIF_CLOUD_REJECT_RETRY_MS" "uf_initialized ?v"
      using True ri assms(6,8,13) by (auto simp: uif_replay_all_def retry_inv_def Let_def)
    then have "ready env' ?v" using assms(9,14) by (simp add: ready_def)
    then show ?thesis
      using replay_sends [OF _ assms(11) _ assms(19,20), of ?v] peek [OF io(2) assms(12)] p by simp
  qed
qed

section \<open>What goes wrong\<close>

text \<open>
  The response to a replay never counts: the platform answers on the response topic of the topic
  the context was published to, and the flag its handler passes on is always the opposite of
  the one the replay recorded, so neither an acceptance nor a rejection changes anything and
  only the timeout ends the wait.
\<close>

theorem replay_response_ignored:
  assumes "uif_replay_all env u = (v, ESP_OK, Some (SentContext c))"
  shows "uif_replay_cloud_response io metric now
    (response_flag (replay_topic (q_report_mode (rc_mqtt (re_config env))))) accepted code v = v"
proof -
  have "uf_gateway_topic v = (q_report_mode (rc_mqtt (re_config env)) = MQ_REPORT_GATEWAY)"
    using assms by (auto simp: uif_replay_all_def replay_next_def Let_def split: if_splits prod.splits sum.splits option.splits)
  then show ?thesis
    by (simp add: uif_replay_cloud_response_def response_flag_def replay_topic_def)
qed

text \<open>What happens on ThingsCloud with one report mode: replays, the responses on their topic, lost connections.\<close>

definition cloud_event :: "mqtt_report_mode \<Rightarrow> uif_event \<Rightarrow> bool" where
  "cloud_event mode e =
     (case e of
        Tick env \<Rightarrow> q_platform_type (rc_mqtt (re_config env)) = MQTT_PLATFORM_THINGSCLOUD \<and>
          q_report_mode (rc_mqtt (re_config env)) = mode
      | Response _ _ _ gateway _ _ \<Rightarrow> gateway = response_flag (replay_topic mode)
      | ConnectionLost \<Rightarrow> True
      | _ \<Rightarrow> False)"

lemma next_flag:
  "q_platform_type (rc_mqtt (re_config env)) = MQTT_PLATFORM_THINGSCLOUD \<Longrightarrow> \<not> uf_outstanding u \<Longrightarrow>
   uf_outstanding (fst (replay_next env u)) \<Longrightarrow>
   uf_gateway_topic (fst (replay_next env u)) = (q_report_mode (rc_mqtt (re_config env)) = MQ_REPORT_GATEWAY)"
  by (auto simp: replay_next_def Let_def split: prod.splits sum.splits option.splits if_splits)

lemma cloud_event_keeps:
  assumes "cloud_event mode e" "uf_outstanding u \<longrightarrow> uf_gateway_topic u = (mode = MQ_REPORT_GATEWAY)"
  shows "cache_file w k (uif_step e u) = cache_file w k u \<and>
    (uf_outstanding (uif_step e u) \<longrightarrow> uf_gateway_topic (uif_step e u) = (mode = MQ_REPORT_GATEWAY))"
proof (cases e)
  case (Tick env)
  then show ?thesis using assms next_flag [of env] tick_files [of w k env u]
    by (auto simp: cloud_event_def uif_step_def uif_replay_all_def Let_def)
next
  case (Response io metric now gateway accepted code)
  then have "uif_step e u = u" using assms
    by (auto simp: cloud_event_def uif_step_def uif_replay_cloud_response_def response_flag_def replay_topic_def split: if_splits)
  then show ?thesis using assms(2) by simp
qed (use assms in \<open>auto simp: cloud_event_def uif_step_def uif_replay_connection_lost_def\<close>)

text \<open>
  C6. On ThingsCloud the cache never drains: whatever replays are tried and sent, however often the
  platform accepts or rejects them on the response topic of the topic they were published to,
  and whatever connections are lost, every file of the cache stays as it was.
\<close>

theorem cloud_cache_never_drains:
  assumes "list_all (cloud_event mode) es" "\<not> uf_outstanding u"
  shows "cache_file w k (uif_run es u) = cache_file w k u"
proof -
  have "cache_file w k (uif_run es v) = cache_file w k v"
    if "uf_outstanding v \<longrightarrow> uf_gateway_topic v = (mode = MQ_REPORT_GATEWAY)" for v
    using assms(1) that
  proof (induction es arbitrary: v)
    case (Cons e es)
    then show ?case using cloud_event_keeps [of mode e v] by (simp add: uif_run_def)
  qed (simp add: uif_run_def)
  then show ?thesis using assms(2) by blast
qed

text \<open>
  Outside ThingsCloud a replay does not record when it was sent: once the gateway has been up for
  20 seconds, the next try before the acknowledgement takes the message for timed out and
  pauses the replay for a minute.
\<close>

theorem untimed_replay_times_out:
  assumes "uif_replay_all env u = (v, ESP_OK, Some (SentMessage topic payload seq))" "uf_sent_ms u = 0"
    and "re_connected env'" "UIF_CLOUD_RESPONSE_TIMEOUT_MS \<le> re_now env'"
  shows "fst (snd (uif_replay_all env' v)) = ESP_ERR_TIMEOUT \<and>
    uf_retry_after_ms (fst (uif_replay_all env' v)) = re_now env' + UIF_CLOUD_REJECT_RETRY_MS"
proof -
  have "uf_outstanding v" "uf_sent_ms v = 0" "uf_initialized v"
    using assms(1,2)
    by (auto simp: uif_replay_all_def replay_next_def Let_def split: if_splits prod.splits sum.splits option.splits)
  then show ?thesis using assms(3,4) by (simp add: uif_replay_all_def Let_def)
qed

text \<open>
  One record that does not parse stops the replay of all: as long as it is the oldest, a replay
  ends with an error, sends nothing and changes nothing.
\<close>

theorem corrupt_record_blocks:
  assumes "ready env u" "cloud_env env" "store_ok (uf_store u)"
    and "held (io_mounted (re_io env)) (uf_store u) (Min (dom (held (io_mounted (re_io env)) (uf_store u)))) = Some r"
    and "replay_of env r = None"
  shows "uif_replay_all env u = (u, ESP_ERR_INVALID_RESPONSE, None)"
proof -
  have io: "io_good (re_io env)" using assms(2) by (simp add: cloud_env_def)
  have "dom (held (io_mounted (re_io env)) (uf_store u)) \<noteq> {}" using assms(4) by auto
  from offline.peek_min [of "uf_store u" "re_io env", OF _ this] obtain r' where
    "offline_store_peek_oldest (re_io env) (uf_store u) = (uf_store u, Inl r')" "r' = r"
    using assms(3,4) io by auto
  then show ?thesis using assms(1,2,5)
    by (simp add: ready_replay replay_next_def cloud_env_def replay_of_def)
qed

text \<open>
  A context that was cached is replayed with its values, its limits and its identity, but always
  as a good and online sample: a stale or invalid reading passes the check for good samples
  when it is replayed.
\<close>

theorem cached_context_replayed:
  assumes "uif_cache_record print True config amm io (Some c) u = (v, ESP_OK)" "context_fits c"
    and "store_ok (uf_store u)" "os_ready (uf_store u)" "md_dir (os_flash (uf_store u)) = []" "md_dir (os_tf (uf_store u)) = []"
    and "\<And>t. print (context_json c) TCM_MAX_JSON_LEN = Some t \<Longrightarrow> re_parse env t = Some (context_json c) \<and> length t < TCM_MAX_JSON_LEN"
    and "length (cache_topic config amm c) < 127" "CHR 0x0D \<notin> set (cache_topic config amm c)" "newline \<notin> set (cache_topic config amm c)"
    and "ready env v" "cloud_env env" "re_io env = io"
    and "replayed = c\<lparr>c_quality_state := QUALITY_GOOD, c_network_state := NET_ONLINE,
      c_operation_type := (if c_operation_type c = OP_WRITE then OP_WRITE else OP_READ_PUBLISH),
      c_gateway_property_key := [], c_validated := False\<rparr>" "re_send env replayed = ESP_OK"
  shows "snd (snd (uif_replay_all env v)) = Some (SentContext replayed)"
proof -
  let ?seq = "c_sequence_id c" and ?topic = "cache_topic config amm c" and ?m = "io_mounted io"
  have io: "io_good io" using assms(12,13) by (simp add: cloud_env_def)
  obtain payload where p: "print (context_json c) TCM_MAX_JSON_LEN = Some payload"
    and put: "offline_store_put io ?seq (Some ?topic) (Some payload) (uf_store u) = (uf_store v, ESP_OK)"
    using assms(1) by (auto simp: uif_cache_record_def tcm_serialize_json_def split: if_splits option.splits prod.splits)
  have new: "newer ?seq (os_flash (uf_store u))" "newer ?seq (os_tf (uf_store u))"
    using assms(5,6) by (simp_all add: newer_def seqs_def has_file_def)
  note res = put_result [OF assms(3,4) io new put]
  have none: "held ?m (uf_store u) k = None" for k
    using assms(5,6) by (simp add: held_def stored_def read_record_def)
  have fits: "record_fits ?topic payload" using assms(7-10) p by (simp add: record_fits_def)
  obtain w where w: "held ?m (uf_store v) ?seq =
      Some \<lparr>or_sequence_id = ?seq, or_topic = ?topic, or_payload = payload, or_medium = w\<rparr>"
    using res fits by blast
  have other: "held ?m (uf_store v) k = None" if "k \<noteq> ?seq" for k
    using res [of k] none [of k] that by auto
  have ok: "store_ok (uf_store v)" using res by blast
  have "x \<in> dom (held ?m (uf_store v)) \<longleftrightarrow> x = ?seq" for x
    using w other [of x] by (cases "x = ?seq") (simp_all add: domIff)
  then have d: "dom (held ?m (uf_store v)) = {?seq}" by blast
  then obtain r where r: "offline_store_peek_oldest io (uf_store v) = (uf_store v, Inl r)"
      "held ?m (uf_store v) (or_sequence_id r) = Some r"
    using peek_effect [OF ok io] by auto
  then have "or_sequence_id r = ?seq" using d by blast
  then have r2: "or_payload r = payload" using r(2) w by auto
  have "replay_of env r = Some replayed"
    using r2 assms(7) p context_of_context_json [OF assms(2)] assms(14)
    by (simp add: replay_of_def tcm_deserialize_json_def)
  then show ?thesis using replay_sends [OF assms(11,12) _ _ assms(15)] r(1) assms(13) by simp
qed

section \<open>Witnesses\<close>

definition idle_uif :: "offline_store \<Rightarrow> uif_state" where
  "idle_uif store = \<lparr>uf_initialized = True, uf_outstanding = False, uf_sequence = 0, uf_gateway_topic = False, uf_sent_ms = 0,
     uf_retry_after_ms = 0, uf_store = store, uf_eval = \<lparr>ev_mutex = True, ev_metrics = zero_metrics, ev_sequence = 0\<rparr>\<rparr>"

definition demo_replay :: "mqtt_platform_type \<Rightarrow> (string \<Rightarrow> json option) \<Rightarrow> ms \<Rightarrow> replay_env" where
  "demo_replay platform parse now = \<lparr>re_connected = True, re_now = now,
     re_config = load_defaults\<lparr>rc_mqtt := (rc_mqtt load_defaults)\<lparr>q_platform_type := platform\<rparr>\<rparr>,
     re_io = calm_env, re_parse = parse, re_ub = (\<lambda>_. 0), re_send = (\<lambda>_. ESP_OK), re_publish = (\<lambda>_ _ _. ESP_OK)\<rparr>"

definition card_record :: offline_record where
  "card_record = \<lparr>or_sequence_id = 3, or_topic = ''t'', or_payload = ''p'', or_medium = OFFLINE_MEDIUM_TF\<rparr>"

lemma card_held: "held True two_media 3 = Some card_record"
  by (simp add: held_def two_media_def stored_one card_record_def)

lemma demo_peek: "offline_store_peek_oldest calm_env two_media = (two_media, Inl card_record)"
proof -
  obtain r where r: "offline_store_peek_oldest calm_env two_media = (two_media, Inl r)"
      "held True two_media (or_sequence_id r) = Some r" "or_sequence_id r \<le> 3" "or_sequence_id r \<in> {3, 5}"
    using peek_effect [OF two_media_ok(1,2)] held_two two_media_ok(3) by (auto split: if_splits)
  then show ?thesis using card_held by auto
qed

lemma demo_cloud: "0 \<le> now \<Longrightarrow> cloud_env (demo_replay MQTT_PLATFORM_THINGSCLOUD parse now)"
  by (simp add: cloud_env_def demo_replay_def two_media_ok)

lemma demo_ready: "0 \<le> now \<Longrightarrow> ready (demo_replay p parse now) (idle_uif s)"
  by (simp add: ready_def demo_replay_def idle_uif_def)

abbreviation empty_json :: "string \<Rightarrow> json option" where "empty_json \<equiv> \<lambda>_. Some (JObj [])"

lemma demo_replay_of: "replay_of (demo_replay p empty_json now) r = Some (context_of_json (\<lambda>_. 0) (JObj []))"
  by (simp add: replay_of_def demo_replay_def tcm_deserialize_json_def)

lemma demo_io [simp]:
  "re_io (demo_replay p parse now) = calm_env" "re_now (demo_replay p parse now) = now"
  "re_connected (demo_replay p parse now)" "re_send (demo_replay p parse now) c = ESP_OK"
  "io_mounted calm_env"
  by (simp_all add: demo_replay_def two_media_ok)


lemma replay_drains_cache_witness:
  "dom (held True (uf_store (snd (replay_rounds (demo_replay MQTT_PLATFORM_CUSTOM empty_json 0) 2 (idle_uif two_media))))) = {}"
proof -
  let ?env = "demo_replay MQTT_PLATFORM_CUSTOM empty_json 0"
  obtain sent v where r: "replay_rounds ?env 2 (idle_uif two_media) = (sent, v)" by fastforce
  have "store_ok (uf_store (idle_uif two_media))" by (simp add: idle_uif_def two_media_ok)
  moreover have "card (dom (held (io_mounted (re_io ?env)) (uf_store (idle_uif two_media)))) = 2"
    by (simp add: idle_uif_def held_two)
  moreover have "mqtt_env ?env" by (simp add: mqtt_env_def demo_replay_def two_media_ok)
  moreover have "re_publish ?env t p q = ESP_OK" for t p q by (simp add: demo_replay_def)
  ultimately show ?thesis using replay_drains_cache [OF demo_ready _ _ _ _ r] r by auto
qed

lemma replay_resumes_witness:
  "\<exists>c. snd (snd (uif_replay_all (demo_replay MQTT_PLATFORM_THINGSCLOUD empty_json 20000) (idle_uif two_media))) = Some (SentContext c) \<or>
     snd (snd (uif_replay_all (demo_replay MQTT_PLATFORM_THINGSCLOUD empty_json 80000)
       (fst (uif_replay_all (demo_replay MQTT_PLATFORM_THINGSCLOUD empty_json 20000) (idle_uif two_media))))) = Some (SentContext c)"
proof (intro exI, rule replay_resumes [where u = "idle_uif two_media" and es = "[]" and t = 0 and k = 3 and r = card_record])
  show "idle_uif two_media = uif_run [] (idle_uif two_media)" by (simp add: uif_run_def)
  show "retry_inv 0 (idle_uif two_media)" by (simp add: retry_inv_def idle_uif_def)
  show "store_ok (uf_store (idle_uif two_media))" by (simp add: idle_uif_def two_media_ok)
  show "replay_of (demo_replay MQTT_PLATFORM_THINGSCLOUD empty_json 20000) card_record = Some (context_of_json (\<lambda>_. 0) (JObj []))"
    "replay_of (demo_replay MQTT_PLATFORM_THINGSCLOUD empty_json 80000) card_record = Some (context_of_json (\<lambda>_. 0) (JObj []))"
    by (rule demo_replay_of)+
qed (simp_all add: demo_cloud idle_uif_def card_held held_two)

lemma demo_sent:
  "\<exists>v. uif_replay_all (demo_replay MQTT_PLATFORM_THINGSCLOUD empty_json 0) (idle_uif two_media) =
     (v, ESP_OK, Some (SentContext (context_of_json (\<lambda>_. 0) (JObj []))))"
proof -
  have "offline_store_peek_oldest (re_io (demo_replay MQTT_PLATFORM_THINGSCLOUD empty_json 0)) (uf_store (idle_uif two_media))
      = (uf_store (idle_uif two_media), Inl card_record)"
    using demo_peek by (simp add: idle_uif_def)
  from replay_sends [OF demo_ready demo_cloud this demo_replay_of] show ?thesis by simp
qed

lemma replay_response_ignored_witness:
  "let v = fst (uif_replay_all (demo_replay MQTT_PLATFORM_THINGSCLOUD empty_json 0) (idle_uif two_media))
   in uif_replay_cloud_response calm_env True 100 (response_flag (replay_topic MQ_REPORT_SUBDEVICE)) True 0 v = v"
proof -
  obtain v where v: "uif_replay_all (demo_replay MQTT_PLATFORM_THINGSCLOUD empty_json 0) (idle_uif two_media) =
     (v, ESP_OK, Some (SentContext (context_of_json (\<lambda>_. 0) (JObj []))))" using demo_sent by blast
  have "q_report_mode (rc_mqtt (re_config (demo_replay MQTT_PLATFORM_THINGSCLOUD empty_json 0))) = MQ_REPORT_SUBDEVICE"
    by (simp add: demo_replay_def load_defaults_def zero_runtime_config_def zero_mqtt_config_def Let_def)
  then show ?thesis using replay_response_ignored [OF v, of calm_env True 100 True 0] v by simp
qed

lemma cloud_cache_never_drains_witness:
  "cache_file OFFLINE_MEDIUM_TF 3 (uif_run [Tick (demo_replay MQTT_PLATFORM_THINGSCLOUD empty_json 0),
     Response calm_env True 100 True True 0] (idle_uif two_media)) = Some (record_text 3 ''t'' ''p'')"
proof -
  let ?es = "[Tick (demo_replay MQTT_PLATFORM_THINGSCLOUD empty_json 0), Response calm_env True 100 True True 0]"
  have "list_all (cloud_event MQ_REPORT_SUBDEVICE) ?es"
    by (simp add: cloud_event_def response_flag_def replay_topic_def demo_replay_def load_defaults_def
        zero_runtime_config_def zero_mqtt_config_def Let_def)
  then have "cache_file OFFLINE_MEDIUM_TF 3 (uif_run ?es (idle_uif two_media)) = cache_file OFFLINE_MEDIUM_TF 3 (idle_uif two_media)"
    by (rule cloud_cache_never_drains) (simp add: idle_uif_def)
  then show ?thesis by (simp add: file_of_def medium_of_def idle_uif_def two_media_def one_record_def)
qed

lemma untimed_replay_times_out_witness:
  "fst (snd (uif_replay_all (demo_replay MQTT_PLATFORM_CUSTOM empty_json 20500)
     (fst (uif_replay_all (demo_replay MQTT_PLATFORM_CUSTOM empty_json 20000) (idle_uif two_media))))) = ESP_ERR_TIMEOUT"
proof -
  have "snd (uif_replay_all (demo_replay MQTT_PLATFORM_CUSTOM empty_json 20000) (idle_uif two_media)) =
      (ESP_OK, Some (SentMessage ''t'' ''p'' 3))"
  proof -
    have r: "uif_replay_all (demo_replay MQTT_PLATFORM_CUSTOM empty_json 20000) (idle_uif two_media) =
        replay_next (demo_replay MQTT_PLATFORM_CUSTOM empty_json 20000) (idle_uif two_media)"
      by (rule ready_replay [OF demo_ready]) simp
    show ?thesis unfolding r using demo_peek
      by (simp add: replay_next_def idle_uif_def) (simp add: demo_replay_def card_record_def)
  qed
  then obtain v where v: "uif_replay_all (demo_replay MQTT_PLATFORM_CUSTOM empty_json 20000) (idle_uif two_media) =
      (v, ESP_OK, Some (SentMessage ''t'' ''p'' 3))" by (metis prod.collapse)
  show ?thesis using untimed_replay_times_out [OF v, of "demo_replay MQTT_PLATFORM_CUSTOM empty_json 20500"] v
    by (simp add: idle_uif_def)
qed

lemma corrupt_record_blocks_witness:
  "uif_replay_all (demo_replay MQTT_PLATFORM_THINGSCLOUD (\<lambda>_. None) 0) (idle_uif two_media) =
     (idle_uif two_media, ESP_ERR_INVALID_RESPONSE, None)"
proof -
  have "replay_of (demo_replay MQTT_PLATFORM_THINGSCLOUD (\<lambda>_. None) 0) card_record = None"
    by (simp add: replay_of_def demo_replay_def tcm_deserialize_json_def)
  then show ?thesis
    by (intro corrupt_record_blocks demo_ready demo_cloud) (simp_all add: idle_uif_def two_media_ok held_two card_held)
qed

definition no_record :: medium where
  "no_record = \<lparr>md_dir = [], md_count = 0, md_oldest = 0, md_valid = False\<rparr>"

definition empty_store :: offline_store where
  "empty_store = \<lparr>os_mutex = True, os_ready = True, os_flash = no_record, os_tf = no_record, os_loss = 0\<rparr>"

lemma empty_store_ok: "store_ok empty_store"
  by (simp add: store_ok_def empty_store_def no_record_def medium_ok_def dir_ok_def oldest_of_def seqs_def has_file_def)

definition no_mappings :: amm_state where
  "no_mappings = \<lparr>am_table = [], am_capacity = 0, am_default_poll_ms = 1000, am_model_version = 1,
     am_nvs = \<lparr>n_count = None, n_schema = None, n_poll_ms = None, n_entry = (\<lambda>_. None),
       n_rollback_count = None, n_rollback = None\<rparr>\<rparr>"

lemma stale_topic: "cache_topic load_defaults no_mappings stale_context = ''factory/data/modbus_1/reg_0''"
  by (simp add: cache_topic_def amm_copy_mqtt_topic_def amm_find_mapping_for_channel_def lookup_active_def find_active_def
      no_mappings_def load_defaults_def stale_context_def zero_context_def zero_runtime_config_def zero_mqtt_config_def Let_def)

lemma cached_context_replayed_witness:
  "snd (snd (uif_replay_all (demo_replay MQTT_PLATFORM_THINGSCLOUD (\<lambda>t. if t = ''doc'' then Some (context_json stale_context) else None) 0)
     (fst (uif_cache_record (\<lambda>_ _. Some ''doc'') True load_defaults no_mappings calm_env (Some stale_context) (idle_uif empty_store)))))
   = Some (SentContext (stale_context\<lparr>c_quality_state := QUALITY_GOOD, c_network_state := NET_ONLINE,
       c_operation_type := OP_READ_PUBLISH, c_gateway_property_key := [], c_validated := False\<rparr>))"
proof -
  let ?u = "idle_uif empty_store"
  obtain v err where c: "uif_cache_record (\<lambda>_ _. Some ''doc'') True load_defaults no_mappings calm_env (Some stale_context) ?u = (v, err)"
    by fastforce
  have v: "err = ESP_OK" "uf_initialized v" "\<not> uf_outstanding v" "uf_retry_after_ms v = 0"
    using c by (auto simp: uif_cache_record_def idle_uif_def tcm_serialize_json_def offline_store_put_def put_flash_def
        empty_store_def no_record_def calm_env_def write_record_def stale_topic split: prod.splits)
  have "c_operation_type stale_context = OP_READ_PUBLISH" by (simp add: stale_context_def zero_context_def)
  moreover have "ready (demo_replay MQTT_PLATFORM_THINGSCLOUD (\<lambda>t. if t = ''doc'' then Some (context_json stale_context) else None) 0) v"
    using v by (simp add: ready_def)
  ultimately show ?thesis
    using cached_context_replayed [OF c [unfolded v(1)] stale_fits _ _ _ _ _ _ _ _ _ demo_cloud] c v
    by (simp add: idle_uif_def empty_store_ok stale_topic) (simp add: empty_store_def no_record_def demo_replay_def)
qed

end
