(* ===== verification/Mqtt_Handler.thy ===== *)
theory Mqtt_Handler
  imports Runtime_Config "HOL-Library.Multiset"
begin

text \<open>
  The MQTT layer (\<open>mqtt_comm/mqtt_handler.c\<close>): the life cycle of the one resident client, the
  subscription table and the dispatch of incoming messages, publishing with and without tracking of the
  acknowledgement, the events of the client, and the suspension after repeated authentication failures.
  The ESP-MQTT client is a library: what it answers is an argument (\<open>mqtt_env\<close>), and what it is asked,
  with whether the creation, start or stop worked, and every call back is appended to \<open>mq_effects\<close>. Log lines and the numbers of the task stack are
  left out. OneNET is compiled out (\<open>ONENET_ENABLED\<close> is 0).
\<close>

section \<open>State\<close>

datatype mqtt_conn_state = MQTT_STATE_CONNECTED | MQTT_STATE_DISCONNECTED | MQTT_STATE_ERROR

datatype mqtt_mode = MQTT_MODE_STANDARD | MQTT_MODE_ONENET

text \<open>The functions that are ever passed as call back of a subscription.\<close>

datatype mqtt_callback =
    On_attributes_response | On_gateway_attributes_push | On_gateway_attributes_response
  | On_attributes_push | On_command_send | Mqtt_command

abbreviation MQTT_MAX_SUBSCRIPTIONS :: nat where "MQTT_MAX_SUBSCRIPTIONS \<equiv> 16"
abbreviation MQTT_MAX_TOPIC_LEN :: nat where "MQTT_MAX_TOPIC_LEN \<equiv> 128"
abbreviation MQTT_MAX_TRACKED_PUBLISHES :: nat where "MQTT_MAX_TRACKED_PUBLISHES \<equiv> 32"

definition MQTT_BROKER_URI :: string where "MQTT_BROKER_URI = ''mqtt://192.168.1.100:1883''"
definition MQTT_CLIENT_ID :: string where "MQTT_CLIENT_ID = ''esp32s3_gateway_01''"

definition TC_TOPIC_ATTR_RESPONSE :: string where "TC_TOPIC_ATTR_RESPONSE = ''attributes/response''"
definition TC_TOPIC_ATTR_PUSH :: string where "TC_TOPIC_ATTR_PUSH = ''attributes/push''"
definition TC_TOPIC_GATEWAY_ATTR_RESPONSE :: string where "TC_TOPIC_GATEWAY_ATTR_RESPONSE = ''gateway/attributes/response''"
definition TC_TOPIC_GATEWAY_ATTR_PUSH :: string where "TC_TOPIC_GATEWAY_ATTR_PUSH = ''gateway/attributes/push''"
definition TC_TOPIC_GATEWAY_CMD_SEND :: string where "TC_TOPIC_GATEWAY_CMD_SEND = ''gateway/command/send''"

record mqtt_subscription =
  sb_topic :: string
  sb_qos :: int
  sb_callback :: mqtt_callback
  sb_active :: bool

record tracked_publish =
  tp_msg_id :: int
  tp_token :: u32
  tp_active :: bool

record client_config =
  cc_uri :: string
  cc_client_id :: string
  cc_username :: "string option"
  cc_password :: "string option"
  cc_keepalive :: u16
  cc_disable_clean_session :: bool
  cc_lwt :: "(string \<times> string) option"
  cc_lwt_qos :: u8
  cc_lwt_retain :: bool
  cc_disable_auto_reconnect :: bool

datatype mqtt_effect =
    EspInit client_config bool | EspDestroy | EspStart bool | EspStop bool | EspSetConfig client_config
  | EspDisconnect | EspReconnect
  | EspSubscribe string int
  | EspPublish string string int bool
  | Callback mqtt_callback string string
  | AckCallback u32
  | ThingscloudConnected

text \<open>\<open>mq_subs\<close> holds the first \<open>s_subscription_count\<close> entries of the table; \<open>mq_notified\<close>: the supervisor task has been notified.\<close>

record mqtt_state =
  mq_client :: bool
  mq_conn :: mqtt_conn_state
  mq_reason :: string
  mq_mode :: mqtt_mode
  mq_broker :: string
  mq_client_id :: string
  mq_username :: string
  mq_password :: string
  mq_subs :: "mqtt_subscription list"
  mq_success_count :: int
  mq_fail_count :: int
  mq_last_publish_ms :: ms
  mq_connected_since_ms :: ms
  mq_last_session_ms :: ms
  mq_connects :: u32
  mq_disconnects :: u32
  mq_errors :: u32
  mq_suspended :: bool
  mq_auth_failures :: u8
  mq_mutex :: bool
  mq_lifecycle :: bool
  mq_ack_callback :: bool
  mq_tracked :: "tracked_publish list"
  mq_initialized :: bool
  mq_started :: bool
  mq_reserve :: bool
  mq_supervisor :: bool
  mq_notified :: bool
  mq_effects :: "mqtt_effect list"

definition no_tracked :: "tracked_publish list" where
  "no_tracked = replicate MQTT_MAX_TRACKED_PUBLISHES \<lparr>tp_msg_id = 0, tp_token = 0, tp_active = False\<rparr>"

definition mqtt_boot :: mqtt_state where
  "mqtt_boot = \<lparr>mq_client = False, mq_conn = MQTT_STATE_DISCONNECTED, mq_reason = ''not connected'', mq_mode = MQTT_MODE_STANDARD,
     mq_broker = MQTT_BROKER_URI, mq_client_id = MQTT_CLIENT_ID, mq_username = [], mq_password = [], mq_subs = [],
     mq_success_count = 0, mq_fail_count = 0, mq_last_publish_ms = 0, mq_connected_since_ms = 0, mq_last_session_ms = 0,
     mq_connects = 0, mq_disconnects = 0, mq_errors = 0, mq_suspended = False, mq_auth_failures = 0, mq_mutex = False,
     mq_lifecycle = False, mq_ack_callback = False, mq_tracked = no_tracked, mq_initialized = False, mq_started = False,
     mq_reserve = False, mq_supervisor = False, mq_notified = False, mq_effects = []\<rparr>"

text \<open>
  What the client and the system answer; \<open>me_during\<close> are the events the client task handles while a
  restart waits for the disconnection.
\<close>

datatype mqtt_event =
    EvConnected | EvDisconnected | EvData string string | EvPublished int
  | EvTcpError int u32 | EvRefused int | EvError | EvOther

record mqtt_env =
  me_config :: runtime_config
  me_now :: ms
  me_mac :: "u8 list option"
  me_mutex :: bool
  me_lifecycle :: bool
  me_supervisor :: bool
  me_reserve :: bool
  me_client :: bool
  me_register :: esp_err
  me_start :: esp_err
  me_stop :: esp_err
  me_set_config :: esp_err
  me_disconnect :: esp_err
  me_reconnect :: esp_err
  me_subscribe :: "string \<Rightarrow> int"
  me_publish :: "string \<Rightarrow> string \<Rightarrow> int"
  me_during :: "mqtt_event list"

definition emit :: "mqtt_effect \<Rightarrow> mqtt_state \<Rightarrow> mqtt_state" where
  "emit e s = s\<lparr>mq_effects := mq_effects s @ [e]\<rparr>"

section \<open>Helpers\<close>

definition mqtt_reserve_future_task_stack :: "mqtt_env \<Rightarrow> mqtt_state \<Rightarrow> mqtt_state" where
  "mqtt_reserve_future_task_stack env s = (if mq_reserve s then s else s\<lparr>mq_reserve := me_reserve env\<rparr>)"

definition mqtt_release_task_stack_reserve :: "mqtt_state \<Rightarrow> mqtt_state" where
  "mqtt_release_task_stack_reserve s = (if \<not> mq_reserve s then s else s\<lparr>mq_reserve := False\<rparr>)"

definition mqtt_start_supervisor :: "mqtt_env \<Rightarrow> mqtt_state \<Rightarrow> mqtt_state \<times> bool" where
  "mqtt_start_supervisor env s =
     (if mq_supervisor s then (s, True) else let s = s\<lparr>mq_supervisor := me_supervisor env\<rparr> in (s, mq_supervisor s))"

definition mqtt_set_state :: "mqtt_conn_state \<Rightarrow> mqtt_state \<Rightarrow> mqtt_state" where
  "mqtt_set_state c s = s\<lparr>mq_conn := c\<rparr>"

definition mqtt_set_connect_reason :: "string option \<Rightarrow> mqtt_state \<Rightarrow> mqtt_state" where
  "mqtt_set_connect_reason reason s = s\<lparr>mq_reason := strlcpy 160 (case reason of Some r \<Rightarrow> r | None \<Rightarrow> [])\<rparr>"

text \<open>A filter that ends in \<open>#\<close> matches by its prefix; any other filter matches itself.\<close>

definition filter_matches :: "string \<Rightarrow> string \<Rightarrow> bool" where
  "filter_matches f topic \<longleftrightarrow> f = topic \<or> (f \<noteq> [] \<and> last f = CHR ''#'' \<and> take (length f - 1) topic = butlast f)"

definition mqtt_find_subscription :: "string \<Rightarrow> mqtt_state \<Rightarrow> nat option" where
  "mqtt_find_subscription topic s = find_slot (\<lambda>b. sb_active b \<and> filter_matches (sb_topic b) topic) (mq_subs s)"

section \<open>Subscribing and publishing\<close>

definition mqtt_subscribe :: "mqtt_env \<Rightarrow> string option \<Rightarrow> int \<Rightarrow> mqtt_callback option \<Rightarrow> mqtt_state \<Rightarrow> mqtt_state \<times> esp_err" where
  "mqtt_subscribe env topic qos cb s =
     (if \<not> mq_initialized s \<or> \<not> mq_client s then (s, ESP_FAIL)
      else case (topic, cb) of
        (Some topic, Some cb) \<Rightarrow>
          (if length topic \<ge> MQTT_MAX_TOPIC_LEN then (s, ESP_ERR_INVALID_ARG)
           else case find_slot (\<lambda>b. sb_active b \<and> sb_topic b = topic) (mq_subs s) of
               Some i \<Rightarrow>
                 (emit (EspSubscribe topic qos) (s\<lparr>mq_subs := (mq_subs s)[i := (mq_subs s ! i)\<lparr>sb_callback := cb, sb_qos := qos\<rparr>]\<rparr>),
                  if 0 \<le> me_subscribe env topic then ESP_OK else ESP_FAIL)
             | None \<Rightarrow>
                 (if length (mq_subs s) \<ge> MQTT_MAX_SUBSCRIPTIONS then (s, ESP_FAIL)
                  else
                    let s = s\<lparr>mq_subs := mq_subs s @ [\<lparr>sb_topic = strlcpy MQTT_MAX_TOPIC_LEN topic, sb_qos = qos,
                          sb_callback = cb, sb_active = True\<rparr>]\<rparr>
                    in if mq_conn s = MQTT_STATE_CONNECTED
                       then (emit (EspSubscribe topic qos) s, if me_subscribe env topic < 0 then ESP_FAIL else ESP_OK)
                       else (s, ESP_OK)))
      | _ \<Rightarrow> (s, ESP_ERR_INVALID_ARG))"

definition mqtt_publish :: "mqtt_env \<Rightarrow> string option \<Rightarrow> string option \<Rightarrow> int \<Rightarrow> mqtt_state \<Rightarrow> mqtt_state \<times> esp_err" where
  "mqtt_publish env topic payload qos s =
     (if \<not> mq_initialized s \<or> \<not> mq_client s then (s, ESP_FAIL)
      else case (topic, payload) of
        (Some topic, Some payload) \<Rightarrow>
          (let s = emit (EspPublish topic payload qos (q_retain (rc_mqtt (me_config env)))) s
           in if 0 \<le> me_publish env topic payload
              then (s\<lparr>mq_success_count := mq_success_count s + 1, mq_last_publish_ms := me_now env\<rparr>, ESP_OK)
              else (s\<lparr>mq_fail_count := mq_fail_count s + 1\<rparr>, ESP_FAIL))
      | _ \<Rightarrow> (s, ESP_ERR_INVALID_ARG))"

text \<open>
  A tracked publication is sent first; its slot is taken after that, under the mutex. The client task may
  handle events in between, so the two halves are definitions of their own.
\<close>

definition tracked_send ::
  "mqtt_env \<Rightarrow> string option \<Rightarrow> string option \<Rightarrow> int \<Rightarrow> mqtt_state \<Rightarrow> mqtt_state \<times> (int + esp_err)" where
  "tracked_send env topic payload qos s =
     (case (topic, payload) of
        (Some topic, Some payload) \<Rightarrow>
          (if \<not> mq_initialized s \<or> \<not> mq_client s \<or> qos < 1 then (s, Inr ESP_ERR_INVALID_ARG)
           else
             let s = emit (EspPublish topic payload qos (q_retain (rc_mqtt (me_config env)))) s;
                 msg_id = me_publish env topic payload
             in if msg_id < 0 then (s, Inr ESP_FAIL) else (s, Inl msg_id))
      | _ \<Rightarrow> (s, Inr ESP_ERR_INVALID_ARG))"

definition tracked_register :: "ms \<Rightarrow> int \<Rightarrow> u32 \<Rightarrow> mqtt_state \<Rightarrow> mqtt_state \<times> esp_err" where
  "tracked_register now msg_id token s =
     (case find_slot (\<lambda>t. \<not> tp_active t) (mq_tracked s) of
        None \<Rightarrow> (s, ESP_ERR_NO_MEM)
      | Some i \<Rightarrow>
          (s\<lparr>mq_tracked := (mq_tracked s)[i := \<lparr>tp_msg_id = msg_id, tp_token = token, tp_active = True\<rparr>],
             mq_success_count := mq_success_count s + 1, mq_last_publish_ms := now\<rparr>, ESP_OK))"

definition mqtt_publish_tracked ::
  "mqtt_env \<Rightarrow> string option \<Rightarrow> string option \<Rightarrow> int \<Rightarrow> u32 \<Rightarrow> mqtt_state \<Rightarrow> mqtt_state \<times> esp_err" where
  "mqtt_publish_tracked env topic payload qos token s =
     (case tracked_send env topic payload qos s of
        (s, Inr e) \<Rightarrow> (s, e)
      | (s, Inl msg_id) \<Rightarrow> tracked_register (me_now env) msg_id token s)"

definition mqtt_set_publish_ack_callback :: "bool \<Rightarrow> mqtt_state \<Rightarrow> mqtt_state" where
  "mqtt_set_publish_ack_callback cb s = s\<lparr>mq_ack_callback := cb\<rparr>"

text \<open>The subscriptions of the configuration, in the order they are made.\<close>

definition mqtt_register_runtime_subscriptions :: "mqtt_env \<Rightarrow> runtime_config \<Rightarrow> mqtt_state \<Rightarrow> mqtt_state" where
  "mqtt_register_runtime_subscriptions env cfg s =
     (let s = s\<lparr>mq_subs := []\<rparr>;
          sub = \<lambda>topic qos cb s. fst (mqtt_subscribe env (Some topic) qos (Some cb) s)
      in if q_platform_type (rc_mqtt cfg) = MQTT_PLATFORM_THINGSCLOUD then
           (let s = sub TC_TOPIC_ATTR_RESPONSE 0 On_attributes_response s;
                s = sub TC_TOPIC_ATTR_PUSH 0 On_gateway_attributes_push s
            in if q_report_mode (rc_mqtt cfg) = MQ_REPORT_SUBDEVICE then
                 (let s = sub TC_TOPIC_GATEWAY_ATTR_RESPONSE 0 On_gateway_attributes_response s;
                      s = sub TC_TOPIC_GATEWAY_ATTR_PUSH 0 On_attributes_push s
                  in sub TC_TOPIC_GATEWAY_CMD_SEND 0 On_command_send s)
               else s)
         else sub (strlcpy 128 (q_command_prefix (rc_mqtt cfg) @ rc_gateway_id cfg)) 1 Mqtt_command s)"

section \<open>Configuration of the client\<close>

text \<open>The configuration is a local copy of the caller, which the ThingsCloud branch changes.\<close>

definition mqtt_load_runtime_settings :: "mqtt_env \<Rightarrow> runtime_config \<Rightarrow> mqtt_state \<Rightarrow> mqtt_state \<times> runtime_config" where
  "mqtt_load_runtime_settings env cfg s =
     (let q = rc_mqtt cfg;
          s = s\<lparr>mq_mode := MQTT_MODE_STANDARD, mq_broker := strlcpy 128 (q_uri q), mq_client_id := strlcpy 48 (q_client_id q),
                mq_username := strlcpy 64 (q_username q), mq_password := strlcpy 96 (q_password q)\<rparr>
      in if q_platform_type q = MQTT_PLATFORM_THINGSCLOUD then
           (let cfg = cfg\<lparr>rc_mqtt := q\<lparr>q_qos := 0, q_retain := False, q_lwt_enabled := False\<rparr>\<rparr>;
                s = (if mq_client_id s \<noteq> [] then s
                     else s\<lparr>mq_client_id :=
                         (case me_mac env of
                            Some mac \<Rightarrow> strlcpy 48 (''GW_'' @ concat (map (\<lambda>b. hex True 2 (unat b)) mac))
                          | None \<Rightarrow> strlcpy 48 MQTT_CLIENT_ID)\<rparr>)
            in (s, cfg))
         else (s, cfg))"

definition mqtt_build_client_config :: "runtime_config \<Rightarrow> bool \<Rightarrow> mqtt_state \<Rightarrow> client_config" where
  "mqtt_build_client_config cfg disable_auto_reconnect s =
     (let q = rc_mqtt cfg;
          clean = (if q_platform_type q = MQTT_PLATFORM_THINGSCLOUD then True else q_clean_session q)
      in \<lparr>cc_uri = mq_broker s, cc_client_id = mq_client_id s,
          cc_username = (if mq_username s \<noteq> [] then Some (mq_username s) else None),
          cc_password = (if mq_password s \<noteq> [] then Some (mq_password s) else None),
          cc_keepalive = q_keepalive_sec q, cc_disable_clean_session = (\<not> clean),
          cc_lwt = (if q_lwt_enabled q then Some (q_lwt_topic q, q_lwt_payload q) else None),
          cc_lwt_qos = q_lwt_qos q, cc_lwt_retain = q_lwt_retain q,
          cc_disable_auto_reconnect = disable_auto_reconnect\<rparr>)"

section \<open>Life cycle\<close>

definition mqtt_configured :: "mqtt_config \<Rightarrow> bool" where
  "mqtt_configured q \<longleftrightarrow> q_uri q \<noteq> [] \<and> \<not> (q_uri q = MQTT_BROKER_URI \<and> q_username q = [] \<and> q_password q = [])"

text \<open>The end of the initialisation, with the client registered: subscriptions, and the start if there is one.\<close>

definition mqtt_first_start :: "mqtt_env \<Rightarrow> bool \<Rightarrow> runtime_config \<Rightarrow> mqtt_state \<Rightarrow> mqtt_state" where
  "mqtt_first_start env should_start cfg s =
     (let s = mqtt_register_runtime_subscriptions env cfg
                (mqtt_set_state MQTT_STATE_DISCONNECTED (s\<lparr>mq_initialized := True, mq_started := False\<rparr>))
      in if \<not> should_start then
           mqtt_set_connect_reason
             (Some (if q_enabled (rc_mqtt cfg)
                    then ''unconfigured; resident MQTT client is waiting for configuration''
                    else ''disabled; resident MQTT client is waiting for configuration''))
             (mqtt_reserve_future_task_stack env s)
         else
           let s = emit (EspStart (me_start env = ESP_OK)) (mqtt_release_task_stack_reserve s) in
           if me_start env \<noteq> ESP_OK then
             (mqtt_reserve_future_task_stack env
               (mqtt_set_connect_reason (Some ''unable to create MQTT task: insufficient contiguous internal SRAM'') s))
               \<lparr>mq_conn := MQTT_STATE_ERROR\<rparr>
           else
             mqtt_set_connect_reason (Some ''MQTT client started; waiting for broker'') (s\<lparr>mq_started := True\<rparr>))"

definition mqtt_init_unlocked :: "mqtt_env \<Rightarrow> mqtt_state \<Rightarrow> mqtt_state" where
  "mqtt_init_unlocked env s =
     (if mq_initialized s then s
      else
        let cfg = me_config env;
            should_start = (q_enabled (rc_mqtt cfg) \<and> mqtt_configured (rc_mqtt cfg));
            s = s\<lparr>mq_auth_failures := 0, mq_suspended := \<not> should_start\<rparr>;
            (s, cfg) = mqtt_load_runtime_settings env cfg s;
            s = (if mq_mutex s then s else s\<lparr>mq_mutex := me_mutex env\<rparr>)
        in if \<not> mq_mutex s then s\<lparr>mq_conn := MQTT_STATE_ERROR\<rparr>
           else
             let s = s\<lparr>mq_tracked := no_tracked, mq_success_count := 0, mq_fail_count := 0, mq_last_publish_ms := 0\<rparr>;
                 s = emit (EspInit (mqtt_build_client_config cfg False s) (me_client env)) s
             in if \<not> me_client env then s\<lparr>mq_client := False, mq_conn := MQTT_STATE_ERROR\<rparr>
                else if me_register env \<noteq> ESP_OK
                then (emit EspDestroy s)\<lparr>mq_client := False, mq_conn := MQTT_STATE_ERROR\<rparr>
                else mqtt_first_start env should_start cfg (s\<lparr>mq_client := True\<rparr>))"

definition mqtt_init :: "mqtt_env \<Rightarrow> mqtt_state \<Rightarrow> mqtt_state" where
  "mqtt_init env s =
     (let (s, supervised) = mqtt_start_supervisor env s in
      if \<not> supervised then mqtt_set_state MQTT_STATE_ERROR s
      else
        let s = (if mq_lifecycle s then s else s\<lparr>mq_lifecycle := me_lifecycle env\<rparr>) in
        if \<not> mq_lifecycle s then mqtt_set_state MQTT_STATE_ERROR s else mqtt_init_unlocked env s)"

definition mqtt_destroy_unlocked :: "mqtt_env \<Rightarrow> mqtt_state \<Rightarrow> mqtt_state" where
  "mqtt_destroy_unlocked env s =
     (if \<not> mq_initialized s then s
      else
        let stop = mq_client s \<and> mq_started s; s = (if stop then emit (EspStop (me_stop env = ESP_OK)) s else s) in
        if stop \<and> me_stop env \<noteq> ESP_OK then s
        else
          let s = (if stop then s\<lparr>mq_started := False\<rparr> else s);
              s = (if mq_client s then (emit EspDestroy s)\<lparr>mq_client := False\<rparr> else s);
              s = mqtt_release_task_stack_reserve s
          in s\<lparr>mq_conn := MQTT_STATE_DISCONNECTED, mq_tracked := no_tracked, mq_ack_callback := False, mq_success_count := 0,
               mq_fail_count := 0, mq_last_publish_ms := 0, mq_connected_since_ms := 0, mq_initialized := False,
               mq_started := False\<rparr>)"

text \<open>The mutex of the life cycle changes nothing for one caller.\<close>

definition mqtt_destroy :: "mqtt_env \<Rightarrow> mqtt_state \<Rightarrow> mqtt_state" where
  "mqtt_destroy env s = mqtt_destroy_unlocked env s"

definition mqtt_disconnect :: "mqtt_env \<Rightarrow> mqtt_state \<Rightarrow> mqtt_state \<times> esp_err" where
  "mqtt_disconnect env s =
     (if \<not> mq_lifecycle s \<or> \<not> mq_initialized s \<or> \<not> mq_client s then (s, ESP_ERR_INVALID_STATE)
      else
        let s = s\<lparr>mq_suspended := True\<rparr> in
        if \<not> mq_started s then
          (mqtt_set_connect_reason (Some ''disconnected; resident MQTT client is waiting for configuration'')
             (s\<lparr>mq_conn := MQTT_STATE_DISCONNECTED\<rparr>), ESP_OK)
        else
          let (s, cfg) = mqtt_load_runtime_settings env (me_config env) s;
              s = emit (EspSetConfig (mqtt_build_client_config cfg True s)) s
          in if me_set_config env \<noteq> ESP_OK then (s\<lparr>mq_suspended := False\<rparr>, me_set_config env)
             else
               let s = emit EspDisconnect s in
               if me_disconnect env \<noteq> ESP_OK then (s, me_disconnect env)
               else
                 (mqtt_set_connect_reason (Some ''disconnected; resident MQTT task is waiting for configuration'')
                    (s\<lparr>mq_conn := MQTT_STATE_DISCONNECTED, mq_connected_since_ms := 0\<rparr>), ESP_OK))"

definition mqtt_suspend_async :: "mqtt_env \<Rightarrow> string option \<Rightarrow> mqtt_state \<Rightarrow> mqtt_state" where
  "mqtt_suspend_async env reason s =
     (let s = s\<lparr>mq_suspended := True, mq_reason := strlcpy 160 (case reason of Some r \<Rightarrow> r | None \<Rightarrow> ''MQTT suspended'')\<rparr>;
          (s, supervised) = mqtt_start_supervisor env s
      in if supervised then s\<lparr>mq_notified := True\<rparr> else s)"

text \<open>One round of the supervisor task.\<close>

definition mqtt_supervisor_task :: "mqtt_env \<Rightarrow> mqtt_state \<Rightarrow> mqtt_state" where
  "mqtt_supervisor_task env s =
     (if \<not> mq_notified s then s
      else
        let s = s\<lparr>mq_notified := False\<rparr>; reason = mq_reason s
        in mqtt_set_connect_reason (Some reason) (fst (mqtt_disconnect env s)))"

section \<open>Events of the client\<close>

definition int_text :: "int \<Rightarrow> string" where
  "int_text n = (if n < 0 then CHR ''-'' # dec (nat (- n)) else dec (nat n))"

fun hex_text :: "nat \<Rightarrow> string" where
  "hex_text n = (if n < 16 then [hex_char False n] else hex_text (n div 16) @ [hex_char False (n mod 16)])"

declare hex_text.simps [simp del]

definition mqtt_event_handler :: "mqtt_env \<Rightarrow> mqtt_event \<Rightarrow> mqtt_state \<Rightarrow> mqtt_state" where
  "mqtt_event_handler env ev s =
     (case ev of
        EvConnected \<Rightarrow>
          (let s = s\<lparr>mq_connected_since_ms := me_now env, mq_connects := mq_connects s + 1, mq_auth_failures := 0\<rparr>;
               s = mqtt_set_connect_reason (Some ''connected to broker'') (mqtt_set_state MQTT_STATE_CONNECTED s);
               s = fold (\<lambda>b s. if sb_active b then emit (EspSubscribe (sb_topic b) (sb_qos b)) s else s) (mq_subs s) s;
               q = rc_mqtt (me_config env);
               s = (if q_lwt_enabled q \<and> q_lwt_topic q \<noteq> []
                    then emit (EspPublish (q_lwt_topic q) ''online'' (uint (q_lwt_qos q)) (q_lwt_retain q)) s else s)
           in if q_platform_type q = MQTT_PLATFORM_THINGSCLOUD then emit ThingscloudConnected s else s)
      | EvDisconnected \<Rightarrow>
          (let s = (if mq_connected_since_ms s > 0 then s\<lparr>mq_last_session_ms := me_now env - mq_connected_since_ms s\<rparr> else s)
           in mqtt_set_state MQTT_STATE_DISCONNECTED
                (s\<lparr>mq_disconnects := mq_disconnects s + 1, mq_connected_since_ms := 0\<rparr>))
      | EvData topic payload \<Rightarrow>
          (case mqtt_find_subscription topic s of
             Some i \<Rightarrow> emit (Callback (sb_callback (mq_subs s ! i)) topic payload) s
           | None \<Rightarrow> s)
      | EvPublished msg_id \<Rightarrow>
          (case find_slot (\<lambda>t. tp_active t \<and> tp_msg_id t = msg_id) (mq_tracked s) of
             None \<Rightarrow> s
           | Some i \<Rightarrow>
               (let token = tp_token (mq_tracked s ! i);
                    s = s\<lparr>mq_tracked := (mq_tracked s)[i := (mq_tracked s ! i)\<lparr>tp_active := False\<rparr>]\<rparr>
                in if mq_ack_callback s then emit (AckCallback token) s else s))
      | EvTcpError errno code \<Rightarrow>
          mqtt_set_state MQTT_STATE_ERROR
            (mqtt_set_connect_reason
               (Some (strlcpy 160 (''network/TCP error (sock_errno='' @ int_text errno @ '' esp_err=0x'' @ hex_text (unat code) @ '')'')))
               (s\<lparr>mq_errors := mq_errors s + 1\<rparr>))
      | EvRefused code \<Rightarrow>
          (let s = s\<lparr>mq_errors := mq_errors s + 1\<rparr>;
               auth = (code = 5);
               s = (if auth \<and> mq_auth_failures s < 255 then s\<lparr>mq_auth_failures := mq_auth_failures s + 1\<rparr> else s);
               suspend = (auth \<and> 3 \<le> mq_auth_failures s);
               s = mqtt_set_connect_reason
                     (Some (if auth then ''broker rejected authentication (CONNACK 5): verify AccessToken and ProjectKey''
                            else strlcpy 160 (''broker refused connection (CONNACK '' @ int_text code @ '')''))) s;
               s = mqtt_set_state MQTT_STATE_ERROR s
           in if suspend then mqtt_suspend_async env (Some ''reconnect suspended after 3 authentication rejections'') s else s)
      | EvError \<Rightarrow> mqtt_set_state MQTT_STATE_ERROR (s\<lparr>mq_errors := mq_errors s + 1\<rparr>)
      | EvOther \<Rightarrow> s)"

definition mqtt_events :: "mqtt_env \<Rightarrow> mqtt_event list \<Rightarrow> mqtt_state \<Rightarrow> mqtt_state" where
  "mqtt_events env = fold (mqtt_event_handler env)"

section \<open>Restarting and testing the connection\<close>

text \<open>The client object exists and has no task: it is configured and started.\<close>

definition restart_stopped :: "mqtt_env \<Rightarrow> runtime_config \<Rightarrow> client_config \<Rightarrow> mqtt_state \<Rightarrow> mqtt_state \<times> esp_err" where
  "restart_stopped env cfg client s =
     (let s = emit (EspSetConfig client) s;
          ready = (me_set_config env = ESP_OK);
          s = (if ready
               then emit (EspStart (me_start env = ESP_OK))
                      (mqtt_release_task_stack_reserve (mqtt_register_runtime_subscriptions env cfg s)) else s);
          err = (if ready then me_start env else me_set_config env)
      in if err = ESP_OK
         then (mqtt_set_connect_reason (Some ''configuration applied; resident MQTT task started'')
                 (mqtt_set_state MQTT_STATE_DISCONNECTED (s\<lparr>mq_started := True\<rparr>)), ESP_OK)
         else (mqtt_set_connect_reason (Some ''unable to create MQTT task: insufficient contiguous internal SRAM'')
                 (mqtt_set_state MQTT_STATE_ERROR (mqtt_reserve_future_task_stack env s)), err))"

text \<open>The client runs: it is disconnected, configured and told to connect again.\<close>

definition restart_running :: "mqtt_env \<Rightarrow> runtime_config \<Rightarrow> client_config \<Rightarrow> mqtt_state \<Rightarrow> mqtt_state \<times> esp_err" where
  "restart_running env cfg client s =
     (let s = emit EspDisconnect s in
      if me_disconnect env \<noteq> ESP_OK then (s, me_disconnect env)
      else
        let s = emit (EspSetConfig client) (mqtt_events env (me_during env) s) in
        if me_set_config env \<noteq> ESP_OK then (s, me_set_config env)
        else (emit EspReconnect
                (mqtt_set_connect_reason (Some ''configuration applied; reconnect requested on resident MQTT task'')
                  (mqtt_register_runtime_subscriptions env cfg s)), me_reconnect env))"

definition mqtt_restart :: "mqtt_env \<Rightarrow> mqtt_state \<Rightarrow> mqtt_state \<times> esp_err" where
  "mqtt_restart env s =
     (let s = (if mq_lifecycle s then s else s\<lparr>mq_lifecycle := me_lifecycle env\<rparr>); cfg = me_config env in
      if \<not> mq_lifecycle s then (s, ESP_ERR_NO_MEM)
      else if \<not> q_enabled (rc_mqtt cfg) then mqtt_disconnect env s
      else if \<not> mq_initialized s \<or> \<not> mq_client s then
        (let s = mqtt_init_unlocked env s in (s, if mq_initialized s \<and> mq_client s then ESP_OK else ESP_ERR_INVALID_STATE))
      else
        let (s, cfg) = mqtt_load_runtime_settings env cfg s;
            client = mqtt_build_client_config cfg False s;
            s = s\<lparr>mq_suspended := False, mq_auth_failures := 0\<rparr>
        in if \<not> mq_started s then restart_stopped env cfg client s else restart_running env cfg client s)"

definition mqtt_reconnect :: "mqtt_env \<Rightarrow> mqtt_state \<Rightarrow> mqtt_state \<times> esp_err" where
  "mqtt_reconnect env s =
     (if mq_suspended s then (s, ESP_ERR_INVALID_STATE)
      else if \<not> mq_lifecycle s \<or> \<not> mq_initialized s \<or> \<not> mq_client s then mqtt_restart env s
      else (emit EspReconnect s, me_reconnect env))"

text \<open>
  The wait of a connection test: one list of events for each pause of 100 ms. The result is the status and,
  where the caller passed a buffer, the reason.
\<close>

fun test_wait :: "mqtt_env \<Rightarrow> nat \<Rightarrow> mqtt_event list list \<Rightarrow> mqtt_state \<Rightarrow> mqtt_state \<times> esp_err \<times> string" where
  "test_wait env len (evs # pauses) s =
     (if mq_conn s = MQTT_STATE_CONNECTED then (s, ESP_OK, strlcpy len ''connected to broker'')
      else if mq_reason s \<noteq> ''connection test in progress'' \<and> mq_conn s = MQTT_STATE_ERROR
      then (s, ESP_FAIL, strlcpy len (mq_reason s))
      else test_wait env len pauses (mqtt_events env evs s))"
| "test_wait env len [] s =
     (let reason = strlcpy len (mq_reason s)
      in (s, ESP_ERR_TIMEOUT, if reason = ''connection test in progress'' then strlcpy len ''broker connection timed out'' else reason))"

definition mqtt_test_connection ::
  "mqtt_env \<Rightarrow> (esp_err \<Rightarrow> string) \<Rightarrow> string option \<Rightarrow> string option \<Rightarrow> string option \<Rightarrow> nat \<Rightarrow> mqtt_event list list \<Rightarrow> mqtt_state
    \<Rightarrow> mqtt_state \<times> esp_err \<times> string" where
  "mqtt_test_connection env err_name uri username password len pauses s =
     (let q = rc_mqtt (me_config env) in
      case uri of
        None \<Rightarrow> (s, ESP_ERR_INVALID_ARG, strlcpy len ''empty broker URI'')
      | Some uri \<Rightarrow>
          (if uri = [] then (s, ESP_ERR_INVALID_ARG, strlcpy len ''empty broker URI'')
           else if uri \<noteq> q_uri q \<or> (case username of Some u \<Rightarrow> u \<noteq> q_username q | None \<Rightarrow> False) \<or>
                   (case password of Some p \<Rightarrow> p \<noteq> q_password q | None \<Rightarrow> False)
           then (s, ESP_ERR_INVALID_STATE, strlcpy len ''save the MQTT settings before testing the active connection'')
           else
             let (s, err) = mqtt_reconnect env (mqtt_set_connect_reason (Some ''connection test in progress'') s) in
             if err \<noteq> ESP_OK then (s, err, strlcpy len (''unable to start MQTT reconnect: '' @ err_name err))
             else test_wait env len pauses s))"

text \<open>The number of pauses of a test with the given timeout.\<close>

definition test_pauses :: "int \<Rightarrow> nat" where
  "test_pauses timeout_ms = nat (((if timeout_ms > 0 then timeout_ms else 15000) + 99) div 100)"

section \<open>Observers\<close>

record mqtt_diagnostics =
  di_state :: mqtt_conn_state
  di_connect_count :: u32
  di_disconnect_count :: u32
  di_error_count :: u32
  di_last_session_duration_ms :: ms
  di_suspended :: bool
  di_last_reason :: string

definition mqtt_get_connection_state :: "mqtt_state \<Rightarrow> mqtt_conn_state" where
  "mqtt_get_connection_state s = mq_conn s"

definition mqtt_is_connected :: "mqtt_state \<Rightarrow> bool" where
  "mqtt_is_connected s \<longleftrightarrow> mqtt_get_connection_state s = MQTT_STATE_CONNECTED"

definition mqtt_get_diagnostics :: "mqtt_state \<Rightarrow> mqtt_diagnostics" where
  "mqtt_get_diagnostics s =
     \<lparr>di_state = mq_conn s, di_connect_count = mq_connects s, di_disconnect_count = mq_disconnects s,
      di_error_count = mq_errors s, di_last_session_duration_ms = mq_last_session_ms s, di_suspended = mq_suspended s,
      di_last_reason = strlcpy 160 (mq_reason s)\<rparr>"

section \<open>The calls the client allows\<close>

text \<open>
  The client object: none, or one that is started or not. A call that the object does not allow
  (creating a second one, using one that was destroyed, starting or stopping twice, destroying a started one)
  makes the sequence illegal.
\<close>

fun client_call :: "mqtt_effect \<Rightarrow> bool option \<Rightarrow> bool option option" where
  "client_call (EspInit c ok) None = Some (if ok then Some False else None)"
| "client_call EspDestroy (Some False) = Some None"
| "client_call (EspStart ok) (Some False) = Some (Some ok)"
| "client_call (EspStop ok) (Some True) = Some (Some (\<not> ok))"
| "client_call (EspSetConfig c) (Some r) = Some (Some r)"
| "client_call EspDisconnect (Some r) = Some (Some r)"
| "client_call EspReconnect (Some r) = Some (Some r)"
| "client_call (EspSubscribe t q) (Some r) = Some (Some r)"
| "client_call (EspPublish t p q r') (Some r) = Some (Some r)"
| "client_call (Callback b t p) c = Some c"
| "client_call (AckCallback t) c = Some c"
| "client_call ThingscloudConnected c = Some c"
| "client_call _ _ = None"

definition client_trace :: "mqtt_effect list \<Rightarrow> bool option option" where
  "client_trace es = fold (\<lambda>e c. Option.bind c (client_call e)) es (Some None)"

text \<open>What other tasks may ask for, each with what the client answers then; events only reach a started client.\<close>

datatype mqtt_request =
    Init | Destroy | Restart | Reconnect | Disconnect | Suspend "string option" | Supervise | Event mqtt_event
  | Subscribe "string option" int "mqtt_callback option"
  | Publish "string option" "string option" int
  | Publish_tracked "string option" "string option" int u32
  | Set_ack bool

definition mqtt_step :: "mqtt_env \<times> mqtt_request \<Rightarrow> mqtt_state \<Rightarrow> mqtt_state" where
  "mqtt_step req s =
     (case req of
        (env, Init) \<Rightarrow> mqtt_init env s
      | (env, Destroy) \<Rightarrow> mqtt_destroy env s
      | (env, Restart) \<Rightarrow> fst (mqtt_restart env s)
      | (env, Reconnect) \<Rightarrow> fst (mqtt_reconnect env s)
      | (env, Disconnect) \<Rightarrow> fst (mqtt_disconnect env s)
      | (env, Suspend reason) \<Rightarrow> mqtt_suspend_async env reason s
      | (env, Supervise) \<Rightarrow> mqtt_supervisor_task env s
      | (env, Event ev) \<Rightarrow> (if mq_started s then mqtt_event_handler env ev s else s)
      | (env, Subscribe topic qos cb) \<Rightarrow> fst (mqtt_subscribe env topic qos cb s)
      | (env, Publish topic payload qos) \<Rightarrow> fst (mqtt_publish env topic payload qos s)
      | (env, Publish_tracked topic payload qos token) \<Rightarrow> fst (mqtt_publish_tracked env topic payload qos token s)
      | (env, Set_ack cb) \<Rightarrow> mqtt_set_publish_ack_callback cb s)"

definition mqtt_run :: "(mqtt_env \<times> mqtt_request) list \<Rightarrow> mqtt_state \<Rightarrow> mqtt_state" where
  "mqtt_run = fold mqtt_step"

section \<open>Lemmas: the client object\<close>

definition client_ok :: "mqtt_state \<Rightarrow> bool" where
  "client_ok s \<longleftrightarrow> client_trace (mq_effects s) = Some (if mq_client s then Some (mq_started s) else None) \<and>
     mq_initialized s = mq_client s \<and> (mq_started s \<longrightarrow> mq_client s)"

lemma client_trace_append [simp]: "client_trace (es @ fs) = fold (\<lambda>e c. Option.bind c (client_call e)) fs (client_trace es)"
  by (simp add: client_trace_def)

text \<open>What the object depends on, so that an operation that keeps it keeps \<open>client_ok\<close>.\<close>

definition client_view :: "mqtt_state \<Rightarrow> bool option option \<times> bool \<times> bool \<times> bool" where
  "client_view s = (client_trace (mq_effects s), mq_client s, mq_started s, mq_initialized s)"

lemma client_ok_cong: "client_view s = client_view t \<Longrightarrow> client_ok s = client_ok t"
  by (simp add: client_view_def client_ok_def)

lemma view_frames [frame_simps]:
  "client_view (mqtt_reserve_future_task_stack env s) = client_view s"
  "client_view (mqtt_release_task_stack_reserve s) = client_view s"
  "client_view (mqtt_set_state c s) = client_view s"
  "client_view (mqtt_set_connect_reason r s) = client_view s"
  "client_view (fst (mqtt_start_supervisor env s)) = client_view s"
  "client_view (fst (mqtt_load_runtime_settings env cfg s)) = client_view s"
  "client_view (mqtt_set_publish_ack_callback cb s) = client_view s"
  "client_view (mqtt_suspend_async env rs s) = client_view s"
  by (simp_all add: client_view_def mqtt_reserve_future_task_stack_def mqtt_release_task_stack_reserve_def mqtt_set_state_def
      mqtt_set_connect_reason_def mqtt_start_supervisor_def mqtt_load_runtime_settings_def mqtt_set_publish_ack_callback_def
      mqtt_suspend_async_def Let_def split_beta)

lemma field_frames [frame_simps]:
  "mq_initialized (mqtt_set_state c s) = mq_initialized s" "mq_client (mqtt_set_state c s) = mq_client s"
  "mq_started (mqtt_set_state c s) = mq_started s" "mq_effects (mqtt_set_state c s) = mq_effects s"
  "mq_initialized (mqtt_set_connect_reason r s) = mq_initialized s" "mq_client (mqtt_set_connect_reason r s) = mq_client s"
  "mq_started (mqtt_set_connect_reason r s) = mq_started s" "mq_effects (mqtt_set_connect_reason r s) = mq_effects s"
  "mq_initialized (mqtt_release_task_stack_reserve s) = mq_initialized s" "mq_client (mqtt_release_task_stack_reserve s) = mq_client s"
  "mq_started (mqtt_release_task_stack_reserve s) = mq_started s" "mq_effects (mqtt_release_task_stack_reserve s) = mq_effects s"
  "mq_initialized (mqtt_reserve_future_task_stack env s) = mq_initialized s" "mq_client (mqtt_reserve_future_task_stack env s) = mq_client s"
  "mq_started (mqtt_reserve_future_task_stack env s) = mq_started s" "mq_effects (mqtt_reserve_future_task_stack env s) = mq_effects s"
  "mq_initialized (emit e s) = mq_initialized s" "mq_client (emit e s) = mq_client s" "mq_started (emit e s) = mq_started s"
  "mq_effects (emit e s) = mq_effects s @ [e]"
  by (simp_all add: mqtt_set_state_def mqtt_set_connect_reason_def mqtt_release_task_stack_reserve_def
      mqtt_reserve_future_task_stack_def emit_def)

lemma load_settings_frames [frame_simps]:
  "mq_initialized (fst (mqtt_load_runtime_settings env cfg s)) = mq_initialized s"
  "mq_client (fst (mqtt_load_runtime_settings env cfg s)) = mq_client s"
  "mq_started (fst (mqtt_load_runtime_settings env cfg s)) = mq_started s"
  "mq_effects (fst (mqtt_load_runtime_settings env cfg s)) = mq_effects s"
  "mq_mutex (fst (mqtt_load_runtime_settings env cfg s)) = mq_mutex s"
  "mq_suspended (fst (mqtt_load_runtime_settings env cfg s)) = mq_suspended s"
  by (simp_all add: mqtt_load_runtime_settings_def Let_def)

lemma subscribe_ok: "client_ok s \<Longrightarrow> client_ok (fst (mqtt_subscribe env topic qos cb s))"
  by (auto simp: client_ok_def mqtt_subscribe_def emit_def Let_def split: option.splits)

lemma subscribe_fields [frame_simps]:
  "mq_initialized (fst (mqtt_subscribe env topic qos cb s)) = mq_initialized s"
  "mq_client (fst (mqtt_subscribe env topic qos cb s)) = mq_client s"
  "mq_started (fst (mqtt_subscribe env topic qos cb s)) = mq_started s"
  by (auto simp: mqtt_subscribe_def emit_def Let_def split: option.splits)

lemma register_ok: "client_ok s \<Longrightarrow> client_ok (mqtt_register_runtime_subscriptions env cfg s)"
proof -
  assume "client_ok s"
  then have "client_ok (s\<lparr>mq_subs := []\<rparr>)" by (simp add: client_ok_def)
  then show ?thesis by (simp add: mqtt_register_runtime_subscriptions_def Let_def subscribe_ok)
qed

lemma register_fields [frame_simps]:
  "mq_initialized (mqtt_register_runtime_subscriptions env cfg s) = mq_initialized s"
  "mq_client (mqtt_register_runtime_subscriptions env cfg s) = mq_client s"
  "mq_started (mqtt_register_runtime_subscriptions env cfg s) = mq_started s"
  by (simp_all add: mqtt_register_runtime_subscriptions_def Let_def frame_simps)

lemma publish_ok: "client_ok s \<Longrightarrow> client_ok (fst (mqtt_publish env topic payload qos s))"
  by (auto simp: client_ok_def mqtt_publish_def emit_def Let_def split: option.splits)

lemma tracked_ok: "client_ok s \<Longrightarrow> client_ok (fst (mqtt_publish_tracked env topic payload qos token s))"
  by (auto simp: client_ok_def mqtt_publish_tracked_def tracked_send_def tracked_register_def emit_def Let_def split: option.splits sum.splits)

lemma resubscribe_ok:
  "client_ok s \<Longrightarrow> mq_client s \<Longrightarrow>
   client_ok (fold (\<lambda>b s. if sb_active b then emit (EspSubscribe (sb_topic b) (sb_qos b)) s else s) bs s) \<and>
   mq_client (fold (\<lambda>b s. if sb_active b then emit (EspSubscribe (sb_topic b) (sb_qos b)) s else s) bs s)"
  by (induction bs arbitrary: s) (auto simp: client_ok_def emit_def)

text \<open>An event keeps the client object as it is, and so do the events of a whole pause.\<close>

lemma suspend_fields [frame_simps]:
  "mq_initialized (mqtt_suspend_async env r s) = mq_initialized s" "mq_client (mqtt_suspend_async env r s) = mq_client s"
  "mq_started (mqtt_suspend_async env r s) = mq_started s" "mq_effects (mqtt_suspend_async env r s) = mq_effects s"
  by (simp_all add: mqtt_suspend_async_def mqtt_start_supervisor_def Let_def)

lemma fold_fields:
  "mq_initialized (fold (\<lambda>b s. if sb_active b then emit (EspSubscribe (sb_topic b) (sb_qos b)) s else s) bs s) = mq_initialized s \<and>
   mq_started (fold (\<lambda>b s. if sb_active b then emit (EspSubscribe (sb_topic b) (sb_qos b)) s else s) bs s) = mq_started s"
  by (induction bs arbitrary: s) (simp_all add: emit_def)

lemma connected_ok:
  assumes "client_ok s" "mq_client s"
  shows "client_ok (mqtt_event_handler env EvConnected s) \<and>
    mq_started (mqtt_event_handler env EvConnected s) = mq_started s \<and> mq_client (mqtt_event_handler env EvConnected s)"
proof -
  define t where "t = mqtt_set_connect_reason (Some ''connected to broker'') (mqtt_set_state MQTT_STATE_CONNECTED
    (s\<lparr>mq_connected_since_ms := me_now env, mq_connects := mq_connects s + 1, mq_auth_failures := 0\<rparr>))"
  define u where "u = fold (\<lambda>b s. if sb_active b then emit (EspSubscribe (sb_topic b) (sb_qos b)) s else s) (mq_subs t) t"
  have "client_ok t" "mq_client t" "mq_started t = mq_started s" using assms
    by (simp_all add: t_def client_ok_def frame_simps)
  then have u: "client_ok u" "mq_client u" "mq_started u = mq_started s"
    using resubscribe_ok [of t "mq_subs t"] fold_fields [of "mq_subs t" t] by (simp_all add: u_def)
  then show ?thesis
    unfolding mqtt_event_handler_def mqtt_event.case Let_def t_def [symmetric] u_def [symmetric]
    by (simp add: client_ok_def emit_def)
qed

lemma event_ok:
  assumes "client_ok s" "mq_started s"
  shows "client_ok (mqtt_event_handler env ev s) \<and> mq_started (mqtt_event_handler env ev s)"
proof (cases "ev = EvConnected")
  case True
  then show ?thesis using connected_ok [OF assms(1)] assms by (simp add: client_ok_def)
next
  case False
  then show ?thesis using assms
    by (cases ev) (auto simp: mqtt_event_handler_def client_ok_def Let_def frame_simps emit_def split: option.splits)
qed

lemma events_ok:
  "client_ok s \<Longrightarrow> mq_started s \<Longrightarrow> client_ok (mqtt_events env evs s) \<and> mq_started (mqtt_events env evs s)"
  by (induction evs arbitrary: s) (simp_all add: mqtt_events_def event_ok)

lemma first_start_ok:
  assumes "client_trace (mq_effects s) = Some (Some False)" "mq_client s"
  shows "client_ok (mqtt_first_start env go cfg s)"
proof -
  define t where "t = mqtt_register_runtime_subscriptions env cfg
    (mqtt_set_state MQTT_STATE_DISCONNECTED (s\<lparr>mq_initialized := True, mq_started := False\<rparr>))"
  have "client_ok (mqtt_set_state MQTT_STATE_DISCONNECTED (s\<lparr>mq_initialized := True, mq_started := False\<rparr>))"
    using assms by (simp add: client_ok_def frame_simps)
  then have "client_ok t" "mq_client t" "mq_initialized t" "\<not> mq_started t"
    using assms(2) by (simp_all add: t_def register_ok frame_simps)
  then show ?thesis
    unfolding mqtt_first_start_def Let_def t_def [symmetric]
    by (auto simp: client_ok_def frame_simps)
qed

lemma init_unlocked_ok:
  assumes "client_ok s"
  shows "client_ok (mqtt_init_unlocked env s)"
proof (cases "mq_initialized s")
  case False
  then have f: "\<not> mq_client s" "\<not> mq_started s" "client_trace (mq_effects s) = Some None"
    using assms by (auto simp: client_ok_def)
  show ?thesis
    using False f first_start_ok
    by (auto simp: mqtt_init_unlocked_def Let_def split_beta frame_simps client_ok_def [of "_\<lparr>mq_conn := _\<rparr>"] emit_def
        client_ok_def [of "_\<lparr>mq_client := _, mq_conn := _\<rparr>"])
qed (simp add: mqtt_init_unlocked_def assms)

lemma destroy_ok: "client_ok s \<Longrightarrow> client_ok (mqtt_destroy env s)"
  by (auto simp: mqtt_destroy_def mqtt_destroy_unlocked_def client_ok_def Let_def frame_simps)

lemma disconnect_ok: "client_ok s \<Longrightarrow> client_ok (fst (mqtt_disconnect env s))"
  by (auto simp: mqtt_disconnect_def client_ok_def Let_def split_beta frame_simps)

lemma init_ok: "client_ok s \<Longrightarrow> client_ok (mqtt_init env s)"
  by (auto simp: mqtt_init_def Let_def split_beta mqtt_start_supervisor_def mqtt_set_state_def client_ok_def [of "_\<lparr>mq_conn := _\<rparr>"]
      intro!: init_unlocked_ok) (auto simp: client_ok_def)

lemma configured_ok: "client_ok s \<Longrightarrow> mq_client s \<Longrightarrow> client_ok (emit (EspSetConfig c) s)"
  by (simp add: client_ok_def frame_simps)

lemma restart_stopped_ok:
  assumes "client_ok s" "mq_client s" "\<not> mq_started s"
  shows "client_ok (fst (restart_stopped env cfg client s))"
proof -
  have "client_ok (mqtt_register_runtime_subscriptions env cfg (emit (EspSetConfig client) s))"
    using configured_ok [OF assms(1,2)] by (rule register_ok)
  then show ?thesis using configured_ok [OF assms(1,2), of client] assms(2,3)
    by (auto simp: restart_stopped_def Let_def client_ok_def frame_simps)
qed

lemma restart_running_ok:
  assumes "client_ok s" "mq_started s"
  shows "client_ok (fst (restart_running env cfg client s))"
proof -
  have dis: "client_ok (emit EspDisconnect s)" "mq_started (emit EspDisconnect s)"
    using assms by (simp_all add: client_ok_def frame_simps)
  define t where "t = mqtt_events env (me_during env) (emit EspDisconnect s)"
  have "client_ok t" "mq_started t" using events_ok [OF dis] by (simp_all add: t_def)
  then have t: "client_ok (emit (EspSetConfig client) t)" "mq_client t" by (simp_all add: client_ok_def frame_simps)
  have "client_ok (mqtt_register_runtime_subscriptions env cfg (emit (EspSetConfig client) t))" using t(1) by (rule register_ok)
  then show ?thesis using dis t
    unfolding restart_running_def Let_def t_def [symmetric] by (auto simp: client_ok_def frame_simps)
qed

lemma restart_ok:
  assumes "client_ok s"
  shows "client_ok (fst (mqtt_restart env s))"
proof -
  define t where "t = (if mq_lifecycle s then s else s\<lparr>mq_lifecycle := me_lifecycle env\<rparr>)"
  have t: "client_ok t" using assms by (auto simp: t_def client_ok_def)
  define u where "u = (fst (mqtt_load_runtime_settings env (me_config env) t))\<lparr>mq_suspended := False, mq_auth_failures := 0\<rparr>"
  have u: "client_ok u" "mq_client u = mq_client t" "mq_started u = mq_started t"
    using t by (simp_all add: u_def client_ok_def frame_simps)
  show ?thesis
    using t u restart_stopped_ok [OF u(1)] restart_running_ok [OF u(1)] disconnect_ok [OF t] init_unlocked_ok [OF t]
    unfolding mqtt_restart_def Let_def t_def [symmetric] split_beta fst_conv u_def [symmetric]
    by auto
qed

lemma reconnect_ok: "client_ok s \<Longrightarrow> client_ok (fst (mqtt_reconnect env s))"
  using restart_ok [of s env] by (auto simp: mqtt_reconnect_def) (auto simp: client_ok_def frame_simps)

lemma supervisor_ok: "client_ok s \<Longrightarrow> client_ok (mqtt_supervisor_task env s)"
  using disconnect_ok [of "s\<lparr>mq_notified := False\<rparr>" env]
  by (auto simp: mqtt_supervisor_task_def Let_def) (auto simp: client_ok_def frame_simps)

lemma set_ack_ok: "client_ok s \<Longrightarrow> client_ok (mqtt_set_publish_ack_callback cb s)"
  by (simp add: mqtt_set_publish_ack_callback_def client_ok_def)

lemma suspend_ok: "client_ok s \<Longrightarrow> client_ok (mqtt_suspend_async env r s)"
  by (simp add: client_ok_def frame_simps)

lemma step_client_ok: "client_ok s \<Longrightarrow> client_ok (mqtt_step req s)"
  by (cases req; cases "snd req")
    (auto simp: mqtt_step_def init_ok destroy_ok restart_ok reconnect_ok disconnect_ok supervisor_ok event_ok subscribe_ok
      publish_ok tracked_ok set_ack_ok suspend_ok)

section \<open>Lemmas: subscriptions\<close>

definition subs_ok :: "mqtt_state \<Rightarrow> bool" where
  "subs_ok s \<longleftrightarrow> length (mq_subs s) \<le> MQTT_MAX_SUBSCRIPTIONS \<and> distinct (map sb_topic (mq_subs s)) \<and>
     (\<forall>b \<in> set (mq_subs s). sb_active b \<and> length (sb_topic b) < MQTT_MAX_TOPIC_LEN)"

lemma emit_subs_ok [simp]: "subs_ok (emit e s) = subs_ok s" "mq_subs (emit e s) = mq_subs s"
  by (simp_all add: subs_ok_def emit_def)

lemma add_subs_ok:
  assumes "subs_ok s" "length (mq_subs s) < MQTT_MAX_SUBSCRIPTIONS" "length t < MQTT_MAX_TOPIC_LEN"
    "\<forall>b \<in> set (mq_subs s). sb_topic b \<noteq> t"
  shows "subs_ok (s\<lparr>mq_subs := mq_subs s @ [\<lparr>sb_topic = t, sb_qos = q, sb_callback = c, sb_active = True\<rparr>]\<rparr>)"
  using assms by (auto simp: subs_ok_def)

lemma subscribe_subs_ok: "subs_ok s \<Longrightarrow> subs_ok (fst (mqtt_subscribe env topic qos cb s))"
proof -
  assume ok: "subs_ok s"
  have up: "subs_ok (s\<lparr>mq_subs := (mq_subs s)[i := (mq_subs s ! i)\<lparr>sb_callback := c, sb_qos := q\<rparr>]\<rparr>)" for i c q
  proof (cases "i < length (mq_subs s)")
    case True
    have "map sb_topic ((mq_subs s)[i := (mq_subs s ! i)\<lparr>sb_callback := c, sb_qos := q\<rparr>]) = map sb_topic (mq_subs s)"
      using True by (intro nth_equalityI) (auto simp: nth_list_update)
    moreover have "mq_subs s ! i \<in> set (mq_subs s)" using True by simp
    ultimately show ?thesis using ok set_update_subset_insert [of "mq_subs s" i]
      by (fastforce simp: subs_ok_def)
  qed (use ok in \<open>simp add: subs_ok_def list_update_beyond\<close>)
  have new: "\<forall>b \<in> set (mq_subs s). sb_topic b \<noteq> t" if "find_slot (\<lambda>b. sb_active b \<and> sb_topic b = t) (mq_subs s) = None" for t
    using that ok by (auto simp: find_slot_None subs_ok_def)
  show ?thesis using ok up add_subs_ok [OF ok _ _ new]
    by (simp add: mqtt_subscribe_def Let_def split: option.split)
qed

text \<open>Subscribing to a new topic while there is room.\<close>

lemma subscribe_new:
  assumes "mq_initialized s" "mq_client s" "length t < MQTT_MAX_TOPIC_LEN" "length (mq_subs s) < MQTT_MAX_SUBSCRIPTIONS"
    "t \<notin> sb_topic ` set (mq_subs s)"
  shows "mq_subs (fst (mqtt_subscribe env (Some t) q (Some c) s)) =
    mq_subs s @ [\<lparr>sb_topic = t, sb_qos = q, sb_callback = c, sb_active = True\<rparr>]"
proof -
  have "find_slot (\<lambda>b. sb_active b \<and> sb_topic b = t) (mq_subs s) = None"
    using assms(5) by (auto simp: find_slot_None)
  then show ?thesis using assms by (simp add: mqtt_subscribe_def Let_def)
qed

lemmas topic_defs = TC_TOPIC_ATTR_RESPONSE_def TC_TOPIC_ATTR_PUSH_def TC_TOPIC_GATEWAY_ATTR_RESPONSE_def
  TC_TOPIC_GATEWAY_ATTR_PUSH_def TC_TOPIC_GATEWAY_CMD_SEND_def

lemma topics_differ:
  "distinct [TC_TOPIC_ATTR_RESPONSE, TC_TOPIC_ATTR_PUSH, TC_TOPIC_GATEWAY_ATTR_RESPONSE, TC_TOPIC_GATEWAY_ATTR_PUSH,
     TC_TOPIC_GATEWAY_CMD_SEND]"
  "\<forall>t \<in> {TC_TOPIC_ATTR_RESPONSE, TC_TOPIC_ATTR_PUSH, TC_TOPIC_GATEWAY_ATTR_RESPONSE, TC_TOPIC_GATEWAY_ATTR_PUSH,
     TC_TOPIC_GATEWAY_CMD_SEND}. length t < MQTT_MAX_TOPIC_LEN \<and> t \<noteq> [] \<and> last t \<noteq> CHR ''#''"
  by (simp_all add: topic_defs)

lemma register_subs:
  assumes "mq_initialized s" "mq_client s"
  shows "mq_subs (mqtt_register_runtime_subscriptions env cfg s) =
    (let sub = \<lambda>t q c. \<lparr>sb_topic = t, sb_qos = q, sb_callback = c, sb_active = True\<rparr> in
     if q_platform_type (rc_mqtt cfg) = MQTT_PLATFORM_THINGSCLOUD
     then [sub TC_TOPIC_ATTR_RESPONSE 0 On_attributes_response, sub TC_TOPIC_ATTR_PUSH 0 On_gateway_attributes_push] @
       (if q_report_mode (rc_mqtt cfg) = MQ_REPORT_SUBDEVICE
        then [sub TC_TOPIC_GATEWAY_ATTR_RESPONSE 0 On_gateway_attributes_response,
              sub TC_TOPIC_GATEWAY_ATTR_PUSH 0 On_attributes_push, sub TC_TOPIC_GATEWAY_CMD_SEND 0 On_command_send] else [])
     else [sub (strlcpy 128 (q_command_prefix (rc_mqtt cfg) @ rc_gateway_id cfg)) 1 Mqtt_command])"
  using assms length_strlcpy [of 128 "q_command_prefix (rc_mqtt cfg) @ rc_gateway_id cfg"] topics_differ [simplified]
    topics_differ(1) [simplified, THEN conjunct1, THEN not_sym]
  by (auto simp: mqtt_register_runtime_subscriptions_def subscribe_new frame_simps Let_def)

lemma plain_topics:
  "filter_matches TC_TOPIC_ATTR_RESPONSE t \<longleftrightarrow> TC_TOPIC_ATTR_RESPONSE = t"
  "filter_matches TC_TOPIC_ATTR_PUSH t \<longleftrightarrow> TC_TOPIC_ATTR_PUSH = t"
  "filter_matches TC_TOPIC_GATEWAY_ATTR_RESPONSE t \<longleftrightarrow> TC_TOPIC_GATEWAY_ATTR_RESPONSE = t"
  "filter_matches TC_TOPIC_GATEWAY_ATTR_PUSH t \<longleftrightarrow> TC_TOPIC_GATEWAY_ATTR_PUSH = t"
  "filter_matches TC_TOPIC_GATEWAY_CMD_SEND t \<longleftrightarrow> TC_TOPIC_GATEWAY_CMD_SEND = t"
  using topics_differ(2) by (auto simp: filter_matches_def)

text \<open>The call back the configuration has for a topic.\<close>

definition config_callback :: "runtime_config \<Rightarrow> string \<Rightarrow> mqtt_callback option" where
  "config_callback cfg topic =
     (let sub = (q_report_mode (rc_mqtt cfg) = MQ_REPORT_SUBDEVICE) in
      if q_platform_type (rc_mqtt cfg) = MQTT_PLATFORM_THINGSCLOUD then
        (if topic = TC_TOPIC_ATTR_RESPONSE then Some On_attributes_response
         else if topic = TC_TOPIC_ATTR_PUSH then Some On_gateway_attributes_push
         else if sub \<and> topic = TC_TOPIC_GATEWAY_ATTR_RESPONSE then Some On_gateway_attributes_response
         else if sub \<and> topic = TC_TOPIC_GATEWAY_ATTR_PUSH then Some On_attributes_push
         else if sub \<and> topic = TC_TOPIC_GATEWAY_CMD_SEND then Some On_command_send
         else None)
      else if filter_matches (strlcpy 128 (q_command_prefix (rc_mqtt cfg) @ rc_gateway_id cfg)) topic then Some Mqtt_command
      else None)"

section \<open>Lemmas: acknowledgements\<close>

definition acks :: "mqtt_state \<Rightarrow> u32 list" where
  "acks s = concat (map (\<lambda>e. case e of AckCallback t \<Rightarrow> [t] | _ \<Rightarrow> []) (mq_effects s))"

text \<open>The publications that wait for their acknowledgement.\<close>

definition waiting :: "mqtt_state \<Rightarrow> (int \<times> u32) multiset" where
  "waiting s = image_mset (\<lambda>t. (tp_msg_id t, tp_token t)) (filter_mset tp_active (mset (mq_tracked s)))"

text \<open>
  The calls of mqtt_publish_tracked and the events of the client task, as they interleave. A call sends its message first and enters it
  in the table later; between the two its message id is in flight. The client task may handle any event in between.
\<close>

datatype track_step =
  Sending mqtt_env "string option" "string option" int u32 | Entering ms nat | Arrived mqtt_env mqtt_event

definition track_step :: "track_step \<Rightarrow> mqtt_state \<times> (int \<times> u32) list \<Rightarrow> mqtt_state \<times> (int \<times> u32) list" where
  "track_step x = (\<lambda>(s, flight).
     case x of
       Sending env topic payload qos token \<Rightarrow>
         (case tracked_send env topic payload qos s of
            (s, Inl i) \<Rightarrow> (s, flight @ [(i, token)]) | (s, Inr _) \<Rightarrow> (s, flight))
     | Entering now k \<Rightarrow>
         (if k < length flight
          then (fst (tracked_register now (fst (flight ! k)) (snd (flight ! k)) s), take k flight @ drop (Suc k) flight)
          else (s, flight))
     | Arrived env ev \<Rightarrow> (mqtt_event_handler env ev s, flight))"

text \<open>
  What the table is to do, told with the message ids alone: of the publications that were sent, the ones that are
  entered while fewer than 32 wait, and of the acknowledgements, the ones whose id waits when they arrive.
\<close>

definition acknowledged_id :: "mqtt_event \<Rightarrow> int option" where
  "acknowledged_id ev = (case ev of EvPublished i \<Rightarrow> Some i | _ \<Rightarrow> None)"

fun track_book :: "track_step list \<Rightarrow> (int \<times> u32) list \<Rightarrow> int list \<Rightarrow> (int \<times> u32) list \<times> int list" where
  "track_book [] flight w = ([], [])"
| "track_book (Sending env (Some topic) (Some payload) qos token # xs) flight w =
     track_book xs (if 1 \<le> qos \<and> 0 \<le> me_publish env topic payload then flight @ [(me_publish env topic payload, token)]
       else flight) w"
| "track_book (Sending env None payload qos token # xs) flight w = track_book xs flight w"
| "track_book (Sending env (Some topic) None qos token # xs) flight w = track_book xs flight w"
| "track_book (Entering now k # xs) flight w =
     (if k < length flight then
        let rest = take k flight @ drop (Suc k) flight in
        if length w < MQTT_MAX_TRACKED_PUBLISHES
        then (flight ! k # fst (track_book xs rest (fst (flight ! k) # w)), snd (track_book xs rest (fst (flight ! k) # w)))
        else track_book xs rest w
      else track_book xs flight w)"
| "track_book (Arrived env ev # xs) flight w =
     (case acknowledged_id ev of
        Some i \<Rightarrow>
          if i \<in> set w then (fst (track_book xs flight (remove1 i w)), i # snd (track_book xs flight (remove1 i w)))
          else track_book xs flight w
      | None \<Rightarrow> track_book xs flight w)"

definition track_rel :: "mqtt_state \<Rightarrow> int list \<Rightarrow> bool" where
  "track_rel s w \<longleftrightarrow> image_mset fst (waiting s) = mset w \<and> length (mq_tracked s) = MQTT_MAX_TRACKED_PUBLISHES \<and>
     mq_ack_callback s \<and> mq_initialized s \<and> mq_client s"

lemma waiting_update:
  assumes "i < length (mq_tracked s)"
  shows "waiting (s\<lparr>mq_tracked := (mq_tracked s)[i := t]\<rparr>) =
    (if tp_active t then {#(tp_msg_id t, tp_token t)#} else {#}) +
    (waiting s - (if tp_active (mq_tracked s ! i) then {#(tp_msg_id (mq_tracked s ! i), tp_token (mq_tracked s ! i))#} else {#}))"
proof -
  have m: "mq_tracked s ! i \<in># mset (mq_tracked s)" using assms by simp
  show ?thesis using assms m
    by (auto simp: waiting_def mset_update filter_diff_mset image_mset_Diff)
qed

lemma acks_emit [simp]:
  "acks (emit (AckCallback t) s) = acks s @ [t]"
  "acks (emit (EspPublish a b c d) s) = acks s" "acks (emit (EspSubscribe a q) s) = acks s"
  "acks (emit ThingscloudConnected s) = acks s" "acks (emit (Callback cb a b) s) = acks s"
  by (simp_all add: acks_def emit_def)

text \<open>What the acknowledgements depend on.\<close>

definition ack_view :: "mqtt_state \<Rightarrow> tracked_publish list \<times> u32 list \<times> bool \<times> bool \<times> bool" where
  "ack_view s = (mq_tracked s, acks s, mq_ack_callback s, mq_initialized s, mq_client s)"

lemma ack_frames [frame_simps]:
  "ack_view (mqtt_set_state c s) = ack_view s" "ack_view (mqtt_set_connect_reason r s) = ack_view s"
  "ack_view (mqtt_suspend_async env r s) = ack_view s"
  by (simp_all add: ack_view_def mqtt_set_state_def mqtt_set_connect_reason_def mqtt_suspend_async_def
      mqtt_start_supervisor_def acks_def Let_def)

lemma ack_view_fold:
  "ack_view (fold (\<lambda>b s. if sb_active b then emit (EspSubscribe (sb_topic b) (sb_qos b)) s else s) bs s) = ack_view s"
  by (induction bs arbitrary: s) (simp_all add: ack_view_def, simp_all add: emit_def)

lemma ack_view_updates:
  "ack_view (s\<lparr>mq_errors := e\<rparr>) = ack_view s" "ack_view (s\<lparr>mq_auth_failures := f\<rparr>) = ack_view s"
  "ack_view (s\<lparr>mq_connected_since_ms := t, mq_connects := c\<rparr>) = ack_view s"
  "ack_view (s\<lparr>mq_last_session_ms := t\<rparr>) = ack_view s"
  "ack_view (s\<lparr>mq_disconnects := d, mq_connected_since_ms := t\<rparr>) = ack_view s"
  by (simp_all add: ack_view_def acks_def)

lemma ack_view_emit:
  "ack_view (emit (EspPublish a b c d) s) = ack_view s" "ack_view (emit ThingscloudConnected s) = ack_view s"
  "ack_view (emit (Callback cb a b) s) = ack_view s"
  by (simp_all add: ack_view_def, simp_all add: emit_def)

lemma other_event_acks:
  assumes "\<forall>i. ev \<noteq> EvPublished i"
  shows "ack_view (mqtt_event_handler env ev s) = ack_view s"
  using assms
  by (cases ev)
    (auto simp: mqtt_event_handler_def Let_def frame_simps ack_view_updates ack_view_fold ack_view_emit split: option.split)

lemma waiting_ids: "i \<in> fst ` set_mset (waiting s) \<longleftrightarrow> (\<exists>t \<in> set (mq_tracked s). tp_active t \<and> tp_msg_id t = i)"
  by (auto simp: waiting_def image_iff)

lemma rel_ids: "track_rel s w \<Longrightarrow> set w = fst ` set_mset (waiting s)"
  by (metis track_rel_def set_image_mset set_mset_mset)

lemma ack_step:
  assumes "track_rel s w"
  shows "if i \<in> set w
    then \<exists>token. (i, token) \<in># waiting s \<and> track_rel (mqtt_event_handler env (EvPublished i) s) (remove1 i w) \<and>
      acks (mqtt_event_handler env (EvPublished i) s) = acks s @ [token] \<and>
      waiting (mqtt_event_handler env (EvPublished i) s) = waiting s - {#(i, token)#}
    else mqtt_event_handler env (EvPublished i) s = s"
proof (cases "find_slot (\<lambda>t. tp_active t \<and> tp_msg_id t = i) (mq_tracked s)")
  case None
  then have "i \<notin> set w" using rel_ids [OF assms] waiting_ids [of i s] by (auto simp: find_slot_None)
  then show ?thesis using None by (simp add: mqtt_event_handler_def)
next
  case (Some k)
  define t where "t = mq_tracked s ! k"
  have k: "k < length (mq_tracked s)" "tp_active t" "tp_msg_id t = i" using Some by (auto simp: find_slot_Some t_def)
  have mem: "(i, tp_token t) \<in># waiting s" using k nth_mem [OF k(1)] by (auto simp: waiting_def t_def)
  then have i: "i \<in> set w" using rel_ids [OF assms] by force
  define u where "u = s\<lparr>mq_tracked := (mq_tracked s)[k := t\<lparr>tp_active := False\<rparr>]\<rparr>"
  have w: "waiting u = waiting s - {#(i, tp_token t)#}"
    unfolding u_def using waiting_update [OF k(1), of "t\<lparr>tp_active := False\<rparr>"] k(2,3) t_def by simp
  then have "image_mset fst (waiting u) = mset (remove1 i w)"
    using assms mem by (simp add: track_rel_def image_mset_Diff)
  then have "track_rel u (remove1 i w)" using assms by (simp add: track_rel_def u_def)
  moreover have "mqtt_event_handler env (EvPublished i) s = emit (AckCallback (tp_token t)) u"
    using Some assms by (simp add: mqtt_event_handler_def Let_def track_rel_def u_def t_def)
  moreover have "acks u = acks s" by (simp add: u_def acks_def)
  moreover have "waiting (emit (AckCallback (tp_token t)) u) = waiting u" by (simp add: waiting_def emit_def)
  ultimately show ?thesis using i mem w
    by (simp add: track_rel_def) (auto simp: emit_def)
qed

lemma waiting_size:
  assumes "track_rel s w"
  shows "find_slot (\<lambda>t. \<not> tp_active t) (mq_tracked s) = None \<longleftrightarrow> \<not> length w < MQTT_MAX_TRACKED_PUBLISHES"
proof -
  have "length w = size (waiting s)" using assms by (metis track_rel_def size_image_mset size_mset)
  also have "\<dots> = length (filter tp_active (mq_tracked s))"
    by (simp add: waiting_def flip: mset_filter)
  finally have m: "length w = length (filter tp_active (mq_tracked s))" .
  have len: "length (mq_tracked s) = MQTT_MAX_TRACKED_PUBLISHES" using assms by (simp add: track_rel_def)
  have "length (filter tp_active xs) = length xs \<longleftrightarrow> (\<forall>t \<in> set xs. tp_active t)" for xs
    by (metis filter_True length_filter_less less_irrefl)
  then show ?thesis using m len length_filter_le [of tp_active "mq_tracked s"]
    by (metis find_slot_None le_neq_implies_less less_irrefl)
qed

lemma register_acks [simp]:
  "acks (fst (tracked_register now i token s)) = acks s"
  by (simp add: tracked_register_def acks_def split: option.split)

lemma register_step:
  assumes "track_rel s w"
  shows "if length w < MQTT_MAX_TRACKED_PUBLISHES
    then track_rel (fst (tracked_register now i token s)) (i # w) \<and>
      waiting (fst (tracked_register now i token s)) = add_mset (i, token) (waiting s)
    else fst (tracked_register now i token s) = s"
proof (cases "find_slot (\<lambda>t. \<not> tp_active t) (mq_tracked s)")
  case None
  then show ?thesis using waiting_size [OF assms] by (simp add: tracked_register_def)
next
  case (Some k)
  have k: "k < length (mq_tracked s)" "\<not> tp_active (mq_tracked s ! k)" using Some by (auto simp: find_slot_Some)
  define t where "t = \<lparr>tp_msg_id = i, tp_token = token, tp_active = True\<rparr>"
  define u where "u = s\<lparr>mq_tracked := (mq_tracked s)[k := t]\<rparr>"
  have "waiting u = add_mset (i, token) (waiting s)"
    unfolding u_def using waiting_update [OF k(1), of t] k(2) by (simp add: t_def)
  moreover have "waiting (fst (tracked_register now i token s)) = waiting u"
    by (simp add: tracked_register_def Some u_def t_def waiting_def)
  ultimately show ?thesis using assms Some waiting_size [OF assms]
    by (auto simp: track_rel_def) (auto simp: tracked_register_def)
qed

lemma send_step:
  assumes "track_rel s w" "tracked_send env topic payload qos s = (t, r)"
  shows "track_rel t w \<and> acks t = acks s \<and> waiting t = waiting s \<and>
    r = (case (topic, payload) of
      (Some topic, Some payload) \<Rightarrow>
        if qos < 1 then Inr ESP_ERR_INVALID_ARG else if me_publish env topic payload < 0 then Inr ESP_FAIL
        else Inl (me_publish env topic payload)
    | _ \<Rightarrow> Inr ESP_ERR_INVALID_ARG)"
  using assms
  by (auto simp: tracked_send_def track_rel_def waiting_def emit_def acks_def Let_def split: option.splits if_splits)

lemma step_arrived [simp]: "track_step (Arrived env ev) (s, flight) = (mqtt_event_handler env ev s, flight)"
  by (simp add: track_step_def)

lemma track_run:
  "track_rel s w \<Longrightarrow>
   \<exists>ps. acks (fst (fold track_step xs (s, flight))) = acks s @ map snd ps \<and> map fst ps = snd (track_book xs flight w) \<and>
     waiting (fst (fold track_step xs (s, flight))) + mset ps = waiting s + mset (fst (track_book xs flight w)) \<and>
     size (waiting (fst (fold track_step xs (s, flight)))) \<le> MQTT_MAX_TRACKED_PUBLISHES"
proof (induction xs flight w arbitrary: s rule: track_book.induct)
  case (1 flight w)
  have "size (waiting s) \<le> length (mq_tracked s)"
    using size_filter_mset_lesseq [of tp_active "mset (mq_tracked s)"] by (simp add: waiting_def)
  then show ?case using 1 by (auto simp: track_rel_def intro!: exI [of _ "[]"])
next
  case (2 env topic payload qos token xs flight w)
  obtain t r where send: "tracked_send env (Some topic) (Some payload) qos s = (t, r)" by fastforce
  from send_step [OF 2(2) send] show ?case using 2(1) [of t] send
    by (cases "1 \<le> qos \<and> 0 \<le> me_publish env topic payload") (auto simp: track_step_def)
next
  case (3 env payload qos token xs flight w)
  then show ?case by (simp add: track_step_def tracked_send_def)
next
  case (4 env topic qos token xs flight w)
  then show ?case by (simp add: track_step_def tracked_send_def)
next
  case (5 now k xs flight w)
  show ?case
  proof (cases "k < length flight")
    case False
    then show ?thesis using 5 by (simp add: track_step_def)
  next
    case k: True
    note step = register_step [OF "5.prems", of now "fst (flight ! k)" "snd (flight ! k)"]
    show ?thesis
    proof (cases "length w < MQTT_MAX_TRACKED_PUBLISHES")
      case False
      then show ?thesis using "5.IH"(3) [OF k refl False] "5.prems" step k by (simp add: track_step_def Let_def)
    next
      case True
      from step True "5.IH"(1) [OF k refl True, of "fst (tracked_register now (fst (flight ! k)) (snd (flight ! k)) s)"]
      show ?thesis using k True by (auto simp: track_step_def Let_def)
    qed
  qed
next
  case (6 env ev xs flight w)
  show ?case
  proof (cases "acknowledged_id ev")
    case None
    then have v: "ack_view (mqtt_event_handler env ev s) = ack_view s"
      by (intro other_event_acks) (auto simp: acknowledged_id_def)
    then have "track_rel (mqtt_event_handler env ev s) w" "acks (mqtt_event_handler env ev s) = acks s"
      "waiting (mqtt_event_handler env ev s) = waiting s"
      using "6.prems" by (simp_all add: ack_view_def track_rel_def waiting_def)
    then show ?thesis using None "6.IH"(1) [OF None, of "mqtt_event_handler env ev s"] by simp
  next
    case (Some i)
    then have ev: "ev = EvPublished i" by (simp add: acknowledged_id_def split: mqtt_event.splits)
    note step = ack_step [OF "6.prems", of i env]
    show ?thesis
    proof (cases "i \<in> set w")
      case False
      then show ?thesis using "6.IH"(4) [OF Some False "6.prems"] step Some by (simp add: ev)
    next
      case i: True
      then obtain token where t: "(i, token) \<in># waiting s" "track_rel (mqtt_event_handler env ev s) (remove1 i w)"
        "acks (mqtt_event_handler env ev s) = acks s @ [token]"
        "waiting (mqtt_event_handler env ev s) = waiting s - {#(i, token)#}"
        using step by (auto simp: ev)
      then obtain ps where "acks (fst (fold track_step xs (mqtt_event_handler env ev s, flight))) = acks s @ token # map snd ps"
        "map fst ps = snd (track_book xs flight (remove1 i w))"
        "waiting (fst (fold track_step xs (mqtt_event_handler env ev s, flight))) + mset ps =
          waiting s - {#(i, token)#} + mset (fst (track_book xs flight (remove1 i w)))"
        "size (waiting (fst (fold track_step xs (mqtt_event_handler env ev s, flight)))) \<le> MQTT_MAX_TRACKED_PUBLISHES"
        using "6.IH"(2) [OF Some i t(2)] t(3,4) by auto
      then show ?thesis using i t(1) Some
        by (intro exI [of _ "(i, token) # ps"]) auto
    qed
  qed
qed

section \<open>Lemmas: suspension\<close>

lemma suspended_fold:
  "mq_suspended (fold (\<lambda>b s. if sb_active b then emit (EspSubscribe (sb_topic b) (sb_qos b)) s else s) bs s) = mq_suspended s \<and>
   mq_notified (fold (\<lambda>b s. if sb_active b then emit (EspSubscribe (sb_topic b) (sb_qos b)) s else s) bs s) = mq_notified s"
  by (induction bs arbitrary: s) (simp_all add: emit_def)

definition can_supervise :: "mqtt_env \<Rightarrow> mqtt_state \<Rightarrow> bool" where
  "can_supervise env s \<longleftrightarrow> mq_supervisor s \<or> me_supervisor env"

lemma auth_count: "unat (f + 1) = Suc (unat f)" if "f < 255" for f :: u8
proof -
  have "f + 1 \<noteq> 0"
  proof
    assume "f + 1 = 0"
    then have "f = - 1" by (simp add: add_eq_0_iff2)
    then show False using that by simp
  qed
  then show ?thesis using unatSuc [of f] by (simp add: add.commute)
qed

text \<open>Suspended, or the \<open>n\<close> authentication failures to come will suspend.\<close>

definition suspends :: "nat \<Rightarrow> mqtt_state \<Rightarrow> bool" where
  "suspends n s \<longleftrightarrow> mq_suspended s \<and> mq_notified s \<or> 0 < n \<and> 3 \<le> unat (mq_auth_failures s) + n"

lemma refusal_suspends:
  assumes "can_supervise env s" "suspends (Suc n) s"
  shows "can_supervise env (mqtt_event_handler env (EvRefused 5) s) \<and> suspends n (mqtt_event_handler env (EvRefused 5) s)"
proof -
  define f where "f = (if mq_auth_failures s < 255 then mq_auth_failures s + 1 else mq_auth_failures s)"
  have f: "3 \<le> f \<or> 0 < n \<and> 3 \<le> unat f + n" if "3 \<le> unat (mq_auth_failures s) + Suc n"
  proof (cases "mq_auth_failures s < 255")
    case True
    then have "unat f = Suc (unat (mq_auth_failures s))" by (simp add: f_def auth_count)
    then show ?thesis using that by (cases "3 \<le> unat f") (auto simp: word_le_nat_alt)
  next
    case False
    then show ?thesis by (simp add: f_def word_le_nat_alt word_less_nat_alt)
  qed
  have susp: "mq_suspended (mqtt_suspend_async env r t)" for r t
    by (simp add: mqtt_suspend_async_def mqtt_start_supervisor_def Let_def)
  have noti: "can_supervise env t \<Longrightarrow> mq_notified (mqtt_suspend_async env r t) \<and> can_supervise env (mqtt_suspend_async env r t)" for r t
    by (auto simp: mqtt_suspend_async_def mqtt_start_supervisor_def can_supervise_def Let_def)
  define t where "t = mqtt_set_state MQTT_STATE_ERROR
    (mqtt_set_connect_reason (Some ''broker rejected authentication (CONNACK 5): verify AccessToken and ProjectKey'')
      (s\<lparr>mq_errors := mq_errors s + 1, mq_auth_failures := f\<rparr>))"
  have h: "mqtt_event_handler env (EvRefused 5) s =
    (if 3 \<le> f then mqtt_suspend_async env (Some ''reconnect suspended after 3 authentication rejections'') t else t)"
    by (simp add: mqtt_event_handler_def Let_def f_def t_def)
  have t: "can_supervise env t" "mq_suspended t = mq_suspended s" "mq_notified t = mq_notified s" "mq_auth_failures t = f"
    using assms(1) by (simp_all add: t_def can_supervise_def mqtt_set_state_def mqtt_set_connect_reason_def)
  show ?thesis using assms(2) f t susp noti [OF t(1)] unfolding h by (auto simp: suspends_def)
qed

lemma other_event_suspends:
  assumes "ev \<noteq> EvConnected" "ev \<noteq> EvRefused 5" "can_supervise env s" "suspends n s"
  shows "can_supervise env (mqtt_event_handler env ev s) \<and> suspends n (mqtt_event_handler env ev s)"
  using assms
  by (cases ev)
    (auto simp: mqtt_event_handler_def mqtt_set_state_def mqtt_set_connect_reason_def can_supervise_def suspends_def Let_def emit_def
      split: option.split)

lemma events_suspend:
  "EvConnected \<notin> set evs \<Longrightarrow> can_supervise env s \<Longrightarrow> suspends (length (filter ((=) (EvRefused 5)) evs)) s \<Longrightarrow>
   suspends 0 (mqtt_events env evs s)"
proof (induction evs arbitrary: s)
  case (Cons ev evs)
  have "can_supervise env (mqtt_event_handler env ev s) \<and>
    suspends (length (filter ((=) (EvRefused 5)) evs)) (mqtt_event_handler env ev s)"
  proof (cases "ev = EvRefused 5")
    case True
    then show ?thesis using refusal_suspends Cons.prems by simp
  next
    case False
    then show ?thesis using other_event_suspends [of ev] Cons.prems by auto
  qed
  then show ?case using Cons.IH [of "mqtt_event_handler env ev s"] Cons.prems(1) by (simp add: mqtt_events_def)
qed (simp add: mqtt_events_def)

section \<open>Properties\<close>

text \<open>
  C9. Whatever the tasks ask for in whatever order, and whichever of the calls fail, the ESP-MQTT client is
  used correctly: one client at a time, never used after it was destroyed, never started or stopped twice,
  never destroyed while it runs; and the flags of the handler always agree with the client.
\<close>

theorem client_used_correctly:
  "client_trace (mq_effects (mqtt_run reqs mqtt_boot)) =
     Some (if mq_client (mqtt_run reqs mqtt_boot) then Some (mq_started (mqtt_run reqs mqtt_boot)) else None) \<and>
   mq_initialized (mqtt_run reqs mqtt_boot) = mq_client (mqtt_run reqs mqtt_boot)"
proof -
  have "client_ok (mqtt_run reqs s)" if "client_ok s" for s
    using that by (induction reqs arbitrary: s) (simp_all add: mqtt_run_def step_client_ok)
  moreover have "client_ok mqtt_boot" by (simp add: client_ok_def mqtt_boot_def client_trace_def)
  ultimately show ?thesis by (simp add: client_ok_def)
qed

text \<open>
  C19. Acknowledgements, with the sending of a message and its entry in the table as two steps between which the client
  task may handle any event, and whatever message ids the client gives: the call back runs once for every
  acknowledgement whose id waits in the table when it arrives, with the token of a publication that was entered with
  that id, in the order of the acknowledgements; every entered publication has either had its call back or still waits;
  and at most 32 wait. (An acknowledgement that comes before its publication is entered is not answered:
  early_acknowledgement_lost. The client is neither stopped nor destroyed meanwhile, and the call back stays set.)
\<close>

theorem acknowledged_once:
  fixes xs :: "track_step list"
  assumes "mq_initialized s" "mq_client s" "mq_ack_callback s" "mq_tracked s = no_tracked"
  defines "u \<equiv> fst (fold track_step xs (s, []))"
  shows "\<exists>ps. acks u = acks s @ map snd ps \<and> map fst ps = snd (track_book xs [] []) \<and>
    waiting u + mset ps = mset (fst (track_book xs [] [])) \<and> size (waiting u) \<le> MQTT_MAX_TRACKED_PUBLISHES"
proof -
  have "track_rel s []" "waiting s = {#}" using assms(1-4) by (simp_all add: track_rel_def waiting_def no_tracked_def)
  then show ?thesis using track_run [of s "[]" xs "[]"] by (simp add: u_def)
qed

text \<open>
  A message reaches the call back that the active configuration has for its topic, and no other.
\<close>

theorem messages_dispatched:
  assumes "mq_initialized s" "mq_client s"
  shows "mqtt_event_handler env' (EvData topic payload) (mqtt_register_runtime_subscriptions env cfg s) =
    (case config_callback cfg topic of
       Some cb \<Rightarrow> emit (Callback cb topic payload) (mqtt_register_runtime_subscriptions env cfg s)
     | None \<Rightarrow> mqtt_register_runtime_subscriptions env cfg s)"
proof -
  define r where "r = mqtt_register_runtime_subscriptions env cfg s"
  have h: "mqtt_event_handler env' (EvData topic payload) r =
    (case find_slot (\<lambda>b. sb_active b \<and> filter_matches (sb_topic b) topic) (mq_subs r) of
       Some i \<Rightarrow> emit (Callback (sb_callback (mq_subs r ! i)) topic payload) r | None \<Rightarrow> r)"
    by (simp add: mqtt_event_handler_def mqtt_find_subscription_def)
  note subs = register_subs [OF assms, of env cfg, folded r_def, unfolded Let_def]
  show ?thesis
  proof (cases "q_platform_type (rc_mqtt cfg) = MQTT_PLATFORM_THINGSCLOUD")
    case False
    then show ?thesis using h subs unfolding r_def [symmetric] by (simp add: config_callback_def)
  next
    case True
    then show ?thesis using h subs unfolding r_def [symmetric]
      by (simp add: config_callback_def plain_topics eq_commute [of topic])
  qed
qed

text \<open>
  C22. Three refused authentications without a connection in between suspend the client: right after the events
  mqtt_reconnect is refused, the supervisor task is notified, and its next round, when the client takes the new
  configuration, disconnects the client without automatic reconnection and leaves it suspended. (A restart lifts the
  suspension, and so does a round in which the client does not take the configuration.)
\<close>

theorem refused_client_suspended:
  assumes "EvConnected \<notin> set evs" "3 \<le> length (filter ((=) (EvRefused 5)) evs)" "mq_supervisor s \<or> me_supervisor env"
  defines "t \<equiv> mqtt_events env evs s"
  shows "mq_suspended t \<and> mq_notified t \<and> mqtt_reconnect env' t = (t, ESP_ERR_INVALID_STATE) \<and>
    (client_ok t \<and> mq_started t \<and> mq_lifecycle t \<and> me_set_config env' = ESP_OK \<longrightarrow>
      (\<exists>c. cc_disable_auto_reconnect c \<and> mq_suspended (mqtt_supervisor_task env' t) \<and>
        mq_effects (mqtt_supervisor_task env' t) = mq_effects t @ [EspSetConfig c, EspDisconnect]))"
proof -
  have "suspends (length (filter ((=) (EvRefused 5)) evs)) s"
    using assms(2) unfolding suspends_def by linarith
  then have t: "mq_suspended t" "mq_notified t"
    using events_suspend [OF assms(1), of env s] assms(3) by (auto simp: can_supervise_def suspends_def t_def)
  define u where "u = fst (mqtt_load_runtime_settings env' (me_config env') (t\<lparr>mq_notified := False, mq_suspended := True\<rparr>))"
  have u: "mq_effects u = mq_effects t" "mq_suspended u" by (simp_all add: u_def frame_simps)
  have "\<exists>c. cc_disable_auto_reconnect c \<and> mq_suspended (mqtt_supervisor_task env' t) \<and>
      mq_effects (mqtt_supervisor_task env' t) = mq_effects t @ [EspSetConfig c, EspDisconnect]"
    if run: "client_ok t" "mq_started t" "mq_lifecycle t" "me_set_config env' = ESP_OK"
  proof -
    have on: "mq_initialized t" "mq_client t" using run by (simp_all add: client_ok_def)
    have "mqtt_supervisor_task env' t = mqtt_set_connect_reason (Some (mq_reason t)) (fst (mqtt_disconnect env' (t\<lparr>mq_notified := False\<rparr>)))"
      using t by (simp add: mqtt_supervisor_task_def Let_def)
    then show ?thesis using run on u
      by (simp add: mqtt_disconnect_def Let_def split_beta u_def [symmetric] frame_simps)
        (auto simp: mqtt_set_connect_reason_def emit_def mqtt_build_client_config_def Let_def)
  qed
  then show ?thesis using t by (auto simp: mqtt_reconnect_def)
qed

text \<open>
  An acknowledgement that arrives before its slot is taken is lost: the call back never runs for it, and the
  slot stays taken.
\<close>

theorem early_acknowledgement_lost:
  assumes "tracked_send env topic payload qos s = (sent, Inl i)" "i \<notin> fst ` set_mset (waiting s)"
    "tracked_register now i token (mqtt_event_handler env (EvPublished i) sent) = (u, ESP_OK)"
  shows "acks u = acks s \<and> (i, token) \<in># waiting u"
proof -
  have sent: "mq_tracked sent = mq_tracked s" "acks sent = acks s"
    using assms(1) by (auto simp: tracked_send_def emit_def acks_def Let_def split: option.splits if_splits)
  have "find_slot (\<lambda>t. tp_active t \<and> tp_msg_id t = i) (mq_tracked sent) = None"
    using assms(2) sent(1) by (auto simp: find_slot_None waiting_ids)
  then have r: "tracked_register now i token sent = (u, ESP_OK)" using assms(3) by (simp add: mqtt_event_handler_def)
  then obtain k where "k < length (mq_tracked sent)"
    and u: "mq_tracked u = (mq_tracked sent)[k := \<lparr>tp_msg_id = i, tp_token = token, tp_active = True\<rparr>]"
    by (auto simp: tracked_register_def find_slot_Some split: option.splits)
  then have "\<lparr>tp_msg_id = i, tp_token = token, tp_active = True\<rparr> \<in> set (mq_tracked u)"
    by (simp add: set_update_memI)
  then have "(i, token) \<in># waiting u" by (force simp: waiting_def)
  then show ?thesis using register_acks [of now i token sent] r sent(2) by simp
qed

section \<open>Witnesses\<close>

definition demo_env :: mqtt_env where
  "demo_env = \<lparr>me_config = load_defaults, me_now = 1000, me_mac = None, me_mutex = True, me_lifecycle = True, me_supervisor = True,
     me_reserve = True, me_client = True, me_register = ESP_OK, me_start = ESP_OK, me_stop = ESP_OK, me_set_config = ESP_OK,
     me_disconnect = ESP_OK, me_reconnect = ESP_OK, me_subscribe = (\<lambda>_. 1), me_publish = (\<lambda>_ payload. int (length payload)),
     me_during = []\<rparr>"

definition demo_running :: mqtt_state where
  "demo_running = mqtt_boot\<lparr>mq_client := True, mq_initialized := True, mq_started := True, mq_mutex := True,
     mq_lifecycle := True, mq_supervisor := True, mq_ack_callback := True\<rparr>"

lemma acknowledged_once_witness:
  "acks (fst (fold track_step [Sending demo_env (Some ''t'') (Some ''p'') 1 9, Sending demo_env (Some ''t'') (Some ''pq'') 1 10,
     Arrived demo_env (EvPublished 1), Entering 1000 0, Entering 1000 0, Arrived demo_env (EvPublished 2),
     Arrived demo_env (EvPublished 2)] (demo_running, []))) = [10]"
proof -
  let ?xs = "[Sending demo_env (Some ''t'') (Some ''p'') 1 9, Sending demo_env (Some ''t'') (Some ''pq'') 1 10,
     Arrived demo_env (EvPublished 1), Entering 1000 0, Entering 1000 0, Arrived demo_env (EvPublished 2),
     Arrived demo_env (EvPublished 2)]"
  have "mq_initialized demo_running" "mq_client demo_running" "mq_ack_callback demo_running"
    "mq_tracked demo_running = no_tracked" by (simp_all add: demo_running_def mqtt_boot_def)
  note run = acknowledged_once [OF this, of ?xs]
  have book: "track_book ?xs [] [] = ([(1, 9), (2, 10)], [2])" by (simp add: demo_env_def acknowledged_id_def)
  obtain ps where ps: "acks (fst (fold track_step ?xs (demo_running, []))) = acks demo_running @ map snd ps"
    "map fst ps = [2]" "waiting (fst (fold track_step ?xs (demo_running, []))) + mset ps = mset [(1, 9), (2, 10)]"
    using run [unfolded book fst_conv snd_conv] by (elim exE conjE) (rule that)
  from ps(2) obtain t where t: "ps = [(2, t)]" by auto
  then have "(2 :: int, t) \<in># mset [(1, 9), (2, 10)]"
    unfolding ps(3) [symmetric] t union_iff by (intro disjI2) simp
  then have "t = 10" by simp
  then show ?thesis unfolding ps(1) t by (simp add: acks_def demo_running_def mqtt_boot_def)
qed

lemma messages_dispatched_witness:
  "mqtt_event_handler demo_env (EvData ''cmd/gw'' ''x'')
     (mqtt_register_runtime_subscriptions demo_env
       (load_defaults\<lparr>rc_gateway_id := ''gw'', rc_mqtt := (rc_mqtt load_defaults)\<lparr>q_platform_type := MQTT_PLATFORM_CUSTOM, q_command_prefix := ''cmd/''\<rparr>\<rparr>)
       demo_running) =
   emit (Callback Mqtt_command ''cmd/gw'' ''x'')
     (mqtt_register_runtime_subscriptions demo_env
       (load_defaults\<lparr>rc_gateway_id := ''gw'', rc_mqtt := (rc_mqtt load_defaults)\<lparr>q_platform_type := MQTT_PLATFORM_CUSTOM, q_command_prefix := ''cmd/''\<rparr>\<rparr>)
       demo_running)"
proof -
  have "mq_initialized demo_running" "mq_client demo_running" by (simp_all add: demo_running_def)
  from messages_dispatched [OF this] show ?thesis by (simp add: config_callback_def filter_matches_def)
qed

lemma refused_client_suspended_witness:
  "mqtt_reconnect demo_env (mqtt_events demo_env [EvRefused 5, EvDisconnected, EvRefused 5, EvRefused 5] demo_running) =
     (mqtt_events demo_env [EvRefused 5, EvDisconnected, EvRefused 5, EvRefused 5] demo_running, ESP_ERR_INVALID_STATE)"
  using refused_client_suspended [of "[EvRefused 5, EvDisconnected, EvRefused 5, EvRefused 5]" demo_running demo_env demo_env]
  by (simp add: demo_running_def)

lemma early_acknowledgement_lost_witness:
  "\<exists>sent u. tracked_send demo_env (Some ''t'') (Some ''p'') 1 demo_running = (sent, Inl 1) \<and>
     tracked_register 1000 1 9 (mqtt_event_handler demo_env (EvPublished 1) sent) = (u, ESP_OK) \<and> acks u = [] \<and> (1, 9) \<in># waiting u"
proof -
  obtain sent where send: "tracked_send demo_env (Some ''t'') (Some ''p'') 1 demo_running = (sent, Inl 1)"
    by (simp add: tracked_send_def demo_env_def demo_running_def Let_def)
  then have sent: "mq_tracked sent = no_tracked"
    by (auto simp: tracked_send_def demo_env_def demo_running_def mqtt_boot_def Let_def emit_def)
  have free: "no_tracked = \<lparr>tp_msg_id = 0, tp_token = 0, tp_active = False\<rparr> # replicate 31 \<lparr>tp_msg_id = 0, tp_token = 0, tp_active = False\<rparr>"
    using replicate_Suc [of 31 "\<lparr>tp_msg_id = 0, tp_token = 0, tp_active = False\<rparr>"] by (simp add: no_tracked_def)
  have "find_slot (\<lambda>t. tp_active t \<and> tp_msg_id t = 1) (mq_tracked sent) = None"
    by (simp add: sent find_slot_None no_tracked_def)
  then have "mqtt_event_handler demo_env (EvPublished 1) sent = sent" by (simp add: mqtt_event_handler_def)
  then obtain u where reg: "tracked_register 1000 1 9 (mqtt_event_handler demo_env (EvPublished 1) sent) = (u, ESP_OK)"
    using sent by (simp add: tracked_register_def free)
  have none: "1 \<notin> fst ` set_mset (waiting demo_running)"
    by (auto simp: waiting_def demo_running_def mqtt_boot_def no_tracked_def)
  have "acks demo_running = []" by (simp add: acks_def demo_running_def mqtt_boot_def)
  with early_acknowledgement_lost [OF send none reg] send reg show ?thesis by auto
qed

end
