(* ===== verification/Cloud_Devices.thy ===== *)
theory Cloud_Devices
  imports Uif_Replay Mqtt_Handler
begin

text \<open>
  The sub-devices of the ThingsCloud protocol (\<open>thingscloud/thingscloud_topics.c\<close> and
  \<open>thingscloud/thingscloud_subdevice.c\<close>): the address of a slave as text and back, and the table
  that follows which slaves answer. What a transition sends is in \<open>Cloud_Adapter\<close>.
\<close>

section \<open>Addresses\<close>

text \<open>\<open>snprintf\<close> into \<open>out\<close>, and its result: the length, or -1 when the text was cut off.\<close>

definition device_address_text :: "u8 \<Rightarrow> u8 \<Rightarrow> string" where
  "device_address_text channel_id slave_id =
     (if channel_id = 0 then dec (unat slave_id)
      else ''rs485_'' @ dec (unat channel_id) @ ''_'' @ dec (unat slave_id))"

definition thingscloud_format_device_address :: "u8 \<Rightarrow> u8 \<Rightarrow> nat \<Rightarrow> string \<times> int" where
  "thingscloud_format_device_address channel_id slave_id out_size =
     (if out_size = 0 then ([], - 1)
      else
        let text = device_address_text channel_id slave_id
        in (strlcpy out_size text, if length text \<ge> out_size then - 1 else int (length text)))"

text \<open>
  \<open>%u\<close> of \<open>sscanf\<close>: blanks, a sign and digits as \<open>strtoul\<close> reads them; the value and what is left.
\<close>

definition is_digit :: "char \<Rightarrow> bool" where
  "is_digit c \<longleftrightarrow> 48 \<le> (of_char c :: nat) \<and> (of_char c :: nat) \<le> 57"

fun dec_read :: "nat \<Rightarrow> string \<Rightarrow> nat" where
  "dec_read acc [] = acc"
| "dec_read acc (c # cs) = dec_read (10 * acc + (of_char c - 48)) cs"

definition scan_u :: "string \<Rightarrow> (u32 \<times> string) option" where
  "scan_u s =
     (let s = dropWhile is_space s;
          neg = (s \<noteq> [] \<and> hd s = CHR ''-'');
          s = (if s \<noteq> [] \<and> hd s \<in> {CHR ''-'', CHR ''+''} then tl s else s);
          digits = takeWhile is_digit s; n = dec_read 0 digits
      in if digits = [] then None
         else Some (if n > 2 ^ 32 - 1 then - 1 else if neg then - word_of_nat n else word_of_nat n,
                    dropWhile is_digit s))"

text \<open>
  \<open>strncmp\<close> of seven characters compares the terminating NUL too, so the first branch is for the
  address \<open>rs485_\<close> itself; it reads the memory behind it, which is \<open>beyond\<close>.
\<close>

definition thingscloud_parse_device_address :: "string \<Rightarrow> string \<Rightarrow> (u8 \<times> u8) option" where
  "thingscloud_parse_device_address beyond addr =
     (if addr = [] then None
      else if addr = ''rs485_'' then
        (case scan_u beyond of
           Some (ch, CHR ''_'' # rest) \<Rightarrow> map_option (\<lambda>(sl, _). (ucast ch, ucast sl)) (scan_u rest)
         | _ \<Rightarrow> None)
      else map_option (\<lambda>(sl, _). (0, ucast sl)) (scan_u addr))"

section \<open>The table of sub-devices\<close>

abbreviation THINGSCLOUD_SUBDEVICE_MAX :: nat where "THINGSCLOUD_SUBDEVICE_MAX \<equiv> 100"
abbreviation SUBDEV_SUCCESS_THRESHOLD :: int where "SUBDEV_SUCCESS_THRESHOLD \<equiv> 2"
abbreviation SUBDEV_FAILURE_THRESHOLD :: int where "SUBDEV_FAILURE_THRESHOLD \<equiv> 3"

datatype subdev_state = SUBDEV_UNKNOWN | SUBDEV_ONLINE | SUBDEV_OFFLINE

text \<open>The streaks count one per poll or publication of a slave; they are taken as unbounded.\<close>

record subdev =
  sv_address :: string
  sv_state :: subdev_state
  sv_success :: int
  sv_fail :: int
  sv_last_success :: ms

text \<open>\<open>sd_devs\<close> is \<open>s_devs\<close>, \<open>None\<close> until it is allocated and 100 entries after that.\<close>

record subdev_table =
  sd_devs :: "subdev list option"
  sd_errors :: int
  sd_mutex :: bool

definition no_subdev :: subdev where
  "no_subdev = \<lparr>sv_address = [], sv_state = SUBDEV_UNKNOWN, sv_success = 0, sv_fail = 0, sv_last_success = 0\<rparr>"

definition subdev_boot :: subdev_table where
  "subdev_boot = \<lparr>sd_devs = None, sd_errors = 0, sd_mutex = False\<rparr>"

text \<open>What the functions find: the mutex can be created and taken in time, the table allocated; the time.\<close>

record subdev_env =
  sb_lock :: bool
  sb_alloc :: bool
  sb_now :: ms
  sb_beyond :: string

definition subdev_lock :: "subdev_env \<Rightarrow> subdev_table \<Rightarrow> subdev_table \<times> bool" where
  "subdev_lock env s = (if sb_lock env then (s\<lparr>sd_mutex := True\<rparr>, True) else (s, False))"

definition subdev_ensure_table :: "subdev_env \<Rightarrow> subdev_table \<Rightarrow> subdev_table \<times> bool" where
  "subdev_ensure_table env s =
     (case sd_devs s of
        Some _ \<Rightarrow> (s, True)
      | None \<Rightarrow>
          (if sb_alloc env then (s\<lparr>sd_devs := Some (replicate THINGSCLOUD_SUBDEVICE_MAX no_subdev)\<rparr>, True)
           else (s, False)))"

definition subdev_find :: "string \<Rightarrow> subdev_table \<Rightarrow> nat option" where
  "subdev_find address s =
     (case sd_devs s of
        None \<Rightarrow> None
      | Some ds \<Rightarrow> find_slot (\<lambda>d. sv_address d \<noteq> [] \<and> sv_address d = address) ds)"

definition put_subdev :: "nat \<Rightarrow> subdev \<Rightarrow> subdev_table \<Rightarrow> subdev_table" where
  "put_subdev i d s = s\<lparr>sd_devs := map_option (\<lambda>ds. ds[i := d]) (sd_devs s)\<rparr>"

text \<open>A new entry keeps the \<open>last_success_ms\<close> of its slot.\<close>

definition subdev_find_or_create :: "subdev_env \<Rightarrow> string \<Rightarrow> subdev_table \<Rightarrow> subdev_table \<times> nat option" where
  "subdev_find_or_create env address s =
     (let (s, ok) = subdev_ensure_table env s in
      if \<not> ok then (s, None)
      else case subdev_find address s of
          Some i \<Rightarrow> (s, Some i)
        | None \<Rightarrow>
            (let ds = the (sd_devs s) in
             case find_slot (\<lambda>d. sv_address d = []) ds of
               None \<Rightarrow> (s, None)
             | Some i \<Rightarrow>
                 (put_subdev i ((ds ! i)\<lparr>sv_address := strlcpy 40 address, sv_state := SUBDEV_UNKNOWN,
                    sv_success := 0, sv_fail := 0\<rparr>) s, Some i)))"

text \<open>The update of an entry, and whether its state changed.\<close>

definition subdev_answered :: "ms \<Rightarrow> subdev \<Rightarrow> subdev \<times> bool" where
  "subdev_answered now d =
     (let d = d\<lparr>sv_fail := 0, sv_success := sv_success d + 1, sv_last_success := now\<rparr>;
          transitioned = (sv_state d \<noteq> SUBDEV_ONLINE \<and> sv_success d \<ge> SUBDEV_SUCCESS_THRESHOLD)
      in (if transitioned then d\<lparr>sv_state := SUBDEV_ONLINE\<rparr> else d, transitioned))"

definition subdev_missed :: "subdev \<Rightarrow> subdev \<times> bool" where
  "subdev_missed d =
     (let d = d\<lparr>sv_success := 0, sv_fail := sv_fail d + 1\<rparr>;
          transitioned = (sv_state d \<noteq> SUBDEV_OFFLINE \<and> sv_fail d \<ge> SUBDEV_FAILURE_THRESHOLD)
      in (if transitioned then d\<lparr>sv_state := SUBDEV_OFFLINE\<rparr> else d, transitioned))"

text \<open>The locked part of the two register functions: the new table and the entry that changed state, if any.\<close>

definition subdev_success :: "subdev_env \<Rightarrow> string \<Rightarrow> subdev_table \<Rightarrow> subdev_table \<times> subdev option" where
  "subdev_success env address s =
     (let (s, locked) = subdev_lock env s in
      if \<not> locked then (s, None)
      else case subdev_find_or_create env address s of
          (s, None) \<Rightarrow> (s, None)
        | (s, Some i) \<Rightarrow>
            (let (d, transitioned) = subdev_answered (sb_now env) (the (sd_devs s) ! i)
             in (put_subdev i d s, if transitioned then Some d else None)))"

definition subdev_failure :: "subdev_env \<Rightarrow> string \<Rightarrow> subdev_table \<Rightarrow> subdev_table \<times> subdev option" where
  "subdev_failure env address s =
     (let (s, locked) = subdev_lock env s in
      if \<not> locked then (s, None)
      else case subdev_find_or_create env address s of
          (s, None) \<Rightarrow> (s, None)
        | (s, Some i) \<Rightarrow>
            (let (d, transitioned) = subdev_missed (the (sd_devs s) ! i)
             in ((put_subdev i d s)\<lparr>sd_errors := sd_errors s + 1\<rparr>, if transitioned then Some d else None)))"

definition count_state :: "(subdev \<Rightarrow> bool) \<Rightarrow> subdev_env \<Rightarrow> subdev_table \<Rightarrow> nat" where
  "count_state P env s =
     (case sd_devs s of
        None \<Rightarrow> 0
      | Some ds \<Rightarrow> (if snd (subdev_lock env s) then length (filter P ds) else 0))"

definition thingscloud_subdev_online_count :: "subdev_env \<Rightarrow> subdev_table \<Rightarrow> nat" where
  "thingscloud_subdev_online_count = count_state (\<lambda>d. sv_state d = SUBDEV_ONLINE)"

definition thingscloud_subdev_offline_count :: "subdev_env \<Rightarrow> subdev_table \<Rightarrow> nat" where
  "thingscloud_subdev_offline_count = count_state (\<lambda>d. sv_address d \<noteq> [] \<and> sv_state d = SUBDEV_OFFLINE)"

definition thingscloud_subdev_error_count :: "subdev_table \<Rightarrow> int" where
  "thingscloud_subdev_error_count s = sd_errors s"

record slave_status =
  sl_address :: string
  sl_port :: u8
  sl_slave :: u8
  sl_state :: nat
  sl_last_seen_ms :: ms
  sl_error_count :: u32
  sl_data_valid :: bool

definition slave_status_of :: "string \<Rightarrow> subdev \<Rightarrow> slave_status" where
  "slave_status_of beyond d =
     (let (port, slave) = (case thingscloud_parse_device_address beyond (sv_address d) of Some x \<Rightarrow> x | None \<Rightarrow> (0, 0))
      in \<lparr>sl_address = strlcpy 40 (sv_address d), sl_port = port, sl_slave = slave,
          sl_state = (case sv_state d of SUBDEV_ONLINE \<Rightarrow> 1 | SUBDEV_OFFLINE \<Rightarrow> 2 | SUBDEV_UNKNOWN \<Rightarrow> 0),
          sl_last_seen_ms = sv_last_success d,
          sl_error_count = (if sv_fail d < 0 then 0 else word_of_int (sv_fail d)),
          sl_data_valid = (sv_state d = SUBDEV_ONLINE)\<rparr>)"

definition thingscloud_subdev_get_status :: "subdev_env \<Rightarrow> int \<Rightarrow> subdev_table \<Rightarrow> slave_status list" where
  "thingscloud_subdev_get_status env max_count s =
     (case sd_devs s of
        None \<Rightarrow> []
      | Some ds \<Rightarrow>
          (if max_count \<le> 0 \<or> \<not> snd (subdev_lock env s) then []
           else map (slave_status_of (sb_beyond env)) (take (nat max_count) (filter (\<lambda>d. sv_address d \<noteq> []) ds))))"

section \<open>Lemmas: numbers as text\<close>

lemma digit_char_code: "d < 10 \<Longrightarrow> of_char (digit_char d) = (48 + d :: nat)"
  by (simp add: digit_char_def)

lemma dec_is_digit: "c \<in> set (dec n) \<Longrightarrow> is_digit c"
  using dec_digits [of n] by (auto simp: is_digit_def)

lemma dec_nonempty [simp]: "dec n \<noteq> []"
  by (subst dec.simps) simp

lemma dec_read_append: "dec_read a (xs @ [c]) = 10 * dec_read a xs + (of_char c - 48)"
  by (induction xs arbitrary: a) simp_all

lemma dec_read_dec [simp]: "dec_read 0 (dec n) = n"
proof (induction n rule: dec.induct)
  case (1 n)
  show ?case
  proof (cases "n < 10")
    case True
    then show ?thesis by (subst dec.simps) (simp add: digit_char_code)
  next
    case False
    then show ?thesis using 1 by (subst dec.simps) (simp add: dec_read_append digit_char_code)
  qed
qed

lemma digit_no_space: "is_digit c \<Longrightarrow> \<not> is_space c \<and> c \<noteq> CHR ''-'' \<and> c \<noteq> CHR ''+''"
  by (auto simp: is_digit_def is_space_def)

lemma scan_dec:
  assumes "n < 2 ^ 32" "rest = [] \<or> \<not> is_digit (hd rest)"
  shows "scan_u (dec n @ rest) = Some (word_of_nat n, rest)"
proof -
  obtain c cs where d: "dec n = c # cs" by (cases "dec n") simp_all
  have c: "\<not> is_space c" "c \<noteq> CHR ''-''" "c \<noteq> CHR ''+''" using dec_is_digit [of c n] digit_no_space [of c] d by auto
  have t: "takeWhile is_digit (dec n @ rest) = dec n" "dropWhile is_digit (dec n @ rest) = rest"
    using assms(2) dec_is_digit [of _ n] by (cases rest; simp add: takeWhile_append dropWhile_append)+
  have s: "dropWhile is_space (dec n @ rest) = dec n @ rest" "hd (dec n @ rest) = c" using d c by simp_all
  show ?thesis using assms(1) c t s by (simp add: scan_u_def Let_def)
qed

lemma plain_address_parses: "thingscloud_parse_device_address b (device_address_text 0 sl) = Some (0, sl)"
proof -
  have "unat sl < 2 ^ LENGTH(8)" by (rule unsigned_less)
  then have "unat sl < 2 ^ 32" by simp
  then have "scan_u (dec (unat sl)) = Some (word_of_nat (unat sl), [])" using scan_dec [of "unat sl" "[]"] by simp
  moreover have narrow: "ucast (ucast sl :: u32) = sl"
    by (rule bit_word_eqI) (simp add: bit_simps)
  moreover have "dec (unat sl) \<noteq> ''rs485_''" using dec_is_digit [of "CHR ''r''" "unat sl"] by (auto simp: is_digit_def)
  ultimately show ?thesis
    by (simp add: thingscloud_parse_device_address_def device_address_text_def del: unsigned_ucast_eq)
qed

lemma port_address_unparsed:
  "ch \<noteq> 0 \<Longrightarrow> thingscloud_parse_device_address b (device_address_text ch sl) = None"
  by (simp add: thingscloud_parse_device_address_def device_address_text_def scan_u_def is_space_def is_digit_def Let_def)

lemma device_address_fits: "length (device_address_text ch sl) < 40" "device_address_text ch sl \<noteq> []"
proof -
  have "length (dec (unat x)) \<le> 3" for x :: u8
  proof (rule length_dec)
    have "unat x < 2 ^ LENGTH(8)" by (rule unsigned_less)
    then show "unat x < 10 ^ 3" by simp
  qed simp
  then have "length (dec (unat ch)) \<le> 3" "length (dec (unat sl)) \<le> 3" by blast+
  then show "length (device_address_text ch sl) < 40" by (simp add: device_address_text_def)
qed (simp add: device_address_text_def)

lemma device_address_inj:
  assumes "device_address_text ch sl = device_address_text ch' sl'"
  shows "ch = ch' \<and> sl = sl'"
proof -
  have dec_inj: "x = y" if "dec (unat x) = dec (unat y)" for x y :: u8
    using arg_cong [OF that, of "dec_read 0"] by (simp add: unsigned_word_eqI)
  have d: "dec (unat x) \<noteq> CHR ''r'' # t" for x :: u8 and t
    using dec_is_digit [of "CHR ''r''" "unat x"] by (auto simp: is_digit_def)
  have split: "dec (unat ch) = dec (unat ch') \<and> dec (unat sl) = dec (unat sl')"
    if "dec (unat ch) @ CHR ''_'' # dec (unat sl) = dec (unat ch') @ CHR ''_'' # dec (unat sl')"
  proof -
    have "takeWhile is_digit (dec (unat x) @ CHR ''_'' # t) = dec (unat x)" for x :: u8 and t
      using dec_is_digit [of _ "unat x"] by (simp add: takeWhile_append is_digit_def)
    then have "dec (unat ch) = dec (unat ch')" using arg_cong [OF that, of "takeWhile is_digit"] by simp
    then show ?thesis using that by simp
  qed
  show ?thesis using assms d d [symmetric] split dec_inj
    by (auto simp: device_address_text_def split: if_splits)
qed

section \<open>Lemmas: the state of one sub-device\<close>

text \<open>
  What a debounced link makes of the results of a slave, newest first: two answers in a row bring it
  online, three misses in a row take it offline, anything else leaves it as it was.
\<close>

fun link_state :: "bool list \<Rightarrow> subdev_state" where
  "link_state [] = SUBDEV_UNKNOWN"
| "link_state (r # h) =
     (if take 2 (r # h) = [True, True] then SUBDEV_ONLINE
      else if take 3 (r # h) = [False, False, False] then SUBDEV_OFFLINE
      else link_state h)"

definition streak :: "bool \<Rightarrow> bool list \<Rightarrow> int" where
  "streak r h = int (length (takeWhile (\<lambda>x. x = r) h))"

definition tracks :: "bool list \<Rightarrow> subdev \<Rightarrow> bool" where
  "tracks h d \<longleftrightarrow> sv_state d = link_state h \<and> sv_success d = streak True h \<and> sv_fail d = streak False h"

lemma streak_Cons: "streak r (x # h) = (if x = r then streak r h + 1 else 0)"
  by (simp add: streak_def)

lemma streak_take2: "1 \<le> streak True h \<longleftrightarrow> take 1 h = [True]"
  by (cases h) (auto simp: streak_def)

lemma streak_take3: "2 \<le> streak False h \<longleftrightarrow> take 2 h = [False, False]"
proof (cases h)
  case (Cons x t)
  then show ?thesis by (cases t) (auto simp: streak_def)
qed (simp add: streak_def)

lemma answered_tracks:
  assumes "tracks h d"
  shows "tracks (True # h) (fst (subdev_answered now d))"
    "snd (subdev_answered now d) \<longleftrightarrow> link_state (True # h) \<noteq> link_state h"
  using assms streak_take2 [of h] by (auto simp: tracks_def subdev_answered_def streak_Cons Let_def)

lemma missed_tracks:
  assumes "tracks h d"
  shows "tracks (False # h) (fst (subdev_missed d))"
    "snd (subdev_missed d) \<longleftrightarrow> link_state (False # h) \<noteq> link_state h"
  using assms streak_take3 [of h] by (auto simp: tracks_def subdev_missed_def streak_Cons Let_def)

section \<open>Lemmas: the table\<close>

text \<open>
  The table follows the results \<open>hist a\<close> of every address \<open>a\<close>, newest first: the entries have different
  addresses, each tracks the results of its own, and every address with a result has an entry.
\<close>

definition devs_track :: "(string \<Rightarrow> bool list) \<Rightarrow> subdev list \<Rightarrow> bool" where
  "devs_track hist ds \<longleftrightarrow> length ds = THINGSCLOUD_SUBDEVICE_MAX \<and> hist [] = [] \<and>
     (\<forall>i < length ds. \<forall>j < length ds. i \<noteq> j \<and> sv_address (ds ! i) \<noteq> [] \<longrightarrow> sv_address (ds ! i) \<noteq> sv_address (ds ! j)) \<and>
     (\<forall>i < length ds. sv_address (ds ! i) = [] \<longrightarrow> sv_state (ds ! i) = SUBDEV_UNKNOWN) \<and>
     (\<forall>i < length ds. sv_address (ds ! i) \<noteq> [] \<longrightarrow>
        hist (sv_address (ds ! i)) \<noteq> [] \<and> tracks (hist (sv_address (ds ! i))) (ds ! i)) \<and>
     (\<forall>a. hist a \<noteq> [] \<longrightarrow> (\<exists>i < length ds. sv_address (ds ! i) = a))"

definition table_tracks :: "(string \<Rightarrow> bool list) \<Rightarrow> subdev_table \<Rightarrow> bool" where
  "table_tracks hist s \<longleftrightarrow>
     (case sd_devs s of None \<Rightarrow> hist = (\<lambda>_. []) | Some ds \<Rightarrow> devs_track hist ds)"

definition known :: "(string \<Rightarrow> bool list) \<Rightarrow> string set" where
  "known hist = {a. hist a \<noteq> []}"

lemma boot_tracks: "table_tracks (\<lambda>_. []) subdev_boot"
  by (simp add: table_tracks_def subdev_boot_def)

lemma empty_table_tracks: "devs_track (\<lambda>_. []) (replicate THINGSCLOUD_SUBDEVICE_MAX no_subdev)"
  by (simp add: devs_track_def no_subdev_def)

lemma devs_track_find:
  assumes "devs_track hist ds" "a \<noteq> []"
  shows "find_slot (\<lambda>d. sv_address d \<noteq> [] \<and> sv_address d = a) ds = Some i \<longleftrightarrow> i < length ds \<and> sv_address (ds ! i) = a"
  using assms unfolding find_slot_Some devs_track_def by (metis order_less_trans nat_neq_iff)

lemma devs_track_unknown:
  assumes "devs_track hist ds" "a \<noteq> []"
  shows "find_slot (\<lambda>d. sv_address d \<noteq> [] \<and> sv_address d = a) ds = None \<longleftrightarrow> hist a = []"
  using assms unfolding find_slot_None devs_track_def by (metis in_set_conv_nth)

lemma devs_track_put:
  assumes "devs_track hist ds" "i < length ds" "a \<noteq> []" "sv_address d = a" "tracks (r # hist a) d"
    "sv_address (ds ! i) = a \<or> (sv_address (ds ! i) = [] \<and> hist a = [])"
  shows "devs_track (hist(a := r # hist a)) (ds[i := d])"
proof -
  have other: "sv_address (ds ! j) \<noteq> a" if "j < length ds" "j \<noteq> i" for j
    using assms that unfolding devs_track_def by metis
  show ?thesis unfolding devs_track_def
  proof (intro conjI allI impI)
    fix j k assume jk: "j < length (ds[i := d])" "k < length (ds[i := d])" "j \<noteq> k \<and> sv_address (ds[i := d] ! j) \<noteq> []"
    have pair: "sv_address (ds ! j) \<noteq> sv_address (ds ! k)" if "sv_address (ds ! j) \<noteq> []"
      using assms(1) jk that by (simp add: devs_track_def)
    show "sv_address (ds[i := d] ! j) \<noteq> sv_address (ds[i := d] ! k)"
    proof (cases "j = i")
      case True
      then show ?thesis using jk assms(4) other [of k] by simp
    next
      case False
      then show ?thesis using jk assms(2,4) other [of j] pair by (cases "k = i") simp_all
    qed
  next
    fix j assume j: "j < length (ds[i := d])" "sv_address (ds[i := d] ! j) \<noteq> []"
    show "(hist(a := r # hist a)) (sv_address (ds[i := d] ! j)) \<noteq> []"
      using assms(1,2,4) other j by (auto simp: devs_track_def nth_list_update)
    show "tracks ((hist(a := r # hist a)) (sv_address (ds[i := d] ! j))) (ds[i := d] ! j)"
      using assms(1,2,4,5) other j by (auto simp: devs_track_def nth_list_update)
  next
    fix j assume "j < length (ds[i := d])" "sv_address (ds[i := d] ! j) = []"
    then show "sv_state (ds[i := d] ! j) = SUBDEV_UNKNOWN"
      using assms(1,3,4) by (cases "j = i") (simp_all add: devs_track_def)
  next
    fix b assume b: "(hist(a := r # hist a)) b \<noteq> []"
    show "\<exists>j < length (ds[i := d]). sv_address (ds[i := d] ! j) = b"
    proof (cases "b = a")
      case True
      then show ?thesis using assms(2,4) by (intro exI [of _ i]) simp
    next
      case False
      then obtain j where "j < length ds" "sv_address (ds ! j) = b" using assms(1) b by (auto simp: devs_track_def)
      moreover have "j \<noteq> i" using calculation assms(1,6) False b by (auto simp: devs_track_def)
      ultimately show ?thesis by (intro exI [of _ j]) simp
    qed
  qed (use assms(1,3) in \<open>simp_all add: devs_track_def\<close>)
qed

lemma devs_track_room:
  assumes "devs_track hist ds" "card (known hist) < THINGSCLOUD_SUBDEVICE_MAX"
  shows "find_slot (\<lambda>d. sv_address d = []) ds \<noteq> None"
proof
  assume none: "find_slot (\<lambda>d. sv_address d = []) ds = None"
  then have ne: "sv_address (ds ! i) \<noteq> []" if "i < length ds" for i using that by (simp add: find_slot_None)
  have "inj_on (\<lambda>i. sv_address (ds ! i)) {..<length ds}"
    using assms(1) ne unfolding devs_track_def inj_on_def by (metis lessThan_iff)
  then have "card ((\<lambda>i. sv_address (ds ! i)) ` {..<length ds}) = length ds" by (simp add: card_image)
  moreover have "known hist = (\<lambda>i. sv_address (ds ! i)) ` {..<length ds}"
  proof
    show "known hist \<subseteq> (\<lambda>i. sv_address (ds ! i)) ` {..<length ds}"
      using assms(1) by (force simp: devs_track_def known_def)
    show "(\<lambda>i. sv_address (ds ! i)) ` {..<length ds} \<subseteq> known hist"
      using assms(1) ne by (auto simp: devs_track_def known_def)
  qed
  ultimately show False using assms by (simp add: devs_track_def)
qed

lemma found_or_created:
  assumes "devs_track hist ds" "sd_devs s = Some ds" "a \<noteq> []" "length a < 40"
    "a \<in> known hist \<or> card (known hist) < THINGSCLOUD_SUBDEVICE_MAX"
  shows "\<exists>i d. subdev_find_or_create env a s = (put_subdev i d s, Some i) \<and> i < length ds \<and> sv_address d = a \<and>
    tracks (hist a) d \<and> (sv_address (ds ! i) = a \<or> (sv_address (ds ! i) = [] \<and> hist a = []))"
proof (cases "hist a = []")
  case False
  then obtain i where i: "i < length ds" "sv_address (ds ! i) = a" using assms(1) by (auto simp: devs_track_def)
  then have "subdev_find a s = Some i" using devs_track_find [OF assms(1,3), of i] assms(2) by (simp add: subdev_find_def)
  moreover have "put_subdev i (ds ! i) s = s" using assms(2) by (simp add: put_subdev_def)
  moreover have "tracks (hist a) (ds ! i)" using assms(1,3) i by (auto simp: devs_track_def)
  ultimately show ?thesis using i assms(2)
    by (intro exI [of _ i] exI [of _ "ds ! i"]) (simp add: subdev_find_or_create_def subdev_ensure_table_def)
next
  case True
  then have "subdev_find a s = None" using devs_track_unknown [OF assms(1,3)] assms(2) by (simp add: subdev_find_def)
  moreover obtain i where i: "find_slot (\<lambda>d. sv_address d = []) ds = Some i"
    using devs_track_room [OF assms(1)] assms(5) True by (auto simp: known_def)
  ultimately show ?thesis using assms(2,4) True find_slot_SomeD(1,2) [OF i]
    by (intro exI [of _ i] exI [of _ "(ds ! i)\<lparr>sv_address := a, sv_state := SUBDEV_UNKNOWN, sv_success := 0, sv_fail := 0\<rparr>"])
      (simp add: subdev_find_or_create_def subdev_ensure_table_def tracks_def streak_def)
qed

text \<open>The two reports do the same to the table; only the update of the entry differs.\<close>

definition subdev_report :: "subdev_env \<Rightarrow> string \<Rightarrow> bool \<Rightarrow> subdev_table \<Rightarrow> subdev_table \<times> subdev option" where
  "subdev_report env a r = (if r then subdev_success env a else subdev_failure env a)"

lemma report_tracks:
  assumes "table_tracks hist s" "sb_lock env" "sb_alloc env" "a \<noteq> []" "length a < 40"
    "a \<in> known hist \<or> card (known hist) < THINGSCLOUD_SUBDEVICE_MAX"
  shows "table_tracks (hist(a := r # hist a)) (fst (subdev_report env a r s)) \<and>
    (\<forall>d. snd (subdev_report env a r s) = Some d \<longrightarrow> sv_address d = a \<and> sv_state d = link_state (r # hist a)) \<and>
    (snd (subdev_report env a r s) = None \<longleftrightarrow> link_state (r # hist a) = link_state (hist a)) \<and>
    sd_errors (fst (subdev_report env a r s)) = sd_errors s + (if r then 0 else 1)"
proof -
  define u where "u = fst (subdev_ensure_table env (s\<lparr>sd_mutex := True\<rparr>))"
  have u: "subdev_ensure_table env (s\<lparr>sd_mutex := True\<rparr>) = (u, True)" "subdev_ensure_table env u = (u, True)" "sd_errors u = sd_errors s"
    using assms(3) by (auto simp: u_def subdev_ensure_table_def split: option.splits)
  obtain ds where ds: "sd_devs u = Some ds" "devs_track hist ds"
    using assms(1,3) empty_table_tracks
    by (auto simp: u_def subdev_ensure_table_def table_tracks_def split: option.splits)
  obtain i d where c: "subdev_find_or_create env a u = (put_subdev i d u, Some i)" "i < length ds" "sv_address d = a" "tracks (hist a) d"
    "sv_address (ds ! i) = a \<or> (sv_address (ds ! i) = [] \<and> hist a = [])"
    using found_or_created [OF ds(2,1) assms(4-6), of env] by blast
  have "subdev_find_or_create env a (s\<lparr>sd_mutex := True\<rparr>) = subdev_find_or_create env a u"
    by (simp add: subdev_find_or_create_def u)
  with c have c1: "subdev_find_or_create env a (s\<lparr>sd_mutex := True\<rparr>) = (put_subdev i d u, Some i)" by simp
  have d: "the (sd_devs (put_subdev i d u)) ! i = d" "sd_errors (put_subdev i d u) = sd_errors s"
    "put_subdev i e (put_subdev i d u) = put_subdev i e u" for e
    using ds c(2) u(3) by (simp_all add: put_subdev_def)
  define e where "e = (if r then subdev_answered (sb_now env) d else subdev_missed d)"
  have e: "tracks (r # hist a) (fst e)" "snd e \<longleftrightarrow> link_state (r # hist a) \<noteq> link_state (hist a)" "sv_address (fst e) = a"
    using answered_tracks [OF c(4), of "sb_now env"] missed_tracks [OF c(4)] c(3)
    by (cases r; simp add: e_def subdev_answered_def subdev_missed_def Let_def)+
  have run: "subdev_report env a r s = ((put_subdev i (fst e) u)\<lparr>sd_errors := sd_errors s + (if r then 0 else 1)\<rparr>,
      if snd e then Some (fst e) else None)"
  proof (cases r)
    case True
    have "sd_errors (put_subdev i x u) = sd_errors s" for x using u(3) by (simp add: put_subdev_def)
    then show ?thesis using True assms(2) c1 d
      by (simp add: subdev_report_def subdev_success_def subdev_lock_def e_def split_beta)
  next
    case False
    then show ?thesis using assms(2) c1 d
      by (simp add: subdev_report_def subdev_failure_def subdev_lock_def e_def split_beta)
  qed
  have "devs_track (hist(a := r # hist a)) (ds[i := fst e])"
    by (rule devs_track_put [OF ds(2) c(2) assms(4) e(3,1) c(5)])
  then show ?thesis using e ds(1) by (auto simp: run table_tracks_def put_subdev_def tracks_def)
qed

text \<open>The results of an address in a sequence of reports, newest first, and the run of the reports.\<close>

definition results_of :: "string \<Rightarrow> (subdev_env \<times> string \<times> bool) list \<Rightarrow> bool list" where
  "results_of a evs = rev (map (\<lambda>(_, _, r). r) (filter (\<lambda>(_, b, _). b = a) evs))"

definition subdev_reports :: "(subdev_env \<times> string \<times> bool) list \<Rightarrow> subdev_table \<Rightarrow> subdev_table" where
  "subdev_reports = fold (\<lambda>(env, a, r) s. fst (subdev_report env a r s))"

definition report_ok :: "subdev_env \<times> string \<times> bool \<Rightarrow> bool" where
  "report_ok ev \<longleftrightarrow> (case ev of (env, a, _) \<Rightarrow> sb_lock env \<and> sb_alloc env \<and> a \<noteq> [] \<and> length a < 40)"

definition addresses :: "(subdev_env \<times> string \<times> bool) list \<Rightarrow> string set" where
  "addresses evs = (\<lambda>(_, a, _). a) ` set evs"

lemma results_snoc: "(\<lambda>b. results_of b (evs @ [(env, a, r)])) = (\<lambda>b. results_of b evs)(a := r # results_of a evs)"
  by (rule ext) (simp add: results_of_def)

lemma known_results: "known (\<lambda>a. results_of a evs) = addresses evs"
  by (force simp: known_def results_of_def addresses_def filter_empty_conv)

lemma reports_track:
  assumes "\<forall>ev \<in> set evs. report_ok ev" "card (addresses evs) \<le> THINGSCLOUD_SUBDEVICE_MAX"
  shows "table_tracks (\<lambda>a. results_of a evs) (subdev_reports evs subdev_boot) \<and>
    sd_errors (subdev_reports evs subdev_boot) = int (length (filter (\<lambda>(_, _, r). \<not> r) evs))"
  using assms
proof (induction evs rule: rev_induct)
  case Nil
  then show ?case using boot_tracks by (simp add: subdev_reports_def results_of_def subdev_boot_def)
next
  case (snoc ev evs)
  obtain env a r where ev: "ev = (env, a, r)" by (cases ev) auto
  have sub: "addresses evs \<subseteq> addresses (evs @ [ev])" unfolding addresses_def by (rule image_mono) auto
  have fin: "finite (addresses xs)" for xs by (simp add: addresses_def)
  have "card (addresses evs) \<le> THINGSCLOUD_SUBDEVICE_MAX" using card_mono [OF fin sub] snoc.prems(2) by simp
  then have IH: "table_tracks (\<lambda>a. results_of a evs) (subdev_reports evs subdev_boot)"
    "sd_errors (subdev_reports evs subdev_boot) = int (length (filter (\<lambda>(_, _, r). \<not> r) evs))"
    using snoc.IH snoc.prems(1) by simp_all
  have room: "a \<in> known (\<lambda>a. results_of a evs) \<or> card (known (\<lambda>a. results_of a evs)) < THINGSCLOUD_SUBDEVICE_MAX"
  proof (cases "a \<in> addresses evs")
    case False
    have "addresses (evs @ [ev]) = insert a (addresses evs)" by (auto simp: addresses_def ev)
    then have "card (addresses (evs @ [ev])) = Suc (card (addresses evs))" using False fin by simp
    then show ?thesis using snoc.prems(2) by (simp add: known_results)
  qed (simp add: known_results)
  have ok: "sb_lock env" "sb_alloc env" "a \<noteq> []" "length a < 40" using snoc.prems(1) by (simp_all add: report_ok_def ev)
  show ?case using report_tracks [OF IH(1) ok room, of r] IH(2)
    by (simp add: subdev_reports_def ev results_snoc)
qed

lemma count_tracked:
  assumes "devs_track hist ds" "st \<noteq> SUBDEV_UNKNOWN"
  shows "length (filter (\<lambda>d. sv_state d = st) ds) = card {a. link_state (hist a) = st}"
proof -
  let ?I = "{i. i < length ds \<and> sv_state (ds ! i) = st}"
  have ne: "sv_address (ds ! i) \<noteq> []" "link_state (hist (sv_address (ds ! i))) = st" if "i \<in> ?I" for i
    using that assms by (auto simp: devs_track_def tracks_def)
  have "bij_betw (\<lambda>i. sv_address (ds ! i)) ?I {a. link_state (hist a) = st}"
  proof (rule bij_betw_imageI)
    show "inj_on (\<lambda>i. sv_address (ds ! i)) ?I"
      using assms(1) ne(1) unfolding devs_track_def inj_on_def by (metis (mono_tags, lifting) mem_Collect_eq)
    show "(\<lambda>i. sv_address (ds ! i)) ` ?I = {a. link_state (hist a) = st}"
    proof
      show "(\<lambda>i. sv_address (ds ! i)) ` ?I \<subseteq> {a. link_state (hist a) = st}" using ne(2) by blast
      show "{a. link_state (hist a) = st} \<subseteq> (\<lambda>i. sv_address (ds ! i)) ` ?I"
      proof
        fix a assume "a \<in> {a. link_state (hist a) = st}"
        then have a: "link_state (hist a) = st" "hist a \<noteq> []" using assms(2) by auto
        then obtain i where i: "i < length ds" "sv_address (ds ! i) = a" using assms(1) by (auto simp: devs_track_def)
        moreover have "a \<noteq> []" using a(2) assms(1) by (auto simp: devs_track_def)
        ultimately have "tracks (hist a) (ds ! i)" using assms(1) by (auto simp: devs_track_def)
        then show "a \<in> (\<lambda>i. sv_address (ds ! i)) ` ?I" using a i by (auto simp: tracks_def intro!: image_eqI [of _ _ i])
      qed
    qed
  qed
  then show ?thesis by (simp add: length_filter_conv_card bij_betw_same_card)
qed

section \<open>Properties\<close>

text \<open>
  Whatever the order of the reports, a sub-device counts as online exactly when two answers in a row came after
  its last three misses in a row, and as offline the other way round; the error count is the number of misses.
\<close>

theorem subdevices_debounced:
  assumes "\<forall>ev \<in> set evs. report_ok ev" "card (addresses evs) \<le> THINGSCLOUD_SUBDEVICE_MAX" "sb_lock env"
  defines "s \<equiv> subdev_reports evs subdev_boot"
  shows "thingscloud_subdev_online_count env s = card {a. link_state (results_of a evs) = SUBDEV_ONLINE} \<and>
    thingscloud_subdev_offline_count env s = card {a. link_state (results_of a evs) = SUBDEV_OFFLINE} \<and>
    thingscloud_subdev_error_count s = int (length (filter (\<lambda>(_, _, r). \<not> r) evs))"
proof -
  have t: "table_tracks (\<lambda>a. results_of a evs) s" "sd_errors s = int (length (filter (\<lambda>(_, _, r). \<not> r) evs))"
    using reports_track [OF assms(1,2)] by (simp_all add: s_def)
  show ?thesis
  proof (cases "sd_devs s")
    case None
    then have "results_of a evs = []" for a using t(1) by (simp add: table_tracks_def fun_eq_iff)
    then show ?thesis using None t(2)
      by (simp add: thingscloud_subdev_online_count_def thingscloud_subdev_offline_count_def
          thingscloud_subdev_error_count_def count_state_def)
  next
    case (Some ds)
    then have ds: "devs_track (\<lambda>a. results_of a evs) ds" using t(1) by (simp add: table_tracks_def)
    have "filter (\<lambda>d. sv_address d \<noteq> [] \<and> sv_state d = SUBDEV_OFFLINE) ds = filter (\<lambda>d. sv_state d = SUBDEV_OFFLINE) ds"
      using ds by (intro filter_cong refl) (auto simp: devs_track_def in_set_conv_nth)
    then show ?thesis using Some t(2) assms(3) count_tracked [OF ds]
      by (simp add: thingscloud_subdev_online_count_def thingscloud_subdev_offline_count_def
          thingscloud_subdev_error_count_def count_state_def subdev_lock_def)
  qed
qed

text \<open>
  The address of a slave on the first port is read back; that of a slave on any other port is not: the cloud
  cannot address it, and its status is reported under port 0 and slave 0.
\<close>

theorem port_addresses_not_read_back:
  "thingscloud_format_device_address ch sl 40 = (device_address_text ch sl, int (length (device_address_text ch sl))) \<and>
   thingscloud_parse_device_address beyond (fst (thingscloud_format_device_address ch sl 40)) =
     (if ch = 0 then Some (0, sl) else None) \<and>
   (sl_port (slave_status_of beyond (d\<lparr>sv_address := fst (thingscloud_format_device_address ch sl 40)\<rparr>)),
    sl_slave (slave_status_of beyond (d\<lparr>sv_address := fst (thingscloud_format_device_address ch sl 40)\<rparr>))) =
     (if ch = 0 then (0, sl) else (0, 0))"
  using plain_address_parses [of beyond sl] port_address_unparsed [of ch beyond sl] device_address_fits(1) [of ch sl]
  by (simp add: thingscloud_format_device_address_def Let_def slave_status_of_def split_beta)

lemma subdevices_debounced_witness:
  "thingscloud_subdev_online_count \<lparr>sb_lock = True, sb_alloc = True, sb_now = 0, sb_beyond = []\<rparr>
     (subdev_reports (map (\<lambda>r. (\<lparr>sb_lock = True, sb_alloc = True, sb_now = 0, sb_beyond = []\<rparr>, ''1'', r)) [False, True, True]) subdev_boot) = 1"
proof -
  let ?env = "\<lparr>sb_lock = True, sb_alloc = True, sb_now = 0, sb_beyond = []\<rparr>"
  let ?evs = "map (\<lambda>r. (?env, ''1'', r)) [False, True, True]"
  have "\<forall>ev \<in> set ?evs. report_ok ev" "addresses ?evs = {''1''}" by (simp_all add: report_ok_def addresses_def)
  then have "thingscloud_subdev_online_count ?env (subdev_reports ?evs subdev_boot) =
      card {a. link_state (results_of a ?evs) = SUBDEV_ONLINE}"
    using subdevices_debounced [of ?evs ?env] by simp
  also have "{a. link_state (results_of a ?evs) = SUBDEV_ONLINE} = {''1''}" by (auto simp: results_of_def)
  finally show ?thesis by simp
qed

end
