(* ===== verification/Cloud_Adapter.thy ===== *)
theory Cloud_Adapter
  imports Cloud_Devices
begin

text \<open>
  The ThingsCloud adapter (\<open>thingscloud/thingscloud_adapter.c\<close>) and the reports of
  \<open>thingscloud/thingscloud_subdevice.c\<close> that send something: the limiter in front of every telemetry
  message, the aggregation of samples per report mode, the packets they are sent in, and the status messages.
  \<open>cJSON\<close> is a library: objects are trees, their text is what \<open>ce_print\<close> says. Log lines are left out, and the
  functions run with the mutex of the adapter held, as one step.
\<close>

section \<open>State\<close>

definition TOPIC_GATEWAY_ATTR :: string where "TOPIC_GATEWAY_ATTR = ''gateway/attributes''"
definition TOPIC_ATTR :: string where "TOPIC_ATTR = ''attributes''"
definition TOPIC_GATEWAY_CONNECT :: string where "TOPIC_GATEWAY_CONNECT = ''gateway/connect''"
definition TOPIC_GATEWAY_DISCONNECT :: string where "TOPIC_GATEWAY_DISCONNECT = ''gateway/disconnect''"

abbreviation THINGSCLOUD_MAX_PAYLOAD_BYTES :: nat where "THINGSCLOUD_MAX_PAYLOAD_BYTES \<equiv> 1024"
abbreviation THINGSCLOUD_AGG_BUFFER_MAX :: nat where "THINGSCLOUD_AGG_BUFFER_MAX \<equiv> 96"
abbreviation TC_RATE_BUCKET_TOKENS :: int where "TC_RATE_BUCKET_TOKENS \<equiv> 1"
abbreviation TC_RATE_REFILL_MS :: ms where "TC_RATE_REFILL_MS \<equiv> 30000"

text \<open>The kind and the union of a value in one.\<close>

datatype cloud_value = CLOUD_VALUE_BOOL bool | CLOUD_VALUE_INTEGER int | CLOUD_VALUE_NUMBER f64 | CLOUD_VALUE_STRING string

record cloud_property =
  cp_address :: string
  cp_key :: string
  cp_value :: cloud_value
  cp_timestamp_ms :: ms
  cp_quality :: quality_state

definition no_property :: cloud_property where
  "no_property = \<lparr>cp_address = [], cp_key = [], cp_value = CLOUD_VALUE_BOOL False, cp_timestamp_ms = 0, cp_quality = QUALITY_GOOD\<rparr>"

text \<open>
  The statics of the adapter, and the components it calls. The two buffers are their used parts;
  \<open>cl_agg_ready\<close>, \<open>cl_gw_ready\<close>: they are allocated.
\<close>

record cloud_state =
  cl_mqtt :: mqtt_state
  cl_uif :: uif_state
  cl_devs :: subdev_table
  cl_agg :: "cloud_property list"
  cl_agg_ready :: bool
  cl_gw :: "cloud_property list"
  cl_gw_ready :: bool
  cl_throttled :: u32
  cl_dropped :: u32
  cl_last_publish_ms :: ms
  cl_last_response :: int
  cl_suspended :: bool
  cl_block_until_ms :: ms
  cl_tokens :: int
  cl_rate_last_ms :: ms
  cl_generation :: u32
  cl_last_mode :: "mqtt_report_mode option"

definition cloud_boot :: "mqtt_state \<Rightarrow> uif_state \<Rightarrow> cloud_state" where
  "cloud_boot m u = \<lparr>cl_mqtt = m, cl_uif = u, cl_devs = subdev_boot, cl_agg = [], cl_agg_ready = False, cl_gw = [],
     cl_gw_ready = False, cl_throttled = 0, cl_dropped = 0, cl_last_publish_ms = 0, cl_last_response = 0,
     cl_suspended = False, cl_block_until_ms = 0, cl_tokens = TC_RATE_BUCKET_TOKENS, cl_rate_last_ms = 0,
     cl_generation = 0, cl_last_mode = None\<rparr>"

text \<open>
  What the functions find: the MQTT client, configuration and time (\<open>ce_mqtt\<close>), the mutexes, the heap
  (\<open>ce_object i\<close>: an object can be created while property \<open>i\<close> is packed), the text of a JSON tree, the card,
  the memory behind an address, conversions out of range, \<open>%g\<close>, and the state of the network and the heap.
\<close>

record cloud_env =
  ce_mqtt :: mqtt_env
  ce_lock :: bool
  ce_alloc :: bool
  ce_object :: "nat \<Rightarrow> bool"
  ce_print :: "json \<Rightarrow> string option"
  ce_mounted :: bool
  ce_beyond :: string
  ce_ub :: "f64 \<Rightarrow> int"
  ce_g :: "f64 \<Rightarrow> string"
  ce_rssi :: int
  ce_uplink :: string
  ce_heap :: nat

definition cloud_now :: "cloud_env \<Rightarrow> ms" where
  "cloud_now env = me_now (ce_mqtt env)"

definition cloud_config :: "cloud_env \<Rightarrow> mqtt_config" where
  "cloud_config env = rc_mqtt (me_config (ce_mqtt env))"

definition dev_env :: "cloud_env \<Rightarrow> subdev_env" where
  "dev_env env = \<lparr>sb_lock = ce_lock env, sb_alloc = ce_alloc env, sb_now = cloud_now env, sb_beyond = ce_beyond env\<rparr>"

definition thingscloud_is_enabled :: "cloud_env \<Rightarrow> bool" where
  "thingscloud_is_enabled env \<longleftrightarrow> q_platform_type (cloud_config env) = MQTT_PLATFORM_THINGSCLOUD"

section \<open>The rate limiter\<close>

definition tc_rate_refill :: "ms \<Rightarrow> cloud_state \<Rightarrow> cloud_state" where
  "tc_rate_refill now s =
     (if cl_rate_last_ms s = 0 then s\<lparr>cl_rate_last_ms := now\<rparr>
      else
        let elapsed = now - cl_rate_last_ms s in
        if elapsed < TC_RATE_REFILL_MS then s
        else
          let add = elapsed div TC_RATE_REFILL_MS
          in s\<lparr>cl_tokens := min (cl_tokens s + add) TC_RATE_BUCKET_TOKENS,
               cl_rate_last_ms := cl_rate_last_ms s + add * TC_RATE_REFILL_MS\<rparr>)"

definition tc_rate_allow :: "ms \<Rightarrow> cloud_state \<Rightarrow> cloud_state \<times> bool" where
  "tc_rate_allow now s =
     (if cl_suspended s \<or> now < cl_block_until_ms s then (s, False)
      else
        let s = tc_rate_refill now s
        in if cl_tokens s > 0 then (s\<lparr>cl_tokens := cl_tokens s - 1\<rparr>, True) else (s, False))"

definition tc_publish_telemetry :: "cloud_env \<Rightarrow> string \<Rightarrow> string \<Rightarrow> cloud_state \<Rightarrow> cloud_state \<times> esp_err" where
  "tc_publish_telemetry env topic payload s =
     (let (s, allowed) = tc_rate_allow (cloud_now env) s in
      if \<not> allowed then (s\<lparr>cl_throttled := cl_throttled s + 1\<rparr>, ESP_ERR_NO_MEM)
      else
        let (m, err) = mqtt_publish (ce_mqtt env) (Some topic) (Some payload) 0 (cl_mqtt s);
            s = s\<lparr>cl_mqtt := m\<rparr>
        in (if err = ESP_OK then s\<lparr>cl_last_publish_ms := cloud_now env\<rparr> else s, err))"

section \<open>Keys\<close>

definition tc_key_char_valid :: "char \<Rightarrow> bool" where
  "tc_key_char_valid c \<longleftrightarrow>
     (let k = of_char c :: nat
      in 97 \<le> k \<and> k \<le> 122 \<or> 65 \<le> k \<and> k \<le> 90 \<or> 48 \<le> k \<and> k \<le> 57 \<or> c = CHR ''_'')"

definition thingscloud_gateway_key_valid :: "string \<Rightarrow> bool" where
  "thingscloud_gateway_key_valid key \<longleftrightarrow> key \<noteq> [] \<and> list_all tc_key_char_valid key"

definition build_gateway_property_key :: "u8 \<Rightarrow> u8 \<Rightarrow> string \<Rightarrow> nat \<Rightarrow> string + esp_err" where
  "build_gateway_property_key port slave key out_size =
     (if out_size = 0 \<or> \<not> thingscloud_gateway_key_valid key then Inr ESP_ERR_INVALID_ARG
      else
        let text = CHR ''p'' # dec (unat port) @ ''_s'' @ dec (unat slave) @ CHR ''_'' # key
        in if length text \<ge> out_size then Inr ESP_ERR_INVALID_SIZE else Inl text)"

text \<open>A change of the report mode empties both buffers.\<close>

definition check_mode_change :: "mqtt_report_mode \<Rightarrow> cloud_state \<Rightarrow> cloud_state" where
  "check_mode_change mode s =
     (if cl_last_mode s = Some mode then s
      else s\<lparr>cl_last_mode := Some mode, cl_generation := cl_generation s + 1, cl_agg := [], cl_gw := []\<rparr>)"

definition thingscloud_get_config_generation :: "cloud_state \<Rightarrow> u32" where
  "thingscloud_get_config_generation s = cl_generation s"

text \<open>The buffers are allocated when they are first needed.\<close>

definition agg_ensure_buffer :: "cloud_env \<Rightarrow> cloud_state \<Rightarrow> cloud_state \<times> bool" where
  "agg_ensure_buffer env s =
     (if cl_agg_ready s then (s, True) else if ce_alloc env then (s\<lparr>cl_agg_ready := True\<rparr>, True) else (s, False))"

definition agg_ensure_gw_buffer :: "cloud_env \<Rightarrow> cloud_state \<Rightarrow> cloud_state \<times> bool" where
  "agg_ensure_gw_buffer env s =
     (if cl_gw_ready s then (s, True) else if ce_alloc env then (s\<lparr>cl_gw_ready := True\<rparr>, True) else (s, False))"

text \<open>\<open>first4****last4\<close> of a longer credential; a short one is copied as it is.\<close>

definition thingscloud_mask_credential :: "string \<Rightarrow> nat \<Rightarrow> string" where
  "thingscloud_mask_credential src out_size =
     (if length src \<le> 8 then strlcpy out_size src
      else strlcpy out_size (take 4 src @ ''****'' @ drop (length src - 4) src))"

section \<open>Packets\<close>

definition value_json :: "cloud_value \<Rightarrow> json" where
  "value_json v =
     (case v of CLOUD_VALUE_BOOL b \<Rightarrow> JBool b | CLOUD_VALUE_INTEGER n \<Rightarrow> JNum (f64_of_int n)
      | CLOUD_VALUE_NUMBER x \<Rightarrow> JNum x | CLOUD_VALUE_STRING t \<Rightarrow> JStr t)"

definition add_property_to_object :: "(string \<times> json) list \<Rightarrow> cloud_property \<Rightarrow> (string \<times> json) list" where
  "add_property_to_object fs p = fs @ [(cp_key p, value_json (cp_value p))]"

definition publish_json_object :: "cloud_env \<Rightarrow> (string \<times> json) list \<Rightarrow> string \<Rightarrow> cloud_state \<Rightarrow> cloud_state \<times> esp_err" where
  "publish_json_object env root topic s =
     (case ce_print env (JObj root) of
        None \<Rightarrow> (s, ESP_ERR_NO_MEM)
      | Some text \<Rightarrow>
          (if length text > THINGSCLOUD_MAX_PAYLOAD_BYTES then (s, ESP_ERR_INVALID_SIZE)
           else tc_publish_telemetry env topic text s))"

text \<open>The object of the device of \<open>p\<close>, created if it is missing, gets \<open>p\<close>; and loses it again.\<close>

definition device_fields :: "json \<Rightarrow> (string \<times> json) list" where
  "device_fields j = (case j of JObj fs \<Rightarrow> fs | _ \<Rightarrow> [])"

definition add_to_device :: "bool \<Rightarrow> cloud_property \<Rightarrow> (string \<times> json) list \<Rightarrow> (string \<times> json) list option" where
  "add_to_device object p root =
     (case find_item (cp_address p) root of
        Some d \<Rightarrow> Some (root[d := (fst (root ! d), JObj (add_property_to_object (device_fields (snd (root ! d))) p))])
      | None \<Rightarrow> if object then Some (root @ [(cp_address p, JObj (add_property_to_object [] p))]) else None)"

definition drop_from_device :: "cloud_property \<Rightarrow> (string \<times> json) list \<Rightarrow> (string \<times> json) list" where
  "drop_from_device p root =
     (case find_item (cp_address p) root of
        None \<Rightarrow> root
      | Some d \<Rightarrow>
          (let fs = delete_item (cp_key p) (device_fields (snd (root ! d)))
           in if fs = [] then delete_item (cp_address p) root else root[d := (fst (root ! d), JObj fs)]))"

text \<open>The loop of \<open>publish_subdevice_aggregated\<close>, which ends with the first error.\<close>

fun sub_packets ::
  "cloud_env \<Rightarrow> nat \<Rightarrow> cloud_property list \<Rightarrow> (string \<times> json) list \<Rightarrow> nat \<Rightarrow> cloud_state \<Rightarrow> cloud_state \<times> esp_err" where
  "sub_packets env i [] root in_pack s =
     (if in_pack > 0 then publish_json_object env root TOPIC_GATEWAY_ATTR s else (s, ESP_OK))"
| "sub_packets env i (p # ps) root in_pack s =
     (case add_to_device (ce_object env i) p root of
        None \<Rightarrow> (s, ESP_ERR_NO_MEM)
      | Some added \<Rightarrow>
          (case ce_print env (JObj added) of
             None \<Rightarrow> (s, ESP_ERR_NO_MEM)
           | Some text \<Rightarrow>
               (if length text \<le> THINGSCLOUD_MAX_PAYLOAD_BYTES then sub_packets env (Suc i) ps added (Suc in_pack) s
                else
                  let (s, err) = (if in_pack > 0 then publish_json_object env (drop_from_device p added) TOPIC_GATEWAY_ATTR s
                                  else (s, ESP_OK));
                      fresh = [(cp_address p, JObj (add_property_to_object [] p))]
                  in if err \<noteq> ESP_OK then (s, err)
                     else if \<not> ce_object env i then (s, ESP_ERR_NO_MEM)
                     else case ce_print env (JObj fresh) of
                         None \<Rightarrow> (s, ESP_ERR_NO_MEM)
                       | Some text \<Rightarrow>
                           (if length text > THINGSCLOUD_MAX_PAYLOAD_BYTES then (s, ESP_ERR_INVALID_SIZE)
                            else sub_packets env (Suc i) ps fresh 1 s))))"

definition publish_subdevice_aggregated :: "cloud_env \<Rightarrow> cloud_property list \<Rightarrow> cloud_state \<Rightarrow> cloud_state \<times> esp_err" where
  "publish_subdevice_aggregated env ps s =
     (if ps = [] then (s, ESP_OK)
      else if \<not> mqtt_is_connected (cl_mqtt s) then (s, ESP_ERR_INVALID_STATE)
      else if \<not> ce_alloc env then (s, ESP_ERR_NO_MEM)
      else sub_packets env 0 ps [] 0 s)"

definition thingscloud_publish_subdevice_attributes :: "cloud_env \<Rightarrow> cloud_property list \<Rightarrow> cloud_state \<Rightarrow> cloud_state \<times> esp_err" where
  "thingscloud_publish_subdevice_attributes env ps s =
     (if \<not> thingscloud_is_enabled env then (s, ESP_ERR_INVALID_STATE) else publish_subdevice_aggregated env ps s)"

text \<open>The loop of \<open>publish_gw_attr_chunked\<close>, which goes on after a packet that was held back.\<close>

definition gw_send :: "cloud_env \<Rightarrow> (string \<times> json) list \<Rightarrow> nat \<Rightarrow> esp_err \<Rightarrow> cloud_state \<Rightarrow> cloud_state \<times> esp_err" where
  "gw_send env root in_pack first_err s =
     (if in_pack = 0 then (s, first_err)
      else case ce_print env (JObj root) of
          None \<Rightarrow> (s, first_err)
        | Some text \<Rightarrow>
            (let (s, err) = tc_publish_telemetry env TOPIC_ATTR text s
             in (s, if err \<noteq> ESP_OK \<and> first_err = ESP_OK then err else first_err)))"

fun gw_packets ::
  "cloud_env \<Rightarrow> nat \<Rightarrow> cloud_property list \<Rightarrow> (string \<times> json) list \<Rightarrow> nat \<Rightarrow> esp_err \<Rightarrow> cloud_state \<Rightarrow> cloud_state \<times> esp_err" where
  "gw_packets env i [] root in_pack first_err s = gw_send env root in_pack first_err s"
| "gw_packets env i (p # ps) root in_pack first_err s =
     (if cp_key p = [] then gw_packets env (Suc i) ps root in_pack first_err s
      else
        let added = add_property_to_object root p in
        case ce_print env (JObj added) of
          None \<Rightarrow> gw_send env added (Suc in_pack) ESP_ERR_NO_MEM s
        | Some text \<Rightarrow>
            (if length text > THINGSCLOUD_MAX_PAYLOAD_BYTES \<and> in_pack > 0 then
               (let (s, first_err) = gw_send env (delete_item (cp_key p) added) in_pack first_err s
                in if \<not> ce_object env i then (s, ESP_ERR_NO_MEM)
                   else gw_packets env (Suc i) ps (add_property_to_object [] p) 1 first_err s)
             else gw_packets env (Suc i) ps added (Suc in_pack) first_err s))"

definition publish_gw_attr_chunked :: "cloud_env \<Rightarrow> cloud_property list \<Rightarrow> cloud_state \<Rightarrow> cloud_state \<times> esp_err" where
  "publish_gw_attr_chunked env ps s =
     (if \<not> ce_alloc env then (s, ESP_ERR_NO_MEM) else gw_packets env 0 ps [] 0 ESP_OK s)"

definition thingscloud_publish_gateway_attributes :: "cloud_env \<Rightarrow> cloud_property list \<Rightarrow> cloud_state \<Rightarrow> cloud_state \<times> esp_err" where
  "thingscloud_publish_gateway_attributes env ps s =
     (if \<not> thingscloud_is_enabled env \<or> ps = [] \<or> \<not> mqtt_is_connected (cl_mqtt s) then (s, ESP_ERR_INVALID_STATE)
      else publish_gw_attr_chunked env ps s)"

section \<open>Status messages\<close>

definition device_payload :: "string \<Rightarrow> string option" where
  "device_payload address =
     (let text = ''{\"device\":\"'' @ address @ ''\"}'' in if length text \<ge> 64 then None else Some text)"

definition report_device :: "string \<Rightarrow> cloud_env \<Rightarrow> string \<Rightarrow> cloud_state \<Rightarrow> cloud_state \<times> esp_err" where
  "report_device topic env address s =
     (if \<not> thingscloud_is_enabled env \<or> \<not> mqtt_is_connected (cl_mqtt s) then (s, ESP_ERR_INVALID_STATE)
      else case device_payload address of
          None \<Rightarrow> (s, ESP_ERR_INVALID_SIZE)
        | Some payload \<Rightarrow>
            (let (m, err) = mqtt_publish (ce_mqtt env) (Some topic) (Some payload) 0 (cl_mqtt s) in (s\<lparr>cl_mqtt := m\<rparr>, err)))"

definition thingscloud_report_subdevice_online :: "cloud_env \<Rightarrow> string \<Rightarrow> cloud_state \<Rightarrow> cloud_state \<times> esp_err" where
  "thingscloud_report_subdevice_online = report_device TOPIC_GATEWAY_CONNECT"

definition thingscloud_report_subdevice_offline :: "cloud_env \<Rightarrow> string \<Rightarrow> cloud_state \<Rightarrow> cloud_state \<times> esp_err" where
  "thingscloud_report_subdevice_offline = report_device TOPIC_GATEWAY_DISCONNECT"

definition publish_status :: "cloud_env \<Rightarrow> (string \<times> json) list \<Rightarrow> cloud_state \<Rightarrow> cloud_state \<times> esp_err" where
  "publish_status env root s =
     (case ce_print env (JObj root) of
        None \<Rightarrow> (s, ESP_ERR_NO_MEM)
      | Some text \<Rightarrow> tc_publish_telemetry env TOPIC_ATTR text s)"

definition jint :: "int \<Rightarrow> json" where "jint n = JNum (f64_of_int n)"

definition thingscloud_publish_gateway_status :: "cloud_env \<Rightarrow> cloud_state \<Rightarrow> cloud_state \<times> esp_err" where
  "thingscloud_publish_gateway_status env s =
     (if \<not> thingscloud_is_enabled env \<or> \<not> mqtt_is_connected (cl_mqtt s) then (s, ESP_ERR_INVALID_STATE)
      else if \<not> ce_alloc env then (s, ESP_ERR_NO_MEM)
      else publish_status env
        [(''firmware_version'', JStr ''1.0.0''), (''free_heap'', jint (int (ce_heap env))), (''uptime'', jint (cloud_now env div 1000)),
         (''network_type'', JStr (if ce_uplink env \<noteq> [] then ce_uplink env else ''offline'')), (''wifi_rssi'', jint (ce_rssi env)),
         (''rs485_online_count'', jint (int (thingscloud_subdev_online_count (dev_env env) (cl_devs s)))),
         (''rs485_error_count'', jint (thingscloud_subdev_error_count (cl_devs s))),
         (''cache_count'', jint (uif_get_cached_count (ce_mounted env) (cl_uif s)))] s)"

definition slave_fields :: "slave_status \<Rightarrow> (string \<times> json) list" where
  "slave_fields x =
     (let base = strlcpy 32 (CHR ''p'' # dec (unat (sl_port x) + 1) @ ''_s'' @ dec (unat (sl_slave x)))
      in [(strlcpy 64 (base @ ''_online''), JBool (sl_state x = 1)),
          (strlcpy 64 (base @ ''_comm_status''), JStr ([''unknown'', ''online'', ''offline''] ! sl_state x)),
          (strlcpy 64 (base @ ''_last_seen''), jint (sl_last_seen_ms x)),
          (strlcpy 64 (base @ ''_error_count''), jint (uint (sl_error_count x))),
          (strlcpy 64 (base @ ''_data_valid''), JBool (sl_data_valid x))])"

definition bus_fields :: "slave_status list \<Rightarrow> (string \<times> json) list" where
  "bus_fields xs =
     (let total = length xs; online = length (filter (\<lambda>x. sl_state x = 1) xs);
          offline = length (filter (\<lambda>x. sl_state x = 2) xs); unknown = length (filter (\<lambda>x. sl_state x = 0) xs)
      in [(''rs485_device_total'', jint (int total)), (''rs485_online_count'', jint (int online)),
          (''rs485_offline_count'', jint (int offline)), (''rs485_unknown_count'', jint (int unknown)),
          (''rs485_error_count'', jint (uint (sum_list (map sl_error_count xs)))),
          (''rs485_bus_status'', JStr (if total = 0 then ''empty'' else if online = 0 then ''offline''
             else if offline > 0 \<or> unknown > 0 then ''degraded'' else ''normal''))])"

definition thingscloud_publish_gateway_slave_status :: "cloud_env \<Rightarrow> cloud_state \<Rightarrow> cloud_state \<times> esp_err" where
  "thingscloud_publish_gateway_slave_status env s =
     (if \<not> thingscloud_is_enabled env then (s, ESP_ERR_INVALID_STATE)
      else if q_report_mode (cloud_config env) \<noteq> MQ_REPORT_GATEWAY then (s, ESP_OK)
      else if \<not> mqtt_is_connected (cl_mqtt s) then (s, ESP_ERR_INVALID_STATE)
      else if \<not> ce_alloc env then (s, ESP_ERR_NO_MEM)
      else
        let xs = thingscloud_subdev_get_status (dev_env env) (int THINGSCLOUD_SUBDEVICE_MAX) (cl_devs s)
        in publish_status env (concat (map slave_fields xs) @ bus_fields xs) s)"

section \<open>Reports of the sub-devices\<close>

definition subdev_publish_state :: "cloud_env \<Rightarrow> subdev \<Rightarrow> bool \<Rightarrow> cloud_state \<Rightarrow> cloud_state" where
  "subdev_publish_state env d online s =
     (if \<not> mqtt_is_connected (cl_mqtt s) then s
      else case device_payload (sv_address d) of
          None \<Rightarrow> s
        | Some payload \<Rightarrow>
            s\<lparr>cl_mqtt := fst (mqtt_publish (ce_mqtt env)
                 (Some (if online then TOPIC_GATEWAY_CONNECT else TOPIC_GATEWAY_DISCONNECT)) (Some payload) 0 (cl_mqtt s))\<rparr>)"

definition subdev_report_transition :: "cloud_env \<Rightarrow> subdev \<Rightarrow> bool \<Rightarrow> cloud_state \<Rightarrow> cloud_state" where
  "subdev_report_transition env d online s =
     (if q_report_mode (cloud_config env) = MQ_REPORT_SUBDEVICE then subdev_publish_state env d online s
      else fst (thingscloud_publish_gateway_slave_status env s))"

definition thingscloud_subdev_register_success :: "cloud_env \<Rightarrow> string \<Rightarrow> cloud_state \<Rightarrow> cloud_state" where
  "thingscloud_subdev_register_success env address s =
     (if \<not> thingscloud_is_enabled env then s
      else
        let (t, changed) = subdev_success (dev_env env) address (cl_devs s); s = s\<lparr>cl_devs := t\<rparr>
        in case changed of None \<Rightarrow> s | Some d \<Rightarrow> subdev_report_transition env d True s)"

definition thingscloud_subdev_register_failure :: "cloud_env \<Rightarrow> string \<Rightarrow> cloud_state \<Rightarrow> cloud_state" where
  "thingscloud_subdev_register_failure env address s =
     (if \<not> thingscloud_is_enabled env then s
      else
        let (t, changed) = subdev_failure (dev_env env) address (cl_devs s); s = s\<lparr>cl_devs := t\<rparr>
        in case changed of None \<Rightarrow> s | Some d \<Rightarrow> subdev_report_transition env d False s)"

definition thingscloud_subdev_republish_all_online :: "cloud_env \<Rightarrow> cloud_state \<Rightarrow> cloud_state" where
  "thingscloud_subdev_republish_all_online env s =
     (case sd_devs (cl_devs s) of
        None \<Rightarrow> s
      | Some ds \<Rightarrow>
          (if \<not> thingscloud_is_enabled env \<or> \<not> ce_lock env then s
           else fold (\<lambda>d s. if sv_state d = SUBDEV_ONLINE \<and> sv_address d \<noteq> [] then subdev_publish_state env d True s else s) ds s))"

section \<open>Ingestion\<close>

text \<open>\<open>nearbyint\<close>, \<open>fabs\<close> and the conversion to \<open>int64_t\<close>; 1e-9 has the bits \<open>0x3E112E0BE826D695\<close>.\<close>

definition f64_nearbyint :: "f64 \<Rightarrow> f64" where
  "f64_nearbyint x =
     (case f64_get x of
        FFin sg m e \<Rightarrow> f64_put (FFin sg (if 0 \<le> e then m * 2 ^ nat e else rne m (2 ^ nat (- e))) 0)
      | v \<Rightarrow> f64_put v)"

definition f64_abs :: "f64 \<Rightarrow> f64" where
  "f64_abs x = x AND 0x7FFFFFFFFFFFFFFF"

definition f64_trunc :: "(f64 \<Rightarrow> int) \<Rightarrow> f64 \<Rightarrow> int" where
  "f64_trunc ub x =
     (case f64_get x of
        FFin sg m e \<Rightarrow>
          (let v = signed sg (if 0 \<le> e then m * 2 ^ nat e else m div 2 ^ nat (- e))
           in if - (2 ^ 63) \<le> v \<and> v < 2 ^ 63 then v else ub x)
      | _ \<Rightarrow> ub x)"

definition number_value :: "f64 \<Rightarrow> cloud_value option" where
  "number_value x = (if f64_isfinite x then Some (CLOUD_VALUE_NUMBER x) else None)"

definition cloud_value_of :: "cloud_env \<Rightarrow> tcm_context \<Rightarrow> cloud_value option" where
  "cloud_value_of env c =
     (let x = c_value c in
      if c_data_type c = DT_BOOL then Some (CLOUD_VALUE_BOOL (\<not> f64_eq x 0))
      else if c_data_type c \<in> {DT_INT16, DT_UINT16, DT_INT32, DT_UINT32, DT_BCD16} then
        (if \<not> f64_isfinite x then None
         else if f64_lt 0x3E112E0BE826D695 (f64_abs (f64_sub x (f64_nearbyint x))) then Some (CLOUD_VALUE_NUMBER x)
         else Some (CLOUD_VALUE_INTEGER (f64_trunc (ce_ub env) x)))
      else if c_data_type c = DT_ASCII then Some (CLOUD_VALUE_STRING (strlcpy 64 (ce_g env x)))
      else number_value x)"

text \<open>The property with its address and key empty, and whether the sample has a value.\<close>

definition fill_property_value :: "cloud_env \<Rightarrow> tcm_context \<Rightarrow> cloud_property \<times> bool" where
  "fill_property_value env c =
     (let p = no_property\<lparr>cp_timestamp_ms := cloud_now env, cp_quality := c_quality_state c\<rparr>
      in case cloud_value_of env c of None \<Rightarrow> (p, False) | Some v \<Rightarrow> (p\<lparr>cp_value := v\<rparr>, True))"

text \<open>The entry of the buffer that \<open>same\<close> finds, or a new one at its end, is filled from the context.\<close>

definition put_property ::
  "cloud_env \<Rightarrow> tcm_context \<Rightarrow> string \<Rightarrow> string \<Rightarrow> nat option \<Rightarrow> cloud_property list \<Rightarrow> cloud_property list" where
  "put_property env c address key found xs =
     (let (p, ok) = fill_property_value env c;
          q = (if ok then p\<lparr>cp_address := address, cp_key := key\<rparr> else p)
      in case found of
          Some i \<Rightarrow> xs[i := q]
        | None \<Rightarrow> if length xs \<ge> THINGSCLOUD_AGG_BUFFER_MAX then xs else xs @ [q])"

definition add_context_to_agg :: "cloud_env \<Rightarrow> tcm_context \<Rightarrow> cloud_state \<Rightarrow> cloud_state" where
  "add_context_to_agg env c s =
     (let (s, ok) = agg_ensure_buffer env s in
      if \<not> ok then s
      else
        let address = fst (thingscloud_format_device_address (c_channel_id c) (c_slave_id c) 40);
            found = find_slot (\<lambda>p. cp_address p = address \<and> cp_key p = c_point_id c) (cl_agg s)
        in s\<lparr>cl_agg := put_property env c (strlcpy 40 address) (strlcpy 64 (c_point_id c)) found (cl_agg s)\<rparr>)"

definition gateway_key :: "tcm_context \<Rightarrow> string + esp_err" where
  "gateway_key c =
     (if c_gateway_property_key c \<noteq> [] then
        (if thingscloud_gateway_key_valid (c_gateway_property_key c) then Inl (strlcpy 64 (c_gateway_property_key c))
         else Inr ESP_ERR_INVALID_ARG)
      else build_gateway_property_key (c_channel_id c + 1) (c_slave_id c) (c_point_id c) 64)"

definition add_context_to_gw_agg :: "cloud_env \<Rightarrow> tcm_context \<Rightarrow> cloud_state \<Rightarrow> cloud_state" where
  "add_context_to_gw_agg env c s =
     (let (s, ok) = agg_ensure_gw_buffer env s in
      if \<not> ok then s
      else case gateway_key c of
          Inr _ \<Rightarrow> s
        | Inl key \<Rightarrow>
            (let found = find_slot (\<lambda>p. cp_key p = key) (cl_gw s)
             in s\<lparr>cl_gw := put_property env c [] (strlcpy 64 key) found (cl_gw s)\<rparr>))"

definition thingscloud_flush :: "cloud_env \<Rightarrow> cloud_state \<Rightarrow> cloud_state" where
  "thingscloud_flush env s =
     (if uif_replay_is_waiting_response (cl_uif s) \<or> uif_get_cached_count (ce_mounted env) (cl_uif s) > 0 \<or> \<not> ce_lock env then s
      else
        let mode = q_report_mode (cloud_config env); s = check_mode_change mode s in
        if mode = MQ_REPORT_GATEWAY then
          (if cl_gw_ready s \<and> length (cl_gw s) > 0
           then (let (s, err) = thingscloud_publish_gateway_attributes env (cl_gw s) s
                 in if err = ESP_OK then s\<lparr>cl_gw := []\<rparr> else s)
           else s)
        else if \<not> cl_agg_ready s \<or> length (cl_agg s) = 0 then s
        else
          let (s, err) = publish_subdevice_aggregated env (cl_agg s) s
          in if err = ESP_OK then s\<lparr>cl_agg := []\<rparr> else s)"

definition buffer_full :: "mqtt_report_mode \<Rightarrow> cloud_state \<Rightarrow> bool" where
  "buffer_full mode s \<longleftrightarrow>
     (if mode = MQ_REPORT_GATEWAY then length (cl_gw s) else length (cl_agg s)) \<ge> THINGSCLOUD_AGG_BUFFER_MAX"

definition thingscloud_publish_context :: "cloud_env \<Rightarrow> tcm_context \<Rightarrow> cloud_state \<Rightarrow> cloud_state \<times> esp_err" where
  "thingscloud_publish_context env c s =
     (if \<not> thingscloud_is_enabled env then (s, ESP_ERR_INVALID_STATE)
      else if c_quality_state c \<noteq> QUALITY_GOOD \<or> c_point_id c = [] then (s, ESP_OK)
      else if \<not> ce_lock env then (s, ESP_ERR_TIMEOUT)
      else
        let mode = q_report_mode (cloud_config env);
            s = check_mode_change mode s;
            s = (if buffer_full mode s then thingscloud_flush env s else s);
            s = check_mode_change mode s
        in if buffer_full mode s then (s\<lparr>cl_dropped := cl_dropped s + 1\<rparr>, ESP_OK)
           else
             let s = (if mode = MQ_REPORT_GATEWAY then add_context_to_gw_agg env c s else add_context_to_agg env c s)
             in (if buffer_full mode s then thingscloud_flush env s else s, ESP_OK))"

definition thingscloud_replay_context :: "cloud_env \<Rightarrow> tcm_context \<Rightarrow> cloud_state \<Rightarrow> cloud_state \<times> esp_err" where
  "thingscloud_replay_context env c s =
     (if \<not> thingscloud_is_enabled env \<or> \<not> mqtt_is_connected (cl_mqtt s) then (s, ESP_ERR_INVALID_STATE)
      else if c_quality_state c \<noteq> QUALITY_GOOD \<or> c_point_id c = [] then (s, ESP_ERR_INVALID_ARG)
      else
        let (p, ok) = fill_property_value env c in
        if \<not> ok then (s, ESP_ERR_INVALID_ARG)
        else if q_report_mode (cloud_config env) = MQ_REPORT_GATEWAY then
          (case gateway_key c of
             Inr err \<Rightarrow> (s, err)
           | Inl key \<Rightarrow> thingscloud_publish_gateway_attributes env [p\<lparr>cp_key := key\<rparr>] s)
        else
          let (address, n) = thingscloud_format_device_address (c_channel_id c) (c_slave_id c) 40 in
          if n < 0 then (s, ESP_ERR_INVALID_SIZE)
          else thingscloud_publish_subdevice_attributes env [p\<lparr>cp_address := address, cp_key := strlcpy 64 (c_point_id c)\<rparr>] s)"

section \<open>Guards and status\<close>

record cloud_status =
  ct_pending_points :: nat
  ct_throttled_count :: u32
  ct_dropped_count :: u32
  ct_last_publish_ms :: ms
  ct_last_response_code :: int
  ct_upload_suspended :: bool

definition thingscloud_get_runtime_status :: "cloud_env \<Rightarrow> cloud_state \<Rightarrow> cloud_status" where
  "thingscloud_get_runtime_status env s =
     (if \<not> ce_lock env then \<lparr>ct_pending_points = 0, ct_throttled_count = 0, ct_dropped_count = 0, ct_last_publish_ms = 0,
        ct_last_response_code = 0, ct_upload_suspended = False\<rparr>
      else \<lparr>ct_pending_points = length (cl_agg s) + length (cl_gw s), ct_throttled_count = cl_throttled s,
        ct_dropped_count = cl_dropped s, ct_last_publish_ms = cl_last_publish_ms s,
        ct_last_response_code = cl_last_response s, ct_upload_suspended = cl_suspended s\<rparr>)"

definition thingscloud_record_publish_response :: "cloud_env \<Rightarrow> bool \<Rightarrow> int \<Rightarrow> cloud_state \<Rightarrow> cloud_state" where
  "thingscloud_record_publish_response env accepted code s =
     (if \<not> ce_lock env then s
      else
        let s = s\<lparr>cl_last_response := (if accepted then 0 else code)\<rparr>
        in if code = 403 then s\<lparr>cl_tokens := 0, cl_block_until_ms := cloud_now env + 60000\<rparr>
           else if code = 413 then s\<lparr>cl_suspended := True\<rparr> else s)"

definition thingscloud_upload_is_suspended :: "cloud_env \<Rightarrow> cloud_state \<Rightarrow> bool" where
  "thingscloud_upload_is_suspended env s \<longleftrightarrow> \<not> ce_lock env \<or> cl_suspended s"

definition thingscloud_clear_publish_guard :: "cloud_env \<Rightarrow> cloud_state \<Rightarrow> cloud_state" where
  "thingscloud_clear_publish_guard env s =
     (if \<not> ce_lock env then s
      else s\<lparr>cl_last_response := 0, cl_suspended := False, cl_block_until_ms := 0, cl_tokens := TC_RATE_BUCKET_TOKENS,
        cl_rate_last_ms := cloud_now env\<rparr>)"

definition thingscloud_on_mqtt_connected :: "cloud_env \<Rightarrow> cloud_state \<Rightarrow> cloud_state" where
  "thingscloud_on_mqtt_connected env s =
     (if \<not> thingscloud_is_enabled env \<or> \<not> ce_lock env then s
      else (check_mode_change (q_report_mode (cloud_config env)) s)
        \<lparr>cl_tokens := TC_RATE_BUCKET_TOKENS, cl_rate_last_ms := cloud_now env\<rparr>)"

end
