(* ===== verification/Cloud_Command.thy ===== *)
theory Cloud_Command
  imports Cloud_Adapter Control_Service
begin

text \<open>
  What the cloud sends down (\<open>thingscloud/thingscloud_command.c\<close>): properties of a sub-device to be written, with a
  reply that has a result for each of them, and the answers to the gateway's own telemetry. The texts are parsed
  and printed by \<open>cJSON\<close> (\<open>cm_parse\<close>, \<open>cm_print\<close>). The writes go through \<open>Control_Service\<close>; the reply goes out
  through \<open>Mqtt_Handler\<close>. Log lines for the serial console are left out, those for the web server are values.
\<close>

section \<open>Numbers in strings\<close>

text \<open>
  \<open>strtod\<close>: the value of the longest prefix that is a number, and the rest; nothing if there is none. It reads
  decimal and hexadecimal numbers, infinities and NaNs, rounding to nearest.
\<close>

definition is_space :: "char \<Rightarrow> bool" where
  "is_space c \<longleftrightarrow> (let k = of_char c :: nat in k = 32 \<or> 9 \<le> k \<and> k \<le> 13)"

definition is_xdigit :: "char \<Rightarrow> bool" where
  "is_xdigit c \<longleftrightarrow> hex_val c \<noteq> None"

definition is_word_char :: "char \<Rightarrow> bool" where
  "is_word_char c \<longleftrightarrow> tc_key_char_valid c"

definition starts_ci :: "string \<Rightarrow> string \<Rightarrow> bool" where
  "starts_ci word s \<longleftrightarrow> length word \<le> length s \<and> same_name word (take (length word) s)"

definition xdigits_value :: "string \<Rightarrow> nat" where
  "xdigits_value xs = (case hex_read 0 xs of Some n \<Rightarrow> n | None \<Rightarrow> 0)"

text \<open>The sign in front, and the exponent after one of the letters, when digits follow it.\<close>

definition read_sign :: "string \<Rightarrow> bool \<times> string" where
  "read_sign s = (case s of c # cs \<Rightarrow> if c = CHR ''-'' then (True, cs) else if c = CHR ''+'' then (False, cs) else (False, s) | [] \<Rightarrow> (False, s))"

definition read_exponent :: "char set \<Rightarrow> string \<Rightarrow> int \<times> string" where
  "read_exponent letters s =
     (case s of
        [] \<Rightarrow> (0, s)
      | c # cs \<Rightarrow>
          (let (negative, ds) = read_sign cs; digits = takeWhile is_digit ds
           in if c \<notin> letters \<or> digits = [] then (0, s)
              else ((if negative then - 1 else 1) * int (dec_read 0 digits), dropWhile is_digit ds)))"

text \<open>The digits before and after the point, and what follows.\<close>

definition read_digits :: "(char \<Rightarrow> bool) \<Rightarrow> string \<Rightarrow> string \<times> string \<times> string" where
  "read_digits digit s =
     (let whole = takeWhile digit s; rest = dropWhile digit s
      in case rest of
          c # cs \<Rightarrow>
            (if c = CHR ''.'' \<and> (whole \<noteq> [] \<or> takeWhile digit cs \<noteq> [])
             then (whole, takeWhile digit cs, dropWhile digit cs) else (whole, [], rest))
        | [] \<Rightarrow> (whole, [], rest))"

definition scaled :: "bool \<Rightarrow> nat \<Rightarrow> nat \<Rightarrow> int \<Rightarrow> f64" where
  "scaled negative m base e =
     word_of_nat (if 0 \<le> e then fp_pack 52 11 1074 negative (m * base ^ nat e) 1
                  else fp_pack 52 11 1074 negative m (base ^ nat (- e)))"

definition strtod :: "string \<Rightarrow> (f64 \<times> string) option" where
  "strtod text =
     (let (negative, s) = read_sign (dropWhile is_space text);
          (xwhole, xfrac, xrest) = read_digits is_xdigit (drop 2 s);
          (whole, frac, rest) = read_digits is_digit s
      in if starts_ci ''0x'' s \<and> (xwhole \<noteq> [] \<or> xfrac \<noteq> []) then
           (let (e, rest) = read_exponent {CHR ''p'', CHR ''P''} xrest
            in Some (scaled negative (xdigits_value (xwhole @ xfrac)) 2 (e - 4 * int (length xfrac)), rest))
         else if whole \<noteq> [] \<or> frac \<noteq> [] then
           (let (e, rest) = read_exponent {CHR ''e'', CHR ''E''} rest
            in Some (scaled negative (dec_read 0 (whole @ frac)) 10 (e - int (length frac)), rest))
         else if starts_ci ''inf'' s then
           Some (f64_put (FInf negative), drop (if starts_ci ''infinity'' s then 8 else 3) s)
         else if starts_ci ''nan'' s then
           (let t = drop 3 s; u = dropWhile is_word_char (drop 1 t)
            in Some (f64_put FNaN, if take 1 t = ''('' \<and> take 1 u = '')'' then drop 1 u else t))
         else None)"

section \<open>Values and targets\<close>

text \<open>\<open>None\<close> stands for the missing item as well.\<close>

definition parse_property_value :: "json option \<Rightarrow> f64 option" where
  "parse_property_value v =
     (case v of
        Some (JBool b) \<Rightarrow> Some (if b then f64_of_int 1 else 0)
      | Some (JNum x) \<Rightarrow> Some x
      | Some (JStr t) \<Rightarrow> (case strtod t of Some (x, []) \<Rightarrow> Some x | _ \<Rightarrow> None)
      | _ \<Rightarrow> None)"

definition find_entry :: "u8 \<Rightarrow> u8 \<Rightarrow> string \<Rightarrow> amm_state \<Rightarrow> amm_entry option" where
  "find_entry channel slave key amm =
     List.find (\<lambda>e. m_active e \<and> m_source_protocol e = SRC_MODBUS_RTU \<and> m_channel_id e = channel \<and>
         m_slave_id e = slave \<and> m_point_id e = key)
       (List.map_filter (\<lambda>i. case amm_get_entry_at (int i) amm of Inl e \<Rightarrow> Some e | Inr _ \<Rightarrow> None)
          [0..<amm_get_mapping_count amm])"

section \<open>Commands\<close>

text \<open>
  What a command finds: the write environment (with the mapping table and the configuration), the MQTT client, and
  the library.
\<close>

record command_env =
  cm_write :: write_env
  cm_mqtt :: mqtt_env
  cm_parse :: "string \<Rightarrow> json option"
  cm_print :: "json \<Rightarrow> string option"
  cm_alloc :: bool
  cm_beyond :: string

text \<open>The write of one property: \<open>None\<close> is success, otherwise the message of the result.\<close>

definition write_property ::
  "command_env \<Rightarrow> u8 \<Rightarrow> u8 \<Rightarrow> string \<Rightarrow> json option \<Rightarrow> control_state \<Rightarrow> control_state \<times> string option" where
  "write_property env channel slave key v s =
     (case parse_property_value v of
        None \<Rightarrow> (s, Some ''invalid value'')
      | Some eng \<Rightarrow>
          (case find_entry channel slave key (w_amm (cm_write env)) of
             None \<Rightarrow> (s, Some ''no such point'')
           | Some e \<Rightarrow>
               (if \<not> writable (m_constraint e) then (s, Some ''read-only'')
                else if f64_lt eng (f64_of_f32 (valid_range_min (m_constraint e))) \<or>
                        f64_lt (f64_of_f32 (valid_range_max (m_constraint e))) eng
                then (s, Some ''out of range'')
                else
                  let (s, err, result) = control_service_write_point (cm_write env) (Some (m_device_id e)) (Some (m_point_id e))
                        eng CONTROL_SOURCE_MQTT s
                  in (s, if err = ESP_OK then None else Some (cr_reason result)))))"

definition result_json :: "string \<Rightarrow> string option \<Rightarrow> json" where
  "result_json key message =
     JObj ([(''property'', JStr key), (''status'', JStr (if message = None then ''ok'' else ''fail''))] @
           (case message of None \<Rightarrow> [] | Some t \<Rightarrow> [(''message'', JStr t)]))"

fun write_properties ::
  "command_env \<Rightarrow> u8 \<Rightarrow> u8 \<Rightarrow> (string \<times> json) list \<Rightarrow> control_state \<Rightarrow> control_state \<times> json list" where
  "write_properties env channel slave [] s = (s, [])"
| "write_properties env channel slave ((key, v) # fs) s =
     (let (s, message) = write_property env channel slave key (Some v) s;
          (s, results) = write_properties env channel slave fs s
      in (s, result_json key message # results))"

definition downlink_results :: "command_env \<Rightarrow> u8 \<Rightarrow> u8 \<Rightarrow> json \<Rightarrow> control_state \<Rightarrow> control_state \<times> json list" where
  "downlink_results env channel slave root s =
     (case (json_item ''attributes'' root, json_item ''identifier'' root) of
        (Some (JObj fs), _) \<Rightarrow> write_properties env channel slave fs s
      | (_, Some (JStr key)) \<Rightarrow>
          (let (s, message) = write_property env channel slave key (json_item ''value'' root) s
           in (s, [result_json key message]))
      | _ \<Rightarrow> (s, []))"

definition TOPIC_GATEWAY_CMD_REPLY :: string where "TOPIC_GATEWAY_CMD_REPLY = ''gateway/command/reply''"

definition handle_subdevice_downlink ::
  "command_env \<Rightarrow> json \<Rightarrow> control_state \<times> mqtt_state \<Rightarrow> control_state \<times> mqtt_state" where
  "handle_subdevice_downlink env root = (\<lambda>(s, m).
     (case json_item ''device'' root of
        Some (JStr device) \<Rightarrow>
          (case thingscloud_parse_device_address (cm_beyond env) device of
             None \<Rightarrow> (s, m)
           | Some (channel, slave) \<Rightarrow>
               (if \<not> cm_alloc env then (s, m)
                else
                  let (s, results) = downlink_results env channel slave root s
                  in case cm_print env (JObj [(''device'', JStr device), (''results'', JArr results)]) of
                      None \<Rightarrow> (s, m)
                    | Some text \<Rightarrow> (s, fst (mqtt_publish (cm_mqtt env) (Some TOPIC_GATEWAY_CMD_REPLY) (Some text) 0 m))))
      | _ \<Rightarrow> (s, m)))"

definition command_enabled :: "command_env \<Rightarrow> bool" where
  "command_enabled env \<longleftrightarrow> q_platform_type (rc_mqtt (me_config (cm_mqtt env))) = MQTT_PLATFORM_THINGSCLOUD"

definition thingscloud_on_command_send ::
  "command_env \<Rightarrow> string \<Rightarrow> control_state \<times> mqtt_state \<Rightarrow> control_state \<times> mqtt_state" where
  "thingscloud_on_command_send env data sm =
     (if \<not> command_enabled env \<or> data = [] then sm
      else case cm_parse env data of None \<Rightarrow> sm | Some root \<Rightarrow> handle_subdevice_downlink env root sm)"

definition thingscloud_on_attributes_push ::
  "command_env \<Rightarrow> string \<Rightarrow> control_state \<times> mqtt_state \<Rightarrow> control_state \<times> mqtt_state" where
  "thingscloud_on_attributes_push env data sm =
     (if \<not> command_enabled env \<or> data = [] then sm
      else case cm_parse env data of None \<Rightarrow> sm | Some root \<Rightarrow> handle_subdevice_downlink env root sm)"

text \<open>The gateway has no attributes of its own that could be written.\<close>

definition thingscloud_on_gateway_attributes_push :: "string \<Rightarrow> control_state \<times> mqtt_state \<Rightarrow> control_state \<times> mqtt_state" where
  "thingscloud_on_gateway_attributes_push data sm = sm"

section \<open>Answers\<close>

definition signed_dec :: "int \<Rightarrow> string" where
  "signed_dec n = (if n < 0 then CHR ''-'' # dec (nat (- n)) else dec (nat n))"

definition response_accepted :: "json \<Rightarrow> bool" where
  "response_accepted root \<longleftrightarrow>
     (case json_item ''result'' root of Some (JNum x) \<Rightarrow> value_int x = 1 | Some (JBool b) \<Rightarrow> b | _ \<Rightarrow> False)"

definition response_code :: "json \<Rightarrow> int" where
  "response_code root = (case json_item ''errcode'' root of Some (JNum x) \<Rightarrow> value_int x | _ \<Rightarrow> 0)"

definition response_message :: "json \<Rightarrow> string" where
  "response_message root = (case json_item ''message'' root of Some (JStr t) \<Rightarrow> t | _ \<Rightarrow> [])"

definition response_log :: "bool \<Rightarrow> nat \<Rightarrow> json option \<Rightarrow> string \<times> string" where
  "response_log gateway_topic data_len root =
     (let who = (if gateway_topic then ''sub-device'' else ''gateway'') in
      case root of
        None \<Rightarrow> (''error'', strlcpy 192 (''[MQTT RX] ThingsCloud '' @ who @ '' response has invalid JSON ('' @ dec data_len @ '' bytes)''))
      | Some r \<Rightarrow>
          (if response_accepted r then (''ok'', strlcpy 192 (''[MQTT RX] ThingsCloud '' @ who @ '' attributes accepted''))
           else (''error'', strlcpy 192 (''[MQTT RX] ThingsCloud '' @ who @ '' attributes rejected: code='' @
                  signed_dec (response_code r) @ '' '' @ take 96 (response_message r)))))"

text \<open>The state of the adapter and the lines for the log of the web server.\<close>

definition handle_attributes_response ::
  "cloud_env \<Rightarrow> io_env \<Rightarrow> bool \<Rightarrow> (string \<Rightarrow> json option) \<Rightarrow> bool \<Rightarrow> string \<Rightarrow> cloud_state \<Rightarrow> cloud_state \<times> (string \<times> string) list" where
  "handle_attributes_response env io metric parse gateway_topic data s =
     (if data = [] then (s, [])
      else
        let root = parse data; line = response_log gateway_topic (length data) root in
        case root of
          None \<Rightarrow> (s, [line])
        | Some r \<Rightarrow>
            (let code = response_code r;
                 s = thingscloud_record_publish_response env (response_accepted r) code s;
                 s = s\<lparr>cl_uif := uif_replay_cloud_response io metric (cloud_now env) gateway_topic (response_accepted r) code (cl_uif s)\<rparr>
             in (s, line # (if code = 413
                   then [(''warn'', ''[MQTT] Telemetry suspended after cloud 413; control connection will recover'')] else []))))"

definition thingscloud_on_attributes_response ::
  "cloud_env \<Rightarrow> io_env \<Rightarrow> bool \<Rightarrow> (string \<Rightarrow> json option) \<Rightarrow> string \<Rightarrow> cloud_state \<Rightarrow> cloud_state \<times> (string \<times> string) list" where
  "thingscloud_on_attributes_response env io metric parse = handle_attributes_response env io metric parse False"

definition thingscloud_on_gateway_attributes_response ::
  "cloud_env \<Rightarrow> io_env \<Rightarrow> bool \<Rightarrow> (string \<Rightarrow> json option) \<Rightarrow> string \<Rightarrow> cloud_state \<Rightarrow> cloud_state \<times> (string \<times> string) list" where
  "thingscloud_on_gateway_attributes_response env io metric parse = handle_attributes_response env io metric parse True"

section \<open>Replies\<close>

definition is_ok :: "json \<Rightarrow> bool" where
  "is_ok result \<longleftrightarrow> json_item ''status'' result = Some (JStr ''ok'')"

abbreviation accepted_writes :: "control_state \<Rightarrow> u32" where
  "accepted_writes s \<equiv> commands_accepted (ev_metrics (k_eval s))"

lemma result_status: "is_ok (result_json key message) \<longleftrightarrow> message = None"
  by (simp add: is_ok_def result_json_def json_item_def)

lemma result_property: "json_item ''property'' (result_json key message) = Some (JStr key)"
  by (simp add: result_json_def json_item_def)

lemma write_point_mutex:
  "ev_mutex (k_eval (fst (control_service_write_point env d p v src s))) = ev_mutex (k_eval s)"
  by (simp add: control_service_write_point_def reject_def count_metric_def eval_increment_metric_def split_beta Let_def
      split: option.split)

lemma write_property_counted:
  fixes channel slave :: u8 and key :: string and v :: "json option"
  assumes "ev_mutex (k_eval s)" "w_metric (cm_write env)"
  defines "t \<equiv> fst (write_property env channel slave key v s)"
  shows "ev_mutex (k_eval t)"
    "accepted_writes t = accepted_writes s + (if snd (write_property env channel slave key v s) = None then 1 else 0)"
proof -
  have "ev_mutex (k_eval t) \<and> accepted_writes t = accepted_writes s + (if snd (write_property env channel slave key v s) = None then 1 else 0)"
  proof (cases "parse_property_value v")
    case None
    then show ?thesis using assms(1) by (simp add: t_def write_property_def)
  next
    case (Some x)
    show ?thesis
    proof (cases "find_entry channel slave key (w_amm (cm_write env))")
      case None
      then show ?thesis using assms(1) Some by (simp add: t_def write_property_def)
    next
      case entry: (Some e)
      note c = commands_counted [OF assms(1,2), of "Some (m_device_id e)" "Some (m_point_id e)" x CONTROL_SOURCE_MQTT, unfolded Let_def]
      show ?thesis
        using assms(1) c write_point_mutex [of "cm_write env" "Some (m_device_id e)" "Some (m_point_id e)" x CONTROL_SOURCE_MQTT s]
        by (simp add: t_def write_property_def Some entry split_beta Let_def)
    qed
  qed
  then show "ev_mutex (k_eval t)"
    "accepted_writes t = accepted_writes s + (if snd (write_property env channel slave key v s) = None then 1 else 0)" by blast+
qed

lemma write_properties_counted:
  assumes "ev_mutex (k_eval s)" "w_metric (cm_write env)"
  shows "accepted_writes (fst (write_properties env channel slave fs s)) =
      accepted_writes s + of_nat (length (filter is_ok (snd (write_properties env channel slave fs s)))) \<and>
    map (json_item ''property'') (snd (write_properties env channel slave fs s)) = map (Some \<circ> JStr \<circ> fst) fs"
  using assms(1)
proof (induction fs arbitrary: s)
  case Nil
  then show ?case by simp
next
  case (Cons f fs)
  obtain key v where f: "f = (key, v)" by (cases f)
  let ?t = "fst (write_property env channel slave key (Some v) s)"
  note one = write_property_counted [OF Cons.prems assms(2), of channel slave key "Some v"]
  show ?case using Cons.IH [OF one(1)] one(2) by (simp add: f split_beta Let_def result_status result_property)
qed

section \<open>Properties\<close>

text \<open>
  C33. A reply is honest and complete: it has one result for each property of the command, in order, and says ok
  exactly as often as the control service has accepted a write.
\<close>

theorem reply_matches_writes:
  fixes channel slave :: u8
  assumes "json_item ''attributes'' root = Some (JObj fs)" "ev_mutex (k_eval s)" "w_metric (cm_write env)"
  defines "r \<equiv> downlink_results env channel slave root s"
  shows "map (json_item ''property'') (snd r) = map (Some \<circ> JStr \<circ> fst) fs \<and>
    accepted_writes (fst r) = accepted_writes s + of_nat (length (filter is_ok (snd r)))"
  using write_properties_counted [OF assms(2,3), of channel slave fs] by (simp add: r_def downlink_results_def assms(1))

text \<open>
  A command names a slave, but the write goes to the first point with the same device and point id: where two
  slaves share these ids, the value for the second is written to the first.
\<close>

theorem command_reaches_first_entry:
  assumes "parse_property_value v = Some x" "find_entry channel slave key (w_amm (cm_write env)) = Some e"
    "writable (m_constraint e)" "\<not> f64_lt x (f64_of_f32 (valid_range_min (m_constraint e)))"
    "\<not> f64_lt (f64_of_f32 (valid_range_max (m_constraint e))) x"
    "write_permitted (cm_write env) (Some (m_device_id e)) (Some (m_point_id e)) x CONTROL_SOURCE_MQTT"
    "amm_find_mapping_by_point (Some (m_device_id e)) (Some (m_point_id e)) (w_amm (cm_write env)) = Some m"
  defines "c \<equiv> fst (encode_value (w_llround (cm_write env)) x m)"
  shows "k_access (fst (write_property env channel slave key v s)) =
    fst (modbus_write_channel (w_access (cm_write env)) (m_source_protocol m) (m_channel_id m) (m_slave_id m)
      (write_function m c) (write_address m c) (word_of_nat c) (snd (encode_value (w_llround (cm_write env)) x m)) (k_access s))"
  using write_run [OF assms(6,7), of s] assms(1-5)
  by (simp add: write_property_def split_beta Let_def c_def)

section \<open>Witnesses\<close>

text \<open>Two pumps with the same ids, at slave 1 and slave 2.\<close>

definition two_pumps :: command_env where
  "two_pumps = \<lparr>cm_write = coil_env\<lparr>w_amm := (w_amm coil_env)\<lparr>am_table := [coil_entry, coil_entry\<lparr>m_slave_id := 2\<rparr>]\<rparr>\<rparr>,
     cm_mqtt = demo_env, cm_parse = (\<lambda>_. None), cm_print = (\<lambda>_. None), cm_alloc = True, cm_beyond = []\<rparr>"

lemma two_pumps_find:
  "find_entry 0 2 ''run'' (w_amm (cm_write two_pumps)) = Some (coil_entry\<lparr>m_slave_id := 2\<rparr>)"
  "amm_find_mapping_by_point (Some ''pump'') (Some ''run'') (w_amm (cm_write two_pumps)) = Some coil_entry"
  by (simp_all add: find_entry_def amm_find_mapping_by_point_def lookup_active_def find_active_def two_pumps_def coil_env_def
      coil_entry_def amm_get_mapping_count_def amm_get_entry_at_def map_filter_simps upt_rec zero_mapping_def)

lemma reply_matches_writes_witness:
  "accepted_writes (fst (downlink_results two_pumps 0 7 (JObj [(''attributes'', JObj [(''run'', JBool True), (''speed'', JNull)])]) coil_state)) = 0"
proof -
  let ?root = "JObj [(''attributes'', JObj [(''run'', JBool True), (''speed'', JNull)])]"
  have "json_item ''attributes'' ?root = Some (JObj [(''run'', JBool True), (''speed'', JNull)])" by (simp add: json_item_def)
  moreover have "ev_mutex (k_eval coil_state)" "w_metric (cm_write two_pumps)" "accepted_writes coil_state = 0"
    by (simp_all add: coil_state_def two_pumps_def coil_env_def zero_metrics_def)
  moreover have "find_entry 0 7 ''run'' (w_amm (cm_write two_pumps)) = None"
    by (simp add: find_entry_def two_pumps_def coil_env_def coil_entry_def amm_get_mapping_count_def amm_get_entry_at_def
        map_filter_simps upt_rec zero_mapping_def)
  then have "filter is_ok (snd (downlink_results two_pumps 0 7 ?root coil_state)) = []"
    by (simp add: downlink_results_def json_item_def write_property_def parse_property_value_def result_status Let_def)
  ultimately show ?thesis using reply_matches_writes [of ?root "[(''run'', JBool True), (''speed'', JNull)]" coil_state two_pumps 0 7] by simp
qed

lemma command_reaches_first_entry_witness:
  "k_access (fst (write_property two_pumps 0 2 ''run'' (Some (JBool True)) coil_state)) =
    fst (modbus_write_channel (w_access coil_env) SRC_MODBUS_RTU 0 1 (write_function coil_entry 1) (write_address coil_entry 1) 1
      (snd (encode_value (\<lambda>_. 0) 0x3FF0000000000000 coil_entry)) idle_access)"
proof -
  let ?e = "coil_entry\<lparr>m_slave_id := 2\<rparr>"
  have v: "parse_property_value (Some (JBool True)) = Some 0x3FF0000000000000" by (simp add: parse_property_value_def one_f64)
  have "write_permitted (cm_write two_pumps) (Some (m_device_id ?e)) (Some (m_point_id ?e)) 0x3FF0000000000000 CONTROL_SOURCE_MQTT"
    using two_pumps_find(2) one_checks by (simp add: write_permitted_def control_source_may_write_def) (simp add: coil_entry_def)
  moreover have "fst (encode_value f x coil_entry) = 1" for f x by (simp add: encode_value_def coil_entry_def Let_def)
  ultimately show ?thesis
    using command_reaches_first_entry [OF v two_pumps_find(1), of coil_entry coil_state] two_pumps_find(2) one_checks
    by (simp add: coil_entry_def [symmetric] two_pumps_def) (simp add: coil_entry_def coil_env_def coil_state_def zero_mapping_def)
qed

end
