(* ===== verification/Scheduler.thy ===== *)
theory Scheduler
  imports Cloud_Adapter Modbus_Access Tcm_State_Pool Amm_Semantics
begin

text \<open>
  The pipeline of the gateway (\<open>scheduler/scheduler.c\<close>, and the task behind its last queue in \<open>main.c\<close>): poll the
  bus, build contexts, publish or cache them, replay the cache. Each task is a step, one turn of its loop; the
  tasks share the queues and the components below, and may take turns in any order. A queue is the list of its items,
  front first; a send that waits succeeds if there is room when it ends. Delays, the stacks of the tasks and log lines
  are left out; what is handed to the history store is recorded as a list.
\<close>

section \<open>State\<close>

abbreviation QUEUE_RAW_DATA_SIZE :: nat where "QUEUE_RAW_DATA_SIZE \<equiv> 8"
abbreviation QUEUE_CONTEXT_SIZE :: nat where "QUEUE_CONTEXT_SIZE \<equiv> 4"
abbreviation QUEUE_MQTT_OUT_SIZE :: nat where "QUEUE_MQTT_OUT_SIZE \<equiv> 4"
abbreviation CACHE_QUEUE_SIZE :: nat where "CACHE_QUEUE_SIZE \<equiv> 16"
abbreviation THINGSCLOUD_FLUSH_INTERVAL_MS :: ms where "THINGSCLOUD_FLUSH_INTERVAL_MS \<equiv> 10000"
abbreviation THINGSCLOUD_GW_STATUS_INTERVAL_MS :: ms where "THINGSCLOUD_GW_STATUS_INTERVAL_MS \<equiv> 60000"
abbreviation THINGSCLOUD_CONNECTION_STABLE_MS :: ms where "THINGSCLOUD_CONNECTION_STABLE_MS \<equiv> 10000"
abbreviation AMM_MAX_READ_REGISTERS :: nat where "AMM_MAX_READ_REGISTERS \<equiv> 64"

record read_result =
  rr_source_protocol :: source_protocol
  rr_channel_id :: u8
  rr_slave_id :: u8
  rr_function_code :: u8
  rr_register_address :: u16
  rr_register_count :: u16
  rr_data_type :: data_type
  rr_raw_value :: f64
  rr_value_text :: string
  rr_quality :: quality_state
  rr_valid :: bool

record mqtt_out =
  mo_topic :: string
  mo_payload :: string
  mo_qos :: int
  mo_sequence_id :: u32

text \<open>
  \<open>sd_last_poll\<close> and \<open>sd_version\<close> are the locals of the poll task; \<open>sd_trigger\<close>: the semaphore exists, and
  whether it has been given; \<open>sd_cache_ready\<close>: the cache queue exists; \<open>sd_tc_flush\<close>, \<open>sd_gw_status\<close> and
  \<open>sd_slave_status\<close> are the statics of the publish task, \<open>sd_min_heap\<close> is the local of the monitor. \<open>sd_aborted\<close>:
  a task has used a queue or a semaphore that does not exist, which FreeRTOS answers with a failed assertion.
\<close>

record sched_state =
  sd_access :: access_state
  sd_pool :: state_pool
  sd_tcm :: tcm_state
  sd_cloud :: cloud_state
  sd_history :: "tcm_context list"
  sd_raw :: "read_result list"
  sd_ctx :: "tcm_context list"
  sd_out :: "mqtt_out list"
  sd_cache :: "tcm_context list"
  sd_cache_ready :: bool
  sd_last_poll :: "ms list"
  sd_version :: u32
  sd_net :: network_state
  sd_net_mutex :: bool
  sd_trigger :: "bool option"
  sd_running :: bool
  sd_paused :: bool
  sd_tc_flush :: ms
  sd_gw_status :: ms
  sd_slave_status :: ms
  sd_min_heap :: u32
  sd_aborted :: bool

text \<open>
  What a step finds: the platform below (\<open>se_cloud\<close>, with the time and the configuration), the mapping table,
  the bus at each attempt of a read, the locks, the clock, NVS, the file system and the JSON library.
\<close>

record sched_env =
  se_cloud :: cloud_env
  se_amm :: amm_state
  se_access :: "nat \<Rightarrow> access_env"
  se_net_lock :: bool
  se_metric :: bool
  se_clock :: tcm_clock
  se_nvs :: bool
  se_io :: io_env
  se_print :: "json \<Rightarrow> nat \<Rightarrow> string option"
  se_parse :: "string \<Rightarrow> json option"
  se_ub :: "f64 \<Rightarrow> int"
  se_alloc :: bool
  se_free_heap :: u32
  se_tasks :: u32

definition now_of :: "sched_env \<Rightarrow> ms" where
  "now_of env = cloud_now (se_cloud env)"

definition config_of :: "sched_env \<Rightarrow> runtime_config" where
  "config_of env = me_config (ce_mqtt (se_cloud env))"

definition sd_uif :: "sched_state \<Rightarrow> uif_state" where
  "sd_uif s = cl_uif (sd_cloud s)"

definition set_uif :: "uif_state \<Rightarrow> sched_state \<Rightarrow> sched_state" where
  "set_uif u s = s\<lparr>sd_cloud := (sd_cloud s)\<lparr>cl_uif := u\<rparr>\<rparr>"

definition sd_mqtt :: "sched_state \<Rightarrow> mqtt_state" where
  "sd_mqtt s = cl_mqtt (sd_cloud s)"

text \<open>The metrics are those of the evaluation log, which the durable layer counts in as well.\<close>

definition metric :: "sched_env \<Rightarrow> string \<Rightarrow> u32 \<Rightarrow> sched_state \<Rightarrow> sched_state" where
  "metric env name n s =
     set_uif ((sd_uif s)\<lparr>uf_eval := eval_increment_metric (se_metric env) (Some name) n (uf_eval (sd_uif s))\<rparr>) s"

definition running :: "sched_state \<Rightarrow> bool" where
  "running s \<longleftrightarrow> sd_running s \<and> \<not> sd_aborted s"

definition get_network_state_locked :: "sched_env \<Rightarrow> sched_state \<Rightarrow> network_state" where
  "get_network_state_locked env s = (if sd_net_mutex s \<and> se_net_lock env then sd_net s else NET_OFFLINE)"

section \<open>Polling\<close>

definition poll_interval :: "amm_state \<Rightarrow> amm_entry \<Rightarrow> u32" where
  "poll_interval amm e = (if m_poll_interval_ms e \<noteq> 0 then m_poll_interval_ms e else amm_get_default_poll_interval amm)"

definition poll_due :: "ms \<Rightarrow> amm_state \<Rightarrow> amm_entry \<Rightarrow> ms \<Rightarrow> bool" where
  "poll_due now amm e polled \<longleftrightarrow> \<not> now - polled < uint (poll_interval amm e)"

text \<open>The scan over the snapshot: oldest first, then the higher priority, then the earlier entry.\<close>

definition select_poll :: "ms \<Rightarrow> amm_state \<Rightarrow> amm_entry list \<Rightarrow> ms list \<Rightarrow> nat option" where
  "select_poll now amm es polled =
     fold (\<lambda>i selected.
         if \<not> poll_due now amm (es ! i) (polled ! i) then selected
         else case selected of
             None \<Rightarrow> Some i
           | Some j \<Rightarrow>
               (if polled ! i < polled ! j \<or> polled ! i = polled ! j \<and> m_priority (es ! i) > m_priority (es ! j)
                then Some i else selected))
       [0..<length es] None"

text \<open>The window that is read and the place of the value in it.\<close>

definition read_window :: "amm_entry \<Rightarrow> u16 \<times> nat \<times> nat" where
  "read_window e =
     (let n = modbus_register_count_for_type (m_data_type e);
          reg_count = unat (m_read_register_count e); index = unat (m_value_register_index e)
      in if reg_count = 0 \<or> reg_count > AMM_MAX_READ_REGISTERS \<or> index + n > reg_count then (m_register_address e, n, 0)
         else (m_read_start_address e, reg_count, index))"

fun read_attempts ::
  "(nat \<Rightarrow> access_env) \<Rightarrow> amm_entry \<Rightarrow> u16 \<Rightarrow> nat \<Rightarrow> nat \<Rightarrow> nat \<Rightarrow> access_state \<Rightarrow> access_state \<times> esp_err \<times> u16 list option" where
  "read_attempts envs e offset reg_count i 0 a = (a, ESP_FAIL, None)"
| "read_attempts envs e offset reg_count i (Suc k) a =
     (let (a, err, words) = modbus_read_channel (envs i) (m_source_protocol e) (m_channel_id e) (m_slave_id e)
            (m_function_code e) offset (word_of_nat reg_count) a
      in if err = ESP_OK \<or> k = 0 then (a, err, words) else read_attempts envs e offset reg_count (Suc i) k a)"

definition attempts_of :: "amm_entry \<Rightarrow> nat" where
  "attempts_of e = unat (m_retry_count e + 1)"

definition empty_result :: "amm_entry \<Rightarrow> read_result" where
  "empty_result e =
     \<lparr>rr_source_protocol = m_source_protocol e, rr_channel_id = m_channel_id e, rr_slave_id = m_slave_id e,
      rr_function_code = m_function_code e, rr_register_address = m_register_address e,
      rr_register_count = word_of_nat (modbus_register_count_for_type (m_data_type e)), rr_data_type = m_data_type e,
      rr_raw_value = 0, rr_value_text = [], rr_quality = QUALITY_INVALID, rr_valid = False\<rparr>"

text \<open>The value in the words of a successful read; the array has 64 words and was zeroed.\<close>

definition decode_read :: "amm_entry \<Rightarrow> nat \<Rightarrow> nat \<Rightarrow> u16 list \<Rightarrow> read_result" where
  "decode_read e reg_count index words =
     (let raw = words @ replicate (AMM_MAX_READ_REGISTERS - length words) 0;
          r = (empty_result e)\<lparr>rr_quality := QUALITY_GOOD, rr_valid := True\<rparr>
      in if m_data_type e = DT_ASCII then
           (case modbus_decode_ascii (Some (drop index raw)) (reg_count - index) (m_byte_order e) 32 of
              Some t \<Rightarrow> r\<lparr>rr_value_text := t\<rparr>
            | None \<Rightarrow> r)
         else r\<lparr>rr_raw_value := modbus_convert_to_number (Some (drop index raw)) (m_data_type e) (m_byte_order e) (m_bit_index e)\<rparr>)"

definition failed_context :: "ms \<Rightarrow> network_state \<Rightarrow> amm_entry \<Rightarrow> tcm_context" where
  "failed_context now net e = zero_context
     \<lparr>c_device_id := strlcpy 32 (m_device_id e), c_point_id := strlcpy 32 (m_point_id e),
      c_measurement_name := strlcpy 32 (m_measurement_name e), c_unit := strlcpy 16 (m_unit e),
      c_source_protocol := m_source_protocol e, c_channel_id := m_channel_id e, c_slave_id := m_slave_id e,
      c_function_code := m_function_code e, c_register_address := m_register_address e, c_data_type := m_data_type e,
      c_byte_order := m_byte_order e, c_scale_factor := m_scale_factor e, c_offset := m_offset e,
      c_mapping_version := m_mapping_version e, c_timestamp_ms := now, c_quality_state := QUALITY_INVALID,
      c_network_state := net, c_validated := False\<rparr>"

definition poll_failed :: "sched_env \<Rightarrow> amm_entry \<Rightarrow> sched_state \<Rightarrow> sched_state" where
  "poll_failed env e s =
     (let s = s\<lparr>sd_pool := tcm_state_pool_update (Some (failed_context (now_of env) (get_network_state_locked env s) e)) (sd_pool s)\<rparr>;
          s = (if thingscloud_is_enabled (se_cloud env)
               then s\<lparr>sd_cloud := thingscloud_subdev_register_failure (se_cloud env)
                        (fst (thingscloud_format_device_address (m_channel_id e) (m_slave_id e) 40)) (sd_cloud s)\<rparr>
               else s)
      in metric env ''failed_polls'' 1 s)"

definition send_raw :: "sched_env \<Rightarrow> read_result \<Rightarrow> sched_state \<Rightarrow> sched_state" where
  "send_raw env r s =
     (if length (sd_raw s) < QUEUE_RAW_DATA_SIZE then s\<lparr>sd_raw := sd_raw s @ [r]\<rparr> else metric env ''data_loss_count'' 1 s)"

definition poll_entry :: "sched_env \<Rightarrow> amm_entry \<Rightarrow> sched_state \<Rightarrow> sched_state" where
  "poll_entry env e s =
     (let (start, reg_count, index) = read_window e;
          (a, err, words) = read_attempts (se_access env) e (modbus_register_offset (m_function_code e) start) reg_count 0
            (attempts_of e) (sd_access s);
          s = s\<lparr>sd_access := a\<rparr>;
          r = (if err = ESP_OK then decode_read e reg_count index (case words of Some ws \<Rightarrow> ws | None \<Rightarrow> []) else empty_result e);
          s = (if err = ESP_OK then metric env ''successful_polls'' 1 s else poll_failed env e s)
      in send_raw env r (metric env ''total_polls'' 1 s))"

text \<open>A change of the model makes every entry due.\<close>

definition observe_version :: "sched_env \<Rightarrow> sched_state \<Rightarrow> sched_state" where
  "observe_version env s =
     (if amm_get_model_version (se_amm env) \<noteq> sd_version s
      then s\<lparr>sd_last_poll := replicate (length (sd_last_poll s)) 0, sd_version := amm_get_model_version (se_amm env)\<rparr> else s)"

definition poll_step :: "sched_env \<Rightarrow> sched_state \<Rightarrow> sched_state" where
  "poll_step env s =
     (if \<not> running s \<or> sd_paused s then s
      else
        let es = amm_get_entries (int (length (sd_last_poll s))) (se_amm env);
            s = observe_version env s
        in case select_poll (now_of env) (se_amm env) es (sd_last_poll s) of
            None \<Rightarrow> s
          | Some i \<Rightarrow> poll_entry env (es ! i) (s\<lparr>sd_last_poll := (sd_last_poll s)[i := now_of env]\<rparr>))"

section \<open>Building contexts\<close>

definition build_context :: "sched_env \<Rightarrow> read_result \<Rightarrow> sched_state \<Rightarrow> sched_state" where
  "build_context env r s =
     (case tcm_build_context (config_of env) (se_clock env) (se_nvs env) (rr_slave_id r) (rr_function_code r)
             (rr_register_address r) (rr_raw_value r) (rr_quality r) (get_network_state_locked env s) (sd_tcm s) of
        (None, t) \<Rightarrow> metric env ''contexts_rejected'' 1 (s\<lparr>sd_tcm := t\<rparr>)
      | (Some c, t) \<Rightarrow>
          (let s = metric env ''contexts_created'' 1 (s\<lparr>sd_tcm := t\<rparr>);
               c = c\<lparr>c_source_protocol := rr_source_protocol r, c_channel_id := rr_channel_id r,
                     c_value_text := strlcpy 32 (rr_value_text r)\<rparr>;
               c = (case fst (amm_enrich_context (Some c) (se_amm env)) of Some e \<Rightarrow> e | None \<Rightarrow> c)
           in if \<not> fst (tcm_validate (Some c)) then metric env ''contexts_rejected'' 1 s
              else
                let c = c\<lparr>c_validated := True\<rparr>;
                    s = metric env ''contexts_validated'' 1 s;
                    s = s\<lparr>sd_pool := tcm_state_pool_update (Some c) (sd_pool s), sd_history := sd_history s @ [c]\<rparr>
                in if length (sd_ctx s) < QUEUE_CONTEXT_SIZE then s\<lparr>sd_ctx := sd_ctx s @ [c]\<rparr>
                   else metric env ''data_loss_count'' 1 s))"

definition build_step :: "sched_env \<Rightarrow> sched_state \<Rightarrow> sched_state" where
  "build_step env s =
     (if \<not> running s then s
      else case sd_raw s of
          [] \<Rightarrow> s
        | r # rs \<Rightarrow>
            (let s = s\<lparr>sd_raw := rs\<rparr>
             in if \<not> rr_valid r then metric env ''contexts_rejected'' 1 s else build_context env r s))"

section \<open>Publishing\<close>

definition to_cloud :: "(cloud_state \<Rightarrow> cloud_state) \<Rightarrow> sched_state \<Rightarrow> sched_state" where
  "to_cloud f s = s\<lparr>sd_cloud := f (sd_cloud s)\<rparr>"

definition session_stable :: "sched_env \<Rightarrow> sched_state \<Rightarrow> bool" where
  "session_stable env s \<longleftrightarrow> mq_connected_since_ms (sd_mqtt s) > 0 \<and>
     now_of env - mq_connected_since_ms (sd_mqtt s) \<ge> THINGSCLOUD_CONNECTION_STABLE_MS"

text \<open>The maintenance when no context arrives.\<close>

definition cloud_maintenance :: "sched_env \<Rightarrow> sched_state \<Rightarrow> sched_state" where
  "cloud_maintenance env s =
     (if \<not> (thingscloud_is_enabled (se_cloud env) \<and> mqtt_is_connected (sd_mqtt s) \<and> session_stable env s) then s
      else
        let now = now_of env;
            s = (if now - sd_tc_flush s > THINGSCLOUD_FLUSH_INTERVAL_MS
                 then (to_cloud (thingscloud_flush (se_cloud env)) s)\<lparr>sd_tc_flush := now\<rparr> else s);
            pending = (uif_get_cached_count (io_mounted (se_io env)) (sd_uif s) > 0 \<or> uif_replay_is_waiting_response (sd_uif s));
            s = (if \<not> pending \<and> now - sd_gw_status s > THINGSCLOUD_GW_STATUS_INTERVAL_MS
                 then (to_cloud (\<lambda>c. fst (thingscloud_publish_gateway_status (se_cloud env) c)) s)\<lparr>sd_gw_status := now\<rparr> else s)
        in if \<not> pending \<and> q_report_mode (rc_mqtt (config_of env)) = MQ_REPORT_GATEWAY \<and>
              now - sd_slave_status s > THINGSCLOUD_GW_STATUS_INTERVAL_MS
           then (to_cloud (\<lambda>c. fst (thingscloud_publish_gateway_slave_status (se_cloud env) c)) s)\<lparr>sd_slave_status := now\<rparr>
           else s)"

definition send_cache :: "tcm_context \<Rightarrow> sched_state \<Rightarrow> sched_state \<times> bool" where
  "send_cache c s =
     (if \<not> sd_cache_ready s then (s\<lparr>sd_aborted := True\<rparr>, False)
      else if length (sd_cache s) < CACHE_QUEUE_SIZE then (s\<lparr>sd_cache := sd_cache s @ [c]\<rparr>, True)
      else (s, False))"

definition publish_cloud :: "sched_env \<Rightarrow> tcm_context \<Rightarrow> sched_state \<Rightarrow> sched_state" where
  "publish_cloud env c s =
     (let s = to_cloud (thingscloud_subdev_register_success (se_cloud env)
            (fst (thingscloud_format_device_address (c_channel_id c) (c_slave_id c) 40))) s;
          (cloud, err) = thingscloud_publish_context (se_cloud env) c (sd_cloud s);
          s = s\<lparr>sd_cloud := cloud\<rparr>
      in if err = ESP_OK then metric env ''mqtt_published'' 1 s
         else case send_cache c s of
             (s, False) \<Rightarrow> metric env ''data_loss_count'' 1 s
           | (s, True) \<Rightarrow> metric env ''mqtt_failed'' 1 s)"

text \<open>The topic is the one the durable layer gives the point as well.\<close>

definition out_topic :: "sched_env \<Rightarrow> tcm_context \<Rightarrow> string" where
  "out_topic env c =
     (case amm_copy_mqtt_topic (config_of env) (c_source_protocol c) (c_channel_id c) (c_slave_id c) (c_register_address c) 128
             (se_amm env) of
        (Some topic, ESP_OK) \<Rightarrow> topic
      | _ \<Rightarrow> strlcat 128 (strlcat 128 (strlcat 128 (strlcpy 128 (q_data_prefix (rc_mqtt (config_of env)))) (c_device_id c)) ''/'')
               (c_point_id c))"

definition publish_mqtt :: "sched_env \<Rightarrow> tcm_context \<Rightarrow> sched_state \<Rightarrow> sched_state" where
  "publish_mqtt env c s =
     (case tcm_serialize_json (se_print env) (se_alloc env) c TCM_MAX_JSON_LEN of
        (Some payload, n) \<Rightarrow>
          (if n \<le> 0 then metric env ''mqtt_failed'' 1 s
           else if length (sd_out s) < QUEUE_MQTT_OUT_SIZE
           then metric env ''mqtt_published'' 1
                  (s\<lparr>sd_out := sd_out s @ [\<lparr>mo_topic = out_topic env c, mo_payload = payload, mo_qos = 1, mo_sequence_id = c_sequence_id c\<rparr>]\<rparr>)
           else case send_cache c s of
               (s, False) \<Rightarrow> metric env ''data_loss_count'' 1 s
             | (s, True) \<Rightarrow> s)
      | (None, _) \<Rightarrow> metric env ''mqtt_failed'' 1 s)"

definition publish_offline :: "sched_env \<Rightarrow> tcm_context \<Rightarrow> sched_state \<Rightarrow> sched_state" where
  "publish_offline env c s =
     (case send_cache c s of (s, False) \<Rightarrow> metric env ''data_loss_count'' 1 s | (s, True) \<Rightarrow> s)"

definition publish_one :: "sched_env \<Rightarrow> tcm_context \<Rightarrow> sched_state \<Rightarrow> sched_state" where
  "publish_one env c s =
     (let q = rc_mqtt (config_of env) in
      if \<not> (q_enabled q \<and> mqtt_configured q) then s
      else if mqtt_is_connected (sd_mqtt s)
      then (if q_platform_type q = MQTT_PLATFORM_THINGSCLOUD then publish_cloud env c s else publish_mqtt env c s)
      else publish_offline env c s)"

definition publish_step :: "sched_env \<Rightarrow> sched_state \<Rightarrow> sched_state" where
  "publish_step env s =
     (if \<not> running s then s
      else case sd_ctx s of
          [] \<Rightarrow> cloud_maintenance env s
        | c # cs \<Rightarrow> publish_one env c (s\<lparr>sd_ctx := cs\<rparr>))"

text \<open>\<open>mqtt_publish_task\<close> of \<open>main.c\<close>, which never ends.\<close>

definition out_step :: "sched_env \<Rightarrow> sched_state \<Rightarrow> sched_state" where
  "out_step env s =
     (case sd_out s of
        [] \<Rightarrow> s
      | msg # rest \<Rightarrow>
          (let s = s\<lparr>sd_out := rest\<rparr>;
               (m, err) = (if mqtt_is_connected (sd_mqtt s)
                 then mqtt_publish (ce_mqtt (se_cloud env)) (Some (mo_topic msg)) (Some (mo_payload msg)) (mo_qos msg) (sd_mqtt s)
                 else (sd_mqtt s, ESP_ERR_INVALID_STATE));
               s = to_cloud (\<lambda>c. c\<lparr>cl_mqtt := m\<rparr>) s
           in if err = ESP_OK then s
              else metric env ''mqtt_failed'' 1
                (set_uif ((sd_uif s)\<lparr>uf_store := fst (offline_store_put (se_io env) (mo_sequence_id msg) (Some (mo_topic msg))
                    (Some (mo_payload msg)) (uf_store (sd_uif s)))\<rparr>) s)))"

section \<open>Caching and replaying\<close>

definition cache_step :: "sched_env \<Rightarrow> sched_state \<Rightarrow> sched_state" where
  "cache_step env s =
     (if \<not> running s then s
      else if \<not> sd_cache_ready s then s\<lparr>sd_aborted := True\<rparr>
      else case sd_cache s of
          [] \<Rightarrow> s
        | c # cs \<Rightarrow>
            (let s = s\<lparr>sd_cache := cs\<rparr>;
                 (u, err) = uif_cache_record (se_print env) (se_alloc env) (config_of env) (se_amm env) (se_io env) (Some c) (sd_uif s);
                 s = set_uif u s
             in metric env (if err = ESP_OK then ''cached_records'' else ''data_loss_count'') 1 s))"

definition replay_env_of :: "sched_env \<Rightarrow> sched_state \<Rightarrow> replay_env" where
  "replay_env_of env s =
     \<lparr>re_connected = mqtt_is_connected (sd_mqtt s), re_now = now_of env, re_config = config_of env, re_io = se_io env,
      re_parse = se_parse env, re_ub = se_ub env,
      re_send = (\<lambda>c. snd (thingscloud_replay_context (se_cloud env) c (sd_cloud s))),
      re_publish = (\<lambda>topic payload seq.
        snd (mqtt_publish_tracked (ce_mqtt (se_cloud env)) (Some topic) (Some payload) 1 seq (sd_mqtt s)))\<rparr>"

text \<open>What a replay tries to send, and the replay with what the attempt does to the adapter and the client.\<close>

definition replay_attempt :: "replay_env \<Rightarrow> uif_state \<Rightarrow> replay_send option" where
  "replay_attempt env u = snd (snd (uif_replay_all (env\<lparr>re_send := \<lambda>_. ESP_OK, re_publish := \<lambda>_ _ _. ESP_OK\<rparr>) u))"

definition replay_cloud :: "sched_env \<Rightarrow> sched_state \<Rightarrow> sched_state \<times> esp_err" where
  "replay_cloud env s =
     (let renv = replay_env_of env s;
          (u, err, sent) = uif_replay_all renv (sd_uif s);
          cloud = (case replay_attempt renv (sd_uif s) of
              None \<Rightarrow> sd_cloud s
            | Some (SentContext c) \<Rightarrow> fst (thingscloud_replay_context (se_cloud env) c (sd_cloud s))
            | Some (SentMessage topic payload seq) \<Rightarrow>
                (sd_cloud s)\<lparr>cl_mqtt := fst (mqtt_publish_tracked (ce_mqtt (se_cloud env)) (Some topic) (Some payload) 1 seq (sd_mqtt s))\<rparr>)
      in (s\<lparr>sd_cloud := cloud\<lparr>cl_uif := u\<rparr>\<rparr>, err))"

definition replay_step :: "sched_env \<Rightarrow> sched_state \<Rightarrow> sched_state" where
  "replay_step env s =
     (let s = s\<lparr>sd_trigger := map_option (\<lambda>_. False) (sd_trigger s)\<rparr> in
      if \<not> running s then s
      else if sd_trigger s = None then s\<lparr>sd_aborted := True\<rparr>
      else if get_network_state_locked env s \<noteq> NET_ONLINE \<or> \<not> session_stable env s \<or>
         uif_get_cached_count (io_mounted (se_io env)) (sd_uif s) = 0 then s
      else
        let before = uif_get_cached_count (io_mounted (se_io env)) (sd_uif s);
            (s, err) = replay_cloud env s;
            after = uif_get_cached_count (io_mounted (se_io env)) (sd_uif s)
        in if err = ESP_OK \<and> after < before then metric env ''replayed_records'' (word_of_int (before - after)) s else s)"

text \<open>The resource monitor; \<open>esp_get_minimum_free_heap_size\<close> is \<open>se_free_heap\<close>.\<close>

definition cpu_load_est :: "u32 \<Rightarrow> u32" where
  "cpu_load_est tasks = (let load = (if tasks > 10 then 80 else tasks * 8) in if load > 100 then 100 else load)"

definition monitor_step :: "sched_env \<Rightarrow> sched_state \<Rightarrow> sched_state" where
  "monitor_step env s =
     (if \<not> running s then s
      else
        let s = s\<lparr>sd_min_heap := min (sd_min_heap s) (se_free_heap env)\<rparr>;
            s = metric env ''free_heap_min'' (sd_min_heap s) s;
            s = metric env ''cpu_load_percent'' (cpu_load_est (se_tasks env)) s
        in set_uif ((sd_uif s)\<lparr>uf_eval := eval_log_event (se_metric env) (Some ''resource_stats'') (uf_eval (sd_uif s))\<rparr>) s)"

section \<open>Control\<close>

definition scheduler_init :: "bool \<Rightarrow> bool \<Rightarrow> bool \<Rightarrow> sched_state \<Rightarrow> sched_state" where
  "scheduler_init mutex trigger storage s =
     s\<lparr>sd_net_mutex := mutex, sd_trigger := (if trigger then Some False else None), sd_cache_ready := storage, sd_cache := []\<rparr>"

text \<open>A poll task that starts has its own times and has seen no model; \<open>capacity\<close> is that of the mapping table.\<close>

definition scheduler_start :: "nat \<Rightarrow> sched_state \<Rightarrow> sched_state" where
  "scheduler_start capacity s =
     (if sd_running s then s
      else s\<lparr>sd_running := True, sd_last_poll := replicate capacity 0, sd_version := 0, sd_min_heap := - 1\<rparr>)"

definition scheduler_stop :: "sched_state \<Rightarrow> sched_state" where
  "scheduler_stop s =
     s\<lparr>sd_running := False, sd_paused := False, sd_net_mutex := False, sd_trigger := None, sd_cache_ready := False, sd_cache := []\<rparr>"

definition scheduler_pause_modbus_polling :: "bool \<Rightarrow> sched_state \<Rightarrow> sched_state" where
  "scheduler_pause_modbus_polling paused s = s\<lparr>sd_paused := paused\<rparr>"

definition scheduler_get_network_state :: "sched_env \<Rightarrow> sched_state \<Rightarrow> network_state" where
  "scheduler_get_network_state = get_network_state_locked"

definition scheduler_set_network_state :: "sched_env \<Rightarrow> network_state \<Rightarrow> sched_state \<Rightarrow> sched_state" where
  "scheduler_set_network_state env state s =
     (if \<not> (sd_net_mutex s \<and> se_net_lock env) then s
      else
        let prev = sd_net s;
            s = s\<lparr>sd_net := state\<rparr>;
            s = (if state \<noteq> NET_ONLINE then set_uif (uif_replay_connection_lost (sd_uif s)) s else s)
        in if state = NET_ONLINE \<and> prev \<noteq> NET_ONLINE then s\<lparr>sd_trigger := map_option (\<lambda>_. True) (sd_trigger s)\<rparr> else s)"

text \<open>The loop of \<open>app_main\<close>: \<open>previous\<close> is its local.\<close>

definition main_step :: "sched_env \<Rightarrow> network_state \<times> sched_state \<Rightarrow> network_state \<times> sched_state" where
  "main_step env = (\<lambda>(previous, s).
     let current = (if mqtt_is_connected (sd_mqtt s) then NET_ONLINE else NET_OFFLINE)
     in if current \<noteq> previous then (current, scheduler_set_network_state env current s) else (previous, s))"

end
