(* ===== verification/Cloud_Telemetry.thy ===== *)
theory Cloud_Telemetry
  imports Cloud_Adapter
begin

text \<open>
  What the ThingsCloud adapter (\<open>thingscloud/thingscloud_adapter.c\<close>) guarantees over all its operations: the rate
  of the telemetry messages, which values a batch carries, and when a batch cannot be sent. The rate is bounded
  with a potential function: the locale \<open>metered_run\<close> adds up what the single steps may cost.
\<close>

section \<open>Runs with a budget\<close>

locale metered_run =
  fixes step :: "'op \<Rightarrow> 's \<Rightarrow> 's" and cost :: "'op \<Rightarrow> 's \<Rightarrow> int" and potential :: "'s \<Rightarrow> int"
    and budget :: "'op \<Rightarrow> 's \<Rightarrow> int" and inv :: "'s \<Rightarrow> bool" and allowed :: "'op \<Rightarrow> 's \<Rightarrow> bool"
  assumes step_inv: "inv s \<Longrightarrow> allowed x s \<Longrightarrow> inv (step x s)"
    and step_cost: "inv s \<Longrightarrow> allowed x s \<Longrightarrow> cost x s + potential (step x s) \<le> potential s + budget x s"
    and potential_nonneg: "inv s \<Longrightarrow> 0 \<le> potential s"
begin

fun all_allowed :: "'op list \<Rightarrow> 's \<Rightarrow> bool" where
  "all_allowed [] s = True"
| "all_allowed (x # xs) s = (allowed x s \<and> all_allowed xs (step x s))"

fun total :: "('op \<Rightarrow> 's \<Rightarrow> int) \<Rightarrow> 'op list \<Rightarrow> 's \<Rightarrow> int" where
  "total f [] s = 0"
| "total f (x # xs) s = f x s + total f xs (step x s)"

lemma run_bounded: "inv s \<Longrightarrow> all_allowed xs s \<Longrightarrow> total cost xs s \<le> potential s + total budget xs s"
proof (induction xs arbitrary: s)
  case Nil
  then show ?case using potential_nonneg by simp
next
  case (Cons x xs)
  then have "total cost xs (step x s) \<le> potential (step x s) + total budget xs (step x s)" using step_inv by simp
  then show ?case using step_cost [of s x] Cons.prems by simp
qed

end

section \<open>The limiter\<close>

text \<open>Telemetry is what goes to the two attribute topics.\<close>

definition is_telemetry :: "mqtt_effect \<Rightarrow> bool" where
  "is_telemetry e \<longleftrightarrow> (case e of EspPublish topic _ _ _ \<Rightarrow> topic = TOPIC_ATTR \<or> topic = TOPIC_GATEWAY_ATTR | _ \<Rightarrow> False)"

definition telemetry_of :: "cloud_state \<Rightarrow> mqtt_effect list" where
  "telemetry_of s = filter is_telemetry (mq_effects (cl_mqtt s))"

definition telemetry_count :: "cloud_state \<Rightarrow> int" where
  "telemetry_count s = int (length (telemetry_of s))"

text \<open>What the limiter can still grant at a time, in milliseconds of waiting.\<close>

definition credit :: "ms \<Rightarrow> cloud_state \<Rightarrow> int" where
  "credit now s =
     min (2 * TC_RATE_REFILL_MS - 1)
       (cl_tokens s * TC_RATE_REFILL_MS + (if cl_rate_last_ms s = 0 then 0 else now - cl_rate_last_ms s))"

definition limiter_ok :: "ms \<Rightarrow> cloud_state \<Rightarrow> bool" where
  "limiter_ok now s \<longleftrightarrow> 0 \<le> cl_tokens s \<and> cl_tokens s \<le> TC_RATE_BUCKET_TOKENS \<and> cl_rate_last_ms s \<le> now \<and> 0 \<le> now"

lemma credit_nonneg: "limiter_ok now s \<Longrightarrow> 0 \<le> credit now s"
  by (auto simp: credit_def limiter_ok_def)

lemma credit_later: "limiter_ok now s \<Longrightarrow> now \<le> t \<Longrightarrow> credit t s \<le> credit now s + (t - now)"
  by (auto simp: credit_def limiter_ok_def)

lemma limiter_later: "limiter_ok now s \<Longrightarrow> now \<le> t \<Longrightarrow> limiter_ok t s"
  by (simp add: limiter_ok_def)

lemma credit_cong:
  "cl_tokens s = cl_tokens t \<Longrightarrow> cl_rate_last_ms s = cl_rate_last_ms t \<Longrightarrow> credit now s = credit now t"
  "cl_tokens s = cl_tokens t \<Longrightarrow> cl_rate_last_ms s = cl_rate_last_ms t \<Longrightarrow> limiter_ok now s = limiter_ok now t"
  by (simp_all add: credit_def limiter_ok_def)

text \<open>After a refill less than one period is left over.\<close>

lemma refilled:
  assumes "limiter_ok now s"
  shows "limiter_ok now (tc_rate_refill now s)" "credit now (tc_rate_refill now s) \<le> credit now s"
    "now - cl_rate_last_ms (tc_rate_refill now s) < TC_RATE_REFILL_MS \<or> cl_rate_last_ms (tc_rate_refill now s) = 0"
    "cl_mqtt (tc_rate_refill now s) = cl_mqtt s"
proof -
  let ?t = "tc_rate_refill now s" and ?e = "now - cl_rate_last_ms s"
  define a where "a = ?e div TC_RATE_REFILL_MS"
  have e: "?e = a * TC_RATE_REFILL_MS + ?e mod TC_RATE_REFILL_MS" "0 \<le> ?e mod TC_RATE_REFILL_MS"
    "?e mod TC_RATE_REFILL_MS < TC_RATE_REFILL_MS" by (simp_all add: a_def)
  have a: "1 \<le> a" if "\<not> ?e < TC_RATE_REFILL_MS" using that e by linarith
  have t: "?t = (if cl_rate_last_ms s = 0 then s\<lparr>cl_rate_last_ms := now\<rparr>
     else if ?e < TC_RATE_REFILL_MS then s
     else s\<lparr>cl_tokens := min (cl_tokens s + a) 1, cl_rate_last_ms := cl_rate_last_ms s + a * TC_RATE_REFILL_MS\<rparr>)"
    by (simp add: tc_rate_refill_def Let_def a_def)
  have "limiter_ok now ?t \<and> credit now ?t \<le> credit now s"
  proof (cases "cl_rate_last_ms s = 0 \<or> ?e < TC_RATE_REFILL_MS")
    case True
    then show ?thesis using assms by (auto simp: t limiter_ok_def credit_def)
  next
    case False
    have l: "cl_rate_last_ms s + a * TC_RATE_REFILL_MS \<le> now" using e by linarith
    have f: "cl_tokens ?t = min (cl_tokens s + a) 1" "cl_rate_last_ms ?t = cl_rate_last_ms s + a * TC_RATE_REFILL_MS"
      using False by (simp_all add: t)
    have "min (cl_tokens s + a) 1 * TC_RATE_REFILL_MS \<le> cl_tokens s * TC_RATE_REFILL_MS + a * TC_RATE_REFILL_MS"
      by (simp add: min_def)
    then have c: "cl_tokens ?t * TC_RATE_REFILL_MS + (now - cl_rate_last_ms ?t) \<le> cl_tokens s * TC_RATE_REFILL_MS + ?e"
      "cl_tokens ?t * TC_RATE_REFILL_MS \<le> cl_tokens s * TC_RATE_REFILL_MS + ?e"
      using l by (simp_all add: f)
    moreover have "limiter_ok now ?t" using False a assms l by (simp add: t limiter_ok_def)
    ultimately show ?thesis using False by (auto simp: credit_def)
  qed
  then show "limiter_ok now ?t" "credit now ?t \<le> credit now s" by simp_all
  show last: "now - cl_rate_last_ms ?t < TC_RATE_REFILL_MS \<or> cl_rate_last_ms ?t = 0" using e by (auto simp: t)
  show "cl_mqtt ?t = cl_mqtt s" by (simp add: t)
qed

lemma credit_step: "x \<le> 1 \<Longrightarrow> c' + TC_RATE_REFILL_MS = d \<Longrightarrow> d \<le> c \<Longrightarrow> TC_RATE_REFILL_MS * x + c' \<le> c"
  by linarith

text \<open>A message costs one period of credit; nothing else of the adapter adds to it.\<close>

definition paced :: "ms \<Rightarrow> cloud_state \<Rightarrow> cloud_state \<Rightarrow> bool" where
  "paced now s t \<longleftrightarrow> (limiter_ok now s \<longrightarrow> limiter_ok now t \<and>
     TC_RATE_REFILL_MS * (telemetry_count t - telemetry_count s) + credit now t \<le> credit now s)"

lemma paced_refl [simp, intro]: "paced now s s"
  by (simp add: paced_def)

lemma paced_trans: "paced now s t \<Longrightarrow> paced now t u \<Longrightarrow> paced now s u"
  by (auto simp: paced_def algebra_simps)

lemma paced_frame:
  "cl_tokens s = cl_tokens t \<Longrightarrow> cl_rate_last_ms s = cl_rate_last_ms t \<Longrightarrow> telemetry_of s = telemetry_of t \<Longrightarrow> paced now s t"
  using credit_cong [of s t now] by (simp add: paced_def telemetry_count_def)

lemma publish_effects:
  "mq_effects (fst (mqtt_publish env (Some topic) (Some payload) q m)) =
     (if \<not> mq_initialized m \<or> \<not> mq_client m then mq_effects m
      else mq_effects m @ [EspPublish topic payload q (q_retain (rc_mqtt (me_config env)))])"
  by (simp add: mqtt_publish_def emit_def Let_def)

lemma telemetry_paced_step: "paced (cloud_now env) s (fst (tc_publish_telemetry env topic payload s))"
proof -
  let ?now = "cloud_now env" and ?r = "tc_rate_refill (cloud_now env) s"
  show ?thesis unfolding paced_def
  proof (intro impI)
    assume ok: "limiter_ok ?now s"
    note r = refilled [OF ok]
    show "limiter_ok ?now (fst (tc_publish_telemetry env topic payload s)) \<and>
      TC_RATE_REFILL_MS * (telemetry_count (fst (tc_publish_telemetry env topic payload s)) - telemetry_count s) +
        credit ?now (fst (tc_publish_telemetry env topic payload s)) \<le> credit ?now s"
    proof (cases "cl_suspended s \<or> ?now < cl_block_until_ms s")
      case True
      then show ?thesis using ok
        by (simp add: tc_publish_telemetry_def tc_rate_allow_def limiter_ok_def credit_def telemetry_count_def telemetry_of_def)
    next
      case False
      show ?thesis
      proof (cases "cl_tokens ?r > 0")
        case no: False
        then have t: "tc_publish_telemetry env topic payload s = (?r\<lparr>cl_throttled := cl_throttled ?r + 1\<rparr>, ESP_ERR_NO_MEM)"
          using False by (simp add: tc_publish_telemetry_def tc_rate_allow_def Let_def)
        let ?t = "?r\<lparr>cl_throttled := cl_throttled ?r + 1\<rparr>"
        have "credit ?now ?t = credit ?now ?r" "limiter_ok ?now ?t = limiter_ok ?now ?r" by (rule credit_cong; simp)+
        then show ?thesis using r(1,2,4) by (simp add: t telemetry_count_def telemetry_of_def)
      next
        case yes: True
        then have one: "cl_tokens ?r = 1" using r(1) by (simp add: limiter_ok_def)
        let ?s = "?r\<lparr>cl_tokens := 0\<rparr>"
        let ?p = "mqtt_publish (ce_mqtt env) (Some topic) (Some payload) 0 (cl_mqtt ?r)"
        have t: "cl_tokens (fst (tc_publish_telemetry env topic payload s)) = 0"
          "cl_rate_last_ms (fst (tc_publish_telemetry env topic payload s)) = cl_rate_last_ms ?r"
          "cl_mqtt (fst (tc_publish_telemetry env topic payload s)) = fst ?p"
          using False yes one by (simp_all add: tc_publish_telemetry_def tc_rate_allow_def Let_def split_beta)
        have "telemetry_count (fst (tc_publish_telemetry env topic payload s)) - telemetry_count s \<le> 1"
          by (simp add: telemetry_count_def telemetry_of_def t publish_effects r(4))
        moreover have "credit ?now (fst (tc_publish_telemetry env topic payload s)) + TC_RATE_REFILL_MS = credit ?now ?r"
          using r(1,3) one by (auto simp: credit_def t limiter_ok_def)
        moreover have "limiter_ok ?now (fst (tc_publish_telemetry env topic payload s))"
          using r(1) t by (simp add: limiter_ok_def)
        ultimately show ?thesis using r(2) credit_step by blast
      qed
    qed
  qed
qed

lemma quiet_publish:
  assumes "topic \<noteq> TOPIC_ATTR" "topic \<noteq> TOPIC_GATEWAY_ATTR"
  shows "telemetry_of (s\<lparr>cl_mqtt := fst (mqtt_publish env (Some topic) (Some payload) q (cl_mqtt s))\<rparr>) = telemetry_of s"
  using assms by (simp add: telemetry_of_def publish_effects is_telemetry_def)

lemma control_topics: "TOPIC_GATEWAY_CONNECT \<notin> {TOPIC_ATTR, TOPIC_GATEWAY_ATTR}"
  "TOPIC_GATEWAY_DISCONNECT \<notin> {TOPIC_ATTR, TOPIC_GATEWAY_ATTR}"
  by (simp_all add: TOPIC_GATEWAY_CONNECT_def TOPIC_GATEWAY_DISCONNECT_def TOPIC_ATTR_def TOPIC_GATEWAY_ATTR_def)

lemma telemetry_fields [simp]:
  "telemetry_of (s\<lparr>cl_agg := a\<rparr>) = telemetry_of s" "telemetry_of (s\<lparr>cl_gw := a\<rparr>) = telemetry_of s"
  "telemetry_of (s\<lparr>cl_devs := d\<rparr>) = telemetry_of s" "telemetry_of (s\<lparr>cl_dropped := n\<rparr>) = telemetry_of s"
  "telemetry_of (s\<lparr>cl_agg_ready := b\<rparr>) = telemetry_of s" "telemetry_of (s\<lparr>cl_gw_ready := b\<rparr>) = telemetry_of s"
  by (simp_all add: telemetry_of_def)

section \<open>Steps\<close>

text \<open>
  The operations of the adapter; \<open>Elsewhere\<close> is whatever other tasks do to the MQTT client and the durable
  store in between, except sending telemetry.
\<close>

datatype cloud_op =
    Ingest tcm_context | Flush | Replay_one tcm_context | Send_gateway_status | Send_slave_status
  | Slave_answered string | Slave_missed string | Republish | Report_online string | Report_offline string
  | Response bool int | Clear_guard | Session_connected | Elsewhere mqtt_state uif_state

definition cloud_step :: "cloud_env \<Rightarrow> cloud_op \<Rightarrow> cloud_state \<Rightarrow> cloud_state" where
  "cloud_step env x s =
     (case x of
        Ingest c \<Rightarrow> fst (thingscloud_publish_context env c s)
      | Flush \<Rightarrow> thingscloud_flush env s
      | Replay_one c \<Rightarrow> fst (thingscloud_replay_context env c s)
      | Send_gateway_status \<Rightarrow> fst (thingscloud_publish_gateway_status env s)
      | Send_slave_status \<Rightarrow> fst (thingscloud_publish_gateway_slave_status env s)
      | Slave_answered a \<Rightarrow> thingscloud_subdev_register_success env a s
      | Slave_missed a \<Rightarrow> thingscloud_subdev_register_failure env a s
      | Republish \<Rightarrow> thingscloud_subdev_republish_all_online env s
      | Report_online a \<Rightarrow> fst (thingscloud_report_subdevice_online env a s)
      | Report_offline a \<Rightarrow> fst (thingscloud_report_subdevice_offline env a s)
      | Response ok code \<Rightarrow> thingscloud_record_publish_response env ok code s
      | Clear_guard \<Rightarrow> thingscloud_clear_publish_guard env s
      | Session_connected \<Rightarrow> thingscloud_on_mqtt_connected env s
      | Elsewhere m u \<Rightarrow> s\<lparr>cl_mqtt := m, cl_uif := u\<rparr>)"

definition cloud_run :: "(cloud_env \<times> cloud_op) list \<Rightarrow> cloud_state \<Rightarrow> cloud_state" where
  "cloud_run = fold (\<lambda>(env, x). cloud_step env x)"

definition refills :: "cloud_op \<Rightarrow> bool" where
  "refills x \<longleftrightarrow> x = Clear_guard \<or> x = Session_connected"

section \<open>Relations that every operation respects\<close>

text \<open>
  A relation between the states before and after that ignores everything but the limiter and the telemetry is
  respected by every operation of the adapter as soon as the message itself and the answer of the cloud respect it.
\<close>

locale cloud_relation =
  fixes rel :: "ms \<Rightarrow> cloud_state \<Rightarrow> cloud_state \<Rightarrow> bool"
  assumes rel_frame: "cl_tokens s = cl_tokens t \<Longrightarrow> cl_rate_last_ms s = cl_rate_last_ms t \<Longrightarrow>
      cl_suspended s = cl_suspended t \<Longrightarrow> cl_uif s = cl_uif t \<Longrightarrow> telemetry_of s = telemetry_of t \<Longrightarrow> rel now s t"
    and rel_trans: "rel now s t \<Longrightarrow> rel now t u \<Longrightarrow> rel now s u"
    and rel_telemetry: "rel (cloud_now env) s (fst (tc_publish_telemetry env topic payload s))"
    and rel_response: "rel (cloud_now env) s (thingscloud_record_publish_response env ok code s)"
begin

lemma rel_refl [simp, intro]: "rel now s s"
  by (rule rel_frame) simp_all

lemma rel_fields [simp, intro]:
  "rel now s (s\<lparr>cl_agg := a\<rparr>)" "rel now s (s\<lparr>cl_gw := a\<rparr>)" "rel now s (s\<lparr>cl_devs := d\<rparr>)"
  "rel now s (s\<lparr>cl_dropped := n\<rparr>)" "rel now s (check_mode_change mode s)"
  by (rule rel_frame; simp add: check_mode_change_def telemetry_of_def)+

lemma publish_json_rel: "rel (cloud_now env) s (fst (publish_json_object env root topic s))"
  by (simp add: publish_json_object_def rel_telemetry split: option.splits)

lemma sub_packets_rel: "rel (cloud_now env) s (fst (sub_packets env i ps root n s))"
proof (induction ps arbitrary: i root n s)
  case Nil
  then show ?case by (simp add: publish_json_rel)
next
  case (Cons p ps)
  have next_pack: "rel (cloud_now env) s (fst (sub_packets env j ps root' k (fst (publish_json_object env r topic s))))" for j root' k r topic
    using rel_trans [OF publish_json_rel Cons.IH] .
  show ?case using publish_json_rel next_pack Cons.IH
    by (simp add: split_beta Let_def split: option.splits)
qed

lemma gw_send_rel: "rel (cloud_now env) s (fst (gw_send env root n err s))"
  by (simp add: gw_send_def rel_telemetry split_beta Let_def split: option.splits)

lemma gw_packets_rel: "rel (cloud_now env) s (fst (gw_packets env i ps root n err s))"
proof (induction ps arbitrary: i root n err s)
  case Nil
  then show ?case by (simp add: gw_send_rel)
next
  case (Cons p ps)
  have next_pack: "rel (cloud_now env) s (fst (gw_packets env j ps root' k e (fst (gw_send env root'' n' e' s))))" for j root' k e root'' n' e'
    using rel_trans [OF gw_send_rel Cons.IH] .
  show ?case using next_pack Cons.IH gw_send_rel
    by (simp add: split_beta Let_def split: option.splits)
qed

lemma publish_attributes_rel:
  "rel (cloud_now env) s (fst (publish_subdevice_aggregated env ps s))"
  "rel (cloud_now env) s (fst (thingscloud_publish_subdevice_attributes env ps s))"
  "rel (cloud_now env) s (fst (thingscloud_publish_gateway_attributes env ps s))"
  by (simp_all add: publish_subdevice_aggregated_def thingscloud_publish_subdevice_attributes_def
      thingscloud_publish_gateway_attributes_def publish_gw_attr_chunked_def sub_packets_rel gw_packets_rel)

lemma publish_status_rel:
  "rel (cloud_now env) s (fst (thingscloud_publish_gateway_status env s))"
  "rel (cloud_now env) s (fst (thingscloud_publish_gateway_slave_status env s))"
  by (simp_all add: thingscloud_publish_gateway_status_def thingscloud_publish_gateway_slave_status_def publish_status_def
      rel_telemetry Let_def split: option.splits)

lemma report_device_rel:
  assumes "topic \<notin> {TOPIC_ATTR, TOPIC_GATEWAY_ATTR}"
  shows "rel now s (fst (report_device topic env address s))"
  using assms quiet_publish [where topic = topic and s = s]
  by (intro rel_frame) (simp_all add: report_device_def split_beta Let_def split: option.splits)

lemma publish_state_rel: "rel now s (subdev_publish_state env d online s)"
  using quiet_publish [where topic = TOPIC_GATEWAY_CONNECT and s = s] quiet_publish [where topic = TOPIC_GATEWAY_DISCONNECT and s = s]
    control_topics
  by (intro rel_frame) (simp_all add: subdev_publish_state_def split: option.splits)

lemma register_rel:
  "rel (cloud_now env) s (thingscloud_subdev_register_success env a s)"
  "rel (cloud_now env) s (thingscloud_subdev_register_failure env a s)"
proof -
  have t: "rel (cloud_now env) s (subdev_report_transition env d b (s\<lparr>cl_devs := t\<rparr>))" for d b t
    by (rule rel_trans [of _ _ "s\<lparr>cl_devs := t\<rparr>"])
      (simp_all add: subdev_report_transition_def publish_state_rel publish_status_rel)
  show "rel (cloud_now env) s (thingscloud_subdev_register_success env a s)"
    "rel (cloud_now env) s (thingscloud_subdev_register_failure env a s)"
    using t by (simp_all add: thingscloud_subdev_register_success_def thingscloud_subdev_register_failure_def
        split_beta Let_def split: option.splits)
qed

lemma republish_rel: "rel (cloud_now env) s (thingscloud_subdev_republish_all_online env s)"
proof -
  have "rel (cloud_now env) s (fold (\<lambda>d s. if sv_state d = SUBDEV_ONLINE \<and> sv_address d \<noteq> [] then subdev_publish_state env d True s else s) ds s)"
    for ds
    by (induction ds arbitrary: s) (auto intro: rel_trans publish_state_rel)
  then show ?thesis by (simp add: thingscloud_subdev_republish_all_online_def split: option.splits)
qed

lemma flush_rel: "rel (cloud_now env) s (thingscloud_flush env s)"
proof -
  define t where "t = check_mode_change (q_report_mode (cloud_config env)) s"
  define g where "g = fst (thingscloud_publish_gateway_attributes env (cl_gw t) t)"
  define a where "a = fst (publish_subdevice_aggregated env (cl_agg t) t)"
  have t: "rel (cloud_now env) s t" by (simp add: t_def)
  have ga: "rel (cloud_now env) s g" "rel (cloud_now env) s a"
    using rel_trans [OF t] publish_attributes_rel by (simp_all add: g_def a_def)
  have "thingscloud_flush env s \<in> {s, t, g, g\<lparr>cl_gw := []\<rparr>, a, a\<lparr>cl_agg := []\<rparr>}"
    unfolding thingscloud_flush_def split_beta Let_def t_def [symmetric] g_def [symmetric] a_def [symmetric] by simp
  then show ?thesis using t ga rel_trans [OF ga(1) rel_fields(2)] rel_trans [OF ga(2) rel_fields(1)] by auto
qed

lemma add_context_rel: "rel now s (add_context_to_agg env c s)" "rel now s (add_context_to_gw_agg env c s)"
  by (rule rel_frame; simp add: add_context_to_agg_def add_context_to_gw_agg_def agg_ensure_buffer_def
      agg_ensure_gw_buffer_def telemetry_of_def Let_def split: sum.splits)+

lemma publish_context_rel: "rel (cloud_now env) s (fst (thingscloud_publish_context env c s))"
proof -
  define mode where "mode = q_report_mode (cloud_config env)"
  define t where "t = check_mode_change mode (if buffer_full mode (check_mode_change mode s)
     then thingscloud_flush env (check_mode_change mode s) else check_mode_change mode s)"
  define u where "u = (if mode = MQ_REPORT_GATEWAY then add_context_to_gw_agg env c t else add_context_to_agg env c t)"
  have t: "rel (cloud_now env) s t"
    unfolding t_def using rel_trans [OF rel_fields(5) rel_trans [OF flush_rel rel_fields(5)]]
      rel_trans [OF rel_fields(5) rel_fields(5)] by simp
  have u: "rel (cloud_now env) s u" using rel_trans [OF t add_context_rel(1)] rel_trans [OF t add_context_rel(2)] by (simp add: u_def)
  have "fst (thingscloud_publish_context env c s) \<in> {s, t\<lparr>cl_dropped := cl_dropped t + 1\<rparr>, u, thingscloud_flush env u}"
    unfolding thingscloud_publish_context_def Let_def mode_def [symmetric] t_def [symmetric] u_def [symmetric] by simp
  then show ?thesis using t u rel_trans [OF t rel_fields(4)] rel_trans [OF u flush_rel] by auto
qed

lemma replay_context_rel: "rel (cloud_now env) s (fst (thingscloud_replay_context env c s))"
  by (simp add: thingscloud_replay_context_def publish_attributes_rel split_beta Let_def split: sum.splits)

lemma step_rel:
  assumes "\<not> refills x" "case x of Elsewhere m u \<Rightarrow> rel (cloud_now env) s (s\<lparr>cl_mqtt := m, cl_uif := u\<rparr>) | _ \<Rightarrow> True"
  shows "rel (cloud_now env) s (cloud_step env x s)"
  using assms control_topics
  by (cases x) (simp_all add: cloud_step_def refills_def publish_context_rel flush_rel replay_context_rel
      publish_status_rel register_rel republish_rel rel_response report_device_rel
      thingscloud_report_subdevice_online_def thingscloud_report_subdevice_offline_def)

end

section \<open>The rate of the telemetry\<close>

lemma response_paced: "paced (cloud_now env) s (thingscloud_record_publish_response env ok code s)"
proof -
  let ?t = "thingscloud_record_publish_response env ok code s"
  have "telemetry_of ?t = telemetry_of s" "cl_rate_last_ms ?t = cl_rate_last_ms s" "cl_tokens ?t = cl_tokens s \<or> cl_tokens ?t = 0"
    by (simp_all add: thingscloud_record_publish_response_def telemetry_of_def Let_def)
  then show ?thesis by (auto simp: paced_def limiter_ok_def credit_def telemetry_count_def)
qed

interpretation paced: cloud_relation paced
  by unfold_locales (auto intro: paced_frame paced_trans telemetry_paced_step response_paced)

text \<open>Time does not run backwards, and nobody else sends telemetry.\<close>

fun timely :: "(cloud_env \<times> cloud_op) list \<Rightarrow> ms \<Rightarrow> cloud_state \<Rightarrow> bool" where
  "timely [] now s = True"
| "timely ((env, x) # xs) now s =
     (now \<le> cloud_now env \<and>
      (case x of Elsewhere m u \<Rightarrow> filter is_telemetry (mq_effects m) = telemetry_of s | _ \<Rightarrow> True) \<and>
      timely xs (cloud_now env) (cloud_step env x s))"

lemma step_paced:
  assumes "limiter_ok (cloud_now env) s" "case x of Elsewhere m u \<Rightarrow> filter is_telemetry (mq_effects m) = telemetry_of s | _ \<Rightarrow> True"
  shows "limiter_ok (cloud_now env) (cloud_step env x s) \<and>
    TC_RATE_REFILL_MS * (telemetry_count (cloud_step env x s) - telemetry_count s) + credit (cloud_now env) (cloud_step env x s)
      \<le> credit (cloud_now env) s + (if refills x then TC_RATE_REFILL_MS else 0)"
proof (cases "refills x")
  case False
  moreover have "paced (cloud_now env) s (s\<lparr>cl_mqtt := m, cl_uif := u\<rparr>)" if "filter is_telemetry (mq_effects m) = telemetry_of s" for m u
    using that by (intro paced_frame) (simp_all add: telemetry_of_def)
  ultimately have "paced (cloud_now env) s (cloud_step env x s)"
    using assms(2) by (intro paced.step_rel) (simp_all split: cloud_op.splits)
  then show ?thesis using assms(1) False by (simp add: paced_def)
next
  case True
  have u: "telemetry_count (s\<lparr>cl_last_response := a, cl_suspended := b, cl_block_until_ms := d, cl_tokens := t, cl_rate_last_ms := l\<rparr>) =
      telemetry_count s" "telemetry_count ((check_mode_change mode s)\<lparr>cl_tokens := t, cl_rate_last_ms := l\<rparr>) = telemetry_count s"
    for a b d t l mode
    by (simp_all add: telemetry_count_def telemetry_of_def check_mode_change_def)
  have c: "credit (cloud_now env) t \<le> TC_RATE_REFILL_MS \<and> limiter_ok (cloud_now env) t"
    if "cl_tokens t = 1" "cl_rate_last_ms t = cloud_now env" for t
    using that assms(1) by (simp add: credit_def limiter_ok_def)
  have n: "0 \<le> credit (cloud_now env) s" by (rule credit_nonneg [OF assms(1)])
  have "cloud_step env x s = s \<or> (telemetry_count (cloud_step env x s) = telemetry_count s \<and>
      cl_tokens (cloud_step env x s) = 1 \<and> cl_rate_last_ms (cloud_step env x s) = cloud_now env)"
    using True u by (auto simp: refills_def cloud_step_def thingscloud_clear_publish_guard_def thingscloud_on_mqtt_connected_def)
  then show ?thesis
  proof
    assume "cloud_step env x s = s"
    then show ?thesis using assms(1) True by simp
  next
    assume "telemetry_count (cloud_step env x s) = telemetry_count s \<and>
      cl_tokens (cloud_step env x s) = 1 \<and> cl_rate_last_ms (cloud_step env x s) = cloud_now env"
    then show ?thesis using c [of "cloud_step env x s"] n True by simp
  qed
qed

interpretation cloud: metered_run
  "\<lambda>(env, x) (now, s). (cloud_now env, cloud_step env x s)"
  "\<lambda>(env, x) (now, s). TC_RATE_REFILL_MS * (telemetry_count (cloud_step env x s) - telemetry_count s)"
  "\<lambda>(now, s). credit now s"
  "\<lambda>(env, x) (now, s). cloud_now env - now + (if refills x then TC_RATE_REFILL_MS else 0)"
  "\<lambda>(now, s). limiter_ok now s"
  "\<lambda>(env, x) (now, s). now \<le> cloud_now env \<and>
     (case x of Elsewhere m u \<Rightarrow> filter is_telemetry (mq_effects m) = telemetry_of s | _ \<Rightarrow> True)"
proof (unfold_locales, goal_cases)
  case (1 s x)
  then show ?case using step_paced [of "fst x" "snd s" "snd x"] limiter_later [of "fst s" "snd s" "cloud_now (fst x)"]
    by (simp add: split_beta)
next
  case (2 s x)
  then show ?case
    using step_paced [of "fst x" "snd s" "snd x"] limiter_later [of "fst s" "snd s" "cloud_now (fst x)"]
      credit_later [of "fst s" "snd s" "cloud_now (fst x)"]
    by (simp add: split_beta)
next
  case (3 s)
  then show ?case using credit_nonneg by (simp add: split_beta)
qed

definition end_time :: "(cloud_env \<times> cloud_op) list \<Rightarrow> ms \<Rightarrow> ms" where
  "end_time xs t0 = (if xs = [] then t0 else cloud_now (fst (last xs)))"

lemma timely_allowed: "timely xs now s \<longleftrightarrow> cloud.all_allowed xs (now, s)"
  by (induction xs now s rule: timely.induct) auto

lemma total_sent:
  "cloud.total (\<lambda>(env, x) (now, s). TC_RATE_REFILL_MS * (telemetry_count (cloud_step env x s) - telemetry_count s)) xs (now, s) =
   TC_RATE_REFILL_MS * (telemetry_count (cloud_run xs s) - telemetry_count s)"
  by (induction xs arbitrary: now s) (auto simp: cloud_run_def algebra_simps)

lemma total_budget:
  "cloud.total (\<lambda>(env, x) (now, s). cloud_now env - now + (if refills x then TC_RATE_REFILL_MS else 0)) xs (now, s) =
   end_time xs now - now + TC_RATE_REFILL_MS * int (length (filter (refills \<circ> snd) xs))"
  by (induction xs arbitrary: now s) (auto simp: end_time_def)

section \<open>After a rejection for size\<close>

definition held :: "cloud_state \<Rightarrow> cloud_state \<Rightarrow> bool" where
  "held s t \<longleftrightarrow> (cl_suspended s \<longrightarrow> cl_suspended t \<and> telemetry_of t = telemetry_of s)"

interpretation held: cloud_relation "\<lambda>_. held"
proof unfold_locales
  show "held s (fst (tc_publish_telemetry env topic payload s))" for env topic payload s
    by (simp add: held_def tc_publish_telemetry_def tc_rate_allow_def telemetry_of_def)
  show "held s (thingscloud_record_publish_response env ok code s)" for env ok code s
    by (simp add: held_def thingscloud_record_publish_response_def telemetry_of_def Let_def)
qed (auto simp: held_def)

lemma step_held:
  assumes "x \<noteq> Clear_guard" "case x of Elsewhere m u \<Rightarrow> filter is_telemetry (mq_effects m) = telemetry_of s | _ \<Rightarrow> True"
  shows "held s (cloud_step env x s)"
proof (cases "refills x")
  case True
  then have "x = Session_connected" using assms(1) by (simp add: refills_def)
  then show ?thesis
    by (simp add: held_def cloud_step_def thingscloud_on_mqtt_connected_def check_mode_change_def telemetry_of_def)
next
  case False
  have "held s (s\<lparr>cl_mqtt := m, cl_uif := u\<rparr>)" if "filter is_telemetry (mq_effects m) = telemetry_of s" for m u
    using that by (simp add: held_def telemetry_of_def)
  then show ?thesis using False assms(2) by (intro held.step_rel) (simp_all split: cloud_op.splits)
qed

text \<open>Nobody else sends telemetry.\<close>

fun others_quiet :: "(cloud_env \<times> cloud_op) list \<Rightarrow> cloud_state \<Rightarrow> bool" where
  "others_quiet [] s = True"
| "others_quiet ((env, x) # xs) s =
     ((case x of Elsewhere m u \<Rightarrow> filter is_telemetry (mq_effects m) = telemetry_of s | _ \<Rightarrow> True) \<and>
      others_quiet xs (cloud_step env x s))"

lemma run_held: "Clear_guard \<notin> snd ` set xs \<Longrightarrow> others_quiet xs s \<Longrightarrow> held s (cloud_run xs s)"
proof (induction xs arbitrary: s)
  case Nil
  then show ?case by (simp add: held_def cloud_run_def)
next
  case (Cons x xs)
  obtain env y where x: "x = (env, y)" by (cases x)
  have "held s (cloud_step env y s)" using Cons.prems x by (intro step_held) auto
  moreover have "held (cloud_step env y s) (cloud_run xs (cloud_step env y s))" using Cons x by simp
  ultimately show ?case by (auto simp: held_def cloud_run_def x)
qed

section \<open>The durable layer\<close>

text \<open>The adapter looks at the durable store but does not change it.\<close>

definition keeps_uif :: "cloud_state \<Rightarrow> cloud_state \<Rightarrow> bool" where
  "keeps_uif s t \<longleftrightarrow> cl_uif t = cl_uif s"

interpretation durable: cloud_relation "\<lambda>_. keeps_uif"
proof unfold_locales
  show "keeps_uif s (fst (tc_publish_telemetry env topic payload s))" for env topic payload s
    by (simp add: keeps_uif_def tc_publish_telemetry_def tc_rate_allow_def tc_rate_refill_def split_beta Let_def)
  show "keeps_uif s (thingscloud_record_publish_response env ok code s)" for env ok code s
    by (simp add: keeps_uif_def thingscloud_record_publish_response_def Let_def)
qed (simp_all add: keeps_uif_def)

section \<open>The packets of a batch\<close>

text \<open>The packets the gateway's own attributes are split into, when every text can be printed.\<close>

fun gw_parts :: "(json \<Rightarrow> string) \<Rightarrow> cloud_property list \<Rightarrow> (string \<times> json) list \<Rightarrow> nat \<Rightarrow> (string \<times> json) list list" where
  "gw_parts pr [] root n = (if n = 0 then [] else [root])"
| "gw_parts pr (p # ps) root n =
     (if cp_key p = [] then gw_parts pr ps root n
      else if length (pr (JObj (add_property_to_object root p))) > THINGSCLOUD_MAX_PAYLOAD_BYTES \<and> n > 0
      then delete_item (cp_key p) (add_property_to_object root p) # gw_parts pr ps (add_property_to_object [] p) 1
      else gw_parts pr ps (add_property_to_object root p) (Suc n))"

fun send_parts :: "cloud_env \<Rightarrow> (string \<times> json) list list \<Rightarrow> esp_err \<Rightarrow> cloud_state \<Rightarrow> cloud_state \<times> esp_err" where
  "send_parts env [] err s = (s, err)"
| "send_parts env (r # rs) err s = (let (s, err) = gw_send env r (Suc 0) err s in send_parts env rs err s)"

lemma gw_send_text:
  assumes "\<And>j. ce_print env j = Some (pr j)" "0 < n"
  shows "gw_send env root n err s =
    (fst (tc_publish_telemetry env TOPIC_ATTR (pr (JObj root)) s),
     if err = ESP_OK then snd (tc_publish_telemetry env TOPIC_ATTR (pr (JObj root)) s) else err)"
  using assms(2) by (simp add: gw_send_def assms(1) split_beta)

lemma gw_packets_parts:
  assumes "\<And>j. ce_print env j = Some (pr j)" "\<And>i. ce_object env i"
  shows "gw_packets env i ps root n err s = send_parts env (gw_parts pr ps root n) err s"
proof (induction ps arbitrary: i root n err s)
  case Nil
  then show ?case
    by (cases "n = 0") (simp_all add: gw_send_text [OF assms(1)] gw_send_def [of _ _ 0])
next
  case (Cons p ps)
  show ?case
  proof (cases "cp_key p = [] \<or> \<not> (length (pr (JObj (add_property_to_object root p))) > THINGSCLOUD_MAX_PAYLOAD_BYTES \<and> n > 0)")
    case True
    then show ?thesis using Cons.IH assms by (auto simp: Let_def)
  next
    case False
    then show ?thesis using Cons.IH assms by (simp add: gw_send_text [OF assms(1)] Let_def)
  qed
qed

text \<open>After one message the limiter grants no second one at the same time.\<close>

definition exhausted :: "ms \<Rightarrow> cloud_state \<Rightarrow> bool" where
  "exhausted now s \<longleftrightarrow> cl_suspended s \<or> now < cl_block_until_ms s \<or>
     (cl_tokens s \<le> 0 \<and> (cl_rate_last_ms s = 0 \<or> now - cl_rate_last_ms s < TC_RATE_REFILL_MS))"

lemma publish_exhausts:
  assumes "cl_tokens s \<le> 1"
  shows "exhausted (cloud_now env) (fst (tc_publish_telemetry env topic text s))"
    "cl_tokens (fst (tc_publish_telemetry env topic text s)) \<le> 1"
proof -
  let ?r = "tc_rate_refill (cloud_now env) s" and ?e = "cloud_now env - cl_rate_last_ms s"
  let ?t = "fst (tc_publish_telemetry env topic text s)"
  have m: "?e - ?e div TC_RATE_REFILL_MS * TC_RATE_REFILL_MS < TC_RATE_REFILL_MS"
    by (simp add: minus_div_mult_eq_mod)
  have r: "cl_tokens ?r \<le> 1" "cl_rate_last_ms ?r = 0 \<or> cloud_now env - cl_rate_last_ms ?r < TC_RATE_REFILL_MS"
  proof -
    show "cl_tokens ?r \<le> 1" using assms by (simp add: tc_rate_refill_def Let_def)
    show "cl_rate_last_ms ?r = 0 \<or> cloud_now env - cl_rate_last_ms ?r < TC_RATE_REFILL_MS"
    proof (cases "cl_rate_last_ms s = 0 \<or> ?e < TC_RATE_REFILL_MS")
      case True
      then show ?thesis by (auto simp: tc_rate_refill_def Let_def)
    next
      case False
      then have "cl_rate_last_ms ?r = cl_rate_last_ms s + ?e div TC_RATE_REFILL_MS * TC_RATE_REFILL_MS"
        by (simp add: tc_rate_refill_def Let_def)
      then show ?thesis using m by linarith
    qed
  qed
  have "exhausted (cloud_now env) ?t \<and> cl_tokens ?t \<le> 1"
  proof (cases "cl_suspended s \<or> cloud_now env < cl_block_until_ms s")
    case True
    then have "?t = s\<lparr>cl_throttled := cl_throttled s + 1\<rparr>" by (simp add: tc_publish_telemetry_def tc_rate_allow_def)
    then show ?thesis using True assms by (auto simp: exhausted_def)
  next
    case False
    then have "cl_tokens ?t = (if cl_tokens ?r > 0 then cl_tokens ?r - 1 else cl_tokens ?r) \<and> cl_rate_last_ms ?t = cl_rate_last_ms ?r"
      by (simp add: tc_publish_telemetry_def tc_rate_allow_def Let_def split_beta)
    then show ?thesis using r by (auto simp: exhausted_def)
  qed
  then show "exhausted (cloud_now env) ?t" "cl_tokens ?t \<le> 1" by simp_all
qed

lemma exhausted_denied:
  assumes "exhausted (cloud_now env) s"
  shows "snd (tc_publish_telemetry env topic text s) = ESP_ERR_NO_MEM"
    "telemetry_of (fst (tc_publish_telemetry env topic text s)) = telemetry_of s"
    "exhausted (cloud_now env) (fst (tc_publish_telemetry env topic text s))"
    "cl_tokens (fst (tc_publish_telemetry env topic text s)) = cl_tokens s"
proof -
  define l where "l = cl_rate_last_ms (tc_rate_refill (cloud_now env) s)"
  have d: "\<exists>l. tc_publish_telemetry env topic text s = (s\<lparr>cl_rate_last_ms := l, cl_throttled := cl_throttled s + 1\<rparr>, ESP_ERR_NO_MEM) \<and>
      (l = cl_rate_last_ms s \<or> l = cloud_now env)"
  proof (cases "cl_suspended s \<or> cloud_now env < cl_block_until_ms s")
    case True
    then show ?thesis by (intro exI [of _ "cl_rate_last_ms s"]) (simp add: tc_publish_telemetry_def tc_rate_allow_def)
  next
    case False
    then have t: "cl_tokens s \<le> 0" "cl_rate_last_ms s = 0 \<or> cloud_now env - cl_rate_last_ms s < TC_RATE_REFILL_MS"
      using assms by (auto simp: exhausted_def)
    then have "tc_rate_refill (cloud_now env) s = s\<lparr>cl_rate_last_ms := l\<rparr>" "l = cl_rate_last_ms s \<or> l = cloud_now env"
      by (auto simp: l_def tc_rate_refill_def Let_def)
    then show ?thesis using False t(1)
      by (intro exI [of _ l]) (simp add: tc_publish_telemetry_def tc_rate_allow_def Let_def)
  qed
  then obtain l where l: "tc_publish_telemetry env topic text s =
      (s\<lparr>cl_rate_last_ms := l, cl_throttled := cl_throttled s + 1\<rparr>, ESP_ERR_NO_MEM)" "l = cl_rate_last_ms s \<or> l = cloud_now env"
    by blast
  show "snd (tc_publish_telemetry env topic text s) = ESP_ERR_NO_MEM"
    "telemetry_of (fst (tc_publish_telemetry env topic text s)) = telemetry_of s"
    "cl_tokens (fst (tc_publish_telemetry env topic text s)) = cl_tokens s"
    by (simp_all add: l(1) telemetry_of_def)
  show "exhausted (cloud_now env) (fst (tc_publish_telemetry env topic text s))"
    using assms l(2) by (auto simp: l(1) exhausted_def)
qed

lemma publish_frames:
  "cl_gw (fst (tc_publish_telemetry env topic text s)) = cl_gw s" "cl_last_mode (fst (tc_publish_telemetry env topic text s)) = cl_last_mode s"
  by (simp_all add: tc_publish_telemetry_def tc_rate_allow_def tc_rate_refill_def Let_def split_beta)

lemma send_parts_exhausted:
  assumes "\<And>j. ce_print env j = Some (pr j)" "exhausted (cloud_now env) s"
  shows "telemetry_of (fst (send_parts env rs err s)) = telemetry_of s \<and> cl_gw (fst (send_parts env rs err s)) = cl_gw s \<and>
    cl_last_mode (fst (send_parts env rs err s)) = cl_last_mode s \<and> cl_tokens (fst (send_parts env rs err s)) = cl_tokens s \<and>
    (rs \<noteq> [] \<or> err \<noteq> ESP_OK \<longrightarrow> snd (send_parts env rs err s) \<noteq> ESP_OK)"
  using assms(2)
proof (induction rs arbitrary: err s)
  case Nil
  then show ?case by simp
next
  case (Cons r rs)
  let ?u = "tc_publish_telemetry env TOPIC_ATTR (pr (JObj r)) s"
  have g: "gw_send env r (Suc 0) err s = (fst ?u, if err = ESP_OK then ESP_ERR_NO_MEM else err)"
    using exhausted_denied(1) [OF Cons.prems] by (simp add: gw_send_def assms(1) split_beta)
  show ?case using Cons.IH [OF exhausted_denied(3) [OF Cons.prems]] exhausted_denied(2,4) [OF Cons.prems] publish_frames
    by (auto simp: g)
qed

lemma telemetry_appended:
  "telemetry_of (fst (tc_publish_telemetry env TOPIC_ATTR text s)) \<in>
     {telemetry_of s, telemetry_of s @ [EspPublish TOPIC_ATTR text 0 (q_retain (cloud_config env))]}"
  by (auto simp: tc_publish_telemetry_def tc_rate_allow_def tc_rate_refill_def Let_def split_beta telemetry_of_def
      publish_effects is_telemetry_def cloud_config_def)

lemma send_large:
  fixes r r' :: "(string \<times> json) list" and rs :: "(string \<times> json) list list"
  assumes "\<And>j. ce_print env j = Some (pr j)" "cl_tokens s \<le> 1"
  defines "t \<equiv> fst (send_parts env (r # r' # rs) ESP_OK s)"
  shows "snd (send_parts env (r # r' # rs) ESP_OK s) \<noteq> ESP_OK" "cl_gw t = cl_gw s" "cl_last_mode t = cl_last_mode s" "cl_tokens t \<le> 1"
    "telemetry_of t \<in> {telemetry_of s, telemetry_of s @ [EspPublish TOPIC_ATTR (pr (JObj r)) 0 (q_retain (cloud_config env))]}"
proof -
  let ?u = "tc_publish_telemetry env TOPIC_ATTR (pr (JObj r)) s"
  have u: "exhausted (cloud_now env) (fst ?u)" "cl_tokens (fst ?u) \<le> 1" by (rule publish_exhausts [OF assms(2)])+
  have run: "send_parts env (r # r' # rs) ESP_OK s = send_parts env (r' # rs) (snd ?u) (fst ?u)"
    using gw_send_text [OF assms(1), of "Suc 0" r ESP_OK s] by (simp add: split_beta)
  note x = send_parts_exhausted [OF assms(1) u(1), of "r' # rs" "snd ?u"]
  show "snd (send_parts env (r # r' # rs) ESP_OK s) \<noteq> ESP_OK" unfolding run using x by blast
  show "cl_gw t = cl_gw s" "cl_last_mode t = cl_last_mode s" "cl_tokens t \<le> 1"
    "telemetry_of t \<in> {telemetry_of s, telemetry_of s @ [EspPublish TOPIC_ATTR (pr (JObj r)) 0 (q_retain (cloud_config env))]}"
    unfolding t_def run using x u(2) publish_frames [of env TOPIC_ATTR "pr (JObj r)" s] telemetry_appended [of env "pr (JObj r)" s]
    by simp_all
qed

text \<open>A configuration of the gateway mode, with a printer that prints everything.\<close>

definition gateway_env :: "(json \<Rightarrow> string) \<Rightarrow> cloud_env \<Rightarrow> bool" where
  "gateway_env pr env \<longleftrightarrow> thingscloud_is_enabled env \<and> q_report_mode (cloud_config env) = MQ_REPORT_GATEWAY \<and>
     ce_print env = (\<lambda>j. Some (pr j)) \<and> ce_object env = (\<lambda>_. True)"

lemma flush_large:
  assumes "gateway_env pr env" "cl_last_mode s = Some MQ_REPORT_GATEWAY" "cl_tokens s \<le> 1" "gw_parts pr (cl_gw s) [] 0 = r # r' # rs"
  shows "cl_gw (thingscloud_flush env s) = cl_gw s \<and> cl_last_mode (thingscloud_flush env s) = cl_last_mode s \<and>
    cl_tokens (thingscloud_flush env s) \<le> 1 \<and>
    telemetry_of (thingscloud_flush env s) \<in>
      {telemetry_of s, telemetry_of s @ [EspPublish TOPIC_ATTR (pr (JObj r)) 0 (q_retain (cloud_config env))]}"
proof -
  have pr: "\<And>j. ce_print env j = Some (pr j)" "\<And>i. ce_object env i" using assms(1) by (simp_all add: gateway_env_def)
  have mode: "check_mode_change MQ_REPORT_GATEWAY s = s" using assms(2) by (simp add: check_mode_change_def)
  let ?p = "send_parts env (r # r' # rs) ESP_OK s"
  have "thingscloud_flush env s = s \<or> thingscloud_flush env s = fst ?p"
  proof -
    have "thingscloud_publish_gateway_attributes env (cl_gw s) s = (s, ESP_ERR_INVALID_STATE) \<or>
        thingscloud_publish_gateway_attributes env (cl_gw s) s = (s, ESP_ERR_NO_MEM) \<or>
        thingscloud_publish_gateway_attributes env (cl_gw s) s = ?p"
      using gw_packets_parts [OF pr] assms(4)
      by (simp add: thingscloud_publish_gateway_attributes_def publish_gw_attr_chunked_def)
    then show ?thesis using assms(1) mode send_large(1) [OF pr(1) assms(3), of r r' rs]
      by (auto simp: thingscloud_flush_def gateway_env_def split_beta Let_def)
  qed
  then show ?thesis using send_large(2-) [OF pr(1) assms(3), of r r' rs] assms(3) by (elim disjE) simp_all
qed

section \<open>The values of a batch\<close>

text \<open>A buffer of the gateway mode as the map from keys to values that it stands for.\<close>

definition buffered :: "cloud_state \<Rightarrow> string \<rightharpoonup> cloud_value" where
  "buffered s = map_of (map (\<lambda>p. (cp_key p, cp_value p)) (cl_gw s))"

definition buffer_ok :: "cloud_state \<Rightarrow> bool" where
  "buffer_ok s \<longleftrightarrow> distinct (map cp_key (cl_gw s)) \<and> (\<forall>p \<in> set (cl_gw s). cp_key p \<noteq> []) \<and>
     cl_last_mode s = Some MQ_REPORT_GATEWAY"

definition sample_of :: "cloud_env \<times> tcm_context \<Rightarrow> (string \<times> cloud_value) option" where
  "sample_of x =
     (case (gateway_key (snd x), cloud_value_of (fst x) (snd x)) of (Inl k, Some v) \<Rightarrow> Some (k, v) | _ \<Rightarrow> None)"

definition good_sample :: "(json \<Rightarrow> string) \<Rightarrow> cloud_env \<times> tcm_context \<Rightarrow> bool" where
  "good_sample pr x \<longleftrightarrow> gateway_env pr (fst x) \<and> ce_lock (fst x) \<and> ce_alloc (fst x) \<and>
     c_quality_state (snd x) = QUALITY_GOOD \<and> c_point_id (snd x) \<noteq> [] \<and> sample_of x \<noteq> None"

definition latest_values :: "(cloud_env \<times> tcm_context) list \<Rightarrow> string \<rightharpoonup> cloud_value" where
  "latest_values xs = fold (\<lambda>x m. case sample_of x of Some (k, v) \<Rightarrow> m(k \<mapsto> v) | None \<Rightarrow> m) xs Map.empty"

definition ingest_all :: "(cloud_env \<times> tcm_context) list \<Rightarrow> cloud_state \<Rightarrow> cloud_state" where
  "ingest_all = fold (\<lambda>(env, c) s. fst (thingscloud_publish_context env c s))"

lemma gateway_key_size: "gateway_key c = Inl k \<Longrightarrow> length k < 64 \<and> k \<noteq> []"
  by (auto simp: gateway_key_def build_gateway_property_key_def strlcpy_def Let_def take_eq_Nil split: if_splits)

lemma map_of_update_nth:
  assumes "i < length xs" "distinct (map fst xs)" "fst (xs ! i) = k"
  shows "map_of (xs[i := (k, v)]) = (map_of xs)(k \<mapsto> v)"
  using assms
proof (induction xs arbitrary: i)
  case (Cons x xs)
  then show ?case
  proof (cases i)
    case (Suc j)
    then have "fst (xs ! j) \<in> fst ` set xs" using Cons.prems(1) by simp
    then have "fst x \<noteq> k" using Cons.prems Suc by auto
    then show ?thesis using Cons.IH [of j] Cons.prems Suc by (cases x) (auto simp: fun_upd_twist)
  qed (cases x, auto simp: fun_eq_iff)
qed simp

lemma put_latest:
  assumes "distinct (map cp_key xs)" "cp_key q = k" "cp_value q = v"
  defines "ys \<equiv> (case find_slot (\<lambda>p. cp_key p = k) xs of Some i \<Rightarrow> xs[i := q] | None \<Rightarrow> xs @ [q])"
  shows "distinct (map cp_key ys)"
    "map_of (map (\<lambda>p. (cp_key p, cp_value p)) ys) = (map_of (map (\<lambda>p. (cp_key p, cp_value p)) xs))(k \<mapsto> v)"
proof -
  have "distinct (map cp_key ys) \<and>
    map_of (map (\<lambda>p. (cp_key p, cp_value p)) ys) = (map_of (map (\<lambda>p. (cp_key p, cp_value p)) xs))(k \<mapsto> v)"
  proof (cases "find_slot (\<lambda>p. cp_key p = k) xs")
    case None
    then have "k \<notin> set (map cp_key xs)" by (auto simp: find_slot_None)
    moreover from this have "map_of (map (\<lambda>p. (cp_key p, cp_value p)) xs) k = None"
      by (simp add: map_of_eq_None_iff image_image)
    ultimately show ?thesis using assms(1-3) None by (auto simp: ys_def map_add_def split: option.splits)
  next
    case (Some i)
    note i = find_slot_SomeD [OF Some]
    have "map cp_key ys = map cp_key xs" using i assms(2) Some by (simp add: ys_def map_update) (metis list_update_id nth_map)
    moreover have "map_of ((map (\<lambda>p. (cp_key p, cp_value p)) xs)[i := (k, v)]) =
        (map_of (map (\<lambda>p. (cp_key p, cp_value p)) xs))(k \<mapsto> v)"
      using i assms(1) by (intro map_of_update_nth) (simp_all add: comp_def)
    ultimately show ?thesis using assms(1-3) Some by (simp add: ys_def map_update)
  qed
  then show "distinct (map cp_key ys)"
    "map_of (map (\<lambda>p. (cp_key p, cp_value p)) ys) = (map_of (map (\<lambda>p. (cp_key p, cp_value p)) xs))(k \<mapsto> v)" by blast+
qed

lemma dom_buffered: "dom (buffered s) = cp_key ` set (cl_gw s)"
  by (simp add: buffered_def dom_map_of_conv_image_fst image_image)

lemma card_buffered: "buffer_ok s \<Longrightarrow> card (dom (buffered s)) = length (cl_gw s)"
  using distinct_card [of "map cp_key (cl_gw s)"] by (simp add: dom_buffered buffer_ok_def)

text \<open>What the flush looks at beside the buffer.\<close>

definition same_limits :: "cloud_state \<Rightarrow> cloud_state \<Rightarrow> bool" where
  "same_limits s t \<longleftrightarrow> cl_mqtt t = cl_mqtt s \<and> cl_uif t = cl_uif s \<and> cl_tokens t = cl_tokens s \<and>
     cl_rate_last_ms t = cl_rate_last_ms s \<and> cl_suspended t = cl_suspended s \<and> cl_block_until_ms t = cl_block_until_ms s"

lemma ingest_one:
  assumes "good_sample pr (env, c)" "sample_of (env, c) = Some (k, v)" "buffer_ok s" "length (cl_gw s) < THINGSCLOUD_AGG_BUFFER_MAX"
    "card (insert k (dom (buffered s))) < THINGSCLOUD_AGG_BUFFER_MAX"
  defines "t \<equiv> fst (thingscloud_publish_context env c s)"
  shows "buffer_ok t \<and> buffered t = (buffered s)(k \<mapsto> v) \<and> same_limits s t \<and> cl_gw_ready t"
proof -
  let ?q = "no_property\<lparr>cp_timestamp_ms := cloud_now env, cp_quality := c_quality_state c, cp_value := v, cp_address := [], cp_key := k\<rparr>"
  let ?ys = "case find_slot (\<lambda>p. cp_key p = k) (cl_gw s) of Some i \<Rightarrow> (cl_gw s)[i := ?q] | None \<Rightarrow> cl_gw s @ [?q]"
  let ?u = "s\<lparr>cl_gw_ready := True, cl_gw := ?ys\<rparr>"
  have k: "gateway_key c = Inl k" "cloud_value_of env c = Some v"
    using assms(2) by (auto simp: sample_of_def split: sum.splits option.splits)
  have mode: "cl_last_mode s = Some MQ_REPORT_GATEWAY" "q_report_mode (cloud_config env) = MQ_REPORT_GATEWAY"
    using assms(1,3) by (simp_all add: buffer_ok_def good_sample_def gateway_env_def)
  have put: "put_property env c [] (strlcpy 64 k) (find_slot (\<lambda>p. cp_key p = k) (cl_gw s)) (cl_gw s) = ?ys"
    using assms(4) gateway_key_size [OF k(1)]
    by (simp add: put_property_def fill_property_value_def k(2) Let_def no_property_def split: option.splits)
  have add: "add_context_to_gw_agg env c s = ?u"
  proof -
    have "agg_ensure_gw_buffer env s = (s\<lparr>cl_gw_ready := True\<rparr>, True)"
      using assms(1) by (simp add: agg_ensure_gw_buffer_def good_sample_def)
    then show ?thesis unfolding add_context_to_gw_agg_def k(1) using put by (simp add: Let_def)
  qed
  have p: "distinct (map cp_key ?ys)"
    "map_of (map (\<lambda>p. (cp_key p, cp_value p)) ?ys) = (map_of (map (\<lambda>p. (cp_key p, cp_value p)) (cl_gw s)))(k \<mapsto> v)"
    using assms(3) by (intro put_latest; simp add: buffer_ok_def)+
  have b: "buffered ?u = (buffered s)(k \<mapsto> v)" using p(2) by (simp add: buffered_def)
  have "(\<forall>q \<in> set ?ys. cp_key q \<noteq> [])"
    using assms(3) gateway_key_size [OF k(1)] set_update_subset_insert [of "cl_gw s"]
    by (fastforce simp: buffer_ok_def split: option.splits)
  then have ok: "buffer_ok ?u" using p(1) mode by (simp add: buffer_ok_def)
  have "length (cl_gw ?u) < THINGSCLOUD_AGG_BUFFER_MAX"
    using card_buffered [OF ok] assms(5) b by simp
  then have "t = ?u"
    using assms(1,4) mode add
    by (simp add: t_def thingscloud_publish_context_def good_sample_def gateway_env_def Let_def buffer_full_def check_mode_change_def)
  then show ?thesis using ok b by (simp add: same_limits_def)
qed

lemma ingest_latest:
  assumes "\<forall>x \<in> set xs. good_sample pr x" "cl_gw s = []" "cl_last_mode s = Some MQ_REPORT_GATEWAY"
    "card (dom (latest_values xs)) < THINGSCLOUD_AGG_BUFFER_MAX"
  shows "buffer_ok (ingest_all xs s) \<and> buffered (ingest_all xs s) = latest_values xs \<and> same_limits s (ingest_all xs s) \<and>
    (xs \<noteq> [] \<longrightarrow> cl_gw_ready (ingest_all xs s))"
  using assms(1,4)
proof (induction xs rule: rev_induct)
  case Nil
  then show ?case using assms(2,3) by (simp add: ingest_all_def latest_values_def buffer_ok_def buffered_def same_limits_def)
next
  case (snoc x xs)
  obtain env c where x: "x = (env, c)" by (cases x)
  obtain k v where kv: "sample_of (env, c) = Some (k, v)" using snoc.prems x by (auto simp: good_sample_def)
  have l: "latest_values (xs @ [(env, c)]) = (latest_values xs)(k \<mapsto> v)" by (simp add: latest_values_def kv)
  have fin: "finite (dom (latest_values xs))" for xs
    by (induction xs rule: rev_induct) (auto simp: latest_values_def split: option.splits)
  have "dom (latest_values (xs @ [x])) = insert k (dom (latest_values xs))" unfolding x l by simp
  then have ins: "card (insert k (dom (latest_values xs))) < THINGSCLOUD_AGG_BUFFER_MAX" using snoc.prems(2) by simp
  then have le: "card (dom (latest_values xs)) < THINGSCLOUD_AGG_BUFFER_MAX"
    using card_mono [OF _ subset_insertI [of "dom (latest_values xs)" k]] fin [of xs] by simp
  let ?u = "ingest_all xs s"
  have u: "buffer_ok ?u" "buffered ?u = latest_values xs" "same_limits s ?u" using snoc le by simp_all
  have "length (cl_gw ?u) < THINGSCLOUD_AGG_BUFFER_MAX" using card_buffered [OF u(1)] u(2) le by simp
  moreover have "ingest_all (xs @ [x]) s = fst (thingscloud_publish_context env c ?u)" by (simp add: ingest_all_def x)
  ultimately show ?case
    using ingest_one [of pr env c k v ?u] snoc.prems u kv ins unfolding x l by (simp add: same_limits_def)
qed

text \<open>The limiter and the connection let the next message through, and no record waits for its replay.\<close>

definition may_send :: "cloud_env \<Rightarrow> cloud_state \<Rightarrow> bool" where
  "may_send env s \<longleftrightarrow> ce_lock env \<and> ce_alloc env \<and> \<not> uif_replay_is_waiting_response (cl_uif s) \<and>
     uif_get_cached_count (ce_mounted env) (cl_uif s) = 0 \<and> mqtt_is_connected (cl_mqtt s) \<and>
     mq_initialized (cl_mqtt s) \<and> mq_client (cl_mqtt s) \<and> (\<forall>text. 0 \<le> me_publish (ce_mqtt env) TOPIC_ATTR text) \<and>
     cl_tokens s = 1 \<and> \<not> cl_suspended s \<and> cl_block_until_ms s \<le> cloud_now env"

lemma telemetry_sent:
  assumes "may_send env s"
  shows "snd (tc_publish_telemetry env TOPIC_ATTR text s) = ESP_OK"
    "telemetry_of (fst (tc_publish_telemetry env TOPIC_ATTR text s)) =
      telemetry_of s @ [EspPublish TOPIC_ATTR text 0 (q_retain (cloud_config env))]"
proof -
  let ?r = "tc_rate_refill (cloud_now env) s"
  have "0 < cl_tokens ?r"
  proof (cases "cloud_now env - cl_rate_last_ms s < TC_RATE_REFILL_MS")
    case True
    then show ?thesis using assms by (simp add: tc_rate_refill_def may_send_def Let_def)
  next
    case False
    then have "0 \<le> (cloud_now env - cl_rate_last_ms s) div TC_RATE_REFILL_MS" by (simp add: pos_imp_zdiv_nonneg_iff)
    then show ?thesis using assms by (simp add: tc_rate_refill_def may_send_def Let_def)
  qed
  moreover have "cl_mqtt ?r = cl_mqtt s" by (simp add: tc_rate_refill_def Let_def)
  ultimately show "snd (tc_publish_telemetry env TOPIC_ATTR text s) = ESP_OK"
    "telemetry_of (fst (tc_publish_telemetry env TOPIC_ATTR text s)) =
      telemetry_of s @ [EspPublish TOPIC_ATTR text 0 (q_retain (cloud_config env))]"
    using assms
    by (simp_all add: tc_publish_telemetry_def tc_rate_allow_def Let_def may_send_def mqtt_publish_def emit_def telemetry_of_def
        is_telemetry_def cloud_config_def)
qed

abbreviation fields_of :: "cloud_property list \<Rightarrow> (string \<times> json) list" where
  "fields_of ps \<equiv> map (\<lambda>p. (cp_key p, value_json (cp_value p))) ps"

lemma one_part:
  assumes "\<forall>p \<in> set ps. cp_key p \<noteq> []" "\<forall>n. length (pr (JObj (root @ take n (fields_of ps)))) \<le> THINGSCLOUD_MAX_PAYLOAD_BYTES"
    "0 < k \<or> ps \<noteq> []"
  shows "gw_parts pr ps root k = [root @ fields_of ps]"
  using assms
proof (induction ps arbitrary: root k)
  case Nil
  then show ?case by simp
next
  case (Cons p ps)
  let ?root = "add_property_to_object root p"
  have fits: "length (pr (JObj (?root @ take n (fields_of ps)))) \<le> THINGSCLOUD_MAX_PAYLOAD_BYTES" for n
    using spec [OF Cons.prems(2), of "Suc n"] by (simp add: add_property_to_object_def)
  have "gw_parts pr ps ?root (Suc k) = [?root @ fields_of ps]"
    using Cons.prems(1) fits by (intro Cons.IH) simp_all
  then show ?case using Cons.prems(1) fits [of 0] by (simp add: add_property_to_object_def)
qed

lemma flush_one:
  assumes "may_send env s" "gateway_env pr env" "cl_last_mode s = Some MQ_REPORT_GATEWAY" "cl_gw_ready s" "cl_gw s \<noteq> []"
    "gw_parts pr (cl_gw s) [] 0 = [root]"
  shows "telemetry_of (thingscloud_flush env s) =
      telemetry_of s @ [EspPublish TOPIC_ATTR (pr (JObj root)) 0 (q_retain (cloud_config env))]"
    "cl_gw (thingscloud_flush env s) = []"
proof -
  have pr: "\<And>j. ce_print env j = Some (pr j)" "\<And>i. ce_object env i" using assms(2) by (simp_all add: gateway_env_def)
  let ?u = "tc_publish_telemetry env TOPIC_ATTR (pr (JObj root)) s"
  note u = telemetry_sent [OF assms(1), of "pr (JObj root)"]
  have "gw_packets env 0 (cl_gw s) [] 0 ESP_OK s = (fst ?u, ESP_OK)"
    using gw_send_text [OF pr(1), of "Suc 0" root ESP_OK s] u(1)
    by (simp add: gw_packets_parts [OF pr] assms(6))
  then have "thingscloud_publish_gateway_attributes env (cl_gw s) s = (fst ?u, ESP_OK)"
    using assms by (simp add: thingscloud_publish_gateway_attributes_def publish_gw_attr_chunked_def may_send_def gateway_env_def)
  then have "thingscloud_flush env s = (fst ?u)\<lparr>cl_gw := []\<rparr>"
    using assms by (simp add: thingscloud_flush_def may_send_def gateway_env_def check_mode_change_def Let_def)
  then show "telemetry_of (thingscloud_flush env s) =
      telemetry_of s @ [EspPublish TOPIC_ATTR (pr (JObj root)) 0 (q_retain (cloud_config env))]"
    "cl_gw (thingscloud_flush env s) = []" using u(2) by simp_all
qed

lemma delete_item_keys: "fst ` set (delete_item k fs) \<subseteq> fst ` set fs"
  using set_take_subset [of _ fs] set_drop_subset [of _ fs]
  by (fastforce simp: delete_item_def split: option.splits)

lemma add_property_keys: "fst ` set (add_property_to_object r p) = insert (cp_key p) (fst ` set r)"
  by (simp add: add_property_to_object_def)

lemma parts_keys:
  "root \<in> set (gw_parts pr ps r n) \<Longrightarrow> fst ` set root \<subseteq> fst ` set r \<union> cp_key ` set ps"
proof (induction ps arbitrary: r n)
  case Nil
  then show ?case by (simp split: if_splits)
next
  case (Cons p ps)
  let ?a = "add_property_to_object r p"
  consider "cp_key p = []" "root \<in> set (gw_parts pr ps r n)" | "root = delete_item (cp_key p) ?a"
    | "root \<in> set (gw_parts pr ps (add_property_to_object [] p) 1)" | "root \<in> set (gw_parts pr ps ?a (Suc n))"
    using Cons.prems by (simp split: if_splits) blast+
  then show ?case
  proof cases
    case 1
    then show ?thesis using Cons.IH [OF 1(2)] by auto
  next
    case 2
    then show ?thesis using delete_item_keys [of "cp_key p" ?a] by (simp add: add_property_keys subset_iff) blast
  next
    case 3
    then show ?thesis using Cons.IH [OF 3] unfolding add_property_keys by auto
  next
    case 4
    then show ?thesis using Cons.IH [OF 4] unfolding add_property_keys by auto
  qed
qed

text \<open>The entry that a sample without a value finds is zeroed.\<close>

lemma ingest_nan:
  assumes "gateway_env pr env" "ce_lock env" "ce_alloc env" "c_quality_state c = QUALITY_GOOD" "c_point_id c \<noteq> []"
    "gateway_key c = Inl k" "cloud_value_of env c = None" "cl_last_mode s = Some MQ_REPORT_GATEWAY"
    "length (cl_gw s) < THINGSCLOUD_AGG_BUFFER_MAX" "find_slot (\<lambda>p. cp_key p = k) (cl_gw s) = Some i"
  shows "cl_gw (fst (thingscloud_publish_context env c s)) =
    (cl_gw s)[i := no_property\<lparr>cp_timestamp_ms := cloud_now env, cp_quality := QUALITY_GOOD\<rparr>]"
proof -
  have "agg_ensure_gw_buffer env s = (s\<lparr>cl_gw_ready := True\<rparr>, True)"
    using assms(3) by (simp add: agg_ensure_gw_buffer_def)
  then have "add_context_to_gw_agg env c s = s\<lparr>cl_gw_ready := True,
      cl_gw := (cl_gw s)[i := no_property\<lparr>cp_timestamp_ms := cloud_now env, cp_quality := QUALITY_GOOD\<rparr>]\<rparr>"
    using assms(4,7,10) by (simp add: add_context_to_gw_agg_def assms(6) put_property_def fill_property_value_def Let_def)
  then show ?thesis
    using assms(1,2,4,5,8,9)
    by (simp add: thingscloud_publish_context_def gateway_env_def Let_def buffer_full_def check_mode_change_def)
qed

section \<open>Properties\<close>

text \<open>
  C10. While the operations of the adapter follow one another in time without overlapping (the replay and the status
  reports call the limiter without the adapter's mutex, so the code does not enforce that) and no other component
  publishes on the telemetry topics, the telemetry messages of a period are limited to one per 30 seconds, one per
  new session and one per clearing of the publish guard by a change of the settings, and one more: the bucket saves
  one token and up to one period.
\<close>

theorem telemetry_rate_bounded:
  assumes "limiter_ok t0 s" "timely xs t0 s"
  shows "TC_RATE_REFILL_MS * (telemetry_count (cloud_run xs s) - telemetry_count s) \<le>
    2 * TC_RATE_REFILL_MS - 1 + (end_time xs t0 - t0) + TC_RATE_REFILL_MS * int (length (filter (refills \<circ> snd) xs))"
proof -
  have "TC_RATE_REFILL_MS * (telemetry_count (cloud_run xs s) - telemetry_count s) \<le>
      credit t0 s + (end_time xs t0 - t0 + TC_RATE_REFILL_MS * int (length (filter (refills \<circ> snd) xs)))"
    using cloud.run_bounded [of "(t0, s)" xs, unfolded total_sent total_budget] assms by (simp add: timely_allowed)
  moreover have "credit t0 s \<le> 2 * TC_RATE_REFILL_MS - 1" by (simp add: credit_def)
  ultimately show ?thesis by linarith
qed

text \<open>
  C27. A batch that does not fit into one packet is never finished in gateway mode: however often it is flushed, the
  buffer stays, and only its first packet is sent, again and again.
\<close>

theorem large_batch_never_finished:
  assumes "\<forall>env \<in> set envs. gateway_env pr env" "cl_last_mode s = Some MQ_REPORT_GATEWAY" "cl_tokens s \<le> 1"
    "gw_parts pr (cl_gw s) [] 0 = first # second # rest"
  defines "t \<equiv> fold thingscloud_flush envs s"
  shows "cl_gw t = cl_gw s \<and>
    (\<exists>sent. telemetry_of t = telemetry_of s @ sent \<and>
       (\<forall>e \<in> set sent. \<exists>retain. e = EspPublish TOPIC_ATTR (pr (JObj first)) 0 retain))"
proof -
  have "cl_gw t = cl_gw s \<and> cl_last_mode t = cl_last_mode s \<and> cl_tokens t \<le> 1 \<and>
    (\<exists>sent. telemetry_of t = telemetry_of s @ sent \<and>
       (\<forall>e \<in> set sent. \<exists>retain. e = EspPublish TOPIC_ATTR (pr (JObj first)) 0 retain))"
    unfolding t_def using assms(1)
  proof (induction envs rule: rev_induct)
    case Nil
    then show ?case using assms(3) by simp
  next
    case (snoc env envs)
    let ?u = "fold thingscloud_flush envs s"
    from snoc obtain sent where u: "cl_gw ?u = cl_gw s" "cl_last_mode ?u = cl_last_mode s" "cl_tokens ?u \<le> 1"
      "telemetry_of ?u = telemetry_of s @ sent"
      "\<forall>e \<in> set sent. \<exists>retain. e = EspPublish TOPIC_ATTR (pr (JObj first)) 0 retain" by auto
    have f: "cl_gw (thingscloud_flush env ?u) = cl_gw ?u \<and> cl_last_mode (thingscloud_flush env ?u) = cl_last_mode ?u \<and>
      cl_tokens (thingscloud_flush env ?u) \<le> 1 \<and> telemetry_of (thingscloud_flush env ?u) \<in>
        {telemetry_of ?u, telemetry_of ?u @ [EspPublish TOPIC_ATTR (pr (JObj first)) 0 (q_retain (cloud_config env))]}"
      using snoc.prems u assms(2,4) by (intro flush_large) simp_all
    then have "\<exists>xs. telemetry_of (thingscloud_flush env ?u) = telemetry_of ?u @ xs \<and>
        (\<forall>e \<in> set xs. \<exists>retain. e = EspPublish TOPIC_ATTR (pr (JObj first)) 0 retain)" by auto
    then show ?case using f u by (auto simp: ball_Un)
  qed
  then show ?thesis by blast
qed


text \<open>
  A sample that is not a number erases what waits under its key: the entry loses its key and its value, and no
  field of the next batch stands for it.
\<close>

theorem nan_erases_pending:
  assumes "gateway_env pr env" "ce_lock env" "ce_alloc env" "c_quality_state c = QUALITY_GOOD" "c_point_id c \<noteq> []"
    "gateway_key c = Inl k" "c_data_type c \<notin> {DT_BOOL, DT_ASCII}" "\<not> f64_isfinite (c_value c)"
    "buffer_ok s" "length (cl_gw s) < THINGSCLOUD_AGG_BUFFER_MAX" "buffered s k = Some v"
  defines "t \<equiv> fst (thingscloud_publish_context env c s)"
  shows "length (cl_gw t) = length (cl_gw s) \<and> k \<notin> cp_key ` set (cl_gw t) \<and>
    (\<forall>root \<in> set (gw_parts pr (cl_gw t) [] 0). k \<notin> fst ` set root)"
proof -
  have none: "cloud_value_of env c = None" using assms(7,8) by (simp add: cloud_value_of_def number_value_def Let_def)
  have "k \<in> cp_key ` set (cl_gw s)" using assms(11) dom_buffered [of s] by blast
  then obtain i where i: "find_slot (\<lambda>p. cp_key p = k) (cl_gw s) = Some i"
    using find_slot_None [of "\<lambda>p. cp_key p = k" "cl_gw s"] by fastforce
  let ?q = "no_property\<lparr>cp_timestamp_ms := cloud_now env, cp_quality := QUALITY_GOOD\<rparr>"
  have gw: "cl_gw t = (cl_gw s)[i := ?q]"
    unfolding t_def using assms none i by (intro ingest_nan) (simp_all add: buffer_ok_def)
  note j = find_slot_SomeD [OF i]
  have "k \<noteq> []" using gateway_key_size [OF assms(6)] by simp
  have free: "k \<notin> cp_key ` set (cl_gw t)"
  proof
    assume "k \<in> cp_key ` set (cl_gw t)"
    then obtain n where n: "n < length (cl_gw s)" "cp_key ((cl_gw s)[i := ?q] ! n) = k" by (auto simp: gw in_set_conv_nth)
    then have "n \<noteq> i" using \<open>k \<noteq> []\<close> by (auto simp: no_property_def)
    then have "map cp_key (cl_gw s) ! n = map cp_key (cl_gw s) ! i" using n j by simp
    then show False using assms(9) n(1) j(1) \<open>n \<noteq> i\<close> nth_eq_iff_index_eq [of "map cp_key (cl_gw s)" n i] by (simp add: buffer_ok_def)
  qed
  then show ?thesis using parts_keys [of _ pr "cl_gw t" "[]" 0] by (auto simp: gw)
qed

text \<open>
  Once the cloud has answered that a message was too large, no telemetry is sent any more, whatever is sampled,
  flushed, replayed or connected, until somebody clears the guard.
\<close>

theorem rejected_size_stops_telemetry:
  assumes "ce_lock env" "Clear_guard \<notin> snd ` set xs"
    "others_quiet xs (thingscloud_record_publish_response env accepted 413 s)"
  shows "telemetry_of (cloud_run xs (thingscloud_record_publish_response env accepted 413 s)) = telemetry_of s"
proof -
  let ?s = "thingscloud_record_publish_response env accepted 413 s"
  have "cl_suspended ?s" "telemetry_of ?s = telemetry_of s"
    using assms(1) by (simp_all add: thingscloud_record_publish_response_def telemetry_of_def Let_def)
  then show ?thesis using run_held [OF assms(2,3)] by (simp add: held_def)
qed

section \<open>Witnesses\<close>

definition demo_cloud_env :: "(json \<Rightarrow> string) \<Rightarrow> ms \<Rightarrow> cloud_env" where
  "demo_cloud_env pr now =
     \<lparr>ce_mqtt = demo_env\<lparr>me_now := now, me_config := load_defaults\<lparr>rc_mqtt := (rc_mqtt load_defaults)
        \<lparr>q_platform_type := MQTT_PLATFORM_THINGSCLOUD, q_report_mode := MQ_REPORT_GATEWAY\<rparr>\<rparr>\<rparr>,
      ce_lock = True, ce_alloc = True, ce_object = (\<lambda>_. True), ce_print = (\<lambda>j. Some (pr j)), ce_mounted = False,
      ce_beyond = [], ce_ub = (\<lambda>_. 0), ce_g = (\<lambda>_. ''0''), ce_rssi = 0, ce_uplink = [], ce_heap = 0\<rparr>"

definition demo_cloud_state :: cloud_state where
  "demo_cloud_state = (cloud_boot (demo_running\<lparr>mq_conn := MQTT_STATE_CONNECTED\<rparr>) (idle_uif empty_store))
     \<lparr>cl_last_mode := Some MQ_REPORT_GATEWAY\<rparr>"

lemma demo_cloud_gateway: "gateway_env pr (demo_cloud_env pr now)"
  by (simp add: gateway_env_def demo_cloud_env_def thingscloud_is_enabled_def cloud_config_def)

lemma demo_cloud_env_simps:
  "cloud_now (demo_cloud_env pr now) = now" "ce_lock (demo_cloud_env pr now)" "ce_alloc (demo_cloud_env pr now)"
  by (simp_all add: demo_cloud_env_def cloud_now_def)

definition demo_sample :: "string \<Rightarrow> data_type \<Rightarrow> f64 \<Rightarrow> tcm_context" where
  "demo_sample point dt x = \<lparr>c_tcm_version = ''1.1'', c_gateway_id = ''gw'', c_channel_id = 0, c_context_id = 1,
     c_device_id = ''meter'', c_point_id = point, c_source_protocol = SRC_MODBUS_RTU, c_slave_id = 1,
     c_function_code = 3, c_register_address = 40001, c_data_type = dt, c_measurement_name = point,
     c_unit = [], c_value = x, c_raw_value = x, c_value_text = [], c_scale_factor = 0x3F800000, c_offset = 0,
     c_byte_order = BYTE_ORDER_ABCD, c_timestamp_ms = 1, c_quality_state = QUALITY_GOOD,
     c_network_state = NET_ONLINE, c_operation_type = OP_READ_PUBLISH,
     c_constraint = \<lparr>writable = False, valid_range_min = 0, valid_range_max = 0\<rparr>, c_sequence_id = 1,
     c_mapping_version = 1, c_gateway_property_key = [], c_object_type = MODBUS_OBJECT_HOLDING_REGISTER,
     c_semantic_source = SEMANTIC_SOURCE_USER, c_semantic_status = SEMANTIC_STATUS_RESOLVED,
     c_semantic_profile_id = [], c_semantic_profile_version = 0, c_semantic_confidence = 100,
     c_semantic_evidence = [], c_timestamp_synchronized = False, c_validated = True\<rparr>"

lemma demo_sample_key:
  "thingscloud_gateway_key_valid point \<Longrightarrow> length point < 50 \<Longrightarrow>
   gateway_key (demo_sample point dt x) = Inl (''p1_s1_'' @ point)"
proof -
  have "dec 1 = ''1''" by code_simp
  then show "thingscloud_gateway_key_valid point \<Longrightarrow> length point < 50 \<Longrightarrow>
      gateway_key (demo_sample point dt x) = Inl (''p1_s1_'' @ point)"
    by (simp add: gateway_key_def demo_sample_def build_gateway_property_key_def Let_def)
qed

definition demo_property :: "string \<Rightarrow> cloud_property" where
  "demo_property key = no_property\<lparr>cp_key := key\<rparr>"

text \<open>Printers: the keys alone, and 600 bytes for each field.\<close>

definition print_keys :: "json \<Rightarrow> string" where
  "print_keys j = concat (map fst (device_fields j))"

definition print_long :: "json \<Rightarrow> string" where
  "print_long j = replicate (600 * length (device_fields j)) CHR ''x''"

lemma telemetry_rate_bounded_witness:
  "telemetry_count (cloud_run [(demo_cloud_env print_keys 1000, Session_connected), (demo_cloud_env print_keys 2000, Flush)] demo_cloud_state)
     - telemetry_count demo_cloud_state \<le> 3"
proof -
  have "limiter_ok 0 demo_cloud_state" by (simp add: limiter_ok_def demo_cloud_state_def cloud_boot_def)
  moreover have "timely [(demo_cloud_env print_keys 1000, Session_connected), (demo_cloud_env print_keys 2000, Flush)] 0 demo_cloud_state"
    by (simp add: demo_cloud_env_simps)
  ultimately show ?thesis
    using telemetry_rate_bounded [of 0 demo_cloud_state "[(demo_cloud_env print_keys 1000, Session_connected), (demo_cloud_env print_keys 2000, Flush)]"]
    by (simp add: end_time_def demo_cloud_env_simps refills_def)
qed

lemma large_batch_never_finished_witness:
  "cl_gw (fold thingscloud_flush [demo_cloud_env print_long 1000, demo_cloud_env print_long 40000]
     (demo_cloud_state\<lparr>cl_gw := [demo_property ''a'', demo_property ''b'']\<rparr>)) = [demo_property ''a'', demo_property ''b'']"
proof -
  let ?s = "demo_cloud_state\<lparr>cl_gw := [demo_property ''a'', demo_property ''b'']\<rparr>"
  let ?f = "\<lambda>k. [(k, JBool False)]"
  have "gw_parts print_long (cl_gw ?s) [] 0 = ?f ''a'' # ?f ''b'' # []"
    by (simp add: print_long_def demo_property_def no_property_def add_property_to_object_def value_json_def device_fields_def
        delete_item_def find_item_def same_name_def lower_char_def)
  then show ?thesis
    using large_batch_never_finished [of "[demo_cloud_env print_long 1000, demo_cloud_env print_long 40000]" print_long ?s]
      demo_cloud_gateway by (simp add: demo_cloud_state_def cloud_boot_def)
qed


lemma nan_erases_pending_witness:
  "''p1_s1_level'' \<notin> cp_key ` set (cl_gw (fst (thingscloud_publish_context (demo_cloud_env print_keys 1000)
     (demo_sample ''level'' DT_FLOAT32 0x7FF8000000000000)
     (demo_cloud_state\<lparr>cl_gw := [demo_property ''p1_s1_level'']\<rparr>))))"
proof -
  let ?c = "demo_sample ''level'' DT_FLOAT32 0x7FF8000000000000"
  let ?s = "demo_cloud_state\<lparr>cl_gw := [demo_property ''p1_s1_level'']\<rparr>"
  have "gateway_key ?c = Inl ''p1_s1_level''"
    by (subst demo_sample_key) (simp_all add: thingscloud_gateway_key_valid_def tc_key_char_valid_def Let_def)
  moreover have "\<not> f64_isfinite (c_value ?c)" by (simp add: demo_sample_def f64_isfinite_def f64_get_def fp_unpack_def Let_def)
  moreover have "buffer_ok ?s" "buffered ?s ''p1_s1_level'' = Some (CLOUD_VALUE_BOOL False)"
    by (simp_all add: buffer_ok_def buffered_def demo_cloud_state_def demo_property_def no_property_def cloud_boot_def)
  ultimately show ?thesis
    using nan_erases_pending [OF demo_cloud_gateway, of print_keys 1000 ?c "''p1_s1_level''" ?s] demo_cloud_env_simps
    by (simp add: demo_sample_def demo_cloud_state_def)
qed

lemma rejected_size_stops_telemetry_witness:
  "telemetry_of (cloud_run [(demo_cloud_env print_keys 1000, Session_connected), (demo_cloud_env print_keys 60000, Flush)]
     (thingscloud_record_publish_response (demo_cloud_env print_keys 0) False 413 demo_cloud_state)) = telemetry_of demo_cloud_state"
  by (rule rejected_size_stops_telemetry) (simp_all add: demo_cloud_env_simps)

end
