(* ===== verification/Pipeline.thy ===== *)
theory Pipeline
  imports Scheduler Cloud_Telemetry
begin

text \<open>
  What the pipeline of \<open>scheduler/scheduler.c\<close> guarantees: every point is polled in its turn however slow the bus
  is, and in any interleaving of the tasks each sample is somewhere in the pipeline, or counted.
\<close>

section \<open>Frames\<close>

lemma metric_fields [simp]:
  "sd_raw (metric env n d s) = sd_raw s" "sd_ctx (metric env n d s) = sd_ctx s" "sd_cache (metric env n d s) = sd_cache s"
  "sd_last_poll (metric env n d s) = sd_last_poll s" "sd_version (metric env n d s) = sd_version s"
  "sd_running (metric env n d s) = sd_running s" "sd_paused (metric env n d s) = sd_paused s"
  "sd_aborted (metric env n d s) = sd_aborted s"
  by (simp_all add: metric_def set_uif_def)

lemma sd_uif_fields [simp]:
  "sd_uif (s\<lparr>sd_raw := r\<rparr>) = sd_uif s" "sd_uif (s\<lparr>sd_ctx := c\<rparr>) = sd_uif s" "sd_uif (s\<lparr>sd_cache := c\<rparr>) = sd_uif s"
  "sd_uif (s\<lparr>sd_pool := p\<rparr>) = sd_uif s" "sd_uif (s\<lparr>sd_pool := p, sd_history := h\<rparr>) = sd_uif s"
  "sd_uif (s\<lparr>sd_access := a\<rparr>) = sd_uif s" "sd_uif (s\<lparr>sd_tcm := t\<rparr>) = sd_uif s"
  "sd_uif (s\<lparr>sd_last_poll := l\<rparr>) = sd_uif s" "sd_uif (s\<lparr>sd_last_poll := l, sd_version := v\<rparr>) = sd_uif s"
  "sd_uif (s\<lparr>sd_out := q\<rparr>) = sd_uif s" "sd_uif (s\<lparr>sd_aborted := b\<rparr>) = sd_uif s"
  "sd_uif (s\<lparr>sd_tc_flush := n\<rparr>) = sd_uif s" "sd_uif (s\<lparr>sd_gw_status := n\<rparr>) = sd_uif s"
  "sd_uif (s\<lparr>sd_slave_status := n\<rparr>) = sd_uif s" "sd_uif (s\<lparr>sd_trigger := g\<rparr>) = sd_uif s"
  "sd_uif (s\<lparr>sd_min_heap := v\<rparr>) = sd_uif s" "sd_uif (s\<lparr>sd_net := w\<rparr>) = sd_uif s"
  "sd_uif (set_uif u s) = u"
  by (simp_all add: sd_uif_def set_uif_def)

lemma set_uif_fields [simp]:
  "sd_raw (set_uif u s) = sd_raw s" "sd_ctx (set_uif u s) = sd_ctx s" "sd_cache (set_uif u s) = sd_cache s"
  by (simp_all add: set_uif_def)

section \<open>The turn of every point\<close>

text \<open>The scan has the oldest of the due entries, and among those one of the highest priority.\<close>

definition best_upto :: "ms \<Rightarrow> amm_state \<Rightarrow> amm_entry list \<Rightarrow> ms list \<Rightarrow> nat \<Rightarrow> nat option \<Rightarrow> bool" where
  "best_upto now amm es polled n r \<longleftrightarrow>
     (case r of
        None \<Rightarrow> \<forall>i < n. \<not> poll_due now amm (es ! i) (polled ! i)
      | Some j \<Rightarrow> j < n \<and> poll_due now amm (es ! j) (polled ! j) \<and>
          (\<forall>i < n. poll_due now amm (es ! i) (polled ! i) \<longrightarrow>
             polled ! j < polled ! i \<or> polled ! j = polled ! i \<and> m_priority (es ! i) \<le> m_priority (es ! j)))"

lemma select_poll_best: "best_upto now amm es polled (length es) (select_poll now amm es polled)"
proof -
  define f where "f = (\<lambda>i selected.
         if \<not> poll_due now amm (es ! i) (polled ! i) then selected
         else case selected of
             None \<Rightarrow> Some i
           | Some j \<Rightarrow>
               (if polled ! i < polled ! j \<or> polled ! i = polled ! j \<and> m_priority (es ! i) > m_priority (es ! j)
                then Some i else selected))"
  have "best_upto now amm es polled n (fold f [0..<n] None)" for n
  proof (induction n)
    case 0
    then show ?case by (simp add: best_upto_def)
  next
    case (Suc n)
    let ?r = "fold f [0..<n] None"
    have step: "fold f [0..<Suc n] None = f n ?r" by simp
    show ?case
    proof (cases "poll_due now amm (es ! n) (polled ! n)")
      case False
      then show ?thesis using Suc unfolding step by (auto simp: f_def best_upto_def less_Suc_eq split: option.splits)
    next
      case True
      show ?thesis
      proof (cases ?r)
        case None
        then show ?thesis using Suc True unfolding step by (auto simp: f_def best_upto_def less_Suc_eq)
      next
        case (Some j)
        then show ?thesis using Suc True unfolding step by (fastforce simp: f_def best_upto_def less_Suc_eq)
      qed
    qed
  qed
  then show ?thesis by (simp add: select_poll_def f_def)
qed

lemma select_poll_Some:
  assumes "select_poll now amm es polled = Some j"
  shows "j < length es" "poll_due now amm (es ! j) (polled ! j)"
    "\<And>i. i < length es \<Longrightarrow> poll_due now amm (es ! i) (polled ! i) \<Longrightarrow> polled ! j \<le> polled ! i"
  using select_poll_best [of now amm es polled] assms by (force simp: best_upto_def)+

lemma select_poll_due: "i < length es \<Longrightarrow> poll_due now amm (es ! i) (polled ! i) \<Longrightarrow> select_poll now amm es polled \<noteq> None"
  using select_poll_best [of now amm es polled] by (auto simp: best_upto_def split: option.splits)

text \<open>The times of the polls after one turn.\<close>

definition poll_times :: "amm_state \<Rightarrow> amm_entry list \<Rightarrow> ms \<Rightarrow> ms list \<Rightarrow> ms list" where
  "poll_times amm es now polled = (case select_poll now amm es polled of None \<Rightarrow> polled | Some j \<Rightarrow> polled[j := now])"

lemma length_poll_times [simp]: "length (poll_times amm es now polled) = length polled"
  by (simp add: poll_times_def split: option.splits)

lemma polled_stays:
  assumes "\<forall>t \<in> set ts. T \<le> t" "T \<le> polled ! i" "i < length polled"
  shows "T \<le> fold (poll_times amm es) ts polled ! i"
  using assms
proof (induction ts arbitrary: polled)
  case (Cons t ts)
  have "T \<le> poll_times amm es t polled ! i"
  proof (cases "select_poll t amm es polled")
    case (Some j)
    then show ?thesis using Cons.prems by (cases "j = i") (simp_all add: poll_times_def)
  qed (use Cons.prems in \<open>simp add: poll_times_def\<close>)
  then show ?case using Cons by simp
qed simp

text \<open>While a point waits, every other point is polled before it at most once.\<close>

lemma poll_reaches:
  assumes "i < length es" "length es \<le> length polled" "\<forall>t \<in> set ts. T \<le> t"
    "0 < poll_interval amm (es ! i)" "poll_due T amm (es ! i) (polled ! i)"
    "card {j. j < length es \<and> polled ! j \<le> polled ! i} \<le> length ts"
  shows "T \<le> fold (poll_times amm es) ts polled ! i"
  using assms(2-6)
proof (induction ts arbitrary: polled)
  case Nil
  have "0 < card {j. j < length es \<and> polled ! j \<le> polled ! i}" using assms(1) by (intro card_gt_0_iff [THEN iffD2]) auto
  then show ?case using Nil(5) by (simp only: list.size(3))
next
  case (Cons t ts)
  have later: "poll_due t amm (es ! i) (polled ! i)" using Cons.prems by (auto simp: poll_due_def)
  then obtain j where j: "select_poll t amm es polled = Some j" using select_poll_due [OF assms(1)] by blast
  note best = select_poll_Some [OF j]
  have step: "poll_times amm es t polled = polled[j := t]" by (simp add: poll_times_def j)
  show ?case
  proof (cases "j = i")
    case True
    then have "T \<le> poll_times amm es t polled ! i" using Cons.prems assms(1) by (simp add: step)
    then show ?thesis using polled_stays [of ts T "poll_times amm es t polled" i] Cons.prems assms(1) by simp
  next
    case False
    have "polled ! i < T" using Cons.prems(3,4) by (simp add: poll_due_def word_less_def)
    then have waits: "polled ! i < t" using Cons.prems(2) by simp
    let ?before = "{k. k < length es \<and> polled ! k \<le> polled ! i}"
    have "polled[j := t] ! k \<le> polled[j := t] ! i \<longleftrightarrow> k \<noteq> j \<and> polled ! k \<le> polled ! i" if "k < length es" for k
      using False waits Cons.prems(1) that by (cases "k = j") simp_all
    then have "{k. k < length es \<and> polled[j := t] ! k \<le> polled[j := t] ! i} = ?before - {j}" by blast
    moreover have "j \<in> ?before" using best assms(1) later by simp
    ultimately have "card {k. k < length es \<and> polled[j := t] ! k \<le> polled[j := t] ! i} \<le> length ts"
      using Cons.prems(5) by simp
    then have "T \<le> fold (poll_times amm es) ts (polled[j := t]) ! i"
      using False Cons.prems assms(1) by (intro Cons.IH) simp_all
    then show ?thesis by (simp add: step)
  qed
qed

definition poll_view :: "sched_state \<Rightarrow> bool \<times> bool \<times> bool \<times> ms list \<times> u32" where
  "poll_view s = (sd_running s, sd_paused s, sd_aborted s, sd_last_poll s, sd_version s)"

lemma poll_entry_view: "poll_view (poll_entry env e s) = poll_view s"
  by (simp add: poll_entry_def poll_view_def send_raw_def poll_failed_def Let_def split_beta)

lemma poll_step_times:
  assumes "running s" "\<not> sd_paused s" "sd_version s = amm_get_model_version (se_amm env)"
    "es = amm_get_entries (int (length (sd_last_poll s))) (se_amm env)"
  shows "running (poll_step env s)" "\<not> sd_paused (poll_step env s)" "sd_version (poll_step env s) = sd_version s"
    "sd_last_poll (poll_step env s) = poll_times (se_amm env) es (now_of env) (sd_last_poll s)"
proof -
  have "poll_view (poll_step env s) =
    (True, False, False, poll_times (se_amm env) es (now_of env) (sd_last_poll s), sd_version s)"
  proof (cases "select_poll (now_of env) (se_amm env) es (sd_last_poll s)")
    case None
    then show ?thesis using assms by (simp add: poll_step_def Let_def observe_version_def poll_view_def running_def poll_times_def)
  next
    case (Some i)
    then have "poll_step env s = poll_entry env (es ! i) (s\<lparr>sd_last_poll := (sd_last_poll s)[i := now_of env]\<rparr>)"
      using assms by (simp add: poll_step_def Let_def observe_version_def)
    then show ?thesis using assms Some by (simp add: poll_entry_view) (simp add: poll_view_def running_def poll_times_def)
  qed
  then show "running (poll_step env s)" "\<not> sd_paused (poll_step env s)" "sd_version (poll_step env s) = sd_version s"
    "sd_last_poll (poll_step env s) = poll_times (se_amm env) es (now_of env) (sd_last_poll s)"
    by (simp_all add: poll_view_def running_def)
qed

lemma poll_steps_times:
  assumes "running s" "\<not> sd_paused s" "sd_version s = amm_get_model_version amm" "\<forall>env \<in> set envs. se_amm env = amm"
    "es = amm_get_entries (int (length (sd_last_poll s))) amm"
  shows "sd_last_poll (fold poll_step envs s) = fold (poll_times amm es) (map now_of envs) (sd_last_poll s)"
  using assms
proof (induction envs arbitrary: s)
  case (Cons env envs)
  note step = poll_step_times [of s env es]
  show ?case using Cons.prems Cons.IH [of "poll_step env s"] step by simp
qed simp

section \<open>Where the samples are\<close>

definition counts :: "sched_state \<Rightarrow> eval_metrics" where
  "counts s = ev_metrics (uf_eval (sd_uif s))"

text \<open>
  Samples that have been polled are in a queue, or counted as rejected, lost, published or cached; the excess of
  these over the polls, in the arithmetic of the counters.
\<close>

definition samples_accounted :: "sched_state \<Rightarrow> u32" where
  "samples_accounted s = of_nat (length (sd_raw s) + length (sd_ctx s) + length (sd_cache s)) +
     contexts_rejected (counts s) + data_loss_count (counts s) + mqtt_published (counts s) + cached_records (counts s)"

definition excess :: "sched_state \<Rightarrow> u32" where
  "excess s = samples_accounted s - total_polls (counts s)"

definition metered :: "sched_state \<Rightarrow> bool" where
  "metered s \<longleftrightarrow> ev_mutex (uf_eval (sd_uif s))"

definition balances :: "sched_state \<Rightarrow> sched_state \<Rightarrow> bool" where
  "balances s t \<longleftrightarrow> (metered s \<longrightarrow> metered t \<and> excess t = excess s)"

lemma balances_refl [simp, intro]: "balances s s"
  by (simp add: balances_def)

lemma balances_trans: "balances s t \<Longrightarrow> balances t u \<Longrightarrow> balances s u"
  by (simp add: balances_def)

lemma counts_metric:
  "metered s \<Longrightarrow> se_metric env \<Longrightarrow> counts (metric env n d s) = add_metric n d (counts s)"
  by (simp add: counts_def metric_def metered_def eval_increment_metric_def)

lemma metered_metric [simp]: "metered (metric env n d s) = metered s"
  by (simp add: metric_def metered_def eval_increment_metric_def)

lemma excess_metric:
  assumes "metered s" "se_metric env"
  shows "excess (metric env ''contexts_rejected'' d s) = excess s + d" "excess (metric env ''data_loss_count'' d s) = excess s + d"
    "excess (metric env ''mqtt_published'' d s) = excess s + d" "excess (metric env ''cached_records'' d s) = excess s + d"
    "excess (metric env ''total_polls'' d s) = excess s - d"
    "excess (metric env ''successful_polls'' d s) = excess s" "excess (metric env ''failed_polls'' d s) = excess s"
    "excess (metric env ''contexts_created'' d s) = excess s" "excess (metric env ''contexts_validated'' d s) = excess s"
    "excess (metric env ''mqtt_failed'' d s) = excess s" "excess (metric env ''replayed_records'' d s) = excess s"
    "excess (metric env ''free_heap_min'' d s) = excess s" "excess (metric env ''cpu_load_percent'' d s) = excess s"
  by (simp_all add: excess_def samples_accounted_def counts_metric [OF assms] add_metric_def)

text \<open>A step that changes neither the metrics nor the queues of samples balances.\<close>

lemma balances_frame:
  "uf_eval (sd_uif t) = uf_eval (sd_uif s) \<Longrightarrow> sd_raw t = sd_raw s \<Longrightarrow> sd_ctx t = sd_ctx s \<Longrightarrow> sd_cache t = sd_cache s \<Longrightarrow> balances s t"
  by (simp add: balances_def metered_def excess_def samples_accounted_def counts_def)

lemma metered_fields [simp]:
  "metered (s\<lparr>sd_raw := r\<rparr>) = metered s" "metered (s\<lparr>sd_ctx := c\<rparr>) = metered s" "metered (s\<lparr>sd_cache := c\<rparr>) = metered s"
  "metered (s\<lparr>sd_aborted := b\<rparr>) = metered s" "metered (s\<lparr>sd_out := q\<rparr>) = metered s"
  by (simp_all add: metered_def)

lemma excess_queues:
  "excess (s\<lparr>sd_raw := sd_raw s @ [r]\<rparr>) = excess s + 1" "excess (s\<lparr>sd_ctx := sd_ctx s @ [c]\<rparr>) = excess s + 1"
  "excess (s\<lparr>sd_cache := sd_cache s @ [c]\<rparr>) = excess s + 1"
  "sd_raw s = r # rs \<Longrightarrow> excess (s\<lparr>sd_raw := rs\<rparr>) = excess s - 1"
  "sd_ctx s = c # cs \<Longrightarrow> excess (s\<lparr>sd_ctx := cs\<rparr>) = excess s - 1"
  "sd_cache s = c # cs \<Longrightarrow> excess (s\<lparr>sd_cache := cs\<rparr>) = excess s - 1"
  "excess (s\<lparr>sd_aborted := b\<rparr>) = excess s" "excess (s\<lparr>sd_out := q\<rparr>) = excess s"
  by (simp_all add: excess_def samples_accounted_def counts_def)

lemma send_cache_excess:
  "metered (fst (send_cache c s)) = metered s"
  "excess (fst (send_cache c s)) = excess s + (if snd (send_cache c s) then 1 else 0)"
  by (simp_all add: send_cache_def excess_queues)

text \<open>The adapter keeps the metrics.\<close>

lemma adapter_keeps_uif:
  "cl_uif (thingscloud_flush env c) = cl_uif c" "cl_uif (fst (thingscloud_publish_context env x c)) = cl_uif c"
  "cl_uif (thingscloud_subdev_register_success env a c) = cl_uif c" "cl_uif (thingscloud_subdev_register_failure env a c) = cl_uif c"
  "cl_uif (fst (thingscloud_publish_gateway_status env c)) = cl_uif c"
  "cl_uif (fst (thingscloud_publish_gateway_slave_status env c)) = cl_uif c"
  using durable.flush_rel [of c env] durable.publish_context_rel [of c env x] durable.register_rel [of c env a]
    durable.publish_status_rel [of c env]
  by (simp_all add: keeps_uif_def)

lemma to_cloud_fields [simp]:
  "sd_raw (to_cloud f s) = sd_raw s" "sd_ctx (to_cloud f s) = sd_ctx s" "sd_cache (to_cloud f s) = sd_cache s"
  by (simp_all add: to_cloud_def)

lemma to_cloud_balances: "cl_uif (f (sd_cloud s)) = cl_uif (sd_cloud s) \<Longrightarrow> balances s (to_cloud f s)"
  by (rule balances_frame) (simp_all add: to_cloud_def sd_uif_def)

section \<open>Every step balances\<close>

lemma poll_step_balances:
  assumes m: "se_metric env"
  shows "balances s (poll_step env s)"
proof -
  have failed: "balances t (poll_failed env e t)" for e t
  proof -
    define p where "p = t\<lparr>sd_pool := tcm_state_pool_update (Some (failed_context (now_of env) (get_network_state_locked env t) e)) (sd_pool t)\<rparr>"
    define u where "u = (if thingscloud_is_enabled (se_cloud env)
      then p\<lparr>sd_cloud := thingscloud_subdev_register_failure (se_cloud env)
             (fst (thingscloud_format_device_address (m_channel_id e) (m_slave_id e) 40)) (sd_cloud p)\<rparr> else p)"
    have "balances t u" by (rule balances_frame) (simp_all add: u_def p_def sd_uif_def adapter_keeps_uif)
    moreover have "poll_failed env e t = metric env ''failed_polls'' 1 u" by (simp add: poll_failed_def p_def u_def Let_def)
    ultimately show ?thesis by (simp add: balances_def excess_metric [OF _ m])
  qed
  have entry: "balances t (poll_entry env e t)" for e t
  proof -
    obtain start n index a err ws where r: "read_window e = (start, n, index)"
      "read_attempts (se_access env) e (modbus_register_offset (m_function_code e) start) n 0 (attempts_of e) (sd_access t) = (a, err, ws)"
      by (metis prod_cases3)
    define u where "u = (if err = ESP_OK then metric env ''successful_polls'' 1 (t\<lparr>sd_access := a\<rparr>)
      else poll_failed env e (t\<lparr>sd_access := a\<rparr>))"
    have "balances t (t\<lparr>sd_access := a\<rparr>)" by (rule balances_frame) simp_all
    then have "balances t u"
      using failed [of "t\<lparr>sd_access := a\<rparr>" e] by (auto simp: u_def balances_def excess_metric [OF _ m])
    then show ?thesis
      by (simp add: poll_entry_def r Let_def u_def [symmetric] send_raw_def balances_def excess_metric [OF _ m] excess_queues del: sd_uif_fields)
        (simp add: excess_metric [OF _ m] metric_fields excess_queues(1) [of "metric env ''total_polls'' 1 u", simplified])
  qed
  have obs: "balances t (observe_version env t)" for t by (rule balances_frame) (simp_all add: observe_version_def)
  show ?thesis
  proof (cases "\<not> running s \<or> sd_paused s")
    case False
    let ?o = "observe_version env s"
    have "poll_step env s \<in> {?o} \<union> range (\<lambda>(e, l). poll_entry env e (?o\<lparr>sd_last_poll := l\<rparr>))"
      using False by (auto simp: poll_step_def Let_def split: option.splits)
    moreover have "balances s (?o\<lparr>sd_last_poll := l\<rparr>)" for l
      using obs [of s] by (rule balances_trans) (rule balances_frame; simp)
    ultimately show ?thesis using obs [of s] entry balances_trans by fastforce
  qed (auto simp: poll_step_def)
qed

lemma build_step_balances:
  assumes m: "se_metric env"
  shows "balances s (build_step env s)"
proof -
  have tcm: "metered (t\<lparr>sd_tcm := x\<rparr>) = metered t" "excess (t\<lparr>sd_tcm := x\<rparr>) = excess t"
    "metered (t\<lparr>sd_pool := q, sd_history := h\<rparr>) = metered t" "excess (t\<lparr>sd_pool := q, sd_history := h\<rparr>) = excess t" for t x q h
    by (simp_all add: metered_def excess_def samples_accounted_def counts_def)
  have build: "metered (build_context env r t) \<and> excess (build_context env r t) = excess t + 1" if "metered t" for r t
  proof -
    obtain result x where result: "tcm_build_context (config_of env) (se_clock env) (se_nvs env) (rr_slave_id r) (rr_function_code r)
      (rr_register_address r) (rr_raw_value r) (rr_quality r) (get_network_state_locked env t) (sd_tcm t) = (result, x)"
      by fastforce
    show ?thesis
    proof (cases result)
      case None
      then show ?thesis using that by (simp add: build_context_def result tcm excess_metric [OF _ m])
    next
      case (Some c)
    define c1 where "c1 = c\<lparr>c_source_protocol := rr_source_protocol r, c_channel_id := rr_channel_id r, c_value_text := strlcpy 32 (rr_value_text r)\<rparr>"
    define c2 where "c2 = (case fst (amm_enrich_context (Some c1) (se_amm env)) of Some e \<Rightarrow> e | None \<Rightarrow> c1)"
    define u where "u = metric env ''contexts_created'' 1 (t\<lparr>sd_tcm := x\<rparr>)"
    define v where "v = metric env ''contexts_validated'' 1 u"
    define w where "w = v\<lparr>sd_pool := tcm_state_pool_update (Some (c2\<lparr>c_validated := True\<rparr>)) (sd_pool v), sd_history := sd_history v @ [c2\<lparr>c_validated := True\<rparr>]\<rparr>"
    have b: "build_context env r t = (if \<not> fst (tcm_validate (Some c2)) then metric env ''contexts_rejected'' 1 u
      else if length (sd_ctx w) < QUEUE_CONTEXT_SIZE then w\<lparr>sd_ctx := sd_ctx w @ [c2\<lparr>c_validated := True\<rparr>]\<rparr>
      else metric env ''data_loss_count'' 1 w)"
      unfolding build_context_def result Some Let_def w_def v_def u_def c2_def c1_def by (simp only: prod.case option.case)
    have u: "metered u \<and> excess u = excess t" using that by (simp add: u_def tcm excess_metric [OF _ m])
    then have "metered w \<and> excess w = excess t" by (simp add: w_def v_def tcm excess_metric [OF _ m])
    with u show ?thesis by (auto simp: b excess_metric [OF _ m] excess_queues)
    qed
  qed
  show ?thesis
    by (auto simp: build_step_def balances_def Let_def excess_metric [OF _ m] excess_queues build split: list.splits)
qed

lemma maintenance_balances: "balances s (cloud_maintenance env s)"
proof -
  define a where "a = (if now_of env - sd_tc_flush s > THINGSCLOUD_FLUSH_INTERVAL_MS
    then (to_cloud (thingscloud_flush (se_cloud env)) s)\<lparr>sd_tc_flush := now_of env\<rparr> else s)"
  define pending where "pending \<longleftrightarrow> uif_get_cached_count (io_mounted (se_io env)) (sd_uif a) > 0 \<or> uif_replay_is_waiting_response (sd_uif a)"
  define b where "b = (if \<not> pending \<and> now_of env - sd_gw_status a > THINGSCLOUD_GW_STATUS_INTERVAL_MS
    then (to_cloud (\<lambda>c. fst (thingscloud_publish_gateway_status (se_cloud env) c)) a)\<lparr>sd_gw_status := now_of env\<rparr> else a)"
  have stamp: "balances t (t\<lparr>sd_tc_flush := n\<rparr>)" "balances t (t\<lparr>sd_gw_status := n\<rparr>)" "balances t (t\<lparr>sd_slave_status := n\<rparr>)" for t n
    by (rule balances_frame; simp)+
  have a: "balances s a"
    using balances_trans [OF to_cloud_balances stamp(1)] by (simp add: a_def adapter_keeps_uif)
  have "balances a b"
    using balances_trans [OF to_cloud_balances stamp(2)] by (simp add: b_def adapter_keeps_uif)
  with a have b: "balances s b" by (rule balances_trans)
  have "balances b ((to_cloud (\<lambda>c. fst (thingscloud_publish_gateway_slave_status (se_cloud env) c)) b)\<lparr>sd_slave_status := now_of env\<rparr>)"
    by (rule balances_trans [OF to_cloud_balances stamp(3)]) (simp add: adapter_keeps_uif)
  with b have c: "balances s ((to_cloud (\<lambda>c. fst (thingscloud_publish_gateway_slave_status (se_cloud env) c)) b)\<lparr>sd_slave_status := now_of env\<rparr>)"
    by (rule balances_trans)
  have "cloud_maintenance env s \<in> {s, b, (to_cloud (\<lambda>c. fst (thingscloud_publish_gateway_slave_status (se_cloud env) c)) b)\<lparr>sd_slave_status := now_of env\<rparr>}"
    unfolding cloud_maintenance_def Let_def a_def [symmetric] pending_def [symmetric] b_def [symmetric] by simp
  then show ?thesis using b c by auto
qed

text \<open>
  The context that a turn of the publish task takes is not sent, not cached and not counted: MQTT is switched off or
  not configured, or the context does not fit into its text.
\<close>

definition forgotten :: "sched_env \<Rightarrow> tcm_context \<Rightarrow> sched_state \<Rightarrow> bool" where
  "forgotten env c s =
     (let q = rc_mqtt (config_of env) in
      if \<not> (q_enabled q \<and> mqtt_configured q) then True
      else mqtt_is_connected (sd_mqtt s) \<and> q_platform_type q \<noteq> MQTT_PLATFORM_THINGSCLOUD \<and>
        (case tcm_serialize_json (se_print env) (se_alloc env) c TCM_MAX_JSON_LEN of (None, _) \<Rightarrow> True | (Some _, n) \<Rightarrow> n \<le> 0))"

text \<open>A context that is taken from its queue is somewhere else afterwards, or forgotten.\<close>

lemma publish_one_excess:
  assumes m: "se_metric env" and "metered s"
  shows "metered (publish_one env c s) \<and> excess (publish_one env c s) = excess s + (if forgotten env c s then 0 else 1)"
proof -
  have sent: "metered (case send_cache c t of (u, False) \<Rightarrow> metric env ''data_loss_count'' 1 u | (u, True) \<Rightarrow> f u) \<and>
      excess (case send_cache c t of (u, False) \<Rightarrow> metric env ''data_loss_count'' 1 u | (u, True) \<Rightarrow> f u) = excess t + 1"
    if "metered t" "\<And>u. metered u \<Longrightarrow> metered (f u) \<and> excess (f u) = excess u" for t f
  proof -
    obtain u b where u: "send_cache c t = (u, b)" by fastforce
    have "metered u" "excess u = excess t + (if b then 1 else 0)" using send_cache_excess [of c t] that(1) by (simp_all add: u)
    then show ?thesis using that(2) [of u] by (cases b) (simp_all add: u excess_metric [OF _ m])
  qed
  have offline: "metered (publish_offline env c s) \<and> excess (publish_offline env c s) = excess s + 1"
    using sent [of s "\<lambda>u. u"] assms(2) by (simp add: publish_offline_def)
  have cloud: "metered (publish_cloud env c s) \<and> excess (publish_cloud env c s) = excess s + 1"
  proof -
    define t where "t = to_cloud (thingscloud_subdev_register_success (se_cloud env)
      (fst (thingscloud_format_device_address (c_channel_id c) (c_slave_id c) 40))) s"
    define u where "u = t\<lparr>sd_cloud := fst (thingscloud_publish_context (se_cloud env) c (sd_cloud t))\<rparr>"
    have "balances s t" by (simp add: t_def to_cloud_balances adapter_keeps_uif)
    moreover have "balances t u" by (rule balances_frame) (simp_all add: u_def sd_uif_def adapter_keeps_uif)
    ultimately have u: "metered u \<and> excess u = excess s" using assms(2) by (simp add: balances_def)
    then show ?thesis
      using sent [of u "metric env ''mqtt_failed'' 1"]
      by (simp add: publish_cloud_def t_def [symmetric] u_def [symmetric] split_beta Let_def excess_metric [OF _ m])
  qed
  obtain body n where j: "tcm_serialize_json (se_print env) (se_alloc env) c TCM_MAX_JSON_LEN = (body, n)" by fastforce
  have mqtt: "metered (publish_mqtt env c s) \<and>
      excess (publish_mqtt env c s) = excess s + (if body = None \<or> n \<le> 0 then 0 else 1)"
    using sent [of s "\<lambda>u. u"] assms(2)
    by (cases body) (simp_all add: publish_mqtt_def j excess_metric [OF _ m] excess_queues)
  show ?thesis using offline cloud mqtt assms(2)
    by (cases body) (simp_all add: publish_one_def forgotten_def j Let_def)
qed

lemma out_step_balances:
  assumes m: "se_metric env"
  shows "balances s (out_step env s)"
proof -
  have "balances s (s\<lparr>sd_out := q\<rparr>)" for q by (rule balances_frame) simp_all
  moreover have "balances t (to_cloud (\<lambda>c. c\<lparr>cl_mqtt := x\<rparr>) t)" for t x by (rule to_cloud_balances) simp
  moreover have "balances t (set_uif ((sd_uif t)\<lparr>uf_store := st\<rparr>) t)" for t st
    by (rule balances_frame) (simp_all add: set_uif_def sd_uif_def)
  ultimately show ?thesis
    by (auto simp: out_step_def balances_def excess_metric [OF _ m] split_beta Let_def split: list.splits)
qed

lemma cache_step_balances:
  assumes m: "se_metric env"
  shows "balances s (cache_step env s)"
proof -
  have eval: "uf_eval (fst (uif_cache_record p a cfg amm io (Some c) u)) = uf_eval u" for p a cfg amm io c u
    by (simp add: uif_cache_record_def split: option.splits prod.splits)
  have set: "metered (set_uif u t) = metered t" "excess (set_uif u t) = excess t" if "uf_eval u = uf_eval (sd_uif t)" for u t
    using that by (simp_all add: metered_def excess_def samples_accounted_def counts_def)
  show ?thesis
    by (auto simp: cache_step_def balances_def excess_metric [OF _ m] excess_queues set eval split_beta Let_def split: list.splits)
qed

lemma replay_keeps_eval: "uf_eval (fst (uif_replay_all env u)) = uf_eval u"
  by (simp add: uif_replay_all_def replay_next_def Let_def split: prod.splits sum.splits option.splits)

lemma replay_step_balances:
  assumes m: "se_metric env"
  shows "balances s (replay_step env s)"
proof -
  have replay: "balances t (fst (replay_cloud env t))" for t
    by (rule balances_frame) (simp_all add: replay_cloud_def sd_uif_def replay_keeps_eval split_beta Let_def)
  define t where "t = s\<lparr>sd_trigger := map_option (\<lambda>_. False) (sd_trigger s)\<rparr>"
  have t: "balances s t" "balances s (t\<lparr>sd_aborted := True\<rparr>)" by (rule balances_frame; simp add: t_def)+
  have r: "balances s (fst (replay_cloud env t))" using t(1) replay by (rule balances_trans)
  then have "balances s (metric env ''replayed_records'' n (fst (replay_cloud env t)))" for n
    by (simp add: balances_def excess_metric [OF _ m])
  moreover have "replay_step env s \<in> {t, t\<lparr>sd_aborted := True\<rparr>, fst (replay_cloud env t)} \<union>
      range (\<lambda>n. metric env ''replayed_records'' n (fst (replay_cloud env t)))"
    unfolding replay_step_def Let_def t_def [symmetric] split_beta by simp
  ultimately show ?thesis using t r by auto
qed

lemma monitor_step_balances:
  assumes m: "se_metric env"
  shows "balances s (monitor_step env s)"
proof -
  have heap: "balances s (s\<lparr>sd_min_heap := h\<rparr>)" for h by (rule balances_frame) simp_all
  have event: "metered (set_uif ((sd_uif t)\<lparr>uf_eval := eval_log_event l (Some ''resource_stats'') (uf_eval (sd_uif t))\<rparr>) t) = metered t"
    "excess (set_uif ((sd_uif t)\<lparr>uf_eval := eval_log_event l (Some ''resource_stats'') (uf_eval (sd_uif t))\<rparr>) t) = excess t" for t l
    by (simp_all add: metered_def excess_def samples_accounted_def counts_def eval_log_event_def auto_increment_for_event_def)
  show ?thesis using heap [of "min (sd_min_heap s) (se_free_heap env)"]
    by (auto simp: monitor_step_def balances_def event excess_metric [OF _ m] Let_def)
qed

lemma control_balances:
  "balances s (scheduler_set_network_state env n s)" "balances s (scheduler_start k s)"
  "balances s (scheduler_pause_modbus_polling b s)" "balances s (s\<lparr>sd_access := a, sd_pool := p\<rparr>)"
  by (rule balances_frame; simp add: scheduler_set_network_state_def scheduler_start_def scheduler_pause_modbus_polling_def
      set_uif_def sd_uif_def uif_replay_connection_lost_def Let_def)+

text \<open>
  The turns of the tasks, the calls that control them, and what other components do: to the bus and the pool, and to
  the MQTT client and the durable layer, where they leave the metrics alone.
\<close>

datatype turn =
    Poll_turn sched_env
  | Build_turn sched_env
  | Publish_turn sched_env
  | Out_turn sched_env
  | Cache_turn sched_env
  | Replay_turn sched_env
  | Monitor_turn sched_env
  | Network_turn sched_env network_state
  | Start_turn nat
  | Stop_turn
  | Pause_turn bool
  | Bus_turn access_state state_pool
  | Elsewhere_turn mqtt_state uif_state

fun turn_step :: "turn \<Rightarrow> sched_state \<Rightarrow> sched_state" where
  "turn_step (Poll_turn env) s = poll_step env s"
| "turn_step (Build_turn env) s = build_step env s"
| "turn_step (Publish_turn env) s = publish_step env s"
| "turn_step (Out_turn env) s = out_step env s"
| "turn_step (Cache_turn env) s = cache_step env s"
| "turn_step (Replay_turn env) s = replay_step env s"
| "turn_step (Monitor_turn env) s = monitor_step env s"
| "turn_step (Network_turn env n) s = scheduler_set_network_state env n s"
| "turn_step (Start_turn k) s = scheduler_start k s"
| "turn_step Stop_turn s = scheduler_stop s"
| "turn_step (Pause_turn b) s = scheduler_pause_modbus_polling b s"
| "turn_step (Bus_turn a p) s = s\<lparr>sd_access := a, sd_pool := p\<rparr>"
| "turn_step (Elsewhere_turn m u) s = to_cloud (\<lambda>c. c\<lparr>cl_mqtt := m, cl_uif := u\<lparr>uf_eval := uf_eval (sd_uif s)\<rparr>\<rparr>) s"

text \<open>The mutex of the metrics is taken in time in the turn.\<close>

fun counting :: "turn \<Rightarrow> bool" where
  "counting (Poll_turn env) = se_metric env"
| "counting (Build_turn env) = se_metric env"
| "counting (Publish_turn env) = se_metric env"
| "counting (Out_turn env) = se_metric env"
| "counting (Cache_turn env) = se_metric env"
| "counting (Replay_turn env) = se_metric env"
| "counting (Monitor_turn env) = se_metric env"
| "counting _ = True"

text \<open>
  The samples a turn drops without counting them: the forgotten context of a turn of the publish task, and the cache
  queue, which a stop deletes.
\<close>

fun uncounted :: "turn \<Rightarrow> sched_state \<Rightarrow> nat" where
  "uncounted (Publish_turn env) s =
     (case sd_ctx s of [] \<Rightarrow> 0 | c # cs \<Rightarrow> if running s \<and> forgotten env c (s\<lparr>sd_ctx := cs\<rparr>) then 1 else 0)"
| "uncounted Stop_turn s = length (sd_cache s)"
| "uncounted _ s = 0"

fun run_turns :: "turn list \<Rightarrow> sched_state \<Rightarrow> sched_state" where
  "run_turns [] s = s"
| "run_turns (x # xs) s = run_turns xs (turn_step x s)"

fun uncounted_in :: "turn list \<Rightarrow> sched_state \<Rightarrow> nat" where
  "uncounted_in [] s = 0"
| "uncounted_in (x # xs) s = uncounted x s + uncounted_in xs (turn_step x s)"

lemma publish_step_excess:
  assumes "se_metric env" "metered s"
  shows "metered (publish_step env s) \<and> excess (publish_step env s) = excess s - of_nat (uncounted (Publish_turn env) s)"
proof (cases "sd_ctx s")
  case Nil
  then show ?thesis using maintenance_balances [of s env] assms(2) by (simp add: publish_step_def balances_def)
next
  case (Cons c cs)
  then show ?thesis using publish_one_excess [of env "s\<lparr>sd_ctx := cs\<rparr>" c] assms excess_queues(5) [OF Cons]
    by (simp add: publish_step_def)
qed

lemma turn_excess:
  assumes "counting x" "metered s"
  shows "metered (turn_step x s) \<and> excess (turn_step x s) = excess s - of_nat (uncounted x s)"
proof (cases x)
  case (Publish_turn env)
  then show ?thesis using publish_step_excess [of env s] assms by simp
next
  case Stop_turn
  then show ?thesis using assms(2)
    by (simp add: scheduler_stop_def metered_def excess_def samples_accounted_def counts_def sd_uif_def)
next
  case (Elsewhere_turn m u)
  have "balances s (turn_step x s)"
    unfolding Elsewhere_turn turn_step.simps by (rule balances_frame) (simp_all add: to_cloud_def sd_uif_def)
  then show ?thesis using assms(2) Elsewhere_turn by (simp add: balances_def)
qed (use assms poll_step_balances build_step_balances out_step_balances cache_step_balances replay_step_balances
    monitor_step_balances control_balances in \<open>auto simp: balances_def\<close>)

lemma run_excess:
  "list_all counting xs \<Longrightarrow> metered s \<Longrightarrow> excess (run_turns xs s) = excess s - of_nat (uncounted_in xs s)"
proof (induction xs arbitrary: s)
  case (Cons x xs)
  then show ?case using turn_excess [of x s] by (simp add: algebra_simps)
qed simp

section \<open>Properties\<close>

text \<open>
  C4. No point starves: a point that is due is polled within as many turns of the poll task as there are points,
  whatever the intervals, the priorities and the answers of the bus.
\<close>

theorem every_point_polled:
  assumes "running s" "\<not> sd_paused s" "sd_version s = amm_get_model_version amm" "\<forall>env \<in> set envs. se_amm env = amm"
    "es = amm_get_entries (int (length (sd_last_poll s))) amm" "i < length es"
    "\<forall>env \<in> set envs. T \<le> now_of env" "length es \<le> length envs"
    "0 < poll_interval amm (es ! i)" "poll_due T amm (es ! i) (sd_last_poll s ! i)"
  shows "T \<le> sd_last_poll (fold poll_step envs s) ! i"
proof -
  have "card {j. j < length es \<and> sd_last_poll s ! j \<le> sd_last_poll s ! i} \<le> card {..<length es}"
    by (intro card_mono) auto
  moreover have "length es \<le> length (sd_last_poll s)" by (simp add: assms(5) amm_get_entries_def)
  ultimately show ?thesis
    unfolding poll_steps_times [OF assms(1-5)] using assms(6-10) by (intro poll_reaches) simp_all
qed


section \<open>Witnesses\<close>

text \<open>Two points, of which the second has the higher priority, on a bus that does not answer.\<close>

definition silent_entry :: "u16 \<Rightarrow> u8 \<Rightarrow> amm_entry" where
  "silent_entry addr priority = zero_mapping\<lparr>m_slave_id := 1, m_function_code := 3, m_register_address := addr,
     m_priority := priority, m_active := True, m_device_id := ''meter'', m_point_id := dec (unat addr)\<rparr>"

definition silent_amm :: amm_state where
  "silent_amm = no_mappings\<lparr>am_table := [silent_entry 1 0, silent_entry 2 5]\<rparr>"

definition demo_sched_env :: "ms \<Rightarrow> sched_env" where
  "demo_sched_env now =
     \<lparr>se_cloud = (demo_cloud_env print_keys now)\<lparr>ce_mqtt := demo_env\<lparr>me_now := now, me_config := load_defaults\<lparr>rc_mqtt :=
        (rc_mqtt load_defaults)\<lparr>q_platform_type := MQTT_PLATFORM_CUSTOM, q_uri := ''mqtt://broker''\<rparr>\<rparr>\<rparr>\<rparr>,
      se_amm = silent_amm,
      se_access = (\<lambda>_. \<lparr>x_master = (\<lambda>req p. (ESP_ERR_TIMEOUT, p)),
        x_net = \<lparr>net_resolves = True, net_socket = True, net_connects = True, net_sends = [], net_recvs = (\<lambda>_. [])\<rparr>,
        x_config = load_defaults, x_alloc = True, x_lock = True,
        x_log_env = \<lparr>env_alloc = True, env_take = True, env_uptime_ms = now, env_wall_ms = None\<rparr>\<rparr>),
      se_net_lock = True, se_metric = True, se_clock = \<lparr>ck_sec = 0, ck_usec = 0, ck_uptime_us = now * 1000\<rparr>, se_nvs = True,
      se_io = calm_env, se_print = (\<lambda>_ _. Some ''{}''), se_parse = (\<lambda>_. Some (JObj [])), se_ub = (\<lambda>_. 0), se_alloc = True,
      se_free_heap = 100000, se_tasks = 9\<rparr>"

definition demo_sched_state :: sched_state where
  "demo_sched_state =
     \<lparr>sd_access = idle_access, sd_pool = pool_boot, sd_tcm = \<lparr>tq_counter = 0, tq_reserved_to = 0, tq_context_counter = 0, tq_stored = None\<rparr>,
      sd_cloud = demo_cloud_state, sd_history = [], sd_raw = [], sd_ctx = [], sd_out = [], sd_cache = [], sd_cache_ready = True,
      sd_last_poll = [0, 0], sd_version = 1, sd_net = NET_OFFLINE, sd_net_mutex = True, sd_trigger = Some False,
      sd_running = True, sd_paused = False, sd_tc_flush = 0, sd_gw_status = 0, sd_slave_status = 0, sd_min_heap = - 1,
      sd_aborted = False\<rparr>"

lemma demo_sched_simps:
  "now_of (demo_sched_env now) = now" "se_amm (demo_sched_env now) = silent_amm" "se_metric (demo_sched_env now)"
  by (simp_all add: demo_sched_env_def now_of_def cloud_now_def)

lemma every_point_polled_witness:
  "1500 \<le> sd_last_poll (fold poll_step [demo_sched_env 1500, demo_sched_env 1900] demo_sched_state) ! 0"
proof (rule every_point_polled [where es = "[silent_entry 1 0, silent_entry 2 5]" and amm = silent_amm])
  show "running demo_sched_state" "\<not> sd_paused demo_sched_state" by (simp_all add: running_def demo_sched_state_def)
  show "[silent_entry 1 0, silent_entry 2 5] = amm_get_entries (int (length (sd_last_poll demo_sched_state))) silent_amm"
    by (simp add: amm_get_entries_def silent_amm_def silent_entry_def demo_sched_state_def)
qed (simp_all add: demo_sched_simps silent_amm_def no_mappings_def amm_get_model_version_def demo_sched_state_def poll_interval_def
    poll_due_def amm_get_default_poll_interval_def silent_entry_def zero_mapping_def)


end
