(* ===== verification/Semantic_Inference.thy ===== *)
theory Semantic_Inference
  imports Amm_Import
begin

text \<open>
  What the gateway makes of a device it has no profile for (\<open>semantic/semantic_inference.c\<close>): a
  fingerprint of where the device is and which registers it has, and one raw mapping entry per register,
  read-only and without a unit unless the user has edited the register. Two devices that differ only in
  their address on the bus have different fingerprints.
\<close>

section \<open>Fingerprint\<close>

record semantic_device_features =
  sf_source_protocol :: source_protocol
  sf_channel_id :: u8
  sf_slave_id :: u8
  sf_vendor_name :: "string option"
  sf_product_code :: "string option"
  sf_revision :: "string option"
  sf_probe_function_code :: u8
  sf_probe_address :: u16
  sf_registers :: "(u8 \<times> u16) list"

record semantic_device_identity =
  si_fingerprint :: string
  si_profile_id :: string
  si_confidence :: u8
  si_evidence :: string

record semantic_raw_point =
  sp_function_code :: u8
  sp_address :: u16
  sp_raw_value :: u16
  sp_read_start_address :: u16
  sp_read_register_count :: u8
  sp_value_register_index :: u8
  sp_user_edited :: bool
  sp_name :: "string option"
  sp_unit :: "string option"
  sp_data_type :: data_type
  sp_writable :: bool
  sp_range_min :: f32
  sp_range_max :: f32

definition fnv1a_byte :: "u8 \<Rightarrow> u32 \<Rightarrow> u32" where
  "fnv1a_byte b hash = (hash XOR ucast b) * 16777619"

definition fnv1a_bytes :: "u32 \<Rightarrow> u8 list \<Rightarrow> u32" where
  "fnv1a_bytes hash data = fold fnv1a_byte data hash"

definition char_byte :: "char \<Rightarrow> u8" where
  "char_byte c = word_of_nat (of_char c)"

definition fnv1a_string :: "u32 \<Rightarrow> string option \<Rightarrow> u32" where
  "fnv1a_string hash value = (case value of None \<Rightarrow> hash | Some t \<Rightarrow> fnv1a_bytes hash (map char_byte t))"

text \<open>The bytes of an integer field in memory, the low byte first; an enumeration takes four.\<close>

definition u16_memory :: "u16 \<Rightarrow> u8 list" where
  "u16_memory x = [ucast x, ucast (drop_bit 8 x)]"

definition protocol_memory :: "source_protocol \<Rightarrow> u8 list" where
  "protocol_memory p = [if p = SRC_MODBUS_TCP then 1 else 0, 0, 0, 0]"

definition has_text :: "string option \<Rightarrow> bool" where
  "has_text t \<longleftrightarrow> (case t of None \<Rightarrow> False | Some s \<Rightarrow> s \<noteq> [])"

definition has_device_metadata :: "semantic_device_features \<Rightarrow> bool" where
  "has_device_metadata f \<longleftrightarrow> has_text (sf_vendor_name f) \<or> has_text (sf_product_code f) \<or> has_text (sf_revision f)"

definition fingerprint_hash :: "semantic_device_features \<Rightarrow> u32" where
  "fingerprint_hash f =
     (let hash = fnv1a_bytes 2166136261 (protocol_memory (sf_source_protocol f));
          hash = fnv1a_bytes hash [sf_channel_id f];
          hash = fnv1a_bytes hash [sf_slave_id f];
          hash = fnv1a_string hash (sf_vendor_name f);
          hash = fnv1a_string hash (sf_product_code f);
          hash = fnv1a_string hash (sf_revision f);
          hash = fnv1a_bytes hash [sf_probe_function_code f];
          hash = fnv1a_bytes hash (u16_memory (sf_probe_address f))
      in fold (\<lambda>(fc, address) hash. fnv1a_bytes (fnv1a_bytes hash [fc]) (u16_memory address)) (sf_registers f) hash)"

definition semantic_inference_identify :: "semantic_device_features option \<Rightarrow> semantic_device_identity" where
  "semantic_inference_identify features =
     (case features of
        None \<Rightarrow> \<lparr>si_fingerprint = [], si_profile_id = [], si_confidence = 0, si_evidence = []\<rparr>
      | Some f \<Rightarrow>
          (let hash = fingerprint_hash f
           in \<lparr>si_fingerprint = strlcpy 17 (hex False 8 (unat hash)),
               si_profile_id = strlcpy 32 (''unresolved-'' @ hex False 8 (unat hash)),
               si_confidence = (if has_device_metadata f then 40 else 20),
               si_evidence = strlcpy 48 (''fp='' @ hex False 8 (unat hash) @ ''; live FC'' @
                 dec2 (unat (sf_probe_function_code f)) @ '' response'')\<rparr>))"

section \<open>Raw mapping\<close>

definition raw_range :: "u8 \<Rightarrow> f32 \<times> f32" where
  "raw_range fc = (if fc = 1 \<or> fc = 2 then (0, 0x3F800000) else (0, 0x477FFF00))"

definition protocol_prefix :: "source_protocol \<Rightarrow> string" where
  "protocol_prefix p = (if p = SRC_MODBUS_TCP then ''tcp'' else ''rtu'')"

definition default_device_id :: "source_protocol \<Rightarrow> u8 \<Rightarrow> u8 \<Rightarrow> string" where
  "default_device_id p ch sl = protocol_prefix p @ ''_ch'' @ dec (unat ch) @ ''_slave_'' @ dec2 (unat sl)"

definition raw_point_id :: "semantic_raw_point \<Rightarrow> string" where
  "raw_point_id p = ''raw_fc'' @ dec2 (unat (sp_function_code p)) @ ''_'' @ dec (unat (sp_address p))"

definition raw_point_name :: "semantic_raw_point \<Rightarrow> string" where
  "raw_point_name p = ''Raw FC'' @ dec2 (unat (sp_function_code p)) @ '' '' @ dec (unat (sp_address p))"

text \<open>The fields a raw entry has whoever edited it, and those that depend on it.\<close>

definition raw_common :: "semantic_device_features \<Rightarrow> semantic_raw_point \<Rightarrow> string option \<Rightarrow> amm_entry" where
  "raw_common d p device_id = zero_mapping
     \<lparr>m_source_protocol := sf_source_protocol d,
      m_channel_id := sf_channel_id d,
      m_slave_id := sf_slave_id d,
      m_function_code := sp_function_code p,
      m_object_type := object_of_function (sp_function_code p),
      m_register_address := sp_address p,
      m_data_type := (if sp_function_code p = 1 \<or> sp_function_code p = 2 then DT_BOOL else DT_UINT16),
      m_byte_order := BYTE_ORDER_ABCD,
      m_scale_factor := 0x3F800000,
      m_offset := 0,
      m_poll_interval_ms := 0,
      m_priority := 3,
      m_active := True,
      m_discovered := True,
      m_retry_count := 2,
      m_retry_backoff_ms := 50,
      m_read_start_address := (if sp_read_register_count p > 0 then sp_read_start_address p else sp_address p),
      m_read_register_count := (if sp_read_register_count p > 0 then sp_read_register_count p else 1),
      m_value_register_index := sp_value_register_index p,
      m_device_id := (if has_text device_id then strlcpy 32 (the device_id)
                      else strlcpy 32 (default_device_id (sf_source_protocol d) (sf_channel_id d) (sf_slave_id d))),
      m_point_id := strlcpy 32 (raw_point_id p)\<rparr>"

definition raw_edited :: "semantic_raw_point \<Rightarrow> amm_entry \<Rightarrow> amm_entry" where
  "raw_edited p e = e
     \<lparr>m_measurement_name := (if has_text (sp_name p) then strlcpy 32 (the (sp_name p)) else strlcpy 32 (raw_point_name p)),
      m_unit := (case sp_unit p of Some u \<Rightarrow> strlcpy 16 u | None \<Rightarrow> m_unit e),
      m_data_type := sp_data_type p,
      m_constraint := \<lparr>writable = sp_writable p, valid_range_min = sp_range_min p, valid_range_max = sp_range_max p\<rparr>,
      m_semantic_source := SEMANTIC_SOURCE_USER,
      m_semantic_status := SEMANTIC_STATUS_VERIFIED,
      m_semantic_confidence := 100,
      m_semantic_evidence := strlcpy 48 ''user edit via discovery editor''\<rparr>"

definition raw_unedited :: "semantic_device_identity \<Rightarrow> semantic_raw_point \<Rightarrow> amm_entry \<Rightarrow> amm_entry" where
  "raw_unedited identity p e = e
     \<lparr>m_measurement_name := strlcpy 32 (raw_point_name p),
      m_unit := [],
      m_constraint := \<lparr>writable = False, valid_range_min = fst (raw_range (sp_function_code p)),
                       valid_range_max = snd (raw_range (sp_function_code p))\<rparr>,
      m_semantic_source := SEMANTIC_SOURCE_DISCOVERY,
      m_semantic_status := SEMANTIC_STATUS_UNRESOLVED,
      m_semantic_confidence := si_confidence identity,
      m_semantic_evidence := strlcpy 48 (si_evidence identity)\<rparr>"

definition semantic_inference_build_raw_mapping ::
  "semantic_device_features \<Rightarrow> semantic_device_identity \<Rightarrow> semantic_raw_point \<Rightarrow> string option \<Rightarrow> amm_entry" where
  "semantic_inference_build_raw_mapping device identity p device_id =
     (let e = raw_common device p device_id;
          e = (if sp_user_edited p then raw_edited p e else raw_unedited identity p e)
      in e\<lparr>m_mqtt_topic := strlcpy 128 (''factory/data/'' @ m_device_id e @ ''/'' @ m_point_id e),
           m_semantic_profile_id := strlcpy 32 (si_profile_id identity),
           m_semantic_profile_version := 0\<rparr>)"

section \<open>Facts\<close>

text \<open>Every step of the hash can be undone: its multiplier has an inverse modulo \<open>2 ^ 32\<close>.\<close>

lemma fnv_prime_inverse: "(16777619 :: u32) * 899433627 = 1"
  by simp

lemma fnv_prime_cancel: "a * 16777619 = b * 16777619 \<longleftrightarrow> a = b" for a b :: u32
proof
  assume e: "a * 16777619 = b * 16777619"
  have undo: "x * 16777619 * 899433627 = x" for x :: u32
    by (simp only: mult.assoc fnv_prime_inverse mult_1_right)
  have "a = a * 16777619 * 899433627" by (rule undo [symmetric])
  also have "\<dots> = b" unfolding e by (rule undo)
  finally show "a = b" .
qed simp

lemma fnv_xor_cancel: "x XOR z = y XOR z \<longleftrightarrow> x = y" "z XOR x = z XOR y \<longleftrightarrow> x = y" for x y z :: u32
proof -
  show "x XOR z = y XOR z \<longleftrightarrow> x = y"
  proof
    assume "x XOR z = y XOR z"
    then have "(x XOR z) XOR z = (y XOR z) XOR z" by simp
    then show "x = y" by (simp add: xor.assoc)
  qed simp
  then show "z XOR x = z XOR y \<longleftrightarrow> x = y" by (simp only: xor.commute)
qed

lemma fnv1a_byte_cancel [simp]:
  "fnv1a_byte b h = fnv1a_byte b h' \<longleftrightarrow> h = h'"
  "fnv1a_byte b h = fnv1a_byte b' h \<longleftrightarrow> b = b'"
proof -
  show "fnv1a_byte b h = fnv1a_byte b h' \<longleftrightarrow> h = h'"
    by (simp only: fnv1a_byte_def fnv_prime_cancel fnv_xor_cancel)
  have "(ucast b :: u32) = ucast b' \<longleftrightarrow> b = b'"
  proof
    assume "(ucast b :: u32) = ucast b'"
    then have "uint (ucast b :: u32) = uint (ucast b' :: u32)" by simp
    moreover have "uint (ucast z :: u32) = uint z" for z :: u8
      using unsigned_less [of z, where 'a = int] by (simp add: unsigned_ucast_eq take_bit_int_eq_self)
    ultimately show "b = b'" by (simp add: word_uint_eq_iff)
  qed simp
  then show "fnv1a_byte b h = fnv1a_byte b' h \<longleftrightarrow> b = b'"
    by (simp only: fnv1a_byte_def fnv_prime_cancel fnv_xor_cancel)
qed

lemma fnv1a_bytes_cancel [simp]: "fnv1a_bytes h bs = fnv1a_bytes h' bs \<longleftrightarrow> h = h'"
  by (induction bs arbitrary: h h') (auto simp: fnv1a_bytes_def)

lemma fnv1a_string_cancel [simp]: "fnv1a_string h t = fnv1a_string h' t \<longleftrightarrow> h = h'"
  by (cases t) (simp_all add: fnv1a_string_def)

lemma register_hash_cancel:
  "fold (\<lambda>(fc, address) hash. fnv1a_bytes (fnv1a_bytes hash [fc]) (u16_memory address)) rs h =
   fold (\<lambda>(fc, address) hash. fnv1a_bytes (fnv1a_bytes hash [fc]) (u16_memory address)) rs h' \<longleftrightarrow> h = h'"
  by (induction rs arbitrary: h h') auto

lemma fingerprint_slave: "fingerprint_hash (f\<lparr>sf_slave_id := a\<rparr>) = fingerprint_hash (f\<lparr>sf_slave_id := b\<rparr>) \<longleftrightarrow> a = b"
  by (simp add: fingerprint_hash_def Let_def register_hash_cancel) (simp add: fnv1a_bytes_def)

lemma identity_text_fits:
  "length (hex False 8 n) < 17" "length (''unresolved-'' @ hex False 8 n) < 32"
  by simp_all

lemma hex8_inj: "hex False 8 (unat x) = hex False 8 (unat y) \<longleftrightarrow> x = y" for x y :: u32
proof
  assume e: "hex False 8 (unat x) = hex False 8 (unat y)"
  have "unat z < 16 ^ 8" for z :: u32 using unsigned_less [of z, where 'a = nat] by simp
  then have read: "hex_read 0 (hex False 8 (unat z)) = Some (unat z)" for z :: u32
    by (subst hex_read_hex) (assumption, simp)
  have "Some (unat x) = hex_read 0 (hex False 8 (unat y))" by (simp only: e read [of x, symmetric])
  also have "\<dots> = Some (unat y)" by (rule read)
  finally show "x = y" by (simp add: word_unat_eq_iff)
qed simp

text \<open>The physical point of a raw entry is that of the register; a point the user has not edited is read-only.\<close>

lemma raw_mapping_fields:
  "m_source_protocol (semantic_inference_build_raw_mapping d i p n) = sf_source_protocol d"
  "m_channel_id (semantic_inference_build_raw_mapping d i p n) = sf_channel_id d"
  "m_slave_id (semantic_inference_build_raw_mapping d i p n) = sf_slave_id d"
  "m_function_code (semantic_inference_build_raw_mapping d i p n) = sp_function_code p"
  "m_register_address (semantic_inference_build_raw_mapping d i p n) = sp_address p"
  "m_active (semantic_inference_build_raw_mapping d i p n)"
  "writable (m_constraint (semantic_inference_build_raw_mapping d i p n)) \<longleftrightarrow> sp_user_edited p \<and> sp_writable p"
  "m_semantic_source (semantic_inference_build_raw_mapping d i p n) =
     (if sp_user_edited p then SEMANTIC_SOURCE_USER else SEMANTIC_SOURCE_DISCOVERY)"
  by (simp_all add: semantic_inference_build_raw_mapping_def raw_common_def raw_edited_def raw_unedited_def Let_def)

section \<open>Properties\<close>

text \<open>
  Two devices without a profile that differ only in their slave address never get the same
  provisional profile: the fingerprint of the one is not that of the other, whatever registers they have.
\<close>

theorem fingerprints_differ:
  assumes "a \<noteq> b"
  shows "si_fingerprint (semantic_inference_identify (Some (f\<lparr>sf_slave_id := a\<rparr>))) \<noteq>
      si_fingerprint (semantic_inference_identify (Some (f\<lparr>sf_slave_id := b\<rparr>))) \<and>
    si_profile_id (semantic_inference_identify (Some (f\<lparr>sf_slave_id := a\<rparr>))) \<noteq>
      si_profile_id (semantic_inference_identify (Some (f\<lparr>sf_slave_id := b\<rparr>)))"
  using assms by (simp add: semantic_inference_identify_def Let_def hex8_inj fingerprint_slave)

lemma fingerprints_differ_witness:
  "si_fingerprint (semantic_inference_identify (Some
     \<lparr>sf_source_protocol = SRC_MODBUS_RTU, sf_channel_id = 0, sf_slave_id = 1, sf_vendor_name = None,
      sf_product_code = None, sf_revision = None, sf_probe_function_code = 3, sf_probe_address = 1,
      sf_registers = [(3, 1)]\<rparr>)) \<noteq>
   si_fingerprint (semantic_inference_identify (Some
     \<lparr>sf_source_protocol = SRC_MODBUS_RTU, sf_channel_id = 0, sf_slave_id = 2, sf_vendor_name = None,
      sf_product_code = None, sf_revision = None, sf_probe_function_code = 3, sf_probe_address = 1,
      sf_registers = [(3, 1)]\<rparr>))"
  using fingerprints_differ [of 1 2 "\<lparr>sf_source_protocol = SRC_MODBUS_RTU, sf_channel_id = 0, sf_slave_id = 1,
      sf_vendor_name = None, sf_product_code = None, sf_revision = None, sf_probe_function_code = 3,
      sf_probe_address = 1, sf_registers = [(3, 1)]\<rparr>"] by simp

end
