(* ===== verification/Discovery_Full.thy ===== *)
theory Discovery_Full
  imports Discovery_Scan
begin

text \<open>
  The full scan (\<open>modbus/modbus_discover.c\<close>): the bus, then the registers of each device that answered, then the
  registers the embedded profile knows for a slave and the linear scan missed. The profile is what \<open>cJSON\<close> makes of
  the embedded text. The results: what is in the table after a scan of the bus has answered, and the registers of a
  scanned device are in the range of the scan, in order, each read in the window kept with it.
\<close>

section \<open>Profiles\<close>

definition u8_of_f64 :: "(f64 \<Rightarrow> int) \<Rightarrow> f64 \<Rightarrow> u8" where "u8_of_f64 ub x = word_of_int (conv ub 0 256 x)"
definition u16_of_f64 :: "(f64 \<Rightarrow> int) \<Rightarrow> f64 \<Rightarrow> u16" where "u16_of_f64 ub x = word_of_int (conv ub 0 65536 x)"
definition u32_of_f64 :: "(f64 \<Rightarrow> int) \<Rightarrow> f64 \<Rightarrow> u32" where "u32_of_f64 ub x = word_of_int (conv ub 0 (2 ^ 32) x)"

definition text_item :: "string \<Rightarrow> json \<Rightarrow> string option" where
  "text_item name j = (case cjson_item name j of Some (JStr t) \<Rightarrow> Some t | _ \<Rightarrow> None)"

definition number_item :: "string \<Rightarrow> json \<Rightarrow> f64 option" where
  "number_item name j = (case cjson_item name j of Some (JNum x) \<Rightarrow> Some x | _ \<Rightarrow> None)"

definition array_item :: "string \<Rightarrow> json \<Rightarrow> json list option" where
  "array_item name j = (case cjson_item name j of Some (JArr xs) \<Rightarrow> Some xs | _ \<Rightarrow> None)"

definition profile_data_type :: "string option \<Rightarrow> data_type" where
  "profile_data_type name =
     (case name of
        None \<Rightarrow> DT_UINT16
      | Some t \<Rightarrow>
          (if t = ''INT16'' then DT_INT16 else if t = ''FLOAT32'' then DT_FLOAT32 else if t = ''INT32'' then DT_INT32
           else if t = ''UINT32'' then DT_UINT32 else if t = ''BOOL'' then DT_BOOL else if t = ''INT64'' then DT_INT64
           else if t = ''UINT64'' then DT_UINT64 else if t = ''FLOAT64'' then DT_FLOAT64
           else if t = ''BCD16'' then DT_BCD16 else if t = ''BITFIELD16'' then DT_BITFIELD16
           else if t = ''ASCII'' then DT_ASCII else DT_UINT16))"

definition profile_byte_order :: "string option \<Rightarrow> byte_order" where
  "profile_byte_order name =
     (if name = Some ''CDAB'' then BYTE_ORDER_CDAB else if name = Some ''BADC'' then BYTE_ORDER_BADC
      else if name = Some ''DCBA'' then BYTE_ORDER_DCBA else BYTE_ORDER_ABCD)"

definition profile_type_width :: "data_type \<Rightarrow> nat" where
  "profile_type_width t =
     (if t = DT_FLOAT32 \<or> t = DT_INT32 \<or> t = DT_UINT32 then 2
      else if t = DT_FLOAT64 \<or> t = DT_INT64 \<or> t = DT_UINT64 then 4 else 1)"

definition profile_protocol_allows :: "json \<Rightarrow> string option \<Rightarrow> source_protocol \<Rightarrow> bool" where
  "profile_protocol_allows device default_protocol protocol =
     (let want = (if protocol = SRC_MODBUS_TCP then ''TCP'' else ''RTU'')
      in case array_item ''protocols'' device of
           Some (x # xs) \<Rightarrow> list_ex (\<lambda>j. case j of JStr t \<Rightarrow> same_name t want | _ \<Rightarrow> False) (x # xs)
         | _ \<Rightarrow> (case default_protocol of Some t \<Rightarrow> same_name t want | None \<Rightarrow> True))"

definition profile_slave_is :: "(f64 \<Rightarrow> int) \<Rightarrow> json \<Rightarrow> u8 \<Rightarrow> bool" where
  "profile_slave_is ub device slave =
     (case number_item ''slave_id'' device of Some x \<Rightarrow> u8_of_f64 ub x = slave | None \<Rightarrow> False)"

definition profile_function :: "(f64 \<Rightarrow> int) \<Rightarrow> json \<Rightarrow> u8" where
  "profile_function ub reg = (case number_item ''function_code'' reg of Some x \<Rightarrow> u8_of_f64 ub x | None \<Rightarrow> 3)"

definition discovered_has_register :: "discovered_device \<Rightarrow> u16 \<Rightarrow> u8 \<Rightarrow> bool" where
  "discovered_has_register dev address fc =
     list_ex (\<lambda>r. dr_valid r \<and>
         (dr_register_address r = address \<or> dr_register_address r = modbus_register_offset fc address) \<and>
         dr_function_code r = fc) (dd_registers dev)"

section \<open>Probing what the profile knows\<close>

definition probe_profile_register ::
  "discover_env \<Rightarrow> json \<Rightarrow> discovered_device \<times> discover_state \<Rightarrow> discovered_device \<times> discover_state" where
  "probe_profile_register env reg = (\<lambda>(dev, s).
     (case number_item ''address'' reg of
        None \<Rightarrow> (dev, s)
      | Some x \<Rightarrow>
          (let addr = u16_of_f64 (de_ub env) x; fc = profile_function (de_ub env) reg
           in if fc < 1 \<or> fc > 4 \<or> discovered_has_register dev addr fc then (dev, s)
           else
             let width = profile_type_width (profile_data_type (text_item ''data_type'' reg));
                 width = (if width = 0 then 1 else width);
                 width = (if width > DISCOVER_MAX_BLOCK_REGS then DISCOVER_MAX_BLOCK_REGS else width)
             in if unat addr + width > 65536 then (dev, s)
             else
               let (s, err, words) = discover_read_registers env (dd_source_protocol dev) (dd_channel_id dev)
                     (dd_slave_id dev) fc addr width s
               in if err \<noteq> ESP_OK then (dev, s)
               else append_points None fc addr (word_of_nat width) (enumerate 0 (take width (probe_values words))) (dev, s))))"

fun probe_profile_registers ::
  "discover_env \<Rightarrow> json list \<Rightarrow> discovered_device \<times> discover_state \<Rightarrow> discovered_device \<times> discover_state" where
  "probe_profile_registers env [] ds = ds"
| "probe_profile_registers env (r # rs) ds =
     (if length (dd_registers (fst ds)) \<ge> DISCOVER_MAX_REGS_PER_SLAVE then ds
      else probe_profile_registers env rs (probe_profile_register env r ds))"

fun probe_profile_devices ::
  "discover_env \<Rightarrow> string option \<Rightarrow> json list \<Rightarrow> discovered_device \<times> discover_state \<Rightarrow> discovered_device \<times> discover_state" where
  "probe_profile_devices env default_protocol [] ds = ds"
| "probe_profile_devices env default_protocol (p # ps) ds =
     (if length (dd_registers (fst ds)) \<ge> DISCOVER_MAX_REGS_PER_SLAVE then ds
      else if \<not> profile_slave_is (de_ub env) p (dd_slave_id (fst ds)) \<or>
              \<not> profile_protocol_allows p default_protocol (dd_source_protocol (fst ds))
      then probe_profile_devices env default_protocol ps ds
      else case array_item ''registers'' p of
          None \<Rightarrow> probe_profile_devices env default_protocol ps ds
        | Some rs \<Rightarrow> probe_profile_devices env default_protocol ps (probe_profile_registers env rs ds))"

definition profile_guided_register_probe ::
  "discover_env \<Rightarrow> json list option \<Rightarrow> string option \<Rightarrow> discovered_device \<Rightarrow> discover_state \<Rightarrow> discovered_device \<times> discover_state" where
  "profile_guided_register_probe env profile_devices default_protocol dev s =
     (case profile_devices of
        Some ps \<Rightarrow> (if dd_active dev then probe_profile_devices env default_protocol ps (dev, s) else (dev, s))
      | None \<Rightarrow> (dev, s))"

section \<open>The full scan\<close>

text \<open>A device that answered outside the range is scanned over as many addresses from where it answered.\<close>

definition device_range :: "scan_params \<Rightarrow> discovered_device \<Rightarrow> u16 \<times> u16" where
  "device_range params dev =
     (if dd_probe_register_count dev > 0 \<and>
         (dd_probe_address dev < ps_reg_start params \<or> dd_probe_address dev > ps_reg_end params)
      then
        let candidate = unat (dd_probe_address dev) + (unat (ps_reg_end params) - unat (ps_reg_start params))
        in (dd_probe_address dev, if candidate > 65535 then 65535 else word_of_nat candidate)
      else (ps_reg_start params, ps_reg_end params))"

definition scan_one ::
  "discover_env \<Rightarrow> scan_params \<Rightarrow> json list option \<Rightarrow> string option \<Rightarrow> nat \<Rightarrow> discover_state \<Rightarrow> discover_state \<times> esp_err" where
  "scan_one env params profile_devices default_protocol i s =
     (let dev = dv_devices s ! i; (lo, hi) = device_range params dev;
          (s, err) = modbus_discover_scan_device env (dd_slave_id dev) lo hi s
      in if err = ESP_ERR_NOT_FOUND then
           (set_result (\<lambda>r. r\<lparr>rs_devices_found := (if rs_devices_found r > 0 then rs_devices_found r - 1 else rs_devices_found r),
              rs_slaves_skipped := rs_slaves_skipped r + 1\<rparr>) s, ESP_OK)
         else if err \<noteq> ESP_OK then (s, err)
         else
           let (dev, s) = profile_guided_register_probe env profile_devices default_protocol (dv_devices s ! i) s
           in (s\<lparr>dv_devices := (dv_devices s)[i := dev]\<rparr>, ESP_OK))"

fun scan_all ::
  "discover_env \<Rightarrow> scan_params \<Rightarrow> json list option \<Rightarrow> string option \<Rightarrow> nat list \<Rightarrow> discover_state \<Rightarrow> discover_state \<times> esp_err" where
  "scan_all env params profile_devices default_protocol [] s = (s, ESP_OK)"
| "scan_all env params profile_devices default_protocol (i # is) s =
     (if \<not> dd_active (dv_devices s ! i) then scan_all env params profile_devices default_protocol is s
      else
        let (s, err) = scan_one env params profile_devices default_protocol i s
        in if err \<noteq> ESP_OK then (s, err) else scan_all env params profile_devices default_protocol is s)"

definition embedded_profile :: "discover_env \<Rightarrow> json list option \<times> string option" where
  "embedded_profile env =
     (case de_profile env of
        None \<Rightarrow> (None, None)
      | Some root \<Rightarrow>
          (case array_item ''devices'' root of
             None \<Rightarrow> (None, None)
           | Some ps \<Rightarrow> (Some ps, text_item ''source_protocol'' root)))"

definition full_scan_sync :: "discover_env \<Rightarrow> scan_params \<Rightarrow> discover_state \<Rightarrow> discover_state \<times> esp_err" where
  "full_scan_sync env params s =
     (let s = set_result (\<lambda>r. r\<lparr>rs_registers_found := 0, rs_mappings_created := 0\<rparr>) s;
          (s, err) = scan_bus_sync env params s
      in if err \<noteq> ESP_OK then (s, err)
      else
        let (profile_devices, default_protocol) = embedded_profile env;
            (s, err) = scan_all env params profile_devices default_protocol [0..<length (dv_devices s)] s
        in if err \<noteq> ESP_OK then (s, err)
        else
          let devices = filter dd_active (dv_devices s)
          in (set_result (\<lambda>r. r\<lparr>rs_devices_found := word_of_nat (length devices)\<rparr>) (s\<lparr>dv_devices := devices\<rparr>), ESP_OK))"

definition full_scan_task :: "discover_env \<Rightarrow> discover_state \<Rightarrow> discover_state" where
  "full_scan_task env s = bus_exclusively (full_scan_sync env (dv_request s)) s"

definition default_params :: scan_params where
  "default_params = \<lparr>ps_slave_start = 1, ps_slave_end = 247, ps_reg_start = 0, ps_reg_end = 100,
     ps_source_protocol = SRC_MODBUS_RTU, ps_channel_id = 0, ps_function_codes = [1, 2, 3, 4], ps_fc_count = 4,
     ps_max_empty_gap = DISCOVER_DEFAULT_EMPTY_GAP\<rparr>"

definition modbus_discover_full_scan :: "discover_env \<Rightarrow> scan_params option \<Rightarrow> discover_state \<Rightarrow> discover_state \<times> esp_err" where
  "modbus_discover_full_scan env params s =
     (if dv_task s \<or> rs_scan_in_progress (dv_result s) then (s, ESP_ERR_INVALID_STATE)
      else if dv_capacity s = 0 then (s, ESP_ERR_NO_MEM)
      else
        let p = discover_default_functions (case params of Some p \<Rightarrow> p | None \<Rightarrow> default_params)
        in if ps_slave_start p < 1 \<or> ps_slave_end p > 247 \<or> ps_slave_start p > ps_slave_end p \<or>
              ps_reg_start p > ps_reg_end p
        then (s\<lparr>dv_request := p\<rparr>, ESP_ERR_INVALID_ARG)
        else
          let p = (if ps_max_empty_gap p > 64 then p\<lparr>ps_max_empty_gap := 64\<rparr> else p)
          in create_task env (s\<lparr>dv_request := p,
               dv_result := zero_result\<lparr>rs_device_capacity := word_of_nat (dv_capacity s), rs_scan_in_progress := True,
                 rs_phase := DISCOVER_PHASE_BUS_SCAN, rs_last_error := ESP_OK\<rparr>\<rparr>))"

section \<open>Accessors\<close>

definition modbus_discover_get_result :: "discover_state \<Rightarrow> discover_result" where
  "modbus_discover_get_result s = dv_result s"

definition modbus_discover_get_device :: "u16 \<Rightarrow> discover_state \<Rightarrow> discovered_device option" where
  "modbus_discover_get_device i s = (if unat i \<ge> length (dv_devices s) then None else Some (dv_devices s ! unat i))"

definition modbus_discover_get_device_count :: "discover_state \<Rightarrow> u16" where
  "modbus_discover_get_device_count s = word_of_nat (length (dv_devices s))"

definition modbus_discover_get_capacity :: "discover_state \<Rightarrow> u16" where
  "modbus_discover_get_capacity s = word_of_nat (dv_capacity s)"

section \<open>What a scanned register is\<close>

definition register_in_window :: "discovered_register \<Rightarrow> bool" where
  "register_in_window r \<longleftrightarrow>
     unat (dr_register_address r) = unat (dr_read_start_address r) + unat (dr_value_register_index r) \<and>
     unat (dr_value_register_index r) < unat (dr_read_register_count r) \<and>
     unat (dr_read_register_count r) \<le> DISCOVER_MAX_BLOCK_REGS"

definition registers_scanned :: "nat \<Rightarrow> nat \<Rightarrow> discovered_register list \<Rightarrow> bool" where
  "registers_scanned lo hi rs \<longleftrightarrow>
     length rs \<le> DISCOVER_MAX_REGS_PER_SLAVE \<and> sorted_wrt (\<lambda>a b. dr_register_address a < dr_register_address b) rs \<and>
     (\<forall>r \<in> set rs. lo \<le> unat (dr_register_address r) \<and> unat (dr_register_address r) \<le> hi \<and> register_in_window r)"

text \<open>\<open>below\<close>: the scan has reached this address.\<close>

definition scan_inv :: "nat \<Rightarrow> nat \<Rightarrow> nat \<Rightarrow> discovered_device \<Rightarrow> bool" where
  "scan_inv lo hi below dev \<longleftrightarrow> registers_scanned lo hi (dd_registers dev) \<and>
     (\<forall>r \<in> set (dd_registers dev). unat (dr_register_address r) < below)"

lemma scan_inv_probe [simp]: "scan_inv lo hi b (adopt_probe p dev) = scan_inv lo hi b dev"
  by (simp add: scan_inv_def adopt_probe_def)

lemma scan_inv_mono: "scan_inv lo hi b dev \<Longrightarrow> b \<le> b' \<Longrightarrow> scan_inv lo hi b' dev"
  by (auto simp: scan_inv_def)

lemma scan_inv_append:
  assumes "scan_inv lo hi (unat point) dev" "length (dd_registers dev) < DISCOVER_MAX_REGS_PER_SLAVE"
    "lo \<le> unat point" "unat point \<le> hi" "unat point = unat start + unat index" "index < n" "unat n \<le> DISCOVER_MAX_BLOCK_REGS"
  shows "scan_inv lo hi (Suc (unat point)) (fst (discover_append_register fc point v start n index (dev, s)))"
  using assms
  by (auto simp: scan_inv_def registers_scanned_def discover_append_register_def Let_def split_beta sorted_wrt_append
      register_in_window_def word_less_nat_alt less_Suc_eq)

lemma append_points_inv:
  assumes "scan_inv lo hi (unat address + k) (fst ds)" "lo \<le> unat address"
    "unat address + k + length vs \<le> 65536" "k + length vs \<le> unat n" "unat n \<le> DISCOVER_MAX_BLOCK_REGS"
  shows "scan_inv lo hi (unat address + k + length vs) (fst (append_points (Some hi) fc address n (enumerate k vs) ds))"
  using assms
proof (induction vs arbitrary: k ds)
  case Nil
  then show ?case by simp
next
  case (Cons v vs)
  obtain dev s where ds: "ds = (dev, s)" by (cases ds)
  have k: "k < 65536" "unat (word_of_nat k :: u16) = k" "unat (word_of_nat k :: u8) = k"
    using Cons.prems by (simp_all add: unat_of_nat take_bit_nat_eq_self)
  have p: "unat (address + word_of_nat k) = unat address + k"
    using Cons.prems k by (simp add: unat_word_ariths)
  show ?case
  proof (cases "length (dd_registers dev) \<ge> DISCOVER_MAX_REGS_PER_SLAVE \<or> unat address + k > hi")
    case True
    then have "append_points (Some hi) fc address n (enumerate k (v # vs)) ds = ds"
      using p by (auto simp: ds Let_def)
    then show ?thesis using Cons.prems(1) by (auto intro: scan_inv_mono)
  next
    case False
    let ?ds = "discover_append_register fc (address + word_of_nat k) v address n (word_of_nat k) ds"
    have "scan_inv lo hi (Suc (unat (address + word_of_nat k))) (fst ?ds)"
      unfolding ds
      by (rule scan_inv_append) (use False Cons.prems k p in \<open>auto simp: ds word_less_nat_alt\<close>)
    then have "scan_inv lo hi (unat address + Suc k) (fst ?ds)" by (simp only: p add_Suc_right)
    from Cons.IH [OF this] Cons.prems
    have "scan_inv lo hi (unat address + Suc k + length vs) (fst (append_points (Some hi) fc address n (enumerate (Suc k) vs) ?ds))"
      by simp
    then show ?thesis using False p by (simp add: ds Let_def)
  qed
qed

lemma length_probe_values [simp]: "length (probe_values words) = DISCOVER_MAX_BLOCK_REGS"
  by (cases words) (simp_all add: probe_values_def)

lemma try_reads_values: "try_reads env params slave address ps s = (s', Some p) \<Longrightarrow> length (pb_values p) = DISCOVER_MAX_BLOCK_REGS"
  by (induction env params slave address ps s rule: try_reads.induct) (auto split: prod.splits if_splits)

lemma scan_read_window:
  assumes "scan_read env slave reg_end address dev s = (s', Some p)" "address \<le> reg_end" "reg_end < 65536"
  shows "length (pb_values p) = DISCOVER_MAX_BLOCK_REGS" "address + unat (pb_register_count p) \<le> 65536"
proof -
  have a: "unat (word_of_nat address :: u16) = address" using assms by (simp add: unat_of_nat take_bit_nat_eq_self)
  show "length (pb_values p) = DISCOVER_MAX_BLOCK_REGS"
    using assms(1)
    by (auto simp: scan_read_def Let_def discover_probe_address_def split: if_splits prod.splits dest: try_reads_values)
  show "address + unat (pb_register_count p) \<le> 65536"
  proof (cases "dd_registers dev \<noteq> [] \<and> min (unat (dd_probe_register_count dev)) (min DISCOVER_MAX_BLOCK_REGS (reg_end - address + 1)) > 0")
    case True
    then have "unat (pb_register_count p) \<le> reg_end - address + 1"
      using assms(1) by (auto simp: scan_read_def Let_def split: if_splits prod.splits)
    then show ?thesis using assms(2,3) by simp
  next
    case False
    let ?s = "discover_set_register_progress slave (dd_probe_function_code dev) (word_of_nat address) s"
    have "discover_probe_address env (dv_request ?s) slave (word_of_nat address) (dd_probe_function_code dev)
        (min (unat (dd_probe_register_count dev)) (min DISCOVER_MAX_BLOCK_REGS (reg_end - address + 1))) ?s = (s', Some p)"
      using assms(1) False unfolding scan_read_def Let_def by (simp only: if_False)
    from probe_address_count(3) [OF this] show ?thesis using a by simp
  qed
qed

lemma scan_registers_inv:
  assumes "scan_inv lo reg_end address dev" "reg_end < 65536" "lo \<le> address"
  shows "\<exists>b. scan_inv lo reg_end b (fst (scan_registers env slave reg_end address gap dev s))"
  using assms
proof (induction env slave reg_end address gap dev s rule: scan_registers.induct)
  case (1 env slave reg_end address gap dev s)
  show ?case
  proof (cases "address \<le> reg_end \<and> length (dd_registers dev) < DISCOVER_MAX_REGS_PER_SLAVE")
    case False
    then show ?thesis using "1.prems" by (subst scan_registers.simps) auto
  next
    case True
    obtain s' r where r: "scan_read env slave reg_end address dev s = (s', r)" by (meson surj_pair)
    show ?thesis
    proof (cases r)
      case None
      have next_address: "scan_inv lo reg_end (Suc address) dev" using "1.prems"(1) by (auto intro: scan_inv_mono)
      show ?thesis
        using "1.IH"(1) [of s' r "Suc gap"] "1.IH"(1) [of s' r gap] "1.prems" True r None next_address
        by (subst scan_registers.simps) (auto simp: Let_def)
    next
      case (Some p)
      note r' = r [unfolded Some]
      have count: "unat (pb_register_count p) \<le> DISCOVER_MAX_BLOCK_REGS" "pb_address p = word_of_nat address"
        using scan_read_count [OF r'] by auto
      have a: "unat (pb_address p) = address"
        using True "1.prems"(2) count(2) by (simp add: unat_of_nat take_bit_nat_eq_self)
      note w = scan_read_window [OF r' _ "1.prems"(2)]
      let ?vs = "take (unat (pb_register_count p)) (pb_values p)"
      have l: "length ?vs = unat (pb_register_count p)" using w(1) True count(1) by simp
      obtain dev' s'' where ap: "append_points (Some reg_end) (pb_function_code p) (pb_address p) (pb_register_count p)
          (enumerate 0 ?vs) (adopt_probe p dev, s') = (dev', s'')" by (meson surj_pair)
      have "scan_inv lo reg_end (unat (pb_address p) + 0 + length ?vs) (fst (append_points (Some reg_end) (pb_function_code p)
          (pb_address p) (pb_register_count p) (enumerate 0 ?vs) (adopt_probe p dev, s')))"
        by (rule append_points_inv) (use "1.prems" a l w(2) True count in simp_all)
      then have inv': "scan_inv lo reg_end (address + unat (pb_register_count p)) dev'"
        unfolding ap l a by simp
      show ?thesis
        using "1.IH"(2) [of s' r p dev' s''] True r Some ap inv' "1.prems"
        by (subst scan_registers.simps) simp
    qed
  qed
qed

section \<open>What answers\<close>

text \<open>Some read of the slave ends with \<open>err\<close>.\<close>

definition read_ends :: "discover_env \<Rightarrow> source_protocol \<Rightarrow> u8 \<Rightarrow> u8 \<Rightarrow> esp_err \<Rightarrow> bool" where
  "read_ends env protocol channel slave err \<longleftrightarrow>
     (\<exists>k fc address n a. fst (snd (modbus_read_channel (de_access env k) protocol channel slave fc address n a)) = err)"

definition has_answered :: "discover_env \<Rightarrow> scan_params \<Rightarrow> u8 \<Rightarrow> bool" where
  "has_answered env params slave \<longleftrightarrow>
     read_ends env (ps_source_protocol params) (ps_channel_id params) slave ESP_OK \<or>
     ps_source_protocol params = SRC_MODBUS_RTU \<and>
       read_ends env (ps_source_protocol params) (ps_channel_id params) slave ESP_ERR_INVALID_RESPONSE"

lemma discover_read_ends:
  "discover_read_registers env protocol channel slave fc address n s = (s', err, words) \<Longrightarrow> read_ends env protocol channel slave err"
  unfolding discover_read_registers_def read_ends_def by (metis (no_types, lifting) case_prod_beta fst_conv snd_conv)

lemma read_frame:
  "discover_read_registers env protocol channel slave fc address n s = (s', r) \<Longrightarrow>
     dv_devices s' = dv_devices s \<and> dv_capacity s' = dv_capacity s \<and> dv_request s' = dv_request s"
  by (auto simp: discover_read_registers_def split: prod.splits)

lemma probe_functions_answer:
  assumes "probe_functions env params slave address fcs invalid s = (s', invalid', r)"
  shows "dv_devices s' = dv_devices s \<and> dv_capacity s' = dv_capacity s \<and> dv_request s' = dv_request s \<and>
    (r \<noteq> None \<longrightarrow> read_ends env (ps_source_protocol params) (ps_channel_id params) slave ESP_OK) \<and>
    (invalid < invalid' \<longrightarrow> read_ends env (ps_source_protocol params) (ps_channel_id params) slave ESP_ERR_INVALID_RESPONSE)"
  using assms
proof (induction fcs arbitrary: invalid s)
  case Nil
  then show ?case by simp
next
  case (Cons fc fcs)
  obtain s1 err words where r: "discover_read_registers env (ps_source_protocol params) (ps_channel_id params) slave fc address 1 s
      = (s1, err, words)" by (metis prod_cases3)
  note e = discover_read_ends [OF r] and f = read_frame [OF r]
  show ?case
  proof (cases "err = ESP_OK")
    case True
    then show ?thesis using Cons.prems e f r by auto
  next
    case False
    then have "probe_functions env params slave address fcs (if err = ESP_ERR_INVALID_RESPONSE then Suc invalid else invalid) s1
        = (s', invalid', r)" using Cons.prems r by simp
    from Cons.IH [OF this] e f False show ?thesis by (auto split: if_splits)
  qed
qed

lemma probe_addresses_answer:
  assumes "probe_addresses env params slave fcs first as invalid s = (s', invalid', r)"
  shows "dv_devices s' = dv_devices s \<and> dv_capacity s' = dv_capacity s \<and> dv_request s' = dv_request s \<and>
    (r \<noteq> None \<longrightarrow> read_ends env (ps_source_protocol params) (ps_channel_id params) slave ESP_OK) \<and>
    (invalid < invalid' \<longrightarrow> read_ends env (ps_source_protocol params) (ps_channel_id params) slave ESP_ERR_INVALID_RESPONSE)"
  using assms
proof (induction as arbitrary: first invalid s)
  case Nil
  then show ?case by simp
next
  case (Cons a as)
  obtain s1 invalid1 r1 where p: "probe_functions env params slave a fcs invalid s = (s1, invalid1, r1)" by (metis prod_cases3)
  note f = probe_functions_answer [OF p]
  show ?case
  proof (cases "r1 = None \<and> \<not> (first \<and> invalid1 = 0)")
    case True
    then have "probe_addresses env params slave fcs False as invalid1 s1 = (s', invalid', r)"
      using Cons.prems p by (auto split: if_splits)
    from Cons.IH [OF this] f show ?thesis by (metis not_less_iff_gr_or_eq order.strict_trans)
  next
    case False
    then show ?thesis using Cons.prems p f by (auto split: option.splits if_splits)
  qed
qed

lemma probe_device_answer:
  assumes "discover_probe_device env params slave s = (s', r)"
  shows "dv_devices s' = dv_devices s \<and> dv_capacity s' = dv_capacity s \<and> dv_request s' = dv_request s \<and>
    (r \<noteq> None \<longrightarrow> has_answered env params slave)"
proof -
  define as where "as = fold append_unique ([1, 0] @ common_register_entries) [ps_reg_start params]"
  define fcs where "fcs = build_function_order params 0"
  obtain s1 invalid r1 where p: "probe_addresses env params slave fcs True as 0 s = (s1, invalid, r1)" by (metis prod_cases3)
  have "discover_probe_device env params slave s =
      (s1, case r1 of Some p \<Rightarrow> Some p
         | None \<Rightarrow> if ps_source_protocol params = SRC_MODBUS_RTU \<and> invalid \<ge> 2
                   then Some \<lparr>pb_function_code = fcs ! 0, pb_address = ps_reg_start params, pb_register_count = 0,
                              pb_values = replicate DISCOVER_MAX_BLOCK_REGS 0\<rparr> else None)"
    using p by (simp add: discover_probe_device_def Let_def as_def fcs_def split: option.splits)
  then show ?thesis
    using assms probe_addresses_answer [OF p] by (auto simp: has_answered_def split: option.splits if_splits)
qed

text \<open>The devices found so far, \<open>next_id\<close> the address to try next.\<close>

definition table_ok :: "discover_env \<Rightarrow> scan_params \<Rightarrow> nat \<Rightarrow> nat \<Rightarrow> discover_state \<Rightarrow> bool" where
  "table_ok env params lo next_id s \<longleftrightarrow>
     length (dv_devices s) \<le> dv_capacity s \<and>
     sorted_wrt (\<lambda>a b. dd_slave_id a < dd_slave_id b) (dv_devices s) \<and>
     (\<forall>d \<in> set (dv_devices s). lo \<le> unat (dd_slave_id d) \<and> unat (dd_slave_id d) < next_id \<and> dd_active d \<and>
        dd_source_protocol d = ps_source_protocol params \<and> dd_channel_id d = ps_channel_id params \<and>
        has_answered env params (dd_slave_id d))"

lemma table_ok_frame:
  "dv_devices s' = dv_devices s \<Longrightarrow> dv_capacity s' = dv_capacity s \<Longrightarrow> table_ok env params lo k s \<Longrightarrow> k \<le> k' \<Longrightarrow>
     table_ok env params lo k' s'"
  by (auto simp: table_ok_def)

lemma found_device_ok:
  assumes "table_ok env params lo k s" "has_answered env params (word_of_nat k)" "k < 256" "lo \<le> k"
  shows "table_ok env params lo (Suc k) (found_device env params (word_of_nat k) p s)"
proof -
  have u: "unat (word_of_nat k :: u8) = k" using assms(3) by (simp add: unat_of_nat take_bit_nat_eq_self)
  show ?thesis
  proof (cases "length (dv_devices s) < dv_capacity s")
    case False
    then show ?thesis using assms(1) by (auto simp: found_device_def intro: table_ok_frame)
  next
    case True
    show ?thesis
      using assms True u
      by (auto simp: found_device_def Let_def table_ok_def sorted_wrt_append word_less_nat_alt less_Suc_eq split: prod.splits)
  qed
qed

lemma scan_slaves_ok:
  assumes "table_ok env params lo k s" "lo \<le> k" "k \<le> m" "m \<le> 256"
  shows "table_ok env params lo m (scan_slaves env params start [k..<m] s)"
  using assms
proof (induction "m - k" arbitrary: k s)
  case 0
  then show ?case by simp
next
  case (Suc n)
  then have k: "[k..<m] = k # [Suc k..<m]" "k < 256" by (simp_all add: upt_conv_Cons)
  obtain s1 r where p: "discover_probe_device env params (word_of_nat k) s = (s1, r)" by (meson surj_pair)
  note a = probe_device_answer [OF p]
  let ?t = "discover_set_bus_progress (word_of_nat k) (word_of_nat (k - start + 1))
      (case r of Some p \<Rightarrow> found_device env params (word_of_nat k) p s1 | None \<Rightarrow> s1)"
  have "table_ok env params lo (Suc k) (case r of Some p \<Rightarrow> found_device env params (word_of_nat k) p s1 | None \<Rightarrow> s1)"
    using a k(2) Suc.prems
    by (auto split: option.splits intro: found_device_ok table_ok_frame [where s = s])
  then have "table_ok env params lo (Suc k) ?t"
    by (rule table_ok_frame [rotated 2]) (simp_all add: discover_set_bus_progress_def set_result_def)
  from Suc.hyps(1) [OF _ this] Suc.hyps(2) Suc.prems
  show ?case by (simp add: k(1) p)
qed

section \<open>What a device scan leaves alone\<close>

lemma try_reads_devices: "try_reads env params slave address ps s = (s', r) \<Longrightarrow> dv_devices s' = dv_devices s"
  by (induction env params slave address ps s rule: try_reads.induct) (auto split: prod.splits if_splits dest: read_frame)

lemma probe_address_devices: "discover_probe_address env params slave address fc n s = (s', r) \<Longrightarrow> dv_devices s' = dv_devices s"
  unfolding discover_probe_address_def by (rule try_reads_devices)

lemma append_register_frame [simp]:
  "dv_devices (snd (discover_append_register fc point v start n index ds)) = dv_devices (snd ds)"
  by (simp add: discover_append_register_def Let_def set_result_def split: prod.splits)

lemma append_points_devices [simp]: "dv_devices (snd (append_points limit fc address n vs ds)) = dv_devices (snd ds)"
  by (induction limit fc address n vs ds rule: append_points.induct) (simp_all add: Let_def)

lemma scan_read_devices: "scan_read env slave reg_end address dev s = (s', r) \<Longrightarrow> dv_devices s' = dv_devices s"
  by (auto simp: scan_read_def Let_def discover_set_register_progress_def set_result_def split: if_splits prod.splits
      dest: read_frame probe_address_devices)

lemma scan_registers_devices: "dv_devices (snd (scan_registers env slave reg_end address gap dev s)) = dv_devices s"
proof (induction env slave reg_end address gap dev s rule: scan_registers.induct)
  case (1 env slave reg_end address gap dev s)
  show ?case
  proof (cases "address \<le> reg_end \<and> length (dd_registers dev) < DISCOVER_MAX_REGS_PER_SLAVE")
    case False
    then show ?thesis by (subst scan_registers.simps) auto
  next
    case True
    obtain s' r where r: "scan_read env slave reg_end address dev s = (s', r)" by (meson surj_pair)
    note d = scan_read_devices [OF r]
    show ?thesis
    proof (cases r)
      case None
      then show ?thesis
        using "1.IH"(1) [of s' r "Suc gap"] "1.IH"(1) [of s' r gap] True r d
        by (subst scan_registers.simps) (auto simp: Let_def)
    next
      case (Some p)
      let ?a = "append_points (Some reg_end) (pb_function_code p) (pb_address p) (pb_register_count p)
          (enumerate 0 (take (unat (pb_register_count p)) (pb_values p))) (adopt_probe p dev, s')"
      show ?thesis
        using "1.IH"(2) [of s' r p "fst ?a" "snd ?a"] True r Some d
        by (subst scan_registers.simps) (simp add: split_beta)
    qed
  qed
qed

section \<open>Properties\<close>

text \<open>
  C28. A scan of the bus leaves in the table, in the order of their addresses and each once, only slaves of the
  scanned range that have answered: with data, or, on the serial bus only, with an exception. A silent slave is never
  in the table, and the exception of a TCP gateway puts none there.
\<close>

theorem discovered_slaves_answered:
  assumes "scan_bus_sync env params s = (s', ESP_OK)"
  shows "length (dv_devices s') \<le> dv_capacity s' \<and>
    sorted_wrt (\<lambda>a b. dd_slave_id a < dd_slave_id b) (dv_devices s') \<and>
    (\<forall>d \<in> set (dv_devices s').
       max 1 (unat (ps_slave_start params)) \<le> unat (dd_slave_id d) \<and>
       unat (dd_slave_id d) \<le> min 247 (unat (ps_slave_end params)) \<and>
       (read_ends env (ps_source_protocol params) (ps_channel_id params) (dd_slave_id d) ESP_OK \<or>
        ps_source_protocol params = SRC_MODBUS_RTU \<and>
        read_ends env (ps_source_protocol params) (ps_channel_id params) (dd_slave_id d) ESP_ERR_INVALID_RESPONSE))"
proof -
  define lo where "lo = (if ps_slave_start params < 1 then 1 else unat (ps_slave_start params))"
  define hi where "hi = (if ps_slave_end params > 247 then 247 else unat (ps_slave_end params))"
  let ?s = "(set_result (\<lambda>r. r\<lparr>rs_phase := DISCOVER_PHASE_BUS_SCAN, rs_total_scanned := word_of_nat (hi - lo + 1),
      rs_slaves_scanned := 0, rs_current_slave := word_of_nat lo\<rparr>) s)\<lparr>dv_devices := []\<rparr>"
  have s': "lo \<le> hi" "s' = scan_slaves env params lo [lo..<Suc hi] ?s"
    using assms by (auto simp: scan_bus_sync_def Let_def lo_def hi_def split: if_splits)
  have b: "lo = max 1 (unat (ps_slave_start params))" "hi = min 247 (unat (ps_slave_end params))"
    by (auto simp: lo_def hi_def word_less_nat_alt)
  have "table_ok env params lo (Suc hi) s'"
    unfolding s'(2) by (rule scan_slaves_ok) (use s'(1) b in \<open>auto simp: table_ok_def\<close>)
  then show ?thesis unfolding table_ok_def has_answered_def b by auto
qed

text \<open>
  C32. Once modbus_discover_scan_device has scanned a device, the registers of the device are in the range of the scan
  and at most 32, in increasing order of their addresses with none twice, and each lies in the window kept with it, at
  the place kept with it; the other devices are as before. (The registers that a full scan adds afterwards from a
  profile are not covered: its probe can append registers that are there already.)
\<close>

theorem scanned_registers_sound:
  assumes "modbus_discover_scan_device env slave reg_start reg_end s = (s', ESP_OK)"
  shows "\<exists>i < length (dv_devices s). dd_slave_id (dv_devices s ! i) = slave \<and>
    (\<exists>dev. dv_devices s' = (dv_devices s)[i := dev] \<and>
       registers_scanned (unat reg_start) (unat reg_end) (dd_registers dev))"
proof -
  obtain i where i: "find_slot (\<lambda>d. dd_slave_id d = slave \<and> dd_source_protocol d = ps_source_protocol (dv_request s) \<and>
      dd_channel_id d = ps_channel_id (dv_request s) \<and> dd_active d) (dv_devices s) = Some i"
    using assms by (auto simp: modbus_discover_scan_device_def split: option.splits)
  let ?dev = "dv_devices s ! i"
  obtain s1 r where probe: "(if dd_probe_register_count ?dev > 0
      then discover_probe_address env (dv_request s) slave (dd_probe_address ?dev) (dd_probe_function_code ?dev)
             (unat (dd_probe_register_count ?dev)) s
      else discover_probe_device env (dv_request s) slave s) = (s1, r)" by (meson surj_pair)
  have d: "dv_devices s1 = dv_devices s"
    using probe by (auto split: if_splits dest: probe_address_devices probe_device_answer)
  obtain p where p: "r = Some p"
    using assms i probe by (cases r) (auto simp: modbus_discover_scan_device_def Let_def)
  define s2 where "s2 = s1\<lparr>dv_request := discover_default_functions (dv_request s1)\<rparr>"
  define start where "start = (adopt_probe p ?dev)\<lparr>dd_registers := []\<rparr>"
  obtain dev s3 where scan: "scan_registers env slave (unat reg_end) (unat reg_start) 0 start s2 = (dev, s3)"
    by (meson surj_pair)
  have s': "s' = s3\<lparr>dv_devices := (dv_devices s3)[i := dev]\<rparr>"
    using assms i probe p scan
    by (simp add: modbus_discover_scan_device_def Let_def start_def s2_def)
  have "unat reg_end < 2 ^ LENGTH(16)" by (rule unsigned_less)
  moreover have "scan_inv (unat reg_start) (unat reg_end) (unat reg_start) start"
    by (simp add: start_def scan_inv_def registers_scanned_def)
  ultimately obtain b where "scan_inv (unat reg_start) (unat reg_end) b dev"
    using scan_registers_inv [of "unat reg_start" "unat reg_end" "unat reg_start" start env slave 0 s2] scan by auto
  then have "registers_scanned (unat reg_start) (unat reg_end) (dd_registers dev)" by (simp add: scan_inv_def)
  moreover have "dv_devices s3 = dv_devices s2"
    using scan_registers_devices [of env slave "unat reg_end" "unat reg_start" 0 start s2] by (simp only: scan snd_conv)
  then have "dv_devices s3 = dv_devices s" using d by (simp add: s2_def)
  ultimately show ?thesis using i s' by (auto dest: find_slot_SomeD)
qed

section \<open>A bus with one slave\<close>

text \<open>Slave 1 answers the read of its first holding register; nothing else answers.\<close>

definition demo_bus :: discover_env where
  "demo_bus = \<lparr>de_access = (\<lambda>_. \<lparr>x_master = (\<lambda>req p. (if mb_slave_addr req = 1 \<and> mb_reg_start req = 0 \<and> mb_reg_size req = 1
         then ESP_OK else ESP_ERR_TIMEOUT, p)),
       x_net = \<lparr>net_resolves = True, net_socket = True, net_connects = True, net_sends = [], net_recvs = (\<lambda>_. [])\<rparr>,
       x_config = load_defaults, x_alloc = True, x_lock = True,
       x_log_env = \<lparr>env_alloc = True, env_take = True, env_uptime_ms = 0, env_wall_ms = None\<rparr>\<rparr>),
     de_psram = True, de_psram_alloc = True, de_internal_alloc = True, de_task = (True, True), de_profile = None,
     de_ub = (\<lambda>_. 0)\<rparr>"

definition demo_params :: scan_params where
  "demo_params = \<lparr>ps_slave_start = 1, ps_slave_end = 2, ps_reg_start = 40001, ps_reg_end = 40001,
     ps_source_protocol = SRC_MODBUS_RTU, ps_channel_id = 0, ps_function_codes = [3, 0, 0, 0], ps_fc_count = 1,
     ps_max_empty_gap = 32\<rparr>"

definition demo_discover :: discover_state where
  "demo_discover = \<lparr>dv_devices = [], dv_capacity = 100, dv_result = zero_result,
     dv_apply = \<lparr>ra_semantic_mappings = 0, ra_raw_mappings = 0, ra_profile_devices = 0, ra_unresolved_devices = 0\<rparr>,
     dv_task = False, dv_bus_request = (1, 2), dv_request = demo_params, dv_access = idle_access, dv_reads = 0,
     dv_paused = False\<rparr>"

definition bus_ready :: "discover_state \<Rightarrow> bool" where
  "bus_ready s \<longleftrightarrow> a_initialised (dv_access s) \<and> a_mutex (dv_access s)"

lemma demo_read:
  assumes "bus_ready s"
  shows "\<exists>s' words. discover_read_registers demo_bus SRC_MODBUS_RTU 0 slave 3 40001 1 s =
      (s', if slave = 1 then ESP_OK else ESP_ERR_TIMEOUT, words) \<and> bus_ready s'"
  using assms
  by (simp add: discover_read_registers_def demo_bus_def modbus_read_channel_def modbus_read_registers_internal_def
      modbus_lock_def modbus_register_offset_def bus_ready_def Let_def log_frame_def)

lemma demo_orders: "build_function_order demo_params 0 = [3]" "build_function_order demo_params 3 = [3]" "build_count_order (Suc 0) = [1, 2, 4, 8]"
  by (simp_all add: build_function_order_def build_count_order_def demo_params_def append_unique_def)

lemma demo_probe:
  assumes "bus_ready s"
  shows "\<exists>s' words. discover_probe_device demo_bus demo_params slave s =
      (s', if slave = 1 then Some \<lparr>pb_function_code = 3, pb_address = 40001, pb_register_count = 1, pb_values = words\<rparr> else None)
      \<and> bus_ready s'"
proof -
  obtain s' words where r: "discover_read_registers demo_bus SRC_MODBUS_RTU 0 slave 3 40001 1 s =
      (s', if slave = 1 then ESP_OK else ESP_ERR_TIMEOUT, words)" "bus_ready s'" using demo_read [OF assms] by blast
  obtain as where as: "fold append_unique ([1, 0] @ common_register_entries) [40001 :: u16] = 40001 # as"
    by (simp add: append_unique_def common_register_entries_def)
  have p: "ps_reg_start demo_params = 40001" "ps_source_protocol demo_params = SRC_MODBUS_RTU" "ps_channel_id demo_params = 0"
    by (simp_all add: demo_params_def)
  show ?thesis
    unfolding discover_probe_device_def p as demo_orders Let_def
    using r by (cases "slave = 1") (simp_all add: p)
qed

lemma demo_scan: "\<exists>s'. scan_bus_sync demo_bus demo_params demo_discover = (s', ESP_OK) \<and> length (dv_devices s') = 1"
proof -
  let ?s = "(set_result (\<lambda>r. r\<lparr>rs_phase := DISCOVER_PHASE_BUS_SCAN, rs_total_scanned := 2, rs_slaves_scanned := 0,
      rs_current_slave := 1\<rparr>) demo_discover)\<lparr>dv_devices := []\<rparr>"
  have "bus_ready ?s" by (simp add: bus_ready_def demo_discover_def set_result_def idle_access_def)
  then obtain s1 words where p1: "discover_probe_device demo_bus demo_params 1 ?s =
      (s1, Some \<lparr>pb_function_code = 3, pb_address = 40001, pb_register_count = 1, pb_values = words\<rparr>)" "bus_ready s1"
    using demo_probe [of ?s 1] by auto
  have d1: "dv_devices s1 = []" "dv_capacity s1 = 100"
    using probe_device_answer [OF p1(1)] by (simp_all add: set_result_def demo_discover_def)
  let ?s2 = "discover_set_bus_progress 1 1 (found_device demo_bus demo_params 1
      \<lparr>pb_function_code = 3, pb_address = 40001, pb_register_count = 1, pb_values = words\<rparr> s1)"
  have f: "bus_ready ?s2" "length (dv_devices ?s2) = 1"
    using p1(2) d1
    by (simp_all add: found_device_def discover_set_bus_progress_def set_result_def bus_ready_def Let_def demo_params_def
        modbus_read_device_identity_channel_def)
  obtain s3 where p2: "discover_probe_device demo_bus demo_params 2 ?s2 = (s3, None)"
    using demo_probe [OF f(1), of 2] by auto
  have "dv_devices s3 = dv_devices ?s2" using probe_device_answer [OF p2] by simp
  then show ?thesis
    using f(2) p1(1) p2
    by (simp add: scan_bus_sync_def demo_params_def [THEN arg_cong [where f = ps_slave_start]]
        demo_params_def [THEN arg_cong [where f = ps_slave_end]] demo_discover_def [THEN arg_cong [where f = dv_capacity]]
        upt_rec Let_def discover_set_bus_progress_def [of 2] set_result_def)
qed

lemma discovered_slaves_answered_witness:
  "\<exists>s'. scan_bus_sync demo_bus demo_params demo_discover = (s', ESP_OK) \<and> length (dv_devices s') = 1 \<and>
     (\<forall>d \<in> set (dv_devices s'). unat (dd_slave_id d) \<le> 2)"
proof -
  obtain s' where s': "scan_bus_sync demo_bus demo_params demo_discover = (s', ESP_OK)" "length (dv_devices s') = 1"
    using demo_scan by blast
  then show ?thesis using discovered_slaves_answered [OF s'(1)] by (auto simp: demo_params_def)
qed

definition demo_device :: discovered_device where
  "demo_device = \<lparr>dd_slave_id = 1, dd_source_protocol = SRC_MODBUS_RTU, dd_channel_id = 0, dd_device_id = ''rtu_ch0_slave_01'',
     dd_name = [], dd_description = [], dd_vendor_name = [], dd_product_code = [], dd_revision = [],
     dd_mqtt_topic_prefix = [], dd_probe_function_code = 3, dd_probe_address = 40001, dd_probe_register_count = 1,
     dd_registers = [], dd_active = True\<rparr>"

lemma demo_probe_address:
  assumes "bus_ready s"
  shows "\<exists>s' words. discover_probe_address demo_bus demo_params 1 40001 3 (Suc 0) s =
      (s', Some \<lparr>pb_function_code = 3, pb_address = 40001, pb_register_count = 1, pb_values = words\<rparr>) \<and> bus_ready s'"
proof -
  obtain s' words where r: "discover_read_registers demo_bus SRC_MODBUS_RTU 0 1 3 40001 1 s = (s', ESP_OK, words)" "bus_ready s'"
    using demo_read [OF assms, of 1] by auto
  have p: "ps_source_protocol demo_params = SRC_MODBUS_RTU" "ps_channel_id demo_params = 0" by (simp_all add: demo_params_def)
  show ?thesis using r by (simp add: discover_probe_address_def demo_orders p)
qed

lemma scanned_registers_sound_witness:
  "\<exists>s'. modbus_discover_scan_device demo_bus 1 40001 40001 (demo_discover\<lparr>dv_devices := [demo_device]\<rparr>) = (s', ESP_OK) \<and>
     registers_scanned 40001 40001 (dd_registers (hd (dv_devices s')))"
proof -
  let ?s = "demo_discover\<lparr>dv_devices := [demo_device]\<rparr>"
  have ready: "bus_ready ?s" by (simp add: bus_ready_def demo_discover_def idle_access_def)
  obtain s1 words where p: "discover_probe_address demo_bus demo_params 1 40001 3 (Suc 0) ?s =
      (s1, Some \<lparr>pb_function_code = 3, pb_address = 40001, pb_register_count = 1, pb_values = words\<rparr>)"
    using demo_probe_address [OF ready] by blast
  have "\<exists>s'. modbus_discover_scan_device demo_bus 1 40001 40001 ?s = (s', ESP_OK)"
    using p by (simp add: modbus_discover_scan_device_def Let_def demo_device_def demo_discover_def
        demo_params_def [THEN arg_cong [where f = ps_source_protocol]] demo_params_def [THEN arg_cong [where f = ps_channel_id]]
        split: prod.splits)
  then obtain s' where s': "modbus_discover_scan_device demo_bus 1 40001 40001 ?s = (s', ESP_OK)" by blast
  from scanned_registers_sound [OF s'] show ?thesis using s' by auto
qed

end
