(* ===== verification/Discovery_Apply.thy ===== *)
theory Discovery_Apply
  imports Discovery_Full
begin

text \<open>
  What becomes of the discovered devices (\<open>modbus/modbus_discover.c\<close>, second half): the match with the embedded
  profile, the import of the profile's points and of the raw points of the devices no profile knows, and the edits of
  the user, which are written through to the mapping model. The results: applying a discovery never overwrites the
  semantics a user gave a point, and never makes a point writable that neither the profile nor the user made so.
\<close>

section \<open>The profile of a device\<close>

definition profile_matches_discovered_device :: "(f64 \<Rightarrow> int) \<Rightarrow> json \<Rightarrow> discovered_device \<Rightarrow> string option \<Rightarrow> bool" where
  "profile_matches_discovered_device ub p dev default_protocol \<longleftrightarrow>
     (case array_item ''registers'' p of
        None \<Rightarrow> False
      | Some rs \<Rightarrow>
          profile_slave_is ub p (dd_slave_id dev) \<and>
          profile_protocol_allows p default_protocol (dd_source_protocol dev) \<and>
          length (filter (\<lambda>r. case number_item ''address'' r of
                Some x \<Rightarrow> discovered_has_register dev (u16_of_f64 ub x) (profile_function ub r) | None \<Rightarrow> False) rs) \<ge> 2)"

definition find_profile_device :: "(f64 \<Rightarrow> int) \<Rightarrow> json list \<Rightarrow> discovered_device \<Rightarrow> string option \<Rightarrow> json option" where
  "find_profile_device ub ps dev default_protocol =
     List.find (\<lambda>p. profile_matches_discovered_device ub p dev default_protocol) ps"

definition profile_copy_string :: "json \<Rightarrow> string \<Rightarrow> nat \<Rightarrow> string" where
  "profile_copy_string object key n = (case text_item key object of Some t \<Rightarrow> strlcpy n t | None \<Rightarrow> [])"

definition profile_number :: "json \<Rightarrow> string \<Rightarrow> f32 \<Rightarrow> f32" where
  "profile_number object key fallback = (case number_item key object of Some x \<Rightarrow> f32_of_f64 x | None \<Rightarrow> fallback)"

definition profile_entry :: "(f64 \<Rightarrow> int) \<Rightarrow> json \<Rightarrow> json \<Rightarrow> discovered_device \<Rightarrow> json \<Rightarrow> u16 \<Rightarrow> amm_entry" where
  "profile_entry ub root p dev reg address =
     (let fc = profile_function ub reg;
          dt = profile_data_type (text_item ''data_type'' reg);
          device_id = (if dd_source_protocol dev = SRC_MODBUS_RTU then profile_copy_string p ''device_id'' 32 else []);
          device_id = (if device_id = []
            then strlcpy 32 (default_device_id (dd_source_protocol dev) (dd_channel_id dev) (dd_slave_id dev)) else device_id);
          point_id = profile_copy_string reg ''point_id'' 32;
          point_id = (if point_id = [] then strlcpy 32 (''register_'' @ dec (unat address)) else point_id);
          name = profile_copy_string reg ''name'' 32;
          name = (if name = [] then strlcpy 32 point_id else name)
      in zero_mapping
       \<lparr>m_source_protocol := dd_source_protocol dev,
        m_channel_id := dd_channel_id dev,
        m_slave_id := dd_slave_id dev,
        m_function_code := fc,
        m_object_type := object_of_function fc,
        m_register_address := address,
        m_data_type := dt,
        m_byte_order := profile_byte_order (text_item ''byte_order'' reg),
        m_scale_factor := profile_number reg ''scale'' 0x3F800000,
        m_offset := profile_number reg ''offset'' 0,
        m_poll_interval_ms := (case number_item ''poll_interval_ms'' p of Some x \<Rightarrow> u32_of_f64 ub x | None \<Rightarrow> 0),
        m_priority := (case number_item ''priority'' p of Some x \<Rightarrow> u8_of_f64 ub x | None \<Rightarrow> 5),
        m_read_start_address := address,
        m_read_register_count := word_of_nat (profile_type_width dt),
        m_value_register_index := 0,
        m_active := True,
        m_discovered := True,
        m_retry_count := 2,
        m_retry_backoff_ms := 50,
        m_semantic_source := SEMANTIC_SOURCE_PROFILE,
        m_semantic_status := SEMANTIC_STATUS_VERIFIED,
        m_semantic_confidence := 100,
        m_semantic_profile_id := profile_copy_string root ''name'' 32,
        m_semantic_profile_version := (case number_item ''profile_version'' root of Some x \<Rightarrow> u32_of_f64 ub x | None \<Rightarrow> 1),
        m_semantic_evidence := strlcpy 48 ''device fingerprint + register profile'',
        m_device_id := device_id,
        m_point_id := point_id,
        m_measurement_name := name,
        m_unit := profile_copy_string reg ''unit'' 16,
        m_mqtt_topic := strlcpy 128 (''factory/data/'' @ device_id @ ''/'' @ point_id),
        m_constraint := \<lparr>writable = (cjson_item ''writable'' reg = Some (JBool True)),
          valid_range_min = profile_number reg ''minimum'' 0xC7000000,
          valid_range_max = profile_number reg ''maximum'' 0x477FFF00\<rparr>\<rparr>)"

definition profile_entries :: "(f64 \<Rightarrow> int) \<Rightarrow> json \<Rightarrow> json \<Rightarrow> discovered_device \<Rightarrow> amm_entry list" where
  "profile_entries ub root p dev =
     concat (map (\<lambda>reg. case number_item ''address'' reg of
           Some x \<Rightarrow> [profile_entry ub root p dev reg (u16_of_f64 ub x)] | None \<Rightarrow> [])
       (case array_item ''registers'' p of Some rs \<Rightarrow> rs | None \<Rightarrow> []))"

text \<open>The devices in their order: which ones a profile matches, and the entries, no more than the capacity.\<close>

fun match_devices ::
  "(f64 \<Rightarrow> int) \<Rightarrow> json \<Rightarrow> json list \<Rightarrow> string option \<Rightarrow> nat \<Rightarrow> discovered_device list \<Rightarrow> amm_entry list
    \<Rightarrow> bool list \<times> amm_entry list" where
  "match_devices ub root ps default_protocol capacity [] es = ([], es)"
| "match_devices ub root ps default_protocol capacity (d # ds) es =
     (if length es \<ge> capacity then (map (\<lambda>_. False) (d # ds), es)
      else case (if dd_active d then find_profile_device ub ps d default_protocol else None) of
          None \<Rightarrow> (let (ms, es) = match_devices ub root ps default_protocol capacity ds es in (False # ms, es))
        | Some p \<Rightarrow>
            (let (ms, es) = match_devices ub root ps default_protocol capacity ds (take capacity (es @ profile_entries ub root p d))
             in (True # ms, es)))"

text \<open>The memory and the NVS of the two imports.\<close>

record apply_env =
  pe_entries_alloc :: bool
  pe_raw_alloc :: bool
  pe_current_alloc :: bool
  pe_amm :: amm_env
  pe_staging :: bool
  pe_raw_amm :: amm_env
  pe_raw_staging :: bool

definition no_match :: "discover_state \<Rightarrow> bool list" where
  "no_match s = map (\<lambda>_. False) (dv_devices s)"

text \<open>What of the profile applies: the devices it matches and their entries.\<close>

definition profile_match :: "discover_env \<Rightarrow> apply_env \<Rightarrow> nat \<Rightarrow> discover_state \<Rightarrow> (bool list \<times> amm_entry list) option" where
  "profile_match env penv capacity s =
     (case de_profile env of
        None \<Rightarrow> None
      | Some root \<Rightarrow>
          (case array_item ''devices'' root of
             None \<Rightarrow> None
           | Some ps \<Rightarrow>
               (if pe_entries_alloc penv
                then Some (match_devices (de_ub env) root ps (text_item ''source_protocol'' root) capacity (dv_devices s) [])
                else None)))"

definition apply_embedded_semantic_profile ::
  "discover_env \<Rightarrow> apply_env \<Rightarrow> discover_state \<times> amm_state \<Rightarrow> (discover_state \<times> amm_state) \<times> bool list \<times> nat" where
  "apply_embedded_semantic_profile env penv = (\<lambda>(s, m).
     (case profile_match env penv (amm_get_capacity m) s of
        None \<Rightarrow> ((s, m), no_match s, 0)
      | Some (matched, es) \<Rightarrow>
          (let (m, err, imported) = (if es = [] then (m, ESP_ERR_NOT_FOUND, 0)
                 else amm_import_mappings (pe_amm penv) (pe_staging penv) (Some es) True m);
               (matched, imported) = (if err \<noteq> ESP_OK then (no_match s, 0) else (matched, imported));
               s = s\<lparr>dv_apply := (dv_apply s)\<lparr>ra_profile_devices := word_of_nat (length (filter id matched)),
                     ra_semantic_mappings := word_of_nat imported\<rparr>\<rparr>
           in ((s, m), matched, imported))))"

section \<open>Raw points\<close>

definition same_device :: "amm_entry \<Rightarrow> discovered_device \<Rightarrow> bool" where
  "same_device e d \<longleftrightarrow> m_source_protocol e = dd_source_protocol d \<and> m_channel_id e = dd_channel_id d \<and> m_slave_id e = dd_slave_id d"

definition unresolved :: "bool list \<Rightarrow> discovered_device list \<Rightarrow> discovered_device list" where
  "unresolved matched ds = map fst (filter (\<lambda>(d, matched). dd_active d \<and> \<not> matched) (zip ds matched))"

text \<open>The room for raw points: what is free, and what the points of the unknown devices take now.\<close>

definition raw_capacity :: "apply_env \<Rightarrow> bool list \<Rightarrow> discover_state \<Rightarrow> amm_state \<Rightarrow> nat" where
  "raw_capacity penv matched s m =
     (if \<not> pe_raw_alloc penv then 0
      else
        let capacity = amm_get_capacity m;
            current = (if pe_current_alloc penv then amm_get_entries (int capacity) m else []);
            active_count = (if pe_current_alloc penv then length current else amm_get_mapping_count m);
            replaceable = length (filter (\<lambda>e. list_ex (same_device e) (unresolved matched (dv_devices s))) current)
        in nat (int capacity - int active_count + int replaceable))"

definition features_of :: "discovered_device \<Rightarrow> semantic_device_features" where
  "features_of d = \<lparr>sf_source_protocol = dd_source_protocol d, sf_channel_id = dd_channel_id d, sf_slave_id = dd_slave_id d,
     sf_vendor_name = Some (dd_vendor_name d), sf_product_code = Some (dd_product_code d), sf_revision = Some (dd_revision d),
     sf_probe_function_code = dd_probe_function_code d, sf_probe_address = dd_probe_address d,
     sf_registers = map (\<lambda>r. (dr_function_code r, dr_register_address r)) (filter dr_valid (dd_registers d))\<rparr>"

definition raw_point_of :: "discovered_register \<Rightarrow> semantic_raw_point" where
  "raw_point_of r = \<lparr>sp_function_code = dr_function_code r, sp_address = dr_register_address r, sp_raw_value = dr_raw_value r,
     sp_read_start_address = dr_read_start_address r, sp_read_register_count = dr_read_register_count r,
     sp_value_register_index = dr_value_register_index r, sp_user_edited = dr_user_edited r,
     sp_name = Some (dr_inferred_name r), sp_unit = Some (dr_inferred_unit r), sp_data_type = dr_inferred_type r,
     sp_writable = dr_writable r, sp_range_min = dr_range_min r, sp_range_max = dr_range_max r\<rparr>"

definition raw_entries :: "discovered_device \<Rightarrow> amm_entry list" where
  "raw_entries d =
     (let identity = semantic_inference_identify (Some (features_of d))
      in map (\<lambda>r. semantic_inference_build_raw_mapping (features_of d) identity (raw_point_of r) (Some (dd_device_id d)))
           (filter dr_valid (dd_registers d)))"

text \<open>A device whose points do not fit any more is left out.\<close>

fun collect_raw :: "bool \<Rightarrow> nat \<Rightarrow> discovered_device list \<Rightarrow> amm_entry list \<Rightarrow> amm_entry list" where
  "collect_raw alloc capacity [] es = es"
| "collect_raw alloc capacity (d # ds) es =
     (if \<not> alloc \<or> length es + length (filter dr_valid (dd_registers d)) > capacity then collect_raw alloc capacity ds es
      else collect_raw alloc capacity ds (es @ raw_entries d))"

definition import_raw :: "apply_env \<Rightarrow> amm_entry list \<Rightarrow> amm_state \<Rightarrow> amm_state \<times> nat" where
  "import_raw penv es m =
     (if es = [] then (m, 0)
      else case amm_import_mappings (pe_raw_amm penv) (pe_raw_staging penv) (Some es) True m of
          (m, err, imported) \<Rightarrow> (m, if err = ESP_OK then imported else 0))"

definition modbus_discover_apply_mappings ::
  "discover_env \<Rightarrow> apply_env \<Rightarrow> discover_state \<times> amm_state \<Rightarrow> (discover_state \<times> amm_state) \<times> nat" where
  "modbus_discover_apply_mappings env penv = (\<lambda>(s, m).
     (let s = s\<lparr>dv_apply := \<lparr>ra_semantic_mappings = 0, ra_raw_mappings = 0, ra_profile_devices = 0, ra_unresolved_devices = 0\<rparr>\<rparr>;
          ((s, m), matched, created) = apply_embedded_semantic_profile env penv (s, m);
          ds = unresolved matched (dv_devices s);
          es = collect_raw (pe_raw_alloc penv) (raw_capacity penv matched s m) ds [];
          (m, imported) = import_raw penv es m;
          s = s\<lparr>dv_apply := (dv_apply s)\<lparr>ra_unresolved_devices := word_of_nat (length ds), ra_raw_mappings := word_of_nat imported\<rparr>\<rparr>;
          s = set_result (\<lambda>r. r\<lparr>rs_mappings_created := rs_mappings_created r + word_of_nat (created + imported)\<rparr>) s
      in ((s, m), created + imported)))"

definition modbus_discover_get_apply_result :: "discover_state \<Rightarrow> discover_apply_result" where
  "modbus_discover_get_apply_result s = dv_apply s"

section \<open>Edits\<close>

definition modbus_discover_find_device :: "u8 \<Rightarrow> discover_state \<Rightarrow> nat option" where
  "modbus_discover_find_device slave s = find_slot (\<lambda>d. dd_slave_id d = slave \<and> dd_active d) (dv_devices s)"

definition set_device :: "nat \<Rightarrow> discovered_device \<Rightarrow> discover_state \<Rightarrow> discover_state" where
  "set_device i d s = s\<lparr>dv_devices := (dv_devices s)[i := d]\<rparr>"

definition modbus_discover_update_device ::
  "u8 \<Rightarrow> string option \<Rightarrow> string option \<Rightarrow> string option \<Rightarrow> discover_state \<Rightarrow> discover_state \<times> esp_err" where
  "modbus_discover_update_device slave device_id name topic s =
     (case modbus_discover_find_device slave s of
        None \<Rightarrow> (s, ESP_ERR_NOT_FOUND)
      | Some i \<Rightarrow>
          (let d = dv_devices s ! i;
               d = (if has_text device_id then d\<lparr>dd_device_id := strlcpy 32 (the device_id)\<rparr> else d);
               d = (case name of Some t \<Rightarrow> d\<lparr>dd_name := strlcpy 48 t\<rparr> | None \<Rightarrow> d);
               d = (case topic of Some t \<Rightarrow> d\<lparr>dd_mqtt_topic_prefix := strlcpy 64 t\<rparr> | None \<Rightarrow> d)
           in (set_device i d s, ESP_OK)))"

definition modbus_discover_find_register :: "u8 \<Rightarrow> u16 \<Rightarrow> discover_state \<Rightarrow> (nat \<times> nat) option" where
  "modbus_discover_find_register slave address s =
     (case modbus_discover_find_device slave s of
        None \<Rightarrow> None
      | Some i \<Rightarrow> map_option (Pair i) (find_slot (\<lambda>r. dr_register_address r = address) (dd_registers (dv_devices s ! i))))"

definition set_register :: "nat \<Rightarrow> nat \<Rightarrow> discovered_register \<Rightarrow> discover_state \<Rightarrow> discover_state" where
  "set_register i j r s =
     set_device i ((dv_devices s ! i)\<lparr>dd_registers := (dd_registers (dv_devices s ! i))[j := r]\<rparr>) s"

record register_edit =
  re_name :: "string option"
  re_unit :: "string option"
  re_data_type :: data_type
  re_writable :: bool
  re_range_min :: f32
  re_range_max :: f32

definition edit_register :: "register_edit \<Rightarrow> discovered_register \<Rightarrow> discovered_register" where
  "edit_register e r = r
     \<lparr>dr_inferred_name := (case re_name e of Some t \<Rightarrow> strlcpy 32 t | None \<Rightarrow> dr_inferred_name r),
      dr_inferred_unit := (case re_unit e of Some t \<Rightarrow> strlcpy 16 t | None \<Rightarrow> dr_inferred_unit r),
      dr_inferred_type := re_data_type e, dr_writable := re_writable e, dr_range_min := re_range_min e,
      dr_range_max := re_range_max e, dr_user_edited := True\<rparr>"

definition edit_entry :: "register_edit \<Rightarrow> amm_entry \<Rightarrow> amm_entry" where
  "edit_entry e x = x
     \<lparr>m_measurement_name := (if has_text (re_name e) then strlcpy 32 (the (re_name e)) else m_measurement_name x),
      m_unit := (case re_unit e of Some t \<Rightarrow> strlcpy 16 t | None \<Rightarrow> m_unit x),
      m_data_type := re_data_type e,
      m_constraint := \<lparr>writable = re_writable e, valid_range_min = re_range_min e, valid_range_max = re_range_max e\<rparr>,
      m_semantic_source := SEMANTIC_SOURCE_USER,
      m_semantic_status := SEMANTIC_STATUS_VERIFIED,
      m_semantic_confidence := 100,
      m_semantic_evidence := strlcpy 48 ''user edit via discovery editor''\<rparr>"

text \<open>The edit is written through to the mapping of the point, if it has one; a failure of that is only logged.\<close>

definition modbus_discover_update_register ::
  "amm_env \<Rightarrow> u8 \<Rightarrow> u16 \<Rightarrow> register_edit \<Rightarrow> discover_state \<times> amm_state \<Rightarrow> (discover_state \<times> amm_state) \<times> esp_err" where
  "modbus_discover_update_register env slave address e = (\<lambda>(s, m).
     (case modbus_discover_find_register slave address s of
        None \<Rightarrow> ((s, m), ESP_ERR_NOT_FOUND)
      | Some (i, j) \<Rightarrow>
          (let d = dv_devices s ! i; r = edit_register e (dd_registers d ! j)
           in case amm_find_mapping_for_object (dd_source_protocol d, dd_channel_id d, slave, dr_function_code r, address) m of
                None \<Rightarrow> ((set_register i j r s, m), ESP_OK)
              | Some x \<Rightarrow> ((set_register i j r s, fst (amm_add_mapping env (Some (edit_entry e x)) m)), ESP_OK))))"

definition modbus_discover_toggle_register :: "u8 \<Rightarrow> u16 \<Rightarrow> discover_state \<Rightarrow> discover_state \<times> esp_err \<times> bool option" where
  "modbus_discover_toggle_register slave address s =
     (case modbus_discover_find_register slave address s of
        None \<Rightarrow> (s, ESP_ERR_NOT_FOUND, None)
      | Some (i, j) \<Rightarrow>
          (let r = dd_registers (dv_devices s ! i) ! j
           in (set_register i j (r\<lparr>dr_valid := \<not> dr_valid r\<rparr>) s, ESP_OK, Some (\<not> dr_valid r))))"

definition modbus_discover_delete_register :: "u8 \<Rightarrow> u16 \<Rightarrow> discover_state \<Rightarrow> discover_state \<times> esp_err" where
  "modbus_discover_delete_register slave address s =
     (case modbus_discover_find_register slave address s of
        None \<Rightarrow> (s, ESP_ERR_NOT_FOUND)
      | Some (i, j) \<Rightarrow>
          (let d = dv_devices s ! i; rs = dd_registers d
           in (set_result (\<lambda>r. r\<lparr>rs_registers_found := (if rs_registers_found r > 0 then rs_registers_found r - 1 else rs_registers_found r)\<rparr>)
                 (set_device i (d\<lparr>dd_registers := take j rs @ drop (Suc j) rs\<rparr>) s), ESP_OK)))"

end
