(* ===== verification/Discovery_Safety.thy ===== *)
theory Discovery_Safety
  imports Discovery_Apply
begin

text \<open>
  What applying a discovery guarantees, across the discovery module and the mapping model it imports into: the
  semantics the user gave a point are not overwritten, and no point becomes writable that neither the profile, nor the
  user, nor the table had made writable.
\<close>

section \<open>One import\<close>

definition has_semantics :: "amm_entry \<Rightarrow> amm_entry \<Rightarrow> bool" where
  "has_semantics u x \<longleftrightarrow> m_semantic_source x = SEMANTIC_SOURCE_USER \<and> m_semantic_status x = m_semantic_status u \<and>
     m_data_type x = m_data_type u \<and> m_byte_order x = m_byte_order u \<and> m_scale_factor x = m_scale_factor u \<and>
     m_offset x = m_offset u \<and> m_poll_interval_ms x = m_poll_interval_ms u \<and> m_constraint x = m_constraint u \<and>
     strlcpy 32 (m_device_id x) = strlcpy 32 (m_device_id u) \<and> strlcpy 32 (m_point_id x) = strlcpy 32 (m_point_id u) \<and>
     strlcpy 32 (m_measurement_name x) = strlcpy 32 (m_measurement_name u) \<and>
     strlcpy 16 (m_unit x) = strlcpy 16 (m_unit u)"

lemma overlay_semantics: "has_semantics u c \<Longrightarrow> has_semantics u (amm_overlay_user_semantics c e)"
  by (simp add: has_semantics_def amm_overlay_user_semantics_def)

lemma prepare_import_cases:
  obtains (fresh) "m_constraint (prepare_import v s e) = m_constraint e"
      "\<forall>c \<in> set (am_table s). \<not> (m_active c \<and> m_semantic_source c = SEMANTIC_SOURCE_USER \<and> point_key c = point_key e)"
  | (overlaid) c z where "c \<in> set (am_table s)" "m_active c" "m_semantic_source c = SEMANTIC_SOURCE_USER"
      "point_key c = point_key e" "prepare_import v s e = amm_overlay_user_semantics c z"
proof -
  let ?P = "\<lambda>c. m_active c \<and> m_semantic_source c = SEMANTIC_SOURCE_USER \<and> point_key c = point_key e"
  let ?e = "let e = default_poll s (e\<lparr>m_active := True, m_mapping_version := v\<rparr>);
          e = (if f32_eq (m_scale_factor e) 0 then e\<lparr>m_scale_factor := 0x3F800000\<rparr> else e)
      in amm_normalize_read_window e"
  have k: "point_key ?e = point_key e" by (simp add: Let_def)
  have p: "prepare_import v s e = (case List.find ?P (am_table s) of Some c \<Rightarrow> amm_overlay_user_semantics c ?e | None \<Rightarrow> ?e)"
    unfolding prepare_import_def Let_def same_point_key using k [unfolded Let_def] by (simp only:)
  show thesis
  proof (cases "List.find ?P (am_table s)")
    case None
    have "m_constraint (amm_normalize_read_window x) = m_constraint x" for x
      by (simp add: amm_normalize_read_window_def normalize_defaults_def Let_def)
    then have "m_constraint ?e = m_constraint e" by (simp add: Let_def default_poll_def)
    then show ?thesis using fresh None p by (auto simp: find_None_iff)
  next
    case (Some c)
    then have "c \<in> set (am_table s)" "?P c" by (auto simp: find_Some_iff)
    then show ?thesis using overlaid p Some by auto
  qed
qed

lemma import_amm_ok: "amm_ok m \<Longrightarrow> amm_ok (fst (amm_import_mappings env al es r m))"
proof (cases "fst (snd (amm_import_mappings env al es r m)) = ESP_OK")
  case True
  assume "amm_ok m"
  from import_table [OF this True] show ?thesis using all_distinct_unique by (metis amm_ok_def import_capacity)
next
  case False
  assume "amm_ok m"
  then show ?thesis using import_fail(1) [OF False] by (simp add: amm_ok_def)
qed

text \<open>A point whose slot carries the semantics of \<open>u\<close> carries them after the import as well, if it is still there.\<close>

definition point_keeps :: "amm_entry \<Rightarrow> amm_state \<Rightarrow> bool" where
  "point_keeps u m \<longleftrightarrow> (\<forall>x \<in> set (am_table m). m_active x \<and> point_key x = point_key u \<longrightarrow> has_semantics u x)"

definition point_present :: "point_key \<Rightarrow> amm_state \<Rightarrow> bool" where
  "point_present k m \<longleftrightarrow> (\<exists>x \<in> set (am_table m). m_active x \<and> point_key x = k)"

lemma import_keeps_point:
  assumes "amm_ok m" "point_keeps u m" "point_key u \<in> keys_of es \<Longrightarrow> point_present (point_key u) m"
  shows "point_keeps u (fst (amm_import_mappings env al (Some es) r m))"
proof (cases "fst (snd (amm_import_mappings env al (Some es) r m)) = ESP_OK")
  case False
  then show ?thesis using import_fail(1) [OF False] assms(2) by (simp add: point_keeps_def)
next
  case True
  let ?t = "am_table (fst (amm_import_mappings env al (Some es) r m))"
  from import_table [OF assms(1) True]
  have t: "\<forall>x \<in> set ?t. (x \<in> set (kept_entries es r m) \<and> point_key x \<notin> keys_of es) \<or> (\<exists>v. \<exists>e \<in> set es. x = prepare_import v m e)"
    by (metis option.inject)
  have "has_semantics u x" if x: "x \<in> set ?t" "m_active x" "point_key x = point_key u" for x
    using bspec [OF t x(1)]
  proof
    assume "x \<in> set (kept_entries es r m) \<and> point_key x \<notin> keys_of es"
    then show ?thesis using x assms(2) by (auto simp: kept_entries_def point_keeps_def)
  next
    assume "\<exists>v. \<exists>e \<in> set es. x = prepare_import v m e"
    then obtain v e where e: "e \<in> set es" "x = prepare_import v m e" by blast
    then have k: "point_key e = point_key u" using x(3) by simp
    then have "point_key u \<in> keys_of es" using e(1) unfolding keys_of_def by (metis imageI)
    then obtain y where y: "y \<in> set (am_table m)" "m_active y" "point_key y = point_key u"
      using assms(3) by (auto simp: point_present_def)
    then have "has_semantics u y" using assms(2) by (simp add: point_keeps_def)
    then have "m_semantic_source y = SEMANTIC_SOURCE_USER" by (simp add: has_semantics_def)
    then show ?thesis
      using y k assms(2) prepare_import_cases [of v m e]
      by (metis e(2) overlay_semantics point_keeps_def)
  qed
  then show ?thesis by (simp add: point_keeps_def)
qed

lemma import_keeps_present:
  assumes "amm_ok m" "point_present k m"
    "\<And>x. x \<in> set (am_table m) \<Longrightarrow> point_key x = k \<Longrightarrow> \<not> amm_import_contains_device es x"
  shows "point_present k (fst (amm_import_mappings env al (Some es) r m))"
proof (cases "fst (snd (amm_import_mappings env al (Some es) r m)) = ESP_OK")
  case False
  then show ?thesis using import_fail(1) [OF False] assms(2) by (simp add: point_present_def)
next
  case True
  let ?t = "am_table (fst (amm_import_mappings env al (Some es) r m))"
  from import_table [OF assms(1) True]
  have t: "all_distinct ?t" "keys_of ?t = keys_of (kept_entries es r m) \<union> keys_of es" by (metis option.inject)+
  obtain x where "x \<in> set (am_table m)" "m_active x" "point_key x = k" using assms(2) by (auto simp: point_present_def)
  then have "k \<in> keys_of (kept_entries es r m)" using assms(3) by (auto simp: keys_of_def kept_entries_def)
  then have "k \<in> keys_of ?t" using t(2) by blast
  then show ?thesis using t(1) by (auto simp: keys_of_def point_present_def all_distinct_def)
qed

lemma import_writable:
  assumes "amm_ok m" "\<And>x. x \<in> set (am_table m) \<Longrightarrow> m_active x \<Longrightarrow> writable (m_constraint x) \<Longrightarrow> Q (point_key x)"
    "\<And>e. e \<in> set es \<Longrightarrow> writable (m_constraint e) \<Longrightarrow> Q (point_key e)"
    "x \<in> set (am_table (fst (amm_import_mappings env al (Some es) r m)))" "m_active x" "writable (m_constraint x)"
  shows "Q (point_key x)"
proof (cases "fst (snd (amm_import_mappings env al (Some es) r m)) = ESP_OK")
  case False
  then show ?thesis using import_fail(1) [OF False] assms by simp
next
  case True
  from import_table [OF assms(1) True]
  have "(x \<in> set (kept_entries es r m) \<and> point_key x \<notin> keys_of es) \<or> (\<exists>v. \<exists>e \<in> set es. x = prepare_import v m e)"
    using assms(4) by (metis option.inject)
  then show ?thesis
  proof
    assume "x \<in> set (kept_entries es r m) \<and> point_key x \<notin> keys_of es"
    then show ?thesis using assms by (auto simp: kept_entries_def)
  next
    assume "\<exists>v. \<exists>e \<in> set es. x = prepare_import v m e"
    then obtain v e where e: "e \<in> set es" "x = prepare_import v m e" by blast
    show ?thesis
    proof (cases rule: prepare_import_cases [of v m e])
      case fresh
      then show ?thesis using assms(3) [OF e(1)] assms(6) e(2) by simp
    next
      case (overlaid c z)
      then have "writable (m_constraint c)" using assms(6) e(2) by (simp add: amm_overlay_user_semantics_def)
      then have "Q (point_key c)" using assms(2) overlaid(1,2) by blast
      moreover have "point_key x = point_key c" using e(2) overlaid(4) by (metis prepare_import_fields(1))
      ultimately show ?thesis by simp
    qed
  qed
qed

section \<open>The devices of the entries\<close>

definition place_of :: "discovered_device \<Rightarrow> source_protocol \<times> u8 \<times> u8" where
  "place_of d = (dd_source_protocol d, dd_channel_id d, dd_slave_id d)"

definition entry_place :: "amm_entry \<Rightarrow> source_protocol \<times> u8 \<times> u8" where
  "entry_place e = (m_source_protocol e, m_channel_id e, m_slave_id e)"

lemma key_place: "point_key e = point_key e' \<Longrightarrow> entry_place e = entry_place e'"
  by (simp add: point_key_def entry_place_def)

lemma contains_place: "amm_import_contains_device es x \<longleftrightarrow> (\<exists>e \<in> set es. entry_place e = entry_place x)"
  by (auto simp: amm_import_contains_device_def entry_place_def list_ex_iff)

lemma profile_entries_place: "e \<in> set (profile_entries ub root p d) \<Longrightarrow> entry_place e = place_of d"
  by (auto simp: profile_entries_def profile_entry_def Let_def entry_place_def place_of_def split: option.splits)

lemma match_devices_entries:
  "match_devices ub root ps def capacity ds es = (ms, es') \<Longrightarrow>
     length ms = length ds \<and> (\<forall>e \<in> set es'. e \<in> set es \<or> (\<exists>i < length ds. ms ! i \<and> entry_place e = place_of (ds ! i)))"
proof (induction ds arbitrary: es ms es')
  case Nil
  then show ?case by simp
next
  case (Cons d ds)
  have up: "\<exists>i < length (d # ds). (b # ms1) ! i \<and> p = place_of ((d # ds) ! i)"
    if "\<exists>i < length ds. ms1 ! i \<and> p = place_of (ds ! i)" for b p ms1
  proof -
    from that obtain i where "i < length ds" "ms1 ! i" "p = place_of (ds ! i)" by blast
    then show ?thesis by (intro exI [of _ "Suc i"]) simp
  qed
  show ?case
  proof (cases "length es \<ge> capacity")
    case True
    then show ?thesis using Cons.prems by auto
  next
    case False
    show ?thesis
    proof (cases "if dd_active d then find_profile_device ub ps d def else None")
      case None
      obtain ms1 es1 where r: "match_devices ub root ps def capacity ds es = (ms1, es1)" by (meson surj_pair)
      have "ms = False # ms1" "es' = es1" using Cons.prems False None r by (auto split: if_splits)
      then show ?thesis using Cons.IH [OF r] up by (metis length_Cons)
    next
      case (Some p)
      let ?es = "take capacity (es @ profile_entries ub root p d)"
      obtain ms1 es1 where r: "match_devices ub root ps def capacity ds ?es = (ms1, es1)" by (meson surj_pair)
      have m: "ms = True # ms1" "es' = es1" using Cons.prems False Some r by (auto split: if_splits)
      note ih = Cons.IH [OF r]
      have first: "e \<in> set es \<or> (\<exists>i < length (d # ds). (True # ms1) ! i \<and> entry_place e = place_of ((d # ds) ! i))"
        if "e \<in> set ?es" for e
      proof -
        have "e \<in> set es \<or> entry_place e = place_of d"
          using set_take_subset [of capacity "es @ profile_entries ub root p d"] that profile_entries_place by auto
        then show ?thesis by (auto intro: exI [of _ 0])
      qed
      have "e \<in> set es \<or> (\<exists>i < length (d # ds). (True # ms1) ! i \<and> entry_place e = place_of ((d # ds) ! i))"
        if "e \<in> set es1" for e
        using ih that first up by blast
      then show ?thesis using ih m by simp
    qed
  qed
qed

lemma raw_entries_fields:
  assumes "e \<in> set (raw_entries d)"
  shows "entry_place e = place_of d"
    "\<exists>r \<in> set (dd_registers d). dr_valid r \<and>
       point_key e = (dd_source_protocol d, dd_channel_id d, dd_slave_id d, dr_function_code r, dr_register_address r) \<and>
       (writable (m_constraint e) \<longleftrightarrow> dr_user_edited r \<and> dr_writable r)"
proof -
  obtain r where r: "r \<in> set (dd_registers d)" "dr_valid r" "e = semantic_inference_build_raw_mapping (features_of d)
      (semantic_inference_identify (Some (features_of d))) (raw_point_of r) (Some (dd_device_id d))"
    using assms by (auto simp: raw_entries_def Let_def)
  show "entry_place e = place_of d"
    by (simp add: r(3) entry_place_def place_of_def raw_mapping_fields features_of_def)
  show "\<exists>r \<in> set (dd_registers d). dr_valid r \<and>
       point_key e = (dd_source_protocol d, dd_channel_id d, dd_slave_id d, dr_function_code r, dr_register_address r) \<and>
       (writable (m_constraint e) \<longleftrightarrow> dr_user_edited r \<and> dr_writable r)"
    using r(1,2) by (intro bexI [of _ r]) (simp_all add: r(3) point_key_def raw_mapping_fields features_of_def raw_point_of_def)
qed

lemma collect_raw_grows: "set es \<subseteq> set (collect_raw al capacity ds es)"
  by (induction al capacity ds es rule: collect_raw.induct) auto

text \<open>A device gives all of its points or none.\<close>

lemma collect_raw_entries:
  "e \<in> set (collect_raw al capacity ds es) \<Longrightarrow>
   e \<in> set es \<or> (\<exists>d \<in> set ds. e \<in> set (raw_entries d) \<and> set (raw_entries d) \<subseteq> set (collect_raw al capacity ds es))"
proof (induction al capacity ds es rule: collect_raw.induct)
  case (2 al capacity d ds es)
  then show ?case using collect_raw_grows [of "es @ raw_entries d" al capacity ds] by (auto split: if_splits)
qed simp

lemma unresolved_index:
  assumes "d \<in> set (unresolved ms ds)" "length ms = length ds"
  shows "\<exists>i < length ds. d = ds ! i \<and> \<not> ms ! i \<and> dd_active d"
  using assms by (auto simp: unresolved_def in_set_zip)

section \<open>Applying a discovery\<close>

text \<open>
  The two imports of an application: the entries of the profile, which belong to matched devices, then those of the
  devices left over.
\<close>

lemma apply_split:
  obtains (none) raws where "snd (fst (modbus_discover_apply_mappings env penv (s, m))) = fst (import_raw penv raws m)"
      "\<forall>e \<in> set raws. \<exists>d \<in> set (dv_devices s). dd_active d \<and> e \<in> set (raw_entries d) \<and> set (raw_entries d) \<subseteq> set raws"
  | (profile) ms es raws where "profile_match env penv (amm_get_capacity m) s = Some (ms, es)" "es \<noteq> []"
      "snd (fst (modbus_discover_apply_mappings env penv (s, m))) =
         fst (import_raw penv raws (fst (amm_import_mappings (pe_amm penv) (pe_staging penv) (Some es) True m)))"
      "\<forall>e \<in> set raws. \<exists>d \<in> set (dv_devices s). dd_active d \<and> e \<in> set (raw_entries d) \<and> set (raw_entries d) \<subseteq> set raws"
      "fst (snd (amm_import_mappings (pe_amm penv) (pe_staging penv) (Some es) True m)) \<noteq> ESP_OK \<or>
       (\<forall>e \<in> set raws. \<exists>i < length (dv_devices s). \<not> ms ! i \<and> e \<in> set (raw_entries (dv_devices s ! i)))"
proof -
  let ?s = "s\<lparr>dv_apply := \<lparr>ra_semantic_mappings = 0, ra_raw_mappings = 0, ra_profile_devices = 0, ra_unresolved_devices = 0\<rparr>\<rparr>"
  obtain s1 m1 matched created where p: "apply_embedded_semantic_profile env penv (?s, m) = ((s1, m1), matched, created)"
    by (metis prod_cases3 surj_pair)
  define raws where "raws = collect_raw (pe_raw_alloc penv) (raw_capacity penv matched s1 m1) (unresolved matched (dv_devices s1)) []"
  have result: "snd (fst (modbus_discover_apply_mappings env penv (s, m))) = fst (import_raw penv raws m1)"
    by (simp add: modbus_discover_apply_mappings_def p raws_def Let_def split: prod.splits)
  have same: "profile_match env penv c ?s = profile_match env penv c s" for c
    by (simp add: profile_match_def cong: option.case_cong if_cong)
  have d: "dv_devices s1 = dv_devices s"
    using p by (auto simp: apply_embedded_semantic_profile_def Let_def split: option.splits prod.splits)
  have unfinished: "\<exists>i < length (dv_devices s). \<not> matched ! i \<and> dd_active (dv_devices s ! i) \<and>
      e \<in> set (raw_entries (dv_devices s ! i)) \<and> set (raw_entries (dv_devices s ! i)) \<subseteq> set raws"
    if "e \<in> set raws" "length matched = length (dv_devices s)" for e
    using collect_raw_entries [OF that(1) [unfolded raws_def]] unresolved_index [OF _ that(2)] d
    unfolding raws_def [symmetric] by auto
  have nm: "length (no_match ?s) = length (dv_devices s)" by (simp add: no_match_def)
  show thesis
  proof (cases "profile_match env penv (amm_get_capacity m) s")
    case None
    then have "profile_match env penv (amm_get_capacity m) ?s = None" by (simp only: same)
    then have "m1 = m" "matched = no_match ?s" using p by (auto simp: apply_embedded_semantic_profile_def)
    then have "\<forall>e \<in> set raws. \<exists>d \<in> set (dv_devices s). dd_active d \<and> e \<in> set (raw_entries d) \<and> set (raw_entries d) \<subseteq> set raws"
      using unfinished nm by (metis nth_mem)
    then show ?thesis using none [of raws] result \<open>m1 = m\<close> by simp
  next
    case (Some me)
    obtain ms es where me: "me = (ms, es)" by (cases me)
    have pm: "profile_match env penv (amm_get_capacity m) ?s = Some (ms, es)"
      using Some me by (simp only: same)
    have l: "length ms = length (dv_devices s)"
      using Some me match_devices_entries by (force simp: profile_match_def split: option.splits if_splits)
    show ?thesis
    proof (cases "es = []")
      case True
      then have "m1 = m" "matched = no_match ?s" using p pm by (auto simp: apply_embedded_semantic_profile_def Let_def)
      then have "\<forall>e \<in> set raws. \<exists>d \<in> set (dv_devices s). dd_active d \<and> e \<in> set (raw_entries d) \<and> set (raw_entries d) \<subseteq> set raws"
      using unfinished nm by (metis nth_mem)
    then show ?thesis using none [of raws] result \<open>m1 = m\<close> by simp
    next
      case False
      let ?i = "amm_import_mappings (pe_amm penv) (pe_staging penv) (Some es) True m"
      have m1: "m1 = fst ?i" "matched = (if fst (snd ?i) = ESP_OK then ms else no_match ?s)"
        using p pm False by (auto simp: apply_embedded_semantic_profile_def Let_def split: prod.splits)
      then have lm: "length matched = length (dv_devices s)" using l nm by simp
      have left: "\<forall>e \<in> set raws. \<exists>i < length (dv_devices s). \<not> matched ! i \<and> dd_active (dv_devices s ! i) \<and>
          e \<in> set (raw_entries (dv_devices s ! i)) \<and> set (raw_entries (dv_devices s ! i)) \<subseteq> set raws" using unfinished lm by blast
      show ?thesis
      proof (rule profile [of ms es raws])
        show "\<forall>e \<in> set raws. \<exists>d \<in> set (dv_devices s). dd_active d \<and> e \<in> set (raw_entries d) \<and> set (raw_entries d) \<subseteq> set raws"
          using left nth_mem by blast
        show "fst (snd ?i) \<noteq> ESP_OK \<or>
          (\<forall>e \<in> set raws. \<exists>i < length (dv_devices s). \<not> ms ! i \<and> e \<in> set (raw_entries (dv_devices s ! i)))"
        proof (cases "fst (snd ?i) = ESP_OK")
          case True
          then have "matched = ms" using m1(2) by simp
          then show ?thesis using left by blast
        qed simp
      qed (use Some me False result m1 in simp_all)
    qed
  qed
qed

lemma import_raw_unfold:
  "fst (import_raw penv es m) =
     (if es = [] then m else fst (amm_import_mappings (pe_raw_amm penv) (pe_raw_staging penv) (Some es) True m))"
  by (simp add: import_raw_def split: prod.splits)

lemma raw_place:
  assumes "\<forall>e \<in> set raws. \<exists>i < length ds. P i \<and> e \<in> set (raw_entries (ds ! i))" "k \<in> keys_of raws" "k = point_key u"
  shows "\<exists>i < length ds. P i \<and> entry_place u = place_of (ds ! i)"
proof -
  obtain e where "e \<in> set raws" "point_key e = point_key u" using assms(2,3) by (auto simp: keys_of_def)
  then show ?thesis using assms(1) raw_entries_fields(1) key_place by metis
qed

lemma apply_keeps_point:
  assumes ok: "amm_ok m" and places: "distinct (map place_of (dv_devices s))"
    and keeps: "point_keeps u m" and there: "point_present (point_key u) m"
  shows "point_keeps u (snd (fst (modbus_discover_apply_mappings env penv (s, m))))"
proof (cases rule: apply_split [of env penv s m])
  case (none raws)
  then show ?thesis using import_keeps_point [OF ok keeps] there keeps by (simp add: import_raw_unfold)
next
  case (profile ms es raws)
  let ?i = "amm_import_mappings (pe_amm penv) (pe_staging penv) (Some es) True m"
  let ?m = "fst ?i"
  have k1: "point_keeps u ?m" "amm_ok ?m"
    using import_keeps_point [OF ok keeps] there import_amm_ok [OF ok] by blast+
  have "point_present (point_key u) ?m" if k: "point_key u \<in> keys_of raws"
  proof (cases "fst (snd ?i) = ESP_OK")
    case False
    then show ?thesis using import_fail(1) [OF False] there by (simp add: point_present_def)
  next
    case True
    then obtain i where i: "i < length (dv_devices s)" "\<not> ms ! i" "entry_place u = place_of (dv_devices s ! i)"
      using raw_place [of raws "dv_devices s" "\<lambda>i. \<not> ms ! i"] profile(5) k by blast
    have es: "\<exists>j < length (dv_devices s). ms ! j \<and> entry_place e = place_of (dv_devices s ! j)" if "e \<in> set es" for e
      using profile(1) that match_devices_entries by (force simp: profile_match_def split: option.splits if_splits)
    show ?thesis
    proof (rule import_keeps_present [OF ok there])
      fix x assume x: "x \<in> set (am_table m)" "point_key x = point_key u"
      show "\<not> amm_import_contains_device es x"
      proof
        assume "amm_import_contains_device es x"
        then obtain e where "e \<in> set es" "entry_place e = entry_place x" by (auto simp: contains_place)
        then obtain j where j: "j < length (dv_devices s)" "ms ! j" "place_of (dv_devices s ! j) = place_of (dv_devices s ! i)"
          using es key_place [OF x(2)] i(3) by metis
        then show False using places i(1,2) by (auto simp: distinct_conv_nth)
      qed
    qed
  qed
  then show ?thesis using import_keeps_point [OF k1(2,1), of raws] k1(1) profile(3) by (simp add: import_raw_unfold)
qed

section \<open>The point of a register stays in the table\<close>

definition register_key :: "discovered_device \<Rightarrow> discovered_register \<Rightarrow> point_key" where
  "register_key d r =
     (dd_source_protocol d, dd_channel_id d, dd_slave_id d, dr_function_code r, dr_register_address r)"

lemma register_place: "point_key x = register_key d r \<Longrightarrow> entry_place x = place_of d"
  by (simp add: point_key_def register_key_def entry_place_def place_of_def)

lemma register_has_entry:
  assumes "r \<in> set (dd_registers d)" "dr_valid r"
  shows "register_key d r \<in> keys_of (raw_entries d)"
proof -
  let ?e = "semantic_inference_build_raw_mapping (features_of d) (semantic_inference_identify (Some (features_of d)))
      (raw_point_of r) (Some (dd_device_id d))"
  have "?e \<in> set (raw_entries d)" using assms by (auto simp: raw_entries_def Let_def)
  moreover have "point_key ?e = register_key d r"
    by (simp add: register_key_def point_key_def raw_mapping_fields features_of_def raw_point_of_def)
  ultimately show ?thesis unfolding keys_of_def by (metis imageI)
qed

text \<open>An import that lists the point, or nothing of its device, leaves it in the table.\<close>

lemma import_present:
  assumes "amm_ok m" "point_present (register_key d r) m"
    "register_key d r \<in> keys_of es \<or> (\<forall>e \<in> set es. entry_place e \<noteq> place_of d)"
  shows "point_present (register_key d r) (fst (amm_import_mappings env al (Some es) x m))"
proof (cases "register_key d r \<in> keys_of es \<and> fst (snd (amm_import_mappings env al (Some es) x m)) = ESP_OK")
  case True
  let ?t = "am_table (fst (amm_import_mappings env al (Some es) x m))"
  from import_table [OF assms(1) conjunct2 [OF True]]
  have "\<forall>y \<in> set ?t. m_active y" "register_key d r \<in> keys_of ?t" using True by (auto simp: all_distinct_def)
  then show ?thesis by (auto simp: keys_of_def point_present_def)
next
  case False
  then consider "fst (snd (amm_import_mappings env al (Some es) x m)) \<noteq> ESP_OK" | "\<forall>e \<in> set es. entry_place e \<noteq> place_of d"
    using assms(3) by blast
  then show ?thesis
  proof cases
    case 1
    then show ?thesis using import_fail(1) [OF 1] assms(2) by (simp add: point_present_def)
  next
    case 2
    then show ?thesis using import_keeps_present [OF assms(1,2)] register_place by (metis contains_place)
  qed
qed

lemma same_place:
  assumes "distinct (map place_of ds)" "i < length ds" "j < length ds" "place_of (ds ! j) = place_of (ds ! i)"
  shows "j = i"
  using assms by (simp add: distinct_conv_nth) metis

lemma apply_present:
  assumes ok: "amm_ok m" and places: "distinct (map place_of (dv_devices s))" and i: "i < length (dv_devices s)"
    and r: "r \<in> set (dd_registers (dv_devices s ! i))" "dr_valid r"
    and there: "point_present (register_key (dv_devices s ! i) r) m"
    and listed: "\<forall>ms es. profile_match env penv (amm_get_capacity m) s = Some (ms, es) \<and> ms ! i \<longrightarrow>
      register_key (dv_devices s ! i) r \<in> keys_of es"
  shows "point_present (register_key (dv_devices s ! i) r) (snd (fst (modbus_discover_apply_mappings env penv (s, m))))"
proof -
  let ?d = "dv_devices s ! i"
  have raw: "point_present (register_key ?d r) (fst (import_raw penv raws m'))"
    if m': "amm_ok m'" "point_present (register_key ?d r) m'"
      and whole: "\<forall>e \<in> set raws. \<exists>d \<in> set (dv_devices s). dd_active d \<and> e \<in> set (raw_entries d) \<and> set (raw_entries d) \<subseteq> set raws"
    for raws m'
  proof -
    have "register_key ?d r \<in> keys_of raws" if e: "e \<in> set raws" "entry_place e = place_of ?d" for e
    proof -
      obtain j where j: "j < length (dv_devices s)" "e \<in> set (raw_entries (dv_devices s ! j))"
        "set (raw_entries (dv_devices s ! j)) \<subseteq> set raws"
        using bspec [OF whole e(1)] by (metis in_set_conv_nth)
      then have "j = i" using same_place [OF places i j(1)] raw_entries_fields(1) e(2) by metis
      then show ?thesis using j(3) register_has_entry [OF r] by (auto simp: keys_of_def)
    qed
    then have "register_key ?d r \<in> keys_of raws \<or> (\<forall>e \<in> set raws. entry_place e \<noteq> place_of ?d)" by blast
    then show ?thesis using m'(2) import_present [OF m', of raws] by (simp add: import_raw_unfold)
  qed
  show ?thesis
  proof (cases rule: apply_split [of env penv s m])
    case (none raws)
    then show ?thesis using raw [OF ok there none(2)] by simp
  next
    case (profile ms es raws)
    have "register_key ?d r \<in> keys_of es" if e: "e \<in> set es" "entry_place e = place_of ?d" for e
    proof -
      obtain j where j: "j < length (dv_devices s)" "ms ! j" "entry_place e = place_of (dv_devices s ! j)"
        using profile(1) e(1) match_devices_entries by (force simp: profile_match_def split: option.splits if_splits)
      then show ?thesis using same_place [OF places i j(1)] e(2) listed profile(1) by metis
    qed
    then have "point_present (register_key ?d r) (fst (amm_import_mappings (pe_amm penv) (pe_staging penv) (Some es) True m))"
      using import_present [OF ok there] by blast
    then show ?thesis using raw [OF import_amm_ok [OF ok] _ profile(4)] profile(3) by simp
  qed
qed

text \<open>Applications one after the other, each with its own environment.\<close>

definition apply_all :: "(discover_env \<times> apply_env) list \<Rightarrow> discover_state \<times> amm_state \<Rightarrow> discover_state \<times> amm_state" where
  "apply_all = fold (\<lambda>(env, penv) x. fst (modbus_discover_apply_mappings env penv x))"

lemma import_raw_frame: "amm_ok m \<Longrightarrow> amm_ok (fst (import_raw penv es m)) \<and> am_capacity (fst (import_raw penv es m)) = am_capacity m"
  by (simp add: import_raw_unfold import_amm_ok)

lemma apply_frame:
  "amm_ok m \<Longrightarrow> amm_ok (snd (fst (modbus_discover_apply_mappings env penv (s, m)))) \<and>
     amm_get_capacity (snd (fst (modbus_discover_apply_mappings env penv (s, m)))) = amm_get_capacity m"
  by (cases rule: apply_split [of env penv s m]) (simp_all add: import_raw_frame import_amm_ok amm_get_capacity_def)

lemma apply_devices: "dv_devices (fst (fst (modbus_discover_apply_mappings env penv (s, m)))) = dv_devices s"
proof -
  let ?s = "s\<lparr>dv_apply := \<lparr>ra_semantic_mappings = 0, ra_raw_mappings = 0, ra_profile_devices = 0, ra_unresolved_devices = 0\<rparr>\<rparr>"
  obtain s1 m1 matched created where p: "apply_embedded_semantic_profile env penv (?s, m) = ((s1, m1), matched, created)"
    by (metis prod_cases3 surj_pair)
  then have "dv_devices s1 = dv_devices s"
    by (auto simp: apply_embedded_semantic_profile_def Let_def split: option.splits prod.splits)
  then show ?thesis by (simp add: modbus_discover_apply_mappings_def p Let_def set_result_def split_beta)
qed

lemma profile_match_devices: "dv_devices t = dv_devices s \<Longrightarrow> profile_match env penv c t = profile_match env penv c s"
  by (simp add: profile_match_def cong: option.case_cong if_cong)

lemma apply_all_keeps:
  assumes "amm_ok m" "distinct (map place_of (dv_devices s))" "i < length (dv_devices s)"
    "r \<in> set (dd_registers (dv_devices s ! i))" "dr_valid r" "point_key u = register_key (dv_devices s ! i) r"
    "point_keeps u m" "point_present (point_key u) m"
    "\<forall>(env, penv) \<in> set ps. \<forall>ms es. profile_match env penv (amm_get_capacity m) s = Some (ms, es) \<and> ms ! i \<longrightarrow>
      point_key u \<in> keys_of es"
  shows "amm_ok (snd (apply_all ps (s, m))) \<and> point_keeps u (snd (apply_all ps (s, m))) \<and>
    point_present (point_key u) (snd (apply_all ps (s, m)))"
  using assms
proof (induction ps arbitrary: s m)
  case Nil
  then show ?case by (simp add: apply_all_def)
next
  case (Cons p ps)
  obtain env penv where p: "p = (env, penv)" by fastforce
  obtain s1 m1 n where step: "modbus_discover_apply_mappings env penv (s, m) = ((s1, m1), n)" by (metis prod_cases3 surj_pair)
  have listed: "\<forall>ms es. profile_match env penv (amm_get_capacity m) s = Some (ms, es) \<and> ms ! i \<longrightarrow> point_key u \<in> keys_of es"
    using Cons.prems(9) unfolding p by fastforce
  have frame: "amm_ok m1" "amm_get_capacity m1 = amm_get_capacity m" "dv_devices s1 = dv_devices s"
    using apply_frame [OF Cons.prems(1), of env penv s] apply_devices [of env penv s m] by (simp_all add: step)
  have now: "point_keeps u m1" "point_present (point_key u) m1"
    using apply_keeps_point [OF Cons.prems(1,2,7,8), of env penv]
      apply_present [OF Cons.prems(1-5), of env penv] Cons.prems(6,8) listed by (simp_all add: step)
  show ?case
    using Cons.IH [of m1 s1] Cons.prems frame now profile_match_devices [OF frame(3)]
    by (simp add: apply_all_def p step)
qed

text \<open>An edit of a point that is in the table, written through to the table.\<close>

lemma edit_taken:
  fixes e :: register_edit
  assumes "amm_ok m" "amm_find_mapping_for_object k m = Some x"
    "amm_snapshot_permits_mutation (snd (amm_save_rollback_unlocked (ae_rollback aenv) m))"
  defines "u \<equiv> prepare_entry m (edit_entry e x)" and "t \<equiv> fst (amm_add_mapping aenv (Some (edit_entry e x)) m)"
  shows "amm_ok t" "point_key u = k" "point_keeps u t" "point_present k t" "amm_get_capacity t = amm_get_capacity m"
    "m_semantic_source u = SEMANTIC_SOURCE_USER" "m_data_type u = re_data_type e"
    "m_constraint u = \<lparr>writable = re_writable e, valid_range_min = re_range_min e, valid_range_max = re_range_max e\<rparr>"
    "m_unit u = (case re_unit e of Some t \<Rightarrow> strlcpy 16 t | None \<Rightarrow> m_unit x)"
    "m_measurement_name u = (if has_text (re_name e) then strlcpy 32 (the (re_name e)) else m_measurement_name x)"
proof -
  have xk: "point_key x = k" "\<exists>n < length (am_table m). am_table m ! n = x \<and> m_active x"
    using assms(1,2) find_point_iff [of m k x] by (auto simp: amm_ok_def)
  have ek: "point_key (edit_entry e x) = k" using xk(1) by (simp add: edit_entry_def point_key_def)
  have room: "has_room (edit_entry e x) m"
    using xk(2) ek xk(1) assms(1) no_active_point [of k m]
    by (auto simp: has_room_def target_slot_def amm_ok_def split: option.split)
  have looked: "amm_find_mapping_for_object k t = Some u"
    unfolding t_def u_def using add_mapping_lookup [OF assms(1), of k aenv "edit_entry e x"] room assms(3) ek by simp
  show ok1: "amm_ok t" unfolding t_def by (rule add_mapping_ok [OF assms(1)])
  show uk: "point_key u = k" using ek by (simp add: u_def)
  have at: "unique_active (am_table t)" using ok1 by (simp add: amm_ok_def)
  show fields: "m_semantic_source u = SEMANTIC_SOURCE_USER" "m_data_type u = re_data_type e"
    "m_constraint u = \<lparr>writable = re_writable e, valid_range_min = re_range_min e, valid_range_max = re_range_max e\<rparr>"
    "m_unit u = (case re_unit e of Some t \<Rightarrow> strlcpy 16 t | None \<Rightarrow> m_unit x)"
    "m_measurement_name u = (if has_text (re_name e) then strlcpy 32 (the (re_name e)) else m_measurement_name x)"
    by (simp_all add: u_def prepare_entry_def default_poll_def edit_entry_def)
      (simp_all add: amm_normalize_read_window_def normalize_defaults_def Let_def)
  have "has_semantics u u" using fields(1) by (simp add: has_semantics_def)
  moreover have "z = u" if "z \<in> set (am_table t)" "m_active z" "point_key z = k" for z
      using that looked find_point_iff [OF at, of k z] by (auto simp: in_set_conv_nth)
  ultimately show "point_keeps u t" using uk unfolding point_keeps_def by metis
  obtain n where "n < length (am_table t)" "am_table t ! n = u" "m_active u"
      using iffD1 [OF find_point_iff [OF at] looked] by blast
  then show "point_present k t" using uk unfolding point_present_def by (metis nth_mem)
  show "amm_get_capacity t = amm_get_capacity m" by (simp add: t_def amm_get_capacity_def add_mapping_effect(2))
qed

section \<open>Properties\<close>


text \<open>
  C17. Applying a discovery makes no point writable by itself: a point that is writable afterwards was writable in the
  table, or the embedded profile declares it writable, or the user marked its register writable in the editor.
\<close>

theorem apply_grants_no_writes:
  assumes "amm_ok m" "x \<in> set (am_table (snd (fst (modbus_discover_apply_mappings env penv (s, m)))))" "m_active x"
    "writable (m_constraint x)"
  shows "(\<exists>y \<in> set (am_table m). m_active y \<and> point_key y = point_key x \<and> writable (m_constraint y)) \<or>
    (\<exists>ms es. profile_match env penv (amm_get_capacity m) s = Some (ms, es) \<and>
       (\<exists>e \<in> set es. point_key e = point_key x \<and> writable (m_constraint e))) \<or>
    (\<exists>d \<in> set (dv_devices s). dd_active d \<and> (\<exists>r \<in> set (dd_registers d). dr_valid r \<and> dr_user_edited r \<and> dr_writable r \<and>
       point_key x = (dd_source_protocol d, dd_channel_id d, dd_slave_id d, dr_function_code r, dr_register_address r)))"
    (is "?Q (point_key x)")
proof (cases rule: apply_split [of env penv s m])
  case (none raws)
  have raw: "?Q (point_key e)" if "e \<in> set raws" "writable (m_constraint e)" for e
    using none(2) that raw_entries_fields(2) by blast
  have old: "?Q (point_key y)" if "y \<in> set (am_table m)" "m_active y" "writable (m_constraint y)" for y using that by blast
  have "x \<in> set (am_table (fst (import_raw penv raws m)))" using assms(2) none(1) by simp
  then show ?thesis
    using import_writable [of m ?Q raws x, OF assms(1) old raw _ assms(3,4)] old assms(3,4)
    by (auto simp: import_raw_unfold split: if_splits)
next
  case (profile ms es raws)
  let ?m = "fst (amm_import_mappings (pe_amm penv) (pe_staging penv) (Some es) True m)"
  have old: "?Q (point_key y)" if "y \<in> set (am_table m)" "m_active y" "writable (m_constraint y)" for y using that by blast
  have new: "?Q (point_key e)" if "e \<in> set es" "writable (m_constraint e)" for e using profile(1) that by blast
  have raw: "?Q (point_key e)" if "e \<in> set raws" "writable (m_constraint e)" for e
    using profile(4) that raw_entries_fields(2) by blast
  have mid: "?Q (point_key y)" if "y \<in> set (am_table ?m)" "m_active y" "writable (m_constraint y)" for y
    by (rule import_writable [of m ?Q es, OF assms(1) old new that])
  have "x \<in> set (am_table (fst (import_raw penv raws ?m)))" using assms(2) profile(3) by simp
  then show ?thesis
    using import_writable [of ?m ?Q raws x, OF import_amm_ok [OF assms(1)] mid raw _ assms(3,4)] mid assms(3,4)
    by (auto simp: import_raw_unfold split: if_splits)
qed

section \<open>A discovered point\<close>

definition demo_register :: discovered_register where
  "demo_register = \<lparr>dr_register_address = 40001, dr_function_code = 3, dr_raw_value = 7, dr_inferred_type = DT_UINT16,
     dr_sample_value = 0, dr_read_start_address = 40001, dr_read_register_count = 1, dr_value_register_index = 0,
     dr_inferred_name = [], dr_inferred_unit = [], dr_range_min = 0, dr_range_max = 0, dr_writable = False,
     dr_user_edited = False, dr_valid = True\<rparr>"

definition demo_found :: discover_state where
  "demo_found = demo_discover\<lparr>dv_devices := [demo_device\<lparr>dd_registers := [demo_register]\<rparr>]\<rparr>"

definition demo_point :: amm_entry where
  "demo_point = zero_mapping\<lparr>m_slave_id := 1, m_function_code := 3, m_register_address := 40001, m_active := True\<rparr>"

definition demo_amm :: "amm_entry \<Rightarrow> amm_state" where
  "demo_amm e = \<lparr>am_table = [e], am_capacity = 64, am_default_poll_ms = 1000, am_model_version = 1,
     am_nvs = \<lparr>n_count = None, n_schema = None, n_poll_ms = None, n_entry = (\<lambda>_. None), n_rollback_count = None, n_rollback = None\<rparr>\<rparr>"

definition demo_edit :: register_edit where
  "demo_edit = \<lparr>re_name = Some ''Line pressure'', re_unit = Some ''bar'', re_data_type = DT_UINT16, re_writable = True,
     re_range_min = 0, re_range_max = 0x42C80000\<rparr>"

definition demo_apply :: apply_env where
  "demo_apply = \<lparr>pe_entries_alloc = True, pe_raw_alloc = True, pe_current_alloc = True, pe_amm = saving (\<lambda>_. ESP_OK),
     pe_staging = True, pe_raw_amm = saving (\<lambda>_. ESP_OK), pe_raw_staging = True\<rparr>"

lemma demo_apply_present:
  assumes "dv_devices s = [d]" "dd_active d" "raw_entries d \<noteq> []" "K \<in> keys_of (raw_entries d)" "amm_ok m" "point_present K m"
  shows "point_present K (snd (fst (modbus_discover_apply_mappings demo_bus demo_apply (s, m))))"
proof -
  have p: "apply_embedded_semantic_profile demo_bus demo_apply (s', m) = ((s', m), no_match s', 0)" for s'
    by (simp add: apply_embedded_semantic_profile_def profile_match_def demo_bus_def)
  define s0 where
    "s0 = s\<lparr>dv_apply := \<lparr>ra_semantic_mappings = 0, ra_raw_mappings = 0, ra_profile_devices = 0, ra_unresolved_devices = 0\<rparr>\<rparr>"
  define es where "es = collect_raw (pe_raw_alloc demo_apply) (raw_capacity demo_apply (no_match s0) s0 m)
      (unresolved (no_match s0) (dv_devices s0)) []"
  have "unresolved (no_match s0) (dv_devices s0) = [d]"
    using assms(1,2) by (simp add: unresolved_def no_match_def s0_def)
  then have es: "snd (fst (modbus_discover_apply_mappings demo_bus demo_apply (s, m))) = fst (import_raw demo_apply es m)"
    "es = [] \<or> es = raw_entries d"
    by (simp_all add: modbus_discover_apply_mappings_def p Let_def split_beta es_def s0_def)
  let ?i = "amm_import_mappings (pe_raw_amm demo_apply) (pe_raw_staging demo_apply) (Some es) True m"
  show ?thesis
  proof (cases "es = [] \<or> fst (snd ?i) \<noteq> ESP_OK")
    case True
    then show ?thesis using assms(6) import_fail(1) [of "pe_raw_amm demo_apply" "pe_raw_staging demo_apply" "Some es" True m]
      by (auto simp: es(1) import_raw_unfold point_present_def)
  next
    case False
    then have f: "es = raw_entries d" "fst (snd ?i) = ESP_OK" using es(2) by blast+
    from import_table [OF assms(5) f(2)]
    have "all_distinct (am_table (fst ?i))" "keys_of (am_table (fst ?i)) = keys_of (kept_entries es True m) \<union> keys_of es"
      by (metis option.inject)+
    then have "K \<in> keys_of (am_table (fst ?i))" "\<forall>x \<in> set (am_table (fst ?i)). m_active x"
      using assms(4) f(1) by (auto simp: all_distinct_def)
    then have "point_present K (fst ?i)" by (auto simp: point_present_def keys_of_def)
    then show ?thesis using assms(3) by (simp add: es(1) f(1) import_raw_unfold)
  qed
qed

lemma demo_entries:
  "raw_entries (demo_device\<lparr>dd_registers := [r]\<rparr>) \<noteq> [] \<and>
   (SRC_MODBUS_RTU, 0, 1, 3, 40001) \<in> keys_of (raw_entries (demo_device\<lparr>dd_registers := [r]\<rparr>))"
  if "dr_valid r" "dr_register_address r = 40001" "dr_function_code r = 3"
  using that
  by (simp add: raw_entries_def Let_def keys_of_def point_key_def raw_mapping_fields features_of_def raw_point_of_def demo_device_def)

lemma demo_amm_ok: "amm_ok (demo_amm e)"
  by (simp add: demo_amm_def amm_ok_def unique_active_def)


lemma apply_grants_no_writes_witness:
  "\<exists>x \<in> set (am_table (snd (fst (modbus_discover_apply_mappings demo_bus demo_apply
      (demo_found, demo_amm (edit_entry demo_edit demo_point)))))). m_active x \<and> writable (m_constraint x) \<and>
     (\<exists>y \<in> set (am_table (demo_amm (edit_entry demo_edit demo_point))). point_key y = point_key x \<and> writable (m_constraint y))"
proof -
  let ?u = "edit_entry demo_edit demo_point" and ?K = "(SRC_MODBUS_RTU, 0 :: u8, 1 :: u8, 3 :: u8, 40001 :: u16)"
  let ?t = "snd (fst (modbus_discover_apply_mappings demo_bus demo_apply (demo_found, demo_amm ?u)))"
  have u: "point_key ?u = ?K" "m_active ?u" "writable (m_constraint ?u)" "has_semantics ?u ?u"
    by (simp_all add: edit_entry_def demo_point_def point_key_def zero_mapping_def demo_edit_def has_semantics_def)
  have p: "point_present ?K (demo_amm ?u)" "point_keeps ?u (demo_amm ?u)"
    using u by (simp_all add: point_present_def point_keeps_def demo_amm_def)
  have d: "dv_devices demo_found = [demo_device\<lparr>dd_registers := [demo_register]\<rparr>]" "dd_active (demo_device\<lparr>dd_registers := [demo_register]\<rparr>)"
    by (simp_all add: demo_found_def demo_device_def)
  have r: "dr_valid demo_register" "dr_register_address demo_register = 40001" "dr_function_code demo_register = 3"
    by (simp_all add: demo_register_def)
  have "point_present ?K ?t" using demo_apply_present [OF d _ _ demo_amm_ok p(1)] demo_entries [OF r] by blast
  then obtain x where x: "x \<in> set (am_table ?t)" "m_active x" "point_key x = ?K" by (auto simp: point_present_def)
  have "distinct (map place_of (dv_devices demo_found))" by (simp add: d)
  from apply_keeps_point [OF demo_amm_ok this p(2)] p(1) u(1)
  have "point_keeps ?u ?t" by simp
  then have w: "writable (m_constraint x)" using x u by (simp add: point_keeps_def has_semantics_def)
  have none: "profile_match demo_bus demo_apply c demo_found = None" for c
    by (simp add: profile_match_def demo_bus_def)
  have "\<not> (\<exists>d \<in> set (dv_devices demo_found). \<exists>r \<in> set (dd_registers d). dr_writable r)"
    by (simp add: demo_found_def demo_register_def)
  with apply_grants_no_writes [OF demo_amm_ok x(1,2) w] none
  have "\<exists>y \<in> set (am_table (demo_amm ?u)). point_key y = point_key x \<and> writable (m_constraint y)" by auto
  then show ?thesis using x w by blast
qed

end
