(* ===== verification/Mcp_Limiter.thy ===== *)
theory Mcp_Limiter
  imports Prelude
begin

text \<open>
  The limit on failed authentications of the MCP server (\<open>mcp/mcp_http.c\<close>): sixteen buckets, one per peer
  address, each with its failures and the end of its lockout. The results: a peer with an address is refused only
  after eight failures of its own, whatever the other peers do; peers without an IPv4 address share one bucket and
  lock each other out.
\<close>

section \<open>Buckets\<close>

abbreviation MCP_RL_BUCKETS :: nat where "MCP_RL_BUCKETS \<equiv> 16"
abbreviation MCP_RL_MAX_FAILURES :: u8 where "MCP_RL_MAX_FAILURES \<equiv> 8"
abbreviation MCP_RL_LOCKOUT_MS :: ms where "MCP_RL_LOCKOUT_MS \<equiv> 30000"

record rl_bucket =
  rb_peer :: u32
  rb_failures :: u8
  rb_lock_until_ms :: ms

definition rl_boot :: "rl_bucket list" where
  "rl_boot = replicate MCP_RL_BUCKETS \<lparr>rb_peer = 0, rb_failures = 0, rb_lock_until_ms = 0\<rparr>"

text \<open>What the socket says of the other end.\<close>

datatype peer = No_socket | No_name | Other_family | Inet u32

definition peer_ip_key :: "peer \<Rightarrow> u32" where
  "peer_ip_key p = (case p of Inet a \<Rightarrow> a | _ \<Rightarrow> 0)"

text \<open>The bucket of a peer: its own, else an empty one, else the one its address falls on.\<close>

definition rl_slot :: "u32 \<Rightarrow> rl_bucket list \<Rightarrow> nat" where
  "rl_slot p bs =
     (case find_slot (\<lambda>b. rb_peer b = p) bs of
        Some i \<Rightarrow> i
      | None \<Rightarrow> (case find_slot (\<lambda>b. rb_peer b = 0) bs of Some i \<Rightarrow> i | None \<Rightarrow> unat (p mod 16)))"

definition rl_claim :: "u32 \<Rightarrow> rl_bucket list \<Rightarrow> nat \<times> rl_bucket list" where
  "rl_claim p bs =
     (let i = rl_slot p bs
      in (i, if rb_peer (bs ! i) \<noteq> p then bs[i := \<lparr>rb_peer = p, rb_failures = 0, rb_lock_until_ms = 0\<rparr>] else bs))"

text \<open>The status and what is left of the lockout.\<close>

definition mcp_rl_check :: "u32 \<Rightarrow> ms \<Rightarrow> rl_bucket list \<Rightarrow> rl_bucket list \<times> esp_err \<times> ms" where
  "mcp_rl_check p now bs =
     (let (i, bs) = rl_claim p bs
      in if rb_lock_until_ms (bs ! i) > now then (bs, ESP_ERR_TIMEOUT, rb_lock_until_ms (bs ! i) - now) else (bs, ESP_OK, 0))"

definition mcp_rl_fail :: "u32 \<Rightarrow> ms \<Rightarrow> rl_bucket list \<Rightarrow> rl_bucket list" where
  "mcp_rl_fail p now bs =
     (let (i, bs) = rl_claim p bs;
          b = (bs ! i)\<lparr>rb_failures := rb_failures (bs ! i) + 1\<rparr>
      in bs[i := if rb_failures b \<ge> MCP_RL_MAX_FAILURES then b\<lparr>rb_lock_until_ms := now + MCP_RL_LOCKOUT_MS\<rparr> else b])"

definition mcp_rl_ok :: "u32 \<Rightarrow> rl_bucket list \<Rightarrow> rl_bucket list" where
  "mcp_rl_ok p bs =
     (case find_slot (\<lambda>b. rb_peer b = p) bs of
        Some i \<Rightarrow> bs[i := (bs ! i)\<lparr>rb_failures := 0, rb_lock_until_ms := 0\<rparr>]
      | None \<Rightarrow> bs)"

section \<open>Runs\<close>

datatype rl_op = Check u32 ms | Fail u32 ms | Pass u32

fun rl_step :: "rl_op \<Rightarrow> rl_bucket list \<Rightarrow> rl_bucket list" where
  "rl_step (Check p now) bs = fst (mcp_rl_check p now bs)"
| "rl_step (Fail p now) bs = mcp_rl_fail p now bs"
| "rl_step (Pass p) bs = mcp_rl_ok p bs"

definition rl_run :: "rl_op list \<Rightarrow> rl_bucket list" where
  "rl_run ops = fold rl_step ops rl_boot"

text \<open>The failures of a peer since it last passed.\<close>

fun count_fail :: "u32 \<Rightarrow> rl_op \<Rightarrow> nat \<Rightarrow> nat" where
  "count_fail p (Fail q _) n = (if q = p then Suc n else n)"
| "count_fail p (Pass q) n = (if q = p then 0 else n)"
| "count_fail p (Check _ _) n = n"

definition fails_since :: "u32 \<Rightarrow> rl_op list \<Rightarrow> nat" where
  "fails_since p ops = fold (count_fail p) ops 0"

definition bucket_ok :: "(u32 \<Rightarrow> nat) \<Rightarrow> rl_bucket \<Rightarrow> bool" where
  "bucket_ok fails b \<longleftrightarrow> rb_peer b \<noteq> 0 \<longrightarrow>
     unat (rb_failures b) \<le> fails (rb_peer b) \<and> (0 < rb_lock_until_ms b \<longrightarrow> 8 \<le> fails (rb_peer b))"

definition rl_inv :: "(u32 \<Rightarrow> nat) \<Rightarrow> rl_bucket list \<Rightarrow> bool" where
  "rl_inv fails bs \<longleftrightarrow> length bs = MCP_RL_BUCKETS \<and> (\<forall>b \<in> set bs. bucket_ok fails b) \<and>
     (\<forall>i < MCP_RL_BUCKETS. \<forall>j < MCP_RL_BUCKETS. rb_peer (bs ! i) = rb_peer (bs ! j) \<longrightarrow> rb_peer (bs ! i) \<noteq> 0 \<longrightarrow> i = j)"

lemma rl_slot_less:
  assumes "length bs = MCP_RL_BUCKETS"
  shows "rl_slot p bs < MCP_RL_BUCKETS"
proof -
  have "unat (p mod 16) < 16" by (simp add: unat_mod)
  then show ?thesis using assms by (auto simp: rl_slot_def split: option.split dest: find_slot_SomeD)
qed

lemma rl_slot_peer: "j < length bs \<Longrightarrow> rb_peer (bs ! j) = p \<Longrightarrow> rb_peer (bs ! rl_slot p bs) = p"
  by (auto simp: rl_slot_def find_slot_None split: option.split dest: find_slot_SomeD(2))

lemma rl_inv_update:
  assumes "rl_inv fails bs" "i < MCP_RL_BUCKETS" "bucket_ok fails b"
    "\<And>j. j < MCP_RL_BUCKETS \<Longrightarrow> j \<noteq> i \<Longrightarrow> rb_peer b \<noteq> 0 \<Longrightarrow> rb_peer (bs ! j) \<noteq> rb_peer b"
  shows "rl_inv fails (bs[i := b])"
proof -
  have "\<forall>c \<in> set (bs[i := b]). bucket_ok fails c"
    using assms(1,3) set_update_subset_insert [of bs i b] by (auto simp: rl_inv_def)
  moreover have "j = k"
    if "j < MCP_RL_BUCKETS" "k < MCP_RL_BUCKETS" "rb_peer (bs[i := b] ! j) = rb_peer (bs[i := b] ! k)"
      "rb_peer (bs[i := b] ! j) \<noteq> 0" for j k
    using that assms(1,2) assms(4) [of j] assms(4) [of k]
    by (cases "j = i"; cases "k = i") (simp_all add: rl_inv_def)
  ultimately show ?thesis using assms(1) by (simp add: rl_inv_def)
qed

lemma claim_inv:
  assumes "rl_inv fails bs" "rl_claim p bs = (i, bs')"
  shows "rl_inv fails bs'" "i < MCP_RL_BUCKETS" "rb_peer (bs' ! i) = p"
proof -
  have l: "length bs = MCP_RL_BUCKETS" using assms(1) by (simp add: rl_inv_def)
  have i: "i = rl_slot p bs" "bs' = (if rb_peer (bs ! i) \<noteq> p
      then bs[i := \<lparr>rb_peer = p, rb_failures = 0, rb_lock_until_ms = 0\<rparr>] else bs)"
    using assms(2) by (auto simp: rl_claim_def Let_def)
  show i': "i < MCP_RL_BUCKETS" using rl_slot_less [OF l] i by simp
  show "rb_peer (bs' ! i) = p" using i(2) i' l by simp
  have "rb_peer (bs ! j) \<noteq> p" if "j < MCP_RL_BUCKETS" "rb_peer (bs ! i) \<noteq> p" for j
    using rl_slot_peer [of j bs p] that i(1) l by auto
  then show "rl_inv fails bs'"
    using assms(1) i' by (auto simp: i(2) bucket_ok_def intro: rl_inv_update)
qed

lemma bucket_ok_mono: "bucket_ok f b \<Longrightarrow> f (rb_peer b) \<le> g (rb_peer b) \<Longrightarrow> bucket_ok g b"
  by (auto simp: bucket_ok_def)

lemma rl_step_inv:
  assumes "rl_inv f bs" "\<And>p. g p = count_fail p x (f p)"
  shows "rl_inv g (rl_step x bs)"
proof (cases x)
  case (Check p now)
  obtain i bs' where c: "rl_claim p bs = (i, bs')" by (meson surj_pair)
  have "g = f" using assms(2) Check by auto
  then show ?thesis using claim_inv [OF assms(1) c] Check c by (simp add: mcp_rl_check_def)
next
  case (Fail p now)
  obtain i bs' where c: "rl_claim p bs = (i, bs')" by (meson surj_pair)
  note inv = claim_inv [OF assms(1) c]
  have g: "f q \<le> g q" "g p = Suc (f p)" for q using assms(2) Fail by auto
  have inv': "rl_inv g bs'" using inv(1) g(1) by (auto simp: rl_inv_def intro: bucket_ok_mono)
  let ?b = "(bs' ! i)\<lparr>rb_failures := rb_failures (bs' ! i) + 1\<rparr>"
  let ?b' = "if rb_failures ?b \<ge> MCP_RL_MAX_FAILURES then ?b\<lparr>rb_lock_until_ms := now + MCP_RL_LOCKOUT_MS\<rparr> else ?b"
  have l: "length bs' = MCP_RL_BUCKETS" using inv(1) by (simp add: rl_inv_def)
  have "bucket_ok f (bs' ! i)" using inv(1,2) l by (simp add: rl_inv_def)
  moreover have "unat (rb_failures (bs' ! i) + 1) \<le> Suc (unat (rb_failures (bs' ! i)))"
    by (simp add: unat_word_ariths)
  ultimately have "bucket_ok g ?b'"
    using inv(3) g by (auto simp: bucket_ok_def word_le_nat_alt)
  moreover have "rb_peer ?b' = p" using inv(3) by simp
  moreover have "rb_peer (bs' ! j) \<noteq> p" if "j < MCP_RL_BUCKETS" "j \<noteq> i" "p \<noteq> 0" for j
    using inv that by (auto simp: rl_inv_def)
  ultimately have "rl_inv g (bs'[i := ?b'])" by (intro rl_inv_update [OF inv' inv(2)]) auto
  then show ?thesis using Fail c by (simp add: mcp_rl_fail_def Let_def)
next
  case (Pass p)
  have l: "length bs = MCP_RL_BUCKETS" using assms(1) by (simp add: rl_inv_def)
  have g: "q \<noteq> p \<Longrightarrow> g q = f q" for q using assms(2) Pass by auto
  show ?thesis
  proof (cases "find_slot (\<lambda>b. rb_peer b = p) bs")
    case None
    then have "\<forall>b \<in> set bs. rb_peer b \<noteq> p" by (simp add: find_slot_None)
    then have "\<forall>b \<in> set bs. bucket_ok g b" using assms(1) g by (auto simp: rl_inv_def bucket_ok_def)
    then show ?thesis using assms(1) Pass None by (simp add: mcp_rl_ok_def rl_inv_def)
  next
    case (Some i)
    then have i: "i < MCP_RL_BUCKETS" "rb_peer (bs ! i) = p" using l by (auto dest: find_slot_SomeD)
    let ?b = "(bs ! i)\<lparr>rb_failures := 0, rb_lock_until_ms := 0\<rparr>"
    have other: "rb_peer (bs ! j) \<noteq> p" if "j < MCP_RL_BUCKETS" "j \<noteq> i" "p \<noteq> 0" for j
      using assms(1) that i by (auto simp: rl_inv_def)
    have "\<forall>b \<in> set (bs[i := ?b]). bucket_ok g b"
    proof
      fix b assume "b \<in> set (bs[i := ?b])"
      then obtain j where j: "j < MCP_RL_BUCKETS" "b = bs[i := ?b] ! j" using l by (auto simp: in_set_conv_nth)
      show "bucket_ok g b"
      proof (cases "j = i")
        case True
        then show ?thesis using j i l by (simp add: bucket_ok_def)
      next
        case False
        then have "bucket_ok f b" "b = bs ! j" using j assms(1) l by (auto simp: rl_inv_def)
        then show ?thesis using other [OF j(1) False] g by (cases "p = 0") (auto simp: bucket_ok_def)
      qed
    qed
    moreover have "rb_peer (bs[i := ?b] ! j) = rb_peer (bs ! j)" if "j < MCP_RL_BUCKETS" for j
      using that l by (cases "j = i") simp_all
    ultimately have "rl_inv g (bs[i := ?b])" using assms(1) by (simp add: rl_inv_def)
    then show ?thesis using Pass Some by (simp add: mcp_rl_ok_def)
  qed
qed

lemma rl_run_inv: "rl_inv (\<lambda>p. fails_since p ops) (rl_run ops)"
proof (induction ops rule: rev_induct)
  case Nil
  then show ?case by (simp add: rl_run_def rl_boot_def rl_inv_def bucket_ok_def)
next
  case (snoc x ops)
  from rl_step_inv [OF this] show ?case by (simp add: rl_run_def fails_since_def)
qed

lemma rl_fail_head:
  "rb_peer b = p \<Longrightarrow> mcp_rl_fail p now (b # bs) =
     \<lparr>rb_peer = p, rb_failures = rb_failures b + 1,
      rb_lock_until_ms = if rb_failures b + 1 \<ge> MCP_RL_MAX_FAILURES then now + MCP_RL_LOCKOUT_MS else rb_lock_until_ms b\<rparr> # bs"
  by (cases b) (simp add: mcp_rl_fail_def rl_claim_def rl_slot_def)

lemma rl_check_head:
  "rb_peer b = p \<Longrightarrow> mcp_rl_check p now (b # bs) =
     (if rb_lock_until_ms b > now then (b # bs, ESP_ERR_TIMEOUT, rb_lock_until_ms b - now) else (b # bs, ESP_OK, 0))"
  by (simp add: mcp_rl_check_def rl_claim_def rl_slot_def)

text \<open>Eight failures of one peer after the start lock its bucket.\<close>

lemma eight_fails_lock:
  assumes "now < t + MCP_RL_LOCKOUT_MS"
  shows "fst (snd (mcp_rl_check p now (rl_run (replicate 8 (Fail p t))))) = ESP_ERR_TIMEOUT"
proof -
  let ?B = "\<lambda>n l. \<lparr>rb_peer = p, rb_failures = n, rb_lock_until_ms = l\<rparr>"
  obtain rest where b: "rl_boot = \<lparr>rb_peer = 0, rb_failures = 0, rb_lock_until_ms = 0\<rparr> # rest"
    and r: "\<forall>b \<in> set rest. rb_peer b = 0"
    by (simp add: rl_boot_def eval_nat_numeral)
  have "find_slot (\<lambda>b. rb_peer b = p) rest = None" if "p \<noteq> 0" using r that by (simp add: find_slot_None)
  then have 1: "mcp_rl_fail p t rl_boot = ?B 1 0 # rest"
    by (cases "p = 0") (simp_all add: b rl_fail_head, simp_all add: mcp_rl_fail_def rl_claim_def rl_slot_def Let_def word_le_nat_alt)
  have "replicate 8 (Fail p t) = [Fail p t, Fail p t, Fail p t, Fail p t, Fail p t, Fail p t, Fail p t, Fail p t]"
    by (simp add: eval_nat_numeral)
  then have "rl_run (replicate 8 (Fail p t)) = ?B 8 (t + MCP_RL_LOCKOUT_MS) # rest"
    by (simp add: rl_run_def 1 rl_fail_head)
  then show ?thesis using assms by (simp add: rl_check_head)
qed

section \<open>Properties\<close>

text \<open>
  C31. Whatever the other peers do, and in whatever order, a peer with an address is turned away only if it has
  itself failed at least eight times since it last succeeded.
\<close>

theorem lockout_is_own_fault:
  assumes "p \<noteq> 0" "0 \<le> now" "fst (snd (mcp_rl_check p now (rl_run ops))) = ESP_ERR_TIMEOUT"
  shows "8 \<le> fails_since p ops"
proof -
  obtain i bs where c: "rl_claim p (rl_run ops) = (i, bs)" by (meson surj_pair)
  note inv = claim_inv [OF rl_run_inv c]
  have "bs ! i \<in> set bs" using inv(1,2) by (simp add: rl_inv_def)
  then have "bucket_ok (\<lambda>p. fails_since p ops) (bs ! i)" using inv(1) by (simp add: rl_inv_def)
  then show ?thesis using assms c inv(3) by (simp add: mcp_rl_check_def bucket_ok_def split: if_splits)
qed

lemma lockout_is_own_fault_witness:
  "8 \<le> fails_since 7 (replicate 8 (Fail 7 1000))"
proof (rule lockout_is_own_fault)
  show "fst (snd (mcp_rl_check 7 2000 (rl_run (replicate 8 (Fail 7 1000))))) = ESP_ERR_TIMEOUT"
    by (rule eight_fails_lock) simp
qed simp_all

text \<open>
  C36. Peers that the socket does not report with an IPv4 address have no bucket of their own: eight failures of one
  of them lock out every other one for thirty seconds.
\<close>

theorem unnamed_peers_share_lockout:
  assumes "\<forall>a. p \<noteq> Inet a" "\<forall>a. q \<noteq> Inet a" "now < t + MCP_RL_LOCKOUT_MS"
  shows "fst (snd (mcp_rl_check (peer_ip_key q) now (rl_run (replicate 8 (Fail (peer_ip_key p) t))))) = ESP_ERR_TIMEOUT"
proof -
  have k: "peer_ip_key p = 0" "peer_ip_key q = 0" using assms(1,2) by (simp_all add: peer_ip_key_def split: peer.split)
  show ?thesis unfolding k using assms(3) by (rule eight_fails_lock)
qed

lemma unnamed_peers_share_lockout_witness:
  "fst (snd (mcp_rl_check (peer_ip_key Other_family) 1001 (rl_run (replicate 8 (Fail (peer_ip_key No_name) 1000))))) = ESP_ERR_TIMEOUT"
  by (rule unnamed_peers_share_lockout) simp_all

end
