(* ===== verification/Mcp_Tokens.thy ===== *)
theory Mcp_Tokens
  imports Runtime_Config
begin

text \<open>
  The bearer tokens of the MCP server (\<open>mcp/mcp_token_store.c\<close>): eight slots in RAM with a copy of
  each in NVS, looked up by the digest of the secret. The SHA-256 of mbedTLS is an argument, and so is whether
  each NVS call works; the code ignores its failures.
\<close>

section \<open>State\<close>

record mcp_token =
  tk_valid :: bool
  tk_enabled :: bool
  tk_id :: string
  tk_scope :: u8
  tk_created_at_ms :: ms
  tk_rotated_at_ms :: ms
  tk_digest :: string

definition no_token :: mcp_token where
  "no_token = \<lparr>tk_valid = False, tk_enabled = False, tk_id = [], tk_scope = 0, tk_created_at_ms = 0,
     tk_rotated_at_ms = 0, tk_digest = []\<rparr>"

abbreviation MCP_TOKEN_MAX :: nat where "MCP_TOKEN_MAX \<equiv> 8"
abbreviation MCP_TOKEN_ID_LEN :: nat where "MCP_TOKEN_ID_LEN \<equiv> 33"
abbreviation MCP_SCOPE_READ :: u8 where "MCP_SCOPE_READ \<equiv> 1"
abbreviation MCP_SCOPE_WRITE :: u8 where "MCP_SCOPE_WRITE \<equiv> 2"
abbreviation MCP_SCOPE_ADMIN :: u8 where "MCP_SCOPE_ADMIN \<equiv> 4"

text \<open>\<open>ts_nvs\<close>: the namespace is open; \<open>ts_blobs\<close>: the blobs stored there, by slot.\<close>

record token_store =
  ts_tokens :: "mcp_token list"
  ts_initialised :: bool
  ts_nvs :: bool
  ts_blobs :: "nat \<Rightarrow> mcp_token option"

definition token_boot :: "(nat \<Rightarrow> mcp_token option) \<Rightarrow> token_store" where
  "token_boot blobs = \<lparr>ts_tokens = replicate MCP_TOKEN_MAX no_token, ts_initialised = False, ts_nvs = False, ts_blobs = blobs\<rparr>"

section \<open>Digests\<close>

text \<open>The difference of two digests, gathered over all 64 characters.\<close>

definition digest_equal :: "string \<Rightarrow> string \<Rightarrow> bool" where
  "digest_equal a b =
     (fold (\<lambda>i diff. diff OR (word_of_nat (of_char (a ! i)) XOR word_of_nat (of_char (b ! i)))) [0..<64] (0 :: u8) = 0)"

definition sha256_hex :: "(string \<Rightarrow> u8 list) \<Rightarrow> string \<Rightarrow> string" where
  "sha256_hex sha secret = concat (map (\<lambda>b. hex False 2 (unat b)) (sha secret))"

definition digest_is_valid :: "string option \<Rightarrow> bool" where
  "digest_is_valid h = (case h of None \<Rightarrow> False | Some s \<Rightarrow> length s = 64 \<and> list_all (\<lambda>c. hex_val c \<noteq> None) s)"

section \<open>Slots\<close>

text \<open>\<open>ok\<close>: the NVS call works.\<close>

definition persist_slot :: "bool \<Rightarrow> nat \<Rightarrow> token_store \<Rightarrow> token_store" where
  "persist_slot ok i s =
     (if \<not> ok then s
      else s\<lparr>ts_blobs := (ts_blobs s)(i := if tk_valid (ts_tokens s ! i) then Some (ts_tokens s ! i) else None)\<rparr>)"

definition find_empty_slot :: "token_store \<Rightarrow> nat option" where
  "find_empty_slot s = find_slot (\<lambda>t. \<not> tk_valid t) (ts_tokens s)"

definition find_by_id :: "string \<Rightarrow> token_store \<Rightarrow> nat option" where
  "find_by_id name s = find_slot (\<lambda>t. tk_valid t \<and> tk_id t = name) (ts_tokens s)"

definition put_slot :: "bool \<Rightarrow> nat \<Rightarrow> mcp_token \<Rightarrow> token_store \<Rightarrow> token_store" where
  "put_slot ok i t s =
     (let s = s\<lparr>ts_tokens := (ts_tokens s)[i := t]\<rparr> in if ts_nvs s then persist_slot ok i s else s)"

definition load_slots :: "(nat \<Rightarrow> mcp_token option) \<Rightarrow> mcp_token list" where
  "load_slots blobs = map (\<lambda>i. case blobs i of Some t \<Rightarrow> if tk_valid t then t else no_token | None \<Rightarrow> no_token) [0..<MCP_TOKEN_MAX]"

definition admin_scope :: u8 where
  "admin_scope = MCP_SCOPE_READ OR MCP_SCOPE_WRITE OR MCP_SCOPE_ADMIN"

text \<open>\<open>opens\<close>: the namespace can be opened; \<open>now\<close>: the milliseconds since boot.\<close>

definition mcp_token_store_init :: "bool \<Rightarrow> bool \<Rightarrow> runtime_config \<Rightarrow> ms \<Rightarrow> token_store \<Rightarrow> token_store" where
  "mcp_token_store_init opens ok cfg now s =
     (if ts_initialised s then s
      else
        let s = s\<lparr>ts_tokens := (if opens then load_slots (ts_blobs s) else replicate MCP_TOKEN_MAX no_token), ts_nvs := opens\<rparr>;
            digest = sec_password_sha256 (rc_security cfg);
            s = (if \<not> list_ex tk_valid (ts_tokens s) \<and> digest_is_valid (Some digest) \<and> sec_auth_enabled (rc_security cfg)
                 then (case find_empty_slot s of
                         None \<Rightarrow> s
                       | Some i \<Rightarrow> put_slot ok i ((ts_tokens s ! i)\<lparr>tk_valid := True, tk_enabled := True, tk_id := ''admin'',
                             tk_scope := admin_scope, tk_created_at_ms := now, tk_rotated_at_ms := now,
                             tk_digest := strlcpy 65 digest\<rparr>) s)
                 else s)
        in s\<lparr>ts_initialised := True\<rparr>)"

definition mcp_token_authenticate :: "string option \<Rightarrow> token_store \<Rightarrow> mcp_token + esp_err" where
  "mcp_token_authenticate digest s =
     (case digest of
        None \<Rightarrow> Inr ESP_ERR_INVALID_ARG
      | Some h \<Rightarrow>
          (if \<not> digest_is_valid (Some h) then Inr ESP_ERR_INVALID_ARG
           else case List.find (\<lambda>t. tk_valid t \<and> tk_enabled t \<and> digest_equal (tk_digest t) h) (ts_tokens s) of
               Some t \<Rightarrow> Inl t
             | None \<Rightarrow> Inr ESP_ERR_NOT_ALLOWED))"

definition mcp_token_has_scope :: "mcp_token option \<Rightarrow> u8 \<Rightarrow> bool" where
  "mcp_token_has_scope t scope = (case t of None \<Rightarrow> False | Some t \<Rightarrow> tk_scope t AND scope \<noteq> 0)"

definition mcp_token_create ::
  "(string \<Rightarrow> u8 list) \<Rightarrow> bool \<Rightarrow> ms \<Rightarrow> string option \<Rightarrow> u8 \<Rightarrow> string option \<Rightarrow> token_store \<Rightarrow> token_store \<times> (mcp_token + esp_err)" where
  "mcp_token_create sha ok now name scope secret s =
     (case (name, secret) of
        (Some name, Some secret) \<Rightarrow>
          (if name = [] \<or> length name \<ge> MCP_TOKEN_ID_LEN \<or> secret = [] \<or> scope = 0 then (s, Inr ESP_ERR_INVALID_ARG)
           else if find_by_id name s \<noteq> None then (s, Inr ESP_ERR_INVALID_STATE)
           else case find_empty_slot s of
               None \<Rightarrow> (s, Inr ESP_ERR_INVALID_STATE)
             | Some i \<Rightarrow>
                 (let t = \<lparr>tk_valid = True, tk_enabled = True, tk_id = strlcpy MCP_TOKEN_ID_LEN name,
                        tk_scope = scope AND admin_scope, tk_created_at_ms = now, tk_rotated_at_ms = now,
                        tk_digest = sha256_hex sha secret\<rparr>
                  in (put_slot ok i t s, Inl t)))
      | _ \<Rightarrow> (s, Inr ESP_ERR_INVALID_ARG))"

definition mcp_token_list :: "nat \<Rightarrow> token_store \<Rightarrow> mcp_token list" where
  "mcp_token_list count s = take count (filter tk_valid (ts_tokens s))"

definition is_admin :: "mcp_token \<Rightarrow> bool" where
  "is_admin t \<longleftrightarrow> tk_scope t AND MCP_SCOPE_ADMIN \<noteq> 0"

definition admin_count :: "token_store \<Rightarrow> nat" where
  "admin_count s = length (filter (\<lambda>t. tk_valid t \<and> tk_enabled t \<and> is_admin t) (ts_tokens s))"

definition mcp_token_delete :: "bool \<Rightarrow> string \<Rightarrow> token_store \<Rightarrow> token_store \<times> esp_err" where
  "mcp_token_delete ok name s =
     (case find_by_id name s of
        None \<Rightarrow> (s, ESP_ERR_NOT_FOUND)
      | Some i \<Rightarrow>
          (if is_admin (ts_tokens s ! i) \<and> admin_count s \<le> 1 then (s, ESP_ERR_INVALID_STATE)
           else (put_slot ok i no_token s, ESP_OK)))"

definition mcp_token_rotate ::
  "(string \<Rightarrow> u8 list) \<Rightarrow> bool \<Rightarrow> ms \<Rightarrow> string \<Rightarrow> string option \<Rightarrow> token_store \<Rightarrow> token_store \<times> (mcp_token + esp_err)" where
  "mcp_token_rotate sha ok now name secret s =
     (case find_by_id name s of
        None \<Rightarrow> (s, Inr ESP_ERR_NOT_FOUND)
      | Some i \<Rightarrow>
          (case secret of
             None \<Rightarrow> (s, Inr ESP_ERR_INVALID_ARG)
           | Some secret \<Rightarrow>
               (if secret = [] then (s, Inr ESP_ERR_INVALID_ARG)
                else let t = (ts_tokens s ! i)\<lparr>tk_digest := sha256_hex sha secret, tk_rotated_at_ms := now\<rparr>
                  in (put_slot ok i t s, Inl t))))"

definition mcp_token_count :: "token_store \<Rightarrow> nat" where
  "mcp_token_count s = length (filter tk_valid (ts_tokens s))"

text \<open>The changes the web and MCP layers ask for, each with whether NVS takes it.\<close>

datatype token_op =
    Create ms "string option" u8 "string option"
  | Delete string
  | Rotate ms string "string option"

definition token_step :: "(string \<Rightarrow> u8 list) \<Rightarrow> bool \<times> token_op \<Rightarrow> token_store \<Rightarrow> token_store" where
  "token_step sha req s =
     (case req of
        (ok, Create now name scope secret) \<Rightarrow> fst (mcp_token_create sha ok now name scope secret s)
      | (ok, Delete name) \<Rightarrow> fst (mcp_token_delete ok name s)
      | (ok, Rotate now name secret) \<Rightarrow> fst (mcp_token_rotate sha ok now name secret s))"

definition token_run :: "(string \<Rightarrow> u8 list) \<Rightarrow> (bool \<times> token_op) list \<Rightarrow> token_store \<Rightarrow> token_store" where
  "token_run sha = fold (token_step sha)"

section \<open>Lemmas\<close>

lemma gather_zero:
  "(fold (\<lambda>i diff. diff OR f i) is d = (0 :: u8)) \<longleftrightarrow> d = 0 \<and> (\<forall>i \<in> set is. f i = 0)"
  by (induction "is" arbitrary: d) (auto simp: or_eq_0_iff)

lemma char_word_inj: "(word_of_nat (of_char c) :: u8) = word_of_nat (of_char c') \<longleftrightarrow> c = c'"
proof
  assume "(word_of_nat (of_char c) :: u8) = word_of_nat (of_char c')"
  from arg_cong [OF this, of unat] show "c = c'" by (simp add: unat_of_nat take_bit_eq_mod)
qed simp

lemma xor_zero: "a XOR b = 0 \<longleftrightarrow> a = b" for a b :: u8
  by (auto simp: bit_eq_iff bit_simps)

lemma digest_equal_iff:
  "length a = 64 \<Longrightarrow> length b = 64 \<Longrightarrow> digest_equal a b \<longleftrightarrow> a = b"
  by (auto simp: digest_equal_def gather_zero xor_zero char_word_inj list_eq_iff_nth_eq)

text \<open>Well-formed slots: tokens in use have different names and full digests.\<close>

definition token_ok :: "mcp_token \<Rightarrow> bool" where
  "token_ok t \<longleftrightarrow> tk_valid t \<longrightarrow> tk_id t \<noteq> [] \<and> length (tk_digest t) = 64"

definition tokens_inv :: "token_store \<Rightarrow> bool" where
  "tokens_inv s \<longleftrightarrow> length (ts_tokens s) = MCP_TOKEN_MAX \<and> (\<forall>t \<in> set (ts_tokens s). token_ok t) \<and>
     (\<forall>i < MCP_TOKEN_MAX. \<forall>j < MCP_TOKEN_MAX. tk_valid (ts_tokens s ! i) \<longrightarrow> tk_valid (ts_tokens s ! j) \<longrightarrow>
        tk_id (ts_tokens s ! i) = tk_id (ts_tokens s ! j) \<longrightarrow> i = j)"

text \<open>NVS holds what RAM holds.\<close>

definition tokens_saved :: "token_store \<Rightarrow> bool" where
  "tokens_saved s \<longleftrightarrow> (\<forall>i < MCP_TOKEN_MAX. ts_blobs s i = (if tk_valid (ts_tokens s ! i) then Some (ts_tokens s ! i) else None)) \<and>
     (\<forall>t \<in> set (ts_tokens s). tk_valid t \<or> t = no_token)"

lemma put_slot_tokens [simp]: "ts_tokens (put_slot ok i t s) = (ts_tokens s)[i := t]"
  by (simp add: put_slot_def persist_slot_def Let_def)

lemma put_slot_nvs [simp]: "ts_nvs (put_slot ok i t s) = ts_nvs s"
  by (simp add: put_slot_def persist_slot_def Let_def)

lemma length_sha256_hex: "length (sha s) = 32 \<Longrightarrow> length (sha256_hex sha s) = 64"
proof -
  have "length (concat (map (\<lambda>b. hex False 2 (unat b)) bs)) = 2 * length bs" for bs :: "u8 list"
    by (induction bs) simp_all
  then show "length (sha s) = 32 \<Longrightarrow> length (sha256_hex sha s) = 64" by (simp add: sha256_hex_def)
qed

lemma put_slot_inv:
  assumes "tokens_inv s" "i < MCP_TOKEN_MAX" "token_ok t"
    and "\<And>j. j < MCP_TOKEN_MAX \<Longrightarrow> j \<noteq> i \<Longrightarrow> tk_valid t \<Longrightarrow> tk_valid (ts_tokens s ! j) \<Longrightarrow> tk_id (ts_tokens s ! j) \<noteq> tk_id t"
  shows "tokens_inv (put_slot ok i t s)"
  using assms(1-3) assms(4) [symmetric] set_update_subset_insert [of "ts_tokens s" i t]
  by (auto simp: tokens_inv_def nth_list_update dest: assms(4))

lemma put_slot_saved:
  "tokens_saved s \<Longrightarrow> ts_nvs s \<Longrightarrow> length (ts_tokens s) = MCP_TOKEN_MAX \<Longrightarrow> i < MCP_TOKEN_MAX \<Longrightarrow> tk_valid t \<or> t = no_token \<Longrightarrow>
   tokens_saved (put_slot True i t s)"
  using set_update_subset_insert [of "ts_tokens s" i t]
  by (auto simp: tokens_saved_def put_slot_def persist_slot_def Let_def nth_list_update)

lemma found_slot:
  assumes "tokens_inv s" "find_by_id name s = Some i"
  shows "i < MCP_TOKEN_MAX" "tk_valid (ts_tokens s ! i)" "tk_id (ts_tokens s ! i) = name"
  using assms by (auto simp: find_by_id_def find_slot_Some tokens_inv_def)

lemma empty_slot:
  assumes "tokens_inv s" "find_empty_slot s = Some i"
  shows "i < MCP_TOKEN_MAX" "\<not> tk_valid (ts_tokens s ! i)"
  using assms by (auto simp: find_empty_slot_def find_slot_Some tokens_inv_def)

lemma new_name:
  assumes "tokens_inv s" "find_by_id name s = None" "j < MCP_TOKEN_MAX" "tk_valid (ts_tokens s ! j)"
  shows "tk_id (ts_tokens s ! j) \<noteq> name"
  using assms by (auto simp: find_by_id_def find_slot_None tokens_inv_def)

text \<open>A step changes nothing, or sets one slot so that names stay distinct and an enabled admin stays.\<close>

definition enabled_admin :: "mcp_token \<Rightarrow> bool" where
  "enabled_admin t \<longleftrightarrow> tk_valid t \<and> tk_enabled t \<and> is_admin t"

definition good_slot :: "token_store \<Rightarrow> nat \<Rightarrow> mcp_token \<Rightarrow> bool" where
  "good_slot s i t \<longleftrightarrow> i < MCP_TOKEN_MAX \<and> token_ok t \<and> (tk_valid t \<or> t = no_token) \<and>
     (\<forall>j < MCP_TOKEN_MAX. j \<noteq> i \<longrightarrow> tk_valid t \<longrightarrow> tk_valid (ts_tokens s ! j) \<longrightarrow> tk_id (ts_tokens s ! j) \<noteq> tk_id t) \<and>
     (enabled_admin (ts_tokens s ! i) \<longrightarrow> enabled_admin t \<or> 1 < admin_count s)"

lemma create_slot:
  assumes "tokens_inv s" "\<And>x. length (sha x) = 32" "mcp_token_create sha ok now name scope secret s = (s', r)"
  shows "s' = s \<or> (\<exists>i t. s' = put_slot ok i t s \<and> good_slot s i t)"
proof (cases "s' = s")
  case False
  then obtain i na se where new: "name = Some na" "secret = Some se" "na \<noteq> []" "length na < MCP_TOKEN_ID_LEN"
      "find_by_id na s = None" "find_empty_slot s = Some i" and
    s': "s' = put_slot ok i \<lparr>tk_valid = True, tk_enabled = True, tk_id = strlcpy MCP_TOKEN_ID_LEN na,
      tk_scope = scope AND admin_scope, tk_created_at_ms = now, tk_rotated_at_ms = now, tk_digest = sha256_hex sha se\<rparr> s"
    (is "_ = put_slot ok i ?t s")
    using assms(3) by (auto simp: mcp_token_create_def Let_def split: option.splits if_splits)
  have "strlcpy MCP_TOKEN_ID_LEN na = na" using new(4) by simp
  then have "good_slot s i ?t"
    using empty_slot [OF assms(1) new(6)] new_name [OF assms(1) new(5)] new(3) length_sha256_hex [of sha se, OF assms(2)]
    by (simp add: good_slot_def token_ok_def enabled_admin_def)
  then show ?thesis using s' by blast
qed simp

lemma delete_slot:
  assumes "tokens_inv s" "mcp_token_delete ok name s = (s', r)"
  shows "s' = s \<or> (\<exists>i t. s' = put_slot ok i t s \<and> good_slot s i t)"
proof (cases "s' = s")
  case False
  then obtain i where i: "find_by_id name s = Some i" "\<not> (is_admin (ts_tokens s ! i) \<and> admin_count s \<le> 1)"
      and s': "s' = put_slot ok i no_token s"
    using assms(2) by (auto simp: mcp_token_delete_def split: option.splits if_splits)
  have "\<not> tk_valid no_token" by (simp add: no_token_def)
  then have "good_slot s i no_token"
    using found_slot [OF assms(1) i(1)] i(2) by (auto simp: good_slot_def token_ok_def enabled_admin_def)
  then show ?thesis using s' by blast
qed simp

lemma rotate_slot:
  assumes "tokens_inv s" "\<And>x. length (sha x) = 32" "mcp_token_rotate sha ok now name secret s = (s', r)"
  shows "s' = s \<or> (\<exists>i t. s' = put_slot ok i t s \<and> good_slot s i t)"
proof (cases "s' = s")
  case False
  then obtain i se where i: "find_by_id name s = Some i" "secret = Some se" and
    s': "s' = put_slot ok i ((ts_tokens s ! i)\<lparr>tk_digest := sha256_hex sha se, tk_rotated_at_ms := now\<rparr>) s"
    using assms(3) by (auto simp: mcp_token_rotate_def Let_def split: option.splits if_splits)
  note f = found_slot [OF assms(1) i(1)]
  have "tk_id (ts_tokens s ! j) \<noteq> tk_id (ts_tokens s ! i)" if "j < MCP_TOKEN_MAX" "j \<noteq> i" "tk_valid (ts_tokens s ! j)" for j
    using assms(1) f that by (auto simp: tokens_inv_def)
  moreover have "tk_id (ts_tokens s ! i) \<noteq> []"
    using assms(1) f by (auto simp: tokens_inv_def token_ok_def)
  ultimately have "good_slot s i ((ts_tokens s ! i)\<lparr>tk_digest := sha256_hex sha se, tk_rotated_at_ms := now\<rparr>)"
    using f length_sha256_hex [OF assms(2)] by (auto simp: good_slot_def token_ok_def enabled_admin_def is_admin_def)
  then show ?thesis using s' by blast
qed simp

lemma step_shape:
  assumes "tokens_inv s" "\<And>x. length (sha x) = 32"
  shows "token_step sha req s = s \<or> (\<exists>i t. token_step sha req s = put_slot (fst req) i t s \<and> good_slot s i t)"
  using create_slot [of s sha, OF assms] delete_slot [OF assms(1)] rotate_slot [of s sha, OF assms]
  by (cases req; cases "snd req") (simp_all add: token_step_def, (metis prod.collapse)+)

lemma step_inv:
  assumes "tokens_inv s" "\<And>x. length (sha x) = 32"
  shows "tokens_inv (token_step sha req s)"
  using step_shape [of s sha req, OF assms] put_slot_inv [OF assms(1)] assms(1) by (auto simp: good_slot_def)

lemma step_saved:
  assumes "tokens_inv s" "\<And>x. length (sha x) = 32" "tokens_saved s" "ts_nvs s" "fst req"
  shows "tokens_saved (token_step sha req s) \<and> ts_nvs (token_step sha req s)"
  using step_shape [of s sha req, OF assms(1,2)] put_slot_saved [OF assms(3,4)] assms
  by (auto simp: good_slot_def tokens_inv_def)

lemma admin_count_iff: "0 < admin_count s \<longleftrightarrow> (\<exists>t \<in> set (ts_tokens s). enabled_admin t)"
  by (auto simp: admin_count_def enabled_admin_def filter_empty_conv)

lemma two_admins:
  assumes "1 < admin_count s" "i < length (ts_tokens s)"
  shows "\<exists>j < length (ts_tokens s). j \<noteq> i \<and> enabled_admin (ts_tokens s ! j)"
proof (rule ccontr)
  assume none: "\<not> ?thesis"
  have "filter enabled_admin xs = [] \<or> length (filter enabled_admin xs) = 1"
    if "\<forall>j < length xs. j \<noteq> k \<longrightarrow> \<not> enabled_admin (xs ! j)" for xs k
    using that
  proof (induction xs arbitrary: k)
    case (Cons x xs)
    show ?case
    proof (cases k)
      case 0
      then have "\<forall>y \<in> set xs. \<not> enabled_admin y" using Cons.prems by (fastforce simp: in_set_conv_nth)
      then have "filter enabled_admin xs = []" by (simp add: filter_empty_conv)
      then show ?thesis by simp
    next
      case (Suc m)
      then have "\<not> enabled_admin x" "\<forall>j < length xs. j \<noteq> m \<longrightarrow> \<not> enabled_admin (xs ! j)" using Cons.prems by force+
      then show ?thesis using Cons.IH by simp
    qed
  qed simp
  moreover have "\<forall>j < length (ts_tokens s). j \<noteq> i \<longrightarrow> \<not> enabled_admin (ts_tokens s ! j)" using none by blast
  ultimately have "filter enabled_admin (ts_tokens s) = [] \<or> length (filter enabled_admin (ts_tokens s)) = 1" by blast
  then have "length (filter enabled_admin (ts_tokens s)) \<le> 1" by auto
  moreover have "filter enabled_admin (ts_tokens s) = filter (\<lambda>t. tk_valid t \<and> tk_enabled t \<and> is_admin t) (ts_tokens s)"
    by (rule filter_cong) (simp_all add: enabled_admin_def)
  ultimately show False using assms(1) by (simp add: admin_count_def)
qed

lemma step_admin:
  assumes "tokens_inv s" "\<And>x. length (sha x) = 32" "0 < admin_count s"
  shows "0 < admin_count (token_step sha req s)"
proof -
  have len: "length (ts_tokens s) = MCP_TOKEN_MAX" using assms(1) by (simp add: tokens_inv_def)
  consider "token_step sha req s = s" | i t where "token_step sha req s = put_slot (fst req) i t s" "good_slot s i t"
    using step_shape [of s sha req, OF assms(1,2)] by blast
  then show ?thesis
  proof cases
    case 1
    then show ?thesis using assms(3) by simp
  next
    case 2
    have i: "i < length (ts_tokens s)" using 2(2) len by (simp add: good_slot_def)
    have "\<exists>j < length (ts_tokens s). enabled_admin ((ts_tokens s)[i := t] ! j)"
    proof (cases "enabled_admin (ts_tokens s ! i)")
      case True
      then have "enabled_admin t \<or> 1 < admin_count s" using 2(2) by (simp add: good_slot_def)
      then show ?thesis
      proof
        assume "enabled_admin t"
        then show ?thesis using i by (intro exI [of _ i]) simp
      next
        assume "1 < admin_count s"
        from two_admins [OF this i] show ?thesis by (metis nth_list_update_neq)
      qed
    next
      case False
      obtain j where "j < length (ts_tokens s)" "enabled_admin (ts_tokens s ! j)"
        using assms(3) by (auto simp: admin_count_iff in_set_conv_nth)
      then show ?thesis using False by (intro exI [of _ j]) (metis nth_list_update_neq)
    qed
    then obtain j where "j < length ((ts_tokens s)[i := t])" "enabled_admin ((ts_tokens s)[i := t] ! j)" by auto
    then have "\<exists>t' \<in> set ((ts_tokens s)[i := t]). enabled_admin t'" using nth_mem by blast
    then show ?thesis using 2(1) by (simp add: admin_count_iff)
  qed
qed

lemma run_inv:
  assumes "\<And>x. length (sha x) = 32"
  shows "tokens_inv s \<Longrightarrow> tokens_inv (token_run sha ops s) \<and> (0 < admin_count s \<longrightarrow> 0 < admin_count (token_run sha ops s)) \<and>
    (list_all fst ops \<and> tokens_saved s \<and> ts_nvs s \<longrightarrow> tokens_saved (token_run sha ops s))"
proof (induction ops arbitrary: s)
  case (Cons req reqs)
  show ?case
    using Cons.IH [OF step_inv [of s sha req, OF Cons.prems assms]] step_admin [of s sha req, OF Cons.prems assms]
      step_saved [of s sha req, OF Cons.prems assms]
    by (auto simp: token_run_def)
qed (simp add: token_run_def)

lemma load_saved: "tokens_inv s \<Longrightarrow> tokens_saved s \<Longrightarrow> load_slots (ts_blobs s) = ts_tokens s"
  by (rule nth_equalityI) (fastforce simp: load_slots_def tokens_saved_def tokens_inv_def all_set_conv_all_nth)+

text \<open>
  A password digest in upper case passes the check of the bootstrap, but the digest of a bearer is written
  in lower case, so no secret reaches the token.
\<close>

lemma sha256_hex_lower: "CHR ''A'' \<notin> set (sha256_hex sha x)"
proof -
  have c: "hex_char False (n mod 16) \<noteq> CHR ''A''" for n
  proof
    assume "hex_char False (n mod 16) = CHR ''A''"
    from arg_cong [OF this, of "of_char :: char \<Rightarrow> nat"] show False
      by (simp add: hex_char_def split: if_splits)
  qed
  have "CHR ''A'' \<notin> set (hex False k n)" for k n
    by (induction k arbitrary: n) (use c in \<open>auto dest: sym\<close>)
  then show ?thesis by (simp add: sha256_hex_def)
qed

lemma uppercase_digest_unreachable:
  assumes "CHR ''A'' \<in> set d" "length d = 64"
  shows "length (sha256_hex sha x) = 64 \<Longrightarrow> \<not> digest_equal d (sha256_hex sha x)"
  using assms sha256_hex_lower [of sha x] by (auto simp: digest_equal_iff)

text \<open>A fresh store with one admin token.\<close>

definition zero_sha :: "string \<Rightarrow> u8 list" where
  "zero_sha x = replicate 32 0"

definition one_admin :: token_store where
  "one_admin = fst (mcp_token_create zero_sha True 5 (Some ''root'') admin_scope (Some ''s'') ((token_boot (\<lambda>_. None))\<lparr>ts_initialised := True, ts_nvs := True\<rparr>))"

lemma length_zero_sha: "length (zero_sha x) = 32"
  by (simp add: zero_sha_def)

lemma boot_inv: "tokens_inv ((token_boot (\<lambda>_. None))\<lparr>ts_initialised := True, ts_nvs := True\<rparr>)"
  by (auto simp: tokens_inv_def token_boot_def no_token_def token_ok_def)

lemma boot_saved: "tokens_saved ((token_boot (\<lambda>_. None))\<lparr>ts_initialised := True, ts_nvs := True\<rparr>)"
  by (auto simp: tokens_saved_def token_boot_def no_token_def)

lemma one_admin_step:
  "one_admin = token_step zero_sha (True, Create 5 (Some ''root'') admin_scope (Some ''s'')) ((token_boot (\<lambda>_. None))\<lparr>ts_initialised := True, ts_nvs := True\<rparr>)"
  by (simp add: one_admin_def token_step_def)

lemma zero_digest: "sha256_hex zero_sha x = replicate 64 CHR ''0''"
proof -
  have "hex False 2 0 = ''00''" by code_simp
  moreover have "concat (replicate n ''00'') = replicate (2 * n) CHR ''0''" for n by (induction n) simp_all
  ultimately show ?thesis by (simp add: sha256_hex_def zero_sha_def)
qed

lemma eight_slots: "replicate MCP_TOKEN_MAX no_token = no_token # replicate 7 no_token"
  using replicate_Suc [of 7 no_token] by simp

lemma one_admin_tokens:
  "ts_tokens one_admin = \<lparr>tk_valid = True, tk_enabled = True, tk_id = ''root'', tk_scope = 7, tk_created_at_ms = 5,
     tk_rotated_at_ms = 5, tk_digest = replicate 64 CHR ''0''\<rparr> # replicate 7 no_token"
  "ts_nvs one_admin"
proof -
  have "\<not> tk_valid no_token" by (simp add: no_token_def)
  then show "ts_tokens one_admin = \<lparr>tk_valid = True, tk_enabled = True, tk_id = ''root'', tk_scope = 7, tk_created_at_ms = 5,
     tk_rotated_at_ms = 5, tk_digest = replicate 64 CHR ''0''\<rparr> # replicate 7 no_token" "ts_nvs one_admin"
    by (auto simp: one_admin_def token_boot_def mcp_token_create_def find_by_id_def find_empty_slot_def find_slot_None
        admin_scope_def zero_digest eight_slots Let_def split: option.splits)
qed

lemma one_admin_inv: "tokens_inv one_admin"
  unfolding one_admin_step by (rule step_inv [OF boot_inv length_zero_sha])

lemma one_admin_saved: "tokens_saved one_admin"
  unfolding one_admin_step
  using step_saved [OF boot_inv length_zero_sha boot_saved, of "(True, Create 5 (Some ''root'') admin_scope (Some ''s''))"] by simp

lemma one_admin_admin: "0 < admin_count one_admin"
  by (simp add: admin_count_def one_admin_tokens is_admin_def)

section \<open>Properties\<close>

text \<open>
  C14. Creating, deleting and rotating tokens in any order, whether or not NVS takes the changes,
  keeps the names of the tokens distinct, every digest complete, and never locks out: an enabled
  administrator stays.
\<close>

theorem admin_never_lost:
  assumes "\<And>x. length (sha x) = 32" "tokens_inv s" "0 < admin_count s"
  shows "tokens_inv (token_run sha reqs s) \<and> 0 < admin_count (token_run sha reqs s)"
  using run_inv [of sha, OF assms(1,2)] assms(3) by blast

lemma admin_never_lost_witness:
  "0 < admin_count (token_run zero_sha [(True, Delete ''root''), (False, Create 9 (Some ''b'') 1 (Some ''t''))] one_admin)"
  using admin_never_lost [of zero_sha, OF length_zero_sha one_admin_inv one_admin_admin,
      of "[(True, Delete ''root''), (False, Create 9 (Some ''b'') 1 (Some ''t''))]"]
  by simp

text \<open>
  After a rotation the token is only reached through the digest of the new secret, with its
  name, scope and creation time as before; the digests that reach other tokens still do.
\<close>

theorem rotation_replaces_secret:
  assumes "\<And>x. length (sha x) = 32" "tokens_inv s" "mcp_token_rotate sha ok now name secret s = (s', Inl t)"
    "mcp_token_authenticate (Some d) s' = Inl u" "tk_id u = name"
  shows "u = t \<and> secret \<noteq> None \<and> d = sha256_hex sha (the secret) \<and>
    (\<exists>t' \<in> set (ts_tokens s). tk_id t' = name \<and> t = t'\<lparr>tk_digest := d, tk_rotated_at_ms := now\<rparr>)"
proof -
  obtain i se where i: "find_by_id name s = Some i" "secret = Some se" and
    t: "t = (ts_tokens s ! i)\<lparr>tk_digest := sha256_hex sha se, tk_rotated_at_ms := now\<rparr>" and s': "s' = put_slot ok i t s"
    using assms(3) by (auto simp: mcp_token_rotate_def Let_def split: option.splits if_splits)
  note f = found_slot [OF assms(2) i(1)]
  have len: "length (ts_tokens s) = MCP_TOKEN_MAX" using assms(2) by (simp add: tokens_inv_def)
  have d: "length d = 64" and find: "List.find (\<lambda>x. tk_valid x \<and> tk_enabled x \<and> digest_equal (tk_digest x) d) ((ts_tokens s)[i := t]) = Some u"
    using assms(4) s' by (auto simp: mcp_token_authenticate_def digest_is_valid_def split: if_splits option.splits)
  then obtain j where j: "j < length (ts_tokens s)" "u = (ts_tokens s)[i := t] ! j" "tk_valid u" "digest_equal (tk_digest u) d"
    by (auto simp: find_Some_iff)
  have "j = i"
  proof (rule ccontr)
    assume "j \<noteq> i"
    then show False using j f assms(2,5) len by (auto simp: tokens_inv_def)
  qed
  then have "u = t" using j f(1) len by simp
  moreover have "d = sha256_hex sha se"
    using j(4) \<open>u = t\<close> t d length_sha256_hex [of sha se, OF assms(1)] by (simp add: digest_equal_iff)
  moreover have "ts_tokens s ! i \<in> set (ts_tokens s)" using f(1) len by simp
  ultimately show ?thesis using t f(3) i(2) by auto
qed

lemma rotation_replaces_secret_witness:
  "\<exists>s' t. mcp_token_rotate zero_sha True 8 ''root'' (Some ''n'') one_admin = (s', Inl t) \<and>
     mcp_token_authenticate (Some (replicate 64 CHR ''0'')) s' = Inl t \<and> tk_scope t = 7 \<and> tk_rotated_at_ms t = 8"
proof -
  obtain s' t where r: "mcp_token_rotate zero_sha True 8 ''root'' (Some ''n'') one_admin = (s', Inl t)" and
    t: "t = \<lparr>tk_valid = True, tk_enabled = True, tk_id = ''root'', tk_scope = 7, tk_created_at_ms = 5,
     tk_rotated_at_ms = 8, tk_digest = replicate 64 CHR ''0''\<rparr>" and s': "ts_tokens s' = t # replicate 7 no_token"
    by (simp add: mcp_token_rotate_def find_by_id_def one_admin_tokens zero_digest Let_def)
  have a: "mcp_token_authenticate (Some (replicate 64 CHR ''0'')) s' = Inl t"
    using t by (simp add: mcp_token_authenticate_def digest_is_valid_def s' digest_equal_iff hex_val_def list_all_iff)
  from rotation_replaces_secret [of zero_sha, OF length_zero_sha one_admin_inv r a] show ?thesis using r a t by simp
qed

text \<open>
  When NVS took every change, a restart brings the same tokens back.
\<close>

theorem tokens_survive_restart:
  assumes "\<And>x. length (sha x) = 32" "tokens_inv s" "tokens_saved s" "ts_nvs s" "0 < admin_count s" "\<forall>r \<in> set reqs. fst r"
  shows "ts_tokens (mcp_token_store_init True ok cfg now (token_boot (ts_blobs (token_run sha reqs s)))) = ts_tokens (token_run sha reqs s)"
proof -
  let ?s = "token_run sha reqs s"
  have inv: "tokens_inv ?s" "0 < admin_count ?s" "tokens_saved ?s"
    using run_inv [of sha, OF assms(1,2), of reqs] assms(3-6) by (auto simp: list_all_iff)
  then have "\<exists>t \<in> set (ts_tokens ?s). tk_valid t" by (auto simp: admin_count_iff enabled_admin_def)
  moreover have "load_slots (ts_blobs ?s) = ts_tokens ?s" using inv by (intro load_saved)
  ultimately show ?thesis by (auto simp: mcp_token_store_init_def token_boot_def Let_def list_ex_iff)
qed

lemma tokens_survive_restart_witness:
  "ts_tokens (mcp_token_store_init True True load_defaults 0
     (token_boot (ts_blobs (token_run zero_sha [(True, Rotate 8 ''root'' (Some ''n''))] one_admin)))) =
   ts_tokens (token_run zero_sha [(True, Rotate 8 ''root'' (Some ''n''))] one_admin)"
  by (rule tokens_survive_restart [of zero_sha, OF length_zero_sha one_admin_inv one_admin_saved one_admin_tokens(2) one_admin_admin]) simp

end
