(* ===== verification/Automation_Engine.thy ===== *)
theory Automation_Engine
  imports Control_Service Tcm_State_Pool Ring_Log Mqtt_Handler
begin

text \<open>
  The offline rules (\<open>automation/automation_engine.c\<close>): the rule table and its copy in NVS, the condition
  of a rule with its hysteresis, hold and cooldown times, the interlock, the two actions, and the audit ring.
  The task works on a snapshot of the rules while the web server edits them; its pass is a sequence of
  evaluations, so that edits can be placed between any two of them. Actions go through
  \<open>Control_Service\<close> and \<open>Mqtt_Handler\<close>.
\<close>

section \<open>State\<close>

text \<open>The operator and the action are C enumerations that a request may set out of range, so they are words.\<close>

abbreviation RULE_OP_GT :: u32 where "RULE_OP_GT \<equiv> 0"
abbreviation RULE_OP_GTE :: u32 where "RULE_OP_GTE \<equiv> 1"
abbreviation RULE_OP_LT :: u32 where "RULE_OP_LT \<equiv> 2"
abbreviation RULE_OP_LTE :: u32 where "RULE_OP_LTE \<equiv> 3"
abbreviation RULE_OP_EQ :: u32 where "RULE_OP_EQ \<equiv> 4"
abbreviation RULE_OP_NEQ :: u32 where "RULE_OP_NEQ \<equiv> 5"
abbreviation RULE_ACTION_WRITE_POINT :: u32 where "RULE_ACTION_WRITE_POINT \<equiv> 0"
abbreviation RULE_ACTION_MQTT_ALERT :: u32 where "RULE_ACTION_MQTT_ALERT \<equiv> 1"
abbreviation AUTOMATION_MAX_RULES :: nat where "AUTOMATION_MAX_RULES \<equiv> 16"
abbreviation AUTOMATION_AUDIT_CAPACITY :: nat where "AUTOMATION_AUDIT_CAPACITY \<equiv> 64"

record automation_rule =
  ar_id :: u32
  ar_enabled :: bool
  ar_name :: string
  ar_source_device :: string
  ar_source_point :: string
  ar_operator :: u32
  ar_threshold :: f32
  ar_hysteresis :: f32
  ar_hold_ms :: u32
  ar_cooldown_ms :: u32
  ar_interlock_device :: string
  ar_interlock_point :: string
  ar_interlock_required :: bool
  ar_action :: u32
  ar_target_device :: string
  ar_target_point :: string
  ar_target_value :: f32
  ar_alert_topic :: string
  ar_alert_message :: string

record automation_stats =
  as_evaluations :: u32
  as_triggers :: u32
  as_failures :: u32

record automation_audit_event =
  ae_timestamp_ms :: ms
  ae_rule_id :: u32
  ae_success :: bool
  ae_source_value :: f32
  ae_action :: string
  ae_detail :: string

text \<open>A stored blob; its size is that of the header and of \<open>pr_rules\<close>.\<close>

record persisted_rules =
  pr_magic :: u32
  pr_next_id :: u32
  pr_count :: u16
  pr_rules :: "automation_rule list"

definition RULES_MAGIC :: u32 where "RULES_MAGIC = 0x41554D31"

text \<open>
  \<open>au_rules\<close> are the first \<open>s_count\<close> entries; the three arrays per slot have 16 elements, the audit
  ring has 64.
\<close>

record automation_state =
  au_rules :: "automation_rule list"
  au_next_id :: u32
  au_since :: "ms list"
  au_last :: "ms list"
  au_active :: "bool list"
  au_stats :: automation_stats
  au_audit :: "automation_audit_event list"
  au_audit_head :: nat
  au_audit_count :: nat
  au_mutex :: bool
  au_task :: bool
  au_nvs :: "persisted_rules option"

definition no_audit :: automation_audit_event where
  "no_audit = \<lparr>ae_timestamp_ms = 0, ae_rule_id = 0, ae_success = False, ae_source_value = 0, ae_action = [], ae_detail = []\<rparr>"

definition automation_boot :: "persisted_rules option \<Rightarrow> automation_state" where
  "automation_boot blob = \<lparr>au_rules = [], au_next_id = 1, au_since = replicate AUTOMATION_MAX_RULES 0,
     au_last = replicate AUTOMATION_MAX_RULES 0, au_active = replicate AUTOMATION_MAX_RULES False,
     au_stats = \<lparr>as_evaluations = 0, as_triggers = 0, as_failures = 0\<rparr>,
     au_audit = replicate AUTOMATION_AUDIT_CAPACITY no_audit, au_audit_head = 0, au_audit_count = 0, au_mutex = False,
     au_task = False, au_nvs = blob\<rparr>"

section \<open>The rule table\<close>

text \<open>What a save finds: the heap, and how opening, writing and committing end. A write that succeeds is stored.\<close>

record rules_io =
  ri_alloc :: bool
  ri_open :: esp_err
  ri_write :: esp_err
  ri_commit :: esp_err

definition save_rules :: "rules_io \<Rightarrow> automation_state \<Rightarrow> automation_state \<times> esp_err" where
  "save_rules io s =
     (if \<not> ri_alloc io then (s, ESP_ERR_NO_MEM)
      else if ri_open io \<noteq> ESP_OK then (s, ri_open io)
      else if ri_write io \<noteq> ESP_OK then (s, ri_write io)
      else (s\<lparr>au_nvs := Some \<lparr>pr_magic = RULES_MAGIC, pr_next_id = au_next_id s,
               pr_count = word_of_nat (length (au_rules s)), pr_rules = au_rules s\<rparr>\<rparr>, ri_commit io))"

text \<open>\<open>mutex\<close>, \<open>alloc\<close>: the semaphore and the buffer can be created; \<open>readable\<close>: the namespace opens.\<close>

definition automation_init :: "bool \<Rightarrow> bool \<Rightarrow> bool \<Rightarrow> automation_state \<Rightarrow> automation_state \<times> esp_err" where
  "automation_init mutex alloc readable s =
     (let s = (if au_mutex s then s else s\<lparr>au_mutex := mutex\<rparr>) in
      if \<not> au_mutex s then (s, ESP_ERR_NO_MEM)
      else case (if readable then au_nvs s else None) of
          None \<Rightarrow> (s, ESP_OK)
        | Some p \<Rightarrow>
            (if length (pr_rules p) \<le> AUTOMATION_MAX_RULES \<and> alloc \<and> pr_magic p = RULES_MAGIC \<and>
                unat (pr_count p) \<le> AUTOMATION_MAX_RULES \<and> length (pr_rules p) = unat (pr_count p)
             then (s\<lparr>au_rules := pr_rules p, au_next_id := (if pr_next_id p = 0 then 1 else pr_next_id p)\<rparr>, ESP_OK)
             else (s, ESP_OK)))"

definition automation_get_rules :: "int \<Rightarrow> automation_state \<Rightarrow> automation_rule list" where
  "automation_get_rules max_rules s = (if max_rules \<le> 0 \<or> \<not> au_mutex s then [] else take (nat max_rules) (au_rules s))"

definition rule_invalid :: "automation_rule \<Rightarrow> bool" where
  "rule_invalid r \<longleftrightarrow> ar_source_device r = [] \<or> ar_source_point r = [] \<or> ar_operator r > RULE_OP_NEQ \<or>
     ar_action r > RULE_ACTION_MQTT_ALERT"

text \<open>The rule as it is stored: an id of its own if it has none, and a cooldown.\<close>

definition complete_rule :: "u32 \<Rightarrow> automation_rule \<Rightarrow> automation_rule" where
  "complete_rule next_id r =
     r\<lparr>ar_id := (if ar_id r = 0 then next_id else ar_id r), ar_cooldown_ms := (if ar_cooldown_ms r = 0 then 1000 else ar_cooldown_ms r)\<rparr>"

definition automation_upsert_rule ::
  "rules_io \<Rightarrow> automation_rule option \<Rightarrow> automation_state \<Rightarrow> automation_state \<times> esp_err \<times> u32 option" where
  "automation_upsert_rule io rule s =
     (case rule of
        None \<Rightarrow> (s, ESP_ERR_INVALID_ARG, None)
      | Some r \<Rightarrow>
          (if rule_invalid r then (s, ESP_ERR_INVALID_ARG, None)
           else
             let found = (if ar_id r \<noteq> 0 then find_slot (\<lambda>x. ar_id x = ar_id r) (au_rules s) else None) in
             if found = None \<and> length (au_rules s) \<ge> AUTOMATION_MAX_RULES then (s, ESP_ERR_NO_MEM, None)
             else
               let slot = (case found of Some i \<Rightarrow> i | None \<Rightarrow> length (au_rules s));
                   new = complete_rule (au_next_id s) r;
                   rules = (if found = None then au_rules s @ [new] else (au_rules s)[slot := new]);
                   s = s\<lparr>au_rules := rules, au_next_id := (if ar_id r = 0 then au_next_id s + 1 else au_next_id s),
                         au_since := (au_since s)[slot := 0], au_last := (au_last s)[slot := 0]\<rparr>;
                   (s, err) = save_rules io s
               in (s, err, Some (ar_id new))))"

definition automation_delete_rule :: "rules_io \<Rightarrow> u32 \<Rightarrow> automation_state \<Rightarrow> automation_state \<times> esp_err" where
  "automation_delete_rule io i s =
     (case find_slot (\<lambda>x. ar_id x = i) (au_rules s) of
        None \<Rightarrow> (s, ESP_ERR_NOT_FOUND)
      | Some k \<Rightarrow>
          save_rules io (s\<lparr>au_rules := take k (au_rules s) @ drop (Suc k) (au_rules s),
            au_since := replicate AUTOMATION_MAX_RULES 0, au_last := replicate AUTOMATION_MAX_RULES 0\<rparr>))"

section \<open>Evaluation\<close>

text \<open>The single 0.0001f has the bits \<open>0x38D1B717\<close>.\<close>

definition condition_matches :: "automation_rule \<Rightarrow> f32 \<Rightarrow> bool \<Rightarrow> bool" where
  "condition_matches r v was_active =
     (let hysteresis = f32_max (ar_hysteresis r) 0; t = ar_threshold r; opr = ar_operator r in
      if opr = RULE_OP_GT then (if was_active then f32_lt (f32_sub t hysteresis) v else f32_lt t v)
      else if opr = RULE_OP_GTE then (if was_active then f32_le (f32_sub t hysteresis) v else f32_le t v)
      else if opr = RULE_OP_LT then (if was_active then f32_lt v (f32_add t hysteresis) else f32_lt v t)
      else if opr = RULE_OP_LTE then (if was_active then f32_le v (f32_add t hysteresis) else f32_le v t)
      else if opr = RULE_OP_EQ then f32_le (f32_abs (f32_sub v t)) (f32_max (ar_hysteresis r) 0x38D1B717)
      else if opr = RULE_OP_NEQ then f32_lt (f32_max (ar_hysteresis r) 0x38D1B717) (f32_abs (f32_sub v t))
      else False)"

definition audit_push :: "automation_audit_event \<Rightarrow> automation_state \<Rightarrow> automation_state" where
  "audit_push e s =
     s\<lparr>au_audit := (au_audit s)[au_audit_head s := e],
       au_audit_head := Suc (au_audit_head s) mod AUTOMATION_AUDIT_CAPACITY,
       au_audit_count := (if au_audit_count s < AUTOMATION_AUDIT_CAPACITY then Suc (au_audit_count s) else au_audit_count s)\<rparr>"

definition audit_event :: "automation_rule \<Rightarrow> tcm_context \<Rightarrow> bool \<Rightarrow> string \<Rightarrow> automation_state \<Rightarrow> automation_state" where
  "audit_event r c success detail s =
     audit_push \<lparr>ae_timestamp_ms = c_timestamp_ms c, ae_rule_id = ar_id r, ae_success = success,
       ae_source_value = f32_of_f64 (c_value c),
       ae_action = strlcpy 32 (if ar_action r = RULE_ACTION_WRITE_POINT then ''write_point'' else ''mqtt_alert''),
       ae_detail = strlcpy 96 detail\<rparr> s"

definition interlock_allows :: "automation_rule \<Rightarrow> state_pool \<Rightarrow> bool" where
  "interlock_allows r pool =
     (if ar_interlock_device r = [] \<or> ar_interlock_point r = [] then True
      else case tcm_state_pool_get (Some (ar_interlock_device r)) (Some (ar_interlock_point r)) pool of
          Inl c \<Rightarrow> (\<not> f64_eq (c_value c) 0) = ar_interlock_required r \<and> c_quality_state c = QUALITY_GOOD
        | Inr _ \<Rightarrow> False)"

text \<open>
  What an evaluation finds: the pool, the parts of a control command, the MQTT client, the heap, and the
  \<open>%.6g\<close> format of a double.
\<close>

record rule_env =
  ru_pool :: state_pool
  ru_write :: write_env
  ru_mqtt :: mqtt_env
  ru_alloc :: bool
  ru_g :: "f64 \<Rightarrow> string"

record automation_world =
  aw_rules :: automation_state
  aw_control :: control_state
  aw_mqtt :: mqtt_state

definition alert_payload :: "(f64 \<Rightarrow> string) \<Rightarrow> automation_rule \<Rightarrow> tcm_context \<Rightarrow> string" where
  "alert_payload g r c =
     strlcpy 512 (''{\"rule_id\":'' @ dec (unat (ar_id r)) @ '',\"rule\":\"'' @ ar_name r @ ''\",\"device_id\":\"'' @ c_device_id c @
       ''\",\"point_id\":\"'' @ c_point_id c @ ''\",\"value\":'' @ g (c_value c) @ '',\"message\":\"'' @ ar_alert_message r @ ''\"}'')"

definition execute_rule :: "rule_env \<Rightarrow> automation_rule \<Rightarrow> tcm_context \<Rightarrow> automation_world \<Rightarrow> automation_world \<times> esp_err" where
  "execute_rule env r c w =
     (if ar_action r = RULE_ACTION_WRITE_POINT then
        (let (k, err, _) = control_service_write_point (ru_write env) (Some (ar_target_device r)) (Some (ar_target_point r))
               (f64_of_f32 (ar_target_value r)) CONTROL_SOURCE_AUTOMATION (aw_control w)
         in (w\<lparr>aw_control := k\<rparr>, err))
      else if \<not> ru_alloc env then (w, ESP_ERR_NO_MEM)
      else
        let q = rc_mqtt (me_config (ru_mqtt env));
            topic = (if ar_alert_topic r \<noteq> [] then strlcpy 128 (ar_alert_topic r) else strlcpy 128 (q_data_prefix q @ ''alerts''));
            (m, err) = mqtt_publish (ru_mqtt env) (Some topic) (Some (alert_payload (ru_g env) r c)) (uint (q_qos q)) (aw_mqtt w)
        in (w\<lparr>aw_mqtt := m\<rparr>, err))"

definition count_stat :: "(u32 \<times> u32 \<times> u32) \<Rightarrow> automation_state \<Rightarrow> automation_state" where
  "count_stat d s =
     (let (e, t, f) = d; x = au_stats s
      in s\<lparr>au_stats := \<lparr>as_evaluations = as_evaluations x + e, as_triggers = as_triggers x + t, as_failures = as_failures x + f\<rparr>\<rparr>)"

text \<open>The matched rule \<open>r\<close> of slot \<open>i\<close>, whose times have elapsed: the interlock and the action, then the audit.\<close>

definition rule_outcome ::
  "rule_env \<Rightarrow> automation_rule \<Rightarrow> tcm_context \<Rightarrow> automation_world \<Rightarrow> automation_world \<times> (u32 \<times> u32 \<times> u32) \<times> bool \<times> string" where
  "rule_outcome env r c w =
     (if \<not> interlock_allows r (ru_pool env) then (w, (0, 0, 1), False, ''interlock blocked action'')
      else
        let (w, err) = execute_rule env r c w
        in if err = ESP_OK then (w, (0, 1, 0), True, ''action completed'') else (w, (0, 0, 1), False, ''action failed''))"

definition fire_rule :: "rule_env \<Rightarrow> ms \<Rightarrow> nat \<Rightarrow> automation_rule \<Rightarrow> tcm_context \<Rightarrow> automation_world \<Rightarrow> automation_world" where
  "fire_rule env now i r c w =
     (let (w, stat, success, detail) = rule_outcome env r c w;
          s = audit_event r c success detail (count_stat stat (aw_rules w))
      in w\<lparr>aw_rules := s\<lparr>au_last := (au_last s)[i := now]\<rparr>\<rparr>)"

text \<open>The body of the loop of the task, for the rule \<open>r\<close> of the snapshot at slot \<open>i\<close>.\<close>

definition evaluate_rule :: "rule_env \<Rightarrow> ms \<Rightarrow> nat \<Rightarrow> automation_rule \<Rightarrow> automation_world \<Rightarrow> automation_world" where
  "evaluate_rule env now i r w =
     (if \<not> ar_enabled r then w
      else case tcm_state_pool_get (Some (ar_source_device r)) (Some (ar_source_point r)) (ru_pool env) of
          Inr _ \<Rightarrow> w
        | Inl c \<Rightarrow>
            (let s = count_stat (1, 0, 0) (aw_rules w);
                 matched = condition_matches r (f32_of_f64 (c_value c)) (au_active s ! i);
                 s = s\<lparr>au_active := (au_active s)[i := matched]\<rparr>
             in if \<not> matched then w\<lparr>aw_rules := s\<lparr>au_since := (au_since s)[i := 0]\<rparr>\<rparr>
                else
                  let s = (if au_since s ! i = 0 then s\<lparr>au_since := (au_since s)[i := now]\<rparr> else s)
                  in if now - au_since s ! i < uint (ar_hold_ms r) \<or> now - au_last s ! i < uint (ar_cooldown_ms r)
                     then w\<lparr>aw_rules := s\<rparr>
                     else fire_rule env now i r c (w\<lparr>aw_rules := s\<rparr>)))"

text \<open>
  One pass of the task over the snapshot; \<open>env i\<close> is what the evaluation of slot \<open>i\<close> finds, and \<open>edits i\<close>
  is what the web server does to the table just before it.
\<close>

definition automation_pass ::
  "(nat \<Rightarrow> rule_env) \<Rightarrow> (nat \<Rightarrow> automation_state \<Rightarrow> automation_state) \<Rightarrow> ms \<Rightarrow> automation_world \<Rightarrow> automation_world" where
  "automation_pass env edits now w =
     (let rules = automation_get_rules (int AUTOMATION_MAX_RULES) (aw_rules w)
      in fold (\<lambda>i w. evaluate_rule (env i) now i (rules ! i) (w\<lparr>aw_rules := edits i (aw_rules w)\<rparr>)) [0..<length rules] w)"

text \<open>\<open>created\<close>: which of the four stack sizes the task can be created with.\<close>

definition automation_start :: "(nat \<Rightarrow> bool) \<Rightarrow> automation_state \<Rightarrow> automation_state \<times> esp_err" where
  "automation_start created s =
     (if au_task s then (s, ESP_OK)
      else if list_ex created [8192, 6144, 5120, 4096] then (s\<lparr>au_task := True\<rparr>, ESP_OK)
      else (s\<lparr>au_task := False\<rparr>, ESP_ERR_NO_MEM))"

definition automation_get_stats :: "automation_state \<Rightarrow> automation_stats" where
  "automation_get_stats s = au_stats s"

definition automation_get_audit :: "int \<Rightarrow> automation_state \<Rightarrow> automation_audit_event list" where
  "automation_get_audit max_events s =
     (if max_events \<le> 0 then []
      else
        let n = min (au_audit_count s) (nat max_events);
            start = (au_audit_head s + AUTOMATION_AUDIT_CAPACITY - au_audit_count s) mod AUTOMATION_AUDIT_CAPACITY
        in map (\<lambda>i. au_audit s ! ((start + i) mod AUTOMATION_AUDIT_CAPACITY)) [0..<n])"

section \<open>Well-formed states\<close>

definition automation_ok :: "automation_state \<Rightarrow> bool" where
  "automation_ok s \<longleftrightarrow> length (au_rules s) \<le> AUTOMATION_MAX_RULES \<and> length (au_since s) = AUTOMATION_MAX_RULES \<and>
     length (au_last s) = AUTOMATION_MAX_RULES \<and> length (au_active s) = AUTOMATION_MAX_RULES \<and>
     length (au_audit s) = AUTOMATION_AUDIT_CAPACITY \<and> ring_ok (au_audit s) (au_audit_head s) (au_audit_count s)"

definition audit_list :: "automation_state \<Rightarrow> automation_audit_event list" where
  "audit_list s = ring_list (au_audit s) (au_audit_head s) (au_audit_count s)"

lemma audit_push_ok [inv_intros]: "automation_ok s \<Longrightarrow> automation_ok (audit_push e s)"
  using ring_push_ok [of "au_audit s" "au_audit_head s" "au_audit_count s" e]
  by (simp add: automation_ok_def audit_push_def)

lemma audit_push_list: "automation_ok s \<Longrightarrow> audit_list (audit_push e s) = lastn AUTOMATION_AUDIT_CAPACITY (audit_list s @ [e])"
  using ring_list_push [of "au_audit s" "au_audit_head s" "au_audit_count s" e]
  by (simp add: automation_ok_def audit_push_def audit_list_def)

interpretation audit: ring_log audit_push audit_list AUTOMATION_AUDIT_CAPACITY automation_ok
proof unfold_locales
  show "automation_ok s \<Longrightarrow> automation_ok (audit_push e s)" for s e by (rule audit_push_ok)
  show "automation_ok s \<Longrightarrow> audit_list (audit_push e s) = lastn AUTOMATION_AUDIT_CAPACITY (audit_list s @ [e])" for s e
    by (rule audit_push_list)
  show "automation_ok s \<Longrightarrow> length (audit_list s) \<le> AUTOMATION_AUDIT_CAPACITY" for s
    by (simp add: automation_ok_def audit_list_def ring_ok_def)
qed

lemma take_upt_min: "take n [0..<k] = [0..<min k n]"
  by (cases "n \<le> k") (simp_all add: min_def)

lemma get_audit_list: "automation_ok s \<Longrightarrow> automation_get_audit n s = take (nat n) (audit_list s)"
  by (auto simp: automation_get_audit_def audit_list_def ring_list_def ring_oldest_def automation_ok_def Let_def take_map
      take_upt_min)

text \<open>What the operations leave alone.\<close>

lemma audit_frames [frame_simps]:
  "au_rules (audit_event r c ok d s) = au_rules s" "au_since (audit_event r c ok d s) = au_since s"
  "au_last (audit_event r c ok d s) = au_last s" "au_active (audit_event r c ok d s) = au_active s"
  "au_mutex (audit_event r c ok d s) = au_mutex s"
  "au_rules (count_stat x s) = au_rules s" "au_since (count_stat x s) = au_since s"
  "au_last (count_stat x s) = au_last s" "au_active (count_stat x s) = au_active s" "au_mutex (count_stat x s) = au_mutex s"
  by (simp_all add: audit_event_def audit_push_def count_stat_def Let_def split_beta)

lemma count_stat_ok [inv_intros]: "automation_ok s \<Longrightarrow> automation_ok (count_stat x s)"
  by (simp add: automation_ok_def count_stat_def Let_def split_beta)

lemma audit_event_ok [inv_intros]: "automation_ok s \<Longrightarrow> automation_ok (audit_event r c ok d s)"
  by (simp add: audit_event_def audit_push_ok)

lemma execute_rules [simp]: "aw_rules (fst (execute_rule env r c w)) = aw_rules w"
  by (simp add: execute_rule_def Let_def split_beta)

section \<open>One slot\<close>

text \<open>
  What the task remembers of a slot: since when the condition holds (0: it does not), when the rule last
  acted (0: never) and whether the condition held at the last evaluation. An evaluation is due when the
  action or its interlock is reached.
\<close>

type_synonym slot = "ms \<times> ms \<times> bool"

definition slot_view :: "automation_state \<Rightarrow> nat \<Rightarrow> slot" where
  "slot_view s i = (au_since s ! i, au_last s ! i, au_active s ! i)"

definition slot_eval :: "automation_rule \<Rightarrow> ms \<Rightarrow> tcm_context option \<Rightarrow> slot \<Rightarrow> slot \<times> bool" where
  "slot_eval r now c v =
     (case (v, c) of
        ((since, last_act, active), Some c) \<Rightarrow>
          (if \<not> ar_enabled r then (v, False)
           else if \<not> condition_matches r (f32_of_f64 (c_value c)) active then ((0, last_act, False), False)
           else
             let since = (if since = 0 then now else since) in
             if now - since < uint (ar_hold_ms r) \<or> now - last_act < uint (ar_cooldown_ms r) then ((since, last_act, True), False)
             else ((since, now, True), True))
      | (_, None) \<Rightarrow> (v, False))"

definition rule_source :: "rule_env \<Rightarrow> automation_rule \<Rightarrow> tcm_context option" where
  "rule_source env r =
     (case tcm_state_pool_get (Some (ar_source_device r)) (Some (ar_source_point r)) (ru_pool env) of
        Inl c \<Rightarrow> Some c | Inr _ \<Rightarrow> None)"

definition rule_due :: "rule_env \<Rightarrow> ms \<Rightarrow> nat \<Rightarrow> automation_rule \<Rightarrow> automation_world \<Rightarrow> bool" where
  "rule_due env now i r w \<longleftrightarrow> snd (slot_eval r now (rule_source env r) (slot_view (aw_rules w) i))"

lemma outcome_rules [simp]: "aw_rules (fst (rule_outcome env r c w)) = aw_rules w"
  by (simp add: rule_outcome_def Let_def split_beta)

lemma fire_rule_slots:
  "au_since (aw_rules (fire_rule env now i r c w)) = au_since (aw_rules w)"
  "au_active (aw_rules (fire_rule env now i r c w)) = au_active (aw_rules w)"
  "au_last (aw_rules (fire_rule env now i r c w)) = (au_last (aw_rules w))[i := now]"
  "au_rules (aw_rules (fire_rule env now i r c w)) = au_rules (aw_rules w)"
  "au_mutex (aw_rules (fire_rule env now i r c w)) = au_mutex (aw_rules w)"
  by (simp_all add: fire_rule_def Let_def split_beta frame_simps)

lemma slot_updates_ok [inv_intros]:
  "automation_ok s \<Longrightarrow> automation_ok (s\<lparr>au_last := (au_last s)[i := t]\<rparr>)"
  "automation_ok s \<Longrightarrow> automation_ok (s\<lparr>au_since := (au_since s)[i := t]\<rparr>)"
  "automation_ok s \<Longrightarrow> automation_ok (s\<lparr>au_active := (au_active s)[i := b]\<rparr>)"
  by (simp_all add: automation_ok_def)

lemma fire_rule_ok [inv_intros]:
  "automation_ok (aw_rules w) \<Longrightarrow> automation_ok (aw_rules (fire_rule env now i r c w))"
  unfolding fire_rule_def Let_def split_beta
  by (simp add: slot_updates_ok(1) audit_event_ok count_stat_ok)

text \<open>The fields an evaluation changes, all at once.\<close>

definition observed :: "nat \<Rightarrow> bool \<Rightarrow> automation_world \<Rightarrow> automation_state" where
  "observed i matched w =
     (let s = count_stat (1, 0, 0) (aw_rules w) in s\<lparr>au_active := (au_active s)[i := matched]\<rparr>)"

lemma observed_fields [frame_simps]:
  "au_rules (observed i m w) = au_rules (aw_rules w)" "au_since (observed i m w) = au_since (aw_rules w)"
  "au_last (observed i m w) = au_last (aw_rules w)" "au_active (observed i m w) = (au_active (aw_rules w))[i := m]"
  "au_mutex (observed i m w) = au_mutex (aw_rules w)"
  by (simp_all add: observed_def Let_def frame_simps)

lemma observed_ok [inv_intros]: "automation_ok (aw_rules w) \<Longrightarrow> automation_ok (observed i m w)"
  unfolding observed_def Let_def by (rule slot_updates_ok(3)) (rule count_stat_ok)

lemma observed_since_ok [inv_intros]:
  "automation_ok (aw_rules w) \<Longrightarrow> automation_ok (observed i m w\<lparr>au_since := (au_since (aw_rules w))[k := t]\<rparr>)"
  using slot_updates_ok(2) [OF observed_ok, of w i m k t] by (simp add: frame_simps)

lemma evaluate_rule_cases:
  "evaluate_rule env now i r w =
     (case rule_source env r of
        None \<Rightarrow> w
      | Some c \<Rightarrow>
          (if \<not> ar_enabled r then w
           else
             let matched = condition_matches r (f32_of_f64 (c_value c)) (au_active (aw_rules w) ! i);
                 s = observed i matched w
             in if \<not> matched then w\<lparr>aw_rules := s\<lparr>au_since := (au_since s)[i := 0]\<rparr>\<rparr>
                else
                  let s = (if au_since s ! i = 0 then s\<lparr>au_since := (au_since s)[i := now]\<rparr> else s)
                  in if now - au_since s ! i < uint (ar_hold_ms r) \<or> now - au_last s ! i < uint (ar_cooldown_ms r)
                     then w\<lparr>aw_rules := s\<rparr>
                     else fire_rule env now i r c (w\<lparr>aw_rules := s\<rparr>)))"
  by (simp add: evaluate_rule_def rule_source_def observed_def Let_def frame_simps split: sum.split)

lemma evaluate_rule_keeps:
  "automation_ok (aw_rules w) \<Longrightarrow> automation_ok (aw_rules (evaluate_rule env now i r w))"
  "au_rules (aw_rules (evaluate_rule env now i r w)) = au_rules (aw_rules w)"
  "au_mutex (aw_rules (evaluate_rule env now i r w)) = au_mutex (aw_rules w)"
  by (simp_all add: evaluate_rule_cases Let_def frame_simps inv_intros fire_rule_slots split: option.split)

lemma evaluate_rule_slot:
  assumes "automation_ok (aw_rules w)" "i < AUTOMATION_MAX_RULES"
  shows "slot_view (aw_rules (evaluate_rule env now i r w)) j =
      (if j = i then fst (slot_eval r now (rule_source env r) (slot_view (aw_rules w) i)) else slot_view (aw_rules w) j)"
proof -
  have len: "i < length (au_since (aw_rules w))" "i < length (au_last (aw_rules w))" "i < length (au_active (aw_rules w))"
    using assms by (simp_all add: automation_ok_def)
  show ?thesis
  proof (cases "rule_source env r")
    case None
    then show ?thesis by (simp add: evaluate_rule_cases slot_eval_def slot_view_def)
  next
    case (Some c)
    then show ?thesis using len
      by (cases "j = i")
        (simp_all add: evaluate_rule_cases slot_eval_def slot_view_def Let_def frame_simps fire_rule_slots nth_list_update)
  qed
qed

text \<open>Without a due evaluation, or with a blocking interlock, nothing leaves the engine.\<close>

lemma evaluate_rule_acts:
  assumes "automation_ok (aw_rules w)" "i < AUTOMATION_MAX_RULES"
  shows "aw_control (evaluate_rule env now i r w) = aw_control w \<and> aw_mqtt (evaluate_rule env now i r w) = aw_mqtt w \<or>
    rule_due env now i r w \<and> interlock_allows r (ru_pool env)"
proof -
  have len: "i < length (au_since (aw_rules w))" "i < length (au_last (aw_rules w))" "i < length (au_active (aw_rules w))"
    using assms by (simp_all add: automation_ok_def)
  have blocked: "aw_control (fire_rule env now i r c u) = aw_control u \<and> aw_mqtt (fire_rule env now i r c u) = aw_mqtt u"
    if "\<not> interlock_allows r (ru_pool env)" for c u using that by (simp add: fire_rule_def rule_outcome_def Let_def)
  show ?thesis
  proof (cases "rule_source env r")
    case None
    then show ?thesis by (simp add: evaluate_rule_cases)
  next
    case (Some c)
    then show ?thesis using len blocked
      by (auto simp: evaluate_rule_cases rule_due_def slot_eval_def slot_view_def Let_def frame_simps)
  qed
qed

section \<open>A pass\<close>

text \<open>
  An edit that leaves slot \<open>i\<close> with its rule \<open>r\<close> alone: the rule and what the task remembers of it. Adding a rule and
  changing another one do (\<open>put_rule_leaves_slot\<close>); a deletion does not, since it clears the times of all slots and moves the rules.
\<close>

definition leaves_slot :: "automation_rule \<Rightarrow> nat \<Rightarrow> (automation_state \<Rightarrow> automation_state) \<Rightarrow> bool" where
  "leaves_slot r i f \<longleftrightarrow> (\<forall>s. automation_ok s \<and> i < length (au_rules s) \<and> au_rules s ! i = r \<longrightarrow>
     automation_ok (f s) \<and> i < length (au_rules (f s)) \<and> au_rules (f s) ! i = r \<and>
     slot_view (f s) i = slot_view s i \<and> au_mutex (f s) = au_mutex s)"

lemma no_edit_leaves_slot [simp]: "leaves_slot r i (\<lambda>s. s)"
  by (simp add: leaves_slot_def)

text \<open>What slot \<open>i\<close>, whose rule is \<open>r\<close>, relies on in every state of a run.\<close>

definition slot_ok :: "automation_rule \<Rightarrow> nat \<Rightarrow> automation_world \<Rightarrow> bool" where
  "slot_ok r i w \<longleftrightarrow> automation_ok (aw_rules w) \<and> au_mutex (aw_rules w) \<and> i < length (au_rules (aw_rules w)) \<and> au_rules (aw_rules w) ! i = r"

lemma slot_ok_bound: "slot_ok r i w \<Longrightarrow> i < AUTOMATION_MAX_RULES"
  by (simp add: slot_ok_def automation_ok_def)

lemma slot_ok_edit:
  assumes "slot_ok r i w" "leaves_slot r i f"
  shows "slot_ok r i (w\<lparr>aw_rules := f (aw_rules w)\<rparr>)" "slot_view (f (aw_rules w)) i = slot_view (aw_rules w) i"
  using assms by (simp_all add: slot_ok_def leaves_slot_def)

lemma slot_ok_evaluate: "slot_ok r i w \<Longrightarrow> slot_ok r i (evaluate_rule env now j x w)"
  by (simp add: slot_ok_def evaluate_rule_keeps)

text \<open>The first \<open>n\<close> evaluations of a pass over the snapshot \<open>rules\<close>.\<close>

definition pass_upto ::
  "(nat \<Rightarrow> rule_env) \<Rightarrow> (nat \<Rightarrow> automation_state \<Rightarrow> automation_state) \<Rightarrow> ms \<Rightarrow> automation_rule list \<Rightarrow> nat \<Rightarrow> automation_world \<Rightarrow>
     automation_world" where
  "pass_upto env edits now rules n w =
     fold (\<lambda>i w. evaluate_rule (env i) now i (rules ! i) (w\<lparr>aw_rules := edits i (aw_rules w)\<rparr>)) [0..<n] w"

lemma pass_upto_Suc:
  "pass_upto env edits now rules (Suc n) w =
     evaluate_rule (env n) now n (rules ! n)
       ((pass_upto env edits now rules n w)\<lparr>aw_rules := edits n (aw_rules (pass_upto env edits now rules n w))\<rparr>)"
  by (simp add: pass_upto_def)

text \<open>Slot \<open>i\<close> only sees its own evaluation.\<close>

lemma pass_fold:
  assumes "slot_ok r i w" "\<forall>j. leaves_slot r i (edits j)" "n \<le> AUTOMATION_MAX_RULES" "rules ! i = r"
  shows "slot_ok r i (pass_upto env edits now rules n w) \<and>
    slot_view (aw_rules (pass_upto env edits now rules n w)) i =
      (if i < n then fst (slot_eval r now (rule_source (env i) r) (slot_view (aw_rules w) i)) else slot_view (aw_rules w) i)"
  using assms(3)
proof (induction n)
  case 0
  then show ?case using assms(1) by (simp add: pass_upto_def)
next
  case (Suc n)
  let ?u = "pass_upto env edits now rules n w"
  let ?v = "?u\<lparr>aw_rules := edits n (aw_rules ?u)\<rparr>"
  have u: "slot_ok r i ?u" "slot_view (aw_rules ?u) i =
      (if i < n then fst (slot_eval r now (rule_source (env i) r) (slot_view (aw_rules w) i)) else slot_view (aw_rules w) i)"
    using Suc by simp_all
  have v: "slot_ok r i ?v" "slot_view (aw_rules ?v) i = slot_view (aw_rules ?u) i"
    using slot_ok_edit [OF u(1)] assms(2) by simp_all
  have n: "n < AUTOMATION_MAX_RULES" using Suc.prems by simp
  have ok: "automation_ok (aw_rules ?v)" using v(1) by (simp add: slot_ok_def)
  show ?case
    using slot_ok_evaluate [OF v(1)] evaluate_rule_slot [OF ok n, of "env n" now "rules ! n" i] u(2) v(2) assms(4)
    unfolding pass_upto_Suc by (cases "i = n") auto
qed

lemma pass_unfold:
  assumes "au_mutex (aw_rules w)" "automation_ok (aw_rules w)"
  shows "automation_pass env edits now w = pass_upto env edits now (au_rules (aw_rules w)) (length (au_rules (aw_rules w))) w"
proof -
  have "automation_get_rules (int AUTOMATION_MAX_RULES) (aw_rules w) = au_rules (aw_rules w)"
    using assms by (simp add: automation_get_rules_def automation_ok_def)
  then show ?thesis by (simp add: automation_pass_def pass_upto_def Let_def)
qed

lemma pass_slot:
  assumes "slot_ok r i w" "\<forall>j. leaves_slot r i (edits j)"
  shows "slot_view (aw_rules (automation_pass env edits now w)) i =
      fst (slot_eval r now (rule_source (env i) r) (slot_view (aw_rules w) i))"
    and "slot_ok r i (automation_pass env edits now w)"
  using pass_fold [OF assms, of "length (au_rules (aw_rules w))" "au_rules (aw_rules w)" env now] assms(1)
  by (simp_all add: pass_unfold slot_ok_def automation_ok_def)

text \<open>The passes of the task, each with its time, what it finds and what is edited meanwhile.\<close>

type_synonym pass = "ms \<times> (nat \<Rightarrow> rule_env) \<times> (nat \<Rightarrow> automation_state \<Rightarrow> automation_state)"

abbreviation pass_env :: "pass \<Rightarrow> nat \<Rightarrow> rule_env" where "pass_env p \<equiv> fst (snd p)"
abbreviation pass_edits :: "pass \<Rightarrow> nat \<Rightarrow> automation_state \<Rightarrow> automation_state" where "pass_edits p \<equiv> snd (snd p)"

definition automation_passes :: "pass list \<Rightarrow> automation_world \<Rightarrow> automation_world" where
  "automation_passes ps w = fold (\<lambda>p. automation_pass (pass_env p) (pass_edits p) (fst p)) ps w"

text \<open>No edit during the passes touches slot \<open>i\<close>.\<close>

definition edits_spare :: "automation_rule \<Rightarrow> nat \<Rightarrow> pass list \<Rightarrow> bool" where
  "edits_spare r i ps \<longleftrightarrow> (\<forall>p \<in> set ps. \<forall>j. leaves_slot r i (pass_edits p j))"

text \<open>What slot \<open>i\<close> sees of them, and when it is due.\<close>

definition slot_inputs :: "automation_rule \<Rightarrow> nat \<Rightarrow> pass list \<Rightarrow> (ms \<times> tcm_context option) list" where
  "slot_inputs r i ps = map (\<lambda>p. (fst p, rule_source (pass_env p i) r)) ps"

definition slot_run :: "automation_rule \<Rightarrow> (ms \<times> tcm_context option) list \<Rightarrow> slot \<Rightarrow> slot" where
  "slot_run r xs v = fold (\<lambda>(now, c) v. fst (slot_eval r now c v)) xs v"

definition slot_due :: "automation_rule \<Rightarrow> (ms \<times> tcm_context option) list \<Rightarrow> slot \<Rightarrow> nat \<Rightarrow> bool" where
  "slot_due r xs v k \<longleftrightarrow> snd (slot_eval r (fst (xs ! k)) (snd (xs ! k)) (slot_run r (take k xs) v))"

lemma passes_slot:
  assumes "slot_ok r i w" "edits_spare r i ps"
  shows "slot_view (aw_rules (automation_passes ps w)) i = slot_run r (slot_inputs r i ps) (slot_view (aw_rules w) i) \<and>
    slot_ok r i (automation_passes ps w)"
  using assms
proof (induction ps arbitrary: w)
  case (Cons p ps)
  note one = pass_slot [OF Cons.prems(1), of "pass_edits p" "pass_env p" "fst p"]
  show ?case using Cons.IH [of "automation_pass (pass_env p) (pass_edits p) (fst p) w"] one Cons.prems(2)
    by (simp add: automation_passes_def slot_run_def slot_inputs_def edits_spare_def)
qed (simp add: automation_passes_def slot_run_def slot_inputs_def)

section \<open>Hold and cooldown\<close>

text \<open>
  The condition of the rule is met in full, and it holds within the hysteresis, as it has to once it has been met.
\<close>

definition is_met :: "automation_rule \<Rightarrow> tcm_context \<Rightarrow> bool" where
  "is_met r c \<longleftrightarrow> condition_matches r (f32_of_f64 (c_value c)) False"

definition in_band :: "automation_rule \<Rightarrow> tcm_context \<Rightarrow> bool" where
  "in_band r c \<longleftrightarrow> condition_matches r (f32_of_f64 (c_value c)) True"

definition times_ok :: "(ms \<times> 'a) list \<Rightarrow> bool" where
  "times_ok xs \<longleftrightarrow> sorted (map fst xs) \<and> (\<forall>x \<in> set xs. 0 < fst x)"

lemma times_le: "times_ok xs \<Longrightarrow> m \<le> k \<Longrightarrow> k < length xs \<Longrightarrow> fst (xs ! m) \<le> fst (xs ! k)"
  by (auto simp: times_ok_def sorted_iff_nth_mono)

lemma times_pos: "times_ok xs \<Longrightarrow> k < length xs \<Longrightarrow> 0 < fst (xs ! k)"
  by (simp add: times_ok_def)

lemma slot_run_Suc:
  "k < length xs \<Longrightarrow> slot_run r (take (Suc k) xs) v = fst (slot_eval r (fst (xs ! k)) (snd (xs ! k)) (slot_run r (take k xs) v))"
  by (simp add: slot_run_def take_Suc_conv_app_nth split_beta)

text \<open>
  The time a slot remembers is that of a pass in which the condition was met in full and since which it held
  whenever it was seen; without a time the condition is not remembered as met.
\<close>

lemma since_held:
  assumes "times_ok xs" "ar_enabled r" "k \<le> length xs" "slot_run r (take k xs) (0, l, False) = (since, l', a)"
  shows "if since = 0 then \<not> a
    else a \<and> (\<exists>j < k. since = fst (xs ! j) \<and> (\<exists>c. snd (xs ! j) = Some c \<and> is_met r c) \<and>
      (\<forall>m c. j < m \<and> m < k \<and> snd (xs ! m) = Some c \<longrightarrow> in_band r c))"
  using assms(3,4)
proof (induction k arbitrary: since l' a)
  case 0
  then show ?case by (simp add: slot_run_def)
next
  case (Suc k)
  then have k: "k < length xs" by simp
  obtain since0 l0 a0 where v: "slot_run r (take k xs) (0, l, False) = (since0, l0, a0)" by (metis prod_cases3)
  note ih = Suc.IH [OF _ v] and run = slot_run_Suc [OF k, of r "(0, l, False)", unfolded Suc.prems(2) v]
  have pos: "0 < fst (xs ! k)" by (rule times_pos [OF assms(1) k])
  show ?case
  proof (cases "snd (xs ! k)")
    case None
    then have same: "since = since0" "a = a0" using run by (simp_all add: slot_eval_def)
    show ?thesis
    proof (cases "since0 = 0")
      case False
      then obtain j c where "a0" "j < k" "since0 = fst (xs ! j)" "snd (xs ! j) = Some c" "is_met r c"
          "\<forall>m c. j < m \<and> m < k \<and> snd (xs ! m) = Some c \<longrightarrow> in_band r c"
        using ih k by auto
      then show ?thesis using same False None by (auto simp: less_Suc_eq intro!: exI [of _ j])
    qed (use same ih k in simp)
  next
    case (Some c)
    show ?thesis
    proof (cases "condition_matches r (f32_of_f64 (c_value c)) a0")
      case False
      then show ?thesis using run Some assms(2) by (simp add: slot_eval_def)
    next
      case True
      then have new: "since = (if since0 = 0 then fst (xs ! k) else since0)" "a"
        using run Some assms(2) by (auto simp: slot_eval_def Let_def split: if_splits)
      show ?thesis
      proof (cases "since0 = 0")
        case True
        then have "\<not> a0" using ih k by simp
        then have "is_met r c" using \<open>condition_matches _ _ a0\<close> by (simp add: is_met_def)
        then show ?thesis using new True Some pos by (auto intro!: exI [of _ k])
      next
        case False
        then obtain j d where j: "a0" "j < k" "since0 = fst (xs ! j)" "snd (xs ! j) = Some d" "is_met r d"
            "\<forall>m c. j < m \<and> m < k \<and> snd (xs ! m) = Some c \<longrightarrow> in_band r c"
          using ih k by auto
        then have "in_band r c" using True by (simp add: in_band_def)
        then show ?thesis using new j False Some by (auto simp: less_Suc_eq intro!: exI [of _ j])
      qed
    qed
  qed
qed

lemma slot_due_enabled: "slot_due r xs v k \<Longrightarrow> ar_enabled r \<and> (\<exists>c. snd (xs ! k) = Some c)"
  by (cases "slot_run r (take k xs) v"; cases "snd (xs ! k)") (auto simp: slot_due_def slot_eval_def Let_def split: if_splits)

lemma due_held:
  assumes "times_ok xs" "slot_due r xs (0, l, False) k" "k < length xs"
  shows "\<exists>j \<le> k. uint (ar_hold_ms r) \<le> fst (xs ! k) - fst (xs ! j) \<and> (\<exists>c. snd (xs ! j) = Some c \<and> is_met r c) \<and>
    (\<forall>m c. j < m \<and> m \<le> k \<and> snd (xs ! m) = Some c \<longrightarrow> in_band r c)"
proof -
  obtain since l' a where v: "slot_run r (take k xs) (0, l, False) = (since, l', a)" by (metis prod_cases3)
  obtain c where en: "ar_enabled r" and c: "snd (xs ! k) = Some c" using slot_due_enabled [OF assms(2)] by auto
  have m: "condition_matches r (f32_of_f64 (c_value c)) a"
    and hold: "uint (ar_hold_ms r) \<le> fst (xs ! k) - (if since = 0 then fst (xs ! k) else since)"
    using assms(2) by (auto simp: slot_due_def slot_eval_def v c Let_def not_less split: if_splits)
  note held = since_held [OF assms(1) en _ v]
  show ?thesis
  proof (cases "since = 0")
    case True
    then have "is_met r c" using held m assms(3) by (simp add: is_met_def)
    then show ?thesis using hold c True by (intro exI [of _ k]) auto
  next
    case False
    then obtain j d where j: "a" "j < k" "since = fst (xs ! j)" "snd (xs ! j) = Some d" "is_met r d"
        "\<forall>m c. j < m \<and> m < k \<and> snd (xs ! m) = Some c \<longrightarrow> in_band r c"
      using held assms(3) by auto
    have "in_band r c" using m j(1) by (simp add: in_band_def)
    then show ?thesis using hold c False j by (intro exI [of _ j]) (auto simp: le_less)
  qed
qed

text \<open>The time of the last action is not before that of any action.\<close>

lemma last_act:
  assumes "times_ok xs" "k \<le> length xs" "m < k" "slot_due r xs v m"
  shows "fst (xs ! m) \<le> fst (snd (slot_run r (take k xs) v))"
  using assms(2,3)
proof (induction k)
  case (Suc k)
  then have k: "k < length xs" by simp
  obtain since l a where v: "slot_run r (take k xs) v = (since, l, a)" by (cases "slot_run r (take k xs) v") auto
  have new: "fst (snd (slot_run r (take (Suc k) xs) v)) = (if slot_due r xs v k then fst (xs ! k) else l)"
    by (cases "snd (xs ! k)") (auto simp: slot_run_Suc [OF k] slot_due_def slot_eval_def v Let_def)
  show ?case
  proof (cases "m = k")
    case True
    then show ?thesis using new assms(4) by simp
  next
    case False
    then have "fst (xs ! m) \<le> l" using Suc v by simp
    then show ?thesis using new times_le [OF assms(1), of m k] Suc.prems k by simp
  qed
qed simp

lemma due_spaced:
  assumes "times_ok xs" "slot_due r xs v k" "k < length xs" "slot_due r xs v m" "m < k"
  shows "uint (ar_cooldown_ms r) \<le> fst (xs ! k) - fst (xs ! m)"
proof -
  obtain since l a where v: "slot_run r (take k xs) v = (since, l, a)" by (cases "slot_run r (take k xs) v") auto
  obtain c where c: "snd (xs ! k) = Some c" using slot_due_enabled [OF assms(2)] by auto
  have "uint (ar_cooldown_ms r) \<le> fst (xs ! k) - l"
    using assms(2) by (auto simp: slot_due_def slot_eval_def v c Let_def not_less split: if_splits)
  moreover have "fst (xs ! m) \<le> l" using last_act [OF assms(1) _ assms(5,4), of ] assms(3) v by fastforce
  ultimately show ?thesis by simp
qed

text \<open>A condition that holds at every pass is due as soon as both times are over.\<close>

lemma waiting_slot:
  assumes "times_ok xs" "ar_enabled r" "since \<le> fst (xs ! 0)" "l \<le> fst (xs ! 0)" "0 \<le> since"
    "\<forall>x \<in> set xs. \<exists>c. snd x = Some c \<and> (\<forall>a. condition_matches r (f32_of_f64 (c_value c)) a)"
    "\<forall>m < k. \<not> slot_due r xs (since, l, a) m" "k \<le> length xs" "0 < k"
  shows "\<exists>s. slot_run r (take k xs) (since, l, a) = (s, l, True) \<and> 0 < s \<and> s \<le> fst (xs ! 0)"
  using assms(7-9)
proof (induction k)
  case (Suc k)
  then have k: "k < length xs" by simp
  then obtain c where c: "snd (xs ! k) = Some c" "\<And>a. condition_matches r (f32_of_f64 (c_value c)) a"
    using assms(6) nth_mem by blast
  have pos: "0 < fst (xs ! 0)" using times_pos [OF assms(1), of 0] k by fastforce
  have nd: "\<not> slot_due r xs (since, l, a) k" using Suc.prems by simp
  show ?case
  proof (cases "k = 0")
    case True
    then show ?thesis using slot_run_Suc [OF k, of r "(since, l, a)"] c assms(2-5) pos nd
      by (auto simp: slot_run_def slot_eval_def slot_due_def Let_def split: if_splits)
  next
    case False
    then obtain s where "slot_run r (take k xs) (since, l, a) = (s, l, True)" "0 < s" "s \<le> fst (xs ! 0)" using Suc by auto
    then show ?thesis using slot_run_Suc [OF k, of r "(since, l, a)"] c assms(2) nd
      by (auto simp: slot_eval_def slot_due_def Let_def split: if_splits)
  qed
qed simp

lemma held_due:
  assumes "times_ok xs" "xs \<noteq> []" "ar_enabled r" "since \<le> fst (xs ! 0)" "l \<le> fst (xs ! 0)" "0 \<le> since"
    "\<forall>x \<in> set xs. \<exists>c. snd x = Some c \<and> (\<forall>a. condition_matches r (f32_of_f64 (c_value c)) a)"
    "uint (ar_hold_ms r) \<le> fst (last xs) - fst (xs ! 0)" "uint (ar_cooldown_ms r) \<le> fst (last xs) - fst (xs ! 0)"
  shows "\<exists>k < length xs. slot_due r xs (since, l, a) k"
proof (rule ccontr)
  assume none: "\<not> ?thesis"
  define k where "k = length xs - 1"
  have k: "k < length xs" "last xs = xs ! k" using assms(2) by (simp_all add: k_def last_conv_nth)
  obtain c where c: "snd (xs ! k) = Some c" "\<And>a. condition_matches r (f32_of_f64 (c_value c)) a"
    using assms(7) k nth_mem by blast
  have "slot_due r xs (since, l, a) k"
  proof (cases "k = 0")
    case True
    then show ?thesis using c assms(3-6,8,9) k by (auto simp: slot_due_def slot_run_def slot_eval_def Let_def)
  next
    case False
    then obtain s where "slot_run r (take k xs) (since, l, a) = (s, l, True)" "0 < s" "s \<le> fst (xs ! 0)"
      using waiting_slot [OF assms(1,3,4,5,6,7), of k a] none k by auto
    then show ?thesis using c assms(3,5,8,9) k by (auto simp: slot_due_def slot_eval_def Let_def)
  qed
  then show False using none k(1) by blast
qed

section \<open>From the slot to the engine\<close>

lemma inputs_times: "times_ok (slot_inputs r i ps) = times_ok ps"
proof -
  have "map fst (slot_inputs r i ps) = map fst ps" by (simp add: slot_inputs_def comp_def)
  moreover have "(\<forall>x \<in> set (slot_inputs r i ps). 0 < fst x) \<longleftrightarrow> (\<forall>x \<in> set ps. 0 < fst x)"
    by (auto simp: slot_inputs_def)
  ultimately show ?thesis by (simp only: times_ok_def)
qed

text \<open>The world in which slot \<open>i\<close> is evaluated in pass \<open>k\<close>, and the world after it.\<close>

definition before_slot :: "pass list \<Rightarrow> nat \<Rightarrow> nat \<Rightarrow> automation_world \<Rightarrow> automation_world" where
  "before_slot ps k i w =
     (let u = automation_passes (take k ps) w;
          v = pass_upto (pass_env (ps ! k)) (pass_edits (ps ! k)) (fst (ps ! k)) (au_rules (aw_rules u)) i u
      in v\<lparr>aw_rules := pass_edits (ps ! k) i (aw_rules v)\<rparr>)"

definition after_slot :: "pass list \<Rightarrow> nat \<Rightarrow> nat \<Rightarrow> automation_world \<Rightarrow> automation_world" where
  "after_slot ps k i w =
     evaluate_rule (pass_env (ps ! k) i) (fst (ps ! k)) i (au_rules (aw_rules (automation_passes (take k ps) w)) ! i)
       (before_slot ps k i w)"

text \<open>They are worlds that the pass runs through.\<close>

lemma after_slot_in_pass:
  "after_slot ps k i w =
     (let u = automation_passes (take k ps) w
      in pass_upto (pass_env (ps ! k)) (pass_edits (ps ! k)) (fst (ps ! k)) (au_rules (aw_rules u)) (Suc i) u)"
  by (simp add: after_slot_def before_slot_def pass_upto_Suc Let_def)

text \<open>The rule of slot \<open>i\<close> acts in pass \<open>k\<close>: something is written to Modbus, published or counted.\<close>

definition rule_acts :: "pass list \<Rightarrow> nat \<Rightarrow> nat \<Rightarrow> automation_world \<Rightarrow> bool" where
  "rule_acts ps k i w \<longleftrightarrow> aw_control (after_slot ps k i w) \<noteq> aw_control (before_slot ps k i w) \<or>
     aw_mqtt (after_slot ps k i w) \<noteq> aw_mqtt (before_slot ps k i w)"

lemma spare_take: "edits_spare r i ps \<Longrightarrow> edits_spare r i (take k ps)"
  by (auto simp: edits_spare_def dest: in_set_takeD)

lemma before_slot_view:
  assumes "slot_ok r i w" "edits_spare r i ps" "k < length ps"
  shows "slot_ok r i (before_slot ps k i w)"
    "slot_view (aw_rules (before_slot ps k i w)) i = slot_run r (slot_inputs r i (take k ps)) (slot_view (aw_rules w) i)"
    "after_slot ps k i w = evaluate_rule (pass_env (ps ! k) i) (fst (ps ! k)) i r (before_slot ps k i w)"
proof -
  let ?u = "automation_passes (take k ps) w"
  have u: "slot_ok r i ?u" "slot_view (aw_rules ?u) i = slot_run r (slot_inputs r i (take k ps)) (slot_view (aw_rules w) i)"
    using passes_slot [OF assms(1) spare_take [OF assms(2)], of k] by simp_all
  have e: "\<forall>j. leaves_slot r i (pass_edits (ps ! k) j)" using assms(2,3) by (simp add: edits_spare_def)
  have r: "au_rules (aw_rules ?u) ! i = r" using u(1) by (simp add: slot_ok_def)
  let ?v = "pass_upto (pass_env (ps ! k)) (pass_edits (ps ! k)) (fst (ps ! k)) (au_rules (aw_rules ?u)) i ?u"
  have "i \<le> AUTOMATION_MAX_RULES" using slot_ok_bound [OF assms(1)] by simp
  from pass_fold [OF u(1) e this r, of "pass_env (ps ! k)" "fst (ps ! k)"]
  have v: "slot_ok r i ?v" "slot_view (aw_rules ?v) i = slot_view (aw_rules ?u) i" by simp_all
  show "slot_ok r i (before_slot ps k i w)"
    "slot_view (aw_rules (before_slot ps k i w)) i = slot_run r (slot_inputs r i (take k ps)) (slot_view (aw_rules w) i)"
    using slot_ok_edit [OF v(1), of "pass_edits (ps ! k) i"] e v(2) u(2) by (simp_all add: before_slot_def Let_def)
  show "after_slot ps k i w = evaluate_rule (pass_env (ps ! k) i) (fst (ps ! k)) i r (before_slot ps k i w)"
    by (simp add: after_slot_def r)
qed

lemma due_at_slot:
  assumes "slot_ok r i w" "edits_spare r i ps" "k < length ps"
  shows "rule_due (pass_env (ps ! k) i) (fst (ps ! k)) i r (before_slot ps k i w) \<longleftrightarrow>
    slot_due r (slot_inputs r i ps) (slot_view (aw_rules w) i) k"
  using before_slot_view(2) [OF assms] assms(3)
  by (simp add: rule_due_def slot_due_def slot_inputs_def take_map)

lemma acts_due:
  assumes "slot_ok r i w" "edits_spare r i ps" "k < length ps" "rule_acts ps k i w"
  shows "slot_due r (slot_inputs r i ps) (slot_view (aw_rules w) i) k \<and> interlock_allows r (ru_pool (pass_env (ps ! k) i))"
proof -
  note b = before_slot_view [OF assms(1-3)]
  have "automation_ok (aw_rules (before_slot ps k i w))" using b(1) by (simp add: slot_ok_def)
  from evaluate_rule_acts [OF this slot_ok_bound [OF assms(1)], of "pass_env (ps ! k) i" "fst (ps ! k)" r]
  show ?thesis using assms(4) due_at_slot [OF assms(1-3)] b(3) by (auto simp: rule_acts_def)
qed

section \<open>What a due evaluation does\<close>

text \<open>The action sees nothing of the engine's own state.\<close>

lemma execute_frame:
  "aw_control (fst (execute_rule env r c (w\<lparr>aw_rules := s\<rparr>))) = aw_control (fst (execute_rule env r c w))"
  "aw_mqtt (fst (execute_rule env r c (w\<lparr>aw_rules := s\<rparr>))) = aw_mqtt (fst (execute_rule env r c w))"
  "snd (execute_rule env r c (w\<lparr>aw_rules := s\<rparr>)) = snd (execute_rule env r c w)"
  by (simp_all add: execute_rule_def Let_def split_beta)

text \<open>The entry of the audit for the evaluation of rule \<open>r\<close> on the sample \<open>c\<close>.\<close>

definition audit_entry :: "automation_rule \<Rightarrow> tcm_context \<Rightarrow> bool \<Rightarrow> string \<Rightarrow> automation_audit_event" where
  "audit_entry r c success detail = \<lparr>ae_timestamp_ms = c_timestamp_ms c, ae_rule_id = ar_id r, ae_success = success,
     ae_source_value = f32_of_f64 (c_value c),
     ae_action = (if ar_action r = RULE_ACTION_WRITE_POINT then ''write_point'' else ''mqtt_alert''), ae_detail = detail\<rparr>"

text \<open>
  The rule has been handled between two worlds: the action is carried out, completely or with an error, or nothing leaves the engine
  because of the interlock, and the audit says which.
\<close>

definition handled :: "rule_env \<Rightarrow> automation_rule \<Rightarrow> tcm_context \<Rightarrow> automation_world \<Rightarrow> automation_world \<Rightarrow> bool" where
  "handled env r c w w' \<longleftrightarrow>
     (if interlock_allows r (ru_pool env)
      then (let (x, err) = execute_rule env r c w
            in aw_control w' = aw_control x \<and> aw_mqtt w' = aw_mqtt x \<and>
               audit_list (aw_rules w') = lastn AUTOMATION_AUDIT_CAPACITY (audit_list (aw_rules w) @
                 [audit_entry r c (err = ESP_OK) (if err = ESP_OK then ''action completed'' else ''action failed'')]))
      else aw_control w' = aw_control w \<and> aw_mqtt w' = aw_mqtt w \<and>
           audit_list (aw_rules w') = lastn AUTOMATION_AUDIT_CAPACITY (audit_list (aw_rules w) @
             [audit_entry r c False ''interlock blocked action'']))"

lemma audit_list_frames [simp]:
  "audit_list (s\<lparr>au_last := x\<rparr>) = audit_list s" "audit_list (s\<lparr>au_since := x\<rparr>) = audit_list s"
  "audit_list (s\<lparr>au_active := y\<rparr>) = audit_list s" "audit_list (count_stat d s) = audit_list s"
  by (simp_all add: audit_list_def count_stat_def Let_def split_beta)

lemma audit_event_list:
  assumes "automation_ok s" "detail \<in> {''action completed'', ''action failed'', ''interlock blocked action''}"
  shows "audit_list (audit_event r c ok detail s) = lastn AUTOMATION_AUDIT_CAPACITY (audit_list s @ [audit_entry r c ok detail])"
  using assms audit.entries_push [OF assms(1)] by (auto simp: audit_event_def audit_entry_def strlcpy_def)

lemma due_handled:
  assumes "automation_ok (aw_rules w)" "i < AUTOMATION_MAX_RULES" "rule_due env now i r w"
  shows "\<exists>c. rule_source env r = Some c \<and> handled env r c w (evaluate_rule env now i r w)"
proof -
  have len: "i < length (au_since (aw_rules w))" "i < length (au_last (aw_rules w))" "i < length (au_active (aw_rules w))"
    using assms by (simp_all add: automation_ok_def)
  obtain c where c: "rule_source env r = Some c"
    using assms(3) by (cases "rule_source env r") (auto simp: rule_due_def slot_eval_def split: prod.splits)
  define s where "s = (let s = observed i True w in
      if au_since s ! i = 0 then s\<lparr>au_since := (au_since s)[i := now]\<rparr> else s)"
  have s: "automation_ok s" "audit_list s = audit_list (aw_rules w)"
    using assms(1) inv_intros by (simp_all add: s_def Let_def frame_simps) (simp_all add: observed_def Let_def)
  have ev: "evaluate_rule env now i r w = fire_rule env now i r c (w\<lparr>aw_rules := s\<rparr>)"
    using assms(3) len c by (auto simp: rule_due_def slot_eval_def slot_view_def evaluate_rule_cases Let_def frame_simps s_def
        split: if_splits)
  have ok: "automation_ok (count_stat d s)" for d by (rule count_stat_ok [OF s(1)])
  have "handled env r c w (fire_rule env now i r c (w\<lparr>aw_rules := s\<rparr>))"
    by (simp add: handled_def fire_rule_def rule_outcome_def execute_frame audit_event_list [OF ok] s(2) split_beta Let_def)
  then show ?thesis using c by (simp add: ev)
qed

section \<open>Edits\<close>

datatype rule_edit = Put_rule rules_io automation_rule | Remove_rule rules_io u32

definition rule_edit :: "rule_edit \<Rightarrow> automation_state \<Rightarrow> automation_state" where
  "rule_edit e s =
     (case e of
        Put_rule io r \<Rightarrow> fst (automation_upsert_rule io (Some r) s)
      | Remove_rule io i \<Rightarrow> fst (automation_delete_rule io i s))"

lemma put_rule_leaves_slot:
  assumes "ar_id r \<noteq> ar_id r'"
  shows "leaves_slot r i (rule_edit (Put_rule io r'))"
  unfolding leaves_slot_def
proof (intro allI impI, elim conjE)
  fix s
  assume s: "automation_ok s" "i < length (au_rules s)" "au_rules s ! i = r"
  define j where "j = (if ar_id r' \<noteq> 0 then find_slot (\<lambda>x. ar_id x = ar_id r') (au_rules s) else None)"
  define k where "k = (case j of Some k \<Rightarrow> k | None \<Rightarrow> length (au_rules s))"
  define t where "t = s\<lparr>au_rules := (if j = None then au_rules s @ [complete_rule (au_next_id s) r']
      else (au_rules s)[k := complete_rule (au_next_id s) r']), au_next_id := (if ar_id r' = 0 then au_next_id s + 1 else au_next_id s),
      au_since := (au_since s)[k := 0], au_last := (au_last s)[k := 0]\<rparr>"
  have k: "k \<noteq> i" using s(2,3) assms by (auto simp: k_def j_def find_slot_Some split: option.split if_splits)
  have e: "rule_edit (Put_rule io r') s = s \<or> rule_edit (Put_rule io r') s = fst (save_rules io t) \<and>
      (j = None \<longrightarrow> length (au_rules s) < AUTOMATION_MAX_RULES)"
    by (auto simp: rule_edit_def automation_upsert_rule_def Let_def split_beta j_def [symmetric] k_def [symmetric] t_def [symmetric])
  have t: "automation_ok t" if "j = None \<longrightarrow> length (au_rules s) < AUTOMATION_MAX_RULES"
    using s(1) that by (auto simp: automation_ok_def t_def)
  have v: "i < length (au_rules t)" "au_rules t ! i = r" "slot_view t i = slot_view s i" "au_mutex t = au_mutex s"
    using k s(2,3) by (simp_all add: t_def slot_view_def nth_append)
  have sv: "au_rules (fst (save_rules io t)) = au_rules t" "slot_view (fst (save_rules io t)) i = slot_view t i"
    "au_mutex (fst (save_rules io t)) = au_mutex t" "automation_ok (fst (save_rules io t)) = automation_ok t"
    by (simp_all add: save_rules_def slot_view_def automation_ok_def)
  show "automation_ok (rule_edit (Put_rule io r') s) \<and> i < length (au_rules (rule_edit (Put_rule io r') s)) \<and>
      au_rules (rule_edit (Put_rule io r') s) ! i = r \<and> slot_view (rule_edit (Put_rule io r') s) i = slot_view s i \<and>
      au_mutex (rule_edit (Put_rule io r') s) = au_mutex s"
    using e
  proof
    assume "rule_edit (Put_rule io r') s = s"
    then show ?thesis using s by simp
  next
    assume "rule_edit (Put_rule io r') s = fst (save_rules io t) \<and> (j = None \<longrightarrow> length (au_rules s) < AUTOMATION_MAX_RULES)"
    then show ?thesis using t v sv by simp
  qed
qed

text \<open>The ids in use are different, not 0, and below the next one.\<close>

definition ids_ok :: "automation_state \<Rightarrow> bool" where
  "ids_ok s \<longleftrightarrow> distinct (map ar_id (au_rules s)) \<and> (\<forall>r \<in> set (au_rules s). ar_id r \<noteq> 0 \<and> ar_id r < au_next_id s)"

lemma save_rules_fields [simp]:
  "au_rules (fst (save_rules io s)) = au_rules s" "au_next_id (fst (save_rules io s)) = au_next_id s"
  "au_active (fst (save_rules io s)) = au_active s" "au_since (fst (save_rules io s)) = au_since s"
  "au_last (fst (save_rules io s)) = au_last s" "au_mutex (fst (save_rules io s)) = au_mutex s"
  by (simp_all add: save_rules_def)

lemma ids_save: "ids_ok (fst (save_rules io s)) = ids_ok s"
  by (simp add: ids_ok_def)

lemma delete_rules:
  "automation_delete_rule io i s =
     (case find_slot (\<lambda>x. ar_id x = i) (au_rules s) of None \<Rightarrow> (s, ESP_ERR_NOT_FOUND) | Some k \<Rightarrow>
        save_rules io (s\<lparr>au_rules := take k (au_rules s) @ drop (Suc k) (au_rules s),
          au_since := replicate AUTOMATION_MAX_RULES 0, au_last := replicate AUTOMATION_MAX_RULES 0\<rparr>))"
  by (simp add: automation_delete_rule_def)

lemma delete_ids_ok: "ids_ok s \<Longrightarrow> ids_ok (fst (automation_delete_rule io i s))"
proof -
  assume ok: "ids_ok s"
  have sub: "set (take k xs @ drop (Suc k) xs) \<subseteq> set xs" for k and xs :: "automation_rule list"
    using set_take_subset set_drop_subset by fastforce
  have dist: "distinct (map ar_id (take k xs @ drop (Suc k) xs))" if "distinct (map ar_id xs)" for k xs
  proof (cases "k < length xs")
    case True
    have "distinct (map ar_id (take k xs) @ ar_id (xs ! k) # map ar_id (drop (Suc k) xs))"
      using that id_take_nth_drop [OF True] by (metis list.simps(9) map_append)
    then show ?thesis by simp
  qed (use that in simp)
  show ?thesis
  proof (cases "find_slot (\<lambda>x. ar_id x = i) (au_rules s)")
    case None
    then show ?thesis using ok by (simp add: delete_rules)
  next
    case (Some k)
    have "distinct (map ar_id (take k (au_rules s) @ drop (Suc k) (au_rules s)))"
      using ok dist [of "au_rules s" k] unfolding ids_ok_def by blast
    moreover have "\<forall>r \<in> set (take k (au_rules s) @ drop (Suc k) (au_rules s)). ar_id r \<noteq> 0 \<and> ar_id r < au_next_id s"
      using ok sub [of k "au_rules s"] unfolding ids_ok_def by blast
    ultimately show ?thesis by (simp add: delete_rules Some ids_ok_def)
  qed
qed

lemma unat_Suc_word: "unat (n + 1 :: u32) = Suc (unat n)" if "Suc (unat n) < 2 ^ 32"
proof -
  have "n + 1 \<noteq> 0"
  proof
    assume "n + 1 = 0"
    then have "n = - 1" by (simp add: add_eq_0_iff2)
    then have "unat n = 2 ^ 32 - 1" by (simp add: unsigned_minus_1_eq_mask mask_eq_exp_minus_1)
    then show False using that by simp
  qed
  then show ?thesis using unatSuc [of n] by (simp add: add.commute)
qed

lemma upsert_ids_ok:
  assumes "ids_ok s" "ar_id r = 0 \<or> ar_id r \<in> ar_id ` set (au_rules s)" "Suc (unat (au_next_id s)) < 2 ^ 32" "0 < au_next_id s"
  shows "ids_ok (fst (automation_upsert_rule io (Some r) s)) \<and>
    unat (au_next_id (fst (automation_upsert_rule io (Some r) s))) \<le> Suc (unat (au_next_id s)) \<and>
    0 < au_next_id (fst (automation_upsert_rule io (Some r) s))"
proof -
  have up: "au_next_id s < au_next_id s + 1" "0 < au_next_id s + 1" "unat (au_next_id s + 1) = Suc (unat (au_next_id s))"
    using unat_Suc_word [OF assms(3)] by (simp_all add: word_less_nat_alt)
  have new: "ids_ok (s\<lparr>au_rules := au_rules s @ [complete_rule (au_next_id s) r], au_next_id := au_next_id s + 1,
      au_since := a, au_last := b\<rparr>)" if "ar_id r = 0" for a b
    using assms(1,4) up that by (auto simp: ids_ok_def complete_rule_def intro: less_trans)
  have old: "ids_ok (s\<lparr>au_rules := (au_rules s)[k := complete_rule (au_next_id s) r], au_since := a, au_last := b\<rparr>)"
    if "find_slot (\<lambda>x. ar_id x = ar_id r) (au_rules s) = Some k" "ar_id r \<noteq> 0" for k a b
  proof -
    have k: "k < length (au_rules s)" "ar_id (au_rules s ! k) = ar_id r" using that by (auto simp: find_slot_Some)
    have "map ar_id ((au_rules s)[k := complete_rule (au_next_id s) r]) = map ar_id (au_rules s)"
      using k that(2) by (intro nth_equalityI) (auto simp: nth_list_update complete_rule_def)
    then have "distinct (map ar_id ((au_rules s)[k := complete_rule (au_next_id s) r]))"
      using assms(1) by (simp only: ids_ok_def)
    moreover have "ar_id r' \<noteq> 0 \<and> ar_id r' < au_next_id s"
      if "r' \<in> set ((au_rules s)[k := complete_rule (au_next_id s) r])" for r'
    proof -
      have "ar_id r' \<in> ar_id ` set (au_rules s)"
      proof (cases "r' = complete_rule (au_next_id s) r")
        case True
        then have "ar_id r' = ar_id (au_rules s ! k)" using k(2) \<open>ar_id r \<noteq> 0\<close> by (simp add: complete_rule_def)
        then show ?thesis using nth_mem [OF k(1)] by simp
      next
        case False
        then show ?thesis using that set_update_subset_insert [of "au_rules s" k "complete_rule (au_next_id s) r"] by blast
      qed
      then show ?thesis using assms(1) by (auto simp: ids_ok_def)
    qed
    ultimately show ?thesis by (simp add: ids_ok_def)
  qed
  have found: "find_slot (\<lambda>x. ar_id x = ar_id r) (au_rules s) \<noteq> None" if "ar_id r \<noteq> 0"
    using that assms(2) by (auto simp: find_slot_None)
  define i where "i = (if ar_id r \<noteq> 0 then find_slot (\<lambda>x. ar_id x = ar_id r) (au_rules s) else None)"
  define k where "k = (case i of Some k \<Rightarrow> k | None \<Rightarrow> length (au_rules s))"
  define t where "t = s\<lparr>au_rules := (if i = None then au_rules s @ [complete_rule (au_next_id s) r]
      else (au_rules s)[k := complete_rule (au_next_id s) r]), au_next_id := (if ar_id r = 0 then au_next_id s + 1 else au_next_id s),
      au_since := (au_since s)[k := 0], au_last := (au_last s)[k := 0]\<rparr>"
  have cases: "fst (automation_upsert_rule io (Some r) s) \<in> {s, fst (save_rules io t)}"
    by (simp add: automation_upsert_rule_def Let_def split_beta i_def [symmetric] k_def [symmetric] t_def [symmetric])
  have "ids_ok t \<and> au_next_id t \<in> {au_next_id s, au_next_id s + 1}"
  proof (cases "ar_id r = 0")
    case True
    then show ?thesis using new [OF True] by (simp add: t_def i_def k_def)
  next
    case False
    then obtain j where "find_slot (\<lambda>x. ar_id x = ar_id r) (au_rules s) = Some j" using found by auto
    then show ?thesis using old [of j] False by (simp add: t_def i_def k_def)
  qed
  then show ?thesis using cases up assms(1,4) by (auto simp: ids_save)
qed

text \<open>Every edit that names a rule names one that exists.\<close>

fun edits_known :: "rule_edit list \<Rightarrow> automation_state \<Rightarrow> bool" where
  "edits_known [] s = True"
| "edits_known (e # es) s =
     ((case e of Put_rule io r \<Rightarrow> ar_id r = 0 \<or> ar_id r \<in> ar_id ` set (au_rules s) | _ \<Rightarrow> True) \<and> edits_known es (rule_edit e s))"

lemma edits_ids_ok:
  "ids_ok s \<Longrightarrow> edits_known es s \<Longrightarrow> unat (au_next_id s) + length es < 2 ^ 32 \<Longrightarrow> 0 < au_next_id s \<Longrightarrow>
   ids_ok (fold rule_edit es s)"
proof (induction es arbitrary: s)
  case (Cons e es)
  show ?case
  proof (cases e)
    case (Put_rule io r)
    then have "ids_ok (rule_edit e s) \<and> unat (au_next_id (rule_edit e s)) \<le> Suc (unat (au_next_id s)) \<and> 0 < au_next_id (rule_edit e s)"
      using upsert_ids_ok [OF Cons.prems(1), of r io] Cons.prems(2-4) by (simp add: rule_edit_def)
    then show ?thesis using Cons.IH [of "rule_edit e s"] Cons.prems by simp
  next
    case (Remove_rule io i)
    then have "ids_ok (rule_edit e s)" "au_next_id (rule_edit e s) = au_next_id s"
      using delete_ids_ok [OF Cons.prems(1)] by (simp_all add: rule_edit_def delete_rules split: option.split)
    then show ?thesis using Cons.IH [of "rule_edit e s"] Cons.prems by simp
  qed
qed simp

section \<open>Properties\<close>


text \<open>
  C24. A condition that keeps holding is acted upon: when the rule is enabled, no edit touches its slot and at every pass, over
  the hold and the cooldown time, the condition is seen to hold, then in one of the passes the rule's action
  is carried out if the interlock allows it, and nothing leaves the engine if not, and the audit gets
  one entry with the sample, the action and which of the two it was and whether it succeeded.
\<close>

theorem held_condition_handled:
  fixes ps :: "pass list" and w :: automation_world and i :: nat
  defines "r \<equiv> au_rules (aw_rules w) ! i"
  assumes "automation_ok (aw_rules w)" "au_mutex (aw_rules w)" "i < length (au_rules (aw_rules w))" "edits_spare r i ps"
    "times_ok ps" "ps \<noteq> []"
    "0 \<le> au_since (aw_rules w) ! i" "au_since (aw_rules w) ! i \<le> fst (hd ps)" "au_last (aw_rules w) ! i \<le> fst (hd ps)" "ar_enabled r"
    "\<forall>p \<in> set ps. \<exists>c. rule_source (pass_env p i) r = Some c \<and> (\<forall>a. condition_matches r (f32_of_f64 (c_value c)) a)"
    "uint (ar_hold_ms r) \<le> fst (last ps) - fst (hd ps)" "uint (ar_cooldown_ms r) \<le> fst (last ps) - fst (hd ps)"
  shows "\<exists>k < length ps. \<exists>c. rule_source (pass_env (ps ! k) i) r = Some c \<and>
    handled (pass_env (ps ! k) i) r c (before_slot ps k i w) (after_slot ps k i w)"
proof -
  let ?xs = "slot_inputs r i ps"
  have ok: "slot_ok r i w" using assms(2-4) by (simp add: slot_ok_def r_def)
  have times: "times_ok ?xs" using assms(6) by (simp add: inputs_times)
  have ends: "?xs \<noteq> []" "fst (?xs ! 0) = fst (hd ps)" "fst (last ?xs) = fst (last ps)" "length ?xs = length ps"
    using assms(7) by (simp_all add: slot_inputs_def hd_conv_nth last_map)
  have held: "\<forall>x \<in> set ?xs. \<exists>c. snd x = Some c \<and> (\<forall>a. condition_matches r (f32_of_f64 (c_value c)) a)"
    using assms(12) by (auto simp: slot_inputs_def)
  obtain k where k: "k < length ps" "slot_due r ?xs (slot_view (aw_rules w) i) k"
    using held_due [OF times ends(1) assms(11), of "au_since (aw_rules w) ! i" "au_last (aw_rules w) ! i" "au_active (aw_rules w) ! i"]
      held assms(8-10,13,14) ends by (auto simp: slot_view_def)
  note b = before_slot_view [OF ok assms(5) k(1)]
  have "rule_due (pass_env (ps ! k) i) (fst (ps ! k)) i r (before_slot ps k i w)"
    using due_at_slot [OF ok assms(5) k(1)] k(2) by simp
  moreover have "automation_ok (aw_rules (before_slot ps k i w))" using b(1) by (simp add: slot_ok_def)
  ultimately show ?thesis using due_handled [OF _ slot_ok_bound [OF ok]] b(3) k(1) by auto
qed

text \<open>
  Rules keep different ids through any edits that only name existing rules, whether or not they are saved.
\<close>

theorem rule_ids_unique:
  assumes "ids_ok s" "0 < au_next_id s" "edits_known es s" "unat (au_next_id s) + length es < 2 ^ 32"
  shows "distinct (map ar_id (au_rules (fold rule_edit es s)))"
  using edits_ids_ok [OF assms(1,3,4,2)] by (simp add: ids_ok_def)

text \<open>
  Deleting a rule moves the next one into its slot without resetting the memory of the condition: with
  the deleted rule active, the next rule passes its condition inside the hysteresis band although its threshold was
  never crossed.
\<close>

theorem deleted_rule_leaves_condition:
  fixes io :: rules_io
  assumes "automation_ok (aw_rules w)" "au_rules (aw_rules w) = r0 # r1 # rs" "au_active (aw_rules w) ! 0"
    "ar_operator r1 = RULE_OP_GT" "ar_enabled r1" "rule_source env r1 = Some c"
    "\<not> f32_lt (ar_threshold r1) (f32_of_f64 (c_value c))"
    "f32_lt (f32_sub (ar_threshold r1) (f32_max (ar_hysteresis r1) 0)) (f32_of_f64 (c_value c))"
  defines "t \<equiv> fst (automation_delete_rule io (ar_id r0) (aw_rules w))"
  shows "au_rules t = r1 # rs \<and> \<not> condition_matches r1 (f32_of_f64 (c_value c)) False \<and>
    au_active (aw_rules (evaluate_rule env now 0 r1 (w\<lparr>aw_rules := t\<rparr>))) ! 0"
proof -
  have t: "au_rules t = r1 # rs" "au_active t = au_active (aw_rules w)"
    using assms(2) by (simp_all add: t_def delete_rules)
  have ok: "automation_ok t" using assms(1,2)
    by (simp add: t_def delete_rules automation_ok_def save_rules_def)
  have m: "condition_matches r1 (f32_of_f64 (c_value c)) True" "\<not> condition_matches r1 (f32_of_f64 (c_value c)) False"
    using assms(4,7,8) by (simp_all add: condition_matches_def Let_def)
  have "slot_view (aw_rules (evaluate_rule env now 0 r1 (w\<lparr>aw_rules := t\<rparr>))) 0 =
      fst (slot_eval r1 now (Some c) (slot_view t 0))"
    using evaluate_rule_slot [of "w\<lparr>aw_rules := t\<rparr>" 0 env now r1 0] ok assms(6) by simp
  then have "au_active (aw_rules (evaluate_rule env now 0 r1 (w\<lparr>aw_rules := t\<rparr>))) ! 0"
    using assms(3,5) t(2) m(1) by (auto simp: slot_view_def slot_eval_def Let_def split: if_splits)
  then show ?thesis using t(1) m(2) by simp
qed

text \<open>An id of its own that the client chose is given out again.\<close>

lemma foreign_id_collides:
  assumes "ar_id r = au_next_id s" "ar_id r \<noteq> 0" "find_slot (\<lambda>x. ar_id x = ar_id r) (au_rules s) = None" "\<not> rule_invalid r"
    "ar_id r' = 0" "\<not> rule_invalid r'" "Suc (length (au_rules s)) < AUTOMATION_MAX_RULES"
  shows "\<exists>a b. au_rules (rule_edit (Put_rule io r') (rule_edit (Put_rule io r) s)) = au_rules s @ [a, b] \<and> ar_id a = ar_id b"
  using assms by (simp add: rule_edit_def automation_upsert_rule_def Let_def split_beta complete_rule_def)

text \<open>What was saved is loaded by the next start.\<close>

lemma rules_survive_restart:
  assumes "length (au_rules s) \<le> AUTOMATION_MAX_RULES" "au_next_id s \<noteq> 0" "ri_alloc io" "ri_open io = ESP_OK" "ri_write io = ESP_OK"
  shows "au_rules (fst (automation_init True True True (automation_boot (au_nvs (fst (save_rules io s)))))) = au_rules s \<and>
    au_next_id (fst (automation_init True True True (automation_boot (au_nvs (fst (save_rules io s)))))) = au_next_id s"
  using assms by (simp add: save_rules_def automation_init_def automation_boot_def unat_of_nat take_bit_nat_eq_self)

section \<open>Witnesses\<close>

text \<open>One reading of 1.0, and rules that compare it with thresholds of 0.5 and 1.5.\<close>

definition reading :: tcm_context where
  "reading = (demo_context ''level'' 1000)\<lparr>c_value := 0x3FF0000000000000\<rparr>"

definition demo_rule :: "u32 \<Rightarrow> f32 \<Rightarrow> f32 \<Rightarrow> automation_rule" where
  "demo_rule i t h = \<lparr>ar_id = i, ar_enabled = True, ar_name = ''high'', ar_source_device = ''meter'', ar_source_point = ''level'',
     ar_operator = RULE_OP_GT, ar_threshold = t, ar_hysteresis = h, ar_hold_ms = 0, ar_cooldown_ms = 1000,
     ar_interlock_device = [], ar_interlock_point = [], ar_interlock_required = False, ar_action = RULE_ACTION_MQTT_ALERT,
     ar_target_device = [], ar_target_point = [], ar_target_value = 0, ar_alert_topic = ''alarm'', ar_alert_message = ''high''\<rparr>"

definition demo_rule_env :: "write_env \<Rightarrow> rule_env" where
  "demo_rule_env wenv = \<lparr>ru_pool = \<lparr>sp_mutex = True, sp_capacity = 64, sp_states = [reading]\<rparr>, ru_write = wenv, ru_mqtt = demo_env,
     ru_alloc = True, ru_g = (\<lambda>_. ''1'')\<rparr>"

definition demo_world :: "control_state \<Rightarrow> automation_rule list \<Rightarrow> automation_world" where
  "demo_world k rs = \<lparr>aw_rules = (automation_boot None)\<lparr>au_rules := rs, au_mutex := True\<rparr>, aw_control = k, aw_mqtt = demo_running\<rparr>"

lemma demo_world_ok: "length rs \<le> AUTOMATION_MAX_RULES \<Longrightarrow> automation_ok (aw_rules (demo_world k rs))"
  by (simp add: demo_world_def automation_boot_def automation_ok_def ring_ok_def)

lemma reading_source: "rule_source (demo_rule_env wenv) (demo_rule i t h) = Some reading"
  by (simp add: rule_source_def demo_rule_env_def demo_rule_def tcm_state_pool_get_def reading_def demo_context_def)

lemma reading_value: "f32_of_f64 (c_value reading) = 0x3F800000"
  by (simp add: reading_def demo_context_def, code_simp)

text \<open>1.0 is above 0.5, whatever the band; it is below 1.5 and inside a band of 1.0.\<close>

lemma demo_floats:
  "f32_get 0x3F000000 = FFin False 8388608 (- 24)"
  "f32_get 0x3F800000 = FFin False 8388608 (- 23)"
  "f32_get 0x3FC00000 = FFin False 12582912 (- 23)"
  "f32_get 0 = FFin False 0 (- 149)"
  by (simp_all add: f32_get_def fp_unpack_def)

lemma demo_max: "f32_max 0 0 = 0" "f32_max 0x3F800000 0 = 0x3F800000"
  by (simp_all add: f32_max_def f32_lt_def demo_floats signed_def)

lemma demo_sub: "f32_sub 0x3F000000 0 = 0x3F000000" "f32_sub 0x3FC00000 0x3F800000 = 0x3F000000"
  by (simp_all add: f32_sub_def demo_floats fp_neg_def signed_def f32_put_def fp_round_def fp_pack_def flog2_def rne_def
      bits_len.simps)

lemma demo_lt: "f32_lt 0x3F000000 0x3F800000" "\<not> f32_lt 0x3FC00000 0x3F800000"
  by (simp_all add: f32_lt_def demo_floats signed_def)

lemma reading_conditions:
  "condition_matches (demo_rule i 0x3F000000 0) 0x3F800000 True" "condition_matches (demo_rule i 0x3F000000 0) 0x3F800000 False"
  "\<not> f32_lt 0x3FC00000 0x3F800000" "f32_lt (f32_sub 0x3FC00000 (f32_max 0x3F800000 0)) 0x3F800000"
  by (simp_all add: condition_matches_def demo_rule_def Let_def demo_max demo_sub demo_lt)

lemma demo_publish:
  "mq_success_count (fst (mqtt_publish demo_env (Some t) (Some p) q demo_running)) = mq_success_count demo_running + 1"
  by (simp add: mqtt_publish_def demo_env_def demo_running_def emit_def Let_def)

lemma demo_acts: "rule_acts [(1000, \<lambda>_. demo_rule_env wenv, \<lambda>_ s. s)] 0 0 (demo_world k [demo_rule 1 0x3F000000 0])"
proof -
  let ?r = "demo_rule 1 0x3F000000 0" and ?w = "demo_world k [demo_rule 1 0x3F000000 0]"
  have view: "au_active (aw_rules ?w) ! 0 = False" "au_since (aw_rules ?w) ! 0 = 0" "au_last (aw_rules ?w) ! 0 = 0"
    "length (au_since (aw_rules ?w)) = 16"
    by (simp_all add: demo_world_def automation_boot_def)
  define s where "s = observed 0 True ?w"
  have s: "au_since s ! 0 = 0" "au_last s ! 0 = 0" "length (au_since s) = 16" using view by (simp_all add: s_def frame_simps)
  have ev: "evaluate_rule (demo_rule_env wenv) 1000 0 ?r ?w =
      fire_rule (demo_rule_env wenv) 1000 0 ?r reading (?w\<lparr>aw_rules := s\<lparr>au_since := (au_since s)[0 := 1000]\<rparr>\<rparr>)"
    using reading_source [of wenv 1 "0x3F000000" 0] reading_value reading_conditions view s
    by (simp add: evaluate_rule_cases Let_def s_def [symmetric]) (simp add: demo_rule_def)
  have alert: "interlock_allows ?r p" "ar_action ?r \<noteq> RULE_ACTION_WRITE_POINT" for p
    by (simp_all add: interlock_allows_def demo_rule_def)
  have env: "ru_alloc (demo_rule_env wenv)" "ru_mqtt (demo_rule_env wenv) = demo_env" by (simp_all add: demo_rule_env_def)
  have "mq_success_count (aw_mqtt (fire_rule (demo_rule_env wenv) 1000 0 ?r reading u)) = mq_success_count (aw_mqtt u) + 1"
    if "aw_mqtt u = demo_running" for u
    using that alert env demo_publish
    by (simp add: fire_rule_def rule_outcome_def execute_rule_def Let_def split_beta)
  then have "mq_success_count (aw_mqtt (evaluate_rule (demo_rule_env wenv) 1000 0 ?r ?w)) = mq_success_count (aw_mqtt ?w) + 1"
    unfolding ev by (simp add: demo_world_def)
  then have "aw_mqtt (evaluate_rule (demo_rule_env wenv) 1000 0 ?r ?w) \<noteq> aw_mqtt ?w" by auto
  moreover have "au_rules (aw_rules ?w) ! 0 = ?r" by (simp add: demo_world_def)
  ultimately show ?thesis by (simp add: rule_acts_def after_slot_def before_slot_def automation_passes_def pass_upto_def)
qed


lemma held_condition_handled_witness:
  "\<forall>wenv k. let ps = [(1000, \<lambda>_. demo_rule_env wenv, \<lambda>_ s. s), (2000, \<lambda>_. demo_rule_env wenv, \<lambda>_ s. s)];
       w = demo_world k [demo_rule 1 0x3F000000 0]
     in \<exists>j < Suc (Suc 0). handled (demo_rule_env wenv) (demo_rule 1 0x3F000000 0) reading (before_slot ps j 0 w) (after_slot ps j 0 w)"
proof (intro allI)
  fix wenv k
  let ?w = "demo_world k [demo_rule 1 0x3F000000 0]"
    and ?ps = "[(1000, \<lambda>_. demo_rule_env wenv, \<lambda>_ s. s), (2000, \<lambda>_. demo_rule_env wenv, \<lambda>_ s. s)] :: pass list"
  have ok: "automation_ok (aw_rules ?w)" by (rule demo_world_ok) simp
  have f: "au_mutex (aw_rules ?w)" "0 < length (au_rules (aw_rules ?w))" "au_since (aw_rules ?w) ! 0 = 0" "au_last (aw_rules ?w) ! 0 = 0"
    "au_rules (aw_rules ?w) ! 0 = demo_rule 1 0x3F000000 0"
    by (simp_all add: demo_world_def automation_boot_def)
  have times: "times_ok ?ps" "edits_spare (au_rules (aw_rules ?w) ! 0) 0 ?ps" by (simp_all add: times_ok_def edits_spare_def)
  have r: "ar_enabled (demo_rule 1 0x3F000000 0)" "ar_hold_ms (demo_rule 1 0x3F000000 0) = 0"
    "ar_cooldown_ms (demo_rule 1 0x3F000000 0) = 1000" by (simp_all add: demo_rule_def)
  have m: "condition_matches (demo_rule 1 0x3F000000 0) 0x3F800000 a" for a using reading_conditions by (cases a) simp_all
  then have all: "All (condition_matches (demo_rule 1 0x3F000000 0) 0x3F800000)" by blast
  have env: "pass_env (?ps ! j) 0 = demo_rule_env wenv" if "j < Suc (Suc 0)" for j
    using that by (auto simp: less_Suc_eq)
  have "\<exists>j < length ?ps. \<exists>c. rule_source (pass_env (?ps ! j) 0) (demo_rule 1 0x3F000000 0) = Some c \<and>
      handled (pass_env (?ps ! j) 0) (demo_rule 1 0x3F000000 0) c (before_slot ?ps j 0 ?w) (after_slot ?ps j 0 ?w)"
    using held_condition_handled [OF ok f(1,2) times(2,1)] f(3-) r all reading_value by (simp add: reading_source)
  then obtain j where "j < Suc (Suc 0)"
      "handled (demo_rule_env wenv) (demo_rule 1 0x3F000000 0) reading (before_slot ?ps j 0 ?w) (after_slot ?ps j 0 ?w)"
    using env by (auto simp: reading_source)
  then show "let ps = ?ps; w = ?w in \<exists>j < Suc (Suc 0). handled (demo_rule_env wenv) (demo_rule 1 0x3F000000 0) reading
      (before_slot ps j 0 w) (after_slot ps j 0 w)" unfolding Let_def by blast
qed

lemma rule_ids_unique_witness:
  "distinct (map ar_id (au_rules (fold rule_edit [Put_rule \<lparr>ri_alloc = True, ri_open = ESP_OK, ri_write = ESP_OK, ri_commit = ESP_OK\<rparr> (demo_rule 0 0 0),
     Put_rule \<lparr>ri_alloc = False, ri_open = ESP_OK, ri_write = ESP_OK, ri_commit = ESP_OK\<rparr> (demo_rule 0 0 0)] (automation_boot None))))"
  by (rule rule_ids_unique) (simp_all add: ids_ok_def automation_boot_def demo_rule_def)

lemma deleted_rule_leaves_condition_witness:
  "\<forall>wenv k. \<exists>w. au_active (aw_rules (evaluate_rule (demo_rule_env wenv) 2000 0 (demo_rule 2 0x3FC00000 0x3F800000) w)) ! 0 \<and>
     \<not> condition_matches (demo_rule 2 0x3FC00000 0x3F800000) (f32_of_f64 (c_value reading)) False"
proof (intro allI)
  fix wenv k
  let ?r = "demo_rule 2 0x3FC00000 0x3F800000" and ?io = "\<lparr>ri_alloc = True, ri_open = ESP_OK, ri_write = ESP_OK, ri_commit = ESP_OK\<rparr>"
  define w where "w = (demo_world k [demo_rule 1 0x3F000000 0, ?r])
    \<lparr>aw_rules := (aw_rules (demo_world k [demo_rule 1 0x3F000000 0, ?r]))\<lparr>au_active := True # replicate 15 False\<rparr>\<rparr>"
  have "automation_ok (aw_rules w)"
    using demo_world_ok [of "[demo_rule 1 0x3F000000 0, ?r]" k] by (simp add: w_def automation_ok_def)
  moreover have "au_rules (aw_rules w) = demo_rule 1 0x3F000000 0 # ?r # []" "au_active (aw_rules w) ! 0"
    by (simp_all add: w_def demo_world_def automation_boot_def)
  moreover have "ar_operator ?r = RULE_OP_GT" "ar_enabled ?r" "ar_threshold ?r = 0x3FC00000" "ar_hysteresis ?r = 0x3F800000"
    by (simp_all add: demo_rule_def)
  ultimately have "\<not> condition_matches ?r (f32_of_f64 (c_value reading)) False \<and>
      au_active (aw_rules (evaluate_rule (demo_rule_env wenv) 2000 0 ?r
        (w\<lparr>aw_rules := fst (automation_delete_rule ?io (ar_id (demo_rule 1 0x3F000000 0)) (aw_rules w))\<rparr>))) ! 0"
    using deleted_rule_leaves_condition [of w "demo_rule 1 0x3F000000 0" ?r "[]" "demo_rule_env wenv" reading ?io 2000]
      reading_source reading_value reading_conditions(3,4) by simp
  then show "\<exists>w. au_active (aw_rules (evaluate_rule (demo_rule_env wenv) 2000 0 ?r w)) ! 0 \<and>
     \<not> condition_matches ?r (f32_of_f64 (c_value reading)) False" by blast
qed

end
