(* ===== verification/Mcp_Http.thy ===== *)
theory Mcp_Http
  imports Mcp_Limiter Mcp_Tokens Automation_Engine Uif_Replay Discovery_Full
begin

text \<open>
  The MCP server (\<open>mcp/mcp_http.c\<close>): the authorization of a request, the JSON-RPC handler, the eleven tools and
  the two phases in which a rule is configured. The HTTP server, the JSON printer and parser, and SHA-256 are
  parameters. The results on it are in \<open>Mcp_Safety\<close>.
\<close>

section \<open>State\<close>

record mcp_state =
  mh_buckets :: "rl_bucket list"
  mh_authorized :: u32
  mh_auth_failures :: u32
  mh_last_ms :: ms
  mh_tokens :: token_store
  mh_control :: control_state
  mh_rules :: automation_state
  mh_discover :: discover_state

text \<open>
  What a request finds: the configuration, the clock, the state of the points, the platform of the writes, the rule
  store, the bus, the record store, the text of the two log files, and the JSON library.
\<close>

record mcp_env =
  he_config :: runtime_config
  he_now :: ms
  he_sha :: "string \<Rightarrow> u8 list"
  he_alloc :: bool
  he_pool :: state_pool
  he_write :: write_env
  he_rules_io :: rules_io
  he_discover :: discover_env
  he_uif :: uif_state
  he_space :: "(nat \<times> nat) option"
  he_mounted :: bool
  he_log :: "bool \<Rightarrow> string option"
  he_print :: "json \<Rightarrow> string option"
  he_parse :: "string \<Rightarrow> json option"
  he_serialize :: "json \<Rightarrow> nat \<Rightarrow> string option"
  he_ub :: "f64 \<Rightarrow> int"

definition he_err_name :: "mcp_env \<Rightarrow> esp_err \<Rightarrow> string" where
  "he_err_name env = w_err_name (he_write env)"

record http_request =
  hq_peer :: peer
  hq_authorization :: "string option"
  hq_content_len :: int
  hq_chunks :: "string list"

record http_reply =
  hr_status :: string
  hr_headers :: "(string \<times> string) list"
  hr_body :: "string option"

definition reply :: "string \<Rightarrow> (string \<times> string) list \<Rightarrow> string option \<Rightarrow> http_reply" where
  "reply status headers body = \<lparr>hr_status = status, hr_headers = headers, hr_body = body\<rparr>"

section \<open>Authorization\<close>

definition require_mcp_authorization :: "mcp_env \<Rightarrow> http_request \<Rightarrow> mcp_state \<Rightarrow> mcp_state \<times> (mcp_token + http_reply)" where
  "require_mcp_authorization env req s =
     (if \<not> sec_auth_enabled (rc_security (he_config env))
      then (s, Inr (reply ''403 Forbidden'' [] (Some ''MCP access is disabled until authentication is configured'')))
      else
        let peer = peer_ip_key (hq_peer req);
            (bs, err, remaining) = mcp_rl_check peer (he_now env) (mh_buckets s);
            s = s\<lparr>mh_buckets := bs\<rparr>
        in if err \<noteq> ESP_OK
        then (s, Inr (reply ''429 Too Many Requests'' [(''Retry-After'', dec (nat (remaining div 1000 + 1)))]
                (Some ''Too many authentication failures from this address'')))
        else
          let token = (case hq_authorization req of
                Some a \<Rightarrow> (if length a < 192 \<and> take 7 a = ''Bearer ''
                  then (case mcp_token_authenticate (Some (sha256_hex (he_sha env) (drop 7 a))) (mh_tokens s) of
                          Inl t \<Rightarrow> Some t | Inr _ \<Rightarrow> None)
                  else None)
              | None \<Rightarrow> None)
          in case token of
               None \<Rightarrow>
                 (s\<lparr>mh_auth_failures := mh_auth_failures s + 1, mh_buckets := mcp_rl_fail peer (he_now env) (mh_buckets s)\<rparr>,
                  Inr (reply ''401 Unauthorized'' [(''WWW-Authenticate'', ''Bearer'')] (Some ''Unauthorized'')))
             | Some t \<Rightarrow>
                 (s\<lparr>mh_buckets := mcp_rl_ok peer (mh_buckets s), mh_authorized := mh_authorized s + 1, mh_last_ms := he_now env\<rparr>,
                  Inl t))"

text \<open>The body arrives in chunks; an empty one is an error of the connection.\<close>

fun receive_body :: "nat \<Rightarrow> string list \<Rightarrow> string \<Rightarrow> string option" where
  "receive_body n chunks buffer =
     (if length buffer \<ge> n then Some buffer
      else case chunks of
          [] \<Rightarrow> None
        | c # cs \<Rightarrow> (if c = [] then None else receive_body n cs (buffer @ take (n - length buffer) c)))"

declare receive_body.simps [simp del]

definition read_body :: "mcp_env \<Rightarrow> http_request \<Rightarrow> json option" where
  "read_body env req =
     (if hq_content_len req \<le> 0 \<or> hq_content_len req > 8192 \<or> \<not> he_alloc env then None
      else case receive_body (nat (hq_content_len req)) (hq_chunks req) [] of
          None \<Rightarrow> None
        | Some text \<Rightarrow> he_parse env text)"

definition send_rpc :: "mcp_env \<Rightarrow> json option \<Rightarrow> json option \<Rightarrow> int \<Rightarrow> string \<Rightarrow> http_reply" where
  "send_rpc env i result code message =
     (let fields = [(''jsonrpc'', JStr ''2.0''), (''id'', case i of Some j \<Rightarrow> j | None \<Rightarrow> JNull)] @
            (if code = 0 then (case result of Some r \<Rightarrow> [(''result'', r)] | None \<Rightarrow> [])
             else [(''error'', JObj [(''code'', JNum (f64_of_int code)), (''message'', JStr message)])])
      in reply ''200 OK'' [(''Content-Type'', ''application/json''), (''MCP-Protocol-Version'', ''2025-03-26'')]
           (he_print env (JObj fields)))"

section \<open>Reading the arguments\<close>

definition error_json :: "string \<Rightarrow> json option" where
  "error_json text = Some (JObj [(''error'', JStr text)])"

text \<open>The string and whether it is acceptable.\<close>

definition json_string :: "json \<Rightarrow> string \<Rightarrow> nat \<Rightarrow> bool \<Rightarrow> string \<times> bool" where
  "json_string root key n required =
     (case text_item key root of
        None \<Rightarrow> ([], \<not> required)
      | Some t \<Rightarrow> (strlcpy n t, \<not> required \<or> strlcpy n t \<noteq> []))"

definition is_true :: "json option \<Rightarrow> bool" where
  "is_true j \<longleftrightarrow> j = Some (JBool True)"

definition operator_names :: "string list" where
  "operator_names = [''gt'', ''gte'', ''lt'', ''lte'', ''eq'', ''neq'']"

definition parse_rule_operator :: "string \<Rightarrow> u32 option" where
  "parse_rule_operator v = map_option word_of_nat (find_slot (\<lambda>n. n = v) operator_names)"

section \<open>Rules\<close>

definition jwhole :: "u32 \<Rightarrow> json" where "jwhole x = JNum (f64_of_int (uint x))"

definition action_name :: "u32 \<Rightarrow> string" where
  "action_name a = (if a = RULE_ACTION_WRITE_POINT then ''write_point'' else ''mqtt_alert'')"

definition rule_preview_json :: "automation_rule \<Rightarrow> json" where
  "rule_preview_json r = JObj
     ([(''name'', JStr (ar_name r)), (''source_device'', JStr (ar_source_device r)),
       (''source_point'', JStr (ar_source_point r)), (''operator'', JStr (operator_names ! unat (ar_operator r))),
       (''threshold'', jfloat (ar_threshold r)), (''hysteresis'', jfloat (ar_hysteresis r)),
       (''hold_ms'', jwhole (ar_hold_ms r)), (''cooldown_ms'', jwhole (ar_cooldown_ms r)),
       (''action'', JStr (action_name (ar_action r)))] @
      (if ar_action r = RULE_ACTION_WRITE_POINT
       then [(''target_device'', JStr (ar_target_device r)), (''target_point'', JStr (ar_target_point r)),
             (''target_value'', jfloat (ar_target_value r))]
       else [(''alert_topic'', JStr (ar_alert_topic r)), (''alert_message'', JStr (ar_alert_message r))]) @
      [(''enabled'', JBool (ar_enabled r))])"

definition rule_response :: "automation_rule \<Rightarrow> bool \<Rightarrow> bool \<Rightarrow> string \<Rightarrow> u32 \<Rightarrow> json" where
  "rule_response r valid applied reason i = JObj
     ([(''valid'', JBool valid), (''applied'', JBool applied), (''reason'', JStr reason)] @
      (if i \<noteq> 0 then [(''rule_id'', jwhole i)] else []) @ [(''preview'', rule_preview_json r)])"

definition rule_to_json :: "automation_rule \<Rightarrow> json" where
  "rule_to_json r = JObj
     [(''rule_id'', jwhole (ar_id r)), (''enabled'', JBool (ar_enabled r)), (''name'', JStr (ar_name r)),
      (''source_device'', JStr (ar_source_device r)), (''source_point'', JStr (ar_source_point r)),
      (''operator'', JStr (if ar_operator r \<le> RULE_OP_NEQ then operator_names ! unat (ar_operator r) else ''unknown'')),
      (''threshold'', jfloat (ar_threshold r)), (''hysteresis'', jfloat (ar_hysteresis r)),
      (''hold_ms'', jwhole (ar_hold_ms r)), (''cooldown_ms'', jwhole (ar_cooldown_ms r)),
      (''action'', JStr (action_name (ar_action r))), (''target_device'', JStr (ar_target_device r)),
      (''target_point'', JStr (ar_target_point r)), (''target_value'', jfloat (ar_target_value r)),
      (''alert_topic'', JStr (ar_alert_topic r))]"

definition call_list_rules :: "mcp_env \<Rightarrow> automation_state \<Rightarrow> json option" where
  "call_list_rules env s =
     (if \<not> he_alloc env then error_json ''out of memory''
      else
        let stats = automation_get_stats s
        in Some (JObj [(''rules'', JArr (map rule_to_json (automation_get_rules (int AUTOMATION_MAX_RULES) s))),
             (''stats'', JObj [(''evaluations'', jwhole (as_evaluations stats)), (''triggers'', jwhole (as_triggers stats)),
                               (''failures'', jwhole (as_failures stats))])]))"

definition lookup_rule_point :: "mcp_env \<Rightarrow> string \<Rightarrow> string \<Rightarrow> control_constraint option" where
  "lookup_rule_point env device point =
     (if \<not> he_alloc env then None
      else map_option m_constraint (amm_find_mapping_by_point (Some device) (Some point) (w_amm (he_write env))))"

text \<open>
  The rule as the arguments describe it, as far as they were read, and why it is refused, if it is. The first step
  reads the required strings, and stops at the first that is missing.
\<close>

definition blank_rule :: automation_rule where
  "blank_rule = \<lparr>ar_id = 0, ar_enabled = True, ar_name = [], ar_source_device = [], ar_source_point = [], ar_operator = 0,
     ar_threshold = 0, ar_hysteresis = 0, ar_hold_ms = 0, ar_cooldown_ms = 1000, ar_interlock_device = [],
     ar_interlock_point = [], ar_interlock_required = False, ar_action = RULE_ACTION_MQTT_ALERT, ar_target_device = [],
     ar_target_point = [], ar_target_value = 0, ar_alert_topic = [], ar_alert_message = []\<rparr>"

definition required_fields :: "json \<Rightarrow> automation_rule \<times> string \<times> string \<times> bool" where
  "required_fields args =
     (let (t, ok) = json_string args ''rule_name'' 48 True; r = blank_rule\<lparr>ar_name := t\<rparr>
      in if \<not> ok then (r, [], [], False)
      else let (t, ok) = json_string args ''source_device'' 32 True; r = r\<lparr>ar_source_device := t\<rparr>
      in if \<not> ok then (r, [], [], False)
      else let (t, ok) = json_string args ''source_point'' 32 True; r = r\<lparr>ar_source_point := t\<rparr>
      in if \<not> ok then (r, [], [], False)
      else let (op_name, ok) = json_string args ''operator'' 8 True
      in if \<not> ok then (r, op_name, [], False)
      else let (act, ok) = json_string args ''action'' 16 True
      in (r, op_name, act, ok))"

definition optional_fields :: "mcp_env \<Rightarrow> json \<Rightarrow> automation_rule \<Rightarrow> automation_rule" where
  "optional_fields env args r = r
     \<lparr>ar_hold_ms := (case number_item ''hold_ms'' args of Some x \<Rightarrow> u32_of_f64 (he_ub env) x | None \<Rightarrow> ar_hold_ms r),
      ar_cooldown_ms := (case number_item ''cooldown_ms'' args of Some x \<Rightarrow> u32_of_f64 (he_ub env) x | None \<Rightarrow> ar_cooldown_ms r),
      ar_enabled := (case cjson_item ''enabled'' args of Some (JBool b) \<Rightarrow> b | _ \<Rightarrow> ar_enabled r),
      ar_interlock_device := fst (json_string args ''interlock_device'' 32 False),
      ar_interlock_point := fst (json_string args ''interlock_point'' 32 False),
      ar_interlock_required := is_true (cjson_item ''interlock_required_state'' args)\<rparr>"

definition write_action :: "mcp_env \<Rightarrow> json \<Rightarrow> automation_rule \<Rightarrow> automation_rule \<times> string option" where
  "write_action env args r =
     (let (t, ok) = json_string args ''target_device'' 32 True;
          r = r\<lparr>ar_action := RULE_ACTION_WRITE_POINT, ar_target_device := t\<rparr>
      in if \<not> ok then (r, Some ''missing write target'')
      else let (t, ok) = json_string args ''target_point'' 32 True; r = r\<lparr>ar_target_point := t\<rparr>
      in if \<not> ok then (r, Some ''missing write target'')
      else case number_item ''target_value'' args of
          None \<Rightarrow> (r, Some ''write target is not mapped'')
        | Some x \<Rightarrow>
            (if \<not> f64_isfinite x then (r, Some ''write target is not mapped'')
             else case lookup_rule_point env (ar_target_device r) (ar_target_point r) of
                 None \<Rightarrow> (r, Some ''write target is not mapped'')
               | Some c \<Rightarrow>
                   (let r = r\<lparr>ar_target_value := f32_of_f64 x\<rparr>
                    in if \<not> writable c \<or> f32_lt (ar_target_value r) (valid_range_min c) \<or>
                          f32_lt (valid_range_max c) (ar_target_value r)
                    then (r, Some ''write target is read-only or value is outside its safe range'') else (r, None))))"

definition action_fields :: "mcp_env \<Rightarrow> json \<Rightarrow> string \<Rightarrow> automation_rule \<Rightarrow> automation_rule \<times> string option" where
  "action_fields env args act r =
     (if act = ''write_point'' then write_action env args r
      else if act = ''mqtt_alert''
      then (r\<lparr>ar_alert_topic := fst (json_string args ''alert_topic'' 96 False),
              ar_alert_message := fst (json_string args ''alert_message'' 128 False)\<rparr>, None)
      else (r, Some ''invalid rule action''))"

definition interlock_fault :: "mcp_env \<Rightarrow> automation_rule \<Rightarrow> string option" where
  "interlock_fault env r =
     (if lookup_rule_point env (ar_source_device r) (ar_source_point r) = None then Some ''source point is not mapped''
      else if (ar_interlock_device r = []) \<noteq> (ar_interlock_point r = [])
      then Some ''interlock device and point must be provided together''
      else if ar_interlock_device r \<noteq> [] \<and> lookup_rule_point env (ar_interlock_device r) (ar_interlock_point r) = None
      then Some ''interlock point is not mapped''
      else None)"

definition rule_arguments :: "mcp_env \<Rightarrow> json \<Rightarrow> automation_rule \<times> string option" where
  "rule_arguments env args =
     (let (r, op_name, act, ok) = required_fields args
      in if \<not> ok then (r, Some ''missing required rule field'')
      else case number_item ''threshold'' args of
          None \<Rightarrow> (r, Some ''invalid threshold or operator'')
        | Some x \<Rightarrow>
            (if \<not> f64_isfinite x then (r, Some ''invalid threshold or operator'')
             else case parse_rule_operator op_name of
                 None \<Rightarrow> (r, Some ''invalid threshold or operator'')
               | Some code \<Rightarrow>
                   (let r = r\<lparr>ar_operator := code, ar_threshold := f32_of_f64 x\<rparr>;
                        h = number_item ''hysteresis'' args
                    in if (case h of Some y \<Rightarrow> \<not> f64_isfinite y | None \<Rightarrow> False) then (r, Some ''hysteresis must be finite'')
                    else
                      let r = (case h of Some y \<Rightarrow> r\<lparr>ar_hysteresis := f32_of_f64 y\<rparr> | None \<Rightarrow> r);
                          r = optional_fields env args r
                      in case interlock_fault env r of
                           Some reason \<Rightarrow> (r, Some reason)
                         | None \<Rightarrow>
                             (case action_fields env args act r of
                                (r, Some reason) \<Rightarrow> (r, Some reason)
                              | (r, None) \<Rightarrow>
                                  (if f32_lt (ar_hysteresis r) 0 \<or> ar_cooldown_ms r < 200
                                   then (r, Some ''hysteresis must be non-negative and cooldown at least 200 ms'')
                                   else (r, None))))))"

text \<open>The state, the response and whether it is an error.\<close>

definition call_configure_rule :: "mcp_env \<Rightarrow> json \<Rightarrow> bool \<Rightarrow> automation_state \<Rightarrow> automation_state \<times> json \<times> bool" where
  "call_configure_rule env args commit s =
     (case rule_arguments env args of
        (r, Some reason) \<Rightarrow> (s, rule_response r False False reason 0, True)
      | (r, None) \<Rightarrow>
          (if \<not> commit then (s, rule_response r True False ''preview only; call rule_commit to apply'' 0, False)
           else if \<not> rc_mcp_write_enabled (he_config env)
           then (s, rule_response r True False ''MCP configuration writes are disabled'' 0, True)
           else
             let (s, err, i) = automation_upsert_rule (he_rules_io env) (Some r) s
             in (s, rule_response r True (err = ESP_OK) (if err = ESP_OK then ''rule saved'' else he_err_name env err)
                      (case i of Some n \<Rightarrow> n | None \<Rightarrow> 0), err \<noteq> ESP_OK)))"

section \<open>Logs\<close>

text \<open>
  The ring of the last lines (\<open>mcp_log_tail_t\<close>) with its next slot and the number of lines in it. The file is read
  from a place near its end, the line that place falls into left out, in pieces of at most 383 bytes.
\<close>

type_synonym log_tail = "string list \<times> nat \<times> nat"

definition tail_push :: "string \<Rightarrow> log_tail \<Rightarrow> log_tail" where
  "tail_push line = (\<lambda>(lines, n, k). (lines[n := line], Suc n mod length lines, if k < length lines then Suc k else k))"

definition trim_line :: "string \<Rightarrow> string" where
  "trim_line line = rev (dropWhile (\<lambda>c. c = newline \<or> c = CHR 0x0D) (rev (takeWhile (\<lambda>c. c \<noteq> CHR 0x00) line)))"

lemma fgets_shorter: "fgets n s = Some (line, rest) \<Longrightarrow> 1 < n \<Longrightarrow> length rest < length s"
  by (cases s) (auto simp: fgets_def Let_def split: if_splits)

function read_lines :: "string \<Rightarrow> string list" where
  "read_lines text = (case fgets 384 text of None \<Rightarrow> [] | Some (line, rest) \<Rightarrow> trim_line line # read_lines rest)"
  by pat_completeness auto
termination by (relation "measure length") (auto dest: fgets_shorter)

declare read_lines.simps [simp del]

definition log_window :: "nat \<Rightarrow> string \<Rightarrow> string" where
  "log_window capacity text =
     (let window = capacity * 384
      in if length text > window
         then (case fgets 384 (drop (length text - window) text) of Some (_, rest) \<Rightarrow> rest | None \<Rightarrow> [])
         else text)"

definition collect_log_file :: "string option \<Rightarrow> log_tail \<Rightarrow> log_tail" where
  "collect_log_file file tail =
     (case file of
        None \<Rightarrow> tail
      | Some text \<Rightarrow> fold tail_push (read_lines (log_window (length (fst tail)) text)) tail)"

definition call_export_logs :: "mcp_env \<Rightarrow> json \<Rightarrow> json option \<times> bool" where
  "call_export_logs env args =
     (let name = (case text_item ''stream'' args of Some t \<Rightarrow> t | None \<Rightarrow> ''system'')
      in if name \<noteq> ''system'' \<and> name \<noteq> ''modbus'' then (error_json ''stream must be system or modbus'', True)
      else
        let max_lines = (case number_item ''max_lines'' args of Some x \<Rightarrow> value_int x | None \<Rightarrow> 100)
        in if max_lines < 1 \<or> max_lines > 200 then (error_json ''max_lines must be between 1 and 200'', True)
        else if \<not> he_alloc env then (error_json ''out of memory'', True)
        else
          let (lines, n, k) = collect_log_file (he_log env (name = ''modbus'')) (replicate (nat max_lines) [], 0, 0);
              first = (if k < length lines then 0 else n)
          in (Some (JObj [(''stream'', JStr name), (''line_count'', JNum (f64_of_int (int k))),
                (''lines'', JArr (map (\<lambda>i. JStr (lines ! ((first + i) mod length lines))) [0..<k]))]), False))"

section \<open>The other tools\<close>

definition quality_number :: "quality_state \<Rightarrow> int" where
  "quality_number q = (case q of QUALITY_GOOD \<Rightarrow> 0 | QUALITY_STALE \<Rightarrow> 1 | QUALITY_INVALID \<Rightarrow> 2)"

definition point_json :: "mcp_env \<Rightarrow> amm_entry \<Rightarrow> json" where
  "point_json env e = JObj
     ([(''device_id'', JStr (m_device_id e)), (''point_id'', JStr (m_point_id e)), (''name'', JStr (m_measurement_name e)),
       (''unit'', JStr (m_unit e)), (''writable'', JBool (writable (m_constraint e))),
       (''mapping_version'', jwhole (m_mapping_version e))] @
      (case tcm_state_pool_get (Some (m_device_id e)) (Some (m_point_id e)) (he_pool env) of
         Inl c \<Rightarrow> [(''value'', JNum (c_value c)), (''timestamp_ms'', JNum (f64_of_int (c_timestamp_ms c))),
                   (''quality_state'', JNum (f64_of_int (quality_number (c_quality_state c))))]
       | Inr _ \<Rightarrow> []))"

definition call_list_points :: "mcp_env \<Rightarrow> json option" where
  "call_list_points env =
     (let amm = w_amm (he_write env)
      in if \<not> he_alloc env then error_json ''out of memory''
         else Some (JArr (map (point_json env) (amm_get_entries (int (amm_get_capacity amm)) amm))))"

definition call_read_point :: "mcp_env \<Rightarrow> json \<Rightarrow> json option \<times> bool" where
  "call_read_point env args =
     (case (text_item ''device_id'' args, text_item ''point_id'' args) of
        (Some d, Some p) \<Rightarrow>
          (case tcm_state_pool_get (Some d) (Some p) (he_pool env) of
             Inr _ \<Rightarrow> (error_json ''point has no current state'', True)
           | Inl c \<Rightarrow>
               (case tcm_serialize_json (he_serialize env) (he_alloc env) c TCM_MAX_JSON_LEN of
                  (Some text, n) \<Rightarrow> (if n \<le> 0 then Some (JObj []) else he_parse env text, False)
                | (None, _) \<Rightarrow> (Some (JObj []), False)))
      | _ \<Rightarrow> (error_json ''point has no current state'', True))"

definition call_write_point :: "mcp_env \<Rightarrow> json \<Rightarrow> control_state \<Rightarrow> control_state \<times> json \<times> bool" where
  "call_write_point env args s =
     (case (text_item ''device_id'' args, text_item ''point_id'' args, number_item ''value'' args) of
        (Some d, Some p, Some v) \<Rightarrow>
          (if \<not> f64_isfinite v
           then (s, JObj [(''accepted'', JBool False), (''reason'', JStr ''invalid device/point/value'')], True)
           else if \<not> rc_mcp_write_enabled (he_config env)
           then (s, JObj [(''accepted'', JBool False), (''reason'', JStr ''MCP writes are disabled by gateway configuration'')], True)
           else
             let (s, err, result) = control_service_write_point (he_write env) (Some d) (Some p)
                   (f64_of_f32 (f32_of_f64 v)) CONTROL_SOURCE_MCP s
             in (s, JObj [(''accepted'', JBool (err = ESP_OK)),
                      (''reason'', JStr (if cr_reason result \<noteq> [] then cr_reason result else he_err_name env err))], err \<noteq> ESP_OK))
      | _ \<Rightarrow> (s, JObj [(''accepted'', JBool False), (''reason'', JStr ''invalid device/point/value'')], True))"

definition call_discover :: "mcp_env \<Rightarrow> json \<Rightarrow> discover_state \<Rightarrow> discover_state \<times> json \<times> bool" where
  "call_discover env args s =
     (let start = (case number_item ''slave_start'' args of Some x \<Rightarrow> value_int x | None \<Rightarrow> 1);
          stop = (case number_item ''slave_end'' args of Some x \<Rightarrow> value_int x | None \<Rightarrow> 247);
          (s, err) = (if start < 1 \<or> stop > 247 \<or> start > stop then (s, ESP_ERR_INVALID_ARG)
            else modbus_discover_scan_bus (he_discover env) (word_of_int start) (word_of_int stop) s)
      in (s, JObj [(''started'', JBool (err = ESP_OK)), (''status'', JStr (he_err_name env err))], err \<noteq> ESP_OK))"

definition call_get_config :: "mcp_env \<Rightarrow> json" where
  "call_get_config env =
     (let c = he_config env
      in JObj [(''gateway_id'', JStr (rc_gateway_id c)),
           (''locale'', JStr (if rc_locale c = UI_LOCALE_ZH_CN then ''zh-CN'' else ''en-US'')),
           (''prefer_ethernet'', JBool (rc_prefer_ethernet c)), (''mqtt_enabled'', JBool (q_enabled (rc_mqtt c))),
           (''mqtt_uri'', JStr (q_uri (rc_mqtt c))), (''modbus_rtu_enabled'', JBool (r_enabled (rc_modbus_rtu c))),
           (''amm_model_version'', jwhole (amm_get_model_version (w_amm (he_write env))))])"

definition call_cache_status :: "mcp_env \<Rightarrow> json" where
  "call_cache_status env =
     (let store = offline_store_get_stats (he_mounted env) (uf_store (he_uif env)); jint = (\<lambda>n. JNum (f64_of_int n))
      in JObj ([(''records'', jint (uif_get_cached_count (he_mounted env) (he_uif env))),
           (''usage_percent'', jint (int (offline_store_usage_percent (he_space env) (uf_store (he_uif env))))),
           (''data_loss'', jint (offline_store_data_loss_count (uf_store (he_uif env)))),
           (''flash_records'', jint (ot_flash_records store)), (''tf_records'', jint (ot_tf_records store)),
           (''flash_ready'', JBool (ot_flash_ready store)), (''tf_mounted'', JBool (ot_tf_mounted store))] @
          (if ot_flash_valid store then [(''flash_oldest_sequence'', jwhole (ot_flash_oldest store))] else []) @
          (if ot_tf_valid store then [(''tf_oldest_sequence'', jwhole (ot_tf_oldest store))] else [])))"

definition f64_integral :: "f64 \<Rightarrow> bool" where
  "f64_integral x \<longleftrightarrow> (case f64_trunc x of Some z \<Rightarrow> f64_eq (f64_of_int z) x | None \<Rightarrow> False)"

definition call_rule_delete :: "mcp_env \<Rightarrow> json \<Rightarrow> automation_state \<Rightarrow> automation_state \<times> json \<times> bool" where
  "call_rule_delete env args s =
     (let enabled = rc_mcp_write_enabled (he_config env);
          (s, err) = (if \<not> enabled then (s, ESP_ERR_NOT_ALLOWED)
            else case number_item ''rule_id'' args of
                None \<Rightarrow> (s, ESP_ERR_INVALID_ARG)
              | Some x \<Rightarrow>
                  (if f64_lt x (f64_of_int 1) \<or> f64_lt (f64_of_int (2 ^ 32 - 1)) x \<or> \<not> f64_integral x
                   then (s, ESP_ERR_INVALID_ARG)
                   else automation_delete_rule (he_rules_io env) (u32_of_f64 (he_ub env) x) s))
      in (s, JObj [(''deleted'', JBool (err = ESP_OK)),
               (''reason'', JStr (if \<not> enabled then ''MCP writes are disabled by gateway configuration'' else he_err_name env err))],
          err \<noteq> ESP_OK))"

section \<open>Dispatch\<close>

definition tool_required_scope :: "string \<Rightarrow> u8" where
  "tool_required_scope name =
     (if name = ''write_point'' \<or> name = ''rule_commit'' \<or> name = ''rule_delete'' \<or> name = ''discover_modbus_devices''
      then MCP_SCOPE_WRITE else MCP_SCOPE_READ)"

definition tool_call :: "mcp_env \<Rightarrow> string \<Rightarrow> json \<Rightarrow> mcp_state \<Rightarrow> mcp_state \<times> json option \<times> bool" where
  "tool_call env name args s =
     (if name = ''list_points'' then (s, call_list_points env, False)
      else if name = ''read_point'' then (s, call_read_point env args)
      else if name = ''write_point'' then
        (let (k, j, e) = call_write_point env args (mh_control s) in (s\<lparr>mh_control := k\<rparr>, Some j, e))
      else if name = ''discover_modbus_devices'' then
        (let (d, j, e) = call_discover env args (mh_discover s) in (s\<lparr>mh_discover := d\<rparr>, Some j, e))
      else if name = ''get_gateway_config'' then (s, Some (call_get_config env), False)
      else if name = ''get_cache_status'' then (s, Some (call_cache_status env), False)
      else if name = ''list_rules'' then (s, call_list_rules env (mh_rules s), False)
      else if name = ''rule_preview'' then
        (let (a, j, e) = call_configure_rule env args False (mh_rules s) in (s\<lparr>mh_rules := a\<rparr>, Some j, e))
      else if name = ''rule_commit'' then
        (let (a, j, e) = call_configure_rule env args True (mh_rules s) in (s\<lparr>mh_rules := a\<rparr>, Some j, e))
      else if name = ''rule_delete'' then
        (let (a, j, e) = call_rule_delete env args (mh_rules s) in (s\<lparr>mh_rules := a\<rparr>, Some j, e))
      else if name = ''export_logs'' then (s, call_export_logs env args)
      else (s, error_json ''unknown tool'', True))"

definition tool_text_result :: "mcp_env \<Rightarrow> json option \<Rightarrow> bool \<Rightarrow> json" where
  "tool_text_result env v is_error =
     (let text = (case v of Some j \<Rightarrow> (case he_print env j of Some t \<Rightarrow> t | None \<Rightarrow> ''{}'') | None \<Rightarrow> ''{}'')
      in JObj [(''content'', JArr [JObj [(''type'', JStr ''text''), (''text'', JStr text)]]), (''isError'', JBool is_error)])"

definition add_tool :: "mcp_env \<Rightarrow> string \<times> string \<times> string \<times> string option \<Rightarrow> json" where
  "add_tool env = (\<lambda>(name, description, properties, required).
     JObj [(''name'', JStr name), (''description'', JStr description),
       (''inputSchema'', JObj ([(''type'', JStr ''object''),
          (''properties'', case he_parse env properties of Some j \<Rightarrow> j | None \<Rightarrow> JObj [])] @
          (case required of
             Some t \<Rightarrow> (case he_parse env t of Some j \<Rightarrow> [(''required'', j)] | None \<Rightarrow> [])
           | None \<Rightarrow> [])))])"

definition rule_props :: string where
  "rule_props = ''{\"rule_name\":{\"type\":\"string\"},'' @
     ''\"source_device\":{\"type\":\"string\"},\"source_point\":{\"type\":\"string\"},'' @
     ''\"operator\":{\"type\":\"string\",\"enum\":[\"gt\",\"gte\",\"lt\",\"lte\",\"eq\",\"neq\"]},'' @
     ''\"threshold\":{\"type\":\"number\"},\"hysteresis\":{\"type\":\"number\",\"minimum\":0},'' @
     ''\"hold_ms\":{\"type\":\"integer\",\"minimum\":0},'' @
     ''\"cooldown_ms\":{\"type\":\"integer\",\"minimum\":200},'' @
     ''\"action\":{\"type\":\"string\",\"enum\":[\"mqtt_alert\",\"write_point\"]},'' @
     ''\"target_device\":{\"type\":\"string\"},\"target_point\":{\"type\":\"string\"},'' @
     ''\"target_value\":{\"type\":\"number\"},\"alert_topic\":{\"type\":\"string\"},'' @
     ''\"alert_message\":{\"type\":\"string\"},\"interlock_device\":{\"type\":\"string\"},'' @
     ''\"interlock_point\":{\"type\":\"string\"},\"interlock_required_state\":{\"type\":\"boolean\"},'' @
     ''\"enabled\":{\"type\":\"boolean\"}}''"

definition rule_required :: string where
  "rule_required = ''[\"rule_name\",\"source_device\",\"source_point\",\"operator\",\"threshold\",\"action\"]''"

definition mcp_tools :: "(string \<times> string \<times> string \<times> string option) list" where
  "mcp_tools =
    [(''list_points'', ''List AMM semantic points and latest values'', ''{}'', None),
     (''read_point'', ''Read the latest TCM context for a semantic point'',
      ''{\"device_id\":{\"type\":\"string\"},\"point_id\":{\"type\":\"string\"}}'', Some ''[\"device_id\",\"point_id\"]''),
     (''write_point'', ''Write a point through AMM safety constraints'',
      ''{\"device_id\":{\"type\":\"string\"},\"point_id\":{\"type\":\"string\"},\"value\":{\"type\":\"number\"}}'',
      Some ''[\"device_id\",\"point_id\",\"value\"]''),
     (''discover_modbus_devices'', ''Start asynchronous Modbus RTU device discovery'',
      ''{\"slave_start\":{\"type\":\"integer\",\"minimum\":1,\"maximum\":247},\"slave_end\":{\"type\":\"integer\",\"minimum\":1,\"maximum\":247}}'', None),
     (''get_gateway_config'', ''Read non-secret gateway runtime configuration'', ''{}'', None),
     (''get_cache_status'', ''Read UIF offline cache and replay status'', ''{}'', None),
     (''list_rules'', ''List configured local automation rules and execution statistics'', ''{}'', None),
     (''rule_preview'', ''Validate a natural-language rule and return a structured preview '' @
        ''without persisting it. Always call this first and show the result '' @ ''to the user before rule_commit.'',
      rule_props, Some rule_required),
     (''rule_commit'', ''Persist a previously previewed rule. Re-validates all numeric '' @ ''boundaries before writing.'',
      rule_props, Some rule_required),
     (''rule_delete'', ''Delete a local automation rule by identifier'',
      ''{\"rule_id\":{\"type\":\"integer\",\"minimum\":1}}'', Some ''[\"rule_id\"]''),
     (''export_logs'', ''Read a bounded tail of persisted gateway logs'',
      ''{\"stream\":{\"type\":\"string\",\"enum\":[\"system\",\"modbus\"]},'' @
      ''\"max_lines\":{\"type\":\"integer\",\"minimum\":1,\"maximum\":200}}'', None)]"

definition tools_list_result :: "mcp_env \<Rightarrow> json" where
  "tools_list_result env = JObj [(''tools'', JArr (map (add_tool env) mcp_tools))]"

definition initialize_result :: json where
  "initialize_result = JObj [(''protocolVersion'', JStr ''2025-03-26''),
     (''capabilities'', JObj [(''tools'', JObj [])]),
     (''serverInfo'', JObj [(''name'', JStr ''esp32s3-industrial-gateway''), (''version'', JStr ''1.0.0'')])]"

text \<open>A call of a tool: the result, or the code and text of an error.\<close>

definition call_method :: "mcp_env \<Rightarrow> mcp_token \<Rightarrow> json \<Rightarrow> mcp_state \<Rightarrow> mcp_state \<times> (json + int \<times> string)" where
  "call_method env token request s =
     (let params = cjson_item ''params'' request
      in case (case params of Some p \<Rightarrow> text_item ''name'' p | None \<Rightarrow> None) of
           None \<Rightarrow> (s, Inr (-32602, ''Missing tool name''))
         | Some name \<Rightarrow>
             (if \<not> mcp_token_has_scope (Some token) (tool_required_scope name)
              then (s, Inr (-32602, ''Token scope is insufficient for this tool''))
              else
                let args = (case params of Some p \<Rightarrow> (case cjson_item ''arguments'' p of Some (JObj fs) \<Rightarrow> JObj fs | _ \<Rightarrow> JObj []) | None \<Rightarrow> JObj []);
                    (s, v, e) = tool_call env name args s
                in (s, Inl (tool_text_result env v e))))"

definition handle_request :: "mcp_env \<Rightarrow> mcp_token \<Rightarrow> json \<Rightarrow> mcp_state \<Rightarrow> mcp_state \<times> http_reply" where
  "handle_request env token request s =
     (let i = cjson_item ''id'' request
      in case text_item ''method'' request of
           None \<Rightarrow> (s, send_rpc env i None (-32600) ''Invalid Request'')
         | Some method \<Rightarrow>
             (if method = ''initialize'' then (s, send_rpc env i (Some initialize_result) 0 [])
              else if method = ''tools/list'' then (s, send_rpc env i (Some (tools_list_result env)) 0 [])
              else if method = ''tools/call'' then
                (case call_method env token request s of
                   (s, Inl result) \<Rightarrow> (s, send_rpc env i (Some result) 0 [])
                 | (s, Inr (code, message)) \<Rightarrow> (s, send_rpc env i None code message))
              else if method = ''notifications/initialized'' then (s, reply ''202 Accepted'' [] None)
              else (s, send_rpc env i None (-32601) ''Method not found'')))"

definition mcp_post_handler :: "mcp_env \<Rightarrow> http_request \<Rightarrow> mcp_state \<Rightarrow> mcp_state \<times> http_reply" where
  "mcp_post_handler env req s =
     (case require_mcp_authorization env req s of
        (s, Inr r) \<Rightarrow> (s, r)
      | (s, Inl token) \<Rightarrow>
          (case read_body env req of
             None \<Rightarrow> (s, send_rpc env None None (-32700) ''Parse error'')
           | Some request \<Rightarrow> handle_request env token request s))"

definition mcp_options_handler :: http_reply where
  "mcp_options_handler = reply ''200 OK'' [(''Access-Control-Allow-Methods'', ''POST, OPTIONS''),
     (''Access-Control-Allow-Headers'', ''Content-Type, Authorization, MCP-Protocol-Version'')] None"

definition mcp_status_get_handler :: "mcp_env \<Rightarrow> mcp_state \<Rightarrow> http_reply" where
  "mcp_status_get_handler env s =
     (let auth = sec_auth_enabled (rc_security (he_config env)); tokens = mcp_token_count (mh_tokens s);
          root = JObj [(''access_enabled'', JBool (auth \<and> tokens > 0)), (''auth_enabled'', JBool auth),
            (''token_count'', JNum (f64_of_int (int tokens))), (''token_configured'', JBool (tokens > 0)),
            (''write_enabled'', JBool (rc_mcp_write_enabled (he_config env))), (''endpoint'', JStr ''/mcp''),
            (''authorized_requests'', jwhole (mh_authorized s)), (''authentication_failures'', jwhole (mh_auth_failures s)),
            (''last_authorized_uptime_ms'', JNum (f64_of_int (mh_last_ms s))), (''tool_count'', JNum (f64_of_int 11))]
      in case he_print env root of
           None \<Rightarrow> reply ''500 Internal Server Error'' [] (Some ''Unable to serialize MCP status'')
         | Some text \<Rightarrow> reply ''200 OK'' [(''Content-Type'', ''application/json''), (''Cache-Control'', ''no-store'')] (Some text))"

text \<open>
  The start: the token store, then the three handlers, each only if the one before it was taken. \<open>opens\<close>,
  \<open>ok\<close>: what the token store finds; \<open>regs\<close>: the results of the registrations.
\<close>

definition mcp_http_register :: "bool \<Rightarrow> bool \<Rightarrow> mcp_env \<Rightarrow> esp_err \<times> esp_err \<times> esp_err \<Rightarrow> mcp_state \<Rightarrow> mcp_state \<times> esp_err" where
  "mcp_http_register opens ok env regs s =
     (let (post, options, status) = regs;
          s = s\<lparr>mh_tokens := mcp_token_store_init opens ok (he_config env) (he_now env) (mh_tokens s)\<rparr>;
          err = (if post = ESP_OK then options else post)
      in (s, if err = ESP_OK then status else err))"

end
