(* ===== verification/Mcp_Safety.thy ===== *)
theory Mcp_Safety
  imports Mcp_Http Ring_Log
begin

text \<open>
  What the MCP server guarantees: no request changes a point, a rule or the state of the discovery unless an enabled
  token with the write scope came with it; what a rule preview accepts and shows is what the commit stores; the exported
  log is the tail of the file, although only a window at its end is read.
\<close>

section \<open>Who may change what\<close>

text \<open>A request carries a token that may write.\<close>

definition write_authorized :: "mcp_env \<Rightarrow> http_request \<Rightarrow> mcp_state \<Rightarrow> bool" where
  "write_authorized env req s \<longleftrightarrow> sec_auth_enabled (rc_security (he_config env)) \<and>
     (\<exists>t \<in> set (ts_tokens (mh_tokens s)). \<exists>secret. tk_valid t \<and> tk_enabled t \<and> tk_scope t AND MCP_SCOPE_WRITE \<noteq> 0 \<and>
        hq_authorization req = Some (''Bearer '' @ secret) \<and> digest_equal (tk_digest t) (sha256_hex (he_sha env) secret))"

text \<open>What a request may change.\<close>

definition effects :: "mcp_state \<Rightarrow> control_state \<times> automation_state \<times> discover_state" where
  "effects s = (mh_control s, mh_rules s, mh_discover s)"

lemma authorization_shape:
  assumes "require_mcp_authorization env req s = (s', v)"
  shows "effects s' = effects s" "mh_tokens s' = mh_tokens s"
  using assms
  by (auto simp: require_mcp_authorization_def Let_def effects_def split: if_splits prod.splits option.splits)

lemma authorization_token:
  assumes "require_mcp_authorization env req s = (s', Inl t)"
  shows "sec_auth_enabled (rc_security (he_config env))"
    "\<exists>secret. hq_authorization req = Some (''Bearer '' @ secret) \<and> t \<in> set (ts_tokens (mh_tokens s)) \<and> tk_valid t \<and>
       tk_enabled t \<and> digest_equal (tk_digest t) (sha256_hex (he_sha env) secret)"
proof -
  show "sec_auth_enabled (rc_security (he_config env))"
    using assms by (auto simp: require_mcp_authorization_def split: if_splits)
  from assms obtain a where a: "hq_authorization req = Some a" "take 7 a = ''Bearer ''"
      "mcp_token_authenticate (Some (sha256_hex (he_sha env) (drop 7 a))) (mh_tokens s) = Inl t"
    by (auto simp: require_mcp_authorization_def Let_def split: if_splits prod.splits option.splits sum.splits)
  have "a = ''Bearer '' @ drop 7 a" using append_take_drop_id [of 7 a] a(2) by simp
  with a show "\<exists>secret. hq_authorization req = Some (''Bearer '' @ secret) \<and> t \<in> set (ts_tokens (mh_tokens s)) \<and> tk_valid t \<and>
       tk_enabled t \<and> digest_equal (tk_digest t) (sha256_hex (he_sha env) secret)"
    by (auto simp: mcp_token_authenticate_def find_Some_iff split: if_splits option.splits)
qed

text \<open>What each tool changes.\<close>

lemma tool_call_control:
  "mh_control (fst (tool_call env name args s)) =
     (if name = ''write_point'' then fst (call_write_point env args (mh_control s)) else mh_control s)"
  by (cases "name = ''write_point''") (simp_all add: tool_call_def split_beta Let_def)

lemma tool_call_discover:
  "mh_discover (fst (tool_call env name args s)) =
     (if name = ''discover_modbus_devices'' then fst (call_discover env args (mh_discover s)) else mh_discover s)"
  by (cases "name = ''discover_modbus_devices''") (simp_all add: tool_call_def split_beta Let_def)

lemma configure_preview [simp]: "fst (call_configure_rule env args False a) = a"
  by (simp add: call_configure_rule_def split: prod.split option.split)

lemma tool_call_rules:
  "mh_rules (fst (tool_call env name args s)) =
     (if name = ''rule_commit'' then fst (call_configure_rule env args True (mh_rules s))
      else if name = ''rule_delete'' then fst (call_rule_delete env args (mh_rules s)) else mh_rules s)"
  by (cases "name = ''rule_commit''"; cases "name = ''rule_delete''") (simp_all add: tool_call_def split_beta Let_def)

lemma tool_call_tokens: "mh_tokens (fst (tool_call env name args s)) = mh_tokens s"
  by (simp add: tool_call_def split_beta Let_def)

lemma write_tool_effects:
  "effects (fst (tool_call env name args s)) \<noteq> effects s \<Longrightarrow> tool_required_scope name = MCP_SCOPE_WRITE"
  by (auto simp: effects_def tool_call_control tool_call_discover tool_call_rules tool_required_scope_def split: if_splits)

lemma writes_refused:
  assumes "\<not> rc_mcp_write_enabled (he_config env)"
  shows "fst (call_write_point env args k) = k" "fst (call_configure_rule env args b a) = a" "fst (call_rule_delete env args a) = a"
  using assms by (simp_all add: call_write_point_def call_configure_rule_def call_rule_delete_def Let_def
      split: prod.split option.split)

text \<open>A request that passed the authorization.\<close>

lemma handle_request_shape:
  "fst (handle_request env t request s) \<in> {s} \<union>
     {fst (tool_call env name args s) | name args. mcp_token_has_scope (Some t) (tool_required_scope name)}"
proof (cases "\<exists>r. fst (call_method env t request s) = s")
  case True
  then show ?thesis
    by (simp add: handle_request_def Let_def split: option.split prod.split sum.split) fastforce
next
  case False
  then obtain name args where "fst (call_method env t request s) = fst (tool_call env name args s)"
      "mcp_token_has_scope (Some t) (tool_required_scope name)"
    by (auto simp: call_method_def Let_def split_beta split: option.splits if_splits)
  then show ?thesis
    by (simp add: handle_request_def Let_def split: option.split prod.split sum.split) fastforce
qed

section \<open>What a commit stores\<close>

lemma save_rules_rules [simp]: "au_rules (fst (save_rules io s)) = au_rules s"
  by (simp add: save_rules_def)

lemma required_fields_rule:
  "ar_id (fst (required_fields args)) = 0"
  by (simp add: required_fields_def blank_rule_def split_beta Let_def)

lemma optional_fields_id [simp]: "ar_id (optional_fields env args r) = ar_id r"
  by (simp add: optional_fields_def)

lemma write_action_id [simp]: "ar_id (fst (write_action env args r)) = ar_id r"
  by (simp add: write_action_def split_beta Let_def split: option.split)

lemma action_fields_id [simp]: "ar_id (fst (action_fields env args act r)) = ar_id r"
  by (simp add: action_fields_def)

lemma rule_arguments_ok:
  assumes "rule_arguments env args = (r, None)"
  shows "ar_id r = 0" "\<not> ar_cooldown_ms r < 200"
proof -
  obtain r0 opn act ok where f: "required_fields args = (r0, opn, act, ok)" by (metis prod_cases4)
  have id: "ar_id r0 = 0" using required_fields_rule [of args] f by simp
  have "\<exists>r1. action_fields env args act r1 = (r, None) \<and> ar_id r1 = 0 \<and> \<not> ar_cooldown_ms r < 200"
    using assms id unfolding rule_arguments_def
    by (auto simp: f Let_def split: if_splits option.splits prod.splits intro!: exI conjI)
  then obtain r1 where "action_fields env args act r1 = (r, None)" "ar_id r1 = 0" "\<not> ar_cooldown_ms r < 200" by metis
  then show "ar_id r = 0" "\<not> ar_cooldown_ms r < 200" using action_fields_id [of env args act r1] by auto
qed

text \<open>The interlock of a rule, which no preview shows, is the one the arguments name.\<close>

definition interlock_of :: "automation_rule \<Rightarrow> string \<times> string \<times> bool" where
  "interlock_of r = (ar_interlock_device r, ar_interlock_point r, ar_interlock_required r)"

lemma action_fields_interlock: "interlock_of (fst (action_fields env args act r)) = interlock_of r"
  by (simp add: action_fields_def write_action_def interlock_of_def split_beta Let_def split: option.split)

lemma rule_arguments_interlock:
  assumes "rule_arguments env args = (r, None)"
  shows "interlock_of r = (fst (json_string args ''interlock_device'' 32 False), fst (json_string args ''interlock_point'' 32 False),
      is_true (cjson_item ''interlock_required_state'' args))"
    "ar_interlock_device r = [] \<longleftrightarrow> ar_interlock_point r = []"
proof -
  obtain r0 opn act ok where f: "required_fields args = (r0, opn, act, ok)" by (metis prod_cases4)
  have "\<exists>r1 r2. action_fields env args act r1 = (r, None) \<and> r1 = optional_fields env args r2 \<and> interlock_fault env r1 = None"
    using assms unfolding rule_arguments_def by (auto simp: f Let_def split: if_splits option.splits prod.splits)
  then obtain r1 r2 where r1: "action_fields env args act r1 = (r, None)" "r1 = optional_fields env args r2"
    "interlock_fault env r1 = None" by blast
  then have i: "interlock_of r = interlock_of r1" using action_fields_interlock [of env args act r1] by simp
  then show "interlock_of r = (fst (json_string args ''interlock_device'' 32 False),
      fst (json_string args ''interlock_point'' 32 False), is_true (cjson_item ''interlock_required_state'' args))"
    using r1(2) by (simp add: optional_fields_def interlock_of_def)
  show "ar_interlock_device r = [] \<longleftrightarrow> ar_interlock_point r = []"
    using i r1(3) by (auto simp: interlock_of_def interlock_fault_def split: if_splits)
qed

lemma preview_ignores_id: "rule_preview_json (r\<lparr>ar_id := i\<rparr>) = rule_preview_json r"
  by (simp add: rule_preview_json_def)

lemma complete_fresh: "ar_id r = 0 \<Longrightarrow> \<not> ar_cooldown_ms r < 200 \<Longrightarrow> complete_rule n r = r\<lparr>ar_id := n\<rparr>"
  by (cases "ar_cooldown_ms r = 0") (simp_all add: complete_rule_def)

lemma upsert_new:
  assumes "ar_id r = 0" "\<not> ar_cooldown_ms r < 200" "automation_upsert_rule io (Some r) s = (s', ESP_OK, i)"
  shows "au_rules s' = au_rules s @ [r\<lparr>ar_id := au_next_id s\<rparr>] \<and> i = Some (au_next_id s)"
  using assms(3)
  by (auto simp: automation_upsert_rule_def Let_def split_beta assms(1) complete_fresh [OF assms(1,2)] split: if_splits)

section \<open>The tail of a log\<close>

definition tail_ok :: "nat \<Rightarrow> log_tail \<Rightarrow> bool" where
  "tail_ok c = (\<lambda>(es, n, k). length es = c \<and> ring_ok es n k \<and> (k < c \<longrightarrow> n = k))"

definition tail_lines :: "log_tail \<Rightarrow> string list" where
  "tail_lines = (\<lambda>(es, n, k). ring_list es n k)"

lemma tail_ring_push:
  assumes "tail_ok c t"
  shows "tail_ok c (tail_push l t)" "tail_lines (tail_push l t) = lastn c (tail_lines t @ [l])"
proof -
  obtain es n k where t: "t = (es, n, k)" by (cases t)
  have ok: "ring_ok es n k" "length es = c" using assms by (simp_all add: t tail_ok_def)
  then have "Suc n mod c < c" by (cases c) (simp_all add: ring_ok_def)
  then show "tail_ok c (tail_push l t)" using assms by (auto simp: t tail_ok_def tail_push_def ring_ok_def)
  show "tail_lines (tail_push l t) = lastn c (tail_lines t @ [l])"
    using ring_list_push [OF ok(1), of l] ok(2) by (simp add: t tail_lines_def tail_push_def)
qed

interpretation tail: ring_log tail_push tail_lines c "tail_ok c" for c
  by unfold_locales (auto simp: tail_ring_push, auto simp: tail_ok_def tail_lines_def ring_ok_def)

lemma tail_read:
  assumes "tail_ok c (es, n, k)"
  shows "map (\<lambda>i. es ! (((if k < length es then 0 else n) + i) mod length es)) [0..<k] = tail_lines (es, n, k)"
  using assms by (auto simp: tail_ok_def tail_lines_def ring_list_def ring_oldest_def ring_ok_def)

text \<open>A log file of complete lines, and reading it.\<close>

definition log_text :: "string list \<Rightarrow> string" where
  "log_text ls = concat (map (\<lambda>l. l @ [newline]) ls)"

definition log_line :: "string \<Rightarrow> bool" where
  "log_line l \<longleftrightarrow> newline \<notin> set l \<and> length l \<le> 382"

lemma log_text_simps [simp]:
  "log_text [] = []" "log_text (l # ls) = l @ newline # log_text ls" "log_text (as @ bs) = log_text as @ log_text bs"
  by (simp_all add: log_text_def)

lemma log_fgets:
  assumes "newline \<notin> set l" "length l \<le> 382"
  shows "fgets 384 (l @ newline # rest) = Some (l @ [newline], rest)"
proof -
  have "takeWhile (\<lambda>c. c \<noteq> newline) (l @ newline # rest) = l" using assms(1) by (subst takeWhile_append2) auto
  then show ?thesis using assms(2) by (simp add: fgets_def Let_def)
qed

lemma trim_newline: "trim_line (l @ [newline]) = trim_line l"
proof (cases "CHR 0x00 \<in> set l")
  case True
  then show ?thesis by (auto simp: trim_line_def takeWhile_append1)
next
  case False
  then have "\<forall>c \<in> set l. c \<noteq> CHR 0x00" by auto
  then have t: "takeWhile (\<lambda>c. c \<noteq> CHR 0x00) l = l" "takeWhile (\<lambda>c. c \<noteq> CHR 0x00) (l @ [newline]) = l @ [newline]"
    unfolding takeWhile_eq_all_conv by auto
  show ?thesis unfolding trim_line_def t by simp
qed

lemma read_log_text: "\<forall>l \<in> set ls. log_line l \<Longrightarrow> read_lines (log_text ls) = map trim_line ls"
proof (induction ls)
  case Nil
  then show ?case by (subst read_lines.simps) (simp add: fgets_def)
next
  case (Cons l ls)
  then show ?case
    by (subst read_lines.simps) (simp add: log_fgets log_line_def trim_newline)
qed

lemma log_text_length: "\<forall>l \<in> set ls. log_line l \<Longrightarrow> length (log_text ls) \<le> 383 * length ls"
  by (induction ls) (auto simp: log_line_def)

text \<open>A cut inside complete lines leaves the rest of one line, and complete lines.\<close>

lemma log_text_cut:
  assumes "\<forall>l \<in> set ls. log_line l" "k < length (log_text ls)"
  shows "\<exists>p rs xs. drop k (log_text ls) = p @ newline # log_text rs \<and> log_line p \<and> ls = xs @ rs"
  using assms
proof (induction ls arbitrary: k)
  case (Cons l ls)
  show ?case
  proof (cases "k \<le> length l")
    case True
    have "log_line (drop k l)" using Cons.prems(1) by (auto simp: log_line_def dest: in_set_dropD)
    moreover have "drop k (log_text (l # ls)) = drop k l @ newline # log_text ls" using True by simp
    moreover have "l # ls = [l] @ ls" by simp
    ultimately show ?thesis by blast
  next
    case False
    then have "k - length l = Suc (k - Suc (length l))" by simp
    then have k: "drop k (log_text (l # ls)) = drop (k - Suc (length l)) (log_text ls)"
      using False by simp
    then obtain p rs xs where p: "drop (k - Suc (length l)) (log_text ls) = p @ newline # log_text rs" "log_line p" "ls = xs @ rs"
    proof -
      have "k - Suc (length l) < length (log_text ls)" "\<forall>l \<in> set ls. log_line l" using Cons.prems False by auto
      from Cons.IH [OF this(2,1)] show ?thesis using that by blast
    qed
    have "l # ls = (l # xs) @ rs" using p(3) by simp
    then show ?thesis using p k by metis
  qed
qed simp

lemma log_window_tail:
  assumes "\<forall>l \<in> set ls. log_line l" "0 < c"
  shows "lastn c (read_lines (log_window c (log_text ls))) = lastn c (map trim_line ls)"
proof (cases "length (log_text ls) > c * 384")
  case False
  then show ?thesis using read_log_text [OF assms(1)] by (simp add: log_window_def)
next
  case True
  let ?t = "log_text ls" and ?as = "take (length ls - c) ls"
  have ls: "ls = ?as @ lastn c ls" by (simp add: lastn_def)
  have long: "c < length ls" using log_text_length [OF assms(1)] True by (simp add: not_le [symmetric])
  have "\<forall>l \<in> set (lastn c ls). log_line l" using assms(1) by (auto simp: lastn_def dest: in_set_dropD)
  from log_text_length [OF this] have "length (log_text (lastn c ls)) \<le> 383 * c" using long by simp
  moreover have "length ?t = length (log_text ?as) + length (log_text (lastn c ls))"
    using arg_cong [OF ls, of "\<lambda>x. length (log_text x)"] by simp
  ultimately have k: "length ?t - c * 384 < length (log_text ?as)" using True assms(2) by simp
  have as: "\<forall>l \<in> set ?as. log_line l" using assms(1) by (auto dest: in_set_takeD)
  obtain p rs xs where p: "drop (length ?t - c * 384) (log_text ?as) = p @ newline # log_text rs" "log_line p" "?as = xs @ rs"
    using log_text_cut [OF as k] by blast
  have "drop (length ?t - c * 384) ?t = p @ newline # log_text (rs @ lastn c ls)"
    using k p(1) arg_cong [OF ls, of "\<lambda>x. drop (length ?t - c * 384) (log_text x)"] by simp
  then have w: "log_window c ?t = log_text (rs @ lastn c ls)"
    using True p(2) by (simp add: log_window_def log_fgets log_line_def)
  have "\<forall>l \<in> set (rs @ lastn c ls). log_line l"
    using as p(3) assms(1) by (auto simp: lastn_def dest: in_set_dropD)
  from read_log_text [OF this] have "read_lines (log_window c ?t) = map trim_line rs @ map trim_line (lastn c ls)"
    by (simp add: w)
  then show ?thesis using long by (simp add: lastn_def drop_map)
qed

section \<open>Properties\<close>

text \<open>
  C7. No request changes the state of the points' control, the rules or the discovery unless authentication is on and
  the request carries the secret of an enabled token whose scope has the write bit itself - the administrator bit,
  which the header of the token store describes as including read and write, does not stand for it; and
  writing points or rules needs the gateway's switch for MCP writes as well. No request changes the tokens.
\<close>

theorem mcp_changes_authorized:
  assumes "s' = fst (mcp_post_handler env req s)" "effects s' \<noteq> effects s"
  shows "write_authorized env req s \<and> mh_tokens s' = mh_tokens s \<and>
    (rc_mcp_write_enabled (he_config env) \<or> mh_control s' = mh_control s \<and> mh_rules s' = mh_rules s)"
proof -
  obtain s1 v where r: "require_mcp_authorization env req s = (s1, v)" by fastforce
  note same = authorization_shape [OF r]
  obtain t request where v: "v = Inl t" and s': "s' = fst (handle_request env t request s1)"
    using assms same by (cases v) (auto simp: mcp_post_handler_def r split: option.splits)
  obtain name args where c: "s' = fst (tool_call env name args s1)"
      "mcp_token_has_scope (Some t) (tool_required_scope name)"
    using handle_request_shape [of env t request s1] assms(2) s' same(1) by auto
  have "tool_required_scope name = MCP_SCOPE_WRITE"
    using write_tool_effects [of env name args s1] assms(2) same(1) c(1) by simp
  then have "tk_scope t AND MCP_SCOPE_WRITE \<noteq> 0" using c(2) by (simp add: mcp_token_has_scope_def)
  then have "write_authorized env req s"
    using authorization_token [OF r [unfolded v]] by (auto simp: write_authorized_def)
  moreover have "mh_tokens s' = mh_tokens s" using c(1) same(2) by (simp add: tool_call_tokens)
  moreover have "mh_control s' = mh_control s \<and> mh_rules s' = mh_rules s" if "\<not> rc_mcp_write_enabled (he_config env)"
    using writes_refused [OF that] c(1) same(1) by (simp add: tool_call_control tool_call_rules effects_def)
  ultimately show ?thesis by blast
qed


text \<open>
  C35. The exported lines are the last ones of the file, oldest first and without their line ends, however long the file
  is: reading only 384 bytes for each requested line loses none of them as long as no line is longer than 382 bytes
  (the log store cuts an entry at 319).
\<close>

theorem exported_log_is_tail:
  assumes "he_alloc env" "he_log env modbus = Some (log_text ls)" "\<forall>l \<in> set ls. log_line l"
    "text_item ''stream'' args = Some (if modbus then ''modbus'' else ''system'')"
    "number_item ''max_lines'' args = Some x" "1 \<le> value_int x" "value_int x \<le> 200"
  shows "call_export_logs env args = (Some (JObj
      [(''stream'', JStr (if modbus then ''modbus'' else ''system'')),
       (''line_count'', JNum (f64_of_int (min (value_int x) (int (length ls))))),
       (''lines'', JArr (map (\<lambda>l. JStr (trim_line l)) (lastn (nat (value_int x)) ls)))]), False)"
proof -
  let ?c = "nat (value_int x)"
  obtain es n k where t: "collect_log_file (he_log env modbus) (replicate ?c [], 0, 0) = (es, n, k)" by (metis prod_cases3)
  have boot: "tail_ok ?c (replicate ?c [], 0, 0)" "tail_lines (replicate ?c [], 0, 0) = []"
    using assms(6) by (simp_all add: tail_ok_def tail_lines_def ring_ok_def ring_list_def)
  have f: "(es, n, k) = fold tail_push (read_lines (log_window ?c (log_text ls))) (replicate ?c [], 0, 0)"
    using t by (simp add: collect_log_file_def assms(2))
  have ok: "tail_ok ?c (es, n, k)" unfolding f by (rule tail.inv_pushes [OF boot(1)])
  have "tail_lines (es, n, k) = lastn ?c (read_lines (log_window ?c (log_text ls)))"
    unfolding f tail.entries_pushes [OF boot(1)] boot(2) by simp
  also have "\<dots> = map trim_line (lastn ?c ls)"
    using log_window_tail [OF assms(3), of ?c] assms(6) by (simp add: lastn_def drop_map)
  finally have l: "tail_lines (es, n, k) = map trim_line (lastn ?c ls)" .
  then have "k = min ?c (length ls)" by (metis length_lastn length_map length_ring_list tail_lines_def case_prod_conv)
  then have k: "int k = min (value_int x) (int (length ls))" using assms(6) by simp
  have m: "map (\<lambda>i. JStr (es ! (((if k < length es then 0 else n) + i) mod length es))) [0..<k] =
      map JStr (tail_lines (es, n, k))"
    unfolding tail_read [OF ok, symmetric] by simp
  have "\<not> value_int x < 1" "\<not> 200 < value_int x" using assms(6,7) by simp_all
  then show ?thesis
    using t m k l assms(1,4) by (cases modbus) (simp_all add: call_export_logs_def assms(5) Let_def comp_def)
qed

section \<open>Witnesses\<close>

text \<open>A gateway with one administrator token, whose secret is \<open>x\<close>, and one point of a pump.\<close>

definition demo_mcp :: "json option \<Rightarrow> mcp_env" where
  "demo_mcp body = \<lparr>he_config = load_defaults\<lparr>rc_security := (rc_security load_defaults)\<lparr>sec_auth_enabled := True\<rparr>,
       rc_mcp_write_enabled := True\<rparr>,
     he_now = 1000, he_sha = zero_sha, he_alloc = True, he_pool = pool_boot, he_write = coil_env,
     he_rules_io = \<lparr>ri_alloc = True, ri_open = ESP_OK, ri_write = ESP_OK, ri_commit = ESP_OK\<rparr>,
     he_discover = demo_bus, he_uif = idle_uif two_media, he_space = None, he_mounted = True,
     he_log = (\<lambda>m. if m then None else Some (log_text [''a'', ''b'', ''c''])),
     he_print = (\<lambda>_. Some ''{}''), he_parse = (\<lambda>_. body), he_serialize = (\<lambda>_ _. None), he_ub = (\<lambda>_. 0)\<rparr>"

definition demo_mcp_state :: mcp_state where
  "demo_mcp_state = \<lparr>mh_buckets = rl_boot, mh_authorized = 0, mh_auth_failures = 0, mh_last_ms = 0, mh_tokens = one_admin,
     mh_control = coil_state, mh_rules = automation_boot None, mh_discover = demo_discover\<rparr>"

definition discover_call :: json where
  "discover_call = JObj [(''method'', JStr ''tools/call''), (''params'', JObj [(''name'', JStr ''discover_modbus_devices'')])]"

definition demo_post :: http_request where
  "demo_post = \<lparr>hq_peer = No_socket, hq_authorization = Some ''Bearer x'', hq_content_len = 2, hq_chunks = [''{}'']\<rparr>"

lemma demo_token:
  "mcp_token_authenticate (Some (sha256_hex zero_sha ''x'')) one_admin = Inl (hd (ts_tokens one_admin))"
proof -
  have "digest_equal (replicate 64 CHR ''0'') (replicate 64 CHR ''0'')" by (simp add: digest_equal_iff)
  moreover have "digest_is_valid (Some (replicate 64 CHR ''0''))" by (simp add: digest_is_valid_def list_all_iff hex_val_def)
  ultimately show ?thesis by (simp add: mcp_token_authenticate_def zero_digest one_admin_tokens)
qed

lemma demo_authorized:
  "\<exists>s. require_mcp_authorization (demo_mcp b) demo_post demo_mcp_state = (s, Inl (hd (ts_tokens one_admin))) \<and>
     effects s = effects demo_mcp_state"
proof -
  have b: "rl_boot = \<lparr>rb_peer = 0, rb_failures = 0, rb_lock_until_ms = 0\<rparr> # replicate 15 \<lparr>rb_peer = 0, rb_failures = 0, rb_lock_until_ms = 0\<rparr>"
    unfolding rl_boot_def replicate_Suc [symmetric] by simp
  have c: "mcp_rl_check 0 1000 rl_boot = (rl_boot, ESP_OK, 0)"
    unfolding b by (simp add: rl_check_head)
  show ?thesis
    by (simp add: require_mcp_authorization_def demo_mcp_def demo_post_def demo_mcp_state_def peer_ip_key_def c demo_token effects_def)
qed

lemma demo_body: "read_body (demo_mcp (Some j)) demo_post = Some j"
  by (simp add: read_body_def demo_post_def demo_mcp_def receive_body.simps eval_nat_numeral)

lemma demo_items:
  "text_item ''method'' discover_call = Some ''tools/call''"
  "cjson_item ''params'' discover_call = Some (JObj [(''name'', JStr ''discover_modbus_devices'')])"
  "text_item ''name'' (JObj [(''name'', JStr ''discover_modbus_devices'')]) = Some ''discover_modbus_devices''"
  "cjson_item ''arguments'' (JObj [(''name'', JStr ''discover_modbus_devices'')]) = None"
  by (simp_all add: discover_call_def text_item_def cjson_item_def find_item_def same_name_def lower_char_def)

lemma demo_discover_starts:
  "dv_task (fst (call_discover (demo_mcp b) (JObj []) demo_discover))" "\<not> dv_task demo_discover"
  by (simp_all add: call_discover_def number_item_def cjson_item_def find_item_def modbus_discover_scan_bus_def demo_mcp_def
      demo_discover_def demo_bus_def create_task_def discover_set_task_state_def set_result_def zero_result_def word_less_nat_alt)

lemma mcp_changes_authorized_witness:
  "write_authorized (demo_mcp (Some discover_call)) demo_post demo_mcp_state"
proof -
  let ?env = "demo_mcp (Some discover_call)"
  let ?t = "hd (ts_tokens one_admin)"
  obtain s where s: "require_mcp_authorization ?env demo_post demo_mcp_state = (s, Inl ?t)" "effects s = effects demo_mcp_state"
    using demo_authorized by blast
  have "mcp_token_has_scope (Some ?t) MCP_SCOPE_WRITE" by (simp add: mcp_token_has_scope_def one_admin_tokens)
  then have c: "fst (call_method ?env ?t discover_call s) = fst (tool_call ?env ''discover_modbus_devices'' (JObj []) s)"
    by (simp add: call_method_def demo_items tool_required_scope_def split_beta Let_def)
  obtain s' v where m: "call_method ?env ?t discover_call s = (s', v)" by fastforce
  then have "fst (handle_request ?env ?t discover_call s) = s'"
    by (cases v) (auto simp: handle_request_def demo_items Let_def split: prod.split)
  then have "dv_task (mh_discover (fst (mcp_post_handler ?env demo_post demo_mcp_state)))"
    using c s demo_discover_starts
    by (simp add: mcp_post_handler_def demo_body m tool_call_discover effects_def demo_mcp_state_def)
  moreover have "\<not> dv_task (mh_discover demo_mcp_state)" using demo_discover_starts by (simp add: demo_mcp_state_def)
  ultimately have "effects (fst (mcp_post_handler ?env demo_post demo_mcp_state)) \<noteq> effects demo_mcp_state"
    by (auto simp: effects_def)
  from mcp_changes_authorized [OF refl this] show ?thesis by blast
qed

text \<open>A rule that raises an alert when the pump runs.\<close>

definition pump_rule :: json where
  "pump_rule = JObj [(''rule_name'', JStr ''r''), (''source_device'', JStr ''pump''), (''source_point'', JStr ''run''),
     (''operator'', JStr ''gt''), (''action'', JStr ''mqtt_alert''), (''threshold'', JNum 0)]"

lemma pump_rule_items:
  "text_item ''rule_name'' pump_rule = Some ''r''" "text_item ''source_device'' pump_rule = Some ''pump''"
  "text_item ''source_point'' pump_rule = Some ''run''" "text_item ''operator'' pump_rule = Some ''gt''"
  "text_item ''action'' pump_rule = Some ''mqtt_alert''" "number_item ''threshold'' pump_rule = Some 0"
  "number_item ''hysteresis'' pump_rule = None" "number_item ''hold_ms'' pump_rule = None"
  "number_item ''cooldown_ms'' pump_rule = None" "cjson_item ''enabled'' pump_rule = None"
  "text_item ''interlock_device'' pump_rule = None" "text_item ''interlock_point'' pump_rule = None"
  "cjson_item ''interlock_required_state'' pump_rule = None" "text_item ''alert_topic'' pump_rule = None"
  "text_item ''alert_message'' pump_rule = None"
  by (simp_all add: pump_rule_def text_item_def number_item_def cjson_item_def find_item_def same_name_def lower_char_def)

lemma demo_checks: "f64_isfinite 0" "f32_of_f64 0 = 0" "\<not> f32_lt 0 0"
  by (simp_all add: f64_isfinite_def f64_get_def fp_unpack_def f32_of_f64_def f32_put_def fp_round_def fp_pack_def f32_lt_def f32_get_def)

abbreviation alert_rule :: automation_rule where
  "alert_rule \<equiv> blank_rule\<lparr>ar_name := ''r'', ar_source_device := ''pump'', ar_source_point := ''run''\<rparr>"

lemma demo_required: "required_fields pump_rule = (alert_rule, ''gt'', ''mqtt_alert'', True)"
proof -
  have j: "json_string pump_rule ''rule_name'' 48 True = (''r'', True)"
    "json_string pump_rule ''source_device'' 32 True = (''pump'', True)"
    "json_string pump_rule ''source_point'' 32 True = (''run'', True)"
    "json_string pump_rule ''operator'' 8 True = (''gt'', True)"
    "json_string pump_rule ''action'' 16 True = (''mqtt_alert'', True)"
    by (simp_all add: json_string_def pump_rule_items strlcpy_def)
  show ?thesis
    by (simp only: required_fields_def j Let_def prod.case not_True_eq_False if_False)
qed

lemma demo_optional: "optional_fields env pump_rule alert_rule = alert_rule"
  by (simp add: optional_fields_def json_string_def pump_rule_items is_true_def blank_rule_def)

lemma demo_interlock: "interlock_fault (demo_mcp None) alert_rule = None"
proof -
  have "lookup_rule_point (demo_mcp None) ''pump'' ''run'' \<noteq> None"
    using coil_found by (simp add: lookup_rule_point_def demo_mcp_def)
  then show ?thesis by (simp add: interlock_fault_def blank_rule_def)
qed

lemma demo_action: "action_fields env pump_rule ''mqtt_alert'' alert_rule = (alert_rule, None)"
  by (simp add: action_fields_def json_string_def pump_rule_items blank_rule_def)

lemma demo_fields: "alert_rule\<lparr>ar_operator := 0, ar_threshold := 0\<rparr> = alert_rule"
  "ar_hysteresis alert_rule = 0" "ar_cooldown_ms alert_rule = 1000" "\<not> rule_invalid alert_rule" "ar_id alert_rule = 0"
  by (simp_all add: blank_rule_def rule_invalid_def)

lemma demo_arguments: "rule_arguments (demo_mcp None) pump_rule = (alert_rule, None)"
proof -
  have "parse_rule_operator ''gt'' = Some 0" by (simp add: parse_rule_operator_def operator_names_def)
  then show ?thesis
    by (simp only: rule_arguments_def demo_required pump_rule_items demo_checks demo_fields demo_optional demo_interlock
        demo_action Let_def prod.case option.case not_True_eq_False if_False simp_thms) simp
qed

lemma demo_boot_rules: "au_rules (automation_boot None) = []" "au_next_id (automation_boot None) = 1"
  by (simp_all add: automation_boot_def)


lemma exported_log_is_tail_witness:
  "fst (call_export_logs (demo_mcp None) (JObj [(''stream'', JStr ''system''), (''max_lines'', JNum (f64_of_int 2))])) =
     Some (JObj [(''stream'', JStr ''system''), (''line_count'', JNum (f64_of_int 2)), (''lines'', JArr [JStr ''b'', JStr ''c''])])"
proof -
  let ?args = "JObj [(''stream'', JStr ''system''), (''max_lines'', JNum (f64_of_int 2))]"
  have i: "text_item ''stream'' ?args = Some (if False then ''modbus'' else ''system'')"
    "number_item ''max_lines'' ?args = Some (f64_of_int 2)"
    by (simp_all add: text_item_def number_item_def cjson_item_def find_item_def same_name_def lower_char_def)
  have v: "value_int (f64_of_int 2) = 2" by code_simp
  have l: "\<forall>l \<in> set [''a'', ''b'', ''c'']. log_line l" by (simp add: log_line_def)
  have t: "trim_line ''b'' = ''b''" "trim_line ''c'' = ''c''" by code_simp+
  show ?thesis
    using exported_log_is_tail [OF _ _ l i, of "demo_mcp None"] v t by (simp add: demo_mcp_def lastn_def)
qed

end
