(* ===== verification/Log_Store.thy ===== *)
theory Log_Store
  imports Prelude "HOL-Library.Sublist"
begin

text \<open>
  The logs on the TF card (\<open>storage/log_store.c\<close>): two streams, each with a buffer that producers fill and one that
  the writer empties, rotation of the files and a guard on the free space of the card. The results: whatever producers
  and writer do in turn, every line is on the card, in a buffer or counted as dropped, whole and in order; but the guard
  never frees the rotated Modbus logs, and a line cut to the size of the buffer loses its line end.
\<close>

section \<open>The directory of the logs\<close>

abbreviation LOG_MIN_FREE_BYTES :: nat where "LOG_MIN_FREE_BYTES \<equiv> 2097152"
abbreviation LOG_PENDING_CAP :: nat where "LOG_PENDING_CAP \<equiv> 4096"
abbreviation LOG_FLUSH_THRESHOLD :: nat where "LOG_FLUSH_THRESHOLD \<equiv> 2048"
abbreviation LOG_LINE_MAX :: nat where "LOG_LINE_MAX \<equiv> 320"

definition line_end :: char where "line_end = CHR 0x0A"

text \<open>The files of the directory with their contents, in the order of their creation.\<close>

type_synonym log_files = "(string \<times> string) list"

datatype log_stream_id = LOG_STORE_STREAM_SYSTEM | LOG_STORE_STREAM_MODBUS

definition stream_base :: "log_stream_id \<Rightarrow> string" where
  "stream_base s = (case s of LOG_STORE_STREAM_SYSTEM \<Rightarrow> ''system_'' | LOG_STORE_STREAM_MODBUS \<Rightarrow> ''modbus_comm_'')"

definition log_store_path :: "log_stream_id \<Rightarrow> string" where
  "log_store_path s = (case s of LOG_STORE_STREAM_SYSTEM \<Rightarrow> ''system.log'' | LOG_STORE_STREAM_MODBUS \<Rightarrow> ''modbus_comm.log'')"

definition stream_max_bytes :: "log_stream_id \<Rightarrow> nat" where
  "stream_max_bytes s = (case s of LOG_STORE_STREAM_SYSTEM \<Rightarrow> 1048576 | LOG_STORE_STREAM_MODBUS \<Rightarrow> 4194304)"

text \<open>\<open>strstr\<close>, \<open>strncmp(a, b, n) == 0\<close> and \<open>strcmp(a, b) < 0\<close> on strings without NUL.\<close>

fun contains :: "string \<Rightarrow> string \<Rightarrow> bool" where
  "contains p [] \<longleftrightarrow> p = []"
| "contains p (c # cs) \<longleftrightarrow> take (length p) (c # cs) = p \<or> contains p cs"

definition same_start :: "nat \<Rightarrow> string \<Rightarrow> string \<Rightarrow> bool" where
  "same_start n a b \<longleftrightarrow> take n a = take n b"

fun strcmp_less :: "string \<Rightarrow> string \<Rightarrow> bool" where
  "strcmp_less _ [] \<longleftrightarrow> False"
| "strcmp_less [] (b # bs) \<longleftrightarrow> True"
| "strcmp_less (a # as) (b # bs) \<longleftrightarrow> (of_char a :: nat) < of_char b \<or> a = b \<and> strcmp_less as bs"

definition is_log_file :: "string \<Rightarrow> bool" where
  "is_log_file name \<longleftrightarrow> (same_start 7 name ''system_'' \<or> same_start 13 name ''modbus_comm_'') \<and> contains ''.log'' name"

text \<open>
  What the writer finds: whether the card is there and its directory can be read, whether the file opens, opens again
  after a rotation, has a size and takes how much of a text, the free space for given files, the renaming and removal of
  a file, and the clock, or without one the seconds since the start.
\<close>

record flush_env =
  fe_mounted :: bool
  fe_open :: bool
  fe_reopen :: bool
  fe_stat :: bool
  fe_dir :: bool
  fe_written :: "string \<Rightarrow> nat"
  fe_space :: "log_files \<Rightarrow> nat option"
  fe_rename :: "string \<Rightarrow> bool"
  fe_unlink :: "string \<Rightarrow> bool"
  fe_clock :: "string option"
  fe_uptime_s :: nat

definition make_timestamp :: "string option \<Rightarrow> nat \<Rightarrow> string" where
  "make_timestamp clock uptime = strlcpy 32 (case clock of Some t \<Rightarrow> t | None \<Rightarrow> ''uptime-'' @ dec uptime)"

definition older_log :: "string \<Rightarrow> string \<Rightarrow> string" where
  "older_log name oldest = (if is_log_file name \<and> (oldest = [] \<or> strcmp_less name oldest) then strlcpy 64 name else oldest)"

definition delete_oldest :: "flush_env \<Rightarrow> log_files \<Rightarrow> log_files \<times> esp_err" where
  "delete_oldest env files =
     (if \<not> fe_dir env then (files, ESP_ERR_NOT_FOUND)
      else
        let oldest = fold (\<lambda>(name, _). older_log name) files []
        in if oldest = [] then (files, ESP_ERR_NOT_FOUND)
        else if map_of files oldest = None \<or> \<not> fe_unlink env oldest then (files, ESP_FAIL)
        else (filter (\<lambda>(name, _). name \<noteq> oldest) files, ESP_OK))"

text \<open>At most sixteen files are removed (\<open>for (i = 0; i < 16; ++i)\<close>).\<close>

fun free_files :: "flush_env \<Rightarrow> nat \<Rightarrow> log_files \<Rightarrow> log_files" where
  "free_files env 0 files = files"
| "free_files env (Suc k) files =
     (case fe_space env files of
        None \<Rightarrow> files
      | Some n \<Rightarrow>
          (if n \<ge> LOG_MIN_FREE_BYTES then files
           else case delete_oldest env files of (files, err) \<Rightarrow> if err \<noteq> ESP_OK then files else free_files env k files))"

definition ensure_free_space :: "flush_env \<Rightarrow> log_files \<Rightarrow> log_files" where
  "ensure_free_space env files = free_files env 16 files"

definition open_append :: "string \<Rightarrow> log_files \<Rightarrow> log_files" where
  "open_append name files = (if map_of files name = None then files @ [(name, [])] else files)"

definition file_size_of :: "flush_env \<Rightarrow> string \<Rightarrow> log_files \<Rightarrow> nat" where
  "file_size_of env name files = (if fe_stat env then (case map_of files name of Some t \<Rightarrow> length t | None \<Rightarrow> 0) else 0)"

definition append_file :: "string \<Rightarrow> string \<Rightarrow> log_files \<Rightarrow> log_files" where
  "append_file name text files = map (\<lambda>f. if fst f = name then (name, snd f @ text) else f) files"

definition rotated_name :: "log_stream_id \<Rightarrow> string \<Rightarrow> nat \<Rightarrow> string" where
  "rotated_name s ts i = stream_base s @ ts @ (if i = 1 then [] else CHR ''_'' # dec i) @ ''.log''"

text \<open>The first free name of 999, or the last of them.\<close>

definition free_name :: "flush_env \<Rightarrow> log_stream_id \<Rightarrow> log_files \<Rightarrow> string" where
  "free_name env s files =
     (let name = rotated_name s (make_timestamp (fe_clock env) (fe_uptime_s env))
      in case List.find (\<lambda>i. map_of files (name i) = None) [1..<1000] of Some i \<Rightarrow> name i | None \<Rightarrow> name 999)"

definition rename_file :: "string \<Rightarrow> string \<Rightarrow> log_files \<Rightarrow> log_files" where
  "rename_file old new files = map (\<lambda>f. if fst f = old then (new, snd f) else f) files"

text \<open>
  A file system that does not take the new name leaves everything as it is. The result says whether the active file
  could be opened again.
\<close>

definition rotate_stream :: "flush_env \<Rightarrow> log_stream_id \<Rightarrow> log_files \<Rightarrow> log_files \<times> bool" where
  "rotate_stream env s files =
     (let rotated = free_name env s files;
          files = (if fe_rename env rotated \<and> map_of files rotated = None
                   then rename_file (log_store_path s) rotated files else files)
      in (if fe_reopen env then open_append (log_store_path s) files else files, fe_reopen env))"

section \<open>The streams\<close>

text \<open>
  A buffer that is not there is \<open>None\<close>. \<open>lg_reported\<close> adds up the numbers of the warnings that lines
  were dropped.
\<close>

record log_stream =
  lg_pending :: "string option"
  lg_flushing :: "string option"
  lg_dropped :: u32
  lg_reported :: nat
  lg_active :: bool
  lg_pending_uptime :: ms
  lg_flushing_uptime :: ms
  lg_last_uptime :: ms

record log_store =
  lo_mutex :: bool
  lo_writer :: bool
  lo_writer_failed :: bool
  lo_stream :: "log_stream_id \<Rightarrow> log_stream"
  lo_files :: log_files

definition log_boot :: "log_files \<Rightarrow> log_store" where
  "log_boot files = \<lparr>lo_mutex = False, lo_writer = False, lo_writer_failed = False,
     lo_stream = (\<lambda>_. \<lparr>lg_pending = None, lg_flushing = None, lg_dropped = 0, lg_reported = 0, lg_active = False,
       lg_pending_uptime = 0, lg_flushing_uptime = 0, lg_last_uptime = 0\<rparr>),
     lo_files = files\<rparr>"

definition set_stream :: "log_stream_id \<Rightarrow> log_stream \<Rightarrow> log_store \<Rightarrow> log_store" where
  "set_stream s q st = st\<lparr>lo_stream := (lo_stream st)(s := q)\<rparr>"

definition buffered :: "string option \<Rightarrow> string" where
  "buffered b = (case b of Some t \<Rightarrow> t | None \<Rightarrow> [])"

lemma buffered_simps [simp]: "buffered (Some t) = t" "buffered None = []"
  by (simp_all add: buffered_def)

definition write_pending :: "flush_env \<Rightarrow> log_stream_id \<Rightarrow> log_store \<Rightarrow> log_store" where
  "write_pending env s st =
     (let q = lo_stream st s; chunk = buffered (lg_flushing q); name = log_store_path s; files = lo_files st;
          lost = q\<lparr>lg_active := False, lg_flushing := Some []\<rparr>
      in if chunk = [] then st
      else if \<not> fe_mounted env \<or> \<not> fe_open env then set_stream s lost st
      else
        let files = open_append name files;
            size = file_size_of env name files;
            files = ensure_free_space env files;
            (files, opened) = (if size + length chunk > stream_max_bytes s then rotate_stream env s files else (files, True))
        in if \<not> opened then (set_stream s lost st)\<lparr>lo_files := files\<rparr>
        else
          let n = min (fe_written env chunk) (length chunk);
              q = (if n = length chunk then q\<lparr>lg_active := True, lg_last_uptime := lg_flushing_uptime q, lg_flushing := Some []\<rparr>
                   else lost)
          in (set_stream s q st)\<lparr>lo_files := append_file name (take n chunk) files\<rparr>)"

text \<open>The two times the writer holds the mutex: the buffers are swapped, and an empty one is given back.\<close>

definition take_pending :: "log_stream_id \<Rightarrow> log_store \<Rightarrow> log_store" where
  "take_pending s st =
     (let q = lo_stream st s;
          q = (if buffered (lg_pending q) \<noteq> [] \<and> buffered (lg_flushing q) = []
               then q\<lparr>lg_flushing := lg_pending q, lg_pending := lg_flushing q,
                       lg_flushing_uptime := lg_pending_uptime q, lg_pending_uptime := 0\<rparr>
               else q)
      in set_stream s (q\<lparr>lg_dropped := 0, lg_reported := lg_reported q + unat (lg_dropped q)\<rparr>) st)"

definition give_back :: "log_stream_id \<Rightarrow> log_store \<Rightarrow> log_store" where
  "give_back s st =
     (let q = lo_stream st s
      in if lg_pending q = None \<and> lg_flushing q \<noteq> None then set_stream s (q\<lparr>lg_pending := Some [], lg_flushing := None\<rparr>) st
      else st)"

section \<open>The producers\<close>

record append_env =
  pe_mounted :: bool
  pe_mutex :: bool
  pe_take :: bool
  pe_alloc :: bool
  pe_task :: "bool \<times> bool"
  pe_clock :: "string option"
  pe_uptime_s :: nat

definition ensure_writer_task :: "append_env \<Rightarrow> log_store \<Rightarrow> log_store \<times> bool" where
  "ensure_writer_task env st =
     (if lo_writer st then (st, True)
      else if lo_writer_failed st then (st, False)
      else if fst (pe_task env) \<or> snd (pe_task env) then (st\<lparr>lo_writer := True\<rparr>, True)
      else (st\<lparr>lo_writer_failed := True\<rparr>, False))"

text \<open>The state and whether the writer is woken.\<close>

definition append_to_stream :: "append_env \<Rightarrow> log_stream_id \<Rightarrow> string \<Rightarrow> ms \<Rightarrow> log_store \<Rightarrow> log_store \<times> bool" where
  "append_to_stream env s line uptime st =
     (if line = [] \<or> \<not> pe_mounted env \<or> lo_writer_failed st \<or> \<not> lo_mutex st \<and> \<not> pe_mutex env then (st, False)
      else
        let st = st\<lparr>lo_mutex := True\<rparr>
        in if \<not> pe_take env then (st, False)
        else
          let q = lo_stream st s
          in if lg_pending q = None \<and> \<not> pe_alloc env then (st, False)
          else
            let q = q\<lparr>lg_pending := Some (buffered (lg_pending q))\<rparr>;
                (st, ok) = ensure_writer_task env (set_stream s q st);
                text = buffered (lg_pending q)
            in if \<not> ok then (st, False)
            else if length text + length line > LOG_PENDING_CAP
            then (set_stream s (q\<lparr>lg_dropped := lg_dropped q + 1\<rparr>) st, True)
            else (set_stream s (q\<lparr>lg_pending := Some (text @ line), lg_pending_uptime := uptime\<rparr>) st,
                  length text + length line \<ge> LOG_FLUSH_THRESHOLD))"

definition or_default :: "string \<Rightarrow> string option \<Rightarrow> string" where
  "or_default d t = (case t of Some x \<Rightarrow> (if x = [] then d else x) | None \<Rightarrow> d)"

definition system_line :: "append_env \<Rightarrow> string option \<Rightarrow> string option \<Rightarrow> string" where
  "system_line env level text = strlcpy LOG_LINE_MAX
     (make_timestamp (pe_clock env) (pe_uptime_s env) @ '' ['' @ or_default ''info'' level @ ''] '' @ or_default [] text @ [line_end])"

definition log_store_append :: "append_env \<Rightarrow> string option \<Rightarrow> string option \<Rightarrow> ms \<Rightarrow> log_store \<Rightarrow> log_store \<times> bool" where
  "log_store_append env level text uptime st =
     (if \<not> pe_mounted env \<or> lo_writer_failed st then (st, False)
      else append_to_stream env LOG_STORE_STREAM_SYSTEM (system_line env level text) uptime st)"

definition modbus_line :: "string \<Rightarrow> string" where
  "modbus_line line =
     (let t = take (LOG_LINE_MAX - 1) line in if t = [] \<or> last t = line_end then t else t @ [line_end])"

definition log_store_append_modbus :: "append_env \<Rightarrow> string option \<Rightarrow> ms \<Rightarrow> log_store \<Rightarrow> log_store \<times> bool" where
  "log_store_append_modbus env line uptime st =
     (case line of
        None \<Rightarrow> (st, False)
      | Some l \<Rightarrow>
          (if \<not> pe_mounted env \<or> lo_writer_failed st \<or> modbus_line l = [] then (st, False)
           else append_to_stream env LOG_STORE_STREAM_MODBUS (modbus_line l) uptime st))"

text \<open>A call of a producer, and the line it hands on.\<close>

datatype producer_call =
    Event append_env "string option" "string option" ms
  | Frame append_env "string option" ms

fun log_call :: "producer_call \<Rightarrow> log_store \<Rightarrow> log_store" where
  "log_call (Event env level text uptime) st = fst (log_store_append env level text uptime st)"
| "log_call (Frame env line uptime) st = fst (log_store_append_modbus env line uptime st)"

section \<open>The writer\<close>

text \<open>
  One stream in one round of the writer: \<open>took\<close> and \<open>gave\<close> say whether it got the mutex, \<open>during\<close> and
  \<open>after\<close> are the calls of producers before and after the write. The result also says whether the round goes on.
\<close>

record flush_turn =
  ft_env :: flush_env
  ft_took :: bool
  ft_gave :: bool
  ft_during :: "producer_call list"
  ft_after :: "producer_call list"

definition flush_stream :: "log_stream_id \<Rightarrow> flush_turn \<Rightarrow> log_store \<Rightarrow> log_store \<times> bool" where
  "flush_stream s t st =
     (if \<not> ft_took t then (st, False)
      else
        let st = fold log_call (ft_during t) (take_pending s st);
            st = fold log_call (ft_after t) (write_pending (ft_env t) s st)
        in (if ft_gave t then give_back s st else st, True))"

definition flush_all :: "flush_turn \<Rightarrow> flush_turn \<Rightarrow> log_store \<Rightarrow> log_store" where
  "flush_all sys mb st =
     (if \<not> lo_mutex st then st
      else case flush_stream LOG_STORE_STREAM_SYSTEM sys st of
        (st, go_on) \<Rightarrow> if go_on then fst (flush_stream LOG_STORE_STREAM_MODBUS mb st) else st)"

section \<open>Reading\<close>

definition log_store_is_active :: "log_store \<Rightarrow> bool" where
  "log_store_is_active st = lg_active (lo_stream st LOG_STORE_STREAM_SYSTEM)"

definition log_store_last_flushed_uptime :: "log_stream_id \<Rightarrow> log_store \<Rightarrow> ms" where
  "log_store_last_flushed_uptime s st = lg_last_uptime (lo_stream st s)"

fun insert_name :: "string \<Rightarrow> string list \<Rightarrow> string list" where
  "insert_name x [] = [x]"
| "insert_name x (y # ys) = (if strcmp_less y x then y # insert_name x ys else x # y # ys)"

definition history_of :: "log_stream_id \<Rightarrow> string \<Rightarrow> bool" where
  "history_of s name \<longleftrightarrow>
     (let b = stream_base s; k = length b
      in k + 4 \<le> length name \<and> take k name = b \<and> drop (length name - 4) name = ''.log'' \<and>
         \<not> (take (k - 1) name = take (k - 1) b \<and> take 4 (drop (k - 1) name) = ''.log''))"

text \<open>\<open>room\<close>: how many names there is memory for. The active file comes last.\<close>

definition log_store_list_files :: "bool \<Rightarrow> bool \<Rightarrow> nat \<Rightarrow> log_stream_id \<Rightarrow> log_files \<Rightarrow> string list" where
  "log_store_list_files mounted dir room s files =
     (if \<not> mounted \<or> \<not> dir then []
      else foldr insert_name (take room (filter (history_of s) (map fst files))) [] @ [log_store_path s])"

section \<open>The files of one stream\<close>

definition belongs :: "log_stream_id \<Rightarrow> string \<Rightarrow> bool" where
  "belongs s name \<longleftrightarrow> name = log_store_path s \<or> take (length (stream_base s)) name = stream_base s"

definition stream_files :: "log_stream_id \<Rightarrow> log_files \<Rightarrow> log_files" where
  "stream_files s files = filter (\<lambda>f. belongs s (fst f)) files"

definition stream_text :: "log_stream_id \<Rightarrow> log_files \<Rightarrow> string" where
  "stream_text s files = concat (map snd (stream_files s files))"

text \<open>The names are different, and the active file is the newest of its stream.\<close>

definition files_ok :: "log_stream_id \<Rightarrow> log_files \<Rightarrow> bool" where
  "files_ok s files \<longleftrightarrow> distinct (map fst (stream_files s files)) \<and>
     (log_store_path s \<in> fst ` set (stream_files s files) \<longrightarrow> fst (last (stream_files s files)) = log_store_path s)"

lemma belongs_simps [simp]:
  "belongs s (log_store_path s)" "belongs s (rotated_name s ts i)"
  "belongs s' (log_store_path s) \<longleftrightarrow> s' = s" "belongs s' (rotated_name s ts i) \<longleftrightarrow> s' = s"
  "rotated_name s ts i \<noteq> log_store_path s"
  by (cases s; cases s'; simp add: belongs_def stream_base_def log_store_path_def rotated_name_def)+

lemma stream_open [simp]:
  "stream_files s (open_append (log_store_path s') files) =
     (if s = s' then open_append (log_store_path s) (stream_files s files) else stream_files s files)"
proof -
  have "map_of (filter (\<lambda>f. belongs s (fst f)) files) (log_store_path s) = None \<longleftrightarrow> map_of files (log_store_path s) = None"
    by (auto simp: map_of_eq_None_iff image_iff)
  then show ?thesis by (auto simp: stream_files_def open_append_def)
qed

lemma stream_append [simp]:
  "stream_files s (append_file (log_store_path s') x files) =
     (if s = s' then append_file (log_store_path s) x (stream_files s files) else stream_files s files)"
proof -
  have "filter (\<lambda>f. belongs s (fst f)) (append_file (log_store_path s') x files) =
      (if s = s' then append_file (log_store_path s) x (filter (\<lambda>f. belongs s (fst f)) files) else filter (\<lambda>f. belongs s (fst f)) files)"
    by (induction files) (auto simp: append_file_def)
  then show ?thesis by (simp add: stream_files_def)
qed

text \<open>Once the active file is open it is the last of its stream.\<close>

lemma files_opened:
  assumes "files_ok s files"
  obtains H t where "open_append (log_store_path s) (stream_files s files) = H @ [(log_store_path s, t)]"
    "log_store_path s \<notin> fst ` set H" "concat (map snd H) @ t = stream_text s files" "distinct (map fst H)"
proof (cases "log_store_path s \<in> fst ` set (stream_files s files)")
  case True
  then have "stream_files s files \<noteq> []" by auto
  then obtain H f where f: "stream_files s files = H @ [f]" by (metis rev_exhaust)
  then have "fst f = log_store_path s" using assms True unfolding files_ok_def by (metis last_snoc)
  then have "f = (log_store_path s, snd f)" by (cases f) simp
  with f have g: "stream_files s files = H @ [(log_store_path s, snd f)]" by simp
  moreover have "open_append (log_store_path s) (stream_files s files) = stream_files s files"
    using True by (simp add: open_append_def map_of_eq_None_iff)
  ultimately show ?thesis using assms by (intro that [of H "snd f"]) (auto simp: files_ok_def stream_text_def)
next
  case False
  then have "open_append (log_store_path s) (stream_files s files) = stream_files s files @ [(log_store_path s, [])]"
    by (simp add: open_append_def map_of_eq_None_iff)
  then show ?thesis using False assms by (intro that) (auto simp: files_ok_def stream_text_def)
qed

lemma append_last: "p \<notin> fst ` set H \<Longrightarrow> append_file p x (H @ [(p, t)]) = H @ [(p, t @ x)]"
  by (force simp: append_file_def intro: map_idI)

text \<open>A rotation keeps the texts of both streams.\<close>

lemma rotate_files:
  assumes "stream_files s files = H @ [(log_store_path s, t)]" "log_store_path s \<notin> fst ` set H" "distinct (map fst H)"
    "rotate_stream env s files = (files', True)"
  shows "\<exists>H' t'. stream_files s files' = H' @ [(log_store_path s, t')] \<and> log_store_path s \<notin> fst ` set H' \<and>
    distinct (map fst H') \<and> concat (map snd H') @ t' = concat (map snd H) @ t"
    "s' \<noteq> s \<Longrightarrow> stream_files s' files' = stream_files s' files"
proof -
  let ?p = "log_store_path s"
  define r where "r = free_name env s files"
  let ?ren = "\<lambda>f. if fst f = ?p then (r, snd f) else f"
  have r: "r \<noteq> ?p" "belongs x r \<longleftrightarrow> x = s" for x
    by (simp_all add: r_def free_name_def Let_def split: option.split)
  define moved where "moved \<longleftrightarrow> fe_rename env r \<and> map_of files r = None"
  have f': "files' = open_append ?p (if moved then map ?ren files else files)"
    using assms(4) by (auto simp: rotate_stream_def Let_def r_def [symmetric] moved_def rename_file_def split: if_splits)
  have ren: "filter (\<lambda>f. belongs x (fst f)) (map ?ren files) =
      (if x = s then map ?ren (stream_files s files) else stream_files x files)" for x
    unfolding stream_files_def by (induction files) (auto simp: r)
  have H: "map ?ren H = H" using assms(2) by (force intro: map_idI)
  show "\<exists>H' t'. stream_files s files' = H' @ [(?p, t')] \<and> ?p \<notin> fst ` set H' \<and>
    distinct (map fst H') \<and> concat (map snd H') @ t' = concat (map snd H) @ t"
  proof (cases moved)
    case True
    have "stream_files s (map ?ren files) = H @ [(r, t)]" using ren [of s] assms(1) H by (simp add: stream_files_def)
    moreover have "r \<notin> fst ` set H"
    proof -
      have "r \<notin> fst ` set files" using True by (simp add: moved_def map_of_eq_None_iff)
      moreover have "set H \<subseteq> set files" using arg_cong [OF assms(1), of set] by (auto simp: stream_files_def)
      ultimately show ?thesis by auto
    qed
    moreover have "stream_files s files' = open_append ?p (stream_files s (map ?ren files))" using True by (simp add: f')
    ultimately show ?thesis
      using r(1) assms(2,3)
      by (intro exI [of _ "H @ [(r, t)]"] exI [of _ "[]"]) (auto simp: open_append_def map_of_eq_None_iff)
  next
    case False
    then have "stream_files s files' = open_append ?p (stream_files s files)" by (simp add: f')
    then show ?thesis using assms(1-3)
      by (intro exI [of _ H] exI [of _ t]) (simp add: open_append_def map_of_eq_None_iff)
  qed
  show "stream_files s' files' = stream_files s' files" if "s' \<noteq> s"
    using ren [of s'] that by (simp add: f' stream_files_def [of s' "map _ _"])
qed

section \<open>Runs\<close>

text \<open>The stream and the line a call hands on, and the calls and turns in which nothing fails.\<close>

fun call_line :: "producer_call \<Rightarrow> log_stream_id \<times> string" where
  "call_line (Event env level text uptime) = (LOG_STORE_STREAM_SYSTEM, system_line env level text)"
| "call_line (Frame env line uptime) = (LOG_STORE_STREAM_MODBUS, case line of Some l \<Rightarrow> modbus_line l | None \<Rightarrow> [])"

fun call_env :: "producer_call \<Rightarrow> append_env" where
  "call_env (Event env level text uptime) = env"
| "call_env (Frame env line uptime) = env"

fun call_uptime :: "producer_call \<Rightarrow> ms" where
  "call_uptime (Event env level text uptime) = uptime"
| "call_uptime (Frame env line uptime) = uptime"

definition good_call :: "producer_call \<Rightarrow> bool" where
  "good_call c \<longleftrightarrow> (let e = call_env c in pe_mounted e \<and> pe_mutex e \<and> pe_take e \<and> pe_alloc e \<and> (fst (pe_task e) \<or> snd (pe_task e)))"

definition good_turn :: "flush_turn \<Rightarrow> bool" where
  "good_turn t \<longleftrightarrow> (let e = ft_env t in fe_mounted e \<and> fe_open e \<and> fe_reopen e \<and> (\<forall>x. length x \<le> fe_written e x) \<and>
       (\<forall>fs n. fe_space e fs = Some n \<longrightarrow> LOG_MIN_FREE_BYTES \<le> n)) \<and>
     (\<forall>c \<in> set (ft_during t @ ft_after t). good_call c)"

definition call_lines :: "log_stream_id \<Rightarrow> producer_call list \<Rightarrow> string list" where
  "call_lines s cs = map snd (filter (\<lambda>l. fst l = s \<and> snd l \<noteq> []) (map call_line cs))"

datatype log_op = Call producer_call | Turn log_stream_id flush_turn

fun log_step :: "log_op \<Rightarrow> log_store \<Rightarrow> log_store" where
  "log_step (Call c) st = log_call c st"
| "log_step (Turn s t) st = fst (flush_stream s t st)"

fun good_op :: "log_op \<Rightarrow> bool" where
  "good_op (Call c) \<longleftrightarrow> good_call c"
| "good_op (Turn s t) \<longleftrightarrow> good_turn t"

fun op_calls :: "log_op \<Rightarrow> producer_call list" where
  "op_calls (Call c) = [c]"
| "op_calls (Turn s t) = (if ft_took t then ft_during t @ ft_after t else [])"

definition run_lines :: "log_stream_id \<Rightarrow> log_op list \<Rightarrow> string list" where
  "run_lines s ops = call_lines s (concat (map op_calls ops))"

text \<open>What of a stream is on the card and in the buffers, and how many of its lines were dropped.\<close>

definition flushing :: "log_stream_id \<Rightarrow> log_store \<Rightarrow> string" where
  "flushing s st = buffered (lg_flushing (lo_stream st s))"

definition pending :: "log_stream_id \<Rightarrow> log_store \<Rightarrow> string" where
  "pending s st = buffered (lg_pending (lo_stream st s))"

definition contents :: "log_stream_id \<Rightarrow> log_store \<Rightarrow> string" where
  "contents s st = stream_text s (lo_files st) @ flushing s st @ pending s st"

definition lines_dropped :: "log_stream_id \<Rightarrow> log_store \<Rightarrow> nat" where
  "lines_dropped s st = lg_reported (lo_stream st s) + unat (lg_dropped (lo_stream st s))"

definition log_inv :: "log_store \<Rightarrow> bool" where
  "log_inv st \<longleftrightarrow> \<not> lo_writer_failed st \<and> (\<forall>s. files_ok s (lo_files st))"

text \<open>The lines \<open>ls\<close> are in the contents, whole and in order, or counted.\<close>

definition accounted :: "log_stream_id \<Rightarrow> string list \<Rightarrow> log_store \<Rightarrow> log_store \<Rightarrow> bool" where
  "accounted s ls st st' \<longleftrightarrow> (\<exists>kept. subseq kept ls \<and> contents s st' = contents s st @ concat kept \<and>
     lines_dropped s st' + length kept = lines_dropped s st + length ls)"

lemma accounted_refl: "contents s st' = contents s st \<Longrightarrow> lines_dropped s st' = lines_dropped s st \<Longrightarrow> accounted s [] st st'"
  by (simp add: accounted_def)

lemma accounted_trans:
  assumes "accounted s xs a b" "accounted s ys b c"
  shows "accounted s (xs @ ys) a c"
proof -
  obtain k l where "subseq k xs" "contents s b = contents s a @ concat k"
      "lines_dropped s b + length k = lines_dropped s a + length xs"
      "subseq l ys" "contents s c = contents s b @ concat l" "lines_dropped s c + length l = lines_dropped s b + length ys"
    using assms by (auto simp: accounted_def)
  then have "subseq (k @ l) (xs @ ys) \<and> contents s c = contents s a @ concat (k @ l) \<and>
      lines_dropped s c + length (k @ l) = lines_dropped s a + length (xs @ ys)"
    by (auto intro: list_emb_append_mono)
  then show ?thesis unfolding accounted_def by blast
qed

lemma accounted_drops: "accounted s ls a b \<Longrightarrow> lines_dropped s b \<le> lines_dropped s a + length ls"
  by (auto simp: accounted_def)

lemmas log_parts = contents_def flushing_def pending_def lines_dropped_def set_stream_def buffered_def

text \<open>A call.\<close>

lemma append_effect:
  fixes u :: ms
  assumes "log_inv st" "pe_mounted e" "pe_mutex e" "pe_take e" "pe_alloc e" "fst (pe_task e) \<or> snd (pe_task e)" "line \<noteq> []"
    "lines_dropped s st < 2 ^ 32 - 1"
  defines "st' \<equiv> fst (append_to_stream e s line u st)"
  shows "log_inv st'" "lo_files st' = lo_files st" "flushing x st' = flushing x st"
    "x \<noteq> s \<Longrightarrow> contents x st' = contents x st \<and> lines_dropped x st' = lines_dropped x st" "accounted s [line] st st'"
proof -
  let ?q = "lo_stream st s" and ?t = "pending s st"
  have failed: "\<not> lo_writer_failed st" using assms(1) by (simp add: log_inv_def)
  have d: "unat (lg_dropped ?q + 1) = unat (lg_dropped ?q) + 1"
    using assms(8) by (simp add: lines_dropped_def unat_word_ariths)
  define q' where "q' = (if length ?t + length line > LOG_PENDING_CAP
      then ?q\<lparr>lg_pending := Some ?t, lg_dropped := lg_dropped ?q + 1\<rparr>
      else ?q\<lparr>lg_pending := Some (?t @ line), lg_pending_uptime := u\<rparr>)"
  have st': "st' = st\<lparr>lo_mutex := True, lo_writer := True, lo_stream := (lo_stream st)(s := q')\<rparr>"
    using assms(2-7) failed
    by (cases "lo_writer st"; cases st) (auto simp: st'_def append_to_stream_def ensure_writer_task_def Let_def q'_def set_stream_def pending_def)
  show "log_inv st'" using assms(1) by (simp add: st' log_inv_def)
  show "lo_files st' = lo_files st" by (simp add: st')
  show "flushing x st' = flushing x st" by (simp add: st' flushing_def q'_def)
  show "x \<noteq> s \<Longrightarrow> contents x st' = contents x st \<and> lines_dropped x st' = lines_dropped x st" by (simp add: st' log_parts)
  show "accounted s [line] st st'"
  proof (cases "length ?t + length line > LOG_PENDING_CAP")
    case True
    then have "contents s st' = contents s st" "lines_dropped s st' = lines_dropped s st + 1"
      using d by (simp_all add: st' contents_def flushing_def q'_def lines_dropped_def pending_def buffered_def)
    then show ?thesis unfolding accounted_def by (intro exI [of _ "[]"]) simp
  next
    case False
    then have "contents s st' = contents s st @ line" "lines_dropped s st' = lines_dropped s st"
      by (simp_all add: st' contents_def flushing_def q'_def lines_dropped_def pending_def buffered_def)
    then show ?thesis unfolding accounted_def by (intro exI [of _ "[line]"]) simp
  qed
qed

lemma call_effect:
  assumes "log_inv st" "good_call c" "\<forall>s. lines_dropped s st < 2 ^ 32 - 1"
  shows "log_inv (log_call c st)" "flushing x (log_call c st) = flushing x st" "accounted s (call_lines s [c]) st (log_call c st)"
proof -
  obtain t line where c: "call_line c = (t, line)" by fastforce
  have e: "pe_mounted (call_env c)" "pe_mutex (call_env c)" "pe_take (call_env c)" "pe_alloc (call_env c)"
    "fst (pe_task (call_env c)) \<or> snd (pe_task (call_env c))" using assms(2) by (auto simp: good_call_def Let_def)
  have failed: "\<not> lo_writer_failed st" using assms(1) by (simp add: log_inv_def)
  define u where "u = call_uptime c"
  have "append_to_stream (call_env c) t [] u st = (st, False)" by (simp add: append_to_stream_def)
  then have call: "log_call c st = (if line = [] then st else fst (append_to_stream (call_env c) t line u st))"
    using c e(1) failed by (cases c) (auto simp: log_store_append_def log_store_append_modbus_def u_def split: option.splits)
  have "log_inv (log_call c st) \<and> flushing x (log_call c st) = flushing x st \<and> accounted s (call_lines s [c]) st (log_call c st)"
  proof (cases "line = []")
    case True
    then show ?thesis using call assms(1) c by (auto simp: call_lines_def intro: accounted_refl)
  next
    case False
    note a = append_effect [where s = t and u = u, OF assms(1) e False assms(3) [rule_format]]
    show ?thesis using a call False c by (cases "s = t") (auto simp: call_lines_def intro: accounted_refl)
  qed
  then show "log_inv (log_call c st)" "flushing x (log_call c st) = flushing x st" "accounted s (call_lines s [c]) st (log_call c st)"
    by blast+
qed

text \<open>Several calls.\<close>

lemma call_lines_simps [simp]:
  "call_lines s [] = []" "call_lines s (xs @ ys) = call_lines s xs @ call_lines s ys"
  by (simp_all add: call_lines_def)

lemma length_call_lines: "length (call_lines s cs) \<le> length cs"
  using length_filter_le [of "\<lambda>l. fst l = s \<and> snd l \<noteq> []" "map call_line cs"] by (simp add: call_lines_def)

definition below :: "log_store \<Rightarrow> nat \<Rightarrow> bool" where
  "below st n \<longleftrightarrow> (\<forall>s. lines_dropped s st + n < 2 ^ 32)"

lemma below_mono: "below st n \<Longrightarrow> m \<le> n \<Longrightarrow> below st m"
  unfolding below_def by (meson add_left_mono le_less_trans)

text \<open>An operation in which producers make the calls \<open>cs\<close> is sound.\<close>

definition sound :: "producer_call list \<Rightarrow> log_store \<Rightarrow> log_store \<Rightarrow> bool" where
  "sound cs st st' \<longleftrightarrow> log_inv st' \<and> (\<forall>s. accounted s (call_lines s cs) st st')"

lemma sound_refl: "log_inv st' \<Longrightarrow> \<forall>s. contents s st' = contents s st \<and> lines_dropped s st' = lines_dropped s st \<Longrightarrow> sound [] st st'"
  by (simp add: sound_def accounted_refl)

lemma sound_trans: "sound xs a b \<Longrightarrow> sound ys b c \<Longrightarrow> sound (xs @ ys) a c"
  by (auto simp: sound_def intro: accounted_trans)

lemma sound_below: "sound xs a b \<Longrightarrow> below a (length xs + n) \<Longrightarrow> below b n"
proof -
  assume s: "sound xs a b" and b: "below a (length xs + n)"
  have "lines_dropped s b + n < 2 ^ 32" for s
  proof -
    have "lines_dropped s b \<le> lines_dropped s a + length (call_lines s xs)" using s by (auto simp: sound_def dest: accounted_drops)
    moreover have "lines_dropped s a + (length xs + n) < 2 ^ 32" using b by (simp add: below_def)
    ultimately show ?thesis using length_call_lines [of s xs] by linarith
  qed
  then show "below b n" by (simp add: below_def)
qed

lemma calls_effect:
  assumes "log_inv st" "\<forall>c \<in> set cs. good_call c" "below st (length cs)"
  shows "sound cs st (fold log_call cs st) \<and> flushing x (fold log_call cs st) = flushing x st"
  using assms
proof (induction cs arbitrary: st)
  case Nil
  then show ?case by (simp add: sound_refl)
next
  case (Cons c cs)
  have "lines_dropped s st < 2 ^ 32 - 1" for s
  proof -
    have "lines_dropped s st + length (c # cs) < 2 ^ 32" using Cons.prems(3) by (simp only: below_def)
    then show ?thesis by simp
  qed
  then have "\<forall>s. lines_dropped s st < 2 ^ 32 - 1" by blast
  note one = call_effect [OF Cons.prems(1) _ this, of c]
  have s: "sound [c] st (log_call c st)" using one Cons.prems(2) by (simp add: sound_def)
  have "below (log_call c st) (length cs)" using sound_below [OF s] Cons.prems(3) by simp
  then have "sound cs (log_call c st) (fold log_call cs (log_call c st)) \<and>
      flushing x (fold log_call cs (log_call c st)) = flushing x (log_call c st)"
    using Cons.IH one(1) Cons.prems(2) by simp
  then show ?case using sound_trans [OF s] one(2) Cons.prems(2) by simp
qed

text \<open>The three parts of a turn.\<close>

lemma take_effect:
  assumes "log_inv st" "flushing s st = []"
  shows "sound [] st (take_pending s st)" "x \<noteq> s \<Longrightarrow> flushing x (take_pending s st) = flushing x st"
proof -
  let ?st = "take_pending s st"
  have "contents x ?st = contents x st \<and> lines_dropped x ?st = lines_dropped x st" for x
    using assms(2) by (cases "x = s")
      (auto simp: take_pending_def Let_def set_stream_def contents_def flushing_def pending_def lines_dropped_def)
  moreover have "log_inv ?st" using assms(1) by (simp add: take_pending_def Let_def set_stream_def log_inv_def)
  ultimately show "sound [] st ?st" by (intro sound_refl) simp_all
  show "x \<noteq> s \<Longrightarrow> flushing x ?st = flushing x st" by (simp add: take_pending_def Let_def set_stream_def flushing_def)
qed

lemma write_effect:
  assumes "log_inv st" "good_turn t"
  shows "sound [] st (write_pending (ft_env t) s st)" "flushing s (write_pending (ft_env t) s st) = []"
    "x \<noteq> s \<Longrightarrow> flushing x (write_pending (ft_env t) s st) = flushing x st"
proof -
  let ?e = "ft_env t" and ?p = "log_store_path s" and ?chunk = "flushing s st"
  let ?st = "write_pending ?e s st"
  have e: "fe_mounted ?e" "fe_open ?e" "fe_reopen ?e" "\<And>x. length x \<le> fe_written ?e x"
    "\<And>fs n. fe_space ?e fs = Some n \<Longrightarrow> LOG_MIN_FREE_BYTES \<le> n"
    using assms(2) by (auto simp: good_turn_def Let_def)
  have sixteen: "(16 :: nat) = Suc 15" by simp
  have one: "free_files ?e (Suc k) fs = fs" for k fs using e(5) by (auto split: option.split)
  have free: "ensure_free_space ?e fs = fs" for fs unfolding ensure_free_space_def sixteen by (rule one)
  have "sound [] st ?st \<and> flushing s ?st = [] \<and> (x \<noteq> s \<longrightarrow> flushing x ?st = flushing x st)" for x
  proof (cases "?chunk = []")
    case True
    then have "?st = st" by (simp add: write_pending_def flushing_def Let_def)
    then show ?thesis using True assms(1) by (simp add: sound_refl)
  next
    case False
    define f1 where "f1 = open_append ?p (lo_files st)"
    define f2 where "f2 = (if file_size_of ?e ?p f1 + length ?chunk > stream_max_bytes s then rotate_stream ?e s f1 else (f1, True))"
    have opened: "snd f2" using e(3) by (simp add: f2_def rotate_stream_def Let_def)
    have files: "lo_files ?st = append_file ?p ?chunk (fst f2)"
      and st: "lo_writer_failed ?st = lo_writer_failed st"
        "lo_stream ?st = (lo_stream st)(s := (lo_stream st s)\<lparr>lg_active := True,
           lg_last_uptime := lg_flushing_uptime (lo_stream st s), lg_flushing := Some []\<rparr>)"
      using False e opened
      by (simp_all add: write_pending_def Let_def flushing_def free f1_def [symmetric] f2_def [unfolded flushing_def, symmetric] split_beta set_stream_def min_absorb2)
    obtain H t' where h: "stream_files s f1 = H @ [(?p, t')]" "?p \<notin> fst ` set H" "concat (map snd H) @ t' = stream_text s (lo_files st)"
        "distinct (map fst H)"
      using files_opened [of s "lo_files st"] assms(1) by (auto simp: f1_def log_inv_def)
    have "\<exists>H t'. stream_files s (fst f2) = H @ [(?p, t')] \<and> ?p \<notin> fst ` set H \<and> distinct (map fst H) \<and>
        concat (map snd H) @ t' = stream_text s (lo_files st)"
    proof (cases "file_size_of ?e ?p f1 + length ?chunk > stream_max_bytes s")
      case True
      then have "rotate_stream ?e s f1 = (fst f2, True)" using opened by (metis f2_def prod.collapse)
      from rotate_files(1) [OF h(1,2,4) this] show ?thesis using h(3) by simp
    next
      case False
      then show ?thesis using h by (auto simp: f2_def)
    qed
    then obtain H t' where h2: "stream_files s (fst f2) = H @ [(?p, t')]" "?p \<notin> fst ` set H" "distinct (map fst H)"
        "concat (map snd H) @ t' = stream_text s (lo_files st)" by blast
    then have s_files: "stream_files s (lo_files ?st) = H @ [(?p, t' @ ?chunk)]" by (simp add: files append_last)
    have others: "stream_files x (lo_files ?st) = stream_files x (lo_files st)" if "x \<noteq> s" for x
    proof -
      have "stream_files x (fst f2) = stream_files x f1"
      proof (cases "file_size_of ?e ?p f1 + length ?chunk > stream_max_bytes s")
        case True
        then have "rotate_stream ?e s f1 = (fst f2, True)" using opened by (metis f2_def prod.collapse)
        from rotate_files(2) [OF h(1,2,4) this that] show ?thesis .
      qed (simp add: f2_def)
      then show ?thesis using that by (simp add: files f1_def)
    qed
    have grown: "stream_text s (lo_files ?st) = stream_text s (lo_files st) @ ?chunk"
      using h2(4) by (simp add: stream_text_def [of s "lo_files ?st"] s_files)
    have "files_ok x (lo_files ?st)" for x
      using assms(1) h2(2,3) by (cases "x = s") (auto simp: files_ok_def s_files others log_inv_def)
    then have inv: "log_inv ?st" using assms(1) by (simp add: log_inv_def st(1))
    have same: "contents x ?st = contents x st \<and> lines_dropped x ?st = lines_dropped x st" for x
      using grown others by (cases "x = s") (simp_all add: contents_def flushing_def pending_def lines_dropped_def st(2) stream_text_def)
    then show ?thesis using inv by (auto simp: sound_refl flushing_def st(2))
  qed
  then show "sound [] st ?st" "flushing s ?st = []" "x \<noteq> s \<Longrightarrow> flushing x ?st = flushing x st" by blast+
qed

lemma give_effect:
  assumes "log_inv st" "flushing s st = []"
  shows "sound [] st (give_back s st)" "flushing x (give_back s st) = flushing x st"
proof -
  let ?st = "give_back s st"
  have "contents x ?st = contents x st \<and> lines_dropped x ?st = lines_dropped x st \<and> flushing x ?st = flushing x st" for x
    using assms(2) by (cases "x = s")
      (auto simp: give_back_def Let_def set_stream_def contents_def flushing_def pending_def lines_dropped_def)
  moreover have "log_inv ?st" using assms(1) by (simp add: give_back_def Let_def set_stream_def log_inv_def)
  ultimately show "sound [] st ?st" "flushing x ?st = flushing x st" by (simp_all add: sound_refl)
qed

definition idle_writer :: "log_store \<Rightarrow> bool" where
  "idle_writer st \<longleftrightarrow> (\<forall>s. flushing s st = [])"

lemma turn_effect:
  assumes "log_inv st" "idle_writer st" "good_turn t" "below st (length (op_calls (Turn s t)))"
  shows "sound (op_calls (Turn s t)) st (fst (flush_stream s t st)) \<and> idle_writer (fst (flush_stream s t st))"
proof (cases "ft_took t")
  case False
  then show ?thesis using assms(1,2) by (simp add: flush_stream_def sound_refl)
next
  case True
  define a where "a = take_pending s st"
  define b where "b = fold log_call (ft_during t) a"
  define c where "c = write_pending (ft_env t) s b"
  define d where "d = fold log_call (ft_after t) c"
  define z where "z = (if ft_gave t then give_back s d else d)"
  have z: "fst (flush_stream s t st) = z" using True by (simp add: flush_stream_def Let_def z_def d_def c_def b_def a_def)
  have calls: "\<forall>x \<in> set (ft_during t). good_call x" "\<forall>x \<in> set (ft_after t). good_call x"
    using assms(3) by (auto simp: good_turn_def)
  have f0: "flushing x st = []" for x using assms(2) by (simp add: idle_writer_def)
  have n: "below st (length (ft_during t) + length (ft_after t))" using assms(4) True by simp
  note A = take_effect [where s = s, OF assms(1) f0, folded a_def]
  have na: "below a (length (ft_during t) + length (ft_after t))" using sound_below [OF A(1)] n by simp
  then have na': "below a (length (ft_during t))" by (rule below_mono) simp
  have ia: "log_inv a" using A(1) by (simp add: sound_def)
  note B = calls_effect [OF ia calls(1) na', folded b_def]
  have ib: "log_inv b" using B by (simp add: sound_def)
  note C = write_effect [OF ib assms(3), where s = s, folded c_def]
  have ic: "log_inv c" using C(1) by (simp add: sound_def)
  have "below c (length (ft_after t))"
    using sound_below [OF C(1)] sound_below [of "ft_during t" a b "length (ft_after t)"] B na by simp
  note D = calls_effect [OF ic calls(2) this, folded d_def]
  have id: "log_inv d" using D by (simp add: sound_def)
  have fd: "flushing x d = []" for x
  proof (cases "x = s")
    case True
    then show ?thesis using D [of x] C(2) by simp
  next
    case False
    then show ?thesis using D [of x] C(3) [OF False] B [of x] A(2) [OF False] f0 by simp
  qed
  have Z: "sound [] d z \<and> idle_writer z"
    using give_effect [OF id fd] fd id by (auto simp: z_def idle_writer_def sound_refl)
  have "sound ([] @ ft_during t @ [] @ ft_after t @ []) st z"
    using A(1) B C(1) D Z by (blast intro: sound_trans)
  then show ?thesis using Z True by (simp add: z)
qed

lemma run_effect:
  assumes "log_inv st" "idle_writer st" "\<forall>x \<in> set ops. good_op x" "below st (length (concat (map op_calls ops)))"
  shows "sound (concat (map op_calls ops)) st (fold log_step ops st) \<and> idle_writer (fold log_step ops st)"
  using assms
proof (induction ops arbitrary: st)
  case Nil
  then show ?case by (simp add: sound_refl)
next
  case (Cons x ops)
  have n: "below st (length (op_calls x))" using Cons.prems(4) by (rule below_mono) simp
  have x: "sound (op_calls x) st (log_step x st) \<and> idle_writer (log_step x st)"
  proof (cases x)
    case (Call c)
    have "sound [c] st (fold log_call [c] st) \<and> flushing y (fold log_call [c] st) = flushing y st" for y
      using Cons.prems(1,3) n Call by (intro calls_effect) simp_all
    then show ?thesis using Cons.prems(2) Call by (simp add: idle_writer_def)
  next
    case (Turn s t)
    then show ?thesis using turn_effect [OF Cons.prems(1,2), of t s] Cons.prems(3) n by simp
  qed
  then have "below (log_step x st) (length (concat (map op_calls ops)))"
    using sound_below [of "op_calls x" st "log_step x st"] Cons.prems(4) by simp
  then have "sound (concat (map op_calls ops)) (log_step x st) (fold log_step ops (log_step x st)) \<and>
      idle_writer (fold log_step ops (log_step x st))"
    using Cons.IH Cons.prems(3) x by (simp add: sound_def)
  then show ?case using x sound_trans by fastforce
qed

section \<open>Properties\<close>

text \<open>
  C29. However the calls of producers fall between the steps of the writer, and whether or not the card takes the new
  names of rotated files: as long as the card is mounted, opens and writes its files and has 2 MiB free, and every
  producer gets the mutex within its 50 ms and finds memory for the buffers and the writer task running or startable,
  every line of a stream, as it was formatted and cut to 319 characters, is on the card or in its buffer, whole, once and
  in order, or it is counted as dropped because the buffer was full.
\<close>

theorem log_lines_kept:
  assumes "\<forall>x \<in> set ops. good_op x" "\<forall>s. files_ok s files" "length (concat (map op_calls ops)) < 2 ^ 32"
    "st = fold log_step ops (log_boot files)"
  shows "\<exists>kept. subseq kept (run_lines s ops) \<and>
    stream_text s (lo_files st) @ buffered (lg_pending (lo_stream st s)) = stream_text s files @ concat kept \<and>
    lines_dropped s st + length kept = length (run_lines s ops)"
proof -
  have boot: "log_inv (log_boot files)" "idle_writer (log_boot files)" "below (log_boot files) (length (concat (map op_calls ops)))"
    "contents s (log_boot files) = stream_text s files" "lines_dropped s (log_boot files) = 0"
    using assms(2,3) by (simp_all add: log_boot_def log_inv_def idle_writer_def below_def contents_def flushing_def pending_def
        lines_dropped_def)
  have "accounted s (run_lines s ops) (log_boot files) st" "flushing s st = []"
    using run_effect [OF boot(1,2) assms(1) boot(3)] assms(4) by (simp_all add: sound_def run_lines_def idle_writer_def)
  then show ?thesis using boot(4,5) by (auto simp: accounted_def contents_def pending_def)
qed

definition fine_env :: append_env where
  "fine_env = \<lparr>pe_mounted = True, pe_mutex = True, pe_take = True, pe_alloc = True, pe_task = (True, True),
     pe_clock = None, pe_uptime_s = 0\<rparr>"

definition fine_turn :: "producer_call list \<Rightarrow> flush_turn" where
  "fine_turn cs = \<lparr>ft_env = \<lparr>fe_mounted = True, fe_open = True, fe_reopen = True, fe_stat = True, fe_dir = True,
       fe_written = length, fe_space = (\<lambda>_. None), fe_rename = (\<lambda>_. True), fe_unlink = (\<lambda>_. True), fe_clock = None,
       fe_uptime_s = 0\<rparr>,
     ft_took = True, ft_gave = True, ft_during = cs, ft_after = []\<rparr>"

definition frame_a :: producer_call where "frame_a = Frame fine_env (Some ''a'') 1"
definition frame_b :: producer_call where "frame_b = Frame fine_env (Some ''b'') 2"

lemma log_lines_kept_witness:
  "\<exists>st kept. st = fold log_step [Call frame_a, Turn LOG_STORE_STREAM_MODBUS (fine_turn [frame_b])] (log_boot []) \<and>
     subseq kept [''a'' @ [line_end], ''b'' @ [line_end]] \<and>
     stream_text LOG_STORE_STREAM_MODBUS (lo_files st) @ buffered (lg_pending (lo_stream st LOG_STORE_STREAM_MODBUS)) = concat kept \<and>
     lines_dropped LOG_STORE_STREAM_MODBUS st + length kept = 2"
proof -
  let ?ops = "[Call frame_a, Turn LOG_STORE_STREAM_MODBUS (fine_turn [frame_b])]"
  have good: "\<forall>x \<in> set ?ops. good_op x"
    by (simp add: good_call_def good_turn_def frame_a_def frame_b_def fine_env_def fine_turn_def)
  have ok: "\<forall>s. files_ok s []" by (simp add: files_ok_def stream_files_def)
  have l: "run_lines LOG_STORE_STREAM_MODBUS ?ops = [''a'' @ [line_end], ''b'' @ [line_end]]"
    by (simp add: run_lines_def call_lines_def frame_a_def frame_b_def fine_turn_def modbus_line_def line_end_def)
  have n: "length (concat (map op_calls ?ops)) < 2 ^ 32" by (simp add: fine_turn_def)
  show ?thesis
    using log_lines_kept [OF good ok n refl, of LOG_STORE_STREAM_MODBUS] unfolding l by (simp add: stream_text_def stream_files_def numeral_2_eq_2)
qed

lemma log_file_is_system: "is_log_file name \<Longrightarrow> take 7 name = ''system_''"
proof -
  assume l: "is_log_file name"
  have "\<not> (same_start 13 name ''modbus_comm_'' \<and> contains ''.log'' name)"
  proof
    assume a: "same_start 13 name ''modbus_comm_'' \<and> contains ''.log'' name"
    then have t: "take 13 name = ''modbus_comm_''" by (simp add: same_start_def)
    then have "length name = 12" using length_take [of 13 name] by (cases "length name < 13") auto
    then have "name = ''modbus_comm_''" using t by simp
    then show False using a by simp
  qed
  then show ?thesis using l by (simp add: is_log_file_def same_start_def)
qed

lemma oldest_is_system:
  "oldest = [] \<or> take 7 oldest = ''system_'' \<Longrightarrow>
   fold (\<lambda>(name, _). older_log name) files oldest = [] \<or> take 7 (fold (\<lambda>(name, _). older_log name) files oldest) = ''system_''"
proof (induction files arbitrary: oldest)
  case (Cons f files)
  have "older_log (fst f) oldest = [] \<or> take 7 (older_log (fst f) oldest) = ''system_''"
    using Cons.prems log_file_is_system [of "fst f"] by (auto simp: older_log_def strlcpy_def min_def)
  then show ?case using Cons.IH by (simp add: case_prod_unfold)
qed simp

lemma delete_keeps_modbus:
  "stream_files LOG_STORE_STREAM_MODBUS (fst (delete_oldest env files)) = stream_files LOG_STORE_STREAM_MODBUS files"
proof -
  define o' where "o' = fold (\<lambda>f. older_log (fst f)) files []"
  have "o' = [] \<or> take 7 o' = ''system_''" using oldest_is_system [of "[]" files] by (simp add: o'_def case_prod_unfold)
  then have "o' \<noteq> [] \<Longrightarrow> \<not> belongs LOG_STORE_STREAM_MODBUS o'"
    by (cases o') (auto simp: belongs_def log_store_path_def stream_base_def)
  then show ?thesis
    by (auto simp: delete_oldest_def Let_def case_prod_unfold o'_def [symmetric] stream_files_def intro!: filter_cong)
qed

text \<open>
  C37. The guard on the free space never removes a file of the Modbus log, however full the card is: the names of
  its rotated files are compared with one byte too many.
\<close>

theorem modbus_logs_never_freed:
  "stream_files LOG_STORE_STREAM_MODBUS (ensure_free_space env files) = stream_files LOG_STORE_STREAM_MODBUS files"
proof -
  have "stream_files LOG_STORE_STREAM_MODBUS (free_files env k files) = stream_files LOG_STORE_STREAM_MODBUS files" for k
  proof (induction k arbitrary: files)
    case (Suc k)
    show ?case
      using delete_keeps_modbus [of env files] Suc.IH by (auto split: option.split prod.split)
  qed simp
  then show ?thesis by (simp add: ensure_free_space_def)
qed

end
