(* ===== verification/History_Store.thy ===== *)
theory History_Store
  imports Log_Store Offline_Store Tcm_Context
begin

text \<open>
  The history of contexts on the TF card (\<open>storage/history_store.c\<close>): one JSON line per context, 256 sequence
  numbers to a file, the oldest files removed when the card runs full.
\<close>

section \<open>State\<close>

abbreviation HISTORY_MIN_FREE_BYTES :: nat where "HISTORY_MIN_FREE_BYTES \<equiv> 2097152"
abbreviation HISTORY_RECORDS_PER_FILE :: nat where "HISTORY_RECORDS_PER_FILE \<equiv> 256"

record history_store =
  hs_mutex :: bool
  hs_deleted_files :: int
  hs_files :: log_files

text \<open>
  What an append finds: the card, its directory, the free space for given files, the removal of a file, the opening of
  one, the JSON printer, and how much of a text a file takes.
\<close>

record history_env =
  hi_mounted :: bool
  hi_dir :: bool
  hi_space :: "log_files \<Rightarrow> nat option"
  hi_unlink :: "string \<Rightarrow> bool"
  hi_open :: bool
  hi_print :: "json \<Rightarrow> nat \<Rightarrow> string option"
  hi_alloc :: bool
  hi_written :: "string \<Rightarrow> nat"

definition history_store_init :: "bool \<Rightarrow> history_store \<Rightarrow> history_store \<times> esp_err" where
  "history_store_init mutex st =
     (let st = (if hs_mutex st then st else st\<lparr>hs_mutex := mutex\<rparr>)
      in (st, if hs_mutex st then ESP_OK else ESP_ERR_NO_MEM))"

section \<open>The guard\<close>

definition history_name :: "string \<Rightarrow> bool" where
  "history_name name \<longleftrightarrow> same_start 8 name ''history_'' \<and> contains ''.jsonl'' name"

definition older_history :: "string \<Rightarrow> string \<Rightarrow> string" where
  "older_history name oldest = (if history_name name \<and> (oldest = [] \<or> strcmp_less name oldest) then strlcpy 64 name else oldest)"

definition delete_oldest_history :: "history_env \<Rightarrow> history_store \<Rightarrow> history_store \<times> esp_err" where
  "delete_oldest_history env st =
     (if \<not> hi_dir env then (st, ESP_ERR_NOT_FOUND)
      else
        let oldest = fold (\<lambda>(name, _). older_history name) (hs_files st) []
        in if oldest = [] then (st, ESP_ERR_NOT_FOUND)
        else if map_of (hs_files st) oldest = None \<or> \<not> hi_unlink env oldest then (st, ESP_FAIL)
        else (st\<lparr>hs_files := filter (\<lambda>(name, _). name \<noteq> oldest) (hs_files st), hs_deleted_files := hs_deleted_files st + 1\<rparr>, ESP_OK))"

fun free_history :: "history_env \<Rightarrow> nat \<Rightarrow> history_store \<Rightarrow> history_store" where
  "free_history env 0 st = st"
| "free_history env (Suc k) st =
     (case hi_space env (hs_files st) of
        None \<Rightarrow> st
      | Some n \<Rightarrow>
          (if n \<ge> HISTORY_MIN_FREE_BYTES then st
           else case delete_oldest_history env st of (st, err) \<Rightarrow> if err \<noteq> ESP_OK then st else free_history env k st))"

section \<open>Appending\<close>

definition history_file :: "u32 \<Rightarrow> string" where
  "history_file seq =
     (let d = dec (unat seq div HISTORY_RECORDS_PER_FILE) in ''history_'' @ replicate (10 - length d) CHR ''0'' @ d @ ''.jsonl'')"

text \<open>What of a text and its line end gets into the file, and whether that was all.\<close>

definition write_line :: "(string \<Rightarrow> nat) \<Rightarrow> string \<Rightarrow> string \<times> bool" where
  "write_line written text =
     (let n = min (written text) (length text)
      in if n < length text then (take n text, False)
      else if written [line_end] < 1 then (text, False) else (text @ [line_end], True))"

definition history_store_append :: "history_env \<Rightarrow> tcm_context option \<Rightarrow> history_store \<Rightarrow> history_store \<times> esp_err" where
  "history_store_append env context st =
     (case context of
        None \<Rightarrow> (st, ESP_ERR_INVALID_ARG)
      | Some c \<Rightarrow>
          (if \<not> hi_mounted env \<or> \<not> hs_mutex st then (st, ESP_ERR_INVALID_STATE)
           else
             let st = free_history env 16 st; name = history_file (c_sequence_id c)
             in if \<not> hi_open env then (st, ESP_FAIL)
             else
               let files = open_append name (hs_files st);
                   (added, ok) = (case tcm_serialize_json (hi_print env) (hi_alloc env) c TCM_MAX_JSON_LEN of
                       (Some text, n) \<Rightarrow> (if n > 0 then write_line (hi_written env) text else ([], False))
                     | (None, _) \<Rightarrow> ([], False))
               in (st\<lparr>hs_files := append_file name added files\<rparr>, if ok then ESP_OK else ESP_FAIL)))"

definition history_store_deleted_files :: "history_store \<Rightarrow> int" where
  "history_store_deleted_files st = hs_deleted_files st"

section \<open>Results\<close>

lemma map_of_append_file: "map_of (append_file name x files) name = map_option (\<lambda>t. t @ x) (map_of files name)"
  by (induction files) (auto simp: append_file_def)

lemma map_of_append_other: "m \<noteq> name \<Longrightarrow> map_of (append_file name x files) m = map_of files m"
  by (induction files) (auto simp: append_file_def)

lemma open_append_found: "\<exists>t. map_of (open_append name files) name = Some t"
  by (auto simp: open_append_def map_add_def)

text \<open>A successful append leaves the JSON of the context as the last line of the file its number belongs to.\<close>

lemma history_line_last:
  assumes "history_store_append env (Some c) st = (st', ESP_OK)"
  shows "\<exists>old text n. tcm_serialize_json (hi_print env) (hi_alloc env) c TCM_MAX_JSON_LEN = (Some text, n) \<and>
    map_of (hs_files st') (history_file (c_sequence_id c)) = Some (old @ text @ [line_end])"
proof -
  let ?name = "history_file (c_sequence_id c)"
  let ?files = "open_append ?name (hs_files (free_history env 16 st))"
  obtain r n where r: "tcm_serialize_json (hi_print env) (hi_alloc env) c TCM_MAX_JSON_LEN = (r, n)" by fastforce
  then obtain t where j: "tcm_serialize_json (hi_print env) (hi_alloc env) c TCM_MAX_JSON_LEN = (Some t, n)"
    and w: "snd (write_line (hi_written env) t)" "hs_files st' = append_file ?name (fst (write_line (hi_written env) t)) ?files"
    using assms by (cases r) (auto simp: history_store_append_def Let_def split_beta split: if_splits)
  have "fst (write_line (hi_written env) t) = t @ [line_end]"
    using w(1) by (auto simp: write_line_def Let_def split: if_splits)
  moreover obtain old where "map_of ?files ?name = Some old" using open_append_found by blast
  ultimately have "map_of (hs_files st') ?name = Some (old @ t @ [line_end])"
    by (simp add: w(2) map_of_append_file)
  then show ?thesis using j by blast
qed

end
